(* ===== verification/Prelude.thy ===== *)
theory Prelude
  imports Main "HOL-Library.Word"
begin

text \<open>
  Shared vocabulary of the development: machine integers at their width, C strings,
  result codes, the collections of rewrite rules the component theories fill, and the
  generic lemmas on lists and words that more than one component uses.
\<close>

section \<open>Types and result codes\<close>

type_synonym byte = "8 word"
type_synonym u16 = "16 word"
type_synonym u32 = "32 word"
type_synonym u64 = "64 word"

text \<open>A pointer as the C and C++ code can see it: never assigned, null, or an object.\<close>

datatype 'a ptr = Uninit | Null | Ptr 'a

text \<open>The result codes of the SSH library (\<open>libssh.h\<close>), as C \<open>int\<close>s.\<close>

abbreviation (input) SSH_OK :: int where "SSH_OK \<equiv> 0"
abbreviation (input) SSH_ERROR :: int where "SSH_ERROR \<equiv> -1"
abbreviation (input) SSH_AGAIN :: int where "SSH_AGAIN \<equiv> -2"
abbreviation (input) SSH_EOF :: int where "SSH_EOF \<equiv> -127"

section \<open>Collections\<close>

named_theorems str_simps "evaluation rules of the string operations"
named_theorems reg_simps "rules of the client registries"
named_theorems buf_simps "rules of the byte buffers"

section \<open>Lists\<close>

text \<open>The bytes before the first NUL: what C sees of a character array.\<close>

definition c_str :: "string \<Rightarrow> string" where
  "c_str s = takeWhile (\<lambda>c. c \<noteq> CHR 0x00) s"

lemma c_str_id [simp]: "CHR 0x00 \<notin> set s \<Longrightarrow> c_str s = s"
  by (auto simp: c_str_def takeWhile_eq_all_conv)

lemma c_str_idem [simp]: "c_str (c_str s) = c_str s"
  by (auto simp: c_str_def takeWhile_eq_all_conv dest: set_takeWhileD)

lemma take_drop_split: "n \<le> length xs \<Longrightarrow> xs = take n xs @ drop n xs"
  by simp

lemma filter_id_conv': "filter P xs = xs \<longleftrightarrow> (\<forall>x\<in>set xs. P x)"
  by (induction xs) (auto, metis Suc_n_not_le_n length_Cons length_filter_le)

text \<open>The first index at which a predicate holds.\<close>

fun find_index :: "('a \<Rightarrow> bool) \<Rightarrow> 'a list \<Rightarrow> nat option" where
  "find_index P [] = None"
| "find_index P (x # xs) = (if P x then Some 0 else map_option Suc (find_index P xs))"

lemma find_index_None: "find_index P xs = None \<longleftrightarrow> (\<forall>x\<in>set xs. \<not> P x)"
  by (induction xs) auto

lemma find_index_Some:
  "find_index P xs = Some i \<Longrightarrow> i < length xs \<and> P (xs ! i) \<and> (\<forall>j<i. \<not> P (xs ! j))"
proof (induction xs arbitrary: i)
  case Nil
  then show ?case by simp
next
  case (Cons x xs)
  then show ?case by (cases i) (auto split: if_splits simp: less_Suc_eq_0_disj)
qed

section \<open>Step systems\<close>

text \<open>The states a step relation reaches from its start states.\<close>

inductive reach :: "('s \<Rightarrow> bool) \<Rightarrow> ('s \<Rightarrow> 's \<Rightarrow> bool) \<Rightarrow> 's \<Rightarrow> bool"
  for start :: "'s \<Rightarrow> bool" and step :: "'s \<Rightarrow> 's \<Rightarrow> bool" where
  reach_start: "start s \<Longrightarrow> reach start step s"
| reach_step: "reach start step s \<Longrightarrow> step s t \<Longrightarrow> reach start step t"

text \<open>A step system with an inductive invariant: every reachable state satisfies it.\<close>

locale step_system =
  fixes start :: "'s \<Rightarrow> bool"
    and step :: "'s \<Rightarrow> 's \<Rightarrow> bool"
    and inv :: "'s \<Rightarrow> bool"
  assumes start_inv: "start s \<Longrightarrow> inv s"
    and step_inv: "step s t \<Longrightarrow> inv s \<Longrightarrow> inv t"
begin

lemma reach_inv: "reach start step s \<Longrightarrow> inv s"
  by (induction rule: reach.induct) (auto intro: start_inv step_inv)

lemma reach_step_inv: "reach start step s \<Longrightarrow> step s t \<Longrightarrow> inv t"
  by (blast intro: reach_inv step_inv)

lemma reach_weaken: "reach start step s \<Longrightarrow> (\<And>t. inv t \<Longrightarrow> P t) \<Longrightarrow> P s"
  by (blast dest: reach_inv)

end

section \<open>Words\<close>

lemma unat_less_size: "unat (w :: 'a::len word) < 2 ^ LENGTH('a)"
  by simp

lemma unat_add_no_wrap:
  "unat (a :: 'a::len word) + unat b < 2 ^ LENGTH('a) \<Longrightarrow> unat (a + b) = unat a + unat b"
  by (simp add: unat_word_ariths)

lemma word_add_overflow_iff:
  "(a + b < (a :: 'a::len word)) \<longleftrightarrow> 2 ^ LENGTH('a) \<le> unat a + unat b"
  using no_olen_add_nat [of a b] by (auto simp: not_le)

lemma word_add_overflow_iff':
  "(a + b < (b :: 'a::len word)) \<longleftrightarrow> 2 ^ LENGTH('a) \<le> unat a + unat b"
  unfolding add.commute [of a b] add.commute [of "unat a" "unat b"] by (rule word_add_overflow_iff)

end
