(* ===== verification/Url_Code.thy ===== *)
theory Url_Code
  imports Prelude
begin

text \<open>
  The \<open>URLCode\<close> library the download handler decodes paths with (\<open>URLCode.cpp\<close>).
  Indexing a \<open>String\<close> past its end yields the NUL character, and appending \<open>String(c)\<close>
  for the NUL character appends nothing.
\<close>

definition hex2dec :: "char \<Rightarrow> int" where
  "hex2dec c = (let n = int (of_char c) in
     if 48 \<le> n \<and> n \<le> 57 then n - 48
     else if 97 \<le> n \<and> n \<le> 102 then n - 97 + 10
     else if 65 \<le> n \<and> n \<le> 70 then n - 65 + 10
     else -1)"

definition dec2hex :: "nat \<Rightarrow> char" where
  "dec2hex c = (if c \<le> 9 then char_of (c + 48) else if c \<le> 15 then char_of (c + 65 - 10) else char_of (255::nat))"

definition one_char :: "char \<Rightarrow> string" where
  "one_char c = (if c = CHR 0x00 then [] else [c])"

definition unreserved :: "char \<Rightarrow> bool" where
  "unreserved c \<longleftrightarrow> (let n = (of_char c :: nat) in
     48 \<le> n \<and> n \<le> 57 \<or> 97 \<le> n \<and> n \<le> 122 \<or> 65 \<le> n \<and> n \<le> 90) \<or> c = CHR ''/'' \<or> c = CHR ''.''"

fun urlencode :: "string \<Rightarrow> string" where
  "urlencode [] = []"
| "urlencode (c # cs) =
     (if unreserved c then one_char c @ urlencode cs
      else (let j = (of_char c :: nat); i1 = j div 16; i0 = j - i1 * 16 in
            one_char (CHR ''%'') @ one_char (dec2hex i1) @ one_char (dec2hex i0) @ urlencode cs))"

definition decoded_char :: "char \<Rightarrow> char \<Rightarrow> char" where
  "decoded_char c1 c0 = char_of (nat ((hex2dec c1 * 16 + hex2dec c0) mod 256))"

fun urldecode :: "string \<Rightarrow> string" where
  "urldecode [] = []"
| "urldecode (c # cs) =
     (if c \<noteq> CHR ''%'' then one_char c @ urldecode cs
      else (case cs of
              c1 # c0 # rest \<Rightarrow> one_char (decoded_char c1 c0) @ urldecode rest
            | [c1] \<Rightarrow> one_char (decoded_char c1 (CHR 0x00))
            | [] \<Rightarrow> one_char (decoded_char (CHR 0x00) (CHR 0x00))))"

lemma of_char_less: "(of_char c :: nat) < 256"
  using of_char_mod_256 [of c, where 'a = nat] by (metis mod_less_divisor zero_less_numeral)

lemma nibbles:
  assumes "(j :: nat) < 256"
  shows "j div 16 < 16" "j - j div 16 * 16 < 16" "j div 16 * 16 + (j - j div 16 * 16) = j"
  using assms by (simp_all add: less_mult_imp_div_less minus_div_mult_eq_mod)

lemma of_char_dec2hex:
  "n < 16 \<Longrightarrow> (of_char (dec2hex n) :: nat) = (if n \<le> 9 then n + 48 else n + 55)"
  by (simp add: dec2hex_def)

lemma hex2dec_dec2hex: "n < 16 \<Longrightarrow> hex2dec (dec2hex n) = int n"
  by (simp add: hex2dec_def of_char_dec2hex Let_def)

lemma dec2hex_not_nul: "n < 16 \<Longrightarrow> dec2hex n \<noteq> CHR 0x00"
proof
  assume "n < 16" and "dec2hex n = CHR 0x00"
  then have "(of_char (dec2hex n) :: nat) = 0" by simp
  with \<open>n < 16\<close> show False by (simp add: of_char_dec2hex split: if_splits)
qed

lemma decoded_nibbles:
  "decoded_char (dec2hex (of_char c div 16)) (dec2hex (of_char c - of_char c div 16 * 16)) = c"
proof -
  let ?j = "of_char c :: nat"
  note bounds = nibbles [OF of_char_less [of c]]
  have val: "int (?j div 16) * 16 + int (?j - ?j div 16 * 16) = int ?j"
    using arg_cong [OF bounds(3), of int] by (simp only: of_nat_add of_nat_mult of_nat_numeral)
  show ?thesis
    unfolding decoded_char_def hex2dec_dec2hex [OF bounds(1)] hex2dec_dec2hex [OF bounds(2)] val
    using of_char_less [of c] by simp
qed

text \<open>Decoding undoes encoding, for every path without NUL characters.\<close>

lemma urldecode_urlencode:
  assumes "CHR 0x00 \<notin> set s"
  shows "urldecode (urlencode s) = s"
  using assms
proof (induction s)
  case Nil
  then show ?case by simp
next
  case (Cons c s)
  let ?j = "of_char c :: nat"
  note nib = nibbles(1,2) [OF of_char_less [of c]]
  show ?case
  proof (cases "unreserved c")
    case True
    then have "c \<noteq> CHR ''%''" by (auto simp: unreserved_def)
    with True Cons show ?thesis by (auto simp: one_char_def)
  next
    case False
    moreover have "c \<noteq> CHR 0x00" using Cons.prems by auto
    ultimately show ?thesis using Cons nib
      by (simp add: one_char_def dec2hex_not_nul decoded_nibbles Let_def)
  qed
qed

end
