(* ===== verification/Arduino_String.thy ===== *)
theory Arduino_String
  imports Prelude
begin

text \<open>
  The operations of the Arduino core's \<open>String\<close> class that \<open>src/main.cpp\<close> uses, as the
  class documents them: the string type of the language the program is written in.
  Positions are C \<open>unsigned int\<close>s of 32 bits, so a negative argument (such as
  \<open>length() - 1\<close> of the empty string) wraps before it is used. \<open>indexOf\<close> and
  \<open>lastIndexOf\<close> return a signed \<open>int\<close>, -1 when nothing is found.
\<close>

definition uint32 :: "int \<Rightarrow> nat" where
  "uint32 i = nat (i mod 2 ^ 32)"

definition str_len :: "string \<Rightarrow> int" where
  "str_len s = int (length s)"

text \<open>\<open>substring(from, to)\<close>: swapped when out of order, empty past the end, clipped.\<close>

definition substring :: "string \<Rightarrow> int \<Rightarrow> int \<Rightarrow> string" where
  "substring s from to =
     (let a = uint32 from; b = uint32 to; l = min a b; r = max a b in
      if length s \<le> l then [] else take (min r (length s) - l) (drop l s))"

definition substring_from :: "string \<Rightarrow> int \<Rightarrow> string" where
  "substring_from s from = substring s from (str_len s)"

fun last_index_nat :: "char \<Rightarrow> string \<Rightarrow> nat option" where
  "last_index_nat c [] = None"
| "last_index_nat c (x # xs) =
     (case last_index_nat c xs of
        Some i \<Rightarrow> Some (Suc i)
      | None \<Rightarrow> if x = c then Some 0 else None)"

definition last_index_of :: "string \<Rightarrow> char \<Rightarrow> int" where
  "last_index_of s c = (case last_index_nat c s of None \<Rightarrow> -1 | Some i \<Rightarrow> int i)"

definition index_of_from :: "string \<Rightarrow> char \<Rightarrow> int \<Rightarrow> int" where
  "index_of_from s c from =
     (let a = uint32 from in
      if length s \<le> a then -1
      else (case find_index (\<lambda>x. x = c) (drop a s) of None \<Rightarrow> -1 | Some i \<Rightarrow> int (a + i)))"

definition index_of :: "string \<Rightarrow> char \<Rightarrow> int" where
  "index_of s c = index_of_from s c 0"

definition is_space :: "char \<Rightarrow> bool" where
  "is_space c \<longleftrightarrow> c \<in> {CHR '' '', CHR 0x09, CHR 0x0A, CHR 0x0B, CHR 0x0C, CHR 0x0D}"

definition str_trim :: "string \<Rightarrow> string" where
  "str_trim s = rev (dropWhile is_space (rev (dropWhile is_space s)))"

definition is_digit :: "char \<Rightarrow> bool" where
  "is_digit c \<longleftrightarrow> 48 \<le> (of_char c :: nat) \<and> (of_char c :: nat) \<le> 57"

fun digits_value :: "nat \<Rightarrow> string \<Rightarrow> nat" where
  "digits_value acc [] = acc"
| "digits_value acc (c # cs) =
     (if is_digit c then digits_value (10 * acc + (of_char c - 48)) cs else acc)"

text \<open>\<open>toInt\<close>: \<open>atol\<close> of the characters, 0 when there is no number.\<close>

definition to_int :: "string \<Rightarrow> int" where
  "to_int s =
     (case dropWhile is_space s of
        [] \<Rightarrow> 0
      | c # cs \<Rightarrow>
          if c = CHR ''-'' then - int (digits_value 0 cs)
          else if c = CHR ''+'' then int (digits_value 0 cs)
          else int (digits_value 0 (c # cs)))"

text \<open>\<open>replace\<close>: every occurrence, left to right, not looking inside a replacement.\<close>

function str_replace :: "string \<Rightarrow> string \<Rightarrow> string \<Rightarrow> string" where
  "str_replace s pat rep =
     (if pat = [] \<or> s = [] then s
      else if take (length pat) s = pat then rep @ str_replace (drop (length pat) s) pat rep
      else hd s # str_replace (tl s) pat rep)"
  by pat_completeness auto
termination
  by (relation "measure (\<lambda>(s, pat, rep). length s)") (auto simp: neq_Nil_conv)

declare str_replace.simps [simp del]

section \<open>Facts the components use\<close>

lemma uint32_small [str_simps]: "0 \<le> i \<Longrightarrow> i < 2 ^ 32 \<Longrightarrow> uint32 i = nat i"
  by (simp add: uint32_def)

lemma last_index_nat_append:
  "c \<notin> set ys \<Longrightarrow> last_index_nat c (xs @ c # ys) = Some (length xs)"
proof -
  have none: "last_index_nat c ys = None" if "c \<notin> set ys" for ys
    using that by (induction ys) auto
  show "c \<notin> set ys \<Longrightarrow> last_index_nat c (xs @ c # ys) = Some (length xs)"
    by (induction xs) (auto simp: none)
qed

lemma last_index_nat_None: "last_index_nat c xs = None \<longleftrightarrow> c \<notin> set xs"
  by (induction xs) (auto split: option.splits)

text \<open>What the authentication code computes with \<open>lastIndexOf\<close> and \<open>substring\<close>: the
  characters after the last occurrence.\<close>

definition after_last :: "char \<Rightarrow> string \<Rightarrow> string" where
  "after_last c s = substring s (last_index_of s c + 1) (str_len s)"

lemma after_last_append:
  assumes "c \<notin> set ys" and "length (xs @ c # ys) < 2 ^ 32"
  shows "after_last c (xs @ c # ys) = ys"
proof -
  have "last_index_of (xs @ c # ys) c = int (length xs)"
    using assms(1) by (simp add: last_index_of_def last_index_nat_append)
  with assms(2) show ?thesis
    by (simp add: after_last_def substring_def str_len_def uint32_def Let_def nat_add_distrib)
qed

lemma after_last_none:
  assumes "c \<notin> set s" and "length s < 2 ^ 32"
  shows "after_last c s = s"
proof -
  have "last_index_of s c = -1"
    using assms(1) last_index_nat_None [of c s] by (simp add: last_index_of_def)
  with assms(2) show ?thesis
    by (auto simp: after_last_def substring_def str_len_def uint32_def Let_def)
qed

lemma substring_free:
  assumes "c \<notin> set s"
  shows "c \<notin> set (substring s i j)"
  using assms by (auto simp: substring_def Let_def dest: in_set_takeD in_set_dropD)

lemma split_last:
  assumes "c \<in> set s"
  obtains xs ys where "s = xs @ c # ys" and "c \<notin> set ys"
  using assms by (metis split_list_last)

lemma after_last_free:
  assumes "length s < 2 ^ 32"
  shows "c \<notin> set (after_last c s)"
proof (cases "c \<in> set s")
  case True
  then obtain xs ys where s: "s = xs @ c # ys" and ys: "c \<notin> set ys"
    by (rule split_last)
  with assms after_last_append [OF ys] show ?thesis by simp
next
  case False
  with assms show ?thesis by (simp add: after_last_none)
qed

end
