(* ===== verification/Http_Headers.thy ===== *)
theory Http_Headers
  imports Prelude
begin

text \<open>
  Header lists and responses of the HTTPS server library
  (\<open>HTTPHeader.cpp\<close>, \<open>HTTPHeaders.cpp\<close>, \<open>HTTPResponse.cpp\<close>). A header list is the
  vector of (normalised name, value) pairs in insertion order; setting a header replaces
  the first entry of that name or appends one. The locale \<open>header_store\<close> states what
  the rest of the server relies on.
\<close>

section \<open>Header names\<close>

definition ascii_upper :: "char \<Rightarrow> char" where
  "ascii_upper c = (let n = (of_char c :: nat) in
     if 97 \<le> n \<and> n \<le> 122 then char_of (n - 32) else c)"

definition ascii_lower :: "char \<Rightarrow> char" where
  "ascii_lower c = (let n = (of_char c :: nat) in
     if 65 \<le> n \<and> n \<le> 90 then char_of (n + 32) else c)"

definition is_alnum :: "char \<Rightarrow> bool" where
  "is_alnum c \<longleftrightarrow> (let n = (of_char c :: nat) in
     48 \<le> n \<and> n \<le> 57 \<or> 65 \<le> n \<and> n \<le> 90 \<or> 97 \<le> n \<and> n \<le> 122)"

text \<open>\<open>normalizeHeaderName\<close>: the first letter of every word upper case, the rest lower.\<close>

fun normalize_from :: "bool \<Rightarrow> string \<Rightarrow> string" where
  "normalize_from upper [] = []"
| "normalize_from upper (c # cs) =
     (if upper then ascii_upper c # normalize_from False cs
      else ascii_lower c # normalize_from (\<not> is_alnum c) cs)"

definition normalizeHeaderName :: "string \<Rightarrow> string" where
  "normalizeHeaderName name = normalize_from True name"

text \<open>\<open>intToString\<close> (\<open>util.cpp\<close>) of a non-negative number.\<close>

fun intToString :: "nat \<Rightarrow> string" where
  "intToString i =
     (if i < 10 then [char_of (48 + i)] else intToString (i div 10) @ [char_of (48 + i mod 10)])"

declare intToString.simps [simp del]

section \<open>Header lists\<close>

type_synonym headers = "(string \<times> string) list"

definition mk_header :: "string \<Rightarrow> string \<Rightarrow> string \<times> string" where
  "mk_header name value = (normalizeHeaderName name, value)"

text \<open>\<open>HTTPHeaders::set\<close> of a header built with \<open>mk_header\<close>.\<close>

fun headers_put :: "string \<times> string \<Rightarrow> headers \<Rightarrow> headers" where
  "headers_put h [] = [h]"
| "headers_put h (x # xs) = (if fst x = fst h then h # xs else x # headers_put h xs)"

definition headers_set :: "string \<Rightarrow> string \<Rightarrow> headers \<Rightarrow> headers" where
  "headers_set name value hs = headers_put (mk_header name value) hs"

definition headers_get :: "headers \<Rightarrow> string \<Rightarrow> string option" where
  "headers_get hs name = map_of hs (normalizeHeaderName name)"

text \<open>\<open>HTTPHeaders::getValue\<close> and \<open>HTTPRequest::getHeader\<close>: the empty string when absent.\<close>

definition headers_value :: "headers \<Rightarrow> string \<Rightarrow> string" where
  "headers_value hs name = (case headers_get hs name of None \<Rightarrow> [] | Some v \<Rightarrow> v)"

lemma map_of_headers_put:
  "map_of (headers_put h hs) k = (if k = fst h then Some (snd h) else map_of hs k)"
  by (induction hs) auto

lemma names_headers_put: "fst ` set (headers_put h hs) = insert (fst h) (fst ` set hs)"
  by (induction hs) auto

lemma headers_put_distinct:
  "distinct (map fst hs) \<Longrightarrow> distinct (map fst (headers_put h hs))"
  by (induction hs) (auto simp: names_headers_put intro: rev_image_eqI)

section \<open>What the server relies on\<close>

locale header_store =
  fixes norm :: "string \<Rightarrow> string"
    and get :: "'s \<Rightarrow> string \<Rightarrow> string option"
    and put :: "string \<Rightarrow> string \<Rightarrow> 's \<Rightarrow> 's"
  assumes get_put: "get (put n v s) m = (if norm m = norm n then Some v else get s m)"
begin

lemma get_put_same: "get (put n v s) n = Some v"
  by (simp add: get_put)

lemma get_put_case: "norm m = norm n \<Longrightarrow> get (put n v s) m = Some v"
  by (simp add: get_put)

lemma get_put_other: "norm m \<noteq> norm n \<Longrightarrow> get (put n v s) m = get s m"
  by (simp add: get_put)

lemma put_overwrites: "get (put n v (put n w s)) m = get (put n v s) m"
  by (simp add: get_put)

lemma put_commutes:
  "norm n \<noteq> norm k \<Longrightarrow> get (put n v (put k w s)) m = get (put k w (put n v s)) m"
  by (auto simp: get_put)

end

interpretation hdr: header_store normalizeHeaderName headers_get headers_set
  by unfold_locales
    (auto simp: headers_get_def headers_set_def mk_header_def map_of_headers_put)

section \<open>Responses\<close>

text \<open>
  A response before it is finalised: status, headers, and the printed chunks in order
  (\<open>println\<close> appends CR LF). \<open>res\<close> starts as \<open>200 OK\<close> (\<open>HTTPResponse::HTTPResponse\<close>).
\<close>

record response =
  statusCode :: nat
  statusText :: string
  res_headers :: headers
  res_body :: string

definition new_response :: response where
  "new_response = \<lparr>statusCode = 200, statusText = ''OK'', res_headers = [], res_body = []\<rparr>"

definition setStatusCode :: "nat \<Rightarrow> response \<Rightarrow> response" where
  "setStatusCode c r = r\<lparr>statusCode := c\<rparr>"

definition setStatusText :: "string \<Rightarrow> response \<Rightarrow> response" where
  "setStatusText t r = r\<lparr>statusText := t\<rparr>"

definition setHeader :: "string \<Rightarrow> string \<Rightarrow> response \<Rightarrow> response" where
  "setHeader n v r = r\<lparr>res_headers := headers_set n v (res_headers r)\<rparr>"

definition res_print :: "string \<Rightarrow> response \<Rightarrow> response" where
  "res_print s r = r\<lparr>res_body := res_body r @ s\<rparr>"

definition res_println :: "string \<Rightarrow> response \<Rightarrow> response" where
  "res_println s r = res_print (s @ [CHR 0x0D, CHR 0x0A]) r"

definition getHeader :: "response \<Rightarrow> string \<Rightarrow> string" where
  "getHeader r n = headers_value (res_headers r) n"

lemmas response_defs =
  setStatusCode_def setStatusText_def setHeader_def res_print_def res_println_def

lemma getHeader_setHeader:
  "getHeader (setHeader n v r) m =
     (if normalizeHeaderName m = normalizeHeaderName n then v else getHeader r m)"
  by (simp add: getHeader_def setHeader_def headers_value_def hdr.get_put)

lemma getHeader_print [simp]: "getHeader (res_print s r) n = getHeader r n"
  "getHeader (res_println s r) n = getHeader r n"
  by (simp_all add: getHeader_def response_defs)

end
