(* ===== verification/Http_Request.thy ===== *)
theory Http_Request
  imports Http_Headers
begin

text \<open>
  The request object of the HTTPS server library (\<open>HTTPRequest.cpp\<close>): headers, resource,
  and the body, read in chunks from the connection's receive buffer. \<open>avail\<close> holds the
  bytes that have arrived; a read loop that needs more than has arrived keeps polling,
  which is the result None here.
\<close>

record request =
  req_method :: string
  requestString :: string
  req_headers :: headers
  contentLengthSet :: bool
  remainingContent :: nat
  avail :: string

definition req_getHeader :: "request \<Rightarrow> string \<Rightarrow> string" where
  "req_getHeader r n = headers_value (req_headers r) n"

definition requestComplete :: "request \<Rightarrow> bool" where
  "requestComplete r = (if contentLengthSet r then remainingContent r = 0 else avail r = [])"

definition readBytes :: "nat \<Rightarrow> request \<Rightarrow> string \<times> request" where
  "readBytes len r =
     (let len' = (if contentLengthSet r \<and> remainingContent r < len then remainingContent r else len);
          got = take len' (avail r) in
      (got, r\<lparr>remainingContent := (if contentLengthSet r then remainingContent r - length got
                                  else remainingContent r),
              avail := drop len' (avail r)\<rparr>))"

text \<open>
  The loop every handler with a body runs:
  \<open>while (!req->requestComplete()) { s = req->readBytes(buffer, 256); data += ...; }\<close>
\<close>

function read_body :: "request \<Rightarrow> (string \<times> request) option" where
  "read_body r =
     (if requestComplete r then Some ([], r)
      else if avail r = [] then None
      else (case readBytes 256 r of
              (s, r') \<Rightarrow> (case read_body r' of None \<Rightarrow> None | Some (t, r'') \<Rightarrow> Some (s @ t, r''))))"
  by pat_completeness auto
termination
  by (relation "measure (\<lambda>r. length (avail r))")
    (auto simp: readBytes_def requestComplete_def Let_def neq_Nil_conv split: if_splits)

declare read_body.simps [simp del]

text \<open>
  With a declared length \<open>n\<close> the loop returns the first \<open>n\<close> bytes and leaves the rest for
  the next request; it keeps polling exactly when fewer than \<open>n\<close> have arrived.
\<close>

lemma read_body_declared:
  "contentLengthSet r \<Longrightarrow>
   read_body r =
     (if remainingContent r \<le> length (avail r)
      then Some (take (remainingContent r) (avail r),
                 r\<lparr>remainingContent := 0, avail := drop (remainingContent r) (avail r)\<rparr>)
      else None)"
proof (induction r rule: read_body.induct)
  case (1 r)
  show ?case
  proof (cases "requestComplete r \<or> avail r = []")
    case True
    with 1(2) show ?thesis
      by (subst read_body.simps) (auto simp: requestComplete_def)
  next
    case False
    obtain s r' where rb: "readBytes 256 r = (s, r')" by (metis surj_pair)
    let ?k = "min 256 (remainingContent r)"
    have k: "s = take ?k (avail r)" "contentLengthSet r'" "avail r' = drop ?k (avail r)"
      "remainingContent r' = remainingContent r - length s"
      "r' = r\<lparr>remainingContent := remainingContent r', avail := avail r'\<rparr>"
      using rb 1(2) by (auto simp: readBytes_def Let_def min_def split: if_splits)
    note IH = 1(1) [OF _ _ rb [symmetric] k(2)]
    have ih: "read_body r' = (if remainingContent r' \<le> length (avail r')
      then Some (take (remainingContent r') (avail r'),
                 r'\<lparr>remainingContent := 0, avail := drop (remainingContent r') (avail r')\<rparr>)
      else None)"
      using IH False by blast
    have len: "length s = min ?k (length (avail r))" "length (avail r') = length (avail r) - ?k"
      unfolding k(1,3) by simp_all
    have le: "remainingContent r' \<le> length (avail r') \<longleftrightarrow> remainingContent r \<le> length (avail r)"
      using k(4) len False 1(2) by (auto simp: min_def requestComplete_def split: if_splits)
    have unf: "read_body r = (case read_body r' of None \<Rightarrow> None | Some (t, r'') \<Rightarrow> Some (s @ t, r''))"
      using False rb by (subst read_body.simps) auto
    show ?thesis
    proof (cases "remainingContent r \<le> length (avail r)")
      case True
      have rem: "remainingContent r = ?k + remainingContent r'"
        using True k(4) len(1) by auto
      have "take (remainingContent r) (avail r) = s @ take (remainingContent r') (avail r')"
        unfolding k(1,3) by (subst rem) (rule take_add)
      moreover have "drop (remainingContent r) (avail r) = drop (remainingContent r') (avail r')"
        unfolding k(3) by (subst rem) (simp add: add.commute)
      ultimately show ?thesis
        using True le by (simp add: unf ih) (subst k(5), simp)
    next
      case False
      then show ?thesis using le by (simp add: unf ih)
    qed
  qed
qed

end
