(* ===== verification/Web_Auth.thy ===== *)
theory Web_Auth
  imports Arduino_String Http_Request
begin

text \<open>
  Authentication of the web interface (\<open>src/main.cpp\<close>): the login handler, which stores
  the submitted password under the hexadecimal SHA-256 of itself and sets that digest as
  the session cookie, and the middleware every request passes, which looks the cookie up
  and compares the stored password with the device's.

  Parameters: the key-value database \<open>Session_dict\<close> (a library that is not in the
  repository) is a state with \<open>kv_get\<close> (None when its error flags are set) and \<open>kv_put\<close>;
  \<open>sha256\<close> is the digest of mbedTLS; \<open>sd\<close> gives the text of each file of the SD card,
  empty when the file cannot be opened.
\<close>

section \<open>State\<close>

record 'db auth =
  Session_dict :: 'db
  PASSWORD :: string

type_synonym ('db, 'z) action = "response \<times> ('db, 'z) auth_scheme \<Rightarrow> response \<times> ('db, 'z) auth_scheme"

text \<open>\<open>getPassword\<close>: 32 characters of the alphabet, chosen by the random numbers \<open>rs\<close>.\<close>

definition alphabet :: string where
  "alphabet = ''abcdefghijklmnopqrstuvwxyzABCDEFGHIJKLMNOPQRSTUVWXYZ0123456789]X}7:)[Z2T;l58-P6({+''"

definition getPassword :: "(nat \<Rightarrow> u32) \<Rightarrow> string" where
  "getPassword rs = map (\<lambda>i. alphabet ! (unat (rs i) mod length alphabet)) [0..<32]"

text \<open>The assignment of \<open>setup\<close>: whatever the password file reads as replaces it.\<close>

definition setup_password :: "(string \<Rightarrow> string) \<Rightarrow> ('db, 'z) auth_scheme \<Rightarrow> ('db, 'z) auth_scheme" where
  "setup_password sd a = a\<lparr>PASSWORD := sd ''/crypto/password.txt''\<rparr>"

text \<open>\<open>FuncReadTemplate\<close>: the file with each placeholder replaced, in order.\<close>

definition FuncReadTemplate :: "(string \<Rightarrow> string) \<Rightarrow> string \<Rightarrow> (string \<times> string) list \<Rightarrow> string" where
  "FuncReadTemplate sd path args = foldl (\<lambda>file (pat, rep). str_replace file pat rep) (sd path) args"

section \<open>The middleware\<close>

definition public_path :: "string \<Rightarrow> bool" where
  "public_path p \<longleftrightarrow> p = ''/style.css'' \<or> p = ''/admin'' \<or> p = ''/update''"

definition session_password ::
  "('db \<Rightarrow> string \<Rightarrow> string option) \<Rightarrow> ('db, 'z) auth_scheme \<Rightarrow> request \<Rightarrow> string" where
  "session_password kv_get a req =
     (let user_password_raw = c_str (req_getHeader req ''Cookie'');
          Cookie = after_last (CHR ''='') user_password_raw;
          user_password = (case kv_get (Session_dict a) (c_str Cookie) of None \<Rightarrow> [] | Some p \<Rightarrow> p)
      in after_last (CHR ''='') user_password)"

definition middlewareAuth ::
  "('db \<Rightarrow> string \<Rightarrow> string option) \<Rightarrow> (string \<Rightarrow> string) \<Rightarrow> request \<Rightarrow>
   ('db, 'z) action \<Rightarrow> ('db, 'z) action" where
  "middlewareAuth kv_get sd req next = (\<lambda>(res, a).
     let req_str = c_str (requestString req);
         user_password_trimmed = session_password kv_get a req
     in if user_password_trimmed = PASSWORD a \<or> public_path req_str then
          (if user_password_trimmed = PASSWORD a \<and> req_str = ''/admin'' then
             (res_println (FuncReadTemplate sd ''/templates/log_out.html'' [(''%LOGGED_IN%'', ''logout'')])
               (setHeader ''Content-Type'' ''text/html'' res), a)
           else next (res, a))
        else
          (res_println (FuncReadTemplate sd ''/templates/admin.html''
               [(''%LOGGED_IN%'', ''login''), (''%ERROR%'', ''You need to log in to access this page'')])
             (setHeader ''Content-Type'' ''text/html'' (setStatusCode 404 res)), a))"

section \<open>The login handler\<close>

definition hex_digit :: "nat \<Rightarrow> char" where
  "hex_digit n = char_of (if n < 10 then 48 + n else 87 + n)"

text \<open>\<open>sprintf(buf, "%02x", byte)\<close>, accumulated over the digest.\<close>

definition hex_byte :: "byte \<Rightarrow> string" where
  "hex_byte b = [hex_digit (unat b div 16), hex_digit (unat b mod 16)]"

definition hexStr :: "byte list \<Rightarrow> string" where
  "hexStr bs = foldl (\<lambda>str b. str @ hex_byte b) [] bs"

definition handleLogIn ::
  "('db \<Rightarrow> string \<Rightarrow> string \<Rightarrow> 'db) \<Rightarrow> (string \<Rightarrow> byte list) \<Rightarrow> (string \<Rightarrow> string) \<Rightarrow> string \<Rightarrow>
   ('db, 'z) action" where
  "handleLogIn kv_put sha256 sd data = (\<lambda>(res, a).
     let Session = substring data 9 (str_len data);
         res1 = setHeader ''Content-Type'' ''text/html'' res;
         shaResult = sha256 Session;
         hex = hexStr shaResult;
         a1 = a\<lparr>Session_dict := kv_put (Session_dict a) hex Session\<rparr>;
         Cookie = ''session='' @ hex @ ''; Path=/; SameSite=Strict; Secure'';
         res2 = setHeader ''Content-Type'' ''text/html'' (setHeader ''Set-Cookie'' (c_str Cookie) res1)
     in if Session = PASSWORD a1 then
          (res_println (FuncReadTemplate sd ''/templates/log_out.html'' [(''%LOGGED_IN%'', ''login'')]) res2, a1)
        else
          (res_println (FuncReadTemplate sd ''/templates/computers.html''
             [(''%ERROR%'', ''The provided password was incorrect'')]) res2, a1))"

text \<open>
  The browser's side (RFC 6265): it stores the name-value pair before the first semicolon
  of \<open>Set-Cookie\<close> and sends it back in the header \<open>Cookie\<close>.
\<close>

definition cookie_pair :: "string \<Rightarrow> string" where
  "cookie_pair s = takeWhile (\<lambda>c. c \<noteq> CHR '';'') s"

section \<open>Facts about the digest's text\<close>

lemma hexStr_concat: "hexStr bs = concat (map hex_byte bs)"
proof -
  have "foldl (\<lambda>str b. str @ hex_byte b) acc bs = acc @ concat (map hex_byte bs)" for acc
    by (induction bs arbitrary: acc) auto
  then show ?thesis by (simp add: hexStr_def)
qed

lemma hex_digit_safe:
  assumes "n < 16"
  shows "hex_digit n \<notin> {CHR 0x00, CHR ''='', CHR '';''}"
proof -
  have "\<forall>d\<in>set [0..<16]. hex_digit d \<notin> {CHR 0x00, CHR ''='', CHR '';''}"
    by (simp add: upt_conv_Cons hex_digit_def char_of_def)
  with assms show ?thesis by simp
qed

lemma hexStr_safe:
  "CHR 0x00 \<notin> set (hexStr bs)" "CHR ''='' \<notin> set (hexStr bs)" "CHR '';'' \<notin> set (hexStr bs)"
proof -
  have "c \<in> hex_digit ` {..<16}" if "c \<in> set (hexStr bs)" for c
  proof -
    have "unat b div 16 < 16" "unat b mod 16 < 16" for b :: byte
      using unsigned_less [of b, where 'a = nat] by simp_all
    with that show ?thesis by (auto simp: hexStr_concat hex_byte_def)
  qed
  then show "CHR 0x00 \<notin> set (hexStr bs)" "CHR ''='' \<notin> set (hexStr bs)" "CHR '';'' \<notin> set (hexStr bs)"
    using hex_digit_safe by fastforce+
qed

lemma length_hexStr: "length (hexStr bs) = 2 * length bs"
  by (induction bs) (auto simp: hexStr_concat hex_byte_def)

end
