(* ===== verification/Ws_Clients.thy ===== *)
theory Ws_Clients
  imports Prelude "HOL-Library.Multiset"
begin

text \<open>
  The registries of connected websocket clients of \<open>src/main.cpp\<close>: the arrays
  \<open>activeClients\<close> (terminals) and \<open>activeClientsFan\<close> (fan speed), the handlers'
  \<open>create\<close> and \<open>onClose\<close>, and the broadcast loops that read them. A handler is
  the address of its object. The mutex around every access is taken with a 100 ms
  timeout; \<open>took\<close> is whether \<open>xSemaphoreTake\<close> succeeded, an input of each operation.
\<close>

section \<open>The slot array\<close>

type_synonym handler = nat
type_synonym slots = "handler option list"

definition MAX_CLIENTS :: nat where "MAX_CLIENTS = 10"

definition empty_slots :: slots where
  "empty_slots = replicate MAX_CLIENTS None"

text \<open>The loop of \<open>create\<close>: the first null entry becomes the handler, then \<open>break\<close>.\<close>

fun claim_slot :: "handler \<Rightarrow> slots \<Rightarrow> slots" where
  "claim_slot h [] = []"
| "claim_slot h (None # cs) = Some h # cs"
| "claim_slot h (Some x # cs) = Some x # claim_slot h cs"

text \<open>The loop of \<open>onClose\<close>: every entry equal to \<open>this\<close> becomes null.\<close>

fun release_slot :: "handler \<Rightarrow> slots \<Rightarrow> slots" where
  "release_slot h [] = []"
| "release_slot h (c # cs) = (if c = Some h then None else c) # release_slot h cs"

fun registered :: "slots \<Rightarrow> handler list" where
  "registered [] = []"
| "registered (None # cs) = registered cs"
| "registered (Some h # cs) = h # registered cs"

definition slots_ok :: "slots \<Rightarrow> bool" where
  "slots_ok cs \<longleftrightarrow> length cs = MAX_CLIENTS"

section \<open>The interface of a client registry\<close>

locale client_registry =
  fixes claim :: "'h \<Rightarrow> 's \<Rightarrow> 's"
    and release :: "'h \<Rightarrow> 's \<Rightarrow> 's"
    and members :: "'s \<Rightarrow> 'h list"
    and room :: nat
    and ok :: "'s \<Rightarrow> bool"
  assumes bounded: "ok s \<Longrightarrow> length (members s) \<le> room"
    and claim_room: "ok s \<Longrightarrow> length (members s) < room \<Longrightarrow>
      mset (members (claim h s)) = add_mset h (mset (members s))"
    and claim_full: "ok s \<Longrightarrow> length (members s) = room \<Longrightarrow> claim h s = s"
    and release_members: "ok s \<Longrightarrow> members (release h s) = filter (\<lambda>x. x \<noteq> h) (members s)"
    and ok_claim: "ok s \<Longrightarrow> ok (claim h s)"
    and ok_release: "ok s \<Longrightarrow> ok (release h s)"
begin

lemma set_claim:
  assumes "ok s"
  shows "set (members (claim h s)) =
    (if length (members s) < room then insert h (set (members s)) else set (members s))"
proof (cases "length (members s) < room")
  case True
  with claim_room [OF assms True, of h] show ?thesis
    by (metis (no_types, lifting) set_mset_add_mset_insert set_mset_mset)
next
  case False
  with bounded [OF assms] have "length (members s) = room" by simp
  with claim_full [OF assms] False show ?thesis by simp
qed

lemma members_claim_subset: "ok s \<Longrightarrow> set (members (claim h s)) \<subseteq> insert h (set (members s))"
  by (auto simp: set_claim)

lemma set_release: "ok s \<Longrightarrow> set (members (release h s)) = set (members s) - {h}"
  by (auto simp: release_members)

lemma release_forgets: "ok s \<Longrightarrow> h \<notin> set (members (release h s))"
  by (simp add: set_release)

lemma distinct_claim:
  assumes "ok s" and "distinct (members s)" and "h \<notin> set (members s)"
  shows "distinct (members (claim h s))"
proof (cases "length (members s) < room")
  case True
  with assms have "mset (members (claim h s)) = mset (h # members s)"
    by (simp add: claim_room)
  with assms(2,3) show ?thesis
    by (metis distinct.simps(2) mset_eq_imp_distinct_iff)
next
  case False
  with assms bounded [of s] claim_full [of s] show ?thesis by simp
qed

lemma distinct_release: "ok s \<Longrightarrow> distinct (members s) \<Longrightarrow> distinct (members (release h s))"
  by (simp add: release_members)

lemma claim_release:
  assumes "ok s" and "h \<notin> set (members s)"
  shows "set (members (release h (claim h s))) = set (members s)"
  using assms by (auto simp: set_release ok_claim set_claim)

end

section \<open>The arrays implement it\<close>

lemma length_claim [simp]: "length (claim_slot h cs) = length cs"
  by (induction h cs rule: claim_slot.induct) auto

lemma length_release [simp]: "length (release_slot h cs) = length cs"
  by (induction cs) auto

lemma registered_le: "length (registered cs) \<le> length cs"
  by (induction cs rule: registered.induct) auto

lemma registered_claim:
  "length (registered cs) < length cs \<Longrightarrow>
   mset (registered (claim_slot h cs)) = add_mset h (mset (registered cs))"
  by (induction h cs rule: claim_slot.induct) auto

lemma registered_full:
  "length (registered cs) = length cs \<Longrightarrow> claim_slot h cs = cs"
proof (induction h cs rule: claim_slot.induct)
  case (2 h cs)
  then show ?case using registered_le [of cs] by simp
qed auto

lemma registered_release:
  "registered (release_slot h cs) = filter (\<lambda>x. x \<noteq> h) (registered cs)"
  by (induction cs rule: registered.induct) auto

interpretation reg: client_registry claim_slot release_slot registered MAX_CLIENTS slots_ok
  by unfold_locales
    (auto simp: slots_ok_def registered_release intro: registered_full registered_claim
      order_trans [OF registered_le])

lemma slots_ok_empty: "slots_ok empty_slots"
  by (simp add: slots_ok_def empty_slots_def)

lemma registered_empty [simp]: "registered empty_slots = []"
proof -
  have "registered (replicate n None) = []" for n by (induction n) auto
  then show ?thesis by (simp add: empty_slots_def)
qed

section \<open>The handlers' operations\<close>

text \<open>\<open>SSHHandler::create\<close>, \<open>FanHandler::create\<close>: the new object is returned either way.\<close>

definition ssh_create :: "bool \<Rightarrow> handler \<Rightarrow> slots \<Rightarrow> handler \<times> slots" where
  "ssh_create took h cs = (h, if took then claim_slot h cs else cs)"

definition fan_create :: "bool \<Rightarrow> handler \<Rightarrow> slots \<Rightarrow> handler \<times> slots" where
  "fan_create took h cs = (h, if took then claim_slot h cs else cs)"

definition ssh_onClose :: "bool \<Rightarrow> handler \<Rightarrow> slots \<Rightarrow> slots" where
  "ssh_onClose took h cs = (if took then release_slot h cs else cs)"

definition fan_onClose :: "bool \<Rightarrow> handler \<Rightarrow> slots \<Rightarrow> slots" where
  "fan_onClose took h cs = (if took then release_slot h cs else cs)"

text \<open>
  The broadcast loops (\<open>ssh_conn::read\<close> for terminal output, \<open>loop\<close> for the fan speed):
  the handlers whose \<open>send\<close> is called, in array order.
\<close>

definition broadcast :: "bool \<Rightarrow> slots \<Rightarrow> string \<Rightarrow> (handler \<times> string) list" where
  "broadcast took cs msg = (if took then map (\<lambda>h. (h, msg)) (registered cs) else [])"

end
