(* ===== verification/Http_Resolver.thy ===== *)
theory Http_Resolver
  imports Http_Request
begin

text \<open>
  Routing of the HTTPS server library: \<open>urlDecode\<close> (\<open>util.cpp\<close>), nodes and their path
  parameters (\<open>HTTPNode.cpp\<close>) and \<open>ResourceResolver::resolveNode\<close>. Reading a C++ string
  past its terminator is undefined; the model returns a fault there.
\<close>

datatype fault = Out_of_range | Type_confusion | Uninitialised

section \<open>Percent decoding\<close>

definition hex_val :: "char \<Rightarrow> nat option" where
  "hex_val c = (let n = (of_char c :: nat) in
     if 48 \<le> n \<and> n \<le> 57 then Some (n - 48)
     else if 65 \<le> n \<and> n \<le> 70 then Some (n - 55)
     else if 97 \<le> n \<and> n \<le> 102 then Some (n - 87)
     else None)"

text \<open>
  The loop over the percent signs. The guard of the code compares with the length plus
  three and so never fails; a percent sign at the very end reads two past it.
\<close>

fun percent_loop :: "string \<Rightarrow> fault + string" where
  "percent_loop [] = Inr []"
| "percent_loop (c # cs) =
     (if c \<noteq> CHR ''%'' then map_sum id (Cons c) (percent_loop cs)
      else (case cs of
              [] \<Rightarrow> Inl Out_of_range
            | [h] \<Rightarrow> map_sum id (Cons c) (percent_loop cs)
            | h # l # rest \<Rightarrow>
                (case (hex_val h, hex_val l) of
                   (Some a, Some b) \<Rightarrow> map_sum id (Cons (char_of (16 * a + b))) (percent_loop rest)
                 | _ \<Rightarrow> map_sum id (Cons c) (percent_loop cs))))"

definition urlDecode :: "string \<Rightarrow> fault + string" where
  "urlDecode s = percent_loop (map (\<lambda>c. if c = CHR ''+'' then CHR '' '' else c) s)"

section \<open>Nodes\<close>

datatype node_type = HANDLER_CALLBACK | WEBSOCKET

datatype ('cb, 'cr) http_node =
  ResourceNode (node_path: string) (node_method: string) (node_callback: 'cb)
| WebsocketNode (node_path: string) (node_creator: 'cr)

fun nodeType :: "('cb, 'cr) http_node \<Rightarrow> node_type" where
  "nodeType (ResourceNode _ _ _) = HANDLER_CALLBACK"
| "nodeType (WebsocketNode _ _) = WEBSOCKET"

text \<open>\<open>HTTPNode::HTTPNode\<close>: the positions of the asterisks of \<open>/*\<close> segments.\<close>

fun param_positions :: "nat \<Rightarrow> string \<Rightarrow> nat list" where
  "param_positions i (a # b # cs) =
     (if a = CHR ''/'' \<and> b = CHR ''*'' then
        (if cs = [] \<or> hd cs = CHR ''/'' then [i + 1] else []) @ param_positions (i + 2) cs
      else param_positions (i + 1) (b # cs))"
| "param_positions i _ = []"

definition pathParamIdx :: "('cb, 'cr) http_node \<Rightarrow> nat list" where
  "pathParamIdx n = param_positions 0 (node_path n)"

section \<open>Resolution\<close>

definition find_char :: "char \<Rightarrow> string \<Rightarrow> nat \<Rightarrow> nat option" where
  "find_char c s from = map_option (\<lambda>i. from + i) (find_index (\<lambda>x. x = c) (drop from s))"

text \<open>The query parameters after the question mark, separated by ampersands.\<close>

fun split_amp :: "string \<Rightarrow> string list" where
  "split_amp [] = [[]]"
| "split_amp (c # cs) =
     (if c = CHR ''&'' then [] # split_amp cs
      else (case split_amp cs of [] \<Rightarrow> [[c]] | p # ps \<Rightarrow> (c # p) # ps))"

definition query_param :: "string \<Rightarrow> fault + (string \<times> string)" where
  "query_param p =
     (case find_index (\<lambda>x. x = CHR ''='') p of
        None \<Rightarrow> map_sum id (\<lambda>n. (n, [])) (urlDecode p)
      | Some i \<Rightarrow>
          (case urlDecode (take i p) of
             Inl e \<Rightarrow> Inl e
           | Inr n \<Rightarrow> map_sum id (\<lambda>v. (n, v)) (urlDecode (drop (i + 1) p))))"

fun query_params :: "string list \<Rightarrow> fault + (string \<times> string) list" where
  "query_params [] = Inr []"
| "query_params (p # ps) =
     (if p = [] then query_params ps
      else (case query_param p of
              Inl e \<Rightarrow> Inl e
            | Inr nv \<Rightarrow> map_sum id (Cons nv) (query_params ps)))"

text \<open>
  The loop over a node's path parameters: the static part before each, then its value up
  to the next slash (or the end of the path). State: input index, path index, values.
  The outcome None is "no match".
\<close>

fun match_params ::
  "string \<Rightarrow> nat \<Rightarrow> string \<Rightarrow> nat list \<Rightarrow> nat \<Rightarrow> nat \<Rightarrow> string list \<Rightarrow>
   fault + (nat \<times> nat \<times> string list) option" where
  "match_params url pathEnd path [] inputIdx pathIdx vals = Inr (Some (inputIdx, pathIdx, vals))"
| "match_params url pathEnd path (paramPos # ps) inputIdx pathIdx vals =
     (let staticLength = paramPos - pathIdx in
      if length url < inputIdx then Inl Out_of_range
      else if take staticLength (drop inputIdx url) = take staticLength (drop pathIdx path) then
        (let inputIdx' = inputIdx + staticLength; pathIdx' = pathIdx + staticLength;
             paramEnd = (case find_char (CHR ''/'') url inputIdx' of
                           Some e \<Rightarrow> Some e
                         | None \<Rightarrow> if inputIdx' \<le> pathEnd then Some pathEnd else None)
         in case paramEnd of
              None \<Rightarrow> Inr None
            | Some e \<Rightarrow>
                (case urlDecode (take (e - inputIdx') (drop inputIdx' url)) of
                   Inl f \<Rightarrow> Inl f
                 | Inr v \<Rightarrow> match_params url pathEnd path ps e (pathIdx' + 1) (vals @ [v])))
      else Inr None)"

definition match_node :: "string \<Rightarrow> nat \<Rightarrow> ('cb, 'cr) http_node \<Rightarrow> fault + string list option" where
  "match_node url pathEnd node =
     (case match_params url pathEnd (node_path node) (pathParamIdx node) 0 0 [] of
        Inl e \<Rightarrow> Inl e
      | Inr None \<Rightarrow> Inr None
      | Inr (Some (inputIdx, pathIdx, vals)) \<Rightarrow>
          (if length url < inputIdx \<or> length (node_path node) < pathIdx then Inl Out_of_range
           else
             let part = (if inputIdx \<le> pathEnd then take (pathEnd - inputIdx) (drop inputIdx url)
                         else drop inputIdx url)
             in Inr (if part = drop pathIdx (node_path node) then Some vals else None)))"

definition node_admits :: "string \<Rightarrow> node_type \<Rightarrow> ('cb, 'cr) http_node \<Rightarrow> bool" where
  "node_admits method t node \<longleftrightarrow>
     nodeType node = t \<and>
     (case node of ResourceNode _ m _ \<Rightarrow> m = method | WebsocketNode _ _ \<Rightarrow> method = ''GET'')"

fun first_match ::
  "string \<Rightarrow> string \<Rightarrow> nat \<Rightarrow> node_type \<Rightarrow> ('cb, 'cr) http_node list \<Rightarrow>
   fault + (('cb, 'cr) http_node \<times> string list) option" where
  "first_match method url pathEnd t [] = Inr None"
| "first_match method url pathEnd t (n # ns) =
     (if node_admits method t n then
        (case match_node url pathEnd n of
           Inl e \<Rightarrow> Inl e
         | Inr (Some vals) \<Rightarrow> Inr (Some (n, vals))
         | Inr None \<Rightarrow> first_match method url pathEnd t ns)
      else first_match method url pathEnd t ns)"

record ('cb, 'cr) resolved =
  matchingNode :: "('cb, 'cr) http_node option"
  queryParams :: "(string \<times> string) list"
  pathParams :: "string list"

definition resolveNode ::
  "('cb, 'cr) http_node list \<Rightarrow> ('cb, 'cr) http_node option \<Rightarrow> string \<Rightarrow> string \<Rightarrow> node_type \<Rightarrow>
   fault + ('cb, 'cr) resolved" where
  "resolveNode nodes defaultNode method url t =
     (let q = find_index (\<lambda>x. x = CHR ''?'') url;
          pathEnd = (case q of None \<Rightarrow> length url | Some i \<Rightarrow> i);
          query = (case q of None \<Rightarrow> Inr [] | Some i \<Rightarrow> query_params (split_amp (drop (i + 1) url)))
      in case query of
           Inl e \<Rightarrow> Inl e
         | Inr qs \<Rightarrow>
             (case first_match method url pathEnd t nodes of
                Inl e \<Rightarrow> Inl e
              | Inr (Some (n, vals)) \<Rightarrow>
                  Inr \<lparr>matchingNode = Some n, queryParams = qs, pathParams = vals\<rparr>
              | Inr None \<Rightarrow>
                  (case defaultNode of
                     None \<Rightarrow> Inr \<lparr>matchingNode = None, queryParams = [], pathParams = []\<rparr>
                   | Some d \<Rightarrow> Inr \<lparr>matchingNode = Some d, queryParams = qs, pathParams = []\<rparr>)))"

section \<open>Nodes without path parameters\<close>

lemma match_node_static:
  assumes "pathParamIdx node = []" and "pathEnd \<le> length url"
  shows "match_node url pathEnd node =
    Inr (if take pathEnd url = node_path node then Some [] else None)"
  using assms by (simp add: match_node_def)

text \<open>With no query and static routes, resolution finds the first node of that type,
  method and path, and the default node otherwise.\<close>

definition static_match :: "string \<Rightarrow> string \<Rightarrow> node_type \<Rightarrow> ('cb, 'cr) http_node \<Rightarrow> bool" where
  "static_match method url t n \<longleftrightarrow> node_admits method t n \<and> node_path n = url"

lemma first_match_static:
  assumes "\<forall>n\<in>set nodes. pathParamIdx n = []"
  shows "first_match method url (length url) t nodes =
    Inr (map_option (\<lambda>n. (n, [])) (List.find (static_match method url t) nodes))"
  using assms by (induction nodes) (auto simp: match_node_static static_match_def)

lemma find_index_absent: "c \<notin> set s \<Longrightarrow> find_index (\<lambda>x. x = c) s = None"
  by (auto simp: find_index_None)

lemma resolveNode_static:
  assumes "\<forall>n\<in>set nodes. pathParamIdx n = []" and "CHR ''?'' \<notin> set url"
  shows "resolveNode nodes (Some d) method url t =
    Inr \<lparr>matchingNode = Some (case List.find (static_match method url t) nodes of None \<Rightarrow> d | Some n \<Rightarrow> n),
         queryParams = [], pathParams = []\<rparr>"
  using assms by (auto simp: resolveNode_def find_index_absent first_match_static split: option.splits)

end
