(* ===== verification/Web_World.thy ===== *)
theory Web_World
  imports Web_Auth Ws_Clients Http_Resolver
begin

text \<open>
  The state the request handlers of \<open>src/main.cpp\<close> share, and the life of websocket
  handler objects in it: created by a node's factory, entered in their class's registry,
  and deleted by the connection that owns them. \<open>heap\<close> maps the address of every live
  handler to its class.
\<close>

datatype ws_class = SSHHandler | FanHandler

record 'db web = "'db auth" +
  ssh_slots :: slots
  fan_slots :: slots
  heap :: "handler \<rightharpoonup> ws_class"
  next_handler :: handler
  ssh_command :: string
  upload_command :: string
  scp_command :: string
  switch_ssh :: string
  hp_1_status_req :: bool
  shh_output_string :: string
  upload_file :: "string option"
  download_file :: "string option"
  gpio :: "(nat \<times> bool) list"
  fan_duty :: int
  ssh_conn_flag :: bool

type_synonym 'db act = "response \<times> 'db web \<Rightarrow> response \<times> 'db web"

text \<open>\<open>new SSHHandler()\<close>, \<open>new FanHandler()\<close> and the registration of \<open>create\<close>.\<close>

definition new_handler :: "ws_class \<Rightarrow> bool \<Rightarrow> 'db web \<Rightarrow> handler \<times> 'db web" where
  "new_handler cls took w =
     (let h = next_handler w;
          w' = w\<lparr>heap := (heap w)(h \<mapsto> cls), next_handler := Suc h\<rparr>
      in case cls of
           SSHHandler \<Rightarrow> (let r = ssh_create took h (ssh_slots w) in (fst r, w'\<lparr>ssh_slots := snd r\<rparr>))
         | FanHandler \<Rightarrow> (let r = fan_create took h (fan_slots w) in (fst r, w'\<lparr>fan_slots := snd r\<rparr>)))"

text \<open>The virtual calls \<open>onClose\<close> and \<open>onMessage\<close>, and the destructor.\<close>

definition ws_onClose :: "bool \<Rightarrow> handler \<Rightarrow> 'db web \<Rightarrow> 'db web" where
  "ws_onClose took h w =
     (case heap w h of
        Some SSHHandler \<Rightarrow> w\<lparr>ssh_slots := ssh_onClose took h (ssh_slots w)\<rparr>
      | Some FanHandler \<Rightarrow> w\<lparr>fan_slots := fan_onClose took h (fan_slots w)\<rparr>
      | None \<Rightarrow> w)"

definition ws_onMessage :: "handler \<Rightarrow> string \<Rightarrow> 'db web \<Rightarrow> 'db web" where
  "ws_onMessage h msg w =
     (case heap w h of
        Some SSHHandler \<Rightarrow> w\<lparr>ssh_command := c_str msg\<rparr>
      | _ \<Rightarrow> w)"

definition ws_delete :: "handler \<Rightarrow> 'db web \<Rightarrow> 'db web" where
  "ws_delete h w = w\<lparr>heap := (heap w)(h := None)\<rparr>"

section \<open>Well-formed worlds\<close>

text \<open>
  Every registered address is a live handler of the registry's class, no address is
  registered twice, and fresh addresses are not in use. This is what makes the broadcast
  loops safe: they call \<open>send\<close> on every registered address.
\<close>

definition registry_sound :: "('db, 'z) web_scheme \<Rightarrow> bool" where
  "registry_sound w \<longleftrightarrow>
     slots_ok (ssh_slots w) \<and> slots_ok (fan_slots w) \<and>
     (\<forall>h\<in>set (registered (ssh_slots w)). heap w h = Some SSHHandler) \<and>
     (\<forall>h\<in>set (registered (fan_slots w)). heap w h = Some FanHandler) \<and>
     distinct (registered (ssh_slots w)) \<and> distinct (registered (fan_slots w)) \<and>
     (\<forall>h. heap w h \<noteq> None \<longrightarrow> h < next_handler w)"

lemmas handler_defs = new_handler_def ws_onClose_def ws_onMessage_def ws_delete_def
  ssh_create_def fan_create_def ssh_onClose_def fan_onClose_def

lemma fresh_unregistered:
  assumes "registry_sound w"
  shows "next_handler w \<notin> set (registered (ssh_slots w))"
    and "next_handler w \<notin> set (registered (fan_slots w))"
  using assms unfolding registry_sound_def by force+

lemma new_handler_sound:
  assumes "registry_sound w"
  shows "registry_sound (snd (new_handler cls took w))"
proof -
  note fresh = fresh_unregistered [OF assms]
  have fresh_heap: "heap w (next_handler w) = None"
    using assms unfolding registry_sound_def by force
  have slots: "slots_ok (ssh_slots w)" "slots_ok (fan_slots w)"
    using assms by (simp_all add: registry_sound_def)
  note sub = reg.members_claim_subset [OF slots(1), of "next_handler w"]
    reg.members_claim_subset [OF slots(2), of "next_handler w"]
  show ?thesis
    using assms fresh fresh_heap sub slots reg.distinct_claim
    by (cases cls; cases took)
      (auto simp: registry_sound_def handler_defs Let_def reg.ok_claim less_Suc_eq subset_iff)
qed

lemma onClose_sound: "registry_sound w \<Longrightarrow> registry_sound (ws_onClose took h w)"
  by (auto simp: registry_sound_def handler_defs reg.ok_release reg.set_release reg.distinct_release
      split: option.splits ws_class.splits)

lemma onMessage_sound: "registry_sound w \<Longrightarrow> registry_sound (ws_onMessage h msg w)"
  by (auto simp: registry_sound_def handler_defs split: option.splits ws_class.splits)

text \<open>Deleting a handler is safe exactly when it is not registered any more.\<close>

lemma delete_sound_iff:
  assumes "registry_sound w"
  shows "registry_sound (ws_delete h w) \<longleftrightarrow>
    h \<notin> set (registered (ssh_slots w)) \<and> h \<notin> set (registered (fan_slots w))"
  using assms by (auto simp: registry_sound_def handler_defs)

lemma onClose_unregisters:
  assumes "registry_sound w"
  shows "h \<notin> set (registered (ssh_slots (ws_onClose True h w)))"
    and "h \<notin> set (registered (fan_slots (ws_onClose True h w)))"
  using assms
  by (auto simp: registry_sound_def handler_defs reg.set_release split: option.splits ws_class.splits)

lemma close_then_delete_sound:
  "registry_sound w \<Longrightarrow> registry_sound (ws_delete h (ws_onClose True h w))"
  by (simp add: delete_sound_iff onClose_sound onClose_unregisters)

end
