(* ===== verification/Ws_Handler.thy ===== *)
theory Ws_Handler
  imports Web_World
begin

text \<open>
  The websocket protocol of the HTTPS server library (\<open>WebsocketHandler.cpp\<close>,
  \<open>WebsocketInputStreambuf.cpp\<close>): reading one frame from the bytes that are available,
  dispatching it, and building the frames that are sent. Bytes are characters; the
  processor is little-endian.
\<close>

unbundle bit_operations_syntax

definition OPCODE_CONTINUE :: nat where "OPCODE_CONTINUE = 0"
definition OPCODE_TEXT :: nat where "OPCODE_TEXT = 1"
definition OPCODE_BINARY :: nat where "OPCODE_BINARY = 2"
definition OPCODE_CLOSE :: nat where "OPCODE_CLOSE = 8"

lemmas opcode_defs = OPCODE_CONTINUE_def OPCODE_TEXT_def OPCODE_BINARY_def OPCODE_CLOSE_def

definition byte_val :: "char \<Rightarrow> nat" where "byte_val c = of_char c"

definition be16 :: "char \<Rightarrow> char \<Rightarrow> nat" where
  "be16 a b = 256 * byte_val a + byte_val b"

definition be32 :: "char \<Rightarrow> char \<Rightarrow> char \<Rightarrow> char \<Rightarrow> nat" where
  "be32 a b c d = 65536 * be16 a b + be16 c d"

section \<open>Reading a frame\<close>

record frame =
  opCode :: nat
  masked :: bool
  len7 :: nat

definition parse_frame :: "char \<Rightarrow> char \<Rightarrow> frame" where
  "parse_frame b0 b1 =
     \<lparr>opCode = byte_val b0 mod 16, masked = (128 \<le> byte_val b1), len7 = byte_val b1 mod 128\<rparr>"

text \<open>
  The extended length. A short read leaves \<open>tempLen\<close> (partly) uninitialised. For 127 the
  code converts \<open>(uint32_t)tempLen\<close>, on a little-endian processor the first four of the
  eight bytes.
\<close>

definition payload_len :: "frame \<Rightarrow> string \<Rightarrow> fault + (nat \<times> string)" where
  "payload_len f rx =
     (if len7 f < 126 then Inr (len7 f, rx)
      else if len7 f = 126 then
        (case rx of a # b # rest \<Rightarrow> Inr (be16 a b, rest) | _ \<Rightarrow> Inl Uninitialised)
      else
        (case rx of
           a # b # c # d # e # f # g # h # rest \<Rightarrow> Inr (be32 a b c d, rest)
         | _ \<Rightarrow> Inl Uninitialised))"

definition read_mask :: "frame \<Rightarrow> string \<Rightarrow> fault + (string option \<times> string)" where
  "read_mask f rx =
     (if masked f then
        (case rx of a # b # c # d # rest \<Rightarrow> Inr (Some [a, b, c, d], rest) | _ \<Rightarrow> Inl Uninitialised)
      else Inr (None, rx))"

text \<open>\<open>WebsocketInputStreambuf::underflow\<close>: byte \<open>i\<close> of the record is masked with byte
  \<open>i mod 4\<close> of the mask.\<close>

definition xor_char :: "char \<Rightarrow> char \<Rightarrow> char" where
  "xor_char a b = char_of ((of_char a :: nat) XOR of_char b)"

fun unmask_from :: "nat \<Rightarrow> string \<Rightarrow> string \<Rightarrow> string" where
  "unmask_from i m [] = []"
| "unmask_from i m (c # cs) = xor_char c (m ! (i mod 4)) # unmask_from (Suc i) m cs"

definition record_bytes :: "string option \<Rightarrow> string \<Rightarrow> string" where
  "record_bytes m s = (case m of None \<Rightarrow> s | Some k \<Rightarrow> unmask_from 0 k s)"

text \<open>
  \<open>WebsocketHandler::read\<close>: result, unread bytes, flags (received close, sent close),
  world. A record that has not fully arrived is delivered short, and the rest is
  discarded as read.
\<close>

definition ws_read ::
  "bool \<Rightarrow> handler \<Rightarrow> string \<Rightarrow> bool \<times> bool \<Rightarrow> 'db web \<Rightarrow>
   fault + (int \<times> string \<times> (bool \<times> bool) \<times> 'db web)" where
  "ws_read took h rx flags w =
     (case rx of
        [] \<Rightarrow> Inr (0, rx, flags, w)
      | [_] \<Rightarrow> Inr (-1, [], flags, w)
      | b0 # b1 # rx1 \<Rightarrow>
          (let f = parse_frame b0 b1 in
           case payload_len f rx1 of
             Inl e \<Rightarrow> Inl e
           | Inr (payloadLen, rx2) \<Rightarrow>
               (case read_mask f rx2 of
                  Inl e \<Rightarrow> Inl e
                | Inr (m, rx3) \<Rightarrow>
                    (if opCode f = OPCODE_TEXT \<or> opCode f = OPCODE_BINARY then
                       Inr (0, drop payloadLen rx3, flags,
                            ws_onMessage h (record_bytes m (take payloadLen rx3)) w)
                     else if opCode f = OPCODE_CLOSE then
                       Inr (-1, rx3, (True, snd flags), ws_onClose took h w)
                     else Inr (0, rx3, flags, w)))))"

text \<open>\<open>WebsocketHandler::loop\<close>: a failed read makes the server send a close frame.\<close>

definition ws_loop ::
  "bool \<Rightarrow> handler \<Rightarrow> string \<Rightarrow> bool \<times> bool \<Rightarrow> 'db web \<Rightarrow>
   fault + (string \<times> (bool \<times> bool) \<times> 'db web)" where
  "ws_loop took h rx flags w =
     (case ws_read took h rx flags w of
        Inl e \<Rightarrow> Inl e
      | Inr (r, rx', flags', w') \<Rightarrow>
          (if r < 0 then Inr (rx', (fst flags', True), w') else Inr (rx', flags', w')))"

definition ws_closed :: "bool \<times> bool \<Rightarrow> bool" where
  "ws_closed flags \<longleftrightarrow> fst flags \<or> snd flags"

section \<open>Sending a frame\<close>

text \<open>\<open>WebsocketHandler::send(std::string, uint8_t)\<close>: an unmasked final frame; the length
  goes in 7 bits, or in 16 bits of the low half of the size.\<close>

definition char_byte :: "nat \<Rightarrow> char" where "char_byte n = char_of (n mod 256)"

definition ws_send :: "bool \<Rightarrow> string \<Rightarrow> string" where
  "ws_send text data =
     (let op = (if text then OPCODE_TEXT else OPCODE_BINARY); n = length data in
      if n < 126 then [char_byte (128 + op), char_byte n] @ data
      else [char_byte (128 + op), char_byte 126, char_byte (n mod 65536 div 256), char_byte (n mod 65536)]
           @ data)"

lemma byte_val_char_byte [simp]: "byte_val (char_byte n) = n mod 256"
  by (simp add: byte_val_def char_byte_def)

text \<open>What a peer that runs the same reader sees of a sent frame.\<close>

definition receive_frame :: "string \<Rightarrow> fault + (nat \<times> string \<times> string)" where
  "receive_frame s =
     (case s of
        b0 # b1 # rx1 \<Rightarrow>
          (let f = parse_frame b0 b1 in
           case payload_len f rx1 of
             Inl e \<Rightarrow> Inl e
           | Inr (n, rx2) \<Rightarrow>
               (case read_mask f rx2 of
                  Inl e \<Rightarrow> Inl e
                | Inr (m, rx3) \<Rightarrow> Inr (opCode f, record_bytes m (take n rx3), drop n rx3)))
      | _ \<Rightarrow> Inl Uninitialised)"

lemma receive_send:
  assumes "length data < 65536"
  shows "receive_frame (ws_send text data @ rest) =
    Inr (if text then OPCODE_TEXT else OPCODE_BINARY, data, rest)"
proof -
  have split: "256 * (length data mod 65536 div 256 mod 256) + length data mod 65536 mod 256 = length data"
    using assms by (simp add: mod_less)
  show ?thesis
  proof (cases "length data < 126")
    case True
    then show ?thesis
      by (auto simp: ws_send_def receive_frame_def parse_frame_def payload_len_def read_mask_def
          record_bytes_def Let_def opcode_defs)
  next
    case False
    with assms split show ?thesis
      by (auto simp: ws_send_def receive_frame_def parse_frame_def payload_len_def read_mask_def
          record_bytes_def be16_def Let_def opcode_defs)
  qed
qed

lemma of_char_lt_256: "(of_char c :: nat) < 256"
  using of_char_mod_256 [of c, where 'a = nat] by (metis mod_less_divisor zero_less_numeral)

lemma xor_lt_256:
  assumes "(a :: nat) < 256" and "b < 256"
  shows "a XOR b < 256"
proof -
  have "take_bit 8 a = a" "take_bit 8 b = b"
    using assms by (simp_all add: take_bit_nat_eq_self_iff)
  then have "take_bit 8 (a XOR b) = a XOR b" by (simp only: take_bit_xor)
  then show ?thesis using take_bit_nat_less_exp [of 8 "a XOR b"] by (simp del: take_bit_xor)
qed

lemma xor_char_self [simp]: "xor_char (xor_char a b) b = a"
  using xor_lt_256 [OF of_char_lt_256 [of a] of_char_lt_256 [of b]]
  by (simp add: xor_char_def xor.assoc)

lemma unmask_involutive: "unmask_from i m (unmask_from i m s) = s"
  by (induction i m s rule: unmask_from.induct) auto

end
