(* ===== verification/Http_Conn.thy ===== *)
theory Http_Conn
  imports Ws_Handler
begin

text \<open>
  One connection of the HTTPS server library (\<open>HTTPConnection.cpp\<close>, with the TLS
  \<open>closeConnection\<close> of \<open>HTTPSConnection.cpp\<close>): the line reader, the request parser and the
  connection's state machine \<open>HTTPConnection::loop\<close>, with routing, the middleware chain,
  the handlers and websockets.

  The inputs of one call of \<open>loop\<close> are a record: what the socket read returned, whether the
  idle timeout has passed, how the TLS shutdown went, and whether each registry mutex was
  obtained. A response is appended to \<open>tx\<close> when it is complete. A call that never returns is
  the result None.
\<close>

section \<open>States\<close>

datatype conn_state =
    STATE_UNDEFINED | STATE_INITIAL | STATE_REQUEST_FINISHED | STATE_HEADERS_FINISHED
  | STATE_BODY_FINISHED | STATE_WEBSOCKET | STATE_CLOSING | STATE_CLOSED | STATE_ERROR

text \<open>The order of the enumeration, which the code compares with.\<close>

fun conn_rank :: "conn_state \<Rightarrow> nat" where
  "conn_rank STATE_UNDEFINED = 0"
| "conn_rank STATE_INITIAL = 1"
| "conn_rank STATE_REQUEST_FINISHED = 2"
| "conn_rank STATE_HEADERS_FINISHED = 3"
| "conn_rank STATE_BODY_FINISHED = 4"
| "conn_rank STATE_WEBSOCKET = 5"
| "conn_rank STATE_CLOSING = 6"
| "conn_rank STATE_CLOSED = 7"
| "conn_rank STATE_ERROR = 8"

lemma conn_rank_inj: "conn_rank a = conn_rank b \<Longrightarrow> a = b"
  by (cases a; cases b) simp_all

instantiation conn_state :: linorder
begin

definition less_eq_conn_state :: "conn_state \<Rightarrow> conn_state \<Rightarrow> bool" where
  "less_eq_conn_state a b \<longleftrightarrow> conn_rank a \<le> conn_rank b"

definition less_conn_state :: "conn_state \<Rightarrow> conn_state \<Rightarrow> bool" where
  "less_conn_state a b \<longleftrightarrow> conn_rank a < conn_rank b"

instance
  by standard (auto simp: less_eq_conn_state_def less_conn_state_def intro: conn_rank_inj)

end

datatype client_state = CSTATE_UNDEFINED | CSTATE_ACTIVE | CSTATE_CLOSED

record conn =
  connectionState :: conn_state
  clientState :: client_state
  rx :: string
  lineText :: string
  parsingFinished :: bool
  httpMethod :: string
  httpResource :: string
  httpHeaders :: headers
  wsHandler :: "handler option"
  wsFlags :: "bool \<times> bool"
  isKeepAlive :: bool
  ssl :: bool
  tx :: "response list"

datatype rx_event = Rx_data string | Rx_none | Rx_closed | Rx_error

datatype ssl_outcome = Ssl_done | Ssl_pending | Ssl_timeout

record loop_env =
  upd :: rx_event
  timed_out :: bool
  ssl_close :: ssl_outcome
  took_create :: bool
  took_frame :: bool
  took_lost :: bool

definition HTTPS_REQUEST_MAX_REQUEST_LENGTH :: nat where "HTTPS_REQUEST_MAX_REQUEST_LENGTH = 128"
definition HTTPS_REQUEST_MAX_HEADER_LENGTH :: nat where "HTTPS_REQUEST_MAX_HEADER_LENGTH = 384"
definition HTTPS_CONNECTION_DATA_CHUNK_SIZE :: nat where "HTTPS_CONNECTION_DATA_CHUNK_SIZE = 512"
definition HTTPS_KEEPALIVE_CACHESIZE :: nat where "HTTPS_KEEPALIVE_CACHESIZE = 1400"

section \<open>Closing\<close>

definition isClosed :: "conn \<Rightarrow> bool" where
  "isClosed c \<longleftrightarrow> connectionState c = STATE_ERROR \<or> connectionState c = STATE_CLOSED"

definition isError :: "conn \<Rightarrow> bool" where
  "isError c \<longleftrightarrow> connectionState c = STATE_ERROR"

text \<open>\<open>HTTPConnection::closeConnection\<close>: the handler is deleted; \<open>onClose\<close> is not called.\<close>

definition http_closeConnection :: "conn \<Rightarrow> 'db web \<Rightarrow> conn \<times> 'db web" where
  "http_closeConnection c w =
     (c\<lparr>connectionState := (if connectionState c = STATE_ERROR then STATE_ERROR else STATE_CLOSED),
        httpHeaders := [], wsHandler := None\<rparr>,
      (case wsHandler c of None \<Rightarrow> w | Some h \<Rightarrow> ws_delete h w))"

definition closeConnection :: "ssl_outcome \<Rightarrow> conn \<Rightarrow> 'db web \<Rightarrow> conn \<times> 'db web" where
  "closeConnection out c w =
     (let c1 = (if connectionState c \<noteq> STATE_ERROR \<and> connectionState c \<noteq> STATE_CLOSED
                then c\<lparr>connectionState := STATE_CLOSING\<rparr> else c);
          c2 = (if ssl c1 then
                  (if connectionState c1 = STATE_ERROR \<or> out = Ssl_done then c1\<lparr>ssl := False\<rparr>
                   else if out = Ssl_timeout then c1\<lparr>ssl := False, connectionState := STATE_ERROR\<rparr>
                   else c1)
                else c1)
      in if \<not> ssl c2 then http_closeConnection c2 w else (c2, w))"

text \<open>\<open>raiseError\<close>: an error page written directly, then the connection is closed.\<close>

definition raiseError :: "ssl_outcome \<Rightarrow> nat \<Rightarrow> string \<Rightarrow> conn \<Rightarrow> 'db web \<Rightarrow> conn \<times> 'db web" where
  "raiseError out code reason c w =
     closeConnection out
       (c\<lparr>connectionState := STATE_ERROR,
          tx := tx c @ [\<lparr>statusCode = code, statusText = reason,
                         res_headers = [(''Connection'', ''close''),
                                        (''Content-Type'', ''text/plain;charset=utf8'')],
                         res_body = []\<rparr>]\<rparr>) w"

section \<open>Reading\<close>

definition updateBuffer :: "loop_env \<Rightarrow> conn \<Rightarrow> 'db web \<Rightarrow> conn \<times> 'db web" where
  "updateBuffer e c w =
     (if isClosed c \<or> HTTPS_CONNECTION_DATA_CHUNK_SIZE \<le> length (rx c) then (c, w)
      else case upd e of
             Rx_data s \<Rightarrow> (c\<lparr>rx := rx c @ take (HTTPS_CONNECTION_DATA_CHUNK_SIZE - length (rx c)) s\<rparr>, w)
           | Rx_none \<Rightarrow> (c, w)
           | Rx_closed \<Rightarrow> (c\<lparr>clientState := CSTATE_CLOSED\<rparr>, w)
           | Rx_error \<Rightarrow> closeConnection (ssl_close e) (c\<lparr>connectionState := STATE_ERROR\<rparr>) w)"

datatype line_outcome =
    Line_finished string string  \<comment> \<open>the line, the unread bytes\<close>
  | Line_more string             \<comment> \<open>everything read, the line so far\<close>
  | Line_bad string string       \<comment> \<open>a carriage return without a line feed: 400\<close>
  | Line_long string string      \<comment> \<open>over the limit: 431\<close>

text \<open>
  \<open>readLine\<close>. When the last byte read so far is a carriage return, the loop neither
  consumes it nor returns: its guard stays true.
\<close>

partial_function (option) read_line :: "nat \<Rightarrow> string \<Rightarrow> string \<Rightarrow> line_outcome option" where
  "read_line lengthLimit buf text =
     (case buf of
        [] \<Rightarrow> Some (Line_more text)
      | c # cs \<Rightarrow>
          (if c = CHR 0x0D then
             (case cs of
                d # ds \<Rightarrow> if d = CHR 0x0A then Some (Line_finished text ds) else Some (Line_bad text buf)
              | [] \<Rightarrow> if lengthLimit < length text then Some (Line_long text buf)
                      else read_line lengthLimit buf text)
           else if lengthLimit < length (text @ [c]) then Some (Line_long (text @ [c]) cs)
           else read_line lengthLimit cs (text @ [c])))"

definition conn_read_line ::
  "loop_env \<Rightarrow> nat \<Rightarrow> conn \<Rightarrow> 'db web \<Rightarrow> (conn \<times> 'db web) option" where
  "conn_read_line e limit c w =
     (case read_line limit (rx c) (lineText c) of
        None \<Rightarrow> None
      | Some (Line_finished t rest) \<Rightarrow> Some (c\<lparr>rx := rest, lineText := t, parsingFinished := True\<rparr>, w)
      | Some (Line_more t) \<Rightarrow> Some (c\<lparr>rx := [], lineText := t\<rparr>, w)
      | Some (Line_bad t rest) \<Rightarrow>
          Some (raiseError (ssl_close e) 400 ''Bad Request'' (c\<lparr>rx := rest, lineText := t\<rparr>) w)
      | Some (Line_long t rest) \<Rightarrow>
          Some (raiseError (ssl_close e) 431 ''Request Header Fields Too Large''
                  (c\<lparr>rx := rest, lineText := t\<rparr>) w))"

section \<open>The request line and the headers\<close>

definition parse_request_line :: "string \<Rightarrow> (string \<times> string) option" where
  "parse_request_line l =
     (case find_char (CHR '' '') l 0 of
        None \<Rightarrow> None
      | Some i \<Rightarrow>
          (case find_char (CHR '' '') l (i + 1) of
             None \<Rightarrow> None
           | Some j \<Rightarrow> Some (take i l, take (j - i - 1) (drop (i + 1) l))))"

definition state_initial :: "loop_env \<Rightarrow> conn \<Rightarrow> 'db web \<Rightarrow> (conn \<times> 'db web) option" where
  "state_initial e c w =
     map_option (\<lambda>(c1, w1).
       if parsingFinished c1 \<and> \<not> isClosed c1 then
         (case parse_request_line (lineText c1) of
            None \<Rightarrow> raiseError (ssl_close e) 400 ''Bad Request'' c1 w1
          | Some (m, r) \<Rightarrow>
              (c1\<lparr>httpMethod := m, httpResource := r, parsingFinished := False, lineText := [],
                  connectionState := STATE_REQUEST_FINISHED\<rparr>, w1))
       else (c1, w1))
     (conn_read_line e HTTPS_REQUEST_MAX_REQUEST_LENGTH c w)"

definition parse_header_line :: "string \<Rightarrow> (string \<times> string) option" where
  "parse_header_line l =
     (case find_char (CHR '':'') l 0 of
        None \<Rightarrow> None
      | Some i \<Rightarrow> if i + 1 < length l \<and> l ! (i + 1) = CHR '' '' then Some (take i l, drop (i + 2) l) else None)"

text \<open>The header loop; \<open>fuel\<close> bounds its iterations by the bytes available, since every
  iteration that goes on consumes some.\<close>

fun header_loop :: "nat \<Rightarrow> loop_env \<Rightarrow> conn \<Rightarrow> 'db web \<Rightarrow> (conn \<times> 'db web) option" where
  "header_loop 0 e c w = Some (c, w)"
| "header_loop (Suc fuel) e c w =
     (if rx c = [] \<or> isClosed c then Some (c, w)
      else case conn_read_line e HTTPS_REQUEST_MAX_HEADER_LENGTH c w of
             None \<Rightarrow> None
           | Some (c1, w1) \<Rightarrow>
               (if parsingFinished c1 \<and> \<not> isError c1 then
                  (if lineText c1 = [] then
                     Some (c1\<lparr>connectionState := STATE_HEADERS_FINISHED, parsingFinished := False\<rparr>, w1)
                   else case parse_header_line (lineText c1) of
                          None \<Rightarrow> Some (raiseError (ssl_close e) 400 ''Bad Request'' c1 w1)
                        | Some (n, v) \<Rightarrow>
                            header_loop fuel e
                              (c1\<lparr>httpHeaders := headers_set n v (httpHeaders c1),
                                  parsingFinished := False, lineText := []\<rparr>) w1)
                else header_loop fuel e c1 w1))"

definition state_request_finished :: "loop_env \<Rightarrow> conn \<Rightarrow> 'db web \<Rightarrow> (conn \<times> 'db web) option" where
  "state_request_finished e c w = header_loop (Suc (length (rx c))) e c w"

section \<open>Handling a request\<close>

fun parse_uint_from :: "nat \<Rightarrow> nat \<Rightarrow> string \<Rightarrow> nat" where
  "parse_uint_from limit i [] = i"
| "parse_uint_from limit i (c # cs) =
     (if i < limit then
        (if 48 \<le> byte_val c \<and> byte_val c \<le> 57 then parse_uint_from limit (i * 10 + (byte_val c - 48)) cs
         else i)
      else limit)"

definition parse_uint :: "string \<Rightarrow> nat" where
  "parse_uint s = parse_uint_from (0x7fffffff div 10) 0 (if s \<noteq> [] \<and> hd s = CHR ''+'' then tl s else s)"

text \<open>\<open>parseInt\<close>, converted to the unsigned 32-bit size it is stored in.\<close>

definition content_length :: "string \<Rightarrow> nat" where
  "content_length s =
     (if s \<noteq> [] \<and> hd s = CHR ''-'' then (2 ^ 32 - parse_uint (tl s)) mod 2 ^ 32 else parse_uint s)"

definition mk_request :: "conn \<Rightarrow> request" where
  "mk_request c =
     \<lparr>req_method = httpMethod c, requestString = httpResource c, req_headers = httpHeaders c,
      contentLengthSet = (headers_get (httpHeaders c) ''Content-Length'' \<noteq> None),
      remainingContent = (case headers_get (httpHeaders c) ''Content-Length'' of
                            None \<Rightarrow> 0 | Some v \<Rightarrow> content_length v),
      avail = rx c\<rparr>"

text \<open>What is left of the buffer after the handler and \<open>discardRequestBody\<close> have read the
  body; None when they keep polling for bytes that have not arrived.\<close>

definition after_body :: "request \<Rightarrow> string option" where
  "after_body r =
     (if contentLengthSet r then
        (if remainingContent r \<le> length (avail r) then Some (drop (remainingContent r) (avail r)) else None)
      else Some [])"

definition contains :: "string \<Rightarrow> string \<Rightarrow> bool" where
  "contains pat s \<longleftrightarrow> list_ex (\<lambda>i. take (length pat) (drop i s) = pat) [0..<Suc (length s)]"

definition checkWebsocket :: "conn \<Rightarrow> bool" where
  "checkWebsocket c \<longleftrightarrow>
     httpMethod c = ''GET'' \<and>
     headers_value (httpHeaders c) ''Host'' \<noteq> [] \<and>
     headers_value (httpHeaders c) ''Upgrade'' = ''websocket'' \<and>
     contains ''Upgrade'' (headers_value (httpHeaders c) ''Connection'') \<and>
     headers_value (httpHeaders c) ''Sec-WebSocket-Key'' \<noteq> [] \<and>
     headers_value (httpHeaders c) ''Sec-WebSocket-Version'' = ''13''"

type_synonym 'db callback = "request \<Rightarrow> 'db act"
type_synonym 'db node = "('db callback, ws_class) http_node"
type_synonym 'db middleware = "request \<Rightarrow> 'db act \<Rightarrow> 'db act"

record 'db server =
  nodes :: "'db node list"
  defaultNode :: "'db node option"
  middleware :: "'db middleware list"
  keyResponseHash :: "string \<Rightarrow> string"

text \<open>The upgrade response; the SHA-1 digest of the key is a parameter of the server.\<close>

definition handleWebsocketHandshake :: "(string \<Rightarrow> string) \<Rightarrow> 'db callback" where
  "handleWebsocketHandshake kr req = (\<lambda>(res, w).
     (res_print []
       (setHeader ''Sec-WebSocket-Accept'' (kr (req_getHeader req ''Sec-WebSocket-Key''))
         (setHeader ''Connection'' ''Upgrade''
           (setHeader ''Upgrade'' ''websocket''
             (setStatusText ''Switching Protocols'' (setStatusCode 101 res))))), w))"

text \<open>
  The chain: the resource's callback, wrapped by the middleware functions from the last
  registered to the first. The program registers no parameter validators, so the internal
  validation middleware in front of the chain calls it.
\<close>

definition build_chain :: "'db middleware list \<Rightarrow> request \<Rightarrow> 'db act \<Rightarrow> 'db act" where
  "build_chain mws req callback = foldr (\<lambda>mw next. mw req next) mws callback"

definition wants_keep_alive :: "conn \<Rightarrow> bool" where
  "wants_keep_alive c \<longleftrightarrow>
     map ascii_lower (headers_value (httpHeaders c) ''Connection'') = ''keep-alive''"

text \<open>After a plain request: keep the connection for the next one, or finish.\<close>

definition finish_request :: "conn \<Rightarrow> response \<Rightarrow> conn" where
  "finish_request c res0 =
     (let res = (if isKeepAlive c \<and> HTTPS_KEEPALIVE_CACHESIZE < length (res_body res0)
                 then setHeader ''Connection'' ''close'' res0 else res0);
          keep = isKeepAlive c \<and> getHeader res ''Connection'' \<noteq> ''close'';
          c1 = c\<lparr>isKeepAlive := keep\<rparr>
      in if \<not> keep then
           (if isClosed c1 then c1
            else c1\<lparr>tx := tx c1 @ [res], connectionState := STATE_BODY_FINISHED\<rparr>)
         else
           (let c2 = c1\<lparr>tx := tx c1 @ [setHeader ''Content-Length'' (intToString (length (res_body res)))
                                      (setHeader ''Connection'' ''keep-alive'' res)]\<rparr>
            in if clientState c2 \<noteq> CSTATE_CLOSED
               then c2\<lparr>httpHeaders := [], connectionState := STATE_INITIAL\<rparr>
               else if isClosed c2 then c2 else c2\<lparr>connectionState := STATE_BODY_FINISHED\<rparr>))"

text \<open>The state \<open>STATE_HEADERS_FINISHED\<close> of \<open>HTTPConnection::loop\<close>.\<close>

definition state_headers_finished ::
  "'db server \<Rightarrow> loop_env \<Rightarrow> conn \<Rightarrow> 'db web \<Rightarrow> (fault + conn \<times> 'db web) option" where
  "state_headers_finished sv e c w =
     (let websocketRequested = checkWebsocket c in
      case resolveNode (nodes sv) (defaultNode sv) (httpMethod c) (httpResource c)
             (if websocketRequested then WEBSOCKET else HANDLER_CALLBACK) of
        Inl f \<Rightarrow> Some (Inl f)
      | Inr rr \<Rightarrow>
          (case matchingNode rr of
             None \<Rightarrow> Some (Inr (raiseError (ssl_close e) 404 ''Not Found'' c w))
           | Some node \<Rightarrow>
               (let c1 = c\<lparr>isKeepAlive := (nodeType node = HANDLER_CALLBACK \<and> wants_keep_alive c)\<rparr>;
                    req = mk_request c1;
                    callback = (if websocketRequested then Inr (handleWebsocketHandshake (keyResponseHash sv))
                                else case node of
                                       ResourceNode _ _ cb \<Rightarrow> Inr cb
                                     | WebsocketNode _ _ \<Rightarrow> Inl Type_confusion)
                in case callback of
                     Inl f \<Rightarrow> Some (Inl f)
                   | Inr cb \<Rightarrow>
                       (let (res, w1) = build_chain (middleware sv) req (cb req) (new_response, w)
                        in case after_body req of
                             None \<Rightarrow> None
                           | Some rest \<Rightarrow>
                               (let c2 = c1\<lparr>rx := rest\<rparr> in
                                if websocketRequested then
                                  (case node of
                                     ResourceNode _ _ _ \<Rightarrow> Some (Inl Type_confusion)
                                   | WebsocketNode _ cls \<Rightarrow>
                                       (let (h, w2) = new_handler cls (took_create e) w1
                                        in Some (Inr (c2\<lparr>tx := tx c2 @ [res], wsHandler := Some h,
                                                         wsFlags := (False, False),
                                                         connectionState := STATE_WEBSOCKET\<rparr>, w2))))
                                else Some (Inr (finish_request c2 res, w1)))))))"

section \<open>Websocket connections\<close>

definition state_websocket :: "loop_env \<Rightarrow> conn \<Rightarrow> 'db web \<Rightarrow> fault + conn \<times> 'db web" where
  "state_websocket e c w =
     (case wsHandler c of
        None \<Rightarrow> Inl Uninitialised
      | Some h \<Rightarrow>
          (case (if rx c = [] then Inr (rx c, wsFlags c, w)
                 else ws_loop (took_frame e) h (rx c) (wsFlags c) w) of
             Inl f \<Rightarrow> Inl f
           | Inr (rx', flags, w1) \<Rightarrow>
               (let w2 = (if clientState c = CSTATE_CLOSED then ws_onClose (took_lost e) h w1 else w1);
                    c1 = c\<lparr>rx := rx', wsFlags := flags\<rparr>
                in if ws_closed flags \<or> clientState c = CSTATE_CLOSED
                   then Inr (c1\<lparr>wsHandler := None, connectionState := STATE_CLOSING\<rparr>, ws_delete h w2)
                   else Inr (c1, w2))))"

section \<open>HTTPConnection::loop\<close>

definition conn_loop ::
  "'db server \<Rightarrow> loop_env \<Rightarrow> conn \<Rightarrow> 'db web \<Rightarrow> (fault + conn \<times> 'db web) option" where
  "conn_loop sv e c w =
     (let (c1, w1) = updateBuffer e c w;
          (c2, w2) = (if clientState c1 = CSTATE_CLOSED \<and> rx c1 = [] \<and>
                         connectionState c1 < STATE_HEADERS_FINISHED
                      then closeConnection (ssl_close e) c1 w1 else (c1, w1));
          (c3, w3) = (if \<not> isClosed c2 \<and> timed_out e then closeConnection (ssl_close e) c2 w2
                      else (c2, w2))
      in if isError c3 then Some (Inr (c3, w3))
         else case connectionState c3 of
                STATE_INITIAL \<Rightarrow> map_option Inr (state_initial e c3 w3)
              | STATE_REQUEST_FINISHED \<Rightarrow> map_option Inr (state_request_finished e c3 w3)
              | STATE_HEADERS_FINISHED \<Rightarrow> state_headers_finished sv e c3 w3
              | STATE_BODY_FINISHED \<Rightarrow> Some (Inr (closeConnection (ssl_close e) c3 w3))
              | STATE_CLOSING \<Rightarrow> Some (Inr (closeConnection (ssl_close e) c3 w3))
              | STATE_WEBSOCKET \<Rightarrow> Some (state_websocket e c3 w3)
              | _ \<Rightarrow> Some (Inr (c3, w3)))"

end
