(* ===== verification/Web_App.thy ===== *)
theory Web_App
  imports Http_Conn Url_Code
begin

text \<open>
  The request handlers of \<open>src/main.cpp\<close> and the routes \<open>serverTask\<close> registers. Handlers that
  hand a command to the control task and poll until it is cleared take that task as a
  parameter: \<open>ctl\<close> maps the world at the start of the wait to the world at its end. The
  component \<open>Control\<close> models the task itself.
\<close>

section \<open>Pages\<close>

definition html :: "response \<Rightarrow> response" where
  "html = setHeader ''Content-Type'' ''text/html''"

definition handleRoot :: "(string \<Rightarrow> string) \<Rightarrow> nat \<Rightarrow> 'db callback" where
  "handleRoot sd millis req = (\<lambda>(res, w).
     (res_println (FuncReadTemplate sd ''/templates/home.html''
        [(''%LOGGED_IN%'', ''logout''), (''%TIME%'', intToString (millis div 1000))]) (html res), w))"

definition handleStyle :: "(string \<Rightarrow> string) \<Rightarrow> 'db callback" where
  "handleStyle sd req = (\<lambda>(res, w).
     (res_println (sd ''/static/style.css'')
        (setHeader ''Connection'' ''close'' (setHeader ''Content-Type'' ''text/css'' res)), w))"

definition handleTerminal :: "(string \<Rightarrow> string) \<Rightarrow> 'db callback" where
  "handleTerminal sd req = (\<lambda>(res, w).
     (res_println (FuncReadTemplate sd ''/templates/terminal.html'' [(''%LOGGED_IN%'', ''logout'')])
        (html (setHeader ''Connection'' ''close'' res)), w))"

definition handleComputers :: "(string \<Rightarrow> string) \<Rightarrow> 'db callback" where
  "handleComputers sd req = (\<lambda>(res, w).
     (res_println (FuncReadTemplate sd ''/templates/computers.html'' [(''%LOGGED_IN%'', ''logout'')]) (html res), w))"

definition handleAdmin :: "(string \<Rightarrow> string) \<Rightarrow> 'db callback" where
  "handleAdmin sd req = (\<lambda>(res, w).
     (res_println (FuncReadTemplate sd ''/templates/admin.html''
        [(''%ERROR%'', []), (''%LOGGED_IN%'', ''login'')]) (html res), w))"

definition handleSSHpage :: "(string \<Rightarrow> string) \<Rightarrow> 'db callback" where
  "handleSSHpage sd req = (\<lambda>(res, w).
     (res_println (FuncReadTemplate sd ''/templates/websocket.html'' []) (html res), w))"

definition handle404 :: "'db callback" where
  "handle404 req = (\<lambda>(res, w).
     (res_println ''</html>''
       (res_println ''<body><h1>404 Not Found</h1><p>The requested resource was not found on this server.</p></body>''
         (res_println ''<head><title>Not Found</title></head>''
           (res_println ''<html>''
             (res_println ''<!DOCTYPE html>''
               (html (setStatusText ''Not Found'' (setStatusCode 404 res))))))), w))"

section \<open>Devices\<close>

definition LAPTOP_HP_1 :: nat where "LAPTOP_HP_1 = 33"
definition LAPTOP_HP_2 :: nat where "LAPTOP_HP_2 = 32"
definition LAPTOP_HP_3 :: nat where "LAPTOP_HP_3 = 12"
definition LAPTOP_LENOVO_1 :: nat where "LAPTOP_LENOVO_1 = 27"
definition LAPTOP_ACER_1 :: nat where "LAPTOP_ACER_1 = 26"
definition LAPTOP_ACER_2 :: nat where "LAPTOP_ACER_2 = 25"

text \<open>A power button press: the pin is high for a second, then low again.\<close>

definition press :: "nat \<Rightarrow> 'db callback" where
  "press pin req = (\<lambda>(res, w). (res, w\<lparr>gpio := gpio w @ [(pin, True), (pin, False)]\<rparr>))"

definition handleToggle1 :: "'db callback" where "handleToggle1 = press LAPTOP_HP_1"
definition handleToggle2 :: "'db callback" where "handleToggle2 = press LAPTOP_HP_2"
definition handleToggle3 :: "'db callback" where "handleToggle3 = press LAPTOP_LENOVO_1"
definition handleToggle4 :: "'db callback" where "handleToggle4 = press LAPTOP_ACER_1"
definition handleToggle5 :: "'db callback" where "handleToggle5 = press LAPTOP_ACER_2"
definition handleToggle6 :: "'db callback" where "handleToggle6 = press LAPTOP_HP_3"

text \<open>The body a handler's read loop collects (it is there: \<open>conn_loop\<close> polls until then).\<close>

definition body_of :: "request \<Rightarrow> string" where
  "body_of req = (case read_body req of None \<Rightarrow> [] | Some (s, _) \<Rightarrow> s)"

definition unquote :: "string \<Rightarrow> string" where
  "unquote s = substring s 1 (str_len s - 1)"

definition handleFan :: "'db callback" where
  "handleFan req = (\<lambda>(res, w).
     (res_println ''OK'' (setHeader ''Content-Type'' ''text/plain'' res),
      w\<lparr>fan_duty := to_int (unquote (body_of req))\<rparr>))"

section \<open>Commands for the control task\<close>

definition handleTerminalPost :: "('db web \<Rightarrow> 'db web) \<Rightarrow> 'db callback" where
  "handleTerminalPost ctl req = (\<lambda>(res, w).
     (let res1 = setHeader ''Content-Type'' ''text/plain'' res;
          w1 = w\<lparr>ssh_command := unquote (body_of req)\<rparr>;
          w2 = (if ssh_command w1 = [] then w1 else ctl w1)
      in (res_println (shh_output_string w2) res1, w2\<lparr>shh_output_string := []\<rparr>)))"

definition handleSSHStatus1 :: "('db web \<Rightarrow> 'db web) \<Rightarrow> 'db callback" where
  "handleSSHStatus1 ctl req = (\<lambda>(res, w).
     (let w1 = ctl (w\<lparr>hp_1_status_req := True\<rparr>)
      in (res_println (if ssh_conn_flag w1 then ''1'' else ''0'')
            (setHeader ''Content-Type'' ''application/json'' res), w1)))"

definition switchSsh0 :: "'db callback" where
  "switchSsh0 req = (\<lambda>(res, w). (html res, w\<lparr>switch_ssh := ''0''\<rparr>))"

definition switchSsh1 :: "'db callback" where
  "switchSsh1 req = (\<lambda>(res, w). (html res, w\<lparr>switch_ssh := ''1''\<rparr>))"

definition base_name :: "string \<Rightarrow> string" where
  "base_name p = substring_from p (last_index_of p (CHR ''/'') + 1)"

text \<open>\<open>handleSCP\<close>: the decoded path without its quotes goes to the control task, then the
  file it fetched is sent and removed.\<close>

definition handleSCP :: "('db web \<Rightarrow> 'db web) \<Rightarrow> 'db callback" where
  "handleSCP ctl req = (\<lambda>(res, w).
     (let res1 = setHeader ''Content-Type'' ''application/octet-stream'' res;
          plain_file_path = unquote (urldecode (body_of req));
          w1 = w\<lparr>scp_command := plain_file_path\<rparr>;
          w2 = (if scp_command w1 = [] then w1 else ctl w1);
          content = (case download_file w2 of None \<Rightarrow> [] | Some s \<Rightarrow> s);
          filename = ''attachment; filename='' @ [CHR 0x22] @ base_name plain_file_path @ [CHR 0x22];
          res2 = setHeader ''Content-Length'' (intToString (length content))
                   (setHeader ''Content-Disposition'' (c_str filename) res1)
      in (res_print content res2, w2\<lparr>download_file := None\<rparr>)))"

definition handleUPLOAD :: "bool \<Rightarrow> ('db web \<Rightarrow> 'db web) \<Rightarrow> 'db callback" where
  "handleUPLOAD sd_ok ctl req = (\<lambda>(res, w).
     (let path = c_str (req_getHeader req ''path'');
          w1 = (if sd_ok then w\<lparr>upload_file := Some (body_of req)\<rparr> else w);
          w2 = w1\<lparr>upload_command := path\<rparr>;
          w3 = (if upload_command w2 = [] then w2 else ctl w2)
      in (html res, w3)))"

section \<open>The server\<close>

definition login_callback ::
  "('db \<Rightarrow> string \<Rightarrow> string \<Rightarrow> 'db) \<Rightarrow> (string \<Rightarrow> byte list) \<Rightarrow> (string \<Rightarrow> string) \<Rightarrow> 'db callback" where
  "login_callback kv_put sha256 sd req = handleLogIn kv_put sha256 sd (body_of req)"

text \<open>The parameters of a running device.\<close>

record 'db device =
  dev_sd :: "string \<Rightarrow> string"
  dev_kv_get :: "'db \<Rightarrow> string \<Rightarrow> string option"
  dev_kv_put :: "'db \<Rightarrow> string \<Rightarrow> string \<Rightarrow> 'db"
  dev_sha256 :: "string \<Rightarrow> byte list"
  dev_key_hash :: "string \<Rightarrow> string"
  dev_ctl :: "'db web \<Rightarrow> 'db web"
  dev_millis :: nat
  dev_sd_ok :: bool

text \<open>The nodes in the order of registration in \<open>serverTask\<close>.\<close>

definition app_nodes :: "'db device \<Rightarrow> 'db node list" where
  "app_nodes d =
     [WebsocketNode ''/ssh'' SSHHandler,
      WebsocketNode ''/websocketFan'' FanHandler,
      ResourceNode ''/sshpage'' ''GET'' (handleSSHpage (dev_sd d)),
      ResourceNode ''/'' ''GET'' (handleRoot (dev_sd d) (dev_millis d)),
      ResourceNode ''/scp'' ''POST'' (handleSCP (dev_ctl d)),
      ResourceNode ''/terminal'' ''GET'' (handleTerminal (dev_sd d)),
      ResourceNode ''/terminal_post'' ''POST'' (handleTerminalPost (dev_ctl d)),
      ResourceNode ''/SSH1Status'' ''POST'' (handleSSHStatus1 (dev_ctl d)),
      ResourceNode ''/toggle1'' ''POST'' handleToggle1,
      ResourceNode ''/toggle2'' ''POST'' handleToggle2,
      ResourceNode ''/toggle3'' ''POST'' handleToggle3,
      ResourceNode ''/toggle4'' ''POST'' handleToggle4,
      ResourceNode ''/toggle5'' ''POST'' handleToggle5,
      ResourceNode ''/toggle6'' ''POST'' handleToggle6,
      ResourceNode ''/switchssh0'' ''POST'' switchSsh0,
      ResourceNode ''/switchssh1'' ''POST'' switchSsh1,
      ResourceNode ''/fan'' ''POST'' handleFan,
      ResourceNode ''/computers'' ''GET'' (handleComputers (dev_sd d)),
      ResourceNode ''/admin'' ''GET'' (handleAdmin (dev_sd d)),
      ResourceNode ''/admin'' ''POST'' (login_callback (dev_kv_put d) (dev_sha256 d) (dev_sd d)),
      ResourceNode ''/style.css'' ''GET'' (handleStyle (dev_sd d)),
      ResourceNode ''/upload'' ''POST'' (handleUPLOAD (dev_sd_ok d) (dev_ctl d))]"

definition app_default :: "'db node" where
  "app_default = ResourceNode [] ''GET'' handle404"

definition app_server :: "'db device \<Rightarrow> 'db server" where
  "app_server d =
     \<lparr>nodes = app_nodes d, defaultNode = Some app_default,
      middleware = [\<lambda>req next. middlewareAuth (dev_kv_get d) (dev_sd d) req next],
      keyResponseHash = dev_key_hash d\<rparr>"

section \<open>Routing facts\<close>

lemma app_nodes_static: "\<forall>n\<in>set (app_nodes d). pathParamIdx n = []"
  by (simp add: app_nodes_def pathParamIdx_def)

lemma app_chain:
  "build_chain (middleware (app_server d)) req cb = middlewareAuth (dev_kv_get d) (dev_sd d) req cb"
  by (simp add: build_chain_def app_server_def)

end
