(* ===== verification/Web_Security.thy ===== *)
theory Web_Security
  imports Web_App
begin

text \<open>
  What the web interface guarantees and where it fails: the password gate, the session
  round trip, the life of websocket handlers, and the protocol readers.
\<close>

section \<open>Sessions\<close>

lemma session_password_cookie:
  assumes "req_getHeader req ''Cookie'' = ''session='' @ k"
    and "CHR 0x00 \<notin> set k" and "CHR ''='' \<notin> set k" and "length k < 2 ^ 31"
  shows "session_password kv_get a req =
    after_last (CHR ''='') (case kv_get (Session_dict a) k of None \<Rightarrow> [] | Some p \<Rightarrow> p)"
proof -
  have "after_last (CHR ''='') (''session'' @ CHR ''='' # k) = k"
    using assms by (intro after_last_append) auto
  with assms show ?thesis by (simp add: session_password_def)
qed

lemma login_data:
  assumes "length pre = 9" and "length pre + length pw < 2 ^ 32"
  shows "substring (pre @ pw) 9 (str_len (pre @ pw)) = pw"
  using assms by (simp add: substring_def str_len_def uint32_def Let_def)

lemma login_cookie:
  assumes "handleLogIn kv_put digest sd (pre @ pw) (res, a) = (res1, a1)"
    and "length pre = 9" and "length pre + length pw < 2 ^ 32"
  shows "cookie_pair (getHeader res1 ''Set-Cookie'') = ''session='' @ hexStr (digest pw)"
    and "Session_dict a1 = kv_put (Session_dict a) (hexStr (digest pw)) pw"
    and "PASSWORD a1 = PASSWORD a"
proof -
  have norm: "normalizeHeaderName ''Set-Cookie'' \<noteq> normalizeHeaderName ''Content-Type''" by code_simp
  have nul: "CHR 0x00 \<notin> set (''session='' @ hexStr bs @ ''; Path=/; SameSite=Strict; Secure'')" for bs
    using hexStr_safe(1) [of bs] by simp
  have pair: "cookie_pair (''session='' @ hexStr bs @ ''; Path=/; SameSite=Strict; Secure'')
      = ''session='' @ hexStr bs" for bs
    using hexStr_safe(3) [of bs] by (simp add: cookie_pair_def takeWhile_append)
  have hdr: "getHeader res1 ''Set-Cookie'' = ''session='' @ hexStr (digest pw) @ ''; Path=/; SameSite=Strict; Secure''"
    using assms(1) norm nul [of "digest pw"]
    by (auto simp: handleLogIn_def login_data [OF assms(2,3)] getHeader_setHeader Let_def
        split: if_splits)
  show "cookie_pair (getHeader res1 ''Set-Cookie'') = ''session='' @ hexStr (digest pw)"
    unfolding hdr by (rule pair)
  show "Session_dict a1 = kv_put (Session_dict a) (hexStr (digest pw)) pw" "PASSWORD a1 = PASSWORD a"
    using assms(1) by (auto simp: handleLogIn_def login_data [OF assms(2,3)] Let_def split: if_splits)
qed


definition demo_kv_get :: "(string \<times> string) list \<Rightarrow> string \<Rightarrow> string option" where
  "demo_kv_get = map_of"

definition demo_kv_put :: "(string \<times> string) list \<Rightarrow> string \<Rightarrow> string \<Rightarrow> (string \<times> string) list" where
  "demo_kv_put db k v = (k, v) # db"

definition demo_auth :: "(string \<times> string) list auth" where
  "demo_auth = \<lparr>Session_dict = [], PASSWORD = ''hunter2''\<rparr>"

definition demo_sha256 :: "string \<Rightarrow> byte list" where
  "demo_sha256 s = replicate 32 (of_nat (length s))"

definition demo_request :: "string \<Rightarrow> string \<Rightarrow> request" where
  "demo_request path cookie =
     \<lparr>req_method = ''GET'', requestString = path, req_headers = [(''Cookie'', cookie)],
      contentLengthSet = False, remainingContent = 0, avail = []\<rparr>"



definition demo_device :: "(string \<times> string) list device" where
  "demo_device = \<lparr>dev_sd = (\<lambda>_. []), dev_kv_get = demo_kv_get, dev_kv_put = demo_kv_put,
     dev_sha256 = demo_sha256, dev_key_hash = (\<lambda>k. k), dev_ctl = (\<lambda>w. w), dev_millis = 0,
     dev_sd_ok = True\<rparr>"

definition demo_web :: "(string \<times> string) list web" where
  "demo_web = \<lparr>Session_dict = [], PASSWORD = ''hunter2'', ssh_slots = empty_slots,
     fan_slots = empty_slots, heap = Map.empty, next_handler = 0, ssh_command = [],
     upload_command = [], scp_command = [], switch_ssh = [], hp_1_status_req = False,
     shh_output_string = [], upload_file = None, download_file = None, gpio = [], fan_duty = 0,
     ssh_conn_flag = False\<rparr>"

definition demo_conn :: "string \<Rightarrow> headers \<Rightarrow> conn" where
  "demo_conn path hs = \<lparr>connectionState = STATE_HEADERS_FINISHED, clientState = CSTATE_ACTIVE, rx = [],
     lineText = [], parsingFinished = False, httpMethod = ''GET'', httpResource = path,
     httpHeaders = hs, wsHandler = None, wsFlags = (False, False), isKeepAlive = False,
     ssl = True, tx = []\<rparr>"

definition quiet_env :: loop_env where
  "quiet_env = \<lparr>upd = Rx_none, timed_out = False, ssl_close = Ssl_done, took_create = True,
     took_frame = True, took_lost = True\<rparr>"

lemma demo_session: "session_password demo_kv_get demo_web (mk_request (demo_conn p [])) = []"
  by (simp add: session_password_def demo_conn_def mk_request_def req_getHeader_def headers_value_def
      headers_get_def demo_kv_get_def demo_web_def after_last_none)


text \<open>
  The gate stands open when the password file cannot be read. \<open>setup\<close> replaces the
  random initial password by the (then empty) text of the file, and a request without a
  known session yields the empty password too: the middleware passes every request on, to
  any page but \<open>/admin\<close>. The comment at the initial value says this cannot happen.
\<close>

theorem missing_password_file_opens_gate:
  assumes unread: "sd ''/crypto/password.txt'' = []"
    and unknown: "kv_get (Session_dict a) [] = None"
    and cookie: "req_getHeader req ''Cookie'' = []"
    and path: "c_str (requestString req) \<noteq> ''/admin''"
  shows "middlewareAuth kv_get sd req next (res, setup_password sd a) = next (res, setup_password sd a)"
  using assms by (simp add: middlewareAuth_def session_password_def setup_password_def after_last_none Let_def)

lemma missing_password_file_opens_gate_witness:
  "middlewareAuth demo_kv_get (\<lambda>_. []) (demo_request ''/scp'' [])
     (\<lambda>(r, a). (setStatusCode 204 r, a)) (new_response, setup_password (\<lambda>_. []) demo_auth) =
   (setStatusCode 204 new_response, setup_password (\<lambda>_. []) demo_auth)"
proof -
  have "req_getHeader (demo_request ''/scp'' []) ''Cookie'' = []"
    by (simp add: demo_request_def req_getHeader_def headers_value_def headers_get_def)
  then show ?thesis
    by (subst missing_password_file_opens_gate)
      (simp_all add: demo_auth_def demo_kv_get_def demo_request_def)
qed

text \<open>
  A device password that contains an equals sign locks everyone out: what the middleware
  compares is cut after the last equals sign, so no cookie and no stored session ever
  matches.
\<close>

theorem equals_sign_locks_out:
  assumes "CHR ''='' \<in> set (PASSWORD a)"
    and "\<And>k v. kv_get (Session_dict a) k = Some v \<Longrightarrow> length v < 2 ^ 32"
  shows "session_password kv_get a req \<noteq> PASSWORD a"
proof -
  have "CHR ''='' \<notin> set (session_password kv_get a req)"
    using assms(2) by (auto simp: session_password_def Let_def after_last_free split: option.split)
  with assms(1) show ?thesis by metis
qed

lemma equals_sign_locks_out_witness:
  "session_password demo_kv_get (demo_auth\<lparr>PASSWORD := ''a=b''\<rparr>) (demo_request ''/'' []) \<noteq> ''a=b''"
  using equals_sign_locks_out [of "demo_auth\<lparr>PASSWORD := ''a=b''\<rparr>" demo_kv_get "demo_request ''/'' []"]
  by (simp add: demo_auth_def demo_kv_get_def)

end
