(* ===== verification/Web_Sockets.thy ===== *)
theory Web_Sockets
  imports Web_Security
begin

text \<open>
  The websocket connections of the web interface: who gets one, what a message does, when
  the handler objects are freed, and the readers of lines and frames.
\<close>

section \<open>Frames\<close>

text \<open>A masked text frame of a client (RFC 6455), for payloads under 126 bytes.\<close>

definition client_frame :: "string \<Rightarrow> string \<Rightarrow> string" where
  "client_frame key payload =
     [char_byte (128 + OPCODE_TEXT), char_byte (128 + length payload)] @ key @ unmask_from 0 key payload"

lemma length_unmask [simp]: "length (unmask_from i m s) = length s"
  by (induction i m s rule: unmask_from.induct) auto

lemma length_4: "length key = 4 \<Longrightarrow> \<exists>a b c d. key = [a, b, c, d]"
  by (auto simp: length_Suc_conv eval_nat_numeral)

lemma ws_read_client_frame:
  assumes "length key = 4" and "length payload < 126"
  shows "ws_read took h (client_frame key payload @ rest) flags w =
    Inr (0, rest, flags, ws_onMessage h payload w)"
proof -
  obtain k1 k2 k3 k4 where key: "key = [k1, k2, k3, k4]" using length_4 [OF assms(1)] by blast
  have f: "parse_frame (char_byte (128 + OPCODE_TEXT)) (char_byte (128 + length payload)) =
      \<lparr>opCode = OPCODE_TEXT, masked = True, len7 = length payload\<rparr>"
    using assms(2) by (simp add: parse_frame_def opcode_defs)
  show ?thesis
    using assms(2)
    by (simp add: client_frame_def ws_read_def f payload_len_def read_mask_def key Let_def
        record_bytes_def unmask_involutive)
qed

text \<open>
  C35: A sent frame arrives. What \<open>send\<close> writes for a payload of fewer than 65536 bytes, the
  library's own reader takes apart again: the opcode, the payload, and the bytes that follow
  the frame untouched.
\<close>

theorem send_receive_roundtrip:
  assumes "length data < 65536"
  shows "receive_frame (ws_send text data @ rest) =
    Inr (if text then OPCODE_TEXT else OPCODE_BINARY, data, rest)"
  using assms by (rule receive_send)

lemma send_receive_roundtrip_witness:
  "receive_frame (ws_send True ''rpm=900'' @ ''next'') = Inr (OPCODE_TEXT, ''rpm=900'', ''next'')"
  using send_receive_roundtrip [of "''rpm=900''" True "''next''"] by simp

text \<open>
  The 64-bit length form is read from the wrong half. For every frame with the length
  code 127 whose eight length bytes are the big-endian form of a length below 2^32, the
  reader takes the payload to be empty, so the payload is parsed as further frames.
\<close>

theorem long_frame_length_lost:
  assumes "len7 f = 127"
  shows "payload_len f ([CHR 0x00, CHR 0x00, CHR 0x00, CHR 0x00, a, b, c, d] @ payload) = Inr (0, payload)"
  using assms by (simp add: payload_len_def be32_def be16_def byte_val_def)

lemma long_frame_length_lost_witness:
  "payload_len (parse_frame (char_byte 129) (char_byte 127))
     ([CHR 0x00, CHR 0x00, CHR 0x00, CHR 0x00, CHR 0x00, CHR 0x01, CHR 0x00, CHR 0x00] @ ''payload'') =
   Inr (0, ''payload'')"
  by (rule long_frame_length_lost) (simp add: parse_frame_def)

section \<open>Who gets a websocket\<close>

lemma ssh_route:
  "resolveNode (nodes (app_server d)) (defaultNode (app_server d)) m ''/ssh'' WEBSOCKET =
     Inr \<lparr>matchingNode = Some (if m = ''GET'' then WebsocketNode ''/ssh'' SSHHandler else app_default),
          queryParams = [], pathParams = []\<rparr>"
proof -
  have "resolveNode (nodes (app_server d)) (defaultNode (app_server d)) m ''/ssh'' WEBSOCKET =
      Inr \<lparr>matchingNode = Some (case List.find (static_match m ''/ssh'' WEBSOCKET) (app_nodes d) of
             None \<Rightarrow> app_default | Some n \<Rightarrow> n), queryParams = [], pathParams = []\<rparr>"
    using resolveNode_static [OF app_nodes_static, of "''/ssh''" d app_default m WEBSOCKET]
    by (simp add: app_server_def)
  then show ?thesis by (simp add: app_nodes_def static_match_def node_admits_def)
qed

lemma denied_page:
  assumes "session_password (dev_kv_get d) w req \<noteq> PASSWORD w"
    and "\<not> public_path (c_str (requestString req))"
  shows "\<exists>page. (\<forall>f. build_chain (middleware (app_server d)) req f (new_response, w) = (page, w)) \<and>
    statusCode page = 404"
  using assms by (auto simp: app_chain middlewareAuth_def Let_def response_defs)

lemma quiet_simps [simp]:
  "took_create quiet_env" "took_frame quiet_env" "took_lost quiet_env" "ssl_close quiet_env = Ssl_done"
  by (simp_all add: quiet_env_def)

lemma conn_loop_headers:
  assumes "connectionState c = STATE_HEADERS_FINISHED" and "clientState c \<noteq> CSTATE_CLOSED"
  shows "conn_loop sv quiet_env c w = state_headers_finished sv quiet_env c w"
  using assms by (simp add: conn_loop_def updateBuffer_def quiet_env_def isClosed_def isError_def Let_def)

lemma conn_loop_websocket_data:
  assumes "connectionState c = STATE_WEBSOCKET" and "clientState c \<noteq> CSTATE_CLOSED"
    and "rx c = []" and "length s \<le> HTTPS_CONNECTION_DATA_CHUNK_SIZE"
  shows "conn_loop sv (quiet_env\<lparr>upd := Rx_data s\<rparr>) c w =
    Some (state_websocket (quiet_env\<lparr>upd := Rx_data s\<rparr>) (c\<lparr>rx := s\<rparr>) w)"
  using assms
  by (simp add: conn_loop_def updateBuffer_def quiet_env_def isClosed_def isError_def Let_def
      HTTPS_CONNECTION_DATA_CHUNK_SIZE_def)

lemma open_ssh_websocket:
  assumes st: "connectionState c = STATE_HEADERS_FINISHED" "clientState c = CSTATE_ACTIVE"
    and ws: "checkWebsocket c" "httpResource c = ''/ssh''"
    and unauth: "session_password (dev_kv_get d) w (mk_request c) \<noteq> PASSWORD w"
    and body: "after_body (mk_request c) = Some []"
  obtains c1 w1 r where "conn_loop (app_server d) quiet_env c w = Some (Inr (c1, w1))"
    and "tx c1 = tx c @ [r]" and "statusCode r = 404"
    and "connectionState c1 = STATE_WEBSOCKET" and "clientState c1 = CSTATE_ACTIVE" and "rx c1 = []"
    and "wsHandler c1 = Some (next_handler w)" and "wsFlags c1 = (False, False)"
    and "w1 = snd (new_handler SSHHandler True w)"
proof -
  have m: "httpMethod c = ''GET''" using ws(1) by (simp add: checkWebsocket_def)
  have req: "mk_request (c\<lparr>isKeepAlive := k\<rparr>) = mk_request c" for k
    by (simp add: mk_request_def)
  have "\<not> public_path (c_str (requestString (mk_request c)))"
    using ws(2) by (simp add: mk_request_def public_path_def)
  from denied_page [OF unauth this] obtain page where
    page: "\<And>f. build_chain (middleware (app_server d)) (mk_request c) f (new_response, w) = (page, w)"
    and code: "statusCode page = 404" by blast
  let ?c1 = "c\<lparr>isKeepAlive := False, rx := [], tx := tx c @ [page], wsHandler := Some (next_handler w),
               wsFlags := (False, False), connectionState := STATE_WEBSOCKET\<rparr>"
  have h: "fst (new_handler SSHHandler True w) = next_handler w"
    by (simp add: new_handler_def ssh_create_def Let_def)
  have "conn_loop (app_server d) quiet_env c w = Some (Inr (?c1, snd (new_handler SSHHandler True w)))"
    using st ws body h
    by (simp add: conn_loop_headers state_headers_finished_def m ssh_route req page Let_def
        split_beta)
  with code st show ?thesis by (intro that [of ?c1 _ page]) auto
qed

text \<open>
  The gate does not guard websockets. A client without a session that asks for an upgrade
  on \<open>/ssh\<close> is answered with status 404, and the connection becomes a registered terminal
  client all the same; the next text frame it sends becomes the command the control task
  writes to the SSH server.
\<close>

theorem unauthenticated_terminal:
  assumes "connectionState c = STATE_HEADERS_FINISHED" and "clientState c = CSTATE_ACTIVE"
    and "checkWebsocket c" and "httpResource c = ''/ssh''"
    and "session_password (dev_kv_get d) w (mk_request c) \<noteq> PASSWORD w"
    and "after_body (mk_request c) = Some []"
    and "registry_sound w" and "length (registered (ssh_slots w)) < MAX_CLIENTS"
    and "length key = 4" and "length cmd < 126" and "CHR 0x00 \<notin> set cmd"
  shows "\<exists>c1 w1 c2 w2 r.
    conn_loop (app_server d) quiet_env c w = Some (Inr (c1, w1)) \<and> tx c1 = tx c @ [r] \<and> statusCode r = 404 \<and>
    next_handler w \<in> set (registered (ssh_slots w1)) \<and>
    conn_loop (app_server d) (quiet_env\<lparr>upd := Rx_data (client_frame key cmd)\<rparr>) c1 w1 = Some (Inr (c2, w2)) \<and>
    ssh_command w2 = cmd"
proof -
  from open_ssh_websocket [OF assms(1-6)] obtain c1 w1 r where
    run: "conn_loop (app_server d) quiet_env c w = Some (Inr (c1, w1))"
    and r: "tx c1 = tx c @ [r]" "statusCode r = 404"
    and c1: "connectionState c1 = STATE_WEBSOCKET" "clientState c1 = CSTATE_ACTIVE" "rx c1 = []"
      "wsHandler c1 = Some (next_handler w)" "wsFlags c1 = (False, False)"
    and w1: "w1 = snd (new_handler SSHHandler True w)" by metis
  have slots: "slots_ok (ssh_slots w)" using assms(7) by (simp add: registry_sound_def)
  have reg: "next_handler w \<in> set (registered (ssh_slots w1))"
    using reg.set_claim [OF slots, of "next_handler w"] assms(8)
    by (simp add: w1 new_handler_def ssh_create_def Let_def)
  have hp: "heap w1 (next_handler w) = Some SSHHandler"
    by (simp add: w1 new_handler_def ssh_create_def Let_def)
  let ?f = "client_frame key cmd" and ?e = "quiet_env\<lparr>upd := Rx_data (client_frame key cmd)\<rparr>"
  have len: "length ?f \<le> HTTPS_CONNECTION_DATA_CHUNK_SIZE" and ne: "?f \<noteq> []"
    using assms(9,10) by (simp_all add: client_frame_def HTTPS_CONNECTION_DATA_CHUNK_SIZE_def)
  have rd: "ws_read True (next_handler w) ?f (False, False) w1 =
      Inr (0, [], (False, False), ws_onMessage (next_handler w) cmd w1)"
    using ws_read_client_frame [OF assms(9,10), of True _ "[]"] by simp
  have "conn_loop (app_server d) ?e c1 w1 =
      Some (Inr (c1\<lparr>rx := [], wsFlags := (False, False)\<rparr>, w1\<lparr>ssh_command := cmd\<rparr>))"
    using c1 len ne hp assms(11)
    by (simp add: conn_loop_websocket_data state_websocket_def ws_loop_def rd ws_closed_def
        ws_onMessage_def Let_def)
  with run r reg show ?thesis by fastforce
qed

definition upgrade_headers :: headers where
  "upgrade_headers = [(''Host'', ''esp''), (''Upgrade'', ''websocket''), (''Connection'', ''Upgrade''),
     (''Sec-Websocket-Key'', ''key''), (''Sec-Websocket-Version'', ''13'')]"

lemma demo_upgrade: "checkWebsocket (demo_conn p upgrade_headers)"
proof -
  have norm: "normalizeHeaderName ''Host'' = ''Host''" "normalizeHeaderName ''Upgrade'' = ''Upgrade''"
    "normalizeHeaderName ''Connection'' = ''Connection''"
    "normalizeHeaderName ''Sec-WebSocket-Key'' = ''Sec-Websocket-Key''"
    "normalizeHeaderName ''Sec-WebSocket-Version'' = ''Sec-Websocket-Version''"
    by code_simp+
  have "contains ''Upgrade'' ''Upgrade''"
    unfolding contains_def list_ex_iff by (intro bexI [of _ 0]) auto
  then show ?thesis
    by (simp add: checkWebsocket_def demo_conn_def headers_value_def headers_get_def norm upgrade_headers_def)
qed

lemma demo_upgrade_body: "after_body (mk_request (demo_conn p upgrade_headers)) = Some []"
proof -
  have "normalizeHeaderName ''Content-Length'' = ''Content-Length''" by code_simp
  then show ?thesis
    by (simp add: after_body_def mk_request_def demo_conn_def headers_get_def upgrade_headers_def)
qed

lemma demo_upgrade_session:
  "session_password demo_kv_get demo_web (mk_request (demo_conn p upgrade_headers)) = []"
proof -
  have "normalizeHeaderName ''Cookie'' = ''Cookie''" by code_simp
  then show ?thesis
    by (simp add: session_password_def demo_conn_def mk_request_def req_getHeader_def headers_value_def
        headers_get_def demo_kv_get_def demo_web_def after_last_none upgrade_headers_def)
qed

lemma demo_sound: "registry_sound demo_web"
  by (simp add: registry_sound_def demo_web_def slots_ok_empty)

lemma unauthenticated_terminal_witness:
  "\<exists>c1 w1 c2 w2 r.
    conn_loop (app_server demo_device) quiet_env (demo_conn ''/ssh'' upgrade_headers) demo_web = Some (Inr (c1, w1)) \<and>
    tx c1 = tx (demo_conn ''/ssh'' upgrade_headers) @ [r] \<and> statusCode r = 404 \<and>
    next_handler demo_web \<in> set (registered (ssh_slots w1)) \<and>
    conn_loop (app_server demo_device) (quiet_env\<lparr>upd := Rx_data (client_frame ''abcd'' ''reboot'')\<rparr>) c1 w1 =
      Some (Inr (c2, w2)) \<and>
    ssh_command w2 = ''reboot''"
  by (rule unauthenticated_terminal)
    (simp_all add: demo_upgrade demo_upgrade_body demo_sound demo_device_def demo_upgrade_session,
     simp_all add: demo_conn_def demo_web_def MAX_CLIENTS_def)

text \<open>
  An upgrade request for a path without a websocket route reaches undefined behaviour:
  resolution falls back to the default node, which is a handler node, and the connection
  calls the factory of a websocket node on it. No session is needed.
\<close>

theorem upgrade_on_plain_path_confuses_types:
  assumes "connectionState c = STATE_HEADERS_FINISHED" and "clientState c \<noteq> CSTATE_CLOSED"
    and "checkWebsocket c" and "CHR ''?'' \<notin> set (httpResource c)"
    and "httpResource c \<noteq> ''/ssh''" and "httpResource c \<noteq> ''/websocketFan''"
    and "after_body (mk_request c) = Some rest"
  shows "conn_loop (app_server d) quiet_env c w = Some (Inl Type_confusion)"
proof -
  have none: "List.find (static_match m (httpResource c) WEBSOCKET) (app_nodes d) = None" for m
    using assms(5,6) by (simp add: app_nodes_def static_match_def node_admits_def)
  have "resolveNode (nodes (app_server d)) (defaultNode (app_server d)) (httpMethod c) (httpResource c)
      WEBSOCKET = Inr \<lparr>matchingNode = Some app_default, queryParams = [], pathParams = []\<rparr>"
    using resolveNode_static [OF app_nodes_static assms(4), of d app_default "httpMethod c" WEBSOCKET] none
    by (simp add: app_server_def)
  moreover have "mk_request (c\<lparr>isKeepAlive := k\<rparr>) = mk_request c" for k
    by (simp add: mk_request_def)
  ultimately show ?thesis
    using assms(1,2,3,7)
    by (simp add: conn_loop_headers state_headers_finished_def app_default_def Let_def split_beta)
qed

lemma upgrade_on_plain_path_confuses_types_witness:
  "conn_loop (app_server demo_device) quiet_env (demo_conn ''/terminal'' upgrade_headers) demo_web =
     Some (Inl Type_confusion)"
  by (rule upgrade_on_plain_path_confuses_types [OF _ _ demo_upgrade _ _ _ demo_upgrade_body])
    (simp_all add: demo_conn_def)

section \<open>When handlers are freed\<close>

definition owns_live :: "conn \<Rightarrow> 'db web \<Rightarrow> bool" where
  "owns_live c w \<longleftrightarrow> (\<forall>h. wsHandler c = Some h \<longrightarrow> heap w h \<noteq> None)"

lemma onClose_heap [simp]: "heap (ws_onClose took h w) = heap w"
  by (auto simp: ws_onClose_def split: option.split ws_class.split)

lemma onMessage_heap [simp]: "heap (ws_onMessage h m w) = heap w"
  by (auto simp: ws_onMessage_def split: option.split ws_class.split)

text \<open>
  A frame read keeps the world sound; it closes the handler only after a close frame, whose
  \<open>onClose\<close> has taken the handler out of the registries, or after a one-byte read.
\<close>

lemma ws_loop_sound:
  assumes "ws_loop True h buf (False, False) w = Inr (rest, flags, w')"
    and "registry_sound w" and "length buf \<noteq> 1"
  shows "registry_sound w'" "heap w' = heap w"
    and "ws_closed flags \<Longrightarrow> h \<notin> set (registered (ssh_slots w')) \<and> h \<notin> set (registered (fan_slots w'))"
proof -
  have "registry_sound w' \<and> heap w' = heap w \<and> (ws_closed flags \<longrightarrow>
      h \<notin> set (registered (ssh_slots w')) \<and> h \<notin> set (registered (fan_slots w')))"
    using assms onClose_sound [OF assms(2), of True h] onClose_unregisters [OF assms(2), of h]
      onMessage_sound [OF assms(2)]
    by (auto simp: ws_loop_def ws_read_def ws_closed_def Let_def
        split: list.splits sum.splits prod.splits if_splits)
  then show "registry_sound w'" "heap w' = heap w"
    "ws_closed flags \<Longrightarrow> h \<notin> set (registered (ssh_slots w')) \<and> h \<notin> set (registered (fan_slots w'))"
    by auto
qed

text \<open>
  C34: Orderly traffic keeps the registries sound. In the websocket state, as long as the
  mutexes are obtained and the read is not cut after one byte, a step of the connection
  (a message, a close frame, or the client gone) keeps every registered address a live
  handler of its class, and the connection's own handler live: what it deletes has been
  taken out of the registries before.
\<close>

theorem websocket_step_sound:
  assumes "state_websocket e c w = Inr (c', w')"
    and "registry_sound w" and "owns_live c w" and "wsFlags c = (False, False)"
    and "took_frame e" and "took_lost e" and "length (rx c) \<noteq> 1"
  shows "registry_sound w' \<and> owns_live c' w'"
proof -
  obtain h where h: "wsHandler c = Some h" and live: "heap w h \<noteq> None"
    using assms(1,3) by (cases "wsHandler c") (auto simp: state_websocket_def owns_live_def)
  obtain rest flags w1 where w1: "registry_sound w1" "heap w1 = heap w"
    and cl: "ws_closed flags \<Longrightarrow> h \<notin> set (registered (ssh_slots w1)) \<and> h \<notin> set (registered (fan_slots w1))"
    and eq: "(c', w') = (let w2 = (if clientState c = CSTATE_CLOSED then ws_onClose True h w1 else w1);
                c1 = c\<lparr>rx := rest, wsFlags := flags\<rparr>
            in if ws_closed flags \<or> clientState c = CSTATE_CLOSED
               then (c1\<lparr>wsHandler := None, connectionState := STATE_CLOSING\<rparr>, ws_delete h w2) else (c1, w2))"
  proof (cases "rx c = []")
    case True
    with assms h show ?thesis
      by (intro that [of w "(False, False)" "[]"]) (auto simp: state_websocket_def ws_closed_def Let_def split: if_splits)
  next
    case False
    with assms h obtain rest flags w1 where
      l: "ws_loop True h (rx c) (False, False) w = Inr (rest, flags, w1)"
      by (auto simp: state_websocket_def split: sum.splits prod.splits)
    note s = ws_loop_sound [OF l assms(2,7)]
    from False assms h l show ?thesis
      by (intro that [OF s]) (auto simp: state_websocket_def Let_def split: if_splits)
  qed
  show ?thesis
  proof (cases "clientState c = CSTATE_CLOSED")
    case True
    with eq w1 show ?thesis
      by (simp add: owns_live_def close_then_delete_sound Let_def)
  next
    case False
    with eq w1 cl h live show ?thesis
      by (cases "ws_closed flags") (auto simp: owns_live_def delete_sound_iff Let_def)
  qed
qed

definition demo_terminal :: "(string \<times> string) list web" where
  "demo_terminal = snd (new_handler SSHHandler True demo_web)"

definition demo_ws_conn :: "string \<Rightarrow> conn" where
  "demo_ws_conn buf = (demo_conn ''/ssh'' [])\<lparr>connectionState := STATE_WEBSOCKET, wsHandler := Some 0, rx := buf\<rparr>"

definition close_frame :: string where
  "close_frame = [char_byte 136, char_byte 0]"

lemma demo_terminal_sound: "registry_sound demo_terminal"
  by (simp add: demo_terminal_def new_handler_sound demo_sound)

lemma demo_terminal_heap: "heap demo_terminal = [0 \<mapsto> SSHHandler]"
  by (simp add: demo_terminal_def new_handler_def ssh_create_def demo_web_def Let_def)

lemma websocket_step_sound_witness:
  "\<exists>c' w'. state_websocket quiet_env (demo_ws_conn close_frame) demo_terminal = Inr (c', w') \<and>
     registry_sound w' \<and> owns_live c' w' \<and> wsHandler c' = None"
proof -
  have run: "state_websocket quiet_env (demo_ws_conn close_frame) demo_terminal =
     Inr ((demo_ws_conn [])\<lparr>wsFlags := (True, True), wsHandler := None, connectionState := STATE_CLOSING\<rparr>,
          ws_delete 0 (ws_onClose True 0 demo_terminal))"
    by (simp add: state_websocket_def demo_ws_conn_def demo_conn_def close_frame_def ws_loop_def ws_read_def
        parse_frame_def payload_len_def read_mask_def opcode_defs ws_closed_def Let_def)
  show ?thesis
    using run websocket_step_sound [OF run demo_terminal_sound]
    by (auto simp: owns_live_def demo_ws_conn_def demo_conn_def demo_terminal_heap close_frame_def)
qed

text \<open>
  A connection that ends in disorder leaves a dangling registration. When the socket read
  fails, or a frame is cut after its first byte, the connection deletes its handler without
  calling \<open>onClose\<close>: the address stays in \<open>activeClients\<close>, and the next broadcast calls
  \<open>send\<close> on the freed object.
\<close>

theorem abrupt_close_dangles:
  assumes "connectionState c = STATE_WEBSOCKET" and "clientState c = CSTATE_ACTIVE"
    and "wsHandler c = Some h" and "wsFlags c = (False, False)"
    and "h \<in> set (registered (ssh_slots w))"
    and "length (rx c) < HTTPS_CONNECTION_DATA_CHUNK_SIZE" and "\<not> timed_out e"
    and "upd e = Rx_error \<or> upd e = Rx_none \<and> length (rx c) = 1"
  shows "\<exists>c' w'. conn_loop sv e c w = Some (Inr (c', w')) \<and> heap w' h = None \<and>
    (h, msg) \<in> set (broadcast True (ssh_slots w') msg)"
proof -
  have mem: "(h, msg) \<in> set (broadcast True (ssh_slots w) msg)"
    using assms(5) by (simp add: broadcast_def)
  consider (err) "upd e = Rx_error" | (cut) b where "upd e = Rx_none" "rx c = [b]"
    using assms(8) by (auto simp: length_Suc_conv)
  then show ?thesis
  proof cases
    case err
    with assms mem show ?thesis
      by (simp add: conn_loop_def updateBuffer_def closeConnection_def http_closeConnection_def
          isClosed_def isError_def ws_delete_def Let_def)
  next
    case cut
    with assms mem show ?thesis
      by (simp add: conn_loop_def updateBuffer_def isClosed_def isError_def state_websocket_def
          ws_loop_def ws_read_def ws_closed_def ws_delete_def HTTPS_CONNECTION_DATA_CHUNK_SIZE_def Let_def)
  qed
qed

lemma abrupt_close_dangles_witness:
  "\<exists>c' w'. conn_loop (app_server demo_device) (quiet_env\<lparr>upd := Rx_error\<rparr>) (demo_ws_conn []) demo_terminal =
      Some (Inr (c', w')) \<and> heap w' 0 = None \<and> (0, ''out'') \<in> set (broadcast True (ssh_slots w') ''out'')"
proof (rule abrupt_close_dangles)
  have "set (registered (claim_slot 0 empty_slots)) = {0}"
    using reg.set_claim [OF slots_ok_empty, of 0] by (simp add: MAX_CLIENTS_def)
  then show "0 \<in> set (registered (ssh_slots demo_terminal))"
    by (simp add: demo_terminal_def new_handler_def ssh_create_def demo_web_def Let_def)
qed (simp_all add: demo_ws_conn_def demo_conn_def HTTPS_CONNECTION_DATA_CHUNK_SIZE_def quiet_env_def)

section \<open>Reading lines\<close>

text \<open>
  A header line is read exactly: from any split of a line that fits the limit, the reader
  returns the text before the first CR LF, appended to what it had, and leaves every byte
  after the LF unread.
\<close>

theorem read_line_finished:
  assumes "CHR 0x0D \<notin> set line" and "length acc + length line \<le> limit"
  shows "read_line limit (line @ [CHR 0x0D, CHR 0x0A] @ rest) acc = Some (Line_finished (acc @ line) rest)"
  using assms
proof (induction line arbitrary: acc)
  case Nil
  show ?case by (subst read_line.simps) simp
next
  case (Cons c line)
  then show ?case by (subst read_line.simps) auto
qed

lemma read_line_finished_witness:
  "read_line 128 (''GET / HTTP/1.1'' @ [CHR 0x0D, CHR 0x0A] @ ''Host: x'') [] =
     Some (Line_finished ([] @ ''GET / HTTP/1.1'') ''Host: x'')"
  by (rule read_line_finished) simp_all

text \<open>
  Input that stops between CR and LF hangs the server. When the bytes received so far end
  in a carriage return, \<open>readLine\<close> never returns: its comment says it waits for the next
  round, but the loop neither consumes the byte nor leaves.
\<close>

theorem read_line_hangs:
  assumes "CHR 0x0D \<notin> set line" and "length acc + length line \<le> limit"
  shows "read_line limit (line @ [CHR 0x0D]) acc = None"
proof (rule ccontr)
  assume "read_line limit (line @ [CHR 0x0D]) acc \<noteq> None"
  then obtain out where out: "read_line limit (line @ [CHR 0x0D]) acc = Some out" by blast
  have "\<not> (\<exists>l. line @ [CHR 0x0D] = l @ [CHR 0x0D] \<and> CHR 0x0D \<notin> set l \<and> length acc + length l \<le> limit)"
  proof (rule read_line.raw_induct [where P = "\<lambda>n buf t out.
      \<not> (\<exists>l. buf = l @ [CHR 0x0D] \<and> CHR 0x0D \<notin> set l \<and> length t + length l \<le> n)", OF _ out])
    fix f n buf t out
    assume IH: "\<And>n buf t out. f n buf t = Some out \<Longrightarrow>
        \<not> (\<exists>l. buf = l @ [CHR 0x0D] \<and> CHR 0x0D \<notin> set l \<and> length t + length l \<le> n)"
      and eq: "(case buf of [] \<Rightarrow> Some (Line_more t)
         | c # cs \<Rightarrow>
             if c = CHR 0x0D then
               case cs of [] \<Rightarrow> if n < length t then Some (Line_long t buf) else f n buf t
               | d # ds \<Rightarrow> if d = CHR 0x0A then Some (Line_finished t ds) else Some (Line_bad t buf)
             else if n < length (t @ [c]) then Some (Line_long (t @ [c]) cs) else f n cs (t @ [c])) = Some out"
    show "\<not> (\<exists>l. buf = l @ [CHR 0x0D] \<and> CHR 0x0D \<notin> set l \<and> length t + length l \<le> n)"
    proof
      assume "\<exists>l. buf = l @ [CHR 0x0D] \<and> CHR 0x0D \<notin> set l \<and> length t + length l \<le> n"
      then obtain l where l: "buf = l @ [CHR 0x0D]" "CHR 0x0D \<notin> set l" "length t + length l \<le> n" by blast
      show False
      proof (cases l)
        case Nil
        with l eq have "f n buf t = Some out" by simp
        with IH [of n buf t out] l show False by blast
      next
        case (Cons c cs)
        with l eq have "f n (cs @ [CHR 0x0D]) (t @ [c]) = Some out" by auto
        with IH [of n "cs @ [CHR 0x0D]" "t @ [c]" out] l Cons show False by auto
      qed
    qed
  qed
  with assms show False by blast
qed

lemma read_line_hangs_witness: "read_line 128 (''GET / HTTP/1.1'' @ [CHR 0x0D]) [] = None"
  by (rule read_line_hangs) simp_all

end
