(* ===== verification/Wifi.thy ===== *)
theory Wifi
  imports Prelude
begin

text \<open>
  Network bring-up (\<open>src/ssh_functions.cpp\<close>): \<open>wait_for_wifi_exec\<close>, a loop over the device
  state run by the control task, and \<open>event_cb\<close>, called by the system's event task, which
  writes the same variables. Ticks are 1 ms (\<open>CONFIG_FREERTOS_HZ\<close> is 1000) and 32 bits wide.
  The step relation interleaves iterations of the loop with events.
\<close>

datatype devState =
    STATE_NEW | STATE_PHY_CONNECTED | STATE_WAIT_IPADDR | STATE_GOT_IPADDR
  | STATE_OTA_UPDATING | STATE_OTA_COMPLETE | STATE_LISTENING | STATE_TCP_DISCONNECTED

text \<open>The enumeration's order: \<open>event_cb\<close> compares states with \<open><\<close>.\<close>

fun dev_rank :: "devState \<Rightarrow> nat" where
  "dev_rank STATE_NEW = 0"
| "dev_rank STATE_PHY_CONNECTED = 1"
| "dev_rank STATE_WAIT_IPADDR = 2"
| "dev_rank STATE_GOT_IPADDR = 3"
| "dev_rank STATE_OTA_UPDATING = 4"
| "dev_rank STATE_OTA_COMPLETE = 5"
| "dev_rank STATE_LISTENING = 6"
| "dev_rank STATE_TCP_DISCONNECTED = 7"

lemma dev_rank_inj: "dev_rank a = dev_rank b \<Longrightarrow> a = b"
  by (cases a; cases b) simp_all

instantiation devState :: linorder
begin

definition less_eq_devState :: "devState \<Rightarrow> devState \<Rightarrow> bool" where
  "less_eq_devState a b \<longleftrightarrow> dev_rank a \<le> dev_rank b"

definition less_devState :: "devState \<Rightarrow> devState \<Rightarrow> bool" where
  "less_devState a b \<longleftrightarrow> dev_rank a < dev_rank b"

instance
  by standard (auto simp: less_eq_devState_def less_devState_def intro: dev_rank_inj)

end

definition WIFI_TIMEOUT_S :: nat where "WIFI_TIMEOUT_S = 40"

text \<open>
  \<open>runs\<close> counts the calls of \<open>exec_func\<close>; \<open>parked\<close> is the endless delay loop after it
  returns; \<open>seen_connected\<close> is a history variable: a connect event has occurred.
\<close>

record wifi =
  devState :: devState
  gotIpAddr :: bool
  gotIp6Addr :: bool
  wifiPhyConnected :: bool
  xStartTime :: u32
  runs :: nat
  parked :: bool
  seen_connected :: bool

section \<open>The loop\<close>

text \<open>One iteration of the \<open>while (1)\<close>, at tick count \<open>now\<close>.\<close>

definition wait_iter :: "u32 \<Rightarrow> wifi \<Rightarrow> wifi" where
  "wait_iter now s =
     (if parked s then s
      else case devState s of
        STATE_NEW \<Rightarrow> s
      | STATE_PHY_CONNECTED \<Rightarrow> s\<lparr>devState := STATE_WAIT_IPADDR, xStartTime := now\<rparr>
      | STATE_WAIT_IPADDR \<Rightarrow>
          (let s1 = s\<lparr>devState := STATE_GOT_IPADDR\<rparr> in
           if gotIp6Addr s1 then s1\<lparr>devState := STATE_GOT_IPADDR\<rparr>
           else if xStartTime s1 + of_nat (WIFI_TIMEOUT_S * 1000) \<le> now then
             (if gotIpAddr s1 \<or> gotIp6Addr s1 then s1\<lparr>devState := STATE_GOT_IPADDR\<rparr>
              else s1\<lparr>devState := STATE_NEW\<rparr>)
           else s1)
      | STATE_GOT_IPADDR \<Rightarrow> s\<lparr>devState := STATE_OTA_UPDATING\<rparr>
      | STATE_OTA_UPDATING \<Rightarrow> s\<lparr>devState := STATE_OTA_COMPLETE\<rparr>
      | STATE_OTA_COMPLETE \<Rightarrow> s\<lparr>runs := Suc (runs s), parked := True\<rparr>
      | STATE_LISTENING \<Rightarrow> s\<lparr>devState := STATE_TCP_DISCONNECTED\<rparr>
      | STATE_TCP_DISCONNECTED \<Rightarrow> s\<lparr>devState := STATE_LISTENING\<rparr>)"

text \<open>What \<open>wait_for_wifi_exec\<close> assigns before the loop.\<close>

definition wait_start :: "u32 \<Rightarrow> wifi \<Rightarrow> wifi" where
  "wait_start now s =
     s\<lparr>wifiPhyConnected := False, gotIpAddr := False, gotIp6Addr := False, xStartTime := now\<rparr>"

section \<open>Events\<close>

text \<open>\<open>Got_ip6 global\<close>: whether the first part of the address differs from \<open>FE80\<close>.\<close>

datatype wifi_event = Sta_start | Sta_connected | Sta_disconnected | Got_ip6 bool | Sta_got_ip | Sta_lost_ip | Other_event

fun event_cb :: "wifi_event \<Rightarrow> wifi \<Rightarrow> wifi" where
  "event_cb Sta_start s = s"
| "event_cb Sta_connected s =
     (let s1 = s\<lparr>wifiPhyConnected := True, seen_connected := True\<rparr> in
      if devState s1 < STATE_PHY_CONNECTED then s1\<lparr>devState := STATE_PHY_CONNECTED\<rparr> else s1)"
| "event_cb Sta_disconnected s =
     (let s1 = (if devState s < STATE_WAIT_IPADDR then s\<lparr>devState := STATE_NEW\<rparr> else s) in
      if wifiPhyConnected s1 then s1\<lparr>wifiPhyConnected := False\<rparr> else s1)"
| "event_cb (Got_ip6 global) s = (if global \<and> \<not> gotIp6Addr s then s\<lparr>gotIp6Addr := True\<rparr> else s)"
| "event_cb Sta_got_ip s = s\<lparr>gotIpAddr := True\<rparr>"
| "event_cb Sta_lost_ip s = s"
| "event_cb Other_event s = s"

section \<open>The two tasks\<close>

definition wifi_boot :: "wifi \<Rightarrow> bool" where
  "wifi_boot s \<longleftrightarrow> devState s = STATE_NEW \<and> runs s = 0 \<and> \<not> parked s \<and> \<not> seen_connected s"

inductive wifi_step :: "wifi \<Rightarrow> wifi \<Rightarrow> bool" where
  ctl_task: "wifi_step s (wait_iter now s)"
| event_task: "wifi_step s (event_cb ev s)"

inductive_cases wifi_stepE: "wifi_step s t"

text \<open>
  The invariant: before any connect event the device stays in \<open>STATE_NEW\<close>, and
  \<open>exec_func\<close> has run at most once, exactly when the task is parked.
\<close>

definition wifi_inv :: "wifi \<Rightarrow> bool" where
  "wifi_inv s \<longleftrightarrow>
     (\<not> seen_connected s \<longrightarrow> devState s = STATE_NEW \<and> \<not> parked s) \<and>
     runs s = (if parked s then 1 else 0) \<and>
     devState s \<le> STATE_OTA_COMPLETE"

lemmas order_defs = less_eq_devState_def less_devState_def

lemma wait_iter_inv: "wifi_inv s \<Longrightarrow> wifi_inv (wait_iter now s)"
  by (cases "devState s") (auto simp: wifi_inv_def wait_iter_def order_defs Let_def split: if_splits)

lemma event_cb_inv: "wifi_inv s \<Longrightarrow> wifi_inv (event_cb ev s)"
  by (cases "(ev, s)" rule: event_cb.cases)
    (auto simp: wifi_inv_def order_defs Let_def split: if_splits)

interpretation wifi: step_system wifi_boot wifi_step wifi_inv
proof unfold_locales
  fix s assume "wifi_boot s"
  then show "wifi_inv s" by (simp add: wifi_boot_def wifi_inv_def order_defs)
next
  fix s t assume "wifi_step s t" and "wifi_inv s"
  then show "wifi_inv t" by (auto elim!: wifi_stepE intro: wait_iter_inv event_cb_inv)
qed

lemma reach_ctl: "reach wifi_boot wifi_step s \<Longrightarrow> reach wifi_boot wifi_step (wait_iter now s)"
  by (rule reach_step) (auto intro: ctl_task)

lemma reach_event: "reach wifi_boot wifi_step s \<Longrightarrow> reach wifi_boot wifi_step (event_cb ev s)"
  by (rule reach_step) (auto intro: event_task)

section \<open>Properties\<close>

text \<open>
  The program behind the network starts at most once, and only after the station has
  reported a connection, however the loop and the events interleave.
\<close>

theorem exec_once_after_connect:
  assumes "reach wifi_boot wifi_step s"
  shows "runs s \<le> 1 \<and> (runs s = 1 \<longrightarrow> seen_connected s \<and> parked s)"
  using wifi.reach_inv [OF assms] by (auto simp: wifi_inv_def split: if_splits)

definition boot_state :: wifi where
  "boot_state = \<lparr>devState = STATE_NEW, gotIpAddr = False, gotIp6Addr = False, wifiPhyConnected = False,
     xStartTime = 0, runs = 0, parked = False, seen_connected = False\<rparr>"

definition demo_run :: wifi where
  "demo_run = (wait_iter 5 (wait_iter 4 (wait_iter 3 (wait_iter 2 (wait_iter 1
     (event_cb Sta_connected boot_state))))))"

lemma exec_once_after_connect_witness:
  "runs demo_run = 1 \<and> runs demo_run \<le> 1 \<and> seen_connected demo_run \<and> parked demo_run"
proof -
  have "reach wifi_boot wifi_step demo_run"
    unfolding demo_run_def
    by (intro reach_ctl reach_event reach_start)
      (simp add: wifi_boot_def boot_state_def)
  from exec_once_after_connect [OF this] show ?thesis
    by (simp add: demo_run_def wait_iter_def boot_state_def order_defs WIFI_TIMEOUT_S_def)
qed

text \<open>
  The wait for an address is skipped. From \<open>STATE_WAIT_IPADDR\<close>, in the first 40 seconds,
  one iteration goes to \<open>STATE_GOT_IPADDR\<close> whether or not any address has been assigned:
  the state is set before the addresses are looked at.
\<close>

theorem address_wait_skipped:
  assumes "\<not> parked s" and "devState s = STATE_WAIT_IPADDR"
    and "now < xStartTime s + of_nat (WIFI_TIMEOUT_S * 1000)"
  shows "devState (wait_iter now (s\<lparr>gotIpAddr := False, gotIp6Addr := False\<rparr>)) = STATE_GOT_IPADDR"
  using assms by (simp add: wait_iter_def Let_def not_le)

lemma address_wait_skipped_witness:
  "devState (wait_iter 1 ((boot_state\<lparr>devState := STATE_WAIT_IPADDR\<rparr>)\<lparr>gotIpAddr := False, gotIp6Addr := False\<rparr>))
     = STATE_GOT_IPADDR"
  by (rule address_wait_skipped) (simp_all add: boot_state_def WIFI_TIMEOUT_S_def)

end
