(* ===== verification/Ssh_Console.thy ===== *)
theory Ssh_Console
  imports Prelude
begin

text \<open>
  Password login to an SSH server (\<open>src/ssh_functions.cpp\<close>): \<open>authenticate_console\<close> and
  \<open>connect_ssh\<close>. The replies of the library and the server are the inputs: a record of return
  codes, the password reply as a function of the attempt and of the password sent.

  The password is a C string in a heap block that holds it and its terminator; after an
  attempt that neither succeeds nor fails hard the code clears \<open>sizeof(password)\<close> bytes of
  it, the size of a pointer: four bytes on this processor. Clearing past the block is a fault.
\<close>

datatype mem_fault = Heap_overflow | Use_of_uninitialised | Use_after_free | Out_of_bounds

abbreviation (input) SSH_AUTH_SUCCESS :: int where "SSH_AUTH_SUCCESS \<equiv> 0"
abbreviation (input) SSH_AUTH_DENIED :: int where "SSH_AUTH_DENIED \<equiv> 1"
abbreviation (input) SSH_AUTH_PARTIAL :: int where "SSH_AUTH_PARTIAL \<equiv> 2"
abbreviation (input) SSH_AUTH_ERROR :: int where "SSH_AUTH_ERROR \<equiv> -1"

record auth_server =
  none_rc :: int
  offers_gssapi :: bool
  offers_password :: bool
  gssapi_rc :: "nat \<Rightarrow> int"
  password_rc :: "nat \<Rightarrow> string \<Rightarrow> int"

text \<open>The heap block of a password: its characters and the terminator.\<close>

definition password_block :: "string \<Rightarrow> string" where
  "password_block pw = c_str pw @ [CHR 0x00]"

definition wipe_pointer_size :: "string \<Rightarrow> mem_fault + string" where
  "wipe_pointer_size buf =
     (if length buf < 4 then Inl Heap_overflow else Inr (replicate 4 (CHR 0x00) @ drop 4 buf))"

section \<open>authenticate_console\<close>

text \<open>The loop \<open>while (rc != SSH_AUTH_SUCCESS)\<close>; \<open>k\<close> counts its iterations.\<close>

partial_function (option) auth_loop ::
  "auth_server \<Rightarrow> nat \<Rightarrow> int \<Rightarrow> string \<Rightarrow> (mem_fault + int \<times> string) option" where
  "auth_loop sv k rc buf =
     (if rc = SSH_AUTH_SUCCESS then Some (Inr (rc, buf))
      else
        let rc1 = (if offers_gssapi sv then gssapi_rc sv k else rc) in
        if offers_gssapi sv \<and> (rc1 = SSH_AUTH_ERROR \<or> rc1 = SSH_AUTH_SUCCESS) then Some (Inr (rc1, buf))
        else
          let rc2 = (if offers_password sv then password_rc sv k (c_str buf) else rc1) in
          if offers_password sv \<and> (rc2 = SSH_AUTH_ERROR \<or> rc2 = SSH_AUTH_SUCCESS) then Some (Inr (rc2, buf))
          else (case wipe_pointer_size buf of
                  Inl e \<Rightarrow> Some (Inl e)
                | Inr buf' \<Rightarrow> auth_loop sv (Suc k) rc2 buf'))"

definition authenticate_console ::
  "auth_server \<Rightarrow> string \<Rightarrow> (mem_fault + int \<times> string) option" where
  "authenticate_console sv buf =
     (if none_rc sv = SSH_AUTH_ERROR then Some (Inr (none_rc sv, buf))
      else auth_loop sv 0 (none_rc sv) buf)"

section \<open>connect_ssh\<close>

record ssh_env =
  new_ok :: bool
  set_user_rc :: int
  set_host_rc :: int
  connect_rc :: int
  server :: auth_server

text \<open>
  The sessions of the library that exist, by handle; \<open>next_handle\<close> is the next one. The result
  is the session or null, with the library's state and the password block afterwards.
\<close>

record lib =
  next_handle :: nat
  live_sessions :: "nat set"
  live_channels :: "nat set"

definition ssh_new :: "lib \<Rightarrow> nat \<times> lib" where
  "ssh_new l = (next_handle l,
     l\<lparr>next_handle := Suc (next_handle l), live_sessions := insert (next_handle l) (live_sessions l)\<rparr>)"

definition ssh_free :: "nat \<Rightarrow> lib \<Rightarrow> lib" where
  "ssh_free s l = l\<lparr>live_sessions := live_sessions l - {s}\<rparr>"

definition connect_ssh ::
  "ssh_env \<Rightarrow> string \<Rightarrow> lib \<Rightarrow> (mem_fault + nat ptr \<times> string \<times> lib) option" where
  "connect_ssh e buf l =
     (if \<not> new_ok e then Some (Inr (Null, buf, l))
      else
        let (s, l1) = ssh_new l in
        if set_user_rc e < 0 then Some (Inr (Null, buf, ssh_free s l1))
        else if set_host_rc e < 0 then Some (Inr (Null, buf, ssh_free s l1))
        else if connect_rc e \<noteq> 0 then Some (Inr (Null, buf, ssh_free s l1))
        else (case authenticate_console (server e) buf of
                None \<Rightarrow> None
              | Some (Inl f) \<Rightarrow> Some (Inl f)
              | Some (Inr (auth, buf')) \<Rightarrow>
                  (if auth = SSH_AUTH_SUCCESS then Some (Inr (Ptr s, buf', l1))
                   else Some (Inr (Null, buf', ssh_free s l1)))))"

section \<open>Facts\<close>

lemma wipe_wiped: "wipe_pointer_size buf = Inr buf' \<Longrightarrow> c_str buf' = [] \<and> length buf' = length buf"
  by (auto simp: wipe_pointer_size_def c_str_def split: if_splits)

lemma wipe_wiped_again: "4 \<le> length buf \<Longrightarrow> \<exists>buf'. wipe_pointer_size buf = Inr buf'"
  by (auto simp: wipe_pointer_size_def)

text \<open>The loop ends with success or with an error, never with a denial.\<close>

lemma auth_loop_result:
  assumes ret: "auth_loop sv k rc buf = Some out"
  shows "\<forall>r b. out = Inr (r, b) \<longrightarrow> r = SSH_AUTH_SUCCESS \<or> r = SSH_AUTH_ERROR"
proof (rule auth_loop.raw_induct [where P = "\<lambda>sv k rc buf out.
    \<forall>r b. out = Inr (r, b) \<longrightarrow> r = SSH_AUTH_SUCCESS \<or> r = SSH_AUTH_ERROR", OF _ ret])
  fix f sv k rc buf out
  assume "\<And>sv k rc buf out. f sv k rc buf = Some out \<Longrightarrow>
      \<forall>r b. out = Inr (r, b) \<longrightarrow> r = SSH_AUTH_SUCCESS \<or> r = SSH_AUTH_ERROR"
    and "(if rc = SSH_AUTH_SUCCESS then Some (Inr (rc, buf))
      else
        let rc1 = (if offers_gssapi sv then gssapi_rc sv k else rc) in
        if offers_gssapi sv \<and> (rc1 = SSH_AUTH_ERROR \<or> rc1 = SSH_AUTH_SUCCESS) then Some (Inr (rc1, buf))
        else
          let rc2 = (if offers_password sv then password_rc sv k (c_str buf) else rc1) in
          if offers_password sv \<and> (rc2 = SSH_AUTH_ERROR \<or> rc2 = SSH_AUTH_SUCCESS) then Some (Inr (rc2, buf))
          else (case wipe_pointer_size buf of
                  Inl e \<Rightarrow> Some (Inl e)
                | Inr buf' \<Rightarrow> f sv (Suc k) rc2 buf')) = Some out"
  then show "\<forall>r b. out = Inr (r, b) \<longrightarrow> r = SSH_AUTH_SUCCESS \<or> r = SSH_AUTH_ERROR"
    by (auto simp: Let_def split: if_splits sum.splits)
qed

lemma auth_loop_fault:
  assumes ret: "auth_loop sv k rc buf = Some (Inl f)"
  shows "f = Heap_overflow"
proof -
  have "\<forall>g. Inl f = (Inl g :: mem_fault + int \<times> string) \<longrightarrow> g = Heap_overflow"
  proof (rule auth_loop.raw_induct [where P = "\<lambda>sv k rc buf out. \<forall>g. out = Inl g \<longrightarrow> g = Heap_overflow", OF _ ret])
    fix h sv k rc buf out
    assume "\<And>sv k rc buf out. h sv k rc buf = Some out \<Longrightarrow> \<forall>g. out = Inl g \<longrightarrow> g = Heap_overflow"
      and "(if rc = SSH_AUTH_SUCCESS then Some (Inr (rc, buf))
      else
        let rc1 = (if offers_gssapi sv then gssapi_rc sv k else rc) in
        if offers_gssapi sv \<and> (rc1 = SSH_AUTH_ERROR \<or> rc1 = SSH_AUTH_SUCCESS) then Some (Inr (rc1, buf))
        else
          let rc2 = (if offers_password sv then password_rc sv k (c_str buf) else rc1) in
          if offers_password sv \<and> (rc2 = SSH_AUTH_ERROR \<or> rc2 = SSH_AUTH_SUCCESS) then Some (Inr (rc2, buf))
          else (case wipe_pointer_size buf of
                  Inl e \<Rightarrow> Some (Inl e)
                | Inr buf' \<Rightarrow> h sv (Suc k) rc2 buf')) = Some out"
    then show "\<forall>g. out = Inl g \<longrightarrow> g = Heap_overflow"
      by (auto simp: Let_def wipe_pointer_size_def split: if_splits sum.splits)
  qed
  then show ?thesis by simp
qed

text \<open>
  A login ends in success or in an error. When \<open>authenticate_console\<close> returns, its code
  is \<open>SSH_AUTH_SUCCESS\<close> or \<open>SSH_AUTH_ERROR\<close>; a denied password never ends it, so the branch of
  \<open>connect_ssh\<close> for \<open>SSH_AUTH_DENIED\<close> is never taken, and \<open>connect_ssh\<close> leaves a live session
  exactly when it returns one.
\<close>

theorem connect_ssh_outcome:
  assumes ret: "connect_ssh e buf l = Some (Inr (s, buf', l'))"
    and fresh: "next_handle l \<notin> live_sessions l"
    and auth: "authenticate_console (server e) buf = Some (Inr (rc, buf0))"
  shows "rc \<noteq> SSH_AUTH_DENIED \<and>
    (s = Null \<and> live_sessions l' = live_sessions l \<or>
     s = Ptr (next_handle l) \<and> live_sessions l' = insert (next_handle l) (live_sessions l) \<and>
     rc = SSH_AUTH_SUCCESS)"
proof -
  have "rc = SSH_AUTH_SUCCESS \<or> rc = SSH_AUTH_ERROR"
    using auth auth_loop_result [of "server e" 0 "none_rc (server e)" buf "Inr (rc, buf0)"]
    by (auto simp: authenticate_console_def split: if_splits)
  with ret fresh auth show ?thesis
    by (auto simp: connect_ssh_def ssh_new_def ssh_free_def Let_def split: if_splits)
qed

text \<open>A server that answers a password \<open>n\<close> times with a denial and then hard.\<close>

definition demo_server :: "nat \<Rightarrow> int \<Rightarrow> auth_server" where
  "demo_server n final = \<lparr>none_rc = SSH_AUTH_DENIED, offers_gssapi = False, offers_password = True,
     gssapi_rc = (\<lambda>_. SSH_AUTH_DENIED),
     password_rc = (\<lambda>k pw. if k < n then SSH_AUTH_DENIED else final)\<rparr>"

definition demo_env :: "nat \<Rightarrow> int \<Rightarrow> ssh_env" where
  "demo_env n final = \<lparr>new_ok = True, set_user_rc = 0, set_host_rc = 0, connect_rc = 0,
     server = demo_server n final\<rparr>"

definition demo_lib :: lib where
  "demo_lib = \<lparr>next_handle = 1, live_sessions = {}, live_channels = {}\<rparr>"

lemma connect_ssh_outcome_witness:
  "\<exists>s buf' l'. connect_ssh (demo_env 0 SSH_AUTH_SUCCESS) (password_block ''secret'') demo_lib = Some (Inr (s, buf', l')) \<and>
     (0::int) \<noteq> SSH_AUTH_DENIED \<and>
     (s = Null \<and> live_sessions l' = live_sessions demo_lib \<or>
      s = Ptr (next_handle demo_lib) \<and>
      live_sessions l' = insert (next_handle demo_lib) (live_sessions demo_lib) \<and> (0::int) = SSH_AUTH_SUCCESS)"
proof -
  let ?b = "password_block ''secret''"
  have auth: "authenticate_console (server (demo_env 0 SSH_AUTH_SUCCESS)) ?b = Some (Inr (0, ?b))"
    unfolding authenticate_console_def by (subst auth_loop.simps) (simp add: demo_env_def demo_server_def)
  have run: "connect_ssh (demo_env 0 SSH_AUTH_SUCCESS) ?b demo_lib =
      Some (Inr (Ptr 1, ?b, snd (ssh_new demo_lib)))"
    using auth by (simp add: connect_ssh_def demo_env_def demo_lib_def ssh_new_def)
  show ?thesis
    using run connect_ssh_outcome [OF run _ auth] by (simp add: demo_lib_def)
qed

text \<open>
  A denied password is destroyed. With password login only, when the server denies the
  first attempt and answers the second one hard, the second attempt is made with the empty
  password, its answer is the result, and the stored password is empty from then on, for
  every later connection too.
\<close>

theorem denied_password_wiped:
  assumes "none_rc sv = SSH_AUTH_DENIED" and "offers_password sv" and "\<not> offers_gssapi sv"
    and "password_rc sv 0 pw = SSH_AUTH_DENIED"
    and "password_rc sv 1 [] = SSH_AUTH_ERROR \<or> password_rc sv 1 [] = SSH_AUTH_SUCCESS"
    and "3 \<le> length pw" and "CHR 0x00 \<notin> set pw"
  shows "\<exists>buf'. authenticate_console sv (password_block pw) = Some (Inr (password_rc sv 1 [], buf')) \<and>
    c_str buf' = []"
proof -
  have "password_block pw = pw @ [CHR 0x00]"
    using assms(7) by (simp add: password_block_def)
  then have block: "c_str (password_block pw) = pw" "4 \<le> length (password_block pw)"
    using assms(6,7) by (auto simp: c_str_def takeWhile_append)
  then obtain buf' where w: "wipe_pointer_size (password_block pw) = Inr buf'"
    using wipe_wiped_again by blast
  have first: "auth_loop sv 0 SSH_AUTH_DENIED (password_block pw) = auth_loop sv 1 SSH_AUTH_DENIED buf'"
    using assms(2,3,4) block w by (subst auth_loop.simps) simp
  have "auth_loop sv 1 SSH_AUTH_DENIED buf' = Some (Inr (password_rc sv 1 [], buf'))"
    using assms(2,3,5) wipe_wiped [OF w] by (subst auth_loop.simps) auto
  with first assms(1) wipe_wiped [OF w] show ?thesis
    by (simp add: authenticate_console_def)
qed

lemma denied_password_wiped_witness:
  "\<exists>buf'. authenticate_console (demo_server 1 SSH_AUTH_ERROR) (password_block ''secret'') =
      Some (Inr (password_rc (demo_server 1 SSH_AUTH_ERROR) 1 [], buf')) \<and> c_str buf' = []"
  by (rule denied_password_wiped) (simp_all add: demo_server_def)

text \<open>
  A server that offers no password login is never given up. When neither method is
  offered and the first request is denied, \<open>authenticate_console\<close> does not return: the loop
  tests the same code again and again.
\<close>

theorem no_method_never_returns:
  assumes "none_rc sv = SSH_AUTH_DENIED" and "\<not> offers_password sv" and "\<not> offers_gssapi sv"
    and "3 \<le> length pw" and "CHR 0x00 \<notin> set pw"
  shows "authenticate_console sv (password_block pw) = None"
proof (rule ccontr)
  assume "authenticate_console sv (password_block pw) \<noteq> None"
  then obtain out where ret: "auth_loop sv 0 SSH_AUTH_DENIED (password_block pw) = Some out"
    using assms(1) by (auto simp: authenticate_console_def)
  have "\<not> (\<not> offers_password sv \<and> \<not> offers_gssapi sv \<and> (1::int) = SSH_AUTH_DENIED \<and> 4 \<le> length (password_block pw))"
  proof (rule auth_loop.raw_induct [where P = "\<lambda>sv k rc buf out.
      \<not> (\<not> offers_password sv \<and> \<not> offers_gssapi sv \<and> rc = SSH_AUTH_DENIED \<and> 4 \<le> length buf)", OF _ ret])
    fix f sv k rc buf out
    assume IH: "\<And>sv k rc buf out. f sv k rc buf = Some out \<Longrightarrow>
        \<not> (\<not> offers_password sv \<and> \<not> offers_gssapi sv \<and> rc = SSH_AUTH_DENIED \<and> 4 \<le> length buf)"
      and eq: "(if rc = SSH_AUTH_SUCCESS then Some (Inr (rc, buf))
      else
        let rc1 = (if offers_gssapi sv then gssapi_rc sv k else rc) in
        if offers_gssapi sv \<and> (rc1 = SSH_AUTH_ERROR \<or> rc1 = SSH_AUTH_SUCCESS) then Some (Inr (rc1, buf))
        else
          let rc2 = (if offers_password sv then password_rc sv k (c_str buf) else rc1) in
          if offers_password sv \<and> (rc2 = SSH_AUTH_ERROR \<or> rc2 = SSH_AUTH_SUCCESS) then Some (Inr (rc2, buf))
          else (case wipe_pointer_size buf of
                  Inl e \<Rightarrow> Some (Inl e)
                | Inr buf' \<Rightarrow> f sv (Suc k) rc2 buf')) = Some out"
    show "\<not> (\<not> offers_password sv \<and> \<not> offers_gssapi sv \<and> rc = SSH_AUTH_DENIED \<and> 4 \<le> length buf)"
    proof
      assume a: "\<not> offers_password sv \<and> \<not> offers_gssapi sv \<and> rc = SSH_AUTH_DENIED \<and> 4 \<le> length buf"
      then obtain b where w: "wipe_pointer_size buf = Inr b" using wipe_wiped_again by blast
      with a eq have "f sv (Suc k) rc b = Some out" by simp
      with IH [of sv "Suc k" rc b out] wipe_wiped [OF w] a show False by simp
    qed
  qed
  with assms show False by (simp add: password_block_def)
qed

lemma no_method_never_returns_witness:
  "authenticate_console ((demo_server 0 0)\<lparr>offers_password := False\<rparr>) (password_block ''secret'') = None"
  by (rule no_method_never_returns) (simp_all add: demo_server_def)

end
