(* ===== verification/Ssh_Conn.thy ===== *)
theory Ssh_Conn
  imports Ssh_Console Arduino_String
begin

text \<open>
  The class \<open>ssh_conn\<close> of \<open>src/main.cpp\<close>: one SSH server with its session and shell channel.
  The library's objects are handles in \<open>lib\<close>; the return codes of its calls are inputs. The
  constructor sets neither \<open>channel\<close> nor \<open>session\<close>, so both start \<open>Uninit\<close>; testing or using
  such a pointer, or one that has been freed, is a fault.
\<close>

record ssh_conn =
  host :: string
  user :: string
  password :: string
  channel :: "nat ptr"
  session :: "nat ptr"
  conn_flag :: bool

definition new_ssh_conn :: "string \<Rightarrow> string \<Rightarrow> string \<Rightarrow> ssh_conn" where
  "new_ssh_conn h u p = \<lparr>host = h, user = u, password = password_block p,
     channel = Uninit, session = Uninit, conn_flag = False\<rparr>"

section \<open>The library's channels\<close>

definition ssh_channel_new :: "nat ptr \<Rightarrow> lib \<Rightarrow> nat ptr \<times> lib" where
  "ssh_channel_new s l =
     (case s of
        Ptr x \<Rightarrow> (Ptr (next_handle l),
          l\<lparr>next_handle := Suc (next_handle l), live_channels := insert (next_handle l) (live_channels l)\<rparr>)
      | _ \<Rightarrow> (Null, l))"

definition ssh_channel_free :: "nat \<Rightarrow> lib \<Rightarrow> lib" where
  "ssh_channel_free c l = l\<lparr>live_channels := live_channels l - {c}\<rparr>"

text \<open>\<open>brutal_exception\<close>: the channel is closed and freed, then the session.\<close>

definition drop_channel :: "ssh_conn \<Rightarrow> lib \<Rightarrow> mem_fault + ssh_conn \<times> lib" where
  "drop_channel c l =
     (case channel c of
        Uninit \<Rightarrow> Inl Use_of_uninitialised
      | Null \<Rightarrow> Inr (c, l)
      | Ptr ch \<Rightarrow> if ch \<in> live_channels l then Inr (c\<lparr>channel := Null\<rparr>, ssh_channel_free ch l)
                  else Inl Use_after_free)"

definition drop_session :: "ssh_conn \<Rightarrow> lib \<Rightarrow> mem_fault + ssh_conn \<times> lib" where
  "drop_session c l =
     (case session c of
        Uninit \<Rightarrow> Inl Use_of_uninitialised
      | Null \<Rightarrow> Inr (c, l)
      | Ptr s \<Rightarrow> if s \<in> live_sessions l then Inr (c\<lparr>session := Null\<rparr>, ssh_free s l)
                 else Inl Use_after_free)"

definition brutal_exception :: "ssh_conn \<Rightarrow> lib \<Rightarrow> mem_fault + ssh_conn \<times> lib" where
  "brutal_exception c l =
     (case drop_channel c l of Inl e \<Rightarrow> Inl e | Inr (c1, l1) \<Rightarrow> drop_session c1 l1)"

section \<open>connect\<close>

record conn_env = ssh_env +
  open_rc :: int
  pty_rc :: int
  size_rc :: int
  shell_rc :: int

definition connect :: "conn_env \<Rightarrow> ssh_conn \<Rightarrow> lib \<Rightarrow> (mem_fault + nat ptr \<times> ssh_conn \<times> lib) option" where
  "connect e c l =
     (case connect_ssh (ssh_env.truncate e) (password c) l of
        None \<Rightarrow> None
      | Some (Inl f) \<Rightarrow> Some (Inl f)
      | Some (Inr (s, pw, l1)) \<Rightarrow>
          (let c1 = c\<lparr>session := s, password := pw\<rparr> in
           if s = Null then Some (Inr (Null, c1, l1))
           else
             let (ch, l2) = ssh_channel_new s l1;
                 c2 = c1\<lparr>channel := ch\<rparr>;
                 fail = (case brutal_exception c2 l2 of
                           Inl f \<Rightarrow> Some (Inl f) | Inr (c3, l3) \<Rightarrow> Some (Inr (Null, c3, l3)))
             in if ch = Null \<or> open_rc e \<noteq> SSH_OK then fail
                else if pty_rc e \<noteq> SSH_OK then fail
                else if size_rc e \<noteq> SSH_OK then fail
                else if shell_rc e \<noteq> SSH_OK then fail
                else Some (Inr (ch, c2, l2))))"

section \<open>exec_cmd\<close>

text \<open>One iteration of the read loop: what the channel reports, what the read returns (the
  data, or an error), and the clock.\<close>

datatype read_result = Read_data string | Read_error

record exec_event =
  ev_open :: bool
  ev_eof :: bool
  ev_read :: read_result
  ev_now :: u32

definition SSH_SINGLE_EXEC_TIMEOUT :: u32 where "SSH_SINGLE_EXEC_TIMEOUT = 10000"

datatype exec_stop = Stopped string | Read_failed

text \<open>The loop over the events; None when they run out while it is still reading.\<close>

fun exec_loop :: "u32 \<Rightarrow> string \<Rightarrow> exec_event list \<Rightarrow> exec_stop option" where
  "exec_loop startTime out [] = None"
| "exec_loop startTime out (ev # evs) =
     (if ev_open ev \<and> \<not> ev_eof ev then
        (case ev_read ev of
           Read_error \<Rightarrow> Some Read_failed
         | Read_data s \<Rightarrow>
             (let out' = out @ s; start' = (if s \<noteq> [] then ev_now ev else startTime) in
              if SSH_SINGLE_EXEC_TIMEOUT < ev_now ev - start' then Some (Stopped out')
              else exec_loop start' out' evs))
      else Some (Stopped out))"

record exec_env =
  chan_open_rc :: int
  exec_rc :: int
  start_now :: u32
  events :: "exec_event list"
  last_read :: read_result
  rc_text :: "int \<Rightarrow> string"

text \<open>\<open>rc_text\<close> is \<open>String(int)\<close>.\<close>

definition exec_cmd :: "exec_env \<Rightarrow> ssh_conn \<Rightarrow> lib \<Rightarrow> (mem_fault + string \<times> lib) option" where
  "exec_cmd e c l =
     (if session c = Uninit then Some (Inl Use_of_uninitialised)
      else
        let (ch, l1) = ssh_channel_new (session c) l in
        case ch of
          Ptr x \<Rightarrow>
            (if chan_open_rc e \<noteq> SSH_OK then Some (Inr (rc_text e (chan_open_rc e), ssh_channel_free x l1))
             else if exec_rc e \<noteq> SSH_OK then Some (Inr (rc_text e (exec_rc e), ssh_channel_free x l1))
             else (case exec_loop (start_now e) [] (events e) of
                     None \<Rightarrow> None
                   | Some Read_failed \<Rightarrow> Some (Inr (''-1'', l1))
                   | Some (Stopped out) \<Rightarrow>
                       (case last_read e of
                          Read_error \<Rightarrow> Some (Inr (''-1'', l1))
                        | Read_data s \<Rightarrow> Some (Inr (out @ s, ssh_channel_free x l1)))))
        | _ \<Rightarrow> Some (Inr (''-1'', l1)))"

section \<open>File transfer\<close>

datatype scp_act = Push_directory string | Push_file string nat | Scp_write_data string | Scp_close | Scp_free

record scp_env =
  scp_new_ok :: bool
  scp_init_rc :: int
  push_dir_rc :: "nat \<Rightarrow> int"
  push_file_rc :: int
  write_rc :: "nat \<Rightarrow> int"

text \<open>\<open>strtok(path, "/\\")\<close>, repeated: the non-empty pieces between slashes and backslashes.\<close>

definition is_sep :: "char \<Rightarrow> bool" where
  "is_sep c \<longleftrightarrow> c = CHR ''/'' \<or> c = CHR 0x5C"

fun tokens_acc :: "string \<Rightarrow> string \<Rightarrow> string list" where
  "tokens_acc acc [] = (if acc = [] then [] else [acc])"
| "tokens_acc acc (c # cs) =
     (if is_sep c then (if acc = [] then tokens_acc [] cs else acc # tokens_acc [] cs)
      else tokens_acc (acc @ [c]) cs)"

definition path_dirs :: "string \<Rightarrow> string list" where
  "path_dirs filepath =
     tokens_acc [] (take 255 (c_str (substring filepath 0 (last_index_of filepath (CHR ''/'')))))"

definition file_name :: "string \<Rightarrow> string" where
  "file_name filepath = substring_from filepath (last_index_of filepath (CHR ''/'') + 1)"

fun push_dirs :: "(nat \<Rightarrow> int) \<Rightarrow> nat \<Rightarrow> string list \<Rightarrow> scp_act list \<times> int" where
  "push_dirs rc k [] = ([], SSH_OK)"
| "push_dirs rc k (d # ds) =
     (if rc k \<noteq> SSH_OK then ([Push_directory d], rc k)
      else (let (acts, r) = push_dirs rc (Suc k) ds in (Push_directory d # acts, r)))"

function write_chunks :: "(nat \<Rightarrow> int) \<Rightarrow> nat \<Rightarrow> string \<Rightarrow> scp_act list" where
  "write_chunks rc k content =
     (if content = [] then []
      else Scp_write_data (take 512 content) #
           (if rc k \<noteq> SSH_OK then [] else write_chunks rc (Suc k) (drop 512 content)))"
  by pat_completeness auto
termination
  by (relation "measure (\<lambda>(rc, k, content). length content)") auto

declare write_chunks.simps [simp del]

definition scp_write :: "scp_env \<Rightarrow> string option \<Rightarrow> string \<Rightarrow> int \<times> scp_act list" where
  "scp_write e upload filepath =
     (if \<not> scp_new_ok e then (SSH_ERROR, [])
      else if scp_init_rc e \<noteq> SSH_OK then (scp_init_rc e, [Scp_free])
      else
        let (dirs, rc) = push_dirs (push_dir_rc e) 0 (path_dirs filepath) in
        if rc \<noteq> SSH_OK then (rc, dirs @ [Scp_close, Scp_free])
        else
          let content = (case upload of None \<Rightarrow> [] | Some s \<Rightarrow> s);
              push = Push_file (c_str (file_name filepath)) (length content)
          in if push_file_rc e \<noteq> SSH_OK then (push_file_rc e, dirs @ [push, Scp_close, Scp_free])
             else (SSH_OK, dirs @ [push] @ write_chunks (write_rc e) 0 content @ [Scp_close, Scp_free]))"

record pull_env =
  pull_new_ok :: bool
  pull_init_rc :: int
  pull_rc :: int
  pull_size :: u32
  sd_open_ok :: bool
  reads :: "(int \<times> string) list"
  final_rc :: int

definition SSH_SCP_REQUEST_NEWFILE :: int where "SSH_SCP_REQUEST_NEWFILE = 2"
definition SSH_SCP_REQUEST_EOF :: int where "SSH_SCP_REQUEST_EOF = 3"

text \<open>
  The loop \<open>while (remaining > 0)\<close> over the replies of \<open>ssh_scp_read\<close>: a code and the bytes.
  \<open>remaining -= rc\<close> is unsigned. None when the replies run out while bytes remain.
\<close>

fun pull_loop :: "u32 \<Rightarrow> string \<Rightarrow> (int \<times> string) list \<Rightarrow> (bool \<times> string) option" where
  "pull_loop remaining out rs =
     (if remaining = 0 then Some (True, out)
      else (case rs of
              [] \<Rightarrow> None
            | (rc, s) # rs' \<Rightarrow>
                (if rc = SSH_ERROR then Some (False, out)
                 else pull_loop (remaining - of_int rc) (out @ take (nat rc) s) rs')))"

declare pull_loop.simps [simp del]

text \<open>\<open>scp_read\<close>: the code, what \<open>/downloads/file\<close> holds (None: not opened), and whether the
  scp object was freed.\<close>

definition scp_read :: "pull_env \<Rightarrow> (int \<times> string option \<times> bool) option" where
  "scp_read e =
     (if \<not> pull_new_ok e then Some (SSH_ERROR, None, True)
      else if pull_init_rc e \<noteq> SSH_OK then Some (pull_init_rc e, None, True)
      else if pull_rc e \<noteq> SSH_SCP_REQUEST_NEWFILE then Some (SSH_ERROR, None, False)
      else if \<not> sd_open_ok e then Some (SSH_ERROR, None, False)
      else (case pull_loop (pull_size e) [] (reads e) of
              None \<Rightarrow> None
            | Some (False, out) \<Rightarrow> Some (SSH_ERROR, Some out, True)
            | Some (True, out) \<Rightarrow>
                (if final_rc e \<noteq> SSH_SCP_REQUEST_EOF then Some (SSH_ERROR, Some out, True)
                 else Some (SSH_OK, Some out, True))))"

section \<open>Facts\<close>

definition lib_ok :: "lib \<Rightarrow> bool" where
  "lib_ok l \<longleftrightarrow> (\<forall>h\<in>live_sessions l \<union> live_channels l. h < next_handle l)"

lemma connect_ssh_cases:
  assumes "connect_ssh e buf l = Some (Inr (s, buf', l'))"
  shows "s = Null \<and> live_sessions l' = live_sessions l - (if next_handle l' = next_handle l then {} else {next_handle l}) \<or>
    s = Ptr (next_handle l) \<and> live_sessions l' = insert (next_handle l) (live_sessions l)"
    and "live_channels l' = live_channels l"
    and "next_handle l \<le> next_handle l'" and "s = Ptr (next_handle l) \<Longrightarrow> next_handle l' = Suc (next_handle l)"
  using assms
  by (auto simp: connect_ssh_def ssh_new_def ssh_free_def Let_def split: if_splits option.splits sum.splits)

lemma connect_effect:
  assumes ret: "connect e c l = Some (Inr (ch, c', l'))" and ok: "lib_ok l"
  shows "ch \<noteq> Null \<and> channel c' = ch \<and>
      (\<exists>s x. session c' = Ptr s \<and> ch = Ptr x \<and> s \<notin> live_sessions l \<and> x \<notin> live_channels l \<and>
         live_sessions l' = insert s (live_sessions l) \<and> live_channels l' = insert x (live_channels l)) \<or>
    ch = Null \<and> session c' = Null \<and> (channel c' = channel c \<or> channel c' = Null) \<and> live_sessions l' = live_sessions l \<and> live_channels l' = live_channels l"
proof -
  from ret obtain s pw l1 where cs: "connect_ssh (ssh_env.truncate e) (password c) l = Some (Inr (s, pw, l1))"
    by (auto simp: connect_def split: option.splits sum.splits)
  note cc = connect_ssh_cases [OF cs]
  have fresh: "next_handle l \<notin> live_sessions l" "\<And>h. next_handle l \<le> h \<Longrightarrow> h \<notin> live_channels l"
    using ok unfolding lib_ok_def by (auto dest!: bspec)
  show ?thesis
  proof (cases "s = Null")
    case True
    with ret cs cc fresh show ?thesis
      by (auto simp: connect_def Let_def split: if_splits)
  next
    case False
    with cc have s: "s = Ptr (next_handle l)" "live_sessions l1 = insert (next_handle l) (live_sessions l)"
      "live_channels l1 = live_channels l" "next_handle l1 = Suc (next_handle l)" by auto
    with ret cs fresh show ?thesis
      by (auto simp: connect_def ssh_channel_new_def brutal_exception_def drop_channel_def drop_session_def
          ssh_channel_free_def ssh_free_def Let_def split: if_splits)
  qed
qed

lemma connect_fault: "connect e c l = Some (Inl f) \<Longrightarrow> lib_ok l \<Longrightarrow> f = Heap_overflow"
proof -
  assume f: "connect e c l = Some (Inl f)" and ok: "lib_ok l"
  show "f = Heap_overflow"
  proof (cases "connect_ssh (ssh_env.truncate e) (password c) l")
    case (Some r)
    show ?thesis
    proof (cases r)
      case (Inl g)
      have "g = Heap_overflow"
        using Some Inl auth_loop_fault
        by (auto simp: connect_ssh_def authenticate_console_def ssh_new_def Let_def split: if_splits option.splits sum.splits)
      with f Some Inl show ?thesis by (simp add: connect_def)
    next
      case (Inr q)
      obtain s pw l1 where q: "q = (s, pw, l1)" by (cases q)
      note cc = connect_ssh_cases [of _ _ l s pw l1, OF Some [unfolded Inr q]]
      show ?thesis
        using f Some Inr q cc
        by (auto simp: connect_def ssh_channel_new_def brutal_exception_def drop_channel_def drop_session_def
            ssh_channel_free_def ssh_free_def Let_def split: if_splits)
    qed
  qed (use f in \<open>simp add: connect_def\<close>)
qed


definition demo_conn_env :: "int \<Rightarrow> conn_env" where
  "demo_conn_env shell = \<lparr>new_ok = True, set_user_rc = 0, set_host_rc = 0, connect_rc = 0,
     server = (demo_server 0 0)\<lparr>none_rc := 0\<rparr>, open_rc = 0, pty_rc = 0, size_rc = 0, shell_rc = shell\<rparr>"


text \<open>
  A status request against a server that could not be reached ends in undefined behaviour.
  After a first \<open>connect\<close> that fails in \<open>connect_ssh\<close>, the member \<open>channel\<close> has never been
  assigned; \<open>exec_cmd\<close> reports the dead session, and \<open>brutal_exception\<close>, which the control
  task calls next, reads the uninitialised channel pointer.
\<close>

theorem failed_connect_then_reset_faults:
  assumes "connect_rc e \<noteq> 0" and "new_ok e"
  shows "\<exists>c l'. connect e (new_ssh_conn h u p) l = Some (Inr (Null, c, l')) \<and>
    exec_cmd x c l' = Some (Inr (''-1'', l')) \<and>
    brutal_exception c l' = Inl Use_of_uninitialised"
  using assms
  by (auto simp: connect_def connect_ssh_def new_ssh_conn_def ssh_env.defs exec_cmd_def ssh_channel_new_def
      brutal_exception_def drop_channel_def ssh_new_def Let_def)

definition demo_exec :: exec_env where
  "demo_exec = \<lparr>chan_open_rc = 0, exec_rc = 0, start_now = 0,
     events = [\<lparr>ev_open = True, ev_eof = False, ev_read = Read_data ''alive'', ev_now = 5\<rparr>,
               \<lparr>ev_open = True, ev_eof = True, ev_read = Read_data [], ev_now = 6\<rparr>],
     last_read = Read_data [], rc_text = (\<lambda>_. ''-1'')\<rparr>"

lemma failed_connect_then_reset_faults_witness:
  "\<exists>c l'. connect ((demo_conn_env 0)\<lparr>connect_rc := SSH_ERROR\<rparr>) (new_ssh_conn ''pc'' ''root'' ''secret'') demo_lib =
      Some (Inr (Null, c, l')) \<and> exec_cmd demo_exec c l' = Some (Inr (''-1'', l')) \<and>
    brutal_exception c l' = Inl Use_of_uninitialised"
  by (rule failed_connect_then_reset_faults) (simp_all add: demo_conn_env_def)

text \<open>
  A command frees its channel, except when a read fails. If \<open>exec_cmd\<close> returns, the live
  channels are as before, or the channel it opened is still live, its result is "-1", and a
  read reported an error.
\<close>

theorem exec_cmd_channels:
  assumes ret: "exec_cmd e c l = Some (Inr (out, l'))" and ok: "lib_ok l"
  shows "live_channels l' = live_channels l \<or>
    live_channels l' = insert (next_handle l) (live_channels l) \<and> out = ''-1'' \<and>
      (exec_loop (start_now e) [] (events e) = Some Read_failed \<or> last_read e = Read_error)"
proof -
  have "next_handle l \<notin> live_channels l" using ok by (auto simp: lib_ok_def)
  with ret show ?thesis
    by (cases "session c")
      (auto simp: exec_cmd_def ssh_channel_new_def ssh_channel_free_def Let_def
        split: if_splits option.splits exec_stop.splits read_result.splits)
qed

lemma exec_cmd_channels_witness:
  "\<exists>out l'. exec_cmd demo_exec ((new_ssh_conn [] [] [])\<lparr>session := Ptr 0\<rparr>) demo_lib = Some (Inr (out, l')) \<and>
     out = ''alive'' \<and>
     (live_channels l' = live_channels demo_lib \<or>
      live_channels l' = insert (next_handle demo_lib) (live_channels demo_lib) \<and> out = ''-1'' \<and>
      (exec_loop (start_now demo_exec) [] (events demo_exec) = Some Read_failed \<or> last_read demo_exec = Read_error))"
proof -
  let ?c = "(new_ssh_conn [] [] [])\<lparr>session := Ptr 0\<rparr>"
  obtain l' where run: "exec_cmd demo_exec ?c demo_lib = Some (Inr (''alive'', l'))"
    by (simp add: exec_cmd_def demo_exec_def ssh_channel_new_def SSH_SINGLE_EXEC_TIMEOUT_def Let_def)
  have "lib_ok demo_lib" by (simp add: lib_ok_def demo_lib_def)
  with run exec_cmd_channels [OF run] show ?thesis by blast
qed

text \<open>The downloads: chunks that fit what remains are put together exactly.\<close>

lemma pull_loop_exact:
  assumes "\<forall>(rc, s)\<in>set rs. 0 < rc \<and> nat rc = length s"
    and "length (concat (map snd rs)) = unat remaining"
  shows "pull_loop remaining out rs = Some (True, out @ concat (map snd rs))"
  using assms
proof (induction rs arbitrary: remaining out)
  case Nil
  then have "remaining = 0" by (simp add: unat_eq_zero)
  then show ?case by (subst pull_loop.simps) simp
next
  case (Cons r rs)
  obtain rc s where r: "r = (rc, s)" by (cases r)
  from Cons.prems r have rc: "0 < rc" "nat rc = length s" by auto
  then have rcs: "rc = int (length s)" by simp
  have le: "length s \<le> unat remaining" and ne: "remaining \<noteq> 0"
    using Cons.prems(2) r rc by (auto simp: unat_eq_zero [symmetric])
  have w: "unat (of_nat (length s) :: u32) = length s"
    using le unsigned_less [of remaining, where 'a = nat] by (simp add: unat_of_nat take_bit_nat_eq_self_iff)
  have "unat (remaining - of_int rc) = unat remaining - length s"
    using le w by (simp add: rcs unat_sub word_le_nat_alt)
  then have "pull_loop (remaining - of_int rc) (out @ s) rs = Some (True, (out @ s) @ concat (map snd rs))"
    using Cons.prems r by (intro Cons.IH) auto
  then show ?case using ne r rc by (subst pull_loop.simps) simp
qed

text \<open>
  A download is the file. If the server announces a file and its reads deliver the announced
  number of bytes, in pieces of any size, followed by the end-of-file request, \<open>scp_read\<close>
  succeeds with exactly those bytes on the card and frees the transfer.
\<close>

theorem scp_read_complete:
  assumes "pull_new_ok e" and "pull_init_rc e = SSH_OK" and "pull_rc e = SSH_SCP_REQUEST_NEWFILE"
    and "sd_open_ok e" and "final_rc e = SSH_SCP_REQUEST_EOF"
    and "\<forall>(rc, s)\<in>set (reads e). 0 < rc \<and> nat rc = length s"
    and "length (concat (map snd (reads e))) = unat (pull_size e)"
  shows "scp_read e = Some (SSH_OK, Some (concat (map snd (reads e))), True)"
  using assms pull_loop_exact [OF assms(6,7), of "[]"] by (simp add: scp_read_def)

lemma scp_read_complete_witness:
  "scp_read \<lparr>pull_new_ok = True, pull_init_rc = 0, pull_rc = 2, pull_size = 5, sd_open_ok = True,
     reads = [(3, ''abc''), (2, ''de'')], final_rc = 3\<rparr> = Some (SSH_OK, Some ''abcde'', True)"
  using scp_read_complete [of "\<lparr>pull_new_ok = True, pull_init_rc = 0, pull_rc = 2, pull_size = 5,
     sd_open_ok = True, reads = [(3, ''abc''), (2, ''de'')], final_rc = 3\<rparr>"]
  by (simp add: SSH_SCP_REQUEST_NEWFILE_def SSH_SCP_REQUEST_EOF_def)

text \<open>
  An upload to a name without a slash makes a directory of that name first. \<open>lastIndexOf\<close>
  returns -1, and as the end of a substring that is the whole name.
\<close>

theorem upload_plain_name_makes_directory:
  assumes "CHR ''/'' \<notin> set name" and "CHR 0x5C \<notin> set name" and "CHR 0x00 \<notin> set name"
    and "name \<noteq> []" and "length name < 255"
    and "scp_new_ok e" and "scp_init_rc e = SSH_OK" and "push_dir_rc e 0 = SSH_OK" and "push_file_rc e = SSH_OK"
  shows "\<exists>acts. scp_write e (Some content) name =
    (SSH_OK, [Push_directory name, Push_file name (length content)] @ acts)"
proof -
  have li: "last_index_of name (CHR ''/'') = -1"
    using assms(1) last_index_nat_None [of "CHR ''/''" name] by (simp add: last_index_of_def)
  have sub: "substring name 0 (-1) = name"
    using assms(5) by (simp add: substring_def uint32_def Let_def)
  have toks: "tokens_acc acc s = [acc @ s]" if "CHR ''/'' \<notin> set s" "CHR 0x5C \<notin> set s" "acc @ s \<noteq> []" for acc s
    using that by (induction s arbitrary: acc) (auto simp: is_sep_def)
  have dirs: "path_dirs name = [name]"
    using assms by (simp add: path_dirs_def li sub toks)
  have fname: "file_name name = name"
    using assms(5) by (simp add: file_name_def li substring_from_def substring_def uint32_def str_len_def Let_def)
  show ?thesis
    using assms by (simp add: scp_write_def dirs fname)
qed

lemma upload_plain_name_makes_directory_witness:
  "\<exists>acts. scp_write \<lparr>scp_new_ok = True, scp_init_rc = 0, push_dir_rc = (\<lambda>_. 0), push_file_rc = 0, write_rc = (\<lambda>_. 0)\<rparr>
     (Some ''data'') ''notes.txt'' = (SSH_OK, [Push_directory ''notes.txt'', Push_file ''notes.txt'' (length ''data'')] @ acts)"
  by (rule upload_plain_name_makes_directory) simp_all

end
