(* ===== verification/Control.thy ===== *)
theory Control
  imports Web_World Ssh_Conn
begin

text \<open>
  The control task of \<open>src/main.cpp\<close>: \<open>ex_main\<close>, which owns the SSH servers and serves the
  commands the request handlers leave in the shared variables. One iteration of its loop is
  \<open>ctl_iter\<close>; what the library, the servers and the clock answer in that iteration is a record.
  An iteration may not return (a login that never ends) or fault (a bad pointer or index).
\<close>

record 'db control =
  world :: "'db web"
  ssh_servers :: "ssh_conn list"
  current_ssh_index :: int
  the_lib :: lib
  lastHandleKeepAlive :: u32

record ctl_env =
  ce_open :: bool
  ce_rbytes :: int
  ce_data :: string
  ce_mutex :: bool
  ce_connect :: conn_env
  ce_exec :: exec_env
  ce_scp :: scp_env
  ce_pull :: pull_env
  ce_now :: u32

text \<open>What an iteration does to the outside.\<close>

datatype ctl_act =
    Sent "(handler \<times> string) list"
  | Wrote string
  | Uploaded int "scp_act list"
  | Downloaded int
  | Status string
  | Kept_alive

type_synonym 'a outcome = "(mem_fault + 'a) option"

definition and_then :: "'a outcome \<Rightarrow> ('a \<Rightarrow> 'b outcome) \<Rightarrow> 'b outcome" where
  "and_then m f = (case m of None \<Rightarrow> None | Some (Inl e) \<Rightarrow> Some (Inl e) | Some (Inr x) \<Rightarrow> f x)"

lemma and_then_Inr: "and_then m f = Some (Inr y) \<longleftrightarrow> (\<exists>x. m = Some (Inr x) \<and> f x = Some (Inr y))"
  by (auto simp: and_then_def split: option.splits sum.splits)

lemma and_then_Inl:
  "and_then m f = Some (Inl e) \<longleftrightarrow> m = Some (Inl e) \<or> (\<exists>x. m = Some (Inr x) \<and> f x = Some (Inl e))"
  by (auto simp: and_then_def split: option.splits sum.splits)

lemma and_then_simps [simp]:
  "and_then (Some (Inr x)) f = f x" "and_then (Some (Inl e)) f = Some (Inl e)" "and_then None f = None"
  by (simp_all add: and_then_def)

section \<open>The current server\<close>

text \<open>\<open>ssh_servers[current_ssh_index]\<close>: outside the vector it is undefined.\<close>

definition current :: "('db, 'z) control_scheme \<Rightarrow> ssh_conn outcome" where
  "current s =
     (if 0 \<le> current_ssh_index s \<and> nat (current_ssh_index s) < length (ssh_servers s)
      then Some (Inr (ssh_servers s ! nat (current_ssh_index s))) else Some (Inl Out_of_bounds))"

definition put_current :: "ssh_conn \<Rightarrow> lib \<Rightarrow> 'db control \<Rightarrow> 'db control" where
  "put_current c l s =
     s\<lparr>ssh_servers := (ssh_servers s)[nat (current_ssh_index s) := c], the_lib := l,
       world := (world s)\<lparr>ssh_conn_flag := conn_flag c\<rparr>\<rparr>"

text \<open>\<open>if (connect() != NULL) conn = true; else conn = false;\<close>\<close>

definition reconnect :: "conn_env \<Rightarrow> 'db control \<Rightarrow> 'db control outcome" where
  "reconnect e s =
     and_then (current s) (\<lambda>c.
     and_then (connect e c (the_lib s)) (\<lambda>(ch, c', l').
       Some (Inr (put_current (c'\<lparr>conn_flag := (ch \<noteq> Null)\<rparr>) l' s))))"

section \<open>Methods of the class that the loop calls\<close>

definition live_ptr :: "nat ptr \<Rightarrow> nat set \<Rightarrow> mem_fault + bool" where
  "live_ptr p live =
     (case p of Uninit \<Rightarrow> Inl Use_of_uninitialised | Null \<Rightarrow> Inr False
      | Ptr x \<Rightarrow> if x \<in> live then Inr True else Inl Use_after_free)"

text \<open>\<open>ssh_conn::read\<close>: the bytes read, or -1.\<close>

definition conn_read :: "ctl_env \<Rightarrow> ssh_conn \<Rightarrow> lib \<Rightarrow> int outcome" where
  "conn_read e c l =
     and_then (Some (live_ptr (channel c) (live_channels l))) (\<lambda>ch.
       if \<not> ch then Some (Inr (-1))
       else and_then (Some (live_ptr (session c) (live_sessions l))) (\<lambda>se.
         if se \<and> ce_open e then Some (Inr (ce_rbytes e)) else Some (Inr (-1))))"

definition conn_write :: "string \<Rightarrow> ssh_conn \<Rightarrow> lib \<Rightarrow> ctl_act list outcome" where
  "conn_write cmd c l =
     and_then (Some (live_ptr (channel c) (live_channels l))) (\<lambda>ch.
       Some (Inr (if ch then [Wrote cmd] else [])))"

definition keep_alive :: "ssh_conn \<Rightarrow> lib \<Rightarrow> ctl_act list outcome" where
  "keep_alive c l =
     and_then (Some (live_ptr (session c) (live_sessions l))) (\<lambda>se.
       Some (Inr (if se then [Kept_alive] else [])))"

section \<open>The branches of the loop\<close>

definition serve_read :: "ctl_env \<Rightarrow> ssh_conn \<Rightarrow> 'db control \<Rightarrow> ctl_act list outcome" where
  "serve_read e c s =
     (if \<not> conn_flag c then Some (Inr [])
      else and_then (conn_read e c (the_lib s)) (\<lambda>rbytes.
        Some (Inr (if 0 < rbytes
                   then [Sent (broadcast (ce_mutex e) (ssh_slots (world s)) (take (nat rbytes) (ce_data e)))]
                   else []))))"

definition serve_switch :: "ctl_env \<Rightarrow> ssh_conn \<Rightarrow> 'db control \<Rightarrow> 'db control outcome" where
  "serve_switch e c s =
     and_then (Some (brutal_exception c (the_lib s))) (\<lambda>(c1, l1).
       let s1 = put_current (c1\<lparr>conn_flag := False\<rparr>) l1 s;
           s2 = s1\<lparr>current_ssh_index := to_int (switch_ssh (world s1))\<rparr>
       in and_then (reconnect (ce_connect e) s2) (\<lambda>s3.
            Some (Inr (s3\<lparr>world := (world s3)\<lparr>switch_ssh := []\<rparr>\<rparr>))))"

definition clear_command :: "'db control \<Rightarrow> 'db control" where
  "clear_command s = s\<lparr>world := (world s)\<lparr>ssh_command := []\<rparr>\<rparr>"

definition serve_command :: "ssh_conn \<Rightarrow> 'db control \<Rightarrow> (ctl_act list \<times> 'db control) outcome" where
  "serve_command c s =
     and_then (conn_write (ssh_command (world s)) c (the_lib s)) (\<lambda>acts. Some (Inr (acts, clear_command s)))"

definition serve_upload :: "ctl_env \<Rightarrow> 'db control \<Rightarrow> ctl_act list \<times> 'db control" where
  "serve_upload e s =
     (let (rc, acts) = scp_write (ce_scp e) (upload_file (world s)) (upload_command (world s))
      in ([Uploaded rc acts], s\<lparr>world := (world s)\<lparr>upload_command := []\<rparr>\<rparr>))"

definition serve_download :: "ctl_env \<Rightarrow> 'db control \<Rightarrow> (ctl_act list \<times> 'db control) outcome" where
  "serve_download e s =
     (case scp_read (ce_pull e) of
        None \<Rightarrow> None
      | Some (rc, content, _) \<Rightarrow>
          (let w = world s;
               w1 = (case content of None \<Rightarrow> w | Some d \<Rightarrow> w\<lparr>download_file := Some d\<rparr>)
           in Some (Inr ([Downloaded rc], s\<lparr>world := w1\<lparr>scp_command := []\<rparr>\<rparr>))))"

definition serve_status :: "ctl_env \<Rightarrow> ssh_conn \<Rightarrow> 'db control \<Rightarrow> (ctl_act list \<times> 'db control) outcome" where
  "serve_status e c s =
     and_then (exec_cmd (ce_exec e) c (the_lib s)) (\<lambda>(out, l1).
       let cmd_output = str_trim out;
           s1 = put_current (c\<lparr>conn_flag := (cmd_output = ''alive'')\<rparr>) l1 s;
           fin = (\<lambda>s2. Some (Inr ([Status cmd_output], s2\<lparr>world := (world s2)\<lparr>hp_1_status_req := False\<rparr>\<rparr>)))
       in if cmd_output = ''alive'' then fin s1
          else and_then (Some (brutal_exception (c\<lparr>conn_flag := False\<rparr>) l1)) (\<lambda>(c2, l2).
                 and_then (reconnect (ce_connect e) (put_current c2 l2 s1)) fin))"

definition serve_idle :: "ctl_env \<Rightarrow> ssh_conn \<Rightarrow> 'db control \<Rightarrow> (ctl_act list \<times> 'db control) outcome" where
  "serve_idle e c s =
     (if 10000 \<le> ce_now e - lastHandleKeepAlive s \<and> conn_flag c
      then and_then (keep_alive c (the_lib s)) (\<lambda>acts. Some (Inr (acts, s\<lparr>lastHandleKeepAlive := ce_now e\<rparr>)))
      else Some (Inr ([], s)))"

text \<open>One iteration: the terminal output first, then at most one branch.\<close>

definition ctl_branch :: "ctl_env \<Rightarrow> ssh_conn \<Rightarrow> 'db control \<Rightarrow> (ctl_act list \<times> 'db control) outcome" where
  "ctl_branch e c s =
     (if switch_ssh (world s) \<noteq> [] \<and> conn_flag c then
        and_then (serve_switch e c s) (\<lambda>s'. Some (Inr ([], s')))
      else if ssh_command (world s) \<noteq> [] \<and> conn_flag c then serve_command c s
      else if upload_command (world s) \<noteq> [] \<and> conn_flag c then Some (Inr (serve_upload e s))
      else if scp_command (world s) \<noteq> [] \<and> conn_flag c then serve_download e s
      else if hp_1_status_req (world s) then serve_status e c s
      else serve_idle e c s)"

definition ctl_iter :: "ctl_env \<Rightarrow> 'db control \<Rightarrow> (ctl_act list \<times> 'db control) outcome" where
  "ctl_iter e s =
     and_then (current s) (\<lambda>c.
     and_then (serve_read e c s) (\<lambda>out.
     and_then (ctl_branch e c s) (\<lambda>(acts, s'). Some (Inr (out @ acts, s')))))"

text \<open>Before the loop: \<open>conn\<close> is set when the first connection succeeds.\<close>

definition ctl_start :: "conn_env \<Rightarrow> u32 \<Rightarrow> 'db control \<Rightarrow> 'db control outcome" where
  "ctl_start e now s =
     and_then (current s) (\<lambda>c.
     and_then (connect e c (the_lib s)) (\<lambda>(ch, c', l').
       Some (Inr ((put_current (if ch \<noteq> Null then c'\<lparr>conn_flag := True\<rparr> else c') l' s)\<lparr>lastHandleKeepAlive := now\<rparr>))))"

fun ctl_run :: "ctl_env list \<Rightarrow> 'db control \<Rightarrow> (ctl_act list \<times> 'db control) outcome" where
  "ctl_run [] s = Some (Inr ([], s))"
| "ctl_run (e # es) s =
     and_then (ctl_iter e s) (\<lambda>(a, s1).
     and_then (ctl_run es s1) (\<lambda>(b, s2). Some (Inr (a @ b, s2))))"

end
