(* ===== verification/Control_Safety.thy ===== *)
theory Control_Safety
  imports Control "HOL-Library.Sublist"
begin

text \<open>
  What the control task guarantees: which command an iteration serves, what happens while the
  device is not connected, which faults an iteration can meet, and the race between the task
  and the websocket on the shared terminal command.
\<close>

section \<open>Commands in order of priority\<close>

datatype ctl_command =
  Switch_to string | Terminal_input string | Upload_to string | Download_from string | Status_check

definition pending :: "('db, 'z) web_scheme \<Rightarrow> ctl_command list" where
  "pending w =
     (if switch_ssh w = [] then [] else [Switch_to (switch_ssh w)]) @
     (if ssh_command w = [] then [] else [Terminal_input (ssh_command w)]) @
     (if upload_command w = [] then [] else [Upload_to (upload_command w)]) @
     (if scp_command w = [] then [] else [Download_from (scp_command w)]) @
     (if hp_1_status_req w then [Status_check] else [])"

lemma str_trim_neg1: "str_trim ''-1'' \<noteq> ''alive''"
  by (simp add: str_trim_def)

lemma put_current_simps [simp]:
  "current_ssh_index (put_current c l s) = current_ssh_index s"
  "the_lib (put_current c l s) = l"
  "ssh_servers (put_current c l s) = (ssh_servers s)[nat (current_ssh_index s) := c]"
  "lastHandleKeepAlive (put_current c l s) = lastHandleKeepAlive s"
  "world (put_current c l s) = (world s)\<lparr>ssh_conn_flag := conn_flag c\<rparr>"
  by (simp_all add: put_current_def)

text \<open>The five command variables; every branch clears its own and leaves the others.\<close>

definition commands :: "('db, 'z) web_scheme \<Rightarrow> string \<times> string \<times> string \<times> string \<times> bool" where
  "commands w = (switch_ssh w, ssh_command w, upload_command w, scp_command w, hp_1_status_req w)"

lemma reconnect_commands: "reconnect e s = Some (Inr s') \<Longrightarrow> commands (world s') = commands (world s)"
  by (auto simp: reconnect_def and_then_Inr commands_def)

lemma serve_switch_commands:
  assumes "serve_switch e c s = Some (Inr s')"
  shows "commands (world s') = (let (_, r) = commands (world s) in ([], r))"
proof -
  from assms obtain c1 l1 s3 where
    r: "reconnect (ce_connect e) ((put_current (c1\<lparr>conn_flag := False\<rparr>) l1 s)
          \<lparr>current_ssh_index := to_int (switch_ssh (world s))\<rparr>) = Some (Inr s3)"
    and s': "s' = s3\<lparr>world := (world s3)\<lparr>switch_ssh := []\<rparr>\<rparr>"
    by (auto simp: serve_switch_def and_then_Inr Let_def)
  show ?thesis using reconnect_commands [OF r] by (simp add: s' commands_def)
qed

lemma serve_command_commands:
  "serve_command c s = Some (Inr (acts, s')) \<Longrightarrow>
   commands (world s') = (let (a, _, r) = commands (world s) in (a, [], r))"
  by (auto simp: serve_command_def clear_command_def and_then_Inr commands_def)

lemma serve_upload_commands:
  "serve_upload e s = (acts, s') \<Longrightarrow>
   commands (world s') = (let (a, b, _, r) = commands (world s) in (a, b, [], r))"
  by (auto simp: serve_upload_def commands_def split: prod.splits)

lemma serve_download_commands:
  "serve_download e s = Some (Inr (acts, s')) \<Longrightarrow>
   commands (world s') = (let (a, b, d, _, r) = commands (world s) in (a, b, d, [], r))"
  by (cases "scp_read (ce_pull e)") (auto simp: serve_download_def commands_def Let_def split: option.splits)

lemma serve_status_commands:
  assumes "serve_status e c s = Some (Inr (acts, s'))"
  shows "commands (world s') = (let (a, b, d, f, _) = commands (world s) in (a, b, d, f, False))"
proof -
  from assms obtain s2 where s2: "s' = s2\<lparr>world := (world s2)\<lparr>hp_1_status_req := False\<rparr>\<rparr>"
    and eq: "commands (world s2) = commands (world s)"
  proof (cases "exec_cmd (ce_exec e) c (the_lib s)")
    case (Some r)
    then obtain out l1 where r: "r = Inr (out, l1)"
      using assms by (cases r) (auto simp: serve_status_def)
    show ?thesis
    proof (cases "str_trim out = ''alive''")
      case True
      then show ?thesis using assms Some r
        by (intro that [of "put_current (c\<lparr>conn_flag := True\<rparr>) l1 s"]) (auto simp: serve_status_def commands_def)
    next
      case False
      with assms Some r obtain c2 l2 s2 where
        re: "reconnect (ce_connect e) (put_current c2 l2 (put_current (c\<lparr>conn_flag := False\<rparr>) l1 s)) = Some (Inr s2)"
        and "s' = s2\<lparr>world := (world s2)\<lparr>hp_1_status_req := False\<rparr>\<rparr>"
        by (auto simp: serve_status_def and_then_Inr)
      then show ?thesis using reconnect_commands [OF re] that by (simp add: commands_def)
    qed
  qed (simp add: serve_status_def)
  then show ?thesis by (simp add: commands_def)
qed

lemma serve_idle_commands: "serve_idle e c s = Some (Inr (acts, s')) \<Longrightarrow> commands (world s') = commands (world s)"
  by (auto simp: serve_idle_def and_then_Inr commands_def split: if_splits)

lemma branch_serves:
  assumes ret: "ctl_branch e c s = Some (Inr (acts, s'))" and conn: "conn_flag c"
  shows "pending (world s') = tl (pending (world s))"
proof -
  consider "switch_ssh (world s) \<noteq> []" | "switch_ssh (world s) = []" "ssh_command (world s) \<noteq> []"
    | "switch_ssh (world s) = []" "ssh_command (world s) = []" "upload_command (world s) \<noteq> []"
    | "switch_ssh (world s) = []" "ssh_command (world s) = []" "upload_command (world s) = []"
      "scp_command (world s) \<noteq> []"
    | "switch_ssh (world s) = []" "ssh_command (world s) = []" "upload_command (world s) = []"
      "scp_command (world s) = []" "hp_1_status_req (world s)"
    | "switch_ssh (world s) = []" "ssh_command (world s) = []" "upload_command (world s) = []"
      "scp_command (world s) = []" "\<not> hp_1_status_req (world s)"
    by blast
  then show ?thesis
  proof cases
    case 1
    with ret conn have "serve_switch e c s = Some (Inr s')" by (auto simp: ctl_branch_def and_then_Inr)
    from serve_switch_commands [OF this] 1 show ?thesis by (simp add: commands_def pending_def)
  next
    case 2
    with ret conn have "serve_command c s = Some (Inr (acts, s'))" by (simp add: ctl_branch_def)
    from serve_command_commands [OF this] 2 show ?thesis by (simp add: commands_def pending_def)
  next
    case 3
    with ret conn have "serve_upload e s = (acts, s')" by (simp add: ctl_branch_def)
    from serve_upload_commands [OF this] 3 show ?thesis by (simp add: commands_def pending_def)
  next
    case 4
    with ret conn have "serve_download e s = Some (Inr (acts, s'))" by (simp add: ctl_branch_def)
    from serve_download_commands [OF this] 4 show ?thesis by (simp add: commands_def pending_def)
  next
    case 5
    with ret conn have "serve_status e c s = Some (Inr (acts, s'))" by (simp add: ctl_branch_def)
    from serve_status_commands [OF this] 5 show ?thesis by (simp add: commands_def pending_def)
  next
    case 6
    with ret conn have "serve_idle e c s = Some (Inr (acts, s'))" by (simp add: ctl_branch_def)
    from serve_idle_commands [OF this] 6 show ?thesis by (simp add: commands_def pending_def)
  qed
qed

text \<open>A device with one server that has an open shell, or none.\<close>

definition demo_world :: "unit web" where
  "demo_world = \<lparr>Session_dict = (), PASSWORD = ''hunter2'', ssh_slots = empty_slots, fan_slots = empty_slots,
     heap = [0 \<mapsto> SSHHandler], next_handler = 1, ssh_command = [], upload_command = [], scp_command = [], switch_ssh = [],
     hp_1_status_req = False, shh_output_string = [], upload_file = None, download_file = None, gpio = [],
     fan_duty = 0, ssh_conn_flag = False\<rparr>"

definition demo_offline :: "unit control" where
  "demo_offline = \<lparr>world = demo_world, ssh_servers = [new_ssh_conn ''pc'' ''root'' ''secret''],
     current_ssh_index = 0, the_lib = demo_lib, lastHandleKeepAlive = 0\<rparr>"

definition demo_online :: "unit control" where
  "demo_online = demo_offline
     \<lparr>ssh_servers := [(new_ssh_conn ''pc'' ''root'' ''secret'')\<lparr>session := Ptr 1, channel := Ptr 2, conn_flag := True\<rparr>],
       the_lib := \<lparr>next_handle = 3, live_sessions = {1}, live_channels = {2}\<rparr>\<rparr>"

definition demo_ctl_env :: ctl_env where
  "demo_ctl_env = \<lparr>ce_open = True, ce_rbytes = 0, ce_data = [], ce_mutex = True, ce_connect = demo_conn_env 0,
     ce_exec = demo_exec,
     ce_scp = \<lparr>scp_new_ok = True, scp_init_rc = 0, push_dir_rc = (\<lambda>_. 0), push_file_rc = 0, write_rc = (\<lambda>_. 0)\<rparr>,
     ce_pull = \<lparr>pull_new_ok = True, pull_init_rc = 0, pull_rc = 2, pull_size = 0, sd_open_ok = True, reads = [], final_rc = 3\<rparr>,
     ce_now = 0\<rparr>"

lemmas demo_control_defs = demo_world_def demo_offline_def demo_online_def demo_ctl_env_def



section \<open>Not connected\<close>

lemma offline_iter:
  assumes "current s = Some (Inr c)" and "\<not> conn_flag c" and "\<not> hp_1_status_req (world s)"
  shows "ctl_iter e s = Some (Inr ([], s))"
  using assms by (simp add: ctl_iter_def serve_read_def ctl_branch_def serve_idle_def)

text \<open>
  While the device is not connected, commands are never served. However long the control
  task runs and whatever the network answers, the state does not change: a request handler
  that waits for its command to be cleared waits for ever, and the request to switch to
  another, reachable, server stays pending too.
\<close>

theorem offline_never_serves:
  assumes "current s = Some (Inr c)" and "\<not> conn_flag c" and "\<not> hp_1_status_req (world s)"
  shows "ctl_run es s = Some (Inr ([], s))"
  using offline_iter [OF assms] by (induction es) simp_all

lemma offline_never_serves_witness:
  "ctl_run [demo_ctl_env, demo_ctl_env] (demo_offline\<lparr>world := demo_world\<lparr>switch_ssh := ''1''\<rparr>\<rparr>) =
     Some (Inr ([], demo_offline\<lparr>world := demo_world\<lparr>switch_ssh := ''1''\<rparr>\<rparr>))"
  by (rule offline_never_serves [where c = "new_ssh_conn ''pc'' ''root'' ''secret''"])
    (simp_all add: current_def demo_control_defs new_ssh_conn_def)

lemma offline_status_faults:
  assumes "current t = Some (Inr c)" and "\<not> conn_flag c" and "hp_1_status_req (world t)"
    and "session c = Null" and "channel c = Uninit"
  shows "ctl_iter x t = Some (Inl Use_of_uninitialised)"
  using assms
  by (simp add: ctl_iter_def serve_read_def ctl_branch_def serve_status_def exec_cmd_def ssh_channel_new_def
      brutal_exception_def drop_channel_def str_trim_neg1)

text \<open>
  Starting without the server is fatal once the status page asks. If the first connection
  fails in the TCP connect, the loop idles, and the first status request makes the control task
  read a channel pointer that was never assigned.
\<close>

theorem status_after_failed_start_faults:
  assumes "new_ok e" and "connect_rc e \<noteq> 0"
    and "current s = Some (Inr (new_ssh_conn h u p))"
  shows "\<exists>s1. ctl_start e now s = Some (Inr s1) \<and> \<not> ssh_conn_flag (world s1) \<and>
    ctl_iter x (s1\<lparr>world := (world s1)\<lparr>hp_1_status_req := True\<rparr>\<rparr>) = Some (Inl Use_of_uninitialised)"
proof -
  let ?c = "(new_ssh_conn h u p)\<lparr>session := Null\<rparr>"
  from assms have con: "\<exists>l1. connect e (new_ssh_conn h u p) (the_lib s) = Some (Inr (Null, ?c, l1))"
    by (simp add: connect_def connect_ssh_def new_ssh_conn_def ssh_env.defs ssh_new_def Let_def)
  then obtain l1 where con: "connect e (new_ssh_conn h u p) (the_lib s) = Some (Inr (Null, ?c, l1))" ..
  let ?s1 = "(put_current ?c l1 s)\<lparr>lastHandleKeepAlive := now\<rparr>"
  have start: "ctl_start e now s = Some (Inr ?s1)"
    using assms(3) con by (simp add: ctl_start_def)
  have cur: "current (?s1\<lparr>world := (world ?s1)\<lparr>hp_1_status_req := True\<rparr>\<rparr>) = Some (Inr ?c)"
    using assms(3) by (auto simp: current_def split: if_splits)
  have off: "\<not> conn_flag ?c" by (simp add: new_ssh_conn_def)
  have "ctl_iter x (?s1\<lparr>world := (world ?s1)\<lparr>hp_1_status_req := True\<rparr>\<rparr>) = Some (Inl Use_of_uninitialised)"
    by (rule offline_status_faults [OF cur off]) (simp_all add: new_ssh_conn_def)
  with start show ?thesis by (intro exI [of _ ?s1]) (simp add: new_ssh_conn_def)
qed

lemma status_after_failed_start_faults_witness:
  "\<exists>s1. ctl_start ((demo_conn_env 0)\<lparr>connect_rc := SSH_ERROR\<rparr>) 0 demo_offline = Some (Inr s1) \<and>
     \<not> ssh_conn_flag (world s1) \<and>
     ctl_iter demo_ctl_env (s1\<lparr>world := (world s1)\<lparr>hp_1_status_req := True\<rparr>\<rparr>) = Some (Inl Use_of_uninitialised)"
  by (rule status_after_failed_start_faults [where h = "''pc''" and u = "''root''" and p = "''secret''"])
    (simp_all add: current_def demo_control_defs demo_conn_env_def)

section \<open>Pointers\<close>

text \<open>A connected server holds a live session and channel; any other holds no object.\<close>

definition conn_ok :: "ssh_conn \<Rightarrow> lib \<Rightarrow> bool" where
  "conn_ok c l \<longleftrightarrow>
     (if conn_flag c
      then (\<exists>a b. session c = Ptr a \<and> a \<in> live_sessions l \<and> channel c = Ptr b \<and> b \<in> live_channels l)
      else session c = Null \<and> (\<forall>b. channel c \<noteq> Ptr b))"

definition idle_conn :: "ssh_conn \<Rightarrow> bool" where
  "idle_conn c \<longleftrightarrow> \<not> conn_flag c \<and> (\<forall>a. session c \<noteq> Ptr a) \<and> (\<forall>b. channel c \<noteq> Ptr b)"

text \<open>The invariant of the loop: only the current server is connected.\<close>

definition ctl_ok :: "'db control \<Rightarrow> bool" where
  "ctl_ok s \<longleftrightarrow> lib_ok (the_lib s) \<and>
     (\<exists>c. current s = Some (Inr c) \<and> conn_ok c (the_lib s)) \<and>
     (\<forall>i < length (ssh_servers s). i \<noteq> nat (current_ssh_index s) \<longrightarrow> idle_conn (ssh_servers s ! i))"

text \<open>Between a disconnection and the next connection every server is idle.\<close>

definition all_idle :: "'db control \<Rightarrow> bool" where
  "all_idle s \<longleftrightarrow> lib_ok (the_lib s) \<and> (\<forall>c\<in>set (ssh_servers s). idle_conn c)"

lemma current_iff:
  "current s = Some (Inr c) \<longleftrightarrow>
   0 \<le> current_ssh_index s \<and> nat (current_ssh_index s) < length (ssh_servers s) \<and>
   c = ssh_servers s ! nat (current_ssh_index s)"
  by (auto simp: current_def)

lemma current_put [simp]:
  "current s = Some (Inr c) \<Longrightarrow> current (put_current c' l s) = Some (Inr c')"
  by (simp add: current_iff)

lemma connect_lib_ok:
  assumes "connect e c l = Some (Inr (ch, c', l'))" and ok: "lib_ok l"
  shows "lib_ok l'"
proof -
  from assms obtain s pw l1 where cs: "connect_ssh (ssh_env.truncate e) (password c) l = Some (Inr (s, pw, l1))"
    by (auto simp: connect_def split: option.splits sum.splits)
  note cc = connect_ssh_cases [OF cs]
  show ?thesis
  proof (cases "s = Null")
    case True
    with assms cs have l': "l' = l1" by (auto simp: connect_def Let_def)
    from True cc(1) have "live_sessions l1 \<subseteq> live_sessions l" by auto
    with cc ok l' show ?thesis by (auto simp: lib_ok_def dest: less_le_trans)
  next
    case False
    with cc have s: "s = Ptr (next_handle l)" "live_sessions l1 = insert (next_handle l) (live_sessions l)"
      "live_channels l1 = live_channels l" "next_handle l1 = Suc (next_handle l)" by auto
    with assms cs show ?thesis
      by (auto simp: connect_def ssh_channel_new_def brutal_exception_def drop_channel_def drop_session_def
          ssh_channel_free_def ssh_free_def lib_ok_def less_Suc_eq Let_def split: if_splits)
  qed
qed

lemma connect_conn_ok:
  assumes "connect e c l = Some (Inr (ch, c', l'))" and ok: "lib_ok l" and idle: "idle_conn c"
  shows "conn_ok (c'\<lparr>conn_flag := (ch \<noteq> Null)\<rparr>) l'"
  using connect_effect [OF assms(1) ok] idle by (auto simp: conn_ok_def idle_conn_def) metis

lemma brutal_exception_ok:
  assumes "conn_ok c l" and "lib_ok l"
  shows "brutal_exception c l = Inl Use_of_uninitialised \<and> \<not> conn_flag c \<and> channel c = Uninit \<or>
    (\<exists>c' l'. brutal_exception c l = Inr (c', l') \<and> lib_ok l' \<and> session c' = Null \<and> channel c' = Null)"
  using assms
  by (cases "conn_flag c"; cases "channel c")
    (auto simp: conn_ok_def brutal_exception_def drop_channel_def drop_session_def ssh_channel_free_def
      ssh_free_def lib_ok_def)

lemma reconnect_ok:
  assumes ret: "reconnect e s = Some (Inr s')" and idle: "all_idle s"
  shows "ctl_ok s'"
proof -
  from ret obtain c ch c' l' where c: "current s = Some (Inr c)"
    and con: "connect e c (the_lib s) = Some (Inr (ch, c', l'))"
    and s': "s' = put_current (c'\<lparr>conn_flag := (ch \<noteq> Null)\<rparr>) l' s"
    by (auto simp: reconnect_def and_then_Inr)
  have "idle_conn c" using c idle by (auto simp: current_iff all_idle_def)
  with con idle have "conn_ok (c'\<lparr>conn_flag := (ch \<noteq> Null)\<rparr>) l'" "lib_ok l'"
    by (auto simp: all_idle_def intro: connect_conn_ok connect_lib_ok)
  with c idle show ?thesis
    by (auto simp: ctl_ok_def s' all_idle_def)
qed

lemma reconnect_fault:
  assumes "reconnect e s = Some (Inl f)" and "all_idle s"
  shows "f = Heap_overflow \<or> f = Out_of_bounds \<and>
    \<not> (0 \<le> current_ssh_index s \<and> nat (current_ssh_index s) < length (ssh_servers s))"
  using assms
  by (auto simp: reconnect_def and_then_Inl and_then_Inr current_def all_idle_def dest: connect_fault split: if_splits)

lemma drop_all_idle:
  assumes "ctl_ok s" and "session c = Null" and "channel c = Null" and "\<not> conn_flag c" and "lib_ok l"
  shows "all_idle (put_current c l s)"
proof -
  have "idle_conn ((ssh_servers s)[nat (current_ssh_index s) := c] ! i)" if "i < length (ssh_servers s)" for i
    using assms that by (cases "i = nat (current_ssh_index s)") (auto simp: ctl_ok_def idle_conn_def)
  with assms(5) show ?thesis by (auto simp: all_idle_def in_set_conv_nth)
qed

text \<open>The branches, from a state that satisfies the invariant.\<close>

lemma ctl_ok_world: "ctl_ok s \<Longrightarrow> ctl_ok (s\<lparr>world := w\<rparr>)"
  by (auto simp: ctl_ok_def current_iff)

lemma ctl_ok_keep: "ctl_ok s \<Longrightarrow> ctl_ok (s\<lparr>lastHandleKeepAlive := t\<rparr>)"
  by (auto simp: ctl_ok_def current_iff)

lemma all_idle_index: "all_idle s \<Longrightarrow> all_idle (s\<lparr>current_ssh_index := i\<rparr>)"
  by (simp add: all_idle_def)

lemma serve_switch_safe:
  assumes ok: "ctl_ok s" and c: "current s = Some (Inr c)" and conn: "conn_flag c"
  shows "case serve_switch e c s of None \<Rightarrow> True | Some (Inr s') \<Rightarrow> ctl_ok s'
    | Some (Inl f) \<Rightarrow> f = Heap_overflow \<or> f = Out_of_bounds \<and>
        \<not> (0 \<le> to_int (switch_ssh (world s)) \<and> nat (to_int (switch_ssh (world s))) < length (ssh_servers s))"
proof -
  have cok: "conn_ok c (the_lib s)" "lib_ok (the_lib s)" using ok c by (auto simp: ctl_ok_def)
  from brutal_exception_ok [OF this] conn obtain c1 l1 where
    b: "brutal_exception c (the_lib s) = Inr (c1, l1)" "lib_ok l1" "session c1 = Null" "channel c1 = Null" by auto
  let ?s2 = "(put_current (c1\<lparr>conn_flag := False\<rparr>) l1 s)\<lparr>current_ssh_index := to_int (switch_ssh (world s))\<rparr>"
  have idle: "all_idle ?s2"
    by (rule all_idle_index, rule drop_all_idle [OF ok]) (simp_all add: b)
  have eq: "serve_switch e c s = and_then (reconnect (ce_connect e) ?s2)
      (\<lambda>s3. Some (Inr (s3\<lparr>world := (world s3)\<lparr>switch_ssh := []\<rparr>\<rparr>)))"
    by (simp add: serve_switch_def b Let_def)
  show ?thesis
  proof (cases "reconnect (ce_connect e) ?s2")
    case (Some r)
    show ?thesis
    proof (cases r)
      case (Inl f)
      with Some reconnect_fault [OF _ idle, of "ce_connect e" f] eq show ?thesis by simp
    next
      case (Inr s3)
      with Some reconnect_ok [OF _ idle, of "ce_connect e" s3] eq show ?thesis by (simp add: ctl_ok_world)
    qed
  qed (simp add: eq)
qed

lemma exec_cmd_lib:
  assumes "exec_cmd e c l = Some (Inr (out, l'))" and "lib_ok l"
  shows "lib_ok l' \<and> live_sessions l' = live_sessions l \<and> live_channels l \<subseteq> live_channels l'"
proof -
  have "next_handle l \<notin> live_channels l" using assms(2) by (auto simp: lib_ok_def)
  with assms show ?thesis
    by (cases "session c")
      (auto simp: exec_cmd_def ssh_channel_new_def ssh_channel_free_def lib_ok_def less_Suc_eq Let_def
        split: if_splits option.splits exec_stop.splits read_result.splits)
qed

lemma exec_cmd_fault: "exec_cmd e c l = Some (Inl f) \<Longrightarrow> session c = Uninit"
  by (cases "session c")
    (auto simp: exec_cmd_def ssh_channel_new_def Let_def split: if_splits option.splits exec_stop.splits read_result.splits)

lemma serve_status_safe:
  assumes ok: "ctl_ok s" and c: "current s = Some (Inr c)"
  shows "case serve_status e c s of None \<Rightarrow> True | Some (Inr (_, s')) \<Rightarrow> ctl_ok s'
    | Some (Inl f) \<Rightarrow> f = Heap_overflow \<or> f = Use_of_uninitialised \<and> \<not> conn_flag c \<and> channel c = Uninit"
proof (cases "exec_cmd (ce_exec e) c (the_lib s)")
  case None
  then show ?thesis by (simp add: serve_status_def)
next
  case (Some r)
  have cok: "conn_ok c (the_lib s)" "lib_ok (the_lib s)" using ok c by (auto simp: ctl_ok_def)
  then have "session c \<noteq> Uninit" by (auto simp: conn_ok_def split: if_splits)
  then obtain out l1 where r: "r = Inr (out, l1)"
    using Some exec_cmd_fault by (cases r) auto
  note l1 = exec_cmd_lib [OF Some [unfolded r] cok(2)]
  have cok1: "conn_ok c l1" "lib_ok l1" using cok l1 by (auto simp: conn_ok_def split: if_splits)
  show ?thesis
  proof (cases "str_trim out = ''alive''")
    case True
    have "conn_flag c"
      using Some r True cok str_trim_neg1
      by (auto simp: exec_cmd_def ssh_channel_new_def conn_ok_def split: if_splits)
    then have "ctl_ok (put_current (c\<lparr>conn_flag := True\<rparr>) l1 s)"
      using ok c cok1 by (auto simp: ctl_ok_def conn_ok_def)
    with True show ?thesis by (simp add: serve_status_def Some r ctl_ok_world)
  next
    case False
    have same: "brutal_exception (c\<lparr>conn_flag := False\<rparr>) l1 =
        (case brutal_exception c l1 of Inl f \<Rightarrow> Inl f | Inr (c', l') \<Rightarrow> Inr (c'\<lparr>conn_flag := False\<rparr>, l'))"
      by (cases "channel c"; cases "session c") (auto simp: brutal_exception_def drop_channel_def drop_session_def)
    from brutal_exception_ok [OF cok1] show ?thesis
    proof (elim disjE exE conjE)
      assume "brutal_exception c l1 = Inl Use_of_uninitialised" "\<not> conn_flag c" "channel c = Uninit"
      then show ?thesis using False by (simp add: serve_status_def Some r same)
    next
      fix c2 l2 assume b: "brutal_exception c l1 = Inr (c2, l2)" "lib_ok l2" "session c2 = Null" "channel c2 = Null"
      let ?s2 = "put_current (c2\<lparr>conn_flag := False\<rparr>) l2 (put_current (c\<lparr>conn_flag := False\<rparr>) l1 s)"
      have eq2: "?s2 = put_current (c2\<lparr>conn_flag := False\<rparr>) l2 s" by (simp add: put_current_def)
      have idle: "all_idle ?s2"
        unfolding eq2 by (rule drop_all_idle [OF ok]) (simp_all add: b)
      have valid: "0 \<le> current_ssh_index ?s2 \<and> nat (current_ssh_index ?s2) < length (ssh_servers ?s2)"
        using c by (simp add: current_iff)
      have eq: "serve_status e c s = and_then (reconnect (ce_connect e) ?s2)
          (\<lambda>s2. Some (Inr ([Status (str_trim out)], s2\<lparr>world := (world s2)\<lparr>hp_1_status_req := False\<rparr>\<rparr>)))"
        using False b by (simp add: serve_status_def Some r same)
      show ?thesis
      proof (cases "reconnect (ce_connect e) ?s2")
        case (Some q)
        with reconnect_fault [OF _ idle, of "ce_connect e"] reconnect_ok [OF _ idle, of "ce_connect e"] valid eq
        show ?thesis by (cases q) (auto simp: ctl_ok_world)
      qed (simp add: eq)
    qed
  qed
qed

lemma live_ptr_connected:
  assumes "conn_ok c l" and "conn_flag c"
  shows "live_ptr (channel c) (live_channels l) = Inr True" "live_ptr (session c) (live_sessions l) = Inr True"
  using assms by (auto simp: conn_ok_def live_ptr_def)

text \<open>What an iteration from a good state may end in.\<close>

definition safe_outcome :: "'db control \<Rightarrow> ssh_conn \<Rightarrow> (ctl_act list \<times> 'db control) outcome \<Rightarrow> bool" where
  "safe_outcome s c r \<longleftrightarrow>
     (case r of
        None \<Rightarrow> True
      | Some (Inr (acts, s')) \<Rightarrow> ctl_ok s'
      | Some (Inl f) \<Rightarrow>
          f = Heap_overflow \<or>
          f = Out_of_bounds \<and> switch_ssh (world s) \<noteq> [] \<and>
            \<not> (0 \<le> to_int (switch_ssh (world s)) \<and> nat (to_int (switch_ssh (world s))) < length (ssh_servers s)) \<or>
          f = Use_of_uninitialised \<and> hp_1_status_req (world s) \<and> \<not> conn_flag c \<and> channel c = Uninit)"

lemma safe_then:
  assumes "safe_outcome s c m"
  shows "safe_outcome s c (and_then m (\<lambda>(acts, s'). Some (Inr (out @ acts, s'))))"
  using assms by (cases m) (auto simp: safe_outcome_def and_then_def split: sum.splits)

lemma branch_safe:
  assumes ok: "ctl_ok s" and c: "current s = Some (Inr c)"
  shows "safe_outcome s c (ctl_branch e c s)"
proof -
  have cok: "conn_ok c (the_lib s)" using ok c by (auto simp: ctl_ok_def)
  note live = live_ptr_connected [OF cok]
  have idle: "safe_outcome s c (serve_idle e c s)"
    using ok live by (auto simp: serve_idle_def keep_alive_def ctl_ok_keep safe_outcome_def)
  have cmd: "conn_flag c \<Longrightarrow> safe_outcome s c (serve_command c s)"
    using ok live by (auto simp: serve_command_def conn_write_def clear_command_def ctl_ok_world safe_outcome_def)
  have up: "safe_outcome s c (Some (Inr (serve_upload e s)))"
    using ok by (simp add: serve_upload_def ctl_ok_world safe_outcome_def split: prod.split)
  have down: "safe_outcome s c (serve_download e s)"
    using ok by (cases "scp_read (ce_pull e)")
      (auto simp: serve_download_def Let_def ctl_ok_world safe_outcome_def split: option.splits)
  have sw: "safe_outcome s c (and_then (serve_switch e c s) (\<lambda>s'. Some (Inr ([], s'))))"
    if "conn_flag c" "switch_ssh (world s) \<noteq> []"
    using serve_switch_safe [OF ok c that(1), of e] that
    by (cases "serve_switch e c s") (auto simp: safe_outcome_def and_then_def split: sum.splits)
  have st: "hp_1_status_req (world s) \<Longrightarrow> safe_outcome s c (serve_status e c s)"
    using serve_status_safe [OF ok c, of e]
    by (cases "serve_status e c s") (auto simp: safe_outcome_def split: sum.splits)
  show ?thesis
    unfolding ctl_branch_def using idle cmd up down sw st by (simp split: if_split)
qed

text \<open>
  C27: The control task's invariant. Only the current server holds library objects, and it holds
  a live session and channel exactly while \<open>conn\<close> is set. From such a state an iteration either
  does not return, or keeps the invariant, or meets one of three faults: the password block is
  too short for the clearing loop, the server to switch to does not exist, or a status request
  finds no connection and a channel pointer that was never assigned. No freed object is used.
\<close>

theorem control_invariant:
  assumes ok: "ctl_ok s" and c: "current s = Some (Inr c)"
  shows "case ctl_iter e s of
      None \<Rightarrow> True
    | Some (Inr (acts, s')) \<Rightarrow> ctl_ok s'
    | Some (Inl f) \<Rightarrow>
        f = Heap_overflow \<or>
        f = Out_of_bounds \<and> switch_ssh (world s) \<noteq> [] \<and>
          \<not> (0 \<le> to_int (switch_ssh (world s)) \<and> nat (to_int (switch_ssh (world s))) < length (ssh_servers s)) \<or>
        f = Use_of_uninitialised \<and> hp_1_status_req (world s) \<and> \<not> conn_flag c \<and> channel c = Uninit"
proof -
  have cok: "conn_ok c (the_lib s)" using ok c by (auto simp: ctl_ok_def)
  obtain out where out: "serve_read e c s = Some (Inr out)"
    using live_ptr_connected [OF cok]
    by (cases "conn_flag c"; cases "ce_open e") (auto simp: serve_read_def conn_read_def)
  have "safe_outcome s c (ctl_iter e s)"
    unfolding ctl_iter_def c out and_then_simps by (rule safe_then [OF branch_safe [OF ok c]])
  then show ?thesis by (simp only: safe_outcome_def)
qed

lemma control_invariant_witness:
  "ctl_ok demo_online \<and>
   (case ctl_iter demo_ctl_env demo_online of None \<Rightarrow> False | Some (Inl f) \<Rightarrow> False | Some (Inr (acts, s')) \<Rightarrow> ctl_ok s')"
proof -
  have ok: "ctl_ok demo_online"
    by (simp add: ctl_ok_def current_def conn_ok_def lib_ok_def demo_control_defs)
  have cur: "current demo_online = Some (Inr (ssh_servers demo_online ! 0))"
    by (simp add: current_def demo_control_defs)
  obtain acts s' where run: "ctl_iter demo_ctl_env demo_online = Some (Inr (acts, s'))"
    by (simp add: ctl_iter_def current_def serve_read_def conn_read_def live_ptr_def ctl_branch_def serve_idle_def
        demo_control_defs)
  from control_invariant [OF ok cur, of demo_ctl_env] ok run show ?thesis by simp
qed

section \<open>The race on the terminal command\<close>

text \<open>
  The websocket's task assigns \<open>ssh_command\<close> while the control task tests, writes and then
  clears it: the write and the clearing are two steps. \<open>sent\<close> are the messages received from
  the browser, \<open>written\<close> what went to the shell.
\<close>

datatype race_pc = Testing | Clearing

record 'db race =
  ctl :: "'db control"
  pc :: race_pc
  sent :: "string list"
  written :: "string list"

inductive race_step :: "'db race \<Rightarrow> 'db race \<Rightarrow> bool" where
  browser: "heap (world (ctl r)) h = Some SSHHandler \<Longrightarrow>
     race_step r (r\<lparr>ctl := (ctl r)\<lparr>world := ws_onMessage h msg (world (ctl r))\<rparr>, sent := sent r @ [c_str msg]\<rparr>)"
| shell_write: "pc r = Testing \<Longrightarrow> ssh_command (world (ctl r)) \<noteq> [] \<Longrightarrow> current (ctl r) = Some (Inr c) \<Longrightarrow> conn_flag c \<Longrightarrow>
     conn_write (ssh_command (world (ctl r))) c (the_lib (ctl r)) = Some (Inr [Wrote s]) \<Longrightarrow>
     race_step r (r\<lparr>pc := Clearing, written := written r @ [s]\<rparr>)"
| clear: "pc r = Clearing \<Longrightarrow> race_step r (r\<lparr>pc := Testing, ctl := clear_command (ctl r)\<rparr>)"

definition race_start :: "'db race \<Rightarrow> bool" where
  "race_start r \<longleftrightarrow> pc r = Testing \<and> sent r = [] \<and> written r = [] \<and> ssh_command (world (ctl r)) = []"

definition race_inv :: "'db race \<Rightarrow> bool" where
  "race_inv r \<longleftrightarrow> subseq (written r) (sent r) \<and>
     (pc r = Testing \<and> ssh_command (world (ctl r)) \<noteq> [] \<longrightarrow>
       subseq (written r @ [ssh_command (world (ctl r))]) (sent r))"

lemma subseq_snoc: "subseq xs ys \<Longrightarrow> subseq xs (ys @ [y])"
  using list_emb_append_mono [of "(=)" xs ys "[]" "[y]"] by simp

lemma race_step_inv:
  assumes "race_step r r'" and "race_inv r"
  shows "race_inv r'"
  using assms(1)
proof cases
  case (browser h msg)
  then show ?thesis
    using assms(2) by (auto simp: race_inv_def ws_onMessage_def subseq_snoc list_emb_append_mono)
next
  case (shell_write c s)
  then have "s = ssh_command (world (ctl r))"
    by (auto simp: conn_write_def and_then_Inr split: if_splits)
  with shell_write assms(2) show ?thesis by (auto simp: race_inv_def)
next
  case clear
  then show ?thesis using assms(2) by (auto simp: race_inv_def clear_command_def)
qed

interpretation race: step_system race_start race_step race_inv
proof
  show "race_start r \<Longrightarrow> race_inv r" for r :: "'a race"
    by (simp add: race_start_def race_inv_def)
qed (rule race_step_inv)

text \<open>
  Terminal input is never invented, repeated or reordered. However the websocket's task and
  the control task interleave, the commands written to the shell are a subsequence of the
  messages the browser sent.
\<close>

theorem terminal_input_in_order:
  assumes "reach race_start race_step r"
  shows "subseq (written r) (sent r)"
  using race.reach_inv [OF assms] by (simp add: race_inv_def)

definition demo_race :: "unit race" where
  "demo_race = \<lparr>ctl = demo_online, pc = Testing, sent = [], written = []\<rparr>"

text \<open>Two messages, the second between the write and the clearing of the first.\<close>

definition demo_lost :: "unit race" where
  "demo_lost = \<lparr>ctl = demo_online, pc = Testing, sent = [''ls'', ''pwd''], written = [''ls'']\<rparr>"

lemma demo_lost_reachable: "reach race_start race_step demo_lost"
proof -
  let ?cmd = "\<lambda>c. demo_online\<lparr>world := demo_world\<lparr>ssh_command := c\<rparr>\<rparr>"
  let ?r1 = "\<lparr>ctl = ?cmd ''ls'', pc = Testing, sent = [''ls''], written = []\<rparr>"
  let ?r2 = "\<lparr>ctl = ?cmd ''ls'', pc = Clearing, sent = [''ls''], written = [''ls'']\<rparr>"
  let ?r3 = "\<lparr>ctl = ?cmd ''pwd'', pc = Clearing, sent = [''ls'', ''pwd''], written = [''ls'']\<rparr>"
  have "reach race_start race_step demo_race"
    by (rule reach_start) (simp add: race_start_def demo_race_def demo_control_defs)
  moreover have "race_step demo_race ?r1"
    using race_step.browser [of demo_race 0 "''ls''"]
    by (simp add: demo_race_def ws_onMessage_def demo_control_defs c_str_def)
  ultimately have "reach race_start race_step ?r1" by (rule reach_step)
  moreover have "race_step ?r1 ?r2"
    using race_step.shell_write [of ?r1 "ssh_servers demo_online ! 0" "''ls''"]
    by (simp add: current_def conn_write_def live_ptr_def demo_control_defs)
  ultimately have "reach race_start race_step ?r2" by (rule reach_step)
  moreover have "race_step ?r2 ?r3"
    using race_step.browser [of ?r2 0 "''pwd''"]
    by (simp add: ws_onMessage_def demo_control_defs c_str_def)
  ultimately have "reach race_start race_step ?r3" by (rule reach_step)
  moreover have "race_step ?r3 demo_lost"
    using race_step.clear [of ?r3] by (simp add: demo_lost_def clear_command_def demo_control_defs)
  ultimately show ?thesis by (rule reach_step)
qed

lemma terminal_input_in_order_witness: "subseq (written demo_lost) (sent demo_lost) \<and> written demo_lost = [''ls'']"
  using terminal_input_in_order [OF demo_lost_reachable] by (simp add: demo_lost_def)

text \<open>
  Terminal input can be lost. A message that arrives after the previous one was written to
  the shell and before \<open>ssh_command\<close> is cleared disappears: a state is reachable in which the
  browser has sent two commands, one was written, and nothing is pending any more.
\<close>

theorem terminal_input_lost:
  "\<exists>r :: unit race. reach race_start race_step r \<and> sent r = [''ls'', ''pwd''] \<and> written r = [''ls''] \<and>
     pc r = Testing \<and> pending (world (ctl r)) = []"
proof (intro exI conjI)
  show "reach race_start race_step demo_lost" by (rule demo_lost_reachable)
qed (simp_all add: demo_lost_def pending_def demo_control_defs)

end
