(* ===== verification/Device_Main.thy ===== *)
theory Device_Main
  imports Ssh_Conn Ws_Clients Http_Headers
begin

text \<open>
  The rest of \<open>src/main.cpp\<close>: the part of \<open>setup\<close> that reads the SSH servers from
  \<open>/data/ssh_settings.csv\<close>, the tachometer's interrupt routine, and \<open>loop\<close>, which turns
  pulses into revolutions per minute and sends them to the fan's websocket clients.
\<close>

section \<open>The settings file\<close>

text \<open>\<open>readStringUntil('\<close>\<open>n')\<close> while characters are available.\<close>

function read_lines :: "string \<Rightarrow> string list" where
  "read_lines s =
     (if s = [] then []
      else takeWhile (\<lambda>c. c \<noteq> CHR 0x0A) s # read_lines (drop 1 (dropWhile (\<lambda>c. c \<noteq> CHR 0x0A) s)))"
  by pat_completeness auto
termination
proof (relation "measure length")
  fix s :: string
  assume "s \<noteq> []"
  then show "(drop 1 (dropWhile (\<lambda>c. c \<noteq> CHR 0x0A) s), s) \<in> measure length"
    using length_dropWhile_le [of "\<lambda>c. c \<noteq> CHR 0x0A" s] by (cases s) (auto simp: le_less_Suc_eq less_Suc_eq_le)
qed simp

declare read_lines.simps [simp del]

text \<open>One line: the characters before the first comma, between the first two, and after the
  second. Without a comma \<open>indexOf\<close> is -1 and every field is the whole line.\<close>

definition parse_server :: "string \<Rightarrow> string \<times> string \<times> string" where
  "parse_server line =
     (let firstComma = index_of line (CHR '','');
          secondComma = index_of_from line (CHR '','') (firstComma + 1);
          ip = substring line 0 firstComma;
          user = substring line (firstComma + 1) secondComma;
          pass = substring_from line (secondComma + 1)
      in (str_trim ip, str_trim user, str_trim pass))"

fun load_servers :: "string list \<Rightarrow> ssh_conn list" where
  "load_servers [] = []"
| "load_servers (raw # rest) =
     (let line = str_trim raw in
      if length line = 0 then load_servers rest
      else (let (ip, user, pass) = parse_server line
            in new_ssh_conn (c_str ip) (c_str user) (c_str pass) # load_servers rest))"

definition setup_servers :: "string option \<Rightarrow> ssh_conn list" where
  "setup_servers csv = load_servers (read_lines (case csv of None \<Rightarrow> [] | Some s \<Rightarrow> s))"

section \<open>The fan\<close>

record tach =
  tachPulseCount :: u32
  lastTachTime :: u32

definition TACH_SAMPLE_TIME :: u32 where "TACH_SAMPLE_TIME = 1000"

definition tachISR :: "tach \<Rightarrow> tach" where
  "tachISR t = t\<lparr>tachPulseCount := tachPulseCount t + 1\<rparr>"

datatype loop_act = Fan_taken "(handler \<times> string) list" | Fan_not_taken | Fan_mutex_given

text \<open>
  One call of \<open>loop\<close>: \<open>now\<close> and \<open>later\<close> are the two readings of the clock, \<open>n\<close> the pulses that
  arrive between the calculation and the reset.
\<close>

definition rpm_of :: "u32 \<Rightarrow> u32" where
  "rpm_of pulses = (pulses * 60000) div (TACH_SAMPLE_TIME * 2)"

definition fan_loop :: "u32 \<Rightarrow> u32 \<Rightarrow> bool \<Rightarrow> slots \<Rightarrow> tach \<Rightarrow> loop_act list \<times> tach" where
  "fan_loop now later took cs t =
     (if TACH_SAMPLE_TIME \<le> now - lastTachTime t then
        (let rpm = rpm_of (tachPulseCount t);
             t' = t\<lparr>tachPulseCount := 0, lastTachTime := later\<rparr>
         in if took then ([Fan_taken (broadcast True cs (intToString (unat rpm))), Fan_mutex_given], t')
            else ([Fan_not_taken, Fan_mutex_given], t'))
      else ([], t))"

section \<open>Facts\<close>

definition trimmed :: "string \<Rightarrow> bool" where
  "trimmed s \<longleftrightarrow> s = [] \<or> \<not> is_space (hd s) \<and> \<not> is_space (last s)"

lemma str_trim_trimmed: "trimmed s \<Longrightarrow> str_trim s = s"
proof -
  assume t: "trimmed s"
  show "str_trim s = s"
  proof (cases "s = []")
    case False
    with t have "dropWhile is_space s = s" "dropWhile is_space (rev s) = rev s"
      by (auto simp: trimmed_def dropWhile_eq_self_iff hd_rev)
    then show ?thesis by (simp add: str_trim_def)
  qed (simp add: str_trim_def)
qed

lemma find_index_append: "\<forall>x\<in>set xs. \<not> P x \<Longrightarrow> P y \<Longrightarrow> find_index P (xs @ y # ys) = Some (length xs)"
  by (induction xs) auto

text \<open>A server's entry in the file.\<close>

definition entry_ok :: "string \<times> string \<times> string \<Rightarrow> bool" where
  "entry_ok e \<longleftrightarrow> (case e of (h, u, p) \<Rightarrow>
     trimmed h \<and> trimmed u \<and> trimmed p \<and> CHR '','' \<notin> set h \<and> CHR '','' \<notin> set u \<and>
     (\<forall>s\<in>{h, u, p}. CHR 0x0A \<notin> set s \<and> CHR 0x00 \<notin> set s) \<and> length h + length u + length p + 2 < 2 ^ 31)"

definition entry_line :: "string \<times> string \<times> string \<Rightarrow> string" where
  "entry_line e = (case e of (h, u, p) \<Rightarrow> h @ '','' @ u @ '','' @ p)"

lemma parse_entry:
  assumes "entry_ok e"
  shows "parse_server (entry_line e) = e"
proof -
  obtain h u p where e: "e = (h, u, p)" by (cases e)
  let ?l = "h @ CHR '','' # u @ CHR '','' # p"
  have len: "length h + length u + length p + 2 < 2 ^ 31" and nc: "CHR '','' \<notin> set h" "CHR '','' \<notin> set u"
    using assms by (auto simp: entry_ok_def e)
  have fi: "find_index (\<lambda>x. x = CHR '','') ?l = Some (length h)"
    "find_index (\<lambda>x. x = CHR '','') (u @ CHR '','' # p) = Some (length u)"
    using nc by (auto intro!: find_index_append)
  have u1: "uint32 (int (length h) + 1) = Suc (length h)" "uint32 (int (length h)) = length h"
    "uint32 (int (length h) + 1 + int (length u)) = Suc (length h + length u)"
    "uint32 (int (length h) + 1 + int (length u) + 1) = Suc (Suc (length h + length u))"
    "uint32 (str_len ?l) = length ?l" "uint32 0 = 0"
    using len by (simp_all add: uint32_def str_len_def nat_eq_iff)
  have first: "index_of ?l (CHR '','') = int (length h)"
    unfolding index_of_def index_of_from_def Let_def u1 drop_0 fi by simp
  have second: "index_of_from ?l (CHR '','') (int (length h) + 1) = int (length h) + 1 + int (length u)"
    using fi(2) unfolding index_of_from_def Let_def u1 by simp
  have ip: "substring ?l 0 (int (length h)) = h"
    unfolding substring_def Let_def u1 by simp
  have user: "substring ?l (int (length h) + 1) (int (length h) + 1 + int (length u)) = u"
    unfolding substring_def Let_def u1 by simp
  have pass: "substring_from ?l (int (length h) + 1 + int (length u) + 1) = p"
    unfolding substring_from_def substring_def Let_def u1 by simp
  have "entry_line e = ?l" by (simp add: e entry_line_def)
  with first second ip user pass assms show ?thesis
    by (simp add: parse_server_def Let_def e entry_ok_def str_trim_trimmed)
qed

lemma entry_line_trimmed: "entry_ok e \<Longrightarrow> trimmed (entry_line e)"
proof -
  assume ok: "entry_ok e"
  obtain h u p where e: "e = (h, u, p)" by (cases e)
  have sp: "\<not> is_space (CHR '','')" by (simp add: is_space_def)
  show ?thesis
    using ok sp by (cases "h = []"; cases "p = []") (auto simp: e entry_ok_def entry_line_def trimmed_def)
qed

lemma read_lines_cons:
  "CHR 0x0A \<notin> set l \<Longrightarrow> read_lines (l @ CHR 0x0A # rest) = l # read_lines rest"
  by (subst read_lines.simps) (simp add: takeWhile_append dropWhile_append takeWhile_eq_all_conv [THEN iffD2])

text \<open>
  The settings file is read back as written. A file with one line per server, the fields
  separated by commas, gives the servers in the order of the lines with exactly those fields;
  a comma in a password is part of the password.
\<close>

theorem settings_roundtrip:
  assumes "\<forall>e\<in>set es. entry_ok e"
  shows "setup_servers (Some (concat (map (\<lambda>e. entry_line e @ [CHR 0x0A]) es))) =
    map (\<lambda>(h, u, p). new_ssh_conn h u p) es"
  using assms
proof (induction es)
  case Nil
  then show ?case by (simp add: setup_servers_def read_lines.simps)
next
  case (Cons e es)
  obtain h u p where e: "e = (h, u, p)" by (cases e)
  have ok: "entry_ok e" using Cons.prems by simp
  then have nl: "CHR 0x0A \<notin> set (entry_line e)" by (auto simp: e entry_ok_def entry_line_def)
  have ne: "entry_line e \<noteq> []" by (simp add: e entry_line_def)
  have nul: "c_str h = h" "c_str u = u" "c_str p = p" using ok by (auto simp: e entry_ok_def)
  show ?case
    using Cons parse_entry [OF ok] str_trim_trimmed [OF entry_line_trimmed [OF ok]] ne nul
    by (simp add: setup_servers_def read_lines_cons [OF nl [unfolded e]] e)
qed

lemma settings_roundtrip_witness:
  "setup_servers (Some (concat (map (\<lambda>e. entry_line e @ [CHR 0x0A])
      [(''10.0.0.2'', ''root'', ''a,b''), (''10.0.0.3'', ''pi'', ''x'')]))) =
    map (\<lambda>(h, u, p). new_ssh_conn h u p) [(''10.0.0.2'', ''root'', ''a,b''), (''10.0.0.3'', ''pi'', ''x'')]"
  by (rule settings_roundtrip) (simp add: entry_ok_def trimmed_def is_space_def)

text \<open>
  The fan's speed is right up to 71582 pulses a sample, thirty revolutions a minute for
  every pulse, and the sample starts again from zero; beyond that the 32-bit product wraps.
  The mutex is given back whether or not it was taken.
\<close>

theorem fan_speed:
  assumes "TACH_SAMPLE_TIME \<le> now - lastTachTime t"
  shows "tachPulseCount (snd (fan_loop now later took cs t)) = 0 \<and>
    lastTachTime (snd (fan_loop now later took cs t)) = later \<and>
    Fan_mutex_given \<in> set (fst (fan_loop now later took cs t)) \<and>
    (unat (tachPulseCount t) \<le> 71582 \<longrightarrow> took \<longrightarrow>
       fst (fan_loop now later took cs t) =
         [Fan_taken (broadcast True cs (intToString (30 * unat (tachPulseCount t)))), Fan_mutex_given])"
proof -
  have "unat (rpm_of p) = 30 * unat p" if "unat p \<le> 71582" for p :: u32
    using that by (simp add: rpm_of_def TACH_SAMPLE_TIME_def unat_div unat_word_ariths)
  with assms show ?thesis by (simp add: fan_loop_def Let_def)
qed

lemma fan_speed_witness:
  "fst (fan_loop 1000 1001 True (claim_slot 7 empty_slots) \<lparr>tachPulseCount = 40, lastTachTime = 0\<rparr>) =
     [Fan_taken (broadcast True (claim_slot 7 empty_slots) (intToString 1200)), Fan_mutex_given]"
  using fan_speed [of 1000 "\<lparr>tachPulseCount = 40, lastTachTime = 0\<rparr>" 1001 True "claim_slot 7 empty_slots"]
  by (simp add: TACH_SAMPLE_TIME_def)

end
