(* ===== verification/Packet_Filter.thy ===== *)
theory Packet_Filter
  imports Prelude
begin

text \<open>
  The filter of incoming packets of the SSH library (\<open>packet.c\<close>): which message types a
  session accepts in which state. \<open>ssh_packet_incoming_filter\<close> is one switch over the type; the
  groups of its cases are separate functions here, in the order of the source. A table of
  what each message requires, written independently, is the specification.
\<close>

section \<open>The session's states\<close>

datatype session_state =
    SSH_SESSION_STATE_NONE | SSH_SESSION_STATE_CONNECTING | SSH_SESSION_STATE_SOCKET_CONNECTED
  | SSH_SESSION_STATE_BANNER_RECEIVED | SSH_SESSION_STATE_INITIAL_KEX | SSH_SESSION_STATE_KEXINIT_RECEIVED
  | SSH_SESSION_STATE_DH | SSH_SESSION_STATE_AUTHENTICATING | SSH_SESSION_STATE_AUTHENTICATED
  | SSH_SESSION_STATE_ERROR | SSH_SESSION_STATE_DISCONNECTED

datatype dh_state =
    DH_STATE_INIT | DH_STATE_GROUP_SENT | DH_STATE_REQUEST_SENT | DH_STATE_INIT_SENT
  | DH_STATE_NEWKEYS_SENT | DH_STATE_FINISHED

datatype auth_state =
    SSH_AUTH_STATE_NONE | SSH_AUTH_STATE_PARTIAL | SSH_AUTH_STATE_SUCCESS | SSH_AUTH_STATE_FAILED
  | SSH_AUTH_STATE_ERROR | SSH_AUTH_STATE_INFO | SSH_AUTH_STATE_PK_OK | SSH_AUTH_STATE_KBDINT_SENT
  | SSH_AUTH_STATE_GSSAPI_REQUEST_SENT | SSH_AUTH_STATE_GSSAPI_TOKEN | SSH_AUTH_STATE_GSSAPI_MIC_SENT
  | SSH_AUTH_STATE_PUBKEY_OFFER_SENT | SSH_AUTH_STATE_PUBKEY_AUTH_SENT
  | SSH_AUTH_STATE_PASSWORD_AUTH_SENT | SSH_AUTH_STATE_AUTH_NONE_SENT

datatype auth_service_state =
  SSH_AUTH_SERVICE_NONE | SSH_AUTH_SERVICE_SENT | SSH_AUTH_SERVICE_ACCEPTED | SSH_AUTH_SERVICE_DENIED

datatype packet_filter_result = SSH_PACKET_UNKNOWN | SSH_PACKET_ALLOWED | SSH_PACKET_DENIED

text \<open>The fields of a session the filter reads.\<close>

record filter_session =
  client :: bool
  server :: bool
  session_state :: session_state
  dh_handshake_state :: dh_state
  auth_service_state :: auth_service_state
  auth_state :: auth_state

abbreviation (input) allow_if :: "bool \<Rightarrow> packet_filter_result" where
  "allow_if b \<equiv> (if b then SSH_PACKET_ALLOWED else SSH_PACKET_DENIED)"

section \<open>The cases of the switch\<close>

text \<open>Types 1 to 7.\<close>

definition filter_transport :: "byte \<Rightarrow> ('z) filter_session_scheme \<Rightarrow> packet_filter_result" where
  "filter_transport t s =
     (if t = 1 \<or> t = 2 \<or> t = 3 \<or> t = 4 then SSH_PACKET_ALLOWED
      else if t = 5 then
        (if client s then SSH_PACKET_DENIED
         else if session_state s \<noteq> SSH_SESSION_STATE_AUTHENTICATING \<and>
                 session_state s \<noteq> SSH_SESSION_STATE_AUTHENTICATED then SSH_PACKET_DENIED
         else if dh_handshake_state s \<noteq> DH_STATE_FINISHED then SSH_PACKET_DENIED
         else SSH_PACKET_ALLOWED)
      else if t = 6 then
        (if session_state s \<noteq> SSH_SESSION_STATE_AUTHENTICATING \<and>
            session_state s \<noteq> SSH_SESSION_STATE_AUTHENTICATED then SSH_PACKET_DENIED
         else if dh_handshake_state s \<noteq> DH_STATE_FINISHED then SSH_PACKET_DENIED
         else if auth_service_state s \<noteq> SSH_AUTH_SERVICE_SENT then SSH_PACKET_DENIED
         else SSH_PACKET_ALLOWED)
      else \<comment> \<open>7\<close>
        (if session_state s \<noteq> SSH_SESSION_STATE_AUTHENTICATING \<and>
            session_state s \<noteq> SSH_SESSION_STATE_AUTHENTICATED then SSH_PACKET_DENIED
         else if dh_handshake_state s \<noteq> DH_STATE_FINISHED then SSH_PACKET_DENIED
         else SSH_PACKET_ALLOWED))"

text \<open>Types 20, 21 and 30.\<close>

definition filter_kex :: "byte \<Rightarrow> ('z) filter_session_scheme \<Rightarrow> packet_filter_result" where
  "filter_kex t s =
     (if t = 20 then
        (if session_state s \<noteq> SSH_SESSION_STATE_AUTHENTICATED \<and>
            session_state s \<noteq> SSH_SESSION_STATE_INITIAL_KEX then SSH_PACKET_DENIED
         else if dh_handshake_state s \<noteq> DH_STATE_INIT \<and> dh_handshake_state s \<noteq> DH_STATE_INIT_SENT \<and>
                 dh_handshake_state s \<noteq> DH_STATE_REQUEST_SENT \<and> dh_handshake_state s \<noteq> DH_STATE_FINISHED
         then SSH_PACKET_DENIED
         else SSH_PACKET_ALLOWED)
      else if t = 21 then
        (if session_state s \<noteq> SSH_SESSION_STATE_DH then SSH_PACKET_DENIED
         else if dh_handshake_state s \<noteq> DH_STATE_NEWKEYS_SENT then SSH_PACKET_DENIED
         else SSH_PACKET_ALLOWED)
      else \<comment> \<open>30\<close>
        (if client s then SSH_PACKET_DENIED
         else if session_state s \<noteq> SSH_SESSION_STATE_DH then SSH_PACKET_DENIED
         else if dh_handshake_state s \<noteq> DH_STATE_INIT then SSH_PACKET_DENIED
         else SSH_PACKET_ALLOWED))"

text \<open>Types 31 to 34.\<close>

definition filter_kex_exchange :: "byte \<Rightarrow> ('z) filter_session_scheme \<Rightarrow> packet_filter_result" where
  "filter_kex_exchange t s =
     (if t = 31 then
        (if server s then SSH_PACKET_DENIED
         else if session_state s \<noteq> SSH_SESSION_STATE_DH then SSH_PACKET_DENIED
         else if dh_handshake_state s \<noteq> DH_STATE_INIT_SENT \<and> dh_handshake_state s \<noteq> DH_STATE_REQUEST_SENT
         then SSH_PACKET_DENIED
         else SSH_PACKET_ALLOWED)
      else if t = 32 then
        (if client s then SSH_PACKET_DENIED
         else if session_state s \<noteq> SSH_SESSION_STATE_DH then SSH_PACKET_DENIED
         else if dh_handshake_state s \<noteq> DH_STATE_GROUP_SENT then SSH_PACKET_DENIED
         else SSH_PACKET_ALLOWED)
      else if t = 33 then
        (if server s then SSH_PACKET_DENIED
         else if session_state s \<noteq> SSH_SESSION_STATE_DH then SSH_PACKET_DENIED
         else if dh_handshake_state s \<noteq> DH_STATE_INIT_SENT then SSH_PACKET_DENIED
         else SSH_PACKET_ALLOWED)
      else \<comment> \<open>34\<close>
        (if client s then SSH_PACKET_DENIED
         else if session_state s \<noteq> SSH_SESSION_STATE_DH then SSH_PACKET_DENIED
         else if dh_handshake_state s \<noteq> DH_STATE_INIT then SSH_PACKET_DENIED
         else SSH_PACKET_ALLOWED))"

text \<open>Types 50 to 53.\<close>

definition filter_userauth :: "byte \<Rightarrow> ('z) filter_session_scheme \<Rightarrow> packet_filter_result" where
  "filter_userauth t s =
     (if t = 50 then
        (if client s then SSH_PACKET_DENIED
         else if dh_handshake_state s \<noteq> DH_STATE_FINISHED then SSH_PACKET_DENIED
         else if session_state s \<noteq> SSH_SESSION_STATE_AUTHENTICATING then SSH_PACKET_DENIED
         else SSH_PACKET_ALLOWED)
      else if t = 51 then
        (if server s then SSH_PACKET_DENIED
         else if dh_handshake_state s \<noteq> DH_STATE_FINISHED then SSH_PACKET_DENIED
         else if session_state s \<noteq> SSH_SESSION_STATE_AUTHENTICATING then SSH_PACKET_DENIED
         else SSH_PACKET_ALLOWED)
      else if t = 52 then
        (if server s then SSH_PACKET_DENIED
         else if dh_handshake_state s \<noteq> DH_STATE_FINISHED then SSH_PACKET_DENIED
         else if session_state s \<noteq> SSH_SESSION_STATE_AUTHENTICATING then SSH_PACKET_DENIED
         else if auth_state s \<noteq> SSH_AUTH_STATE_KBDINT_SENT \<and> auth_state s \<noteq> SSH_AUTH_STATE_PUBKEY_AUTH_SENT \<and>
                 auth_state s \<noteq> SSH_AUTH_STATE_PASSWORD_AUTH_SENT \<and> auth_state s \<noteq> SSH_AUTH_STATE_GSSAPI_MIC_SENT \<and>
                 auth_state s \<noteq> SSH_AUTH_STATE_AUTH_NONE_SENT then SSH_PACKET_DENIED
         else SSH_PACKET_ALLOWED)
      else \<comment> \<open>53\<close>
        (if session_state s \<noteq> SSH_SESSION_STATE_AUTHENTICATING then SSH_PACKET_DENIED else SSH_PACKET_ALLOWED))"

text \<open>Types 60, 61 and 63 to 66.\<close>

definition filter_userauth_method :: "byte \<Rightarrow> ('z) filter_session_scheme \<Rightarrow> packet_filter_result" where
  "filter_userauth_method t s =
     (if t = 60 then
        (if session_state s \<noteq> SSH_SESSION_STATE_AUTHENTICATING then SSH_PACKET_DENIED
         else if auth_state s \<noteq> SSH_AUTH_STATE_KBDINT_SENT \<and> auth_state s \<noteq> SSH_AUTH_STATE_PUBKEY_OFFER_SENT \<and>
                 auth_state s \<noteq> SSH_AUTH_STATE_GSSAPI_REQUEST_SENT then SSH_PACKET_DENIED
         else SSH_PACKET_ALLOWED)
      else if t = 61 then
        (if session_state s \<noteq> SSH_SESSION_STATE_AUTHENTICATING then SSH_PACKET_DENIED
         else if auth_state s \<noteq> SSH_AUTH_STATE_INFO \<and> auth_state s \<noteq> SSH_AUTH_STATE_GSSAPI_TOKEN
         then SSH_PACKET_DENIED
         else SSH_PACKET_ALLOWED)
      else if t = 63 \<or> t = 64 \<or> t = 65 then SSH_PACKET_ALLOWED
      else \<comment> \<open>66\<close>
        (if client s then SSH_PACKET_DENIED
         else if dh_handshake_state s \<noteq> DH_STATE_FINISHED then SSH_PACKET_DENIED
         else if session_state s \<noteq> SSH_SESSION_STATE_AUTHENTICATING then SSH_PACKET_DENIED
         else SSH_PACKET_ALLOWED))"

text \<open>Types 80 to 82, 90 to 95 and 96 to 100: every case is the same test.\<close>

definition filter_global :: "('z) filter_session_scheme \<Rightarrow> packet_filter_result" where
  "filter_global s =
     (if session_state s \<noteq> SSH_SESSION_STATE_AUTHENTICATED then SSH_PACKET_DENIED else SSH_PACKET_ALLOWED)"

definition filter_channel :: "('z) filter_session_scheme \<Rightarrow> packet_filter_result" where
  "filter_channel s =
     (if session_state s \<noteq> SSH_SESSION_STATE_AUTHENTICATED then SSH_PACKET_DENIED else SSH_PACKET_ALLOWED)"

definition filter_channel_end :: "('z) filter_session_scheme \<Rightarrow> packet_filter_result" where
  "filter_channel_end s =
     (if session_state s \<noteq> SSH_SESSION_STATE_AUTHENTICATED then SSH_PACKET_DENIED else SSH_PACKET_ALLOWED)"

definition ssh_packet_incoming_filter :: "byte \<Rightarrow> ('z) filter_session_scheme \<Rightarrow> packet_filter_result" where
  "ssh_packet_incoming_filter t s =
     (if t \<in> {1, 2, 3, 4, 5, 6, 7} then filter_transport t s
      else if t \<in> {20, 21, 30} then filter_kex t s
      else if t \<in> {31, 32, 33, 34} then filter_kex_exchange t s
      else if t \<in> {50, 51, 52, 53} then filter_userauth t s
      else if t \<in> {60, 61, 63, 64, 65, 66} then filter_userauth_method t s
      else if t \<in> {80, 81, 82} then filter_global s
      else if t \<in> {90, 91, 92, 93, 94, 95} then filter_channel s
      else if t \<in> {96, 97, 98, 99, 100} then filter_channel_end s
      else SSH_PACKET_UNKNOWN)"

section \<open>The specification\<close>

text \<open>What a message requires: of the role, the session, the key exchange, the authentication.\<close>

definition role_ok :: "byte \<Rightarrow> ('z) filter_session_scheme \<Rightarrow> bool" where
  "role_ok t s \<longleftrightarrow> (t \<in> {5, 30, 32, 34, 50, 66} \<longrightarrow> \<not> client s) \<and> (t \<in> {31, 33, 51, 52} \<longrightarrow> \<not> server s)"

definition phase_ok :: "byte \<Rightarrow> session_state \<Rightarrow> bool" where
  "phase_ok t st \<longleftrightarrow>
     (t \<in> {5, 6, 7} \<longrightarrow> st \<in> {SSH_SESSION_STATE_AUTHENTICATING, SSH_SESSION_STATE_AUTHENTICATED}) \<and>
     (t = 20 \<longrightarrow> st \<in> {SSH_SESSION_STATE_INITIAL_KEX, SSH_SESSION_STATE_AUTHENTICATED}) \<and>
     (t \<in> {21, 30, 31, 32, 33, 34} \<longrightarrow> st = SSH_SESSION_STATE_DH) \<and>
     (t \<in> {50, 51, 52, 53, 60, 61, 66} \<longrightarrow> st = SSH_SESSION_STATE_AUTHENTICATING) \<and>
     (t \<in> {80, 81, 82, 90, 91, 92, 93, 94, 95, 96, 97, 98, 99, 100} \<longrightarrow> st = SSH_SESSION_STATE_AUTHENTICATED)"

definition kex_ok :: "byte \<Rightarrow> dh_state \<Rightarrow> bool" where
  "kex_ok t d \<longleftrightarrow>
     (t \<in> {5, 6, 7, 50, 51, 52, 66} \<longrightarrow> d = DH_STATE_FINISHED) \<and>
     (t = 20 \<longrightarrow> d \<notin> {DH_STATE_GROUP_SENT, DH_STATE_NEWKEYS_SENT}) \<and>
     (t = 21 \<longrightarrow> d = DH_STATE_NEWKEYS_SENT) \<and>
     (t \<in> {30, 34} \<longrightarrow> d = DH_STATE_INIT) \<and>
     (t = 31 \<longrightarrow> d \<in> {DH_STATE_INIT_SENT, DH_STATE_REQUEST_SENT}) \<and>
     (t = 32 \<longrightarrow> d = DH_STATE_GROUP_SENT) \<and>
     (t = 33 \<longrightarrow> d = DH_STATE_INIT_SENT)"

definition login_ok :: "byte \<Rightarrow> auth_service_state \<Rightarrow> auth_state \<Rightarrow> bool" where
  "login_ok t v a \<longleftrightarrow>
     (t = 6 \<longrightarrow> v = SSH_AUTH_SERVICE_SENT) \<and>
     (t = 52 \<longrightarrow> a \<in> {SSH_AUTH_STATE_KBDINT_SENT, SSH_AUTH_STATE_PUBKEY_AUTH_SENT, SSH_AUTH_STATE_PASSWORD_AUTH_SENT,
                     SSH_AUTH_STATE_GSSAPI_MIC_SENT, SSH_AUTH_STATE_AUTH_NONE_SENT}) \<and>
     (t = 60 \<longrightarrow> a \<in> {SSH_AUTH_STATE_KBDINT_SENT, SSH_AUTH_STATE_PUBKEY_OFFER_SENT, SSH_AUTH_STATE_GSSAPI_REQUEST_SENT}) \<and>
     (t = 61 \<longrightarrow> a \<in> {SSH_AUTH_STATE_INFO, SSH_AUTH_STATE_GSSAPI_TOKEN})"

definition known_types :: "byte set" where
  "known_types = {1, 2, 3, 4, 5, 6, 7, 20, 21, 30, 31, 32, 33, 34, 50, 51, 52, 53, 60, 61, 63, 64, 65, 66,
     80, 81, 82, 90, 91, 92, 93, 94, 95, 96, 97, 98, 99, 100}"

definition packet_spec :: "byte \<Rightarrow> ('z) filter_session_scheme \<Rightarrow> packet_filter_result" where
  "packet_spec t s =
     (if t \<notin> known_types then SSH_PACKET_UNKNOWN
      else allow_if (role_ok t s \<and> phase_ok t (session_state s) \<and> kex_ok t (dh_handshake_state s) \<and>
                     login_ok t (auth_service_state s) (auth_state s)))"

lemmas spec_defs = packet_spec_def known_types_def role_ok_def phase_ok_def kex_ok_def login_ok_def

lemma filter_transport_spec: "t \<in> {1, 2, 3, 4, 5, 6, 7} \<Longrightarrow> filter_transport t s = packet_spec t s"
  by (elim insertE emptyE) (simp_all add: filter_transport_def spec_defs)

lemma filter_kex_spec: "t \<in> {20, 21, 30} \<Longrightarrow> filter_kex t s = packet_spec t s"
  by (elim insertE emptyE; cases "dh_handshake_state s") (simp_all add: filter_kex_def spec_defs)

lemma filter_kex_exchange_spec: "t \<in> {31, 32, 33, 34} \<Longrightarrow> filter_kex_exchange t s = packet_spec t s"
  by (elim insertE emptyE) (simp_all add: filter_kex_exchange_def spec_defs)

lemma filter_userauth_spec: "t \<in> {50, 51, 52, 53} \<Longrightarrow> filter_userauth t s = packet_spec t s"
  by (elim insertE emptyE) (simp_all add: filter_userauth_def spec_defs)

lemma filter_userauth_method_spec: "t \<in> {60, 61, 63, 64, 65, 66} \<Longrightarrow> filter_userauth_method t s = packet_spec t s"
  by (elim insertE emptyE) (simp_all add: filter_userauth_method_def spec_defs)

lemma filter_global_spec: "t \<in> {80, 81, 82} \<Longrightarrow> filter_global s = packet_spec t s"
  by (elim insertE emptyE) (simp_all add: filter_global_def spec_defs)

lemma filter_channel_spec: "t \<in> {90, 91, 92, 93, 94, 95} \<Longrightarrow> filter_channel s = packet_spec t s"
  by (elim insertE emptyE) (simp_all add: filter_channel_def spec_defs)

lemma filter_channel_end_spec: "t \<in> {96, 97, 98, 99, 100} \<Longrightarrow> filter_channel_end s = packet_spec t s"
  by (elim insertE emptyE) (simp_all add: filter_channel_end_def spec_defs)

lemma filter_is_spec: "ssh_packet_incoming_filter t s = packet_spec t s"
proof (cases "t \<in> known_types")
  case True
  then show ?thesis
    using filter_transport_spec [of t s] filter_kex_spec [of t s] filter_kex_exchange_spec [of t s]
      filter_userauth_spec [of t s] filter_userauth_method_spec [of t s] filter_global_spec [of t s]
      filter_channel_spec [of t s] filter_channel_end_spec [of t s]
    unfolding ssh_packet_incoming_filter_def known_types_def by (auto split: if_split)
next
  case False
  then have "t \<notin> {1, 2, 3, 4, 5, 6, 7}" "t \<notin> {20, 21, 30}" "t \<notin> {31, 32, 33, 34}" "t \<notin> {50, 51, 52, 53}"
    "t \<notin> {60, 61, 63, 64, 65, 66}" "t \<notin> {80, 81, 82}" "t \<notin> {90, 91, 92, 93, 94, 95}" "t \<notin> {96, 97, 98, 99, 100}"
    by (simp_all add: known_types_def)
  then show ?thesis
    using False unfolding ssh_packet_incoming_filter_def packet_spec_def by (simp only: if_False simp_thms if_True)
qed


text \<open>
  Nothing of a connection passes before the user is authenticated. A message of the
  connection protocol (types 80 to 82 and 90 to 100) that the filter allows finds the session in the state
  AUTHENTICATED, and a client never lets a server-only message through.
\<close>

theorem no_connection_before_login:
  assumes "ssh_packet_incoming_filter t s = SSH_PACKET_ALLOWED"
  shows "(t \<in> {80, 81, 82, 90, 91, 92, 93, 94, 95, 96, 97, 98, 99, 100} \<longrightarrow>
      session_state s = SSH_SESSION_STATE_AUTHENTICATED) \<and>
    (client s \<longrightarrow> t \<notin> {5, 30, 32, 34, 50, 66})"
proof -
  have "role_ok t s \<and> phase_ok t (session_state s)"
    using assms unfolding filter_is_spec packet_spec_def by (metis packet_filter_result.distinct)
  then show ?thesis unfolding role_ok_def phase_ok_def by blast
qed

definition demo_session :: filter_session where
  "demo_session = \<lparr>client = True, server = False, session_state = SSH_SESSION_STATE_AUTHENTICATED,
     dh_handshake_state = DH_STATE_FINISHED, auth_service_state = SSH_AUTH_SERVICE_ACCEPTED,
     auth_state = SSH_AUTH_STATE_SUCCESS\<rparr>"

lemma no_connection_before_login_witness:
  "ssh_packet_incoming_filter 94 demo_session = SSH_PACKET_ALLOWED \<and>
   session_state demo_session = SSH_SESSION_STATE_AUTHENTICATED"
proof -
  have "ssh_packet_incoming_filter 94 demo_session = SSH_PACKET_ALLOWED"
    by (simp add: ssh_packet_incoming_filter_def filter_channel_def demo_session_def)
  with no_connection_before_login [OF this] show ?thesis by blast
qed

text \<open>
  A login cannot be granted unasked. A USERAUTH_SUCCESS that the filter allows answers a
  request: the peer is the server, the keys are in place, and an authentication request that a
  success can answer has been sent.
\<close>

theorem success_only_after_request:
  assumes "ssh_packet_incoming_filter 52 s = SSH_PACKET_ALLOWED"
  shows "\<not> server s \<and> dh_handshake_state s = DH_STATE_FINISHED \<and>
    session_state s = SSH_SESSION_STATE_AUTHENTICATING \<and>
    auth_state s \<in> {SSH_AUTH_STATE_KBDINT_SENT, SSH_AUTH_STATE_PUBKEY_AUTH_SENT, SSH_AUTH_STATE_PASSWORD_AUTH_SENT,
      SSH_AUTH_STATE_GSSAPI_MIC_SENT, SSH_AUTH_STATE_AUTH_NONE_SENT}"
  using assms by (simp add: filter_is_spec spec_defs split: if_splits)

lemma success_only_after_request_witness:
  "\<not> server (demo_session\<lparr>session_state := SSH_SESSION_STATE_AUTHENTICATING, auth_state := SSH_AUTH_STATE_PASSWORD_AUTH_SENT\<rparr>)"
proof -
  let ?s = "demo_session\<lparr>session_state := SSH_SESSION_STATE_AUTHENTICATING, auth_state := SSH_AUTH_STATE_PASSWORD_AUTH_SENT\<rparr>"
  have "ssh_packet_incoming_filter 52 ?s = SSH_PACKET_ALLOWED"
    by (simp add: ssh_packet_incoming_filter_def filter_userauth_def demo_session_def)
  from success_only_after_request [OF this] show ?thesis by blast
qed

end
