(* ===== verification/Ssh_Token.thy ===== *)
theory Ssh_Token
  imports Prelude "HOL-Library.Sublist"
begin

text \<open>
  Comma-separated lists of the SSH library (\<open>token.c\<close>): how the algorithms of a connection are
  chosen from two lists, and how configured lists are merged. A C string is its characters
  before the terminator; a null pointer is None; allocations succeed or not by the flag \<open>m\<close>. A
  write past an allocated block is a fault.
\<close>

section \<open>Tokens\<close>

text \<open>
  \<open>ssh_tokenize\<close> after its allocations: the first token is the start of the copy, and a token
  follows every separator that is not the last character.
\<close>

function tokens_of :: "char \<Rightarrow> string \<Rightarrow> string list" where
  "tokens_of sep c =
     takeWhile (\<lambda>x. x \<noteq> sep) c #
     (case dropWhile (\<lambda>x. x \<noteq> sep) c of
        [] \<Rightarrow> []
      | found # rest \<Rightarrow> if rest = [] then [] else tokens_of sep rest)"
  by pat_completeness auto
termination
proof (relation "measure (\<lambda>(sep, c). length c)")
  fix sep c x2 and x1 :: char
  assume "dropWhile (\<lambda>x. x \<noteq> sep) c = x1 # x2"
  then have "length (x1 # x2) \<le> length c" using length_dropWhile_le [of "\<lambda>x. x \<noteq> sep" c] by simp
  then show "((sep, x2), sep, c) \<in> measure (\<lambda>(sep, c). length c)" by simp
qed simp

declare tokens_of.simps [simp del]

definition ssh_tokenize :: "bool \<Rightarrow> string option \<Rightarrow> char \<Rightarrow> string list option" where
  "ssh_tokenize m chain sep =
     (case chain of None \<Rightarrow> None | Some c \<Rightarrow> if \<not> m then None else Some (tokens_of sep c))"

text \<open>\<open>ssh_tokens_free\<close>: what is left of the tokens in the block that is given back.\<close>

definition ssh_tokens_free :: "string list \<Rightarrow> string list" where
  "ssh_tokens_free toks = map (\<lambda>t. replicate (length t) (CHR 0x00)) toks"

section \<open>Choosing\<close>

fun find_first :: "string list \<Rightarrow> string list \<Rightarrow> string option" where
  "find_first a_tok [] = None"
| "find_first a_tok (p # ps) =
     (case find_index (\<lambda>a. a = p) a_tok of Some j \<Rightarrow> Some (a_tok ! j) | None \<Rightarrow> find_first a_tok ps)"

definition ssh_find_matching :: "bool \<Rightarrow> string option \<Rightarrow> string option \<Rightarrow> string option" where
  "ssh_find_matching m available_list preferred_list =
     (if available_list = None \<or> preferred_list = None then None
      else (case ssh_tokenize m available_list (CHR '','') of
              None \<Rightarrow> None
            | Some a_tok \<Rightarrow>
                (case ssh_tokenize m preferred_list (CHR '','') of
                   None \<Rightarrow> None
                 | Some p_tok \<Rightarrow> find_first a_tok p_tok)))"

text \<open>
  \<open>ssh_find_all_matching\<close> writes the matches into a block of \<open>max + 1\<close> bytes: \<open>copy_match\<close> appends
  one token, \<open>Inl\<close> is the fault of writing past the end.
\<close>

datatype overflow = Past_the_end

definition copy_match :: "nat \<Rightarrow> string \<Rightarrow> string \<Rightarrow> overflow + string" where
  "copy_match room ret tok =
     (let ret' = (if ret = [] then [] else ret @ '','') @ tok
      in if room < length ret' + 1 then Inl Past_the_end else Inr ret')"

fun copy_all :: "nat \<Rightarrow> string \<Rightarrow> string list \<Rightarrow> overflow + string" where
  "copy_all room ret [] = Inr ret"
| "copy_all room ret (t # ts) = (case copy_match room ret t of Inl e \<Rightarrow> Inl e | Inr r \<Rightarrow> copy_all room r ts)"

text \<open>The matches in the order of the two loops.\<close>

definition matches :: "string list \<Rightarrow> string list \<Rightarrow> string list" where
  "matches a_tok p_tok = concat (map (\<lambda>p. filter (\<lambda>a. a = p) a_tok) p_tok)"

definition ssh_find_all_matching :: "bool \<Rightarrow> string option \<Rightarrow> string option \<Rightarrow> overflow + string option" where
  "ssh_find_all_matching m available_list preferred_list =
     (case (available_list, preferred_list) of
        (Some a, Some p) \<Rightarrow>
          (if \<not> m then Inr None
           else (case copy_all (max (length a) (length p) + 1) [] (matches (tokens_of (CHR '','') a) (tokens_of (CHR '','') p)) of
                   Inl e \<Rightarrow> Inl e
                 | Inr ret \<Rightarrow> Inr (if ret = [] then None else Some ret)))
      | _ \<Rightarrow> Inr None)"

section \<open>Merging\<close>

text \<open>Which tokens \<open>ssh_remove_duplicates\<close> copies: the first of each kind, unless it is empty.\<close>

fun should_copy :: "string list \<Rightarrow> string list \<Rightarrow> bool list" where
  "should_copy before [] = []"
| "should_copy before (t # ts) = ((if t \<in> set before then False else 0 < length t) # should_copy (before @ [t]) ts)"

text \<open>\<open>strncat\<close> with the room left in a block of \<open>max_len\<close> bytes.\<close>

definition strncat :: "nat \<Rightarrow> string \<Rightarrow> string \<Rightarrow> string" where
  "strncat max_len ret s = ret @ take (max_len - length ret - 1) s"

fun copy_marked :: "nat \<Rightarrow> string \<Rightarrow> bool \<Rightarrow> (bool \<times> string) list \<Rightarrow> string \<times> bool" where
  "copy_marked max_len ret need_comma [] = (ret, need_comma)"
| "copy_marked max_len ret need_comma ((b, t) # ts) =
     (if b then
        let ret1 = (if need_comma then strncat max_len ret '','' else ret)
        in copy_marked max_len (strncat max_len ret1 t) True ts
      else copy_marked max_len ret need_comma ts)"

definition ssh_remove_duplicates :: "bool \<Rightarrow> string option \<Rightarrow> string option" where
  "ssh_remove_duplicates m list =
     (case list of
        None \<Rightarrow> None
      | Some l \<Rightarrow>
          if length l = 0 then None
          else
            let max_len = length l + 1 in
            (case ssh_tokenize m list (CHR '','') of
               None \<Rightarrow> None
             | Some tok \<Rightarrow>
                 let (ret, need_comma) = copy_marked max_len [] False (zip (should_copy [] tok) tok)
                 in if need_comma then Some ret else None))"

definition str_or_empty :: "string option \<Rightarrow> string" where
  "str_or_empty s = (case s of None \<Rightarrow> [] | Some x \<Rightarrow> x)"

definition ssh_append_without_duplicates :: "bool \<Rightarrow> string option \<Rightarrow> string option \<Rightarrow> string option" where
  "ssh_append_without_duplicates m list appended_list =
     (let concat_len = length (str_or_empty list) + length (str_or_empty appended_list) in
      if concat_len = 0 then None
      else if \<not> m then None
      else
        let text = str_or_empty list @ (if list = None then [] else '','') @ str_or_empty appended_list
        in ssh_remove_duplicates m (Some (take (concat_len + 2 - 1) text)))"

definition ssh_prefix_without_duplicates :: "bool \<Rightarrow> string option \<Rightarrow> string option \<Rightarrow> string option" where
  "ssh_prefix_without_duplicates m list prefixed_list =
     (let concat_len = length (str_or_empty list) + length (str_or_empty prefixed_list) in
      if concat_len = 0 then None
      else if \<not> m then None
      else
        let text = str_or_empty prefixed_list @ (if prefixed_list = None then [] else '','') @ str_or_empty list
        in ssh_remove_duplicates m (Some (take (concat_len + 2 - 1) text)))"

text \<open>\<open>ssh_remove_all_matching\<close>: the tokens not in the second list.\<close>

fun copy_kept :: "string list \<Rightarrow> string \<Rightarrow> string list \<Rightarrow> string" where
  "copy_kept r_tok ret [] = ret"
| "copy_kept r_tok ret (t # ts) =
     (if t \<in> set r_tok then copy_kept r_tok ret ts
      else copy_kept r_tok ((if ret = [] then [] else ret @ '','') @ t) ts)"

definition ssh_remove_all_matching :: "bool \<Rightarrow> string option \<Rightarrow> string option \<Rightarrow> string option" where
  "ssh_remove_all_matching m list remove_list =
     (case list of
        None \<Rightarrow> None
      | Some l \<Rightarrow>
          (case remove_list of
             None \<Rightarrow> if m then Some l else None
           | Some r \<Rightarrow>
               if \<not> m then None
               else let ret = copy_kept (tokens_of (CHR '','') r) [] (tokens_of (CHR '','') l)
                    in if ret = [] then None else Some ret))"

section \<open>Facts\<close>

fun join_tokens :: "string list \<Rightarrow> string" where
  "join_tokens [] = []"
| "join_tokens [t] = t"
| "join_tokens (t # ts) = t @ '','' @ join_tokens ts"

lemma tokens_of_cons:
  assumes "sep \<notin> set t" and "rest \<noteq> []"
  shows "tokens_of sep (t @ sep # rest) = t # tokens_of sep rest"
proof -
  have "takeWhile (\<lambda>x. x \<noteq> sep) (t @ sep # rest) = t" "dropWhile (\<lambda>x. x \<noteq> sep) (t @ sep # rest) = sep # rest"
    using assms(1) by (subst takeWhile_append2 dropWhile_append2; auto)+
  then show ?thesis using assms(2) by (subst tokens_of.simps) simp
qed

lemma tokens_of_single: "sep \<notin> set t \<Longrightarrow> tokens_of sep t = [t]"
proof -
  assume "sep \<notin> set t"
  then have "takeWhile (\<lambda>x. x \<noteq> sep) t = t" "dropWhile (\<lambda>x. x \<noteq> sep) t = []" by auto
  then show ?thesis by (simp only: tokens_of.simps [of sep t] list.case)
qed

text \<open>Lists of names read back as they were written, unless the last name is empty.\<close>

lemma tokens_join:
  assumes "ts \<noteq> []" and "\<forall>t\<in>set ts. CHR '','' \<notin> set t" and "length ts = 1 \<or> last ts \<noteq> []"
  shows "tokens_of (CHR '','') (join_tokens ts) = ts"
  using assms
proof (induction ts rule: join_tokens.induct)
  case (3 t u us)
  then have "last (u # us) \<noteq> []" by simp
  then have "join_tokens (u # us) \<noteq> []" by (cases us) auto
  with 3 show ?case by (simp add: tokens_of_cons)
qed (auto simp: tokens_of_single)

lemma tokens_no_sep: "t \<in> set (tokens_of sep c) \<Longrightarrow> sep \<notin> set t"
proof (induction sep c rule: tokens_of.induct)
  case (1 sep c)
  show ?case
  proof (cases "dropWhile (\<lambda>x. x \<noteq> sep) c")
    case Nil
    with "1.prems" show ?thesis by (subst (asm) tokens_of.simps) (auto dest: set_takeWhileD)
  next
    case (Cons x rest)
    with "1.prems" "1.IH" [OF Cons] show ?thesis
      by (subst (asm) tokens_of.simps) (auto dest: set_takeWhileD split: if_splits)
  qed
qed

lemma join_le_chain: "length (join_tokens (tokens_of (CHR '','') c)) \<le> length c"
proof (induction "CHR '',''" c rule: tokens_of.induct)
  case (1 c)
  have split: "c = takeWhile (\<lambda>x. x \<noteq> CHR '','') c @ dropWhile (\<lambda>x. x \<noteq> CHR '','') c" by simp
  show ?case
  proof (cases "dropWhile (\<lambda>x. x \<noteq> CHR '','') c")
    case Nil
    then have "CHR '','' \<notin> set c" by auto
    then show ?thesis by (simp add: tokens_of_single)
  next
    case (Cons x rest)
    have len: "length c = length (takeWhile (\<lambda>x. x \<noteq> CHR '','') c) + Suc (length rest)"
      using split Cons by (metis length_Cons length_append)
    show ?thesis
    proof (cases "rest = []")
      case True
      with Cons len show ?thesis by (subst tokens_of.simps) simp
    next
      case False
      have "tokens_of (CHR '','') rest \<noteq> []" by (subst tokens_of.simps) simp
      then obtain u us where "tokens_of (CHR '','') rest = u # us" by (cases "tokens_of (CHR '','') rest") auto
      with Cons False len 1 [OF Cons False] show ?thesis by (subst tokens_of.simps) simp
    qed
  qed
qed

lemma find_first_spec:
  "case find_first as ps of
     None \<Rightarrow> set as \<inter> set ps = {}
   | Some r \<Rightarrow> \<exists>xs ys. ps = xs @ r # ys \<and> r \<in> set as \<and> set as \<inter> set xs = {}"
proof (induction ps)
  case Nil
  then show ?case by simp
next
  case (Cons p ps)
  show ?case
  proof (cases "find_index (\<lambda>a. a = p) as")
    case None
    then have p: "p \<notin> set as" by (auto simp: find_index_None)
    show ?thesis
    proof (cases "find_first as ps")
      case None
      with Cons \<open>find_index _ _ = None\<close> p show ?thesis by simp
    next
      case (Some r)
      with Cons obtain xs ys where "ps = xs @ r # ys" "r \<in> set as" "set as \<inter> set xs = {}" by auto
      then have "p # ps = (p # xs) @ r # ys \<and> r \<in> set as \<and> set as \<inter> set (p # xs) = {}" using p by simp
      then have "\<exists>xs ys. p # ps = xs @ r # ys \<and> r \<in> set as \<and> set as \<inter> set xs = {}" by blast
      then show ?thesis using Some \<open>find_index _ _ = None\<close> by simp
    qed
  next
    case (Some j)
    from find_index_Some [OF Some] have "j < length as" "as ! j = p" by auto
    then show ?thesis using Some by (auto intro: exI [of _ "[]"])
  qed
qed

text \<open>
  The algorithm chosen is the first preference that is available. \<open>ssh_find_matching\<close>
  returns a name of the preferred list that is also in the available list, with no earlier
  preference available, and null exactly when the lists have no name in common.
\<close>

theorem find_matching_first_preference:
  "case ssh_find_matching True (Some a) (Some p) of
     None \<Rightarrow> set (tokens_of (CHR '','') a) \<inter> set (tokens_of (CHR '','') p) = {}
   | Some r \<Rightarrow> r \<in> set (tokens_of (CHR '','') a) \<and>
       (\<exists>xs ys. tokens_of (CHR '','') p = xs @ r # ys \<and> set (tokens_of (CHR '','') a) \<inter> set xs = {})"
  using find_first_spec [of "tokens_of (CHR '','') a" "tokens_of (CHR '','') p"]
  by (auto simp: ssh_find_matching_def ssh_tokenize_def split: option.splits)


subsection \<open>Merging keeps the first of each name\<close>

lemma length_join: "length (join_tokens ts) = sum_list (map length ts) + (length ts - 1)"
  by (induction ts rule: join_tokens.induct) auto

lemma join_snoc: "join_tokens (xs @ [y]) = (if xs = [] then y else join_tokens xs @ '','' @ y)"
  by (induction xs rule: join_tokens.induct) auto

lemma subseq_sizes: "subseq xs ys \<Longrightarrow> sum_list (map length xs) \<le> sum_list (map length ys) \<and> length xs \<le> length ys"
  by (induction rule: list_emb.induct) auto

lemma subseq_join_le: "subseq xs ys \<Longrightarrow> length (join_tokens xs) \<le> length (join_tokens ys)"
  using subseq_sizes [of xs ys] by (auto simp: length_join)

text \<open>The tokens that are copied: no name twice, none empty, none of those before, in order.\<close>

definition kept :: "string list \<Rightarrow> string list \<Rightarrow> string list" where
  "kept before ts = map snd (filter fst (zip (should_copy before ts) ts))"

lemma kept_rec:
  "kept before [] = []"
  "kept before (t # ts) = (if t \<notin> set before \<and> t \<noteq> [] then [t] else []) @ kept (before @ [t]) ts"
  by (simp_all add: kept_def)

lemma kept_facts:
  "subseq (kept before ts) ts \<and> set (kept before ts) = set ts - set before - {[]} \<and> distinct (kept before ts)"
proof (induction ts arbitrary: before)
  case Nil
  then show ?case by (simp add: kept_rec)
next
  case (Cons t ts)
  from Cons.IH [of "before @ [t]"] show ?case by (auto simp: kept_rec)
qed

lemma copy_marked_join:
  assumes "length (join_tokens (ds @ map snd (filter fst ms))) < max_len"
  shows "copy_marked max_len (join_tokens ds) (ds \<noteq> []) ms =
    (join_tokens (ds @ map snd (filter fst ms)), ds @ map snd (filter fst ms) \<noteq> [])"
  using assms
proof (induction ms arbitrary: ds)
  case Nil
  then show ?case by simp
next
  case (Cons m ms)
  obtain b t where m: "m = (b, t)" by (cases m)
  show ?case
  proof (cases b)
    case False
    with Cons m show ?thesis by simp
  next
    case True
    let ?ks = "map snd (filter fst ms)"
    have len: "length (join_tokens ((ds @ [t]) @ ?ks)) < max_len" using Cons.prems m True by simp
    have "prefix (ds @ [t]) ((ds @ [t]) @ ?ks)" by (rule prefixI) simp
    then have "length (join_tokens (ds @ [t])) < max_len"
      using len subseq_join_le [of "ds @ [t]"] by (meson le_less_trans prefix_imp_subseq)
    then have "strncat max_len (if ds \<noteq> [] then strncat max_len (join_tokens ds) '','' else join_tokens ds) t
        = join_tokens (ds @ [t])"
      by (auto simp: strncat_def join_snoc)
    with Cons.IH [OF len] m True show ?thesis by (simp add: Let_def)
  qed
qed

lemma remove_duplicates_eq:
  assumes "l \<noteq> []"
  shows "ssh_remove_duplicates True (Some l) =
    (let ks = kept [] (tokens_of (CHR '','') l) in if ks = [] then None else Some (join_tokens ks))"
proof -
  let ?ts = "tokens_of (CHR '','') l" and ?ks = "kept [] (tokens_of (CHR '','') l)"
  have "length (join_tokens ?ks) \<le> length (join_tokens ?ts)"
    by (rule subseq_join_le) (simp add: kept_facts)
  then have "length (join_tokens ([] @ ?ks)) < length l + 1" using join_le_chain [of l] by simp
  from copy_marked_join [OF this [unfolded kept_def]]
  have "copy_marked (length l + 1) [] False (zip (should_copy [] ?ts) ?ts) = (join_tokens ?ks, ?ks \<noteq> [])"
    by (simp add: kept_def)
  then show ?thesis using assms
    by (simp add: ssh_remove_duplicates_def ssh_tokenize_def Let_def)
qed

lemma tokens_join_kept: "kept [] (tokens_of (CHR '','') l) \<noteq> [] \<Longrightarrow>
  tokens_of (CHR '','') (join_tokens (kept [] (tokens_of (CHR '','') l))) = kept [] (tokens_of (CHR '','') l)"
proof (rule tokens_join)
  let ?ks = "kept [] (tokens_of (CHR '','') l)"
  assume ne: "?ks \<noteq> []"
  show "\<forall>t\<in>set ?ks. CHR '','' \<notin> set t" using kept_facts [of "[]" "tokens_of (CHR '','') l"] tokens_no_sep by blast
  have "last ?ks \<in> set ?ks" using ne by simp
  then show "length ?ks = 1 \<or> last ?ks \<noteq> []" using kept_facts [of "[]" "tokens_of (CHR '','') l"] by blast
qed

subsection \<open>Room for the matches\<close>

lemma matches_distinct:
  assumes "distinct as"
  shows "matches as ps = filter (\<lambda>p. p \<in> set as) ps"
proof (induction ps)
  case (Cons p ps)
  have "filter (\<lambda>a. a = p) as = (if p \<in> set as then [p] else [])"
    using assms by (induction as) (auto simp: filter_empty_conv)
  with Cons show ?case by (simp add: matches_def)
qed (simp add: matches_def)

lemma copy_all_fits:
  "length ret + length ts + sum_list (map length ts) < room \<or> (ret = [] \<and> length (join_tokens ts) < room) \<Longrightarrow>
   \<exists>r. copy_all room ret ts = Inr r"
proof (induction ts arbitrary: ret)
  case (Cons t ts)
  have "\<exists>r. copy_match room ret t = Inr r \<and>
     (length r + length ts + sum_list (map length ts) < room \<or> (r = [] \<and> length (join_tokens ts) < room))"
    using Cons.prems by (cases ts) (auto simp: copy_match_def length_join Let_def)
  then show ?case using Cons.IH by auto
qed simp

lemma tokens_append:
  "filter (\<lambda>t. t \<noteq> []) (tokens_of sep (a @ sep # b)) =
   filter (\<lambda>t. t \<noteq> []) (tokens_of sep a) @ filter (\<lambda>t. t \<noteq> []) (tokens_of sep b)"
proof (induction sep a rule: tokens_of.induct)
  case (1 sep a)
  let ?t = "takeWhile (\<lambda>x. x \<noteq> sep) a"
  have nt: "sep \<notin> set ?t" by (auto dest: set_takeWhileD)
  have empty: "tokens_of sep [] = [[]]" by (rule tokens_of_single) simp
  have single: "tokens_of sep (u @ [sep]) = [u]" if "sep \<notin> set u" for u
  proof -
    have "takeWhile (\<lambda>x. x \<noteq> sep) (u @ [sep]) = u" "dropWhile (\<lambda>x. x \<noteq> sep) (u @ [sep]) = [sep]"
      using that by (subst takeWhile_append2 dropWhile_append2; auto)+
    then show ?thesis by (subst tokens_of.simps) simp
  qed
  show ?case
  proof (cases "dropWhile (\<lambda>x. x \<noteq> sep) a")
    case Nil
    then have "sep \<notin> set a" by auto
    then have sep: "tokens_of sep a = [a]" "b = [] \<Longrightarrow> tokens_of sep (a @ sep # b) = [a]"
        "b \<noteq> [] \<Longrightarrow> tokens_of sep (a @ sep # b) = a # tokens_of sep b"
      using tokens_of_single [of sep a] single [of a] tokens_of_cons [of sep a b] by blast+
    show ?thesis using sep by (cases "b = []") (auto simp: empty)
  next
    case (Cons x rest)
    then have x: "x = sep" using hd_dropWhile [of "\<lambda>x. x \<noteq> sep" a] by simp
    obtain t where t: "sep \<notin> set t" and a: "a = t @ sep # rest"
    proof (rule that [OF nt])
      have "a = ?t @ dropWhile (\<lambda>x. x \<noteq> sep) a" by (rule takeWhile_dropWhile_id [symmetric])
      then show "a = ?t @ sep # rest" unfolding Cons x .
    qed
    have ab: "tokens_of sep (a @ sep # b) = t # tokens_of sep (rest @ sep # b)"
      unfolding a using tokens_of_cons [OF t, of "rest @ sep # b"] by simp
    show ?thesis
    proof (cases "rest = []")
      case True
      have "tokens_of sep a = [t]" unfolding a True by (rule single [OF t])
      moreover have "filter (\<lambda>t. t \<noteq> []) (tokens_of sep (sep # b)) = filter (\<lambda>t. t \<noteq> []) (tokens_of sep b)"
        using tokens_of_cons [of sep "[]" b] single [of "[]"] by (cases "b = []") (simp_all add: empty)
      ultimately show ?thesis using ab True by simp
    next
      case False
      have "tokens_of sep a = t # tokens_of sep rest" unfolding a by (rule tokens_of_cons [OF t False])
      with ab "1.IH" [OF Cons False] show ?thesis by simp
    qed
  qed
qed

lemma kept_append: "kept before (xs @ ys) = kept before xs @ kept (before @ xs) ys"
  by (induction xs arbitrary: before) (auto simp: kept_rec)

lemma kept_before: "kept before ts = filter (\<lambda>t. t \<notin> set before) (kept [] ts)"
proof (induction ts rule: rev_induct)
  case (snoc t ts)
  then show ?case by (simp add: kept_append kept_rec)
qed (simp add: kept_rec)

text \<open>The names of a list: its nonempty tokens, each where it stands first.\<close>

definition names :: "string \<Rightarrow> string list" where
  "names l = rev (remdups (rev (filter (\<lambda>t. t \<noteq> []) (tokens_of (CHR '','') l))))"

lemma kept_remdups: "kept [] ts = rev (remdups (rev (filter (\<lambda>t. t \<noteq> []) ts)))"
proof (induction ts rule: rev_induct)
  case (snoc t ts)
  then show ?case by (simp add: kept_append kept_rec)
qed (simp add: kept_rec)

lemma kept_names: "kept [] (tokens_of (CHR '','') l) = names l"
  by (simp add: names_def kept_remdups)

lemma names_sep:
  "names (a @ CHR '','' # b) = names a @ filter (\<lambda>t. t \<notin> set (names a)) (names b)"
proof -
  let ?f = "\<lambda>l. filter (\<lambda>t. t \<noteq> []) (tokens_of (CHR '','') l)"
  have "names (a @ CHR '','' # b) = kept [] (?f a @ ?f b)"
    by (simp add: names_def kept_remdups tokens_append)
  also have "\<dots> = kept [] (?f a) @ filter (\<lambda>t. t \<notin> set (?f a)) (kept [] (?f b))"
    by (simp add: kept_append kept_before [of "?f a"])
  finally show ?thesis by (simp add: kept_remdups names_def)
qed

text \<open>
  C40: Removing duplicates keeps each name once, in the order of its first occurrence.
  \<open>ssh_remove_duplicates\<close> returns null exactly when the list has no nonempty name, and
  otherwise a list whose tokens are the names of the argument; the bounded copies never cut it.
\<close>

theorem remove_duplicates_names:
  "ssh_remove_duplicates True (Some l) = (if names l = [] then None else Some (join_tokens (names l))) \<and>
   (names l \<noteq> [] \<longrightarrow> tokens_of (CHR '','') (join_tokens (names l)) = names l) \<and>
   distinct (names l) \<and> set (names l) = set (tokens_of (CHR '','') l) - {[]}"
proof (intro conjI impI)
  have "names [] = []" by (simp add: names_def tokens_of_single)
  then show "ssh_remove_duplicates True (Some l) = (if names l = [] then None else Some (join_tokens (names l)))"
    by (cases "l = []") (auto simp: remove_duplicates_eq kept_names Let_def, simp add: ssh_remove_duplicates_def)
  show "names l \<noteq> [] \<Longrightarrow> tokens_of (CHR '','') (join_tokens (names l)) = names l"
    using tokens_join_kept [of l] by (simp add: kept_names)
qed (auto simp: names_def)

theorem remove_duplicates_names_witness:
  "names ''aes,cbc,,aes,gcm,'' = [''aes'', ''cbc'', ''gcm''] \<and>
   ssh_remove_duplicates True (Some ''aes,cbc,,aes,gcm,'') = Some ''aes,cbc,gcm''"
proof -
  have n: "names ''aes,cbc,,aes,gcm,'' = [''aes'', ''cbc'', ''gcm'']" by code_simp
  then show ?thesis using remove_duplicates_names [of "''aes,cbc,,aes,gcm,''"] by simp
qed

text \<open>
  Configured lists are merged without losing or reordering a name. Appending puts the names
  of the first list first, followed by those of the second that it does not have; prefixing is
  the same the other way round.
\<close>

theorem merge_without_duplicates:
  "(let ns = names a @ filter (\<lambda>t. t \<notin> set (names a)) (names b);
        r = (if ns = [] then None else Some (join_tokens ns))
    in ssh_append_without_duplicates True (Some a) (Some b) = (if a = [] \<and> b = [] then None else r) \<and>
       ssh_prefix_without_duplicates True (Some b) (Some a) = (if a = [] \<and> b = [] then None else r))"
proof -
  have "kept [] (tokens_of (CHR '','') (a @ CHR '','' # b)) = names a @ filter (\<lambda>t. t \<notin> set (names a)) (names b)"
    by (simp add: kept_names names_sep)
  moreover have "ssh_append_without_duplicates True (Some a) (Some b)
      = (if a = [] \<and> b = [] then None else ssh_remove_duplicates True (Some (a @ CHR '','' # b)))"
    "ssh_prefix_without_duplicates True (Some b) (Some a)
      = (if a = [] \<and> b = [] then None else ssh_remove_duplicates True (Some (a @ CHR '','' # b)))"
    by (auto simp: ssh_append_without_duplicates_def ssh_prefix_without_duplicates_def str_or_empty_def Let_def)
  ultimately show ?thesis by (auto simp: remove_duplicates_eq Let_def)
qed

text \<open>
  The block for the matches is big enough when the available list has no name twice:
  \<open>ssh_find_all_matching\<close> never writes past it.
\<close>

theorem find_all_matching_fits:
  assumes "distinct (tokens_of (CHR '','') a)"
  shows "\<exists>r. ssh_find_all_matching True (Some a) (Some p) = Inr r"
proof -
  let ?ms = "matches (tokens_of (CHR '','') a) (tokens_of (CHR '','') p)"
  have "length (join_tokens ?ms) \<le> length (join_tokens (tokens_of (CHR '','') p))"
    by (rule subseq_join_le) (simp add: matches_distinct [OF assms])
  also have "\<dots> \<le> length p" by (rule join_le_chain)
  finally have "length (join_tokens ?ms) < max (length a) (length p) + 1" by simp
  then obtain r where "copy_all (max (length a) (length p) + 1) [] ?ms = Inr r"
    using copy_all_fits [of "[]" ?ms] by blast
  then show ?thesis by (simp add: ssh_find_all_matching_def)
qed

theorem find_all_matching_fits_witness:
  "distinct (tokens_of (CHR '','') ''rsa,dss'') \<and> (\<exists>r. ssh_find_all_matching True (Some ''rsa,dss'') (Some ''dss,dss,rsa'') = Inr r)"
proof -
  have d: "distinct (tokens_of (CHR '','') ''rsa,dss'')" by code_simp
  with find_all_matching_fits [OF d] show ?thesis by blast
qed

text \<open>
  With repeated names the matches overflow the block. Each repetition of a preferred name
  copies every repetition in the available list, and \<open>a,a,a\<close> against itself needs more than
  the six bytes that are allocated: a write past the heap block.
\<close>

theorem find_all_matching_overflows:
  "ssh_find_all_matching True (Some ''a,a,a'') (Some ''a,a,a'') = Inl Past_the_end"
  by code_simp

end
