(* ===== verification/Ssh_String.thy ===== *)
theory Ssh_String
  imports Prelude
begin

text \<open>
  Byte order, and the length-prefixed strings of the SSH library (\<open>string.c\<close>). A string is a
  block: a 32-bit size in network order and the data. \<open>str_size\<close> is the size as the protocol
  reads it (after \<open>ntohl\<close>); \<open>str_data\<close> is the data part of the block, one byte longer than the
  size, which is where \<open>ssh_string_get_char\<close> writes its terminator. A null pointer is None,
  a failed allocation the flag \<open>m\<close> being false.
\<close>

section \<open>Byte order\<close>

text \<open>The \<open>n\<close> bytes of a word, most significant first, and the word of such bytes.\<close>

fun be_bytes :: "nat \<Rightarrow> 'a::len word \<Rightarrow> byte list" where
  "be_bytes 0 x = []"
| "be_bytes (Suc n) x = ucast (drop_bit (8 * n) x) # be_bytes n x"

definition be_word :: "byte list \<Rightarrow> 'a::len word" where
  "be_word bs = foldl (\<lambda>acc b. or (push_bit 8 acc) (ucast b)) 0 bs"

lemma length_be_bytes [simp]: "length (be_bytes n x) = n"
  by (induction n) simp_all

lemma be_fold:
  "foldl (\<lambda>acc b. or (push_bit 8 acc) (ucast b)) acc (be_bytes n (x :: 'a::len word)) =
   or (push_bit (8 * n) acc) (take_bit (8 * n) x)"
proof (induction n arbitrary: acc)
  case 0
  show ?case by simp
next
  case (Suc n)
  have e: "8 * n + 8 = 8 + 8 * n" by simp
  have "or (push_bit (8 * n) (or (push_bit 8 acc) (ucast (ucast (drop_bit (8 * n) x) :: byte))))
      (take_bit (8 * n) x) = or (push_bit (8 * Suc n) acc) (take_bit (8 * Suc n) x)"
    by (rule bit_word_eqI)
      (auto simp: bit_or_iff bit_push_bit_iff bit_take_bit_iff bit_drop_bit_eq bit_unsigned_iff e dest: bit_imp_le_length)
  then show ?case by (simp add: Suc)
qed

lemma be_word_bytes: "LENGTH('a) \<le> 8 * n \<Longrightarrow> be_word (be_bytes n (x :: 'a::len word)) = x"
  using be_fold [of 0 n x] by (simp add: be_word_def take_bit_length_eq take_bit_word_eq_self)

lemma be_bytes_snoc: "be_bytes (Suc n) x = be_bytes n (drop_bit 8 x) @ [ucast x]"
  by (induction n) (simp_all add: drop_bit_drop_bit add.commute)

lemma be_word_snoc: "be_word (bs @ [b]) = or (push_bit 8 (be_word bs)) (ucast b)"
  by (simp add: be_word_def)

lemma bit_be_word: "bit (be_word bs :: 'a::len word) i \<Longrightarrow> i < 8 * length bs"
proof (induction bs arbitrary: i rule: rev_induct)
  case Nil
  then show ?case by (simp add: be_word_def)
next
  case (snoc b bs)
  then show ?case
    by (fastforce simp: be_word_snoc bit_or_iff bit_push_bit_iff bit_unsigned_iff dest: bit_imp_le_length)
qed

lemma be_bytes_word: "8 * length bs \<le> LENGTH('a) \<Longrightarrow> be_bytes (length bs) (be_word bs :: 'a::len word) = bs"
proof (induction bs rule: rev_induct)
  case Nil
  then show ?case by simp
next
  case (snoc b bs)
  let ?w = "be_word bs :: 'a word"
  have top: "drop_bit 8 (or (push_bit 8 ?w) (ucast b)) = ?w"
  proof (rule bit_word_eqI)
    fix i assume "i < LENGTH('a)"
    show "bit (drop_bit 8 (or (push_bit 8 ?w) (ucast b))) i = bit ?w i"
      using bit_be_word [of bs i, where 'a = 'a] snoc.prems
      by (auto simp: bit_drop_bit_eq bit_or_iff bit_push_bit_iff bit_unsigned_iff dest: bit_imp_le_length)
  qed
  have low: "ucast (or (push_bit 8 ?w) (ucast b)) = b"
    using snoc.prems
    by (intro bit_word_eqI) (auto simp: bit_or_iff bit_push_bit_iff bit_unsigned_iff)
  show ?case
    using snoc by (simp only: length_append_singleton be_bytes_snoc be_word_snoc top low) simp
qed

text \<open>A host word as the processor stores it, least significant byte first, and the swap.\<close>

definition host_bytes :: "nat \<Rightarrow> 'a::len word \<Rightarrow> byte list" where
  "host_bytes n x = rev (be_bytes n x)"

definition host_word :: "byte list \<Rightarrow> 'a::len word" where
  "host_word bs = be_word (rev bs)"

definition htons :: "u16 \<Rightarrow> u16" where "htons x = host_word (be_bytes 2 x)"
definition htonl :: "u32 \<Rightarrow> u32" where "htonl x = host_word (be_bytes 4 x)"
definition htonll :: "u64 \<Rightarrow> u64" where "htonll x = host_word (be_bytes 8 x)"
definition ntohs :: "u16 \<Rightarrow> u16" where "ntohs x = be_word (host_bytes 2 x)"
definition ntohl :: "u32 \<Rightarrow> u32" where "ntohl x = be_word (host_bytes 4 x)"
definition ntohll :: "u64 \<Rightarrow> u64" where "ntohll x = be_word (host_bytes 8 x)"

lemma host_bytes_hton:
  "host_bytes 2 (htons x) = be_bytes 2 x" "host_bytes 4 (htonl y) = be_bytes 4 y" "host_bytes 8 (htonll z) = be_bytes 8 z"
  using be_bytes_word [of "rev (be_bytes 2 x)", where 'a = 16] be_bytes_word [of "rev (be_bytes 4 y)", where 'a = 32]
    be_bytes_word [of "rev (be_bytes 8 z)", where 'a = 64]
  by (simp_all add: host_bytes_def htons_def htonl_def htonll_def host_word_def del: be_bytes.simps)

lemma ntoh_host_word:
  "ntohs (host_word (be_bytes 2 x)) = x" "ntohl (host_word (be_bytes 4 y)) = y" "ntohll (host_word (be_bytes 8 z)) = z"
  using host_bytes_hton(1) [of x] host_bytes_hton(2) [of y] host_bytes_hton(3) [of z] be_word_bytes [of 2 x] be_word_bytes [of 4 y] be_word_bytes [of 8 z]
  by (simp_all add: ntohs_def ntohl_def ntohll_def htons_def htonl_def htonll_def del: be_bytes.simps)

section \<open>Characters\<close>

text \<open>The bytes of a C string, and the C string that starts at an array of bytes.\<close>

definition bytes_of :: "string \<Rightarrow> byte list" where
  "bytes_of s = map of_char s"

definition string_of :: "byte list \<Rightarrow> string" where
  "string_of bs = map (\<lambda>b. char_of (unat b)) (takeWhile (\<lambda>b. b \<noteq> 0) bs)"

lemma length_bytes_of [simp]: "length (bytes_of s) = length s"
  by (simp add: bytes_of_def)

lemma bytes_of_eq_nil [simp]: "bytes_of s = [] \<longleftrightarrow> s = []"
  by (simp add: bytes_of_def)

lemma byte_of_char: "unat (of_char c :: byte) = of_char c" "char_of (unat (of_char c :: byte)) = c"
proof -
  have "unat (of_char c :: byte) = unat (of_nat (of_char c) :: byte)" by (simp add: of_nat_of_char)
  also have "\<dots> = of_char c" using nat_of_char_less_256 [of c] by (simp add: unat_of_nat take_bit_nat_eq_self_iff del: of_nat_of_char)
  finally show "unat (of_char c :: byte) = of_char c" .
  then show "char_of (unat (of_char c :: byte)) = c" by simp
qed

lemma string_of_bytes: "CHR 0x00 \<notin> set s \<Longrightarrow> string_of (bytes_of s @ 0 # r) = s"
proof (induction s)
  case (Cons c s)
  have "(of_char c :: byte) \<noteq> 0"
  proof
    assume "(of_char c :: byte) = 0"
    then have "(of_char c :: nat) = 0" using byte_of_char(1) [of c] by simp
    then have "char_of (of_char c :: nat) = CHR 0x00" by (simp only:) (simp add: char_of_def)
    with Cons.prems show False by simp
  qed
  with Cons show ?case by (simp add: string_of_def bytes_of_def byte_of_char)
qed (simp add: string_of_def bytes_of_def)

section \<open>The strings\<close>

definition STRING_SIZE_MAX :: u32 where "STRING_SIZE_MAX = 0x10000000"

record ssh_string =
  str_size :: u32
  str_data :: "byte list"

definition ssh_string_new :: "bool \<Rightarrow> u32 \<Rightarrow> ssh_string option" where
  "ssh_string_new m sz =
     (if STRING_SIZE_MAX < sz then None
      else if \<not> m then None
      else Some \<lparr>str_size = sz, str_data = replicate (Suc (unat sz)) 0\<rparr>)"

definition ssh_string_len :: "ssh_string option \<Rightarrow> u32" where
  "ssh_string_len s =
     (case s of
        None \<Rightarrow> 0
      | Some x \<Rightarrow> if 0 < str_size x \<and> str_size x \<le> STRING_SIZE_MAX then str_size x else 0)"

definition ssh_string_fill :: "byte list option \<Rightarrow> ssh_string option \<Rightarrow> int \<times> ssh_string option" where
  "ssh_string_fill d s =
     (case (s, d) of
        (Some x, Some bytes) \<Rightarrow>
          (if length bytes = 0 \<or> unat (ssh_string_len s) < length bytes then (-1, s)
           else (0, Some (x\<lparr>str_data := bytes @ drop (length bytes) (str_data x)\<rparr>)))
      | _ \<Rightarrow> (-1, s))"

text \<open>\<open>what\<close> is a C string: its characters up to the terminator.\<close>

definition ssh_string_from_char :: "bool \<Rightarrow> byte list option \<Rightarrow> ssh_string option" where
  "ssh_string_from_char m what =
     (case what of
        None \<Rightarrow> None
      | Some w \<Rightarrow>
          (case ssh_string_new m (of_nat (length w)) of
             None \<Rightarrow> None
           | Some x \<Rightarrow> Some (x\<lparr>str_data := w @ drop (length w) (str_data x)\<rparr>)))"

definition ssh_string_get_char :: "ssh_string option \<Rightarrow> (byte list \<times> ssh_string) option" where
  "ssh_string_get_char s =
     (case s of
        None \<Rightarrow> None
      | Some x \<Rightarrow> let x' = x\<lparr>str_data := (str_data x)[unat (ssh_string_len s) := 0]\<rparr> in Some (str_data x', x'))"

definition ssh_string_to_char :: "bool \<Rightarrow> ssh_string option \<Rightarrow> byte list option" where
  "ssh_string_to_char m s =
     (case s of
        None \<Rightarrow> None
      | Some x \<Rightarrow>
          (let len = ssh_string_len s in
           if len + 1 < len then None
           else if \<not> m then None
           else Some (take (unat len) (str_data x) @ [0])))"

definition ssh_string_copy :: "bool \<Rightarrow> ssh_string option \<Rightarrow> ssh_string option" where
  "ssh_string_copy m s =
     (case s of
        None \<Rightarrow> None
      | Some x \<Rightarrow>
          (let len = ssh_string_len s in
           if len = 0 then None
           else (case ssh_string_new m len of
                   None \<Rightarrow> None
                 | Some y \<Rightarrow> Some (y\<lparr>str_data := take (unat len) (str_data x) @ drop (unat len) (str_data y)\<rparr>))))"

definition ssh_string_burn :: "ssh_string option \<Rightarrow> ssh_string option" where
  "ssh_string_burn s =
     (case s of
        None \<Rightarrow> None
      | Some x \<Rightarrow>
          if str_size x = 0 then Some x
          else let n = unat (ssh_string_len s) in
               Some (x\<lparr>str_data := replicate n 0 @ drop n (str_data x)\<rparr>))"

definition ssh_string_data :: "ssh_string option \<Rightarrow> byte list option" where
  "ssh_string_data s = map_option str_data s"

section \<open>Facts\<close>

definition string_ok :: "ssh_string \<Rightarrow> bool" where
  "string_ok x \<longleftrightarrow> str_size x \<le> STRING_SIZE_MAX \<and> length (str_data x) = Suc (unat (str_size x))"

text \<open>The characters a string holds.\<close>

definition str_view :: "ssh_string \<Rightarrow> byte list" where
  "str_view x = take (unat (str_size x)) (str_data x)"

lemma len_ok [simp]: "string_ok x \<Longrightarrow> ssh_string_len (Some x) = str_size x"
  by (simp add: string_ok_def ssh_string_len_def word_gt_0)

lemma length_str_view [simp]: "string_ok x \<Longrightarrow> length (str_view x) = unat (str_size x)"
  by (simp add: str_view_def string_ok_def)

lemma new_string_ok: "n \<le> STRING_SIZE_MAX \<Longrightarrow> \<exists>x. ssh_string_new True n = Some x \<and> string_ok x \<and> str_size x = n"
  by (simp add: ssh_string_new_def string_ok_def not_less)

lemma small_length: "length (w :: byte list) \<le> 2 ^ 28 \<Longrightarrow> unat (of_nat (length w) :: u32) = length w"
  by (simp add: unat_of_nat take_bit_nat_eq_self_iff)

lemma from_char_ok:
  assumes "length w \<le> 2 ^ 28"
  shows "\<exists>x. ssh_string_from_char True (Some w) = Some x \<and> string_ok x \<and> str_view x = w"
  using assms small_length [OF assms]
  by (auto simp: ssh_string_from_char_def ssh_string_new_def string_ok_def str_view_def STRING_SIZE_MAX_def word_less_nat_alt
      word_le_nat_alt)

text \<open>
  Strings survive conversion. A C string of at most 256 megabytes turned into an SSH string
  and back is the same characters with a terminator; a copy of a non-empty string holds the
  same characters, and a copy of an empty one is null.
\<close>

theorem string_roundtrip:
  assumes "length w \<le> 2 ^ 28"
  shows "ssh_string_to_char True (ssh_string_from_char True (Some w)) = Some (w @ [0]) \<and>
    (\<exists>x. ssh_string_from_char True (Some w) = Some x \<and>
      (if w = [] then ssh_string_copy True (Some x) = None
       else \<exists>y. ssh_string_copy True (Some x) = Some y \<and> string_ok y \<and> str_view y = w))"
proof -
  from from_char_ok [OF assms] obtain x where x: "ssh_string_from_char True (Some w) = Some x" "string_ok x" "str_view x = w"
    by blast
  have size: "unat (str_size x) = length w" using length_str_view [OF x(2)] x(3) by simp
  have le: "unat (str_size x) \<le> 2 ^ 28" "str_size x \<le> STRING_SIZE_MAX" using size assms x(2) by (auto simp: string_ok_def)
  have "\<not> str_size x + 1 < str_size x"
    using le(1) by (simp add: word_less_nat_alt unat_add_no_wrap)
  then have "ssh_string_to_char True (Some x) = Some (w @ [0])"
    using x(2,3) by (simp add: ssh_string_to_char_def str_view_def Let_def)
  moreover have "w = [] \<Longrightarrow> ssh_string_copy True (Some x) = None"
    using size x(2) by (simp add: ssh_string_copy_def unat_eq_zero)
  moreover have "w \<noteq> [] \<Longrightarrow> \<exists>y. ssh_string_copy True (Some x) = Some y \<and> string_ok y \<and> str_view y = w"
    using size x(2,3) le(2)
    by (auto simp: ssh_string_copy_def ssh_string_new_def string_ok_def str_view_def not_less Let_def unat_eq_zero [symmetric])
  ultimately show ?thesis using x(1) by auto
qed

lemma string_roundtrip_witness:
  "ssh_string_to_char True (ssh_string_from_char True (Some [104, 105])) = Some ([104, 105] @ [0])"
  by (rule conjunct1 [OF string_roundtrip]) simp

end
