(* ===== verification/Ssh_Match.thy ===== *)
theory Ssh_Match
  imports Ssh_Token Ssh_String
begin

unbundle bit_operations_syntax

text \<open>
  Matching of names and addresses in the SSH library (\<open>match.c\<close>): wildcard patterns, lists of
  patterns with negation, lists of networks, and groups of names. The resolver and the parser
  of printed addresses, \<open>getaddrinfo\<close> and \<open>inet_pton\<close>, belong to the IP stack and are
  parameters. A C string is its characters before the terminator, a null pointer None.
\<close>

section \<open>Wildcards\<close>

text \<open>The loop ends: a new star shortens the pattern, a retry the string it starts from.\<close>

definition pattern_bound :: "string \<Rightarrow> (string \<times> string) option \<Rightarrow> nat" where
  "pattern_bound pattern star = max (length pattern) (case star of None \<Rightarrow> 0 | Some (p, s) \<Rightarrow> length p)"

text \<open>
  \<open>match_pattern\<close>: the string and the pattern still to be read, and, once a star was met, the
  pattern after it and the string from which it was tried last.
\<close>

function match_loop :: "string \<Rightarrow> string \<Rightarrow> (string \<times> string) option \<Rightarrow> bool" where
  "match_loop [] pattern star = (dropWhile (\<lambda>c. c = CHR ''*'') pattern = [])"
| "match_loop (x # s) pattern star =
     (if pattern \<noteq> [] \<and> (hd pattern = x \<or> hd pattern = CHR ''?'') then match_loop s (tl pattern) star
      else if pattern \<noteq> [] \<and> hd pattern = CHR ''*'' then match_loop (x # s) (tl pattern) (Some (tl pattern, x # s))
      else (case star of
              Some (p_star, s_star) \<Rightarrow> match_loop (tl s_star) p_star (Some (p_star, tl s_star))
            | None \<Rightarrow> False))"
  by pat_completeness auto

termination
proof (relation "measures [\<lambda>(s, p, star). pattern_bound p star,
    \<lambda>(s, p, star). case star of None \<Rightarrow> 0 | Some (q, r) \<Rightarrow> length r, \<lambda>(s, p, star). length s]")
  fix x :: char and s pattern star
  show "((s, tl pattern, star), x # s, pattern, star) \<in> measures [\<lambda>(s, p, star). pattern_bound p star,
    \<lambda>(s, p, star). case star of None \<Rightarrow> 0 | Some (q, r) \<Rightarrow> length r, \<lambda>(s, p, star). length s]"
    by (auto simp: pattern_bound_def split: option.splits)
next
  fix x :: char and s :: string and pattern star
  assume "pattern \<noteq> [] \<and> hd pattern = CHR ''*''"
  then obtain c q where "pattern = c # q" by (cases pattern) auto
  then show "((x # s, tl pattern, Some (tl pattern, x # s)), x # s, pattern, star) \<in> measures [\<lambda>(s, p, star). pattern_bound p star,
    \<lambda>(s, p, star). case star of None \<Rightarrow> 0 | Some (q, r) \<Rightarrow> length r, \<lambda>(s, p, star). length s]"
    by (auto simp: pattern_bound_def split: option.splits)
next
  fix x :: char and s pattern p_star s_star :: string and star a
  assume "star = Some a" "(p_star, s_star) = a"
  then show "((tl s_star, p_star, Some (p_star, tl s_star)), x # s, pattern, star) \<in> measures [\<lambda>(s, p, star). pattern_bound p star,
    \<lambda>(s, p, star). case star of None \<Rightarrow> 0 | Some (q, r) \<Rightarrow> length r, \<lambda>(s, p, star). length s]"
    by (cases s_star) (auto simp: pattern_bound_def)
qed simp

definition match_pattern :: "string option \<Rightarrow> string option \<Rightarrow> bool" where
  "match_pattern s pattern =
     (case (s, pattern) of (Some x, Some p) \<Rightarrow> match_loop (c_str x) (c_str p) None | _ \<Rightarrow> False)"

section \<open>Lists of patterns\<close>

definition lower :: "char \<Rightarrow> char" where
  "lower c = (if 65 \<le> (of_char c :: nat) \<and> (of_char c :: nat) \<le> 90 then char_of ((of_char c :: nat) + 32) else c)"

lemma after_shorter:
  assumes "p \<noteq> []"
  shows "length (dropWhile Q p) - Suc 0 < length p" "length (dropWhile Q (tl p)) - Suc 0 < length p"
proof -
  from assms obtain c q where p: "p = c # q" by (cases p) auto
  have l: "length (dropWhile Q p) \<le> length p" "length (dropWhile Q (tl p)) \<le> length (tl p)"
    by (rule length_dropWhile_le)+
  show "length (dropWhile Q p) - Suc 0 < length p" "length (dropWhile Q (tl p)) - Suc 0 < length p"
    using l p by (simp_all del: dropWhile.simps)
qed

function match_list_loop :: "string option \<Rightarrow> bool \<Rightarrow> bool \<Rightarrow> string \<Rightarrow> int" where
  "match_list_loop s dolower got_positive pattern =
     (if pattern = [] then (if got_positive then 1 else 0)
      else
        let negated = (hd pattern = CHR ''!'');
            rest = (if negated then tl pattern else pattern);
            chunk = takeWhile (\<lambda>c. c \<noteq> CHR '','') rest;
            sub = map (\<lambda>c. if dolower then lower c else c) chunk;
            after = dropWhile (\<lambda>c. c \<noteq> CHR '','') rest
        in if 1024 - 1 \<le> length chunk then 0
           else if match_pattern s (Some sub) then
             (if negated then -1 else match_list_loop s dolower True (tl after))
           else match_list_loop s dolower got_positive (tl after))"
  by pat_completeness auto
termination
  by (relation "measure (\<lambda>(s, l, g, p). length p)") (auto simp: after_shorter)

declare match_list_loop.simps [simp del]

definition match_pattern_list :: "string option \<Rightarrow> string \<Rightarrow> nat \<Rightarrow> bool \<Rightarrow> int" where
  "match_pattern_list s pattern len dolower = match_list_loop s dolower False (take len pattern)"

definition match_hostname :: "string option \<Rightarrow> string \<Rightarrow> nat \<Rightarrow> int" where
  "match_hostname host pattern len = match_pattern_list host pattern len True"


text \<open>\<open>match_group\<close>: whole names after the last separator, \<open>strncmp\<close> with the entry's length before it.\<close>

definition strncmp_eq :: "string \<Rightarrow> string \<Rightarrow> nat \<Rightarrow> bool" where
  "strncmp_eq a b n = (take n a = take n b)"

function match_group_loop :: "string \<Rightarrow> string \<Rightarrow> int" where
  "match_group_loop z object =
     (case dropWhile (\<lambda>c. c \<noteq> CHR '','') z of
        [] \<Rightarrow> if z = object then 1 else 0
      | a # rest \<Rightarrow>
          if strncmp_eq z object (length (takeWhile (\<lambda>c. c \<noteq> CHR '','') z)) then 1
          else match_group_loop rest object)"
  by pat_completeness auto
termination
proof (relation "measure (\<lambda>(z, obj). length z)")
  fix z obj :: string and x21 x22
  assume "dropWhile (\<lambda>c. c \<noteq> CHR '','') z = x21 # x22"
  then have "length (x21 # x22) \<le> length z" using length_dropWhile_le [of "\<lambda>x. x \<noteq> CHR '',''" z] by simp
  then show "((x22, obj), z, obj) \<in> measure (\<lambda>(z, obj). length z)" by simp
qed simp

declare match_group_loop.simps [simp del]

definition match_group :: "string option \<Rightarrow> string option \<Rightarrow> int" where
  "match_group grp object =
     (case (grp, object) of (Some g, Some x) \<Rightarrow> match_group_loop g x | _ \<Rightarrow> 0)"

section \<open>Networks\<close>

text \<open>An address is its bytes in network order; \<open>s_addr\<close> is the processor's word of the four.\<close>

definition cidr_match_6 :: "byte list \<Rightarrow> byte list \<Rightarrow> nat \<Rightarrow> bool" where
  "cidr_match_6 a b bits =
     (let byte_whole = bits div 8; bits_left = bits mod 8 in
      if byte_whole \<noteq> 0 \<and> take byte_whole a \<noteq> take byte_whole b then False
      else if bits_left \<noteq> 0 \<and>
              (ucast (a ! byte_whole) XOR ucast (b ! byte_whole)) AND push_bit (8 - bits_left) (0xFF :: u32) \<noteq> 0 then False
      else True)"

definition cidr_match_4 :: "byte list \<Rightarrow> byte list \<Rightarrow> nat \<Rightarrow> bool" where
  "cidr_match_4 host_addr net_addr bits =
     (if bits = 0 then True
      else ((host_word host_addr XOR host_word net_addr) AND
            htonl (push_bit (32 - bits) 0xFFFFFFFF AND 0xFFFFFFFF)) = 0)"

datatype family = AF_INET | AF_INET6 | AF_other

definition masklen_valid :: "family \<Rightarrow> nat \<Rightarrow> bool" where
  "masklen_valid fam bits = (case fam of AF_INET \<Rightarrow> bits \<le> 32 | AF_INET6 \<Rightarrow> bits \<le> 128 | AF_other \<Rightarrow> False)"

text \<open>The IP stack: the family of a printed address, and the address in binary.\<close>

record ip_stack =
  getaddrinfo :: "string \<Rightarrow> family option"
  inet_pton :: "family \<Rightarrow> string \<Rightarrow> byte list option"

definition get_address_family :: "ip_stack \<Rightarrow> string option \<Rightarrow> family option" where
  "get_address_family ip address = (case address of None \<Rightarrow> None | Some a \<Rightarrow> getaddrinfo ip a)"

text \<open>
  \<open>strtoul\<close> for the inputs that reach it: the digits' value, at most the largest
  \<open>unsigned long\<close> (32 bits), and the rest. Other characters leave the first check to fail.
\<close>

definition is_digit :: "char \<Rightarrow> bool" where
  "is_digit c = (48 \<le> (of_char c :: nat) \<and> (of_char c :: nat) \<le> 57)"

definition digits_value :: "string \<Rightarrow> nat" where
  "digits_value ds = foldl (\<lambda>n c. 10 * n + (of_char c - 48)) 0 ds"

definition strtoul :: "string \<Rightarrow> nat \<times> string" where
  "strtoul s = (min (digits_value (takeWhile is_digit s)) (2 ^ 32 - 1), dropWhile is_digit s)"

definition VALID_CIDR_CHARS :: string where "VALID_CIDR_CHARS = ''0123456789abcdefABCDEF.:/''"

text \<open>
  One entry of the list: \<open>Inl\<close> an error (-1), \<open>Inr\<close> whether it matches. \<open>try\<close> is the host's
  address in binary.
\<close>

definition cidr_entry :: "ip_stack \<Rightarrow> family option \<Rightarrow> byte list \<Rightarrow> string \<Rightarrow> unit + bool" where
  "cidr_entry ip sa_family try_addr cp =
     (if cp = [] then Inl ()
      else if 46 + 3 < length cp then Inl ()
      else if length (takeWhile (\<lambda>c. c \<in> set VALID_CIDR_CHARS) cp) \<noteq> length cp then Inl ()
      else
        (let addr = takeWhile (\<lambda>c. c \<noteq> CHR ''/'') cp in
         case dropWhile (\<lambda>c. c \<noteq> CHR ''/'') cp of
           [] \<Rightarrow> Inl ()
         | _ # sp \<Rightarrow>
             (let (mask_len, rest) = strtoul sp in
              if sp = [] \<or> \<not> is_digit (hd sp) \<or> rest \<noteq> [] then Inl ()
              else if 128 < mask_len then Inl ()
              else case get_address_family ip (Some addr) of
                None \<Rightarrow> Inl ()
              | Some AF_other \<Rightarrow> Inl ()
              | Some fam \<Rightarrow>
                  (case inet_pton ip fam addr of
                     None \<Rightarrow> Inl ()
                   | Some match_addr \<Rightarrow>
                       if \<not> masklen_valid fam mask_len then Inl ()
                       else Inr ((fam = AF_INET \<and> sa_family = Some AF_INET \<and> cidr_match_4 try_addr match_addr mask_len) \<or>
                                 (fam = AF_INET6 \<and> sa_family = Some AF_INET6 \<and> cidr_match_6 try_addr match_addr mask_len))))))"

function split_on :: "char \<Rightarrow> string \<Rightarrow> string list" where
  "split_on sep c =
     takeWhile (\<lambda>x. x \<noteq> sep) c #
     (case dropWhile (\<lambda>x. x \<noteq> sep) c of [] \<Rightarrow> [] | found # rest \<Rightarrow> split_on sep rest)"
  by pat_completeness auto
termination
proof (relation "measure (\<lambda>(sep, c). length c)")
  fix sep c x2 and x1 :: char
  assume "dropWhile (\<lambda>x. x \<noteq> sep) c = x1 # x2"
  then have "length (x1 # x2) \<le> length c" using length_dropWhile_le [of "\<lambda>x. x \<noteq> sep" c] by simp
  then show "((sep, x2), sep, c) \<in> measure (\<lambda>(sep, c). length c)" by simp
qed simp

declare split_on.simps [simp del]

fun cidr_loop :: "ip_stack \<Rightarrow> family option \<Rightarrow> byte list \<Rightarrow> string list \<Rightarrow> int" where
  "cidr_loop ip sa_family try_addr [] = 0"
| "cidr_loop ip sa_family try_addr (cp # cps) =
     (case cidr_entry ip sa_family try_addr cp of
        Inl _ \<Rightarrow> -1
      | Inr True \<Rightarrow> 1
      | Inr False \<Rightarrow> cidr_loop ip sa_family try_addr cps)"

text \<open>
  \<open>match_cidr_address_list\<close>. \<open>sa_family\<close> is None for -1; an address that does not fit its buffer
  leaves it unterminated, and the function reads on: no result.
\<close>

definition match_cidr_address_list :: "bool \<Rightarrow> ip_stack \<Rightarrow> string option \<Rightarrow> string \<Rightarrow> family option \<Rightarrow> int option" where
  "match_cidr_address_list m ip address addrlist sa_family =
     (if sa_family = Some AF_other then Some (-1)
      else
        let go = (\<lambda>fam try_addr. if \<not> m then Some (-1) else Some (cidr_loop ip fam try_addr (split_on (CHR '','') addrlist)))
        in case address of
             None \<Rightarrow> go sa_family (replicate 16 0)
           | Some host \<Rightarrow>
               if 1025 - 1 \<le> length host then None
               else
                 let addr = takeWhile (\<lambda>c. c \<noteq> CHR ''%'') host;
                     fam = (case sa_family of None \<Rightarrow> get_address_family ip (Some addr) | Some f \<Rightarrow> Some f)
                 in case fam of
                      None \<Rightarrow> Some (-1)
                    | Some AF_other \<Rightarrow> Some (-1)
                    | Some f \<Rightarrow>
                        (case inet_pton ip f addr of None \<Rightarrow> Some (-1) | Some t \<Rightarrow> go (Some f) t))"


section \<open>Wildcards: the reference\<close>

text \<open>What a pattern means, by recursion on it.\<close>

fun glob :: "string \<Rightarrow> string \<Rightarrow> bool" where
  "glob [] s = (s = [])"
| "glob (c # p) s =
     (if c = CHR ''*'' then (\<exists>k\<le>length s. glob p (drop k s))
      else (case s of [] \<Rightarrow> False | x # xs \<Rightarrow> (c = CHR ''?'' \<or> c = x) \<and> glob p xs))"

text \<open>A star-free piece of a pattern against a piece of the string of the same length.\<close>

abbreviation fits :: "string \<Rightarrow> string \<Rightarrow> bool" where
  "fits q u \<equiv> list_all2 (\<lambda>c x. c \<noteq> CHR ''*'' \<and> (c = CHR ''?'' \<or> c = x)) q u"

lemma glob_fits:
  "CHR ''*'' \<notin> set q \<Longrightarrow>
   glob (q @ p) t = (length q \<le> length t \<and> fits q (take (length q) t) \<and> glob p (drop (length q) t))"
proof (induction q arbitrary: t)
  case (Cons c q)
  then show ?case by (cases t) auto
qed simp

lemma fits_no_star: "fits q u \<Longrightarrow> CHR ''*'' \<notin> set q"
  by (induction rule: list_all2_induct) auto

lemma glob_stars: "glob p [] = (dropWhile (\<lambda>c. c = CHR ''*'') p = [])"
  by (induction p) auto

lemma glob_star_tl:
  "s \<noteq> [] \<Longrightarrow> glob (CHR ''*'' # p) s = (glob p s \<or> glob (CHR ''*'' # p) (tl s))"
proof (intro iffI)
  assume "s \<noteq> []" "glob (CHR ''*'' # p) s"
  then obtain k where k: "k \<le> length s" "glob p (drop k s)" by auto
  show "glob p s \<or> glob (CHR ''*'' # p) (tl s)"
  proof (cases k)
    case (Suc j)
    then have "drop j (tl s) = drop k s" by (simp add: drop_Suc)
    then show ?thesis using k Suc \<open>s \<noteq> []\<close> by (auto intro!: exI [of _ j])
  qed (use k in auto)
next
  assume s: "s \<noteq> []" and "glob p s \<or> glob (CHR ''*'' # p) (tl s)"
  then consider "glob p s" | k where "k \<le> length (tl s)" "glob p (drop k (tl s))" by auto
  then show "glob (CHR ''*'' # p) s"
  proof cases
    case 1
    then show ?thesis by (auto intro!: exI [of _ 0])
  next
    case 2
    moreover have "Suc k \<le> length s" using s 2 by (cases s) auto
    ultimately show ?thesis by (auto intro!: exI [of _ "Suc k"] simp: drop_Suc)
  qed
qed

text \<open>Only the last star matters: what was matched since the previous one stays matched.\<close>

lemma glob_two_stars:
  assumes "fits q u"
  shows "glob (CHR ''*'' # q @ CHR ''*'' # p) (u @ s) = glob (CHR ''*'' # p) s"
proof
  have nq: "CHR ''*'' \<notin> set q" by (rule fits_no_star [OF assms])
  have len: "length q = length u" using assms by (rule list_all2_lengthD)
  assume "glob (CHR ''*'' # q @ CHR ''*'' # p) (u @ s)"
  then obtain k where k: "k \<le> length (u @ s)" "glob (q @ CHR ''*'' # p) (drop k (u @ s))" by auto
  then have g: "glob (CHR ''*'' # p) (drop (length q) (drop k (u @ s)))" and "length q \<le> length (drop k (u @ s))"
    using glob_fits [OF nq] by blast+
  then have k': "k \<le> length s" using k(1) len by (simp only: length_drop length_append)
  have "drop (length q) (drop k (u @ s)) = drop (k + length u) (u @ s)"
    by (simp only: len drop_drop add.commute)
  also have "\<dots> = drop k s" by simp
  finally have "glob (CHR ''*'' # p) (drop k s)" using g by simp
  then obtain j where "j \<le> length s - k" "glob p (drop j (drop k s))" by auto
  then have "j + k \<le> length s" "glob p (drop (j + k) s)" using k' by auto
  then show "glob (CHR ''*'' # p) s" by auto
next
  assume "glob (CHR ''*'' # p) s"
  then have "glob (q @ CHR ''*'' # p) (u @ s)"
    using glob_fits [OF fits_no_star [OF assms], of "CHR ''*'' # p" "u @ s"] assms list_all2_lengthD [OF assms] by simp
  then show "glob (CHR ''*'' # q @ CHR ''*'' # p) (u @ s)" by (auto intro!: exI [of _ 0])
qed

text \<open>
  The loop against the reference. With a star met, the pattern since it has fitted the string
  since the last retry.
\<close>

lemma match_loop_none_some:
  assumes "CHR ''*'' \<notin> set s" and "\<forall>p ss. star = Some (p, ss) \<longrightarrow> CHR ''*'' \<notin> set ss"
    and "\<forall>p ss. star = Some (p, ss) \<longrightarrow> (\<exists>q u. p = q @ pattern \<and> ss = u @ s \<and> fits q u)"
  shows "match_loop s pattern star =
    (case star of None \<Rightarrow> glob pattern s | Some (p, ss) \<Rightarrow> glob (CHR ''*'' # p) ss)"
  using assms
proof (induction s pattern star rule: match_loop.induct)
  case (1 pattern star)
  show ?case
  proof (cases star)
    case None
    then show ?thesis by (simp add: glob_stars)
  next
    case (Some a)
    obtain p ss where a: "a = (p, ss)" by (cases a)
    with 1 Some obtain q where q: "p = q @ pattern" "fits q ss" by auto
    have len: "length q = length ss" using q(2) by (rule list_all2_lengthD)
    have "glob (CHR ''*'' # p) ss = glob pattern []"
    proof
      assume "glob (CHR ''*'' # p) ss"
      then obtain k where "k \<le> length ss" "glob (q @ pattern) (drop k ss)" using q by auto
      then have "length q \<le> length ss - k" "glob pattern (drop (length q) (drop k ss))"
        using glob_fits [OF fits_no_star [OF q(2)]] by fastforce+
      then show "glob pattern []" using len by simp
    next
      assume "glob pattern []"
      then have "glob p ss" using glob_fits [OF fits_no_star [OF q(2)], of pattern ss] q len by simp
      then show "glob (CHR ''*'' # p) ss" by (auto intro!: exI [of _ 0])
    qed
    then show ?thesis using Some a by (simp add: glob_stars)
  qed
next
  case (2 x s pattern star)
  have x: "x \<noteq> CHR ''*''" using "2.prems" by auto
  consider (char) c ps where "pattern = c # ps" "c = x \<or> c = CHR ''?''"
    | (star) ps where "pattern = CHR ''*'' # ps"
    | (mismatch) "\<not> (pattern \<noteq> [] \<and> (hd pattern = x \<or> hd pattern = CHR ''?''))" "\<not> (pattern \<noteq> [] \<and> hd pattern = CHR ''*'')"
    by (cases pattern) auto
  then show ?case
  proof cases
    case char
    have ok: "c \<noteq> CHR ''*''" and tp: "tl pattern = ps" using char x by auto
    have inv: "\<forall>p ss. star = Some (p, ss) \<longrightarrow> (\<exists>q u. p = q @ ps \<and> ss = u @ s \<and> fits q u)"
    proof (intro allI impI)
      fix p ss assume "star = Some (p, ss)"
      then obtain q u where "p = q @ pattern" "ss = u @ x # s" "fits q u" using "2.prems"(3) by blast
      then have "p = (q @ [c]) @ ps \<and> ss = (u @ [x]) @ s \<and> fits (q @ [c]) (u @ [x])"
        using char ok by (auto intro!: list_all2_appendI)
      then show "\<exists>q u. p = q @ ps \<and> ss = u @ s \<and> fits q u" by blast
    qed
    have "match_loop s ps star = (case star of None \<Rightarrow> glob ps s | Some (p, ss) \<Rightarrow> glob (CHR ''*'' # p) ss)"
    proof (rule "2.IH"(1) [unfolded tp])
      show "pattern \<noteq> [] \<and> (hd pattern = x \<or> hd pattern = CHR ''?'')" using char by auto
    qed (use "2.prems" inv in auto)
    moreover have "match_loop (x # s) pattern star = match_loop s ps star" using char by auto
    ultimately show ?thesis using char ok by (auto split: option.split)
  next
    case star
    have "match_loop (x # s) pattern star = match_loop (x # s) ps (Some (ps, x # s))" using star x by auto
    also have "\<dots> = glob pattern (x # s)" using "2.IH"(2) "2.prems" star x by auto
    also have "\<dots> = (case star of None \<Rightarrow> glob pattern (x # s) | Some (p, ss) \<Rightarrow> glob (CHR ''*'' # p) ss)"
    proof (cases star)
      case (Some a)
      obtain p ss where a: "a = (p, ss)" by (cases a)
      with "2.prems"(3) Some star obtain q u where "p = q @ CHR ''*'' # ps" "ss = u @ x # s" "fits q u" by auto
      then show ?thesis using Some a star glob_two_stars [of q u ps "x # s"] by simp
    qed simp
    finally show ?thesis .
  next
    case mismatch
    have ng: "\<not> glob pattern (x # s)" using mismatch by (cases pattern) auto
    have step: "match_loop (x # s) pattern star = (case star of
        Some (p_star, s_star) \<Rightarrow> match_loop (tl s_star) p_star (Some (p_star, tl s_star)) | None \<Rightarrow> False)"
      by (rule trans [OF match_loop.simps(2)]) (simp only: if_not_P [OF mismatch(1)] if_not_P [OF mismatch(2)])
    show ?thesis
    proof (cases star)
      case None
      then show ?thesis unfolding step by (simp only: option.case ng)
    next
      case (Some a)
      obtain p ss where a: "a = (p, ss)" by (cases a)
      with "2.prems"(3) Some obtain q u where q: "p = q @ pattern" "ss = u @ x # s" "fits q u" by auto
      then have "\<not> glob p ss"
        using glob_fits [OF fits_no_star [OF q(3)], of pattern ss] ng list_all2_lengthD [OF q(3)] by simp
      then have "glob (CHR ''*'' # p) ss = glob (CHR ''*'' # p) (tl ss)" using glob_star_tl [of ss p] q(2) by simp
      moreover have "CHR ''*'' \<notin> set (tl ss)" using "2.prems"(2) Some a q(2) by (cases u) auto
      then have "match_loop (tl ss) p (Some (p, tl ss)) = glob (CHR ''*'' # p) (tl ss)"
        using "2.IH"(3) [OF mismatch Some] a by auto
      ultimately show ?thesis unfolding step by (simp only: Some a option.case prod.case)
    qed
  qed
qed


text \<open>
  The iterative matcher decides the wildcard language. On a string that has no star in it,
  \<open>match_pattern\<close> answers exactly what the recursive reading of the pattern says, where a star
  stands for any characters and a question mark for one.
\<close>

theorem match_pattern_is_glob:
  assumes "CHR ''*'' \<notin> set (c_str s)"
  shows "match_pattern (Some s) (Some p) = glob (c_str p) (c_str s)"
  using match_loop_none_some [OF assms, of None "c_str p"] by (simp add: match_pattern_def)

theorem match_pattern_is_glob_witness:
  "CHR ''*'' \<notin> set (c_str ''web.host.lan'') \<and>
   match_pattern (Some ''web.host.lan'') (Some ''*.h?st.*'') = glob (c_str ''*.h?st.*'') (c_str ''web.host.lan'')"
proof -
  have s: "CHR ''*'' \<notin> set (c_str ''web.host.lan'')" by code_simp
  show ?thesis using s match_pattern_is_glob [OF s] by simp
qed

text \<open>
  A star in the string itself is taken for the star of the pattern. The pattern of one star
  matches every string, but not a string that begins with a star and goes on: the loop tests
  equality first and uses the pattern's star up.
\<close>

theorem literal_star_not_matched:
  "glob ''*'' s \<and> \<not> match_pattern (Some ''*a'') (Some ''*'')"
proof
  show "glob ''*'' s" by (auto intro!: exI [of _ "length s"])
  show "\<not> match_pattern (Some ''*a'') (Some ''*'')" by code_simp
qed

section \<open>Lists of patterns: the reference\<close>

text \<open>The entries: whether negated, and the pattern in the case it is compared in.\<close>

definition entry :: "bool \<Rightarrow> string \<Rightarrow> bool \<times> string" where
  "entry dolower t =
     (let neg = (t \<noteq> [] \<and> hd t = CHR ''!''); body = (if neg then tl t else t)
      in (neg, map (\<lambda>c. if dolower then lower c else c) body))"

definition entries :: "bool \<Rightarrow> string \<Rightarrow> (bool \<times> string) list" where
  "entries dolower p = (if p = [] then [] else map (entry dolower) (tokens_of (CHR '','') p))"

lemma entries_step:
  fixes p :: string
  assumes "p \<noteq> []"
  defines "neg \<equiv> hd p = CHR ''!''"
  defines "rest \<equiv> if neg then tl p else p"
  shows "entries dolower p = (neg, map (\<lambda>c. if dolower then lower c else c) (takeWhile (\<lambda>c. c \<noteq> CHR '','') rest))
    # entries dolower (tl (dropWhile (\<lambda>c. c \<noteq> CHR '','') rest))"
proof -
  obtain c q where p: "p = c # q" using assms(1) by (cases p) auto
  have tok: "takeWhile (\<lambda>c. c \<noteq> CHR '','') p = (if neg then [c] else []) @ takeWhile (\<lambda>c. c \<noteq> CHR '','') rest"
    "dropWhile (\<lambda>c. c \<noteq> CHR '','') p = dropWhile (\<lambda>c. c \<noteq> CHR '','') rest"
    by (auto simp: p neg_def rest_def)
  have neg': "takeWhile (\<lambda>c. c \<noteq> CHR '','') p \<noteq> [] \<and> hd (takeWhile (\<lambda>c. c \<noteq> CHR '','') p) = CHR ''!'' \<longleftrightarrow> neg"
    by (auto simp: p neg_def)
  have e: "entry dolower (takeWhile (\<lambda>c. c \<noteq> CHR '','') p) =
      (neg, map (\<lambda>c. if dolower then lower c else c) (takeWhile (\<lambda>c. c \<noteq> CHR '','') rest))"
    unfolding entry_def neg' Let_def by (simp add: tok(1))
  have t: "tokens_of (CHR '','') p = takeWhile (\<lambda>c. c \<noteq> CHR '','') p #
      (let r = tl (dropWhile (\<lambda>c. c \<noteq> CHR '','') rest) in if r = [] then [] else tokens_of (CHR '','') r)"
    unfolding tokens_of.simps [of _ p] tok(2)
    by (cases "dropWhile (\<lambda>c. c \<noteq> CHR '','') rest") (simp_all add: Let_def del: dropWhile_eq_Nil_conv)
  show ?thesis using assms(1) by (simp add: entries_def t e Let_def)
qed

text \<open>The loop against the entries, in any order.\<close>

lemma match_list_loop_spec:
  assumes "\<forall>e\<in>set (entries dolower p). length (snd e) < 1023"
  shows "match_list_loop s dolower got p =
    (if \<exists>e\<in>set (entries dolower p). fst e \<and> match_pattern s (Some (snd e)) then -1
     else if got \<or> (\<exists>e\<in>set (entries dolower p). \<not> fst e \<and> match_pattern s (Some (snd e))) then 1 else 0)"
  using assms
proof (induction "length p" arbitrary: p got rule: less_induct)
  case less
  show ?case
  proof (cases "p = []")
    case True
    then show ?thesis by (simp add: match_list_loop.simps entries_def)
  next
    case False
    let ?neg = "hd p = CHR ''!''"
    let ?rest = "if ?neg then tl p else p"
    let ?chunk = "takeWhile (\<lambda>c. c \<noteq> CHR '','') ?rest"
    let ?sub = "map (\<lambda>c. if dolower then lower c else c) ?chunk"
    let ?after = "tl (dropWhile (\<lambda>c. c \<noteq> CHR '','') ?rest)"
    have es: "entries dolower p = (?neg, ?sub) # entries dolower ?after" by (rule entries_step [OF False])
    have short: "length ?chunk < 1023" using less.prems unfolding es by simp
    have smaller: "length ?after < length p" using after_shorter [OF False] by simp
    have after: "\<forall>e\<in>set (entries dolower ?after). length (snd e) < 1023" using less.prems unfolding es by simp
    have "match_list_loop s dolower got p =
      (if match_pattern s (Some ?sub) then (if ?neg then -1 else match_list_loop s dolower True ?after)
       else match_list_loop s dolower got ?after)"
      unfolding match_list_loop.simps [of s dolower got p] Let_def using False short by (simp only: if_False if_not_P not_le)
    then show ?thesis
      unfolding less.hyps [OF smaller after] unfolding es by auto
  qed
qed

text \<open>
  A negated pattern that matches wins wherever it stands. When no entry is too long for the
  buffer, the list gives -1 if some negated entry matches, otherwise 1 if some plain entry does,
  and otherwise 0, whatever the order.
\<close>

theorem match_list_negation_wins:
  assumes "\<forall>e\<in>set (entries dolower (take n p)). length (snd e) < 1023"
  shows "match_pattern_list s p n dolower =
    (if \<exists>e\<in>set (entries dolower (take n p)). fst e \<and> match_pattern s (Some (snd e)) then -1
     else if \<exists>e\<in>set (entries dolower (take n p)). \<not> fst e \<and> match_pattern s (Some (snd e)) then 1 else 0)"
  unfolding match_pattern_list_def match_list_loop_spec [OF assms] by simp

theorem match_list_negation_wins_witness:
  "entries True ''*.Lan,!web.*'' = [(False, ''*.lan''), (True, ''web.*'')] \<and>
   match_pattern_list (Some ''web.lan'') ''*.Lan,!web.*'' 12 True = -1"
proof -
  have e: "entries True (take 12 ''*.Lan,!web.*'') = [(False, ''*.lan''), (True, ''web.*'')]" by code_simp
  have m: "match_pattern (Some ''web.lan'') (Some ''web.*'')" by code_simp
  show ?thesis using match_list_negation_wins [of True 12 "''*.Lan,!web.*''" "Some ''web.lan''"] e m by simp
qed

section \<open>Groups and networks\<close>

text \<open>
  The groups of names are not matched by whole names. An entry followed by a comma matches
  every object that begins with it, and an empty entry matches everything.
\<close>

theorem match_group_prefix:
  "match_group (Some ''rsa,dss'') (Some ''rsa-sha2'') = 1 \<and> match_group (Some (CHR '','' # g)) (Some x) = 1"
proof
  show "match_group (Some ''rsa,dss'') (Some ''rsa-sha2'') = 1" by code_simp
  show "match_group (Some (CHR '','' # g)) (Some x) = 1"
    by (simp add: match_group_def match_group_loop.simps strncmp_eq_def)
qed


text \<open>The bits of an address, the most significant of the first byte first.\<close>

definition addr_bit :: "byte list \<Rightarrow> nat \<Rightarrow> bool" where
  "addr_bit a k = bit (a ! (k div 8)) (7 - k mod 8)"

lemma byte_eq_bits: "(x = (y :: byte)) = (\<forall>r<8. bit x (7 - r) = bit y (7 - r))"
proof
  assume r: "\<forall>r<8. bit x (7 - r) = bit y (7 - r)"
  show "x = y"
  proof (rule bit_word_eqI)
    fix i assume "i < LENGTH(8)"
    then show "bit x i = bit y i" using r [rule_format, of "7 - i"] by simp
  qed
qed simp

lemma prefix_bits:
  assumes "k \<le> length a" "k \<le> length b"
  shows "(take k a = take k b) = (\<forall>i<8 * k. addr_bit a i = addr_bit b i)"
proof -
  have "(take k a = take k b) = (\<forall>j<k. a ! j = b ! j)"
    using assms by (auto simp: list_eq_iff_nth_eq)
  also have "\<dots> = (\<forall>j<k. \<forall>r<8. bit (a ! j) (7 - r) = bit (b ! j) (7 - r))" by (simp only: byte_eq_bits)
  also have "\<dots> = (\<forall>i<8 * k. addr_bit a i = addr_bit b i)"
  proof (rule iffI; intro allI impI)
    fix i assume h: "\<forall>j<k. \<forall>r<8. bit (a ! j) (7 - r) = bit (b ! j) (7 - r)" and i: "i < 8 * k"
    have "i div 8 < k" "i mod 8 < 8" using i by auto
    with h show "addr_bit a i = addr_bit b i" by (simp add: addr_bit_def)
  next
    fix j r assume h: "\<forall>i<8 * k. addr_bit a i = addr_bit b i" and j: "j < k" "r < (8 :: nat)"
    then have "8 * j + r < 8 * k" by linarith
    with h have "addr_bit a (8 * j + r) = addr_bit b (8 * j + r)" by blast
    then show "bit (a ! j) (7 - r) = bit (b ! j) (7 - r)" using j by (simp add: addr_bit_def)
  qed
  finally show ?thesis .
qed

lemma mask_byte_bits:
  assumes "0 < r" "r < 8"
  shows "((ucast (x :: byte) XOR ucast (y :: byte)) AND push_bit (8 - r) (0xFF :: u32) = 0) =
    (\<forall>i<r. bit x (7 - i) = bit y (7 - i))"
proof -
  have ff: "(0xFF :: u32) = mask 8" by (simp add: mask_eq_exp_minus_1)
  have "((ucast x XOR ucast y) AND push_bit (8 - r) (0xFF :: u32) = 0) =
      (\<forall>n<32. \<not> bit ((ucast x XOR ucast y) AND push_bit (8 - r) (mask 8 :: u32)) n)"
    unfolding ff bit_eq_iff by simp
  also have "\<dots> = (\<forall>n<32. \<not> (bit x n \<noteq> bit y n \<and> 8 - r \<le> n))"
  proof (rule all_cong)
    fix n assume "n < (32 :: nat)"
    have x8: "bit x n \<Longrightarrow> n < 8" "bit y n \<Longrightarrow> n < 8" by (auto dest: bit_imp_le_length)
    show "(\<not> bit ((ucast x XOR ucast y) AND push_bit (8 - r) (mask 8 :: u32)) n) = (\<not> (bit x n \<noteq> bit y n \<and> 8 - r \<le> n))"
      using assms x8 \<open>n < 32\<close>
      by (cases "n < 8") (auto simp: bit_and_iff bit_xor_iff bit_push_bit_iff bit_unsigned_iff bit_mask_iff)
  qed
  also have "\<dots> = (\<forall>i<r. bit x (7 - i) = bit y (7 - i))"
  proof (rule iffI; intro allI impI)
    fix i assume "\<forall>n<32. \<not> (bit x n \<noteq> bit y n \<and> 8 - r \<le> n)" "i < r"
    then show "bit x (7 - i) = bit y (7 - i)" using assms by (auto dest: spec [of _ "7 - i"])
  next
    fix n assume h: "\<forall>i<r. bit x (7 - i) = bit y (7 - i)" and "n < (32 :: nat)"
    show "\<not> (bit x n \<noteq> bit y n \<and> 8 - r \<le> n)"
    proof (cases "n < 8")
      case True
      then show ?thesis using h [rule_format, of "7 - n"] assms by auto
    qed (auto dest: bit_imp_le_length)
  qed
  finally show ?thesis .
qed

text \<open>
  An IPv6 address is in a network exactly when the first bits of the two addresses, as many
  as the prefix says, are the same.
\<close>

theorem cidr6_prefix:
  assumes "length a = 16" "length b = 16" "n \<le> 128"
  shows "cidr_match_6 a b n = (\<forall>i<n. addr_bit a i = addr_bit b i)"
proof -
  define k r where kr: "k = n div 8" "r = n mod 8"
  then have n: "n = 8 * k + r" "r < 8" by auto
  have k: "k \<le> 16" using assms(3) n by linarith
  have whole: "(k \<noteq> 0 \<and> take k a \<noteq> take k b) = (\<not> (\<forall>i<8 * k. addr_bit a i = addr_bit b i))"
    using prefix_bits [of k a b] k assms by auto
  have "(r \<noteq> 0 \<and> (ucast (a ! k) XOR ucast (b ! k)) AND push_bit (8 - r) (0xFF :: u32) \<noteq> 0) =
      (\<not> (\<forall>i<r. addr_bit a (8 * k + i) = addr_bit b (8 * k + i)))"
  proof (cases "r = 0")
    case False
    then show ?thesis using mask_byte_bits [of r "a ! k" "b ! k"] n(2) by (auto simp: addr_bit_def)
  qed simp
  then have "cidr_match_6 a b n =
      ((\<forall>i<8 * k. addr_bit a i = addr_bit b i) \<and> (\<forall>i<r. addr_bit a (8 * k + i) = addr_bit b (8 * k + i)))"
    unfolding cidr_match_6_def Let_def kr [symmetric] whole by simp
  also have "\<dots> = (\<forall>i<8 * k + r. addr_bit a i = addr_bit b i)"
  proof (rule iffI; intro conjI allI impI)
    fix i assume h: "(\<forall>i<8 * k. addr_bit a i = addr_bit b i) \<and> (\<forall>i<r. addr_bit a (8 * k + i) = addr_bit b (8 * k + i))"
      and i: "i < 8 * k + r"
    show "addr_bit a i = addr_bit b i"
    proof (cases "i < 8 * k")
      case False
      then obtain j where "i = 8 * k + j" using le_Suc_ex [of "8 * k" i] by auto
      then show ?thesis using h i by simp
    qed (use h in simp)
  qed auto
  finally show ?thesis using n(1) by simp
qed

theorem cidr6_prefix_witness:
  "cidr_match_6 (0x20 # 0x01 # replicate 14 7) (0x20 # 0x0F # replicate 14 0) 12 \<and>
   addr_bit (0x20 # 0x01 # replicate 14 7) 11 = addr_bit (0x20 # 0x0F # replicate 14 0) 11"
proof -
  have m: "cidr_match_6 (0x20 # 0x01 # replicate 14 7) (0x20 # 0x0F # replicate 14 0) 12" by code_simp
  have "cidr_match_6 (0x20 # 0x01 # replicate 14 7) (0x20 # 0x0F # replicate 14 0) 12 =
    (\<forall>i<12. addr_bit (0x20 # 0x01 # replicate 14 7) i = addr_bit (0x20 # 0x0F # replicate 14 0) i)"
    by (rule cidr6_prefix) simp_all
  with m show ?thesis by simp
qed

end
