(* ===== verification/Kex_Choice.thy ===== *)
theory Kex_Choice
  imports Ssh_Token Ssh_Match
begin

text \<open>
  The choice of algorithms (\<open>kex.c\<close>): the tables of methods, the lists a client offers, and what
  is agreed on from the lists of the two sides. A list is a comma-separated C string; the ten kinds
  of methods are numbered as in \<open>ssh_kex_types_e\<close>. The library is built for mbedTLS with elliptic
  curves and group exchange, without compression; \<open>gcm\<close> says whether mbedTLS has GCM. FIPS mode does
  not exist there (\<open>ssh_fips_mode\<close> is the constant \<open>false\<close>).
\<close>

section \<open>Tables\<close>

abbreviation (input) SSH_KEX :: nat where "SSH_KEX \<equiv> 0"
abbreviation (input) SSH_HOSTKEYS :: nat where "SSH_HOSTKEYS \<equiv> 1"
abbreviation (input) SSH_MAC_C_S :: nat where "SSH_MAC_C_S \<equiv> 4"
abbreviation (input) SSH_MAC_S_C :: nat where "SSH_MAC_S_C \<equiv> 5"
abbreviation (input) SSH_LANG_C_S :: nat where "SSH_LANG_C_S \<equiv> 8"
abbreviation (input) SSH_LANG_S_C :: nat where "SSH_LANG_S_C \<equiv> 9"
abbreviation (input) SSH_KEX_METHODS :: nat where "SSH_KEX_METHODS \<equiv> 10"

definition AES :: "bool \<Rightarrow> string" where
  "AES gcm = (if gcm then ''aes256-gcm@openssh.com,aes128-gcm@openssh.com,'' else []) @ ''aes256-ctr,aes192-ctr,aes128-ctr''"

definition EC_HOSTKEYS :: string where
  "EC_HOSTKEYS = ''ecdsa-sha2-nistp521,ecdsa-sha2-nistp384,ecdsa-sha2-nistp256,''"

definition DEFAULT_HOSTKEYS :: string where
  "DEFAULT_HOSTKEYS = ''ssh-ed25519,'' @ EC_HOSTKEYS @
     ''sk-ssh-ed25519@openssh.com,sk-ecdsa-sha2-nistp256@openssh.com,rsa-sha2-512,rsa-sha2-256''"

definition HOSTKEYS :: string where
  "HOSTKEYS = DEFAULT_HOSTKEYS @ '',ssh-rsa''"

definition EC_PUBLIC_KEY_ALGORITHMS :: string where
  "EC_PUBLIC_KEY_ALGORITHMS =
     ''ecdsa-sha2-nistp521-cert-v01@openssh.com,ecdsa-sha2-nistp384-cert-v01@openssh.com,'' @
     ''ecdsa-sha2-nistp256-cert-v01@openssh.com,sk-ecdsa-sha2-nistp256-cert-v01@openssh.com,''"

definition PUBLIC_KEY_ALGORITHMS :: string where
  "PUBLIC_KEY_ALGORITHMS =
     ''ssh-ed25519-cert-v01@openssh.com,sk-ssh-ed25519-cert-v01@openssh.com,'' @ EC_PUBLIC_KEY_ALGORITHMS @
     ''rsa-sha2-512-cert-v01@openssh.com,rsa-sha2-256-cert-v01@openssh.com,ssh-rsa-cert-v01@openssh.com,'' @ HOSTKEYS"

definition DEFAULT_PUBLIC_KEY_ALGORITHMS :: string where
  "DEFAULT_PUBLIC_KEY_ALGORITHMS =
     ''ssh-ed25519-cert-v01@openssh.com,'' @ EC_PUBLIC_KEY_ALGORITHMS @
     ''rsa-sha2-512-cert-v01@openssh.com,rsa-sha2-256-cert-v01@openssh.com,'' @ DEFAULT_HOSTKEYS"

definition DEFAULT_KEY_EXCHANGE :: string where
  "DEFAULT_KEY_EXCHANGE =
     ''curve25519-sha256,curve25519-sha256@libssh.org,ecdh-sha2-nistp256,ecdh-sha2-nistp384,ecdh-sha2-nistp521,'' @
     ''diffie-hellman-group18-sha512,diffie-hellman-group16-sha512,'' @
     ''diffie-hellman-group-exchange-sha256,diffie-hellman-group14-sha256''"

definition KEY_EXCHANGE_SUPPORTED :: string where
  "KEY_EXCHANGE_SUPPORTED =
     ''diffie-hellman-group-exchange-sha1,'' @ DEFAULT_KEY_EXCHANGE @ '',diffie-hellman-group14-sha1,diffie-hellman-group1-sha1''"

definition KEX_EXTENSION_CLIENT :: string where "KEX_EXTENSION_CLIENT = ''ext-info-c''"
definition KEX_STRICT_CLIENT :: string where "KEX_STRICT_CLIENT = ''kex-strict-c-v00@openssh.com''"
definition KEX_STRICT_SERVER :: string where "KEX_STRICT_SERVER = ''kex-strict-s-v00@openssh.com''"

definition default_methods :: "bool \<Rightarrow> string list" where
  "default_methods gcm =
     [DEFAULT_KEY_EXCHANGE, DEFAULT_PUBLIC_KEY_ALGORITHMS, AES gcm, AES gcm,
      ''hmac-sha2-256-etm@openssh.com,hmac-sha2-512-etm@openssh.com,hmac-sha2-256,hmac-sha2-512'',
      ''hmac-sha2-256-etm@openssh.com,hmac-sha2-512-etm@openssh.com,hmac-sha2-256,hmac-sha2-512'',
      ''none'', ''none'', [], []]"

definition supported_methods :: "bool \<Rightarrow> string list" where
  "supported_methods gcm =
     [KEY_EXCHANGE_SUPPORTED, PUBLIC_KEY_ALGORITHMS,
      AES gcm @ '',aes256-cbc,aes192-cbc,aes128-cbc,3des-cbc'', AES gcm @ '',aes256-cbc,aes192-cbc,aes128-cbc,3des-cbc'',
      ''hmac-sha2-256-etm@openssh.com,hmac-sha2-512-etm@openssh.com,hmac-sha1-etm@openssh.com,hmac-sha2-256,hmac-sha2-512,hmac-sha1'',
      ''hmac-sha2-256-etm@openssh.com,hmac-sha2-512-etm@openssh.com,hmac-sha1-etm@openssh.com,hmac-sha2-256,hmac-sha2-512,hmac-sha1'',
      ''none'', ''none'', [], []]"

definition ssh_kex_descriptions :: "string list" where
  "ssh_kex_descriptions =
     [''kex algos'', ''server host key algo'', ''encryption client->server'', ''encryption server->client'',
      ''mac algo client->server'', ''mac algo server->client'', ''compression algo client->server'',
      ''compression algo server->client'', ''languages client->server'', ''languages server->client'']"

definition ssh_kex_get_default_methods :: "bool \<Rightarrow> nat \<Rightarrow> string option" where
  "ssh_kex_get_default_methods gcm algo = (if SSH_KEX_METHODS \<le> algo then None else Some (default_methods gcm ! algo))"

definition ssh_kex_get_supported_method :: "bool \<Rightarrow> nat \<Rightarrow> string option" where
  "ssh_kex_get_supported_method gcm algo = (if SSH_KEX_METHODS \<le> algo then None else Some (supported_methods gcm ! algo))"

definition ssh_kex_get_description :: "nat \<Rightarrow> string option" where
  "ssh_kex_get_description algo = (if SSH_KEX_METHODS \<le> algo then None else Some (ssh_kex_descriptions ! algo))"

section \<open>Lists made from the tables\<close>

definition ssh_keep_known_algos :: "bool \<Rightarrow> bool \<Rightarrow> nat \<Rightarrow> string option \<Rightarrow> overflow + string option" where
  "ssh_keep_known_algos m gcm algo list =
     (if SSH_LANG_S_C < algo then Inr None else ssh_find_all_matching m (Some (supported_methods gcm ! algo)) list)"

definition ssh_add_to_default_algos :: "bool \<Rightarrow> bool \<Rightarrow> nat \<Rightarrow> string option \<Rightarrow> overflow + string option" where
  "ssh_add_to_default_algos m gcm algo list =
     (if SSH_LANG_S_C < algo \<or> list = None \<or> list = Some [] then Inr None
      else ssh_find_all_matching m (Some (supported_methods gcm ! algo))
             (ssh_append_without_duplicates m (Some (default_methods gcm ! algo)) list))"

definition ssh_remove_from_default_algos :: "bool \<Rightarrow> bool \<Rightarrow> nat \<Rightarrow> string option \<Rightarrow> string option" where
  "ssh_remove_from_default_algos m gcm algo list =
     (if SSH_LANG_S_C < algo then None
      else if list = None \<or> list = Some [] then (if m then Some (default_methods gcm ! algo) else None)
      else ssh_remove_all_matching m (Some (default_methods gcm ! algo)) list)"

definition ssh_prefix_default_algos :: "bool \<Rightarrow> bool \<Rightarrow> nat \<Rightarrow> string option \<Rightarrow> overflow + string option" where
  "ssh_prefix_default_algos m gcm algo list =
     (if SSH_LANG_S_C < algo \<or> list = None \<or> list = Some [] then Inr None
      else ssh_find_all_matching m (Some (supported_methods gcm ! algo))
             (ssh_prefix_without_duplicates m (Some (default_methods gcm ! algo)) list))"

section \<open>What the client offers\<close>

text \<open>
  What the choice depends on: whether allocations succeed, the names of the algorithms of the
  known keys of this host (\<open>ssh_known_hosts_get_algorithms_names\<close>, null when there are none), the
  random cookie if the generator works, the lists the user has set, and whether the session is
  already authenticated.
\<close>

record kex_wishes =
  alloc :: bool
  has_gcm :: bool
  known_names :: "string option"
  cookie_bytes :: "byte list option"
  wish_methods :: "string option list"
  is_authenticated :: bool

definition ssh_client_select_hostkeys :: "kex_wishes \<Rightarrow> overflow + string option" where
  "ssh_client_select_hostkeys w =
     (let wanted = (case wish_methods w ! SSH_HOSTKEYS of
                      None \<Rightarrow> ssh_kex_get_default_methods (has_gcm w) SSH_HOSTKEYS | Some x \<Rightarrow> Some x)
      in case ssh_find_all_matching (alloc w) (Some HOSTKEYS) wanted of
           Inl e \<Rightarrow> Inl e
         | Inr None \<Rightarrow> Inr None
         | Inr (Some without_certs) \<Rightarrow>
             (case known_names w of
                None \<Rightarrow> Inr (Some without_certs)
              | Some known \<Rightarrow>
                  (case ssh_find_all_matching (alloc w) (Some known) (Some without_certs) of
                     Inl e \<Rightarrow> Inl e
                   | Inr None \<Rightarrow> Inr (Some without_certs)
                   | Inr (Some ordered) \<Rightarrow>
                       Inr (ssh_append_without_duplicates (alloc w) (Some ordered) (Some without_certs)))))"

record ssh_kex =
  kex_cookie :: "byte list"
  methods :: "string option list"

definition put_method :: "nat \<Rightarrow> string option \<Rightarrow> ssh_kex \<Rightarrow> ssh_kex" where
  "put_method i x k = k\<lparr>methods := (methods k)[i := x]\<rparr>"

text \<open>The loop over the kinds; \<open>Inl\<close> is a write past the end of a block.\<close>

fun set_methods :: "kex_wishes \<Rightarrow> nat list \<Rightarrow> ssh_kex \<Rightarrow> overflow + (int \<times> ssh_kex)" where
  "set_methods w [] k = Inr (SSH_OK, k)"
| "set_methods w (i # is) k =
     (if i = SSH_HOSTKEYS then
        (case ssh_client_select_hostkeys w of
           Inl e \<Rightarrow> Inl e
         | Inr None \<Rightarrow> Inr (SSH_ERROR, put_method i None k)
         | Inr (Some x) \<Rightarrow> set_methods w is (put_method i (Some x) k))
      else if \<not> alloc w then Inr (SSH_ERROR, put_method i None k)
      else set_methods w is
             (put_method i (Some (case wish_methods w ! i of None \<Rightarrow> default_methods (has_gcm w) ! i | Some x \<Rightarrow> x)) k))"

definition MAX_KEX_LEN :: nat where "MAX_KEX_LEN = 262144"

definition ssh_kex_append_extensions :: "bool \<Rightarrow> bool \<Rightarrow> ssh_kex \<Rightarrow> (int \<times> ssh_kex) option" where
  "ssh_kex_append_extensions m server k =
     (case methods k ! SSH_KEX of
        None \<Rightarrow> None
      | Some kex \<Rightarrow>
          let len = length kex;
              kex_len = (if server then len + 1 + length KEX_STRICT_SERVER + 1
                         else len + 1 + length KEX_EXTENSION_CLIENT + 1 + length KEX_STRICT_CLIENT + 1)
          in if MAX_KEX_LEN \<le> kex_len then Some (SSH_ERROR, k)
             else if \<not> m then Some (SSH_ERROR, k)
             else Some (SSH_OK, put_method SSH_KEX
                    (Some (kex @ (if server then '','' @ KEX_STRICT_SERVER
                                  else '','' @ KEX_EXTENSION_CLIENT @ '','' @ KEX_STRICT_CLIENT))) k))"

definition ssh_set_client_kex :: "kex_wishes \<Rightarrow> ssh_kex \<Rightarrow> overflow + (int \<times> ssh_kex)" where
  "ssh_set_client_kex w k =
     (if methods k ! 0 \<noteq> None then Inr (SSH_OK, k)
      else (case cookie_bytes w of
              None \<Rightarrow> Inr (SSH_ERROR, k)
            | Some c \<Rightarrow>
                (case set_methods w [0..<SSH_KEX_METHODS] (k\<lparr>kex_cookie := c\<rparr>) of
                   Inl e \<Rightarrow> Inl e
                 | Inr (rc, k1) \<Rightarrow>
                     if rc \<noteq> SSH_OK then Inr (rc, k1)
                     else if is_authenticated w then Inr (SSH_OK, k1)
                     else Inr (the (ssh_kex_append_extensions (alloc w) False k1)))))"

section \<open>What is agreed\<close>

datatype kex_type =
    SSH_KEX_NONE | SSH_KEX_DH_GROUP1_SHA1 | SSH_KEX_DH_GROUP14_SHA1 | SSH_KEX_DH_GEX_SHA1 | SSH_KEX_DH_GEX_SHA256
  | SSH_KEX_ECDH_SHA2_NISTP256 | SSH_KEX_ECDH_SHA2_NISTP384 | SSH_KEX_ECDH_SHA2_NISTP521
  | SSH_KEX_CURVE25519_SHA256_LIBSSH_ORG | SSH_KEX_CURVE25519_SHA256
  | SSH_KEX_DH_GROUP16_SHA512 | SSH_KEX_DH_GROUP18_SHA512 | SSH_KEX_DH_GROUP14_SHA256

definition kex_select_kex_type :: "string \<Rightarrow> kex_type" where
  "kex_select_kex_type kex =
     (if kex = ''diffie-hellman-group1-sha1'' then SSH_KEX_DH_GROUP1_SHA1
      else if kex = ''diffie-hellman-group14-sha1'' then SSH_KEX_DH_GROUP14_SHA1
      else if kex = ''diffie-hellman-group14-sha256'' then SSH_KEX_DH_GROUP14_SHA256
      else if kex = ''diffie-hellman-group16-sha512'' then SSH_KEX_DH_GROUP16_SHA512
      else if kex = ''diffie-hellman-group18-sha512'' then SSH_KEX_DH_GROUP18_SHA512
      else if kex = ''diffie-hellman-group-exchange-sha1'' then SSH_KEX_DH_GEX_SHA1
      else if kex = ''diffie-hellman-group-exchange-sha256'' then SSH_KEX_DH_GEX_SHA256
      else if kex = ''ecdh-sha2-nistp256'' then SSH_KEX_ECDH_SHA2_NISTP256
      else if kex = ''ecdh-sha2-nistp384'' then SSH_KEX_ECDH_SHA2_NISTP384
      else if kex = ''ecdh-sha2-nistp521'' then SSH_KEX_ECDH_SHA2_NISTP521
      else if kex = ''curve25519-sha256@libssh.org'' then SSH_KEX_CURVE25519_SHA256_LIBSSH_ORG
      else if kex = ''curve25519-sha256'' then SSH_KEX_CURVE25519_SHA256
      else SSH_KEX_NONE)"

definition ssh_find_aead_hmac :: "string option \<Rightarrow> string option" where
  "ssh_find_aead_hmac cipher =
     (if cipher = None then None
      else if cipher = Some ''chacha20-poly1305@openssh.com'' then Some ''aead-poly1305''
      else if cipher = Some ''aes256-gcm@openssh.com'' then Some ''aead-gcm''
      else if cipher = Some ''aes128-gcm@openssh.com'' then Some ''aead-gcm''
      else None)"

text \<open>Whether the first names of two lists differ.\<close>

definition cmp_first_kex_algo :: "string option \<Rightarrow> string option \<Rightarrow> bool" where
  "cmp_first_kex_algo client_str server_str =
     (case (client_str, server_str) of
        (Some c, Some s) \<Rightarrow>
          let client_kex_len = length (takeWhile (\<lambda>x. x \<noteq> CHR '','') c);
              server_kex_len = length (takeWhile (\<lambda>x. x \<noteq> CHR '','') s)
          in if client_kex_len \<noteq> server_kex_len then True else \<not> strncmp_eq c s client_kex_len
      | _ \<Rightarrow> True)"

text \<open>\<open>strstr\<close> and the truncation: the text before the first place where \<open>pat\<close> occurs.\<close>

fun cut_at :: "string \<Rightarrow> string \<Rightarrow> string" where
  "cut_at pat [] = []"
| "cut_at pat (c # cs) = (if prefix pat (c # cs) then [] else c # cut_at pat cs)"

fun select_loop :: "bool \<Rightarrow> string option list \<Rightarrow> string option list \<Rightarrow> nat list \<Rightarrow> string option list \<Rightarrow> int \<times> string option list" where
  "select_loop m server client [] km = (SSH_OK, km)"
| "select_loop m server client (i # is) km =
     (let x = ssh_find_matching m (server ! i) (client ! i);
          y = (if i = SSH_MAC_C_S \<or> i = SSH_MAC_S_C then
                 (case ssh_find_aead_hmac (km ! (i - 2)) of None \<Rightarrow> x | Some h \<Rightarrow> if m then Some h else None)
               else x)
      in if y = None \<and> i < SSH_LANG_C_S then (SSH_ERROR, km[i := y])
         else select_loop m server client is
                (km[i := if SSH_LANG_C_S \<le> i \<and> y = None then (if m then Some [] else None) else y]))"


text \<open>The extension that ends one's own list is cut off; None is \<open>strstr\<close> of a null pointer.\<close>

definition drop_extension :: "string \<Rightarrow> string option list \<Rightarrow> string option list option" where
  "drop_extension pat l = (case l ! SSH_KEX of None \<Rightarrow> None | Some x \<Rightarrow> Some (l[SSH_KEX := Some (cut_at ('','' @ pat) x)]))"

text \<open>
  \<open>ssh_kex_select_methods\<close> up to the loop's end: the code, the two lists as they are left, and the
  methods, of which \<open>km\<close> holds the earlier values.
\<close>

definition select_methods ::
  "bool \<Rightarrow> bool \<Rightarrow> bool \<Rightarrow> string option list \<Rightarrow> string option list \<Rightarrow> string option list \<Rightarrow>
    (int \<times> string option list \<times> string option list \<times> string option list) option" where
  "select_methods m is_client is_server server client km =
     Option.bind (if is_client then drop_extension KEX_EXTENSION_CLIENT client else Some client) (\<lambda>client1.
     Option.bind (if is_server then drop_extension KEX_STRICT_SERVER server else Some server) (\<lambda>server1.
       let (rc, km1) = select_loop m server1 client1 [0..<SSH_KEX_METHODS] km in Some (rc, server1, client1, km1)))"

section \<open>Both sides agree\<close>

lemma select_loop_cong:
  "(\<And>i. i \<in> set is \<Longrightarrow> ssh_find_matching m (s ! i) (c ! i) = ssh_find_matching m (s' ! i) (c' ! i)) \<Longrightarrow>
    select_loop m s c is km = select_loop m s' c' is km"
  by (induction "is" arbitrary: km) (auto simp: Let_def)

lemma find_first_set: "set as = set bs \<Longrightarrow> find_first as ps = find_first bs ps"
proof (induction ps)
  case (Cons p ps)
  have "find_index (\<lambda>a. a = p) xs = None \<longleftrightarrow> p \<notin> set xs" for xs by (auto simp: find_index_None)
  with Cons show ?case
    by (auto split: option.splits dest!: find_index_Some)
qed simp

lemma find_first_skip:
  "set ps' \<inter> set as = {} \<Longrightarrow> find_first as (ps @ ps') = find_first as ps"
proof (induction ps)
  case Nil
  then show ?case
  proof (induction ps')
    case (Cons p ps)
    then have "find_index (\<lambda>a. a = p) as = None" by (auto simp: find_index_None)
    with Cons show ?case by simp
  qed simp
qed (auto split: option.splits)

text \<open>Names that cannot be the extension named \<open>e\<close>, nor hide it.\<close>

definition plain_names :: "string list \<Rightarrow> bool" where
  "plain_names ts = (ts \<noteq> [] \<and> (\<forall>t\<in>set ts. t \<noteq> [] \<and> CHR '','' \<notin> set t \<and>
     \<not> prefix KEX_EXTENSION_CLIENT t \<and> \<not> prefix KEX_STRICT_SERVER t \<and> t \<noteq> KEX_STRICT_CLIENT))"

lemma prefix_comma_append:
  "CHR '','' \<notin> set pat \<Longrightarrow> CHR '','' \<notin> set t \<Longrightarrow> prefix pat (t @ CHR '','' # rest) \<longleftrightarrow> prefix pat t"
proof (induction pat arbitrary: t)
  case (Cons a pat)
  then show ?case by (cases t) auto
qed simp

lemma cut_at_name:
  "CHR '','' \<notin> set t \<Longrightarrow> cut_at (CHR '','' # pat) (t @ r) = t @ cut_at (CHR '','' # pat) r"
  by (induction t) auto

lemma cut_at_join:
  assumes "CHR '','' \<notin> set pat" and "ts \<noteq> []" and "\<forall>t\<in>set ts. CHR '','' \<notin> set t" and "\<forall>t\<in>set (tl ts). \<not> prefix pat t"
    and "prefix pat rest"
  shows "cut_at (CHR '','' # pat) (join_tokens ts @ CHR '','' # rest) = join_tokens ts"
  using assms(2-4)
proof (induction ts rule: join_tokens.induct)
  case (2 t)
  then show ?case using assms(5) by (simp add: cut_at_name)
next
  case (3 t u us)
  have "\<not> prefix pat (join_tokens (u # us) @ CHR '','' # rest)"
  proof (cases us)
    case Nil
    with 3 show ?thesis using prefix_comma_append [OF assms(1), of u rest] by simp
  next
    case (Cons v vs)
    have "join_tokens (u # us) @ CHR '','' # rest = u @ CHR '','' # (join_tokens us @ CHR '','' # rest)"
      using Cons by simp
    with 3 show ?thesis using prefix_comma_append [OF assms(1), of u] by simp
  qed
  moreover have "cut_at (CHR '','' # pat) (join_tokens (u # us) @ CHR '','' # rest) = join_tokens (u # us)"
    using 3 by simp
  moreover have "join_tokens (t # u # us) @ CHR '','' # rest =
    t @ CHR '','' # (join_tokens (u # us) @ CHR '','' # rest)" by simp
  ultimately show ?case using "3.prems" by (simp add: cut_at_name del: join_tokens.simps)
qed simp


definition offered :: "string list \<Rightarrow> string" where
  "offered ts = join_tokens ts @ '','' @ KEX_EXTENSION_CLIENT @ '','' @ KEX_STRICT_CLIENT"

definition answered :: "string list \<Rightarrow> string" where
  "answered ts = join_tokens ts @ '','' @ KEX_STRICT_SERVER"

lemma join_snocs:
  "ts \<noteq> [] \<Longrightarrow> offered ts = join_tokens (ts @ [KEX_EXTENSION_CLIENT, KEX_STRICT_CLIENT])"
  "ts \<noteq> [] \<Longrightarrow> answered ts = join_tokens (ts @ [KEX_STRICT_SERVER])"
  using join_snoc [of ts KEX_STRICT_SERVER] join_snoc [of "ts @ [KEX_EXTENSION_CLIENT]" KEX_STRICT_CLIENT]
    join_snoc [of ts KEX_EXTENSION_CLIENT]
  by (simp_all add: offered_def answered_def)

lemma extension_names:
  "CHR '','' \<notin> set KEX_EXTENSION_CLIENT" "CHR '','' \<notin> set KEX_STRICT_CLIENT" "CHR '','' \<notin> set KEX_STRICT_SERVER"
  "KEX_EXTENSION_CLIENT \<noteq> []" "KEX_STRICT_CLIENT \<noteq> []" "KEX_STRICT_SERVER \<noteq> []"
  "KEX_STRICT_SERVER \<noteq> KEX_EXTENSION_CLIENT" "KEX_STRICT_SERVER \<noteq> KEX_STRICT_CLIENT"
  by (simp_all add: KEX_EXTENSION_CLIENT_def KEX_STRICT_CLIENT_def KEX_STRICT_SERVER_def)

lemma offered_tokens:
  assumes "plain_names ts"
  shows "tokens_of (CHR '','') (offered ts) = ts @ [KEX_EXTENSION_CLIENT, KEX_STRICT_CLIENT]"
    "tokens_of (CHR '','') (answered ts) = ts @ [KEX_STRICT_SERVER]"
    "tokens_of (CHR '','') (join_tokens ts) = ts"
    "cut_at ('','' @ KEX_EXTENSION_CLIENT) (offered ts) = join_tokens ts"
    "cut_at ('','' @ KEX_STRICT_SERVER) (answered ts) = join_tokens ts"
proof -
  have ne: "ts \<noteq> []" and names: "\<forall>t\<in>set ts. CHR '','' \<notin> set t" "\<forall>t\<in>set ts. t \<noteq> []"
    and pre: "\<forall>t\<in>set (tl ts). \<not> prefix KEX_EXTENSION_CLIENT t" "\<forall>t\<in>set (tl ts). \<not> prefix KEX_STRICT_SERVER t"
    using assms by (auto simp: plain_names_def dest: list.set_sel(2))
  show "tokens_of (CHR '','') (offered ts) = ts @ [KEX_EXTENSION_CLIENT, KEX_STRICT_CLIENT]"
    unfolding join_snocs(1) [OF ne] using names extension_names by (intro tokens_join) auto
  show "tokens_of (CHR '','') (answered ts) = ts @ [KEX_STRICT_SERVER]"
    unfolding join_snocs(2) [OF ne] using names extension_names by (intro tokens_join) auto
  have "last ts \<noteq> []" using ne names by simp
  then show "tokens_of (CHR '','') (join_tokens ts) = ts" using ne names by (intro tokens_join) auto
  show "cut_at ('','' @ KEX_EXTENSION_CLIENT) (offered ts) = join_tokens ts"
    using cut_at_join [OF extension_names(1) ne names(1) pre(1), of "KEX_EXTENSION_CLIENT @ '','' @ KEX_STRICT_CLIENT"]
    by (simp add: offered_def)
  show "cut_at ('','' @ KEX_STRICT_SERVER) (answered ts) = join_tokens ts"
    using cut_at_join [OF extension_names(3) ne names(1) pre(2), of "KEX_STRICT_SERVER"]
    by (simp add: answered_def)
qed

lemma same_choice:
  assumes "plain_names cs" "plain_names ss"
  shows "ssh_find_matching m (Some (answered ss)) (Some (join_tokens cs)) =
    ssh_find_matching m (Some (join_tokens ss)) (Some (offered cs))"
proof -
  have "KEX_STRICT_SERVER \<notin> set cs" using assms(1) by (auto simp: plain_names_def)
  have "find_first (ss @ [KEX_STRICT_SERVER]) cs = find_first ss cs"
    using \<open>KEX_STRICT_SERVER \<notin> set cs\<close>
  proof (induction cs)
    case (Cons c cs)
    have "find_index (\<lambda>a. a = c) (ss @ [KEX_STRICT_SERVER]) = find_index (\<lambda>a. a = c) ss"
      using Cons.prems by (induction ss) auto
    with Cons show ?case by (auto split: option.splits simp: nth_append dest: find_index_Some)
  qed simp
  moreover have "find_first ss (cs @ [KEX_EXTENSION_CLIENT, KEX_STRICT_CLIENT]) = find_first ss cs"
    using assms(2) by (intro find_first_skip) (auto simp: plain_names_def)
  ultimately show ?thesis
    by (simp add: ssh_find_matching_def ssh_tokenize_def offered_tokens [OF assms(1)] offered_tokens [OF assms(2)])
qed


lemma select_loop_other: "j \<notin> set is \<Longrightarrow> snd (select_loop m s c is km) ! j = km ! j"
  by (induction "is" arbitrary: km) (auto simp: Let_def)

lemma select_loop_first:
  assumes "select_loop m s c [0..<SSH_KEX_METHODS] km = (SSH_OK, km')" and "0 < length km"
  shows "\<exists>k. ssh_find_matching m (s ! 0) (c ! 0) = Some k \<and> km' ! 0 = Some k"
proof -
  let ?x = "ssh_find_matching m (s ! 0) (c ! 0)"
  have up: "[0..<10] = 0 # [1..<10::nat]" by (simp add: upt_conv_Cons)
  show ?thesis
  proof (cases ?x)
    case None
    with assms show ?thesis by (simp add: up Let_def)
  next
    case (Some k)
    with assms have "select_loop m s c [1..<10] (km[0 := Some k]) = (SSH_OK, km')" by (simp add: up Let_def)
    then have "km' ! 0 = km[0 := Some k] ! 0" using select_loop_other [of 0 "[1..<10]" m s c "km[0 := Some k]"] by simp
    with Some assms(2) show ?thesis by simp
  qed
qed

text \<open>
  C7: Both sides agree. The two ends hold the same two lists; each cuts the extensions only off its
  own, and runs the same choice. When the client offers the names \<open>cs\<close> for the key exchange and the
  server the names \<open>ss\<close>, none of which is an extension, then both get the same code and the same ten
  methods; and when there is an agreement, the key exchange is the first of the client's names
  that the server has, never an extension.
\<close>

theorem both_sides_agree:
  assumes "client ! SSH_KEX = Some (offered cs)" and "server ! SSH_KEX = Some (answered ss)"
    and "plain_names cs" and "plain_names ss" and "0 < length client" and "0 < length server" and "0 < length km"
  shows "\<exists>rc km' s1 c1 s2 c2.
    select_methods m True False server client km = Some (rc, s1, c1, km') \<and>
    select_methods m False True server client km = Some (rc, s2, c2, km') \<and>
    (rc = SSH_OK \<longrightarrow> (\<exists>k xs ys. km' ! SSH_KEX = Some k \<and> cs = xs @ k # ys \<and> k \<in> set ss \<and> set ss \<inter> set xs = {}))"
proof -
  let ?c = "client[SSH_KEX := Some (join_tokens cs)]" and ?s = "server[SSH_KEX := Some (join_tokens ss)]"
  note tc = offered_tokens [OF assms(3)] and ts = offered_tokens [OF assms(4)]
  obtain rc km' where l: "select_loop m server ?c [0..<SSH_KEX_METHODS] km = (rc, km')"
    by (cases "select_loop m server ?c [0..<SSH_KEX_METHODS] km")
  have "select_loop m server ?c [0..<SSH_KEX_METHODS] km = select_loop m ?s client [0..<SSH_KEX_METHODS] km"
  proof (rule select_loop_cong)
    fix i :: nat
    show "ssh_find_matching m (server ! i) (?c ! i) = ssh_find_matching m (?s ! i) (client ! i)"
      using assms same_choice [OF assms(3,4)] by (cases "i = 0") auto
  qed
  with l have l': "select_loop m ?s client [0..<SSH_KEX_METHODS] km = (rc, km')" by simp
  have d: "drop_extension KEX_EXTENSION_CLIENT client = Some ?c" "drop_extension KEX_STRICT_SERVER server = Some ?s"
    using assms tc ts by (simp_all add: drop_extension_def)
  have "\<exists>k xs ys. km' ! SSH_KEX = Some k \<and> cs = xs @ k # ys \<and> k \<in> set ss \<and> set ss \<inter> set xs = {}" if "rc = SSH_OK"
  proof -
    from that l' select_loop_first [of m ?s client km km'] assms(7) obtain k
      where "ssh_find_matching m (?s ! 0) (client ! 0) = Some k" and k: "km' ! 0 = Some k" by auto
    then have "ssh_find_matching m (Some (answered ss)) (Some (join_tokens cs)) = Some k"
      using assms(1,6) same_choice [OF assms(3,4), of m] by simp
    then have f: "find_first (ss @ [KEX_STRICT_SERVER]) cs = Some k"
      by (cases m) (simp_all add: ssh_find_matching_def ssh_tokenize_def tc ts)
    from find_first_spec [of "ss @ [KEX_STRICT_SERVER]" cs] f obtain xs ys
      where x: "cs = xs @ k # ys" "k \<in> set (ss @ [KEX_STRICT_SERVER])" "set (ss @ [KEX_STRICT_SERVER]) \<inter> set xs = {}" by auto
    have "k \<noteq> KEX_STRICT_SERVER" using assms(3) x(1) by (auto simp: plain_names_def)
    then have "k \<in> set ss \<and> set ss \<inter> set xs = {}" using x(2,3) by auto
    with k x(1) show ?thesis by blast
  qed
  then show ?thesis using l l' d by (simp add: select_methods_def)
qed

definition demo_lists :: "string \<Rightarrow> string option list" where
  "demo_lists kex = [Some kex, Some ''ssh-ed25519'', Some ''aes256-ctr'', Some ''aes256-ctr'', Some ''hmac-sha2-256'',
     Some ''hmac-sha2-256'', Some ''none'', Some ''none'', Some [], Some []]"

theorem both_sides_agree_witness:
  "\<exists>km' s1 c1 s2 c2.
    select_methods True True False (demo_lists (answered [''b'', ''a''])) (demo_lists (offered [''x'', ''a'', ''b'']))
      (replicate 10 None) = Some (SSH_OK, s1, c1, km') \<and>
    select_methods True False True (demo_lists (answered [''b'', ''a''])) (demo_lists (offered [''x'', ''a'', ''b'']))
      (replicate 10 None) = Some (SSH_OK, s2, c2, km') \<and> km' ! SSH_KEX = Some ''a''"
proof -
  have p: "plain_names [''x'', ''a'', ''b'']" "plain_names [''b'', ''a'']"
    by (simp_all add: plain_names_def KEX_EXTENSION_CLIENT_def KEX_STRICT_CLIENT_def KEX_STRICT_SERVER_def)
  have "(case select_methods True True False (demo_lists (answered [''b'', ''a''])) (demo_lists (offered [''x'', ''a'', ''b'']))
      (replicate 10 None) of Some (rc, s, c, km) \<Rightarrow> rc = SSH_OK \<and> km ! 0 = Some ''a'' | None \<Rightarrow> False)" by code_simp
  with both_sides_agree [of "demo_lists (offered [''x'', ''a'', ''b''])" _ "demo_lists (answered [''b'', ''a''])", OF _ _ p,
      of "replicate 10 None" True]
  show ?thesis by (auto simp: demo_lists_def)
qed

end
