(* ===== verification/Ssh_Buffer.thy ===== *)
theory Ssh_Buffer
  imports Prelude
begin

text \<open>
  The byte buffer of the SSH library (\<open>buffer.c\<close>), the object every packet is built in and
  parsed from. Fields and comparisons are 32-bit words, as in the source. \<open>data\<close> is the block
  of \<open>allocated\<close> bytes; new bytes of a block are written as zero here and are never read before
  they are written. An allocation succeeds or not by the flag \<open>m\<close>. \<open>freed\<close> is a history
  variable: the contents of the blocks a secure buffer has given back to the allocator.
\<close>

record ssh_buffer =
  secure :: bool
  used :: u32
  allocated :: u32
  pos :: u32
  data :: "byte list"
  freed :: "byte list list"

definition BUFFER_SIZE_MAX :: u32 where "BUFFER_SIZE_MAX = 16384"

text \<open>\<open>memcpy(data + off, xs, length xs)\<close>, and a block made larger or smaller.\<close>

definition write_at :: "nat \<Rightarrow> byte list \<Rightarrow> byte list \<Rightarrow> byte list" where
  "write_at off xs d = take off d @ xs @ drop (off + length xs) d"

definition resize :: "nat \<Rightarrow> byte list \<Rightarrow> byte list" where
  "resize n xs = take n xs @ replicate (n - length xs) 0"

section \<open>Allocation\<close>

text \<open>The loop of \<open>realloc_buffer\<close>: the power of two above \<open>needed\<close>; the shift wraps to 0.\<close>

definition shifts_left :: "u32 \<Rightarrow> nat" where
  "shifts_left x = (LEAST k. push_bit k x = 0)"

lemma shifts_left_less: "x \<noteq> 0 \<Longrightarrow> shifts_left (push_bit 1 x) < shifts_left x"
proof -
  assume "x \<noteq> 0"
  have z: "push_bit (shifts_left x) x = 0"
    unfolding shifts_left_def by (rule LeastI [of _ 32]) (rule bit_word_eqI, simp add: bit_push_bit_iff)
  with \<open>x \<noteq> 0\<close> obtain j where j: "shifts_left x = Suc j" by (cases "shifts_left x") auto
  with z have "push_bit j (push_bit 1 x) = 0" by (simp add: push_bit_push_bit)
  then have "shifts_left (push_bit 1 x) \<le> j" unfolding shifts_left_def by (rule Least_le)
  with j show ?thesis by simp
qed

lemma shifts_left_double: "x \<noteq> 0 \<Longrightarrow> shifts_left (x * 2) < shifts_left x"
  using shifts_left_less [of x] by (simp add: push_bit_eq_mult)

function grow :: "u32 \<Rightarrow> u32 \<Rightarrow> u32 option" where
  "grow smallest needed =
     (if smallest \<le> needed then
        (if smallest = 0 then None else grow (push_bit 1 smallest) needed)
      else Some smallest)"
  by pat_completeness auto
termination
  by (relation "measure (\<lambda>(s, n). shifts_left s)") (auto intro: shifts_left_double)

declare grow.simps [simp del]

definition realloc_buffer :: "bool \<Rightarrow> u32 \<Rightarrow> ssh_buffer \<Rightarrow> ssh_buffer option" where
  "realloc_buffer m needed b =
     (case grow 1 needed of
        None \<Rightarrow> None
      | Some n \<Rightarrow>
          if BUFFER_SIZE_MAX < n then None
          else if \<not> m then None
          else if secure b then
            Some (b\<lparr>data := resize (unat n) (take (unat (used b)) (data b)), allocated := n,
                    freed := freed b @ [write_at 0 (replicate (unat (used b)) 0) (data b)]\<rparr>)
          else Some (b\<lparr>data := resize (unat n) (data b), allocated := n\<rparr>))"

definition buffer_shift :: "ssh_buffer \<Rightarrow> ssh_buffer" where
  "buffer_shift b =
     (if pos b = 0 then b
      else
        let burn_pos = pos b;
            kept = take (unat (used b - pos b)) (drop (unat (pos b)) (data b));
            b1 = b\<lparr>data := write_at 0 kept (data b), used := used b - pos b, pos := 0\<rparr>
        in if secure b1 then b1\<lparr>data := write_at (unat (used b1)) (replicate (unat burn_pos) 0) (data b1)\<rparr> else b1)"

definition ssh_buffer_allocate_size :: "bool \<Rightarrow> u32 \<Rightarrow> ssh_buffer \<Rightarrow> int \<times> ssh_buffer" where
  "ssh_buffer_allocate_size m len b =
     (if allocated b < len then
        let b1 = (if 0 < pos b then buffer_shift b else b) in
        case realloc_buffer m len b1 of None \<Rightarrow> (-1, b1) | Some b2 \<Rightarrow> (0, b2)
      else (0, b))"

text \<open>\<open>calloc\<close> gives an empty buffer; \<open>m0\<close> and \<open>m\<close> are the two allocations.\<close>

definition empty_buffer :: ssh_buffer where
  "empty_buffer = \<lparr>secure = False, used = 0, allocated = 0, pos = 0, data = [], freed = []\<rparr>"

definition ssh_buffer_new :: "bool \<Rightarrow> bool \<Rightarrow> ssh_buffer option" where
  "ssh_buffer_new m0 m =
     (if \<not> m0 then None
      else let (rc, b) = ssh_buffer_allocate_size m (64 - 1) empty_buffer in
           if rc \<noteq> 0 then None else Some b)"

text \<open>\<open>ssh_buffer_free\<close>: the block as it is when it is given back.\<close>

definition ssh_buffer_free :: "ssh_buffer \<Rightarrow> byte list" where
  "ssh_buffer_free b =
     (if secure b \<and> 0 < allocated b then replicate (unat (allocated b)) 0 else data b)"

definition ssh_buffer_set_secure :: "ssh_buffer \<Rightarrow> ssh_buffer" where
  "ssh_buffer_set_secure b = b\<lparr>secure := True\<rparr>"

definition ssh_buffer_reinit :: "bool \<Rightarrow> ssh_buffer \<Rightarrow> int \<times> ssh_buffer" where
  "ssh_buffer_reinit m b =
     (let b1 = (if secure b \<and> 0 < allocated b then b\<lparr>data := replicate (unat (allocated b)) 0\<rparr> else b);
          b2 = b1\<lparr>used := 0, pos := 0\<rparr>
      in if 65536 < allocated b2 then
           (case realloc_buffer m (65536 - 1) b2 of None \<Rightarrow> (-1, b2) | Some b3 \<Rightarrow> (0, b3))
         else (0, b2))"

section \<open>Writing\<close>

text \<open>The part \<open>ssh_buffer_add_data\<close> and \<open>ssh_buffer_allocate\<close> share: room for \<open>len\<close> more bytes.\<close>

definition make_room :: "bool \<Rightarrow> u32 \<Rightarrow> ssh_buffer \<Rightarrow> ssh_buffer + ssh_buffer" where
  "make_room m len b =
     (if allocated b < used b + len then
        let b1 = (if 0 < pos b then buffer_shift b else b) in
        case realloc_buffer m (used b1 + len) b1 of None \<Rightarrow> Inl b1 | Some b2 \<Rightarrow> Inr b2
      else Inr b)"

text \<open>\<open>src\<close> is the source pointer: null or the \<open>len\<close> bytes at it.\<close>

definition ssh_buffer_add_data :: "bool \<Rightarrow> byte list option \<Rightarrow> ssh_buffer \<Rightarrow> int \<times> ssh_buffer" where
  "ssh_buffer_add_data m src b =
     (case src of
        None \<Rightarrow> (-1, b)
      | Some d \<Rightarrow>
          let len = of_nat (length d) :: u32 in
          if used b + len < len then (-1, b)
          else
            case make_room m len b of
              Inl b1 \<Rightarrow> (-1, b1)
            | Inr b2 \<Rightarrow> (0, b2\<lparr>data := write_at (unat (used b2)) d (data b2), used := used b2 + len\<rparr>))"

text \<open>The offset of the block handed out, or None.\<close>

definition ssh_buffer_allocate :: "bool \<Rightarrow> u32 \<Rightarrow> ssh_buffer \<Rightarrow> nat option \<times> ssh_buffer" where
  "ssh_buffer_allocate m len b =
     (if used b + len < len then (None, b)
      else
        case make_room m len b of
          Inl b1 \<Rightarrow> (None, b1)
        | Inr b2 \<Rightarrow> (Some (unat (used b2)), b2\<lparr>used := used b2 + len\<rparr>))"

definition ssh_buffer_prepend_data :: "bool \<Rightarrow> byte list \<Rightarrow> ssh_buffer \<Rightarrow> int \<times> ssh_buffer" where
  "ssh_buffer_prepend_data m d b =
     (let len = of_nat (length d) :: u32 in
      if len \<le> pos b then
        (0, b\<lparr>data := write_at (unat (pos b - len)) d (data b), pos := pos b - len\<rparr>)
      else if used b - pos b + len < len then (-1, b)
      else
        let grown = (if allocated b < used b - pos b + len then realloc_buffer m (used b - pos b + len) b else Some b)
        in case grown of
             None \<Rightarrow> (-1, b)
           | Some b1 \<Rightarrow>
               let kept = take (unat (used b1 - pos b1)) (drop (unat (pos b1)) (data b1)) in
               (0, b1\<lparr>data := write_at 0 d (write_at (unat len) kept (data b1)),
                     used := used b1 + (len - pos b1), pos := 0\<rparr>))"

section \<open>Reading\<close>

definition ssh_buffer_get :: "ssh_buffer \<Rightarrow> byte list" where
  "ssh_buffer_get b = drop (unat (pos b)) (data b)"

definition ssh_buffer_get_len :: "ssh_buffer \<Rightarrow> u32" where
  "ssh_buffer_get_len b = used b - pos b"

definition ssh_buffer_add_buffer :: "bool \<Rightarrow> ssh_buffer \<Rightarrow> ssh_buffer \<Rightarrow> int \<times> ssh_buffer" where
  "ssh_buffer_add_buffer m source b =
     (let (rc, b') = ssh_buffer_add_data m (Some (take (unat (ssh_buffer_get_len source)) (ssh_buffer_get source))) b
      in if rc < 0 then (-1, b') else (0, b'))"

definition ssh_buffer_pass_bytes :: "u32 \<Rightarrow> ssh_buffer \<Rightarrow> u32 \<times> ssh_buffer" where
  "ssh_buffer_pass_bytes len b =
     (if pos b + len < len \<or> used b < pos b + len then (0, b)
      else
        let b1 = b\<lparr>pos := pos b + len\<rparr> in
        (len, if pos b1 = used b1 then b1\<lparr>pos := 0, used := 0\<rparr> else b1))"

definition ssh_buffer_pass_bytes_end :: "u32 \<Rightarrow> ssh_buffer \<Rightarrow> u32 \<times> ssh_buffer" where
  "ssh_buffer_pass_bytes_end len b =
     (if used b < len then (0, b) else (len, b\<lparr>used := used b - len\<rparr>))"

definition ssh_buffer_validate_length :: "u32 \<Rightarrow> ssh_buffer \<Rightarrow> int" where
  "ssh_buffer_validate_length len b =
     (if pos b + len < len \<or> used b < pos b + len then SSH_ERROR else SSH_OK)"

definition ssh_buffer_get_data :: "u32 \<Rightarrow> ssh_buffer \<Rightarrow> (u32 \<times> byte list) \<times> ssh_buffer" where
  "ssh_buffer_get_data len b =
     (if ssh_buffer_validate_length len b \<noteq> SSH_OK then ((0, []), b)
      else ((len, take (unat len) (drop (unat (pos b)) (data b))), b\<lparr>pos := pos b + len\<rparr>))"

section \<open>The abstract queue\<close>

definition contents :: "ssh_buffer \<Rightarrow> byte list" where
  "contents b = take (unat (used b) - unat (pos b)) (drop (unat (pos b)) (data b))"

text \<open>What \<open>buffer_verify\<close> checks, with the size of the block.\<close>

definition buffer_ok :: "ssh_buffer \<Rightarrow> bool" where
  "buffer_ok b \<longleftrightarrow> unat (pos b) \<le> unat (used b) \<and> unat (used b) \<le> unat (allocated b) \<and>
     length (data b) = unat (allocated b) \<and> unat (allocated b) \<le> 16384"

lemma length_contents: "buffer_ok b \<Longrightarrow> length (contents b) = unat (used b) - unat (pos b)"
  by (auto simp: contents_def buffer_ok_def min_def)

lemma length_resize [simp]: "length (resize n xs) = n"
  by (simp add: resize_def)

lemma length_write_at [simp]: "off + length xs \<le> length d \<Longrightarrow> length (write_at off xs d) = length d"
  by (simp add: write_at_def)

lemma grow_greater: "grow s n = Some r \<Longrightarrow> n < r"
proof (induction s n rule: grow.induct)
  case (1 s n)
  from "1.prems" show ?case
    by (subst (asm) grow.simps) (auto split: if_splits intro: "1.IH")
qed

lemma unat_pow2: "k < 32 \<Longrightarrow> unat ((2 :: u32) ^ k) = 2 ^ k"
proof -
  assume "k < 32"
  then have "(2 :: nat) ^ k < 2 ^ 32" by (rule power_strict_increasing) simp
  then show ?thesis using unat_of_nat [of "2 ^ k", where 'a = 32] by (simp add: take_bit_nat_eq_self_iff)
qed

lemma grow_pow:
  assumes "n < 2 ^ 14" and "k \<le> 14"
  shows "\<exists>r. grow (2 ^ k) n = Some r \<and> r \<le> 2 ^ 14"
  using assms(2)
proof (induction "14 - k" arbitrary: k)
  case 0
  then have k: "k = 14" by simp
  have "\<not> 2 ^ 14 \<le> n" using assms(1) by simp
  then show ?case by (subst grow.simps) (simp add: k)
next
  case (Suc d)
  then have k: "d = 14 - Suc k" "Suc k \<le> 14" by auto
  have nz: "(2 :: u32) ^ k \<noteq> 0" using k(2) by (simp add: unat_eq_zero [symmetric] unat_pow2)
  have sh: "push_bit 1 ((2 :: u32) ^ k) = 2 ^ Suc k" by (simp add: push_bit_eq_mult)
  show ?case
  proof (cases "(2 :: u32) ^ k \<le> n")
    case True
    with nz have "grow (2 ^ k) n = grow (2 ^ Suc k) n" by (subst grow.simps) (simp add: sh [simplified] mult.commute)
    with Suc.hyps(1) [OF k] show ?thesis by simp
  next
    case False
    have "(2 :: u32) ^ k \<le> 2 ^ 14" using k(2) power_increasing [of k 14 "2 :: nat"] by (simp add: word_le_nat_alt unat_pow2)
    with False show ?thesis by (subst grow.simps) simp
  qed
qed

lemma contents_alt: "buffer_ok b \<Longrightarrow> contents b = drop (unat (pos b)) (take (unat (used b)) (data b))"
  by (simp add: contents_def buffer_ok_def take_drop)

lemma take_write_at:
  "off \<le> length d \<Longrightarrow> take (off + length xs) (write_at off xs d) = take off d @ xs"
  "n \<le> off \<Longrightarrow> off \<le> length d \<Longrightarrow> take n (write_at off xs d) = take n d"
  by (auto simp: write_at_def min_def)

lemma take_resize: "u \<le> n \<Longrightarrow> u \<le> length xs \<Longrightarrow> take u (resize n xs) = take u xs"
  by (simp add: resize_def min_def)

text \<open>Reallocation: exactly when the size needed is below the maximum, and the contents stay.\<close>

lemma realloc_ok:
  assumes ok: "buffer_ok b" and fits: "used b \<le> needed" and ret: "realloc_buffer m needed b = Some b'"
  shows "buffer_ok b' \<and> contents b' = contents b \<and> needed < allocated b' \<and> used b' = used b \<and> pos b' = pos b \<and>
    secure b' = secure b"
proof -
  from ret obtain n where n: "grow 1 needed = Some n" "n \<le> BUFFER_SIZE_MAX"
    by (auto simp: realloc_buffer_def not_less split: option.splits if_splits)
  have lt: "needed < n" using grow_greater [OF n(1)] .
  with fits have un: "unat (used b) < unat n" by (auto simp: word_less_nat_alt word_le_nat_alt)
  have max: "unat n \<le> 16384" using n(2) by (simp add: BUFFER_SIZE_MAX_def word_le_nat_alt)
  have b': "used b' = used b" "pos b' = pos b" "secure b' = secure b" "allocated b' = n"
    "length (data b') = unat n" "take (unat (used b)) (data b') = take (unat (used b)) (data b)"
    using ret n un ok
    by (auto simp: realloc_buffer_def take_resize buffer_ok_def split: option.splits if_splits)
  then have ok': "buffer_ok b'" using ok un max by (simp add: buffer_ok_def)
  with b' lt show ?thesis by (simp add: contents_alt [OF ok] contents_alt [OF ok'])
qed

lemma realloc_succeeds: "needed < 16384 \<Longrightarrow> \<exists>b'. realloc_buffer True needed b = Some b'"
  using grow_pow [of needed 0] by (auto simp: realloc_buffer_def BUFFER_SIZE_MAX_def)

lemma realloc_fails: "16384 \<le> needed \<Longrightarrow> realloc_buffer m needed b = None"
  by (auto simp: realloc_buffer_def BUFFER_SIZE_MAX_def dest!: grow_greater split: option.splits)

lemma shift_ok:
  assumes ok: "buffer_ok b"
  shows "buffer_ok (buffer_shift b) \<and> contents (buffer_shift b) = contents b \<and> pos (buffer_shift b) = 0 \<and>
    used (buffer_shift b) = used b - pos b \<and> allocated (buffer_shift b) = allocated b \<and>
    secure (buffer_shift b) = secure b"
proof (cases "pos b = 0")
  case True
  with ok show ?thesis by (simp add: buffer_shift_def)
next
  case False
  let ?s = "buffer_shift b" and ?kept = "contents b"
  have le: "unat (pos b) \<le> unat (used b)" "unat (used b) \<le> length (data b)" "length (data b) = unat (allocated b)"
    using ok by (simp_all add: buffer_ok_def)
  have sub: "unat (used b - pos b) = unat (used b) - unat (pos b)"
    using le by (simp add: unat_sub word_le_nat_alt)
  have kept: "take (unat (used b - pos b)) (drop (unat (pos b)) (data b)) = ?kept"
    by (simp add: contents_def sub)
  have lk: "length ?kept = unat (used b - pos b)" using length_contents [OF ok] sub by simp
  have f: "used ?s = used b - pos b" "pos ?s = 0" "allocated ?s = allocated b" "secure ?s = secure b"
    using False by (simp_all add: buffer_shift_def Let_def)
  have "take (length ?kept) (data ?s) = ?kept" and len: "length (data ?s) = length (data b)"
    using False le sub lk take_write_at(1) [of 0 "data b" ?kept]
    by (auto simp: buffer_shift_def kept kept [unfolded sub] Let_def take_write_at(2))
  then have "take (unat (used ?s)) (data ?s) = ?kept" using lk f by simp
  moreover have ok': "buffer_ok ?s" using ok f len sub by (auto simp: buffer_ok_def)
  ultimately show ?thesis using f by (simp add: contents_alt [OF ok'])
qed

lemma used_bound: "buffer_ok b \<Longrightarrow> unat (used b) \<le> 16384"
  by (simp add: buffer_ok_def)

lemma no_wrap_iff:
  assumes "buffer_ok b"
  shows "used b + len < len \<longleftrightarrow> 2 ^ 32 \<le> unat (used b) + unat len"
  using word_add_overflow_iff' [of "used b" len] by simp

lemma make_room_ok:
  assumes ok: "buffer_ok b" and nw: "\<not> used b + len < len"
  shows "case make_room m len b of
      Inl b1 \<Rightarrow> buffer_ok b1 \<and> contents b1 = contents b \<and> secure b1 = secure b
    | Inr b2 \<Rightarrow> buffer_ok b2 \<and> contents b2 = contents b \<and> secure b2 = secure b \<and>
        unat (used b2) + unat len \<le> unat (allocated b2)"
proof -
  from nw no_wrap_iff [OF ok] have lt: "unat (used b) + unat len < 2 ^ 32" by simp
  then have add: "unat (used b + len) = unat (used b) + unat len" by (simp add: unat_add_no_wrap)
  define b1 where "b1 = (if 0 < pos b then buffer_shift b else b)"
  have b1: "buffer_ok b1" "contents b1 = contents b" "secure b1 = secure b" "unat (used b1) \<le> unat (used b)"
    using ok shift_ok [OF ok] by (auto simp: b1_def buffer_ok_def unat_sub word_le_nat_alt)
  then have add1: "unat (used b1 + len) = unat (used b1) + unat len"
    using lt by (simp add: unat_add_no_wrap)
  show ?thesis
  proof (cases "allocated b < used b + len")
    case False
    then show ?thesis using ok add by (simp add: make_room_def word_less_nat_alt)
  next
    case True
    then have eq: "make_room m len b = (case realloc_buffer m (used b1 + len) b1 of None \<Rightarrow> Inl b1 | Some b2 \<Rightarrow> Inr b2)"
      by (simp only: make_room_def b1_def Let_def if_True)
    show ?thesis
    proof (cases "realloc_buffer m (used b1 + len) b1")
      case None
      with b1 eq show ?thesis by simp
    next
      case (Some b2)
      have "used b1 \<le> used b1 + len" using add1 by (simp add: word_le_nat_alt)
      from realloc_ok [OF b1(1) this Some] Some b1 eq add1 show ?thesis
        by (simp add: word_less_nat_alt)
    qed
  qed
qed

lemma make_room_fits:
  assumes ok: "buffer_ok b" and fits: "length (contents b) + unat len < 16384"
  shows "\<exists>b2. make_room True len b = Inr b2"
proof (cases "allocated b < used b + len")
  case True
  define b1 where "b1 = (if 0 < pos b then buffer_shift b else b)"
  have "unat (used b1) = length (contents b)"
    using ok shift_ok [OF ok] length_contents [OF ok] by (auto simp: b1_def buffer_ok_def unat_sub word_le_nat_alt word_gt_0)
  then have "used b1 + len < 16384" using fits by (simp add: word_less_nat_alt unat_add_no_wrap)
  from realloc_succeeds [OF this, of b1] obtain b2 where r: "realloc_buffer True (used b1 + len) b1 = Some b2" ..
  have "make_room True len b = (case realloc_buffer True (used b1 + len) b1 of None \<Rightarrow> Inl b1 | Some b2 \<Rightarrow> Inr b2)"
    using True by (simp only: make_room_def b1_def Let_def if_True)
  with r show ?thesis by simp
qed (simp add: make_room_def)

lemma append_ok:
  assumes ok: "buffer_ok b" and room: "unat (used b) + length d \<le> unat (allocated b)"
    and len: "unat len = length d"
  shows "buffer_ok (b\<lparr>data := write_at (unat (used b)) d (data b), used := used b + len\<rparr>) \<and>
    contents (b\<lparr>data := write_at (unat (used b)) d (data b), used := used b + len\<rparr>) = contents b @ d"
proof -
  let ?b = "b\<lparr>data := write_at (unat (used b)) d (data b), used := used b + len\<rparr>"
  have u: "unat (used b + len) = unat (used b) + length d"
    using ok room len by (subst unat_add_no_wrap) (auto simp: buffer_ok_def)
  have ok': "buffer_ok ?b" using ok room u by (auto simp: buffer_ok_def)
  have "contents ?b = drop (unat (pos b)) (take (unat (used b)) (data b) @ d)"
    using ok room u by (simp add: contents_alt [OF ok'] take_write_at(1) buffer_ok_def)
  also have "\<dots> = contents b @ d"
    using ok by (simp add: contents_alt [OF ok] buffer_ok_def)
  finally show ?thesis using ok' by simp
qed

text \<open>What \<open>ssh_buffer_add_data\<close> promises.\<close>

lemma add_data_ok:
  assumes ok: "buffer_ok b" and len: "length d < 2 ^ 32"
    and ret: "ssh_buffer_add_data m (Some d) b = (rc, b')"
  shows "buffer_ok b' \<and> secure b' = secure b \<and>
    (rc = 0 \<and> contents b' = contents b @ d \<or> rc = -1 \<and> contents b' = contents b)"
proof -
  let ?len = "of_nat (length d) :: u32"
  have l: "unat ?len = length d" using len by (simp add: unat_of_nat take_bit_nat_eq_self_iff)
  show ?thesis
  proof (cases "used b + ?len < ?len")
    case True
    with ret ok show ?thesis by (auto simp: ssh_buffer_add_data_def Let_def)
  next
    case False
    note room = make_room_ok [OF ok False, of m]
    show ?thesis
    proof (cases "make_room m ?len b")
      case (Inl b1)
      with ret False room show ?thesis by (auto simp: ssh_buffer_add_data_def Let_def)
    next
      case (Inr b2)
      with room l have "buffer_ok b2" "unat (used b2) + length d \<le> unat (allocated b2)" by simp_all
      from append_ok [OF this l] Inr room ret False show ?thesis
        by (auto simp: ssh_buffer_add_data_def Let_def)
    qed
  qed
qed

lemma add_data_fits:
  assumes ok: "buffer_ok b" and fits: "length (contents b) + length d < 16384"
  shows "\<exists>b'. ssh_buffer_add_data True (Some d) b = (0, b') \<and> buffer_ok b' \<and> secure b' = secure b \<and>
    contents b' = contents b @ d"
proof -
  let ?len = "of_nat (length d) :: u32"
  have len: "length d < 2 ^ 32" using fits by simp
  then have l: "unat ?len = length d" by (simp add: unat_of_nat take_bit_nat_eq_self_iff)
  have nw: "\<not> used b + ?len < ?len" using used_bound [OF ok] fits l by (simp add: no_wrap_iff [OF ok])
  obtain b2 where "make_room True ?len b = Inr b2" using make_room_fits [OF ok, of ?len] fits l by auto
  then have "\<exists>b'. ssh_buffer_add_data True (Some d) b = (0, b')"
    using nw by (simp add: ssh_buffer_add_data_def Let_def)
  then obtain b' where b': "ssh_buffer_add_data True (Some d) b = (0, b')" ..
  from add_data_ok [OF ok len b'] b' show ?thesis by auto
qed

lemma get_data_ok:
  assumes ok: "buffer_ok b"
  shows "if unat len \<le> length (contents b)
    then \<exists>b'. ssh_buffer_get_data len b = ((len, take (unat len) (contents b)), b') \<and> buffer_ok b' \<and>
      secure b' = secure b \<and> contents b' = drop (unat len) (contents b)
    else ssh_buffer_get_data len b = ((0, []), b)"
proof -
  have lc: "length (contents b) = unat (used b) - unat (pos b)" by (rule length_contents [OF ok])
  have le: "unat (pos b) \<le> unat (used b)" "unat (used b) \<le> length (data b)" using ok by (auto simp: buffer_ok_def)
  have bound: "unat (used b) \<le> 16384" by (rule used_bound [OF ok])
  have wrap: "pos b + len < len \<longleftrightarrow> 2 ^ 32 \<le> unat (pos b) + unat len"
    using word_add_overflow_iff' [of "pos b" len] by simp
  show ?thesis
  proof (cases "unat len \<le> length (contents b)")
    case True
    then have sum: "unat (pos b) + unat len \<le> unat (used b)" using lc le by simp
    then have u: "unat (pos b + len) = unat (pos b) + unat len" using bound by (subst unat_add_no_wrap) auto
    have valid: "ssh_buffer_validate_length len b = SSH_OK"
      using sum u wrap bound by (simp add: ssh_buffer_validate_length_def word_less_nat_alt)
    let ?b = "b\<lparr>pos := pos b + len\<rparr>"
    have ok': "buffer_ok ?b" using ok sum u by (simp add: buffer_ok_def)
    have "contents ?b = drop (unat (pos b) + unat len) (take (unat (used b)) (data b))"
      using u by (simp add: contents_alt [OF ok'])
    also have "\<dots> = drop (unat len) (contents b)"
      by (simp add: contents_alt [OF ok] add.commute)
    finally have "contents ?b = drop (unat len) (contents b)" .
    moreover have "take (unat len) (drop (unat (pos b)) (data b)) = take (unat len) (contents b)"
      using True lc by (simp add: contents_def min_def)
    ultimately show ?thesis using True valid ok' by (simp add: ssh_buffer_get_data_def)
  next
    case False
    then have "unat (used b) < unat (pos b) + unat len" using lc le by simp
    then have "ssh_buffer_validate_length len b = SSH_ERROR"
      using wrap by (cases "2 ^ 32 \<le> unat (pos b) + unat len")
        (auto simp: ssh_buffer_validate_length_def word_less_nat_alt unat_add_no_wrap)
    with False show ?thesis by (simp add: ssh_buffer_get_data_def)
  qed
qed

lemma new_ok: "\<exists>b. ssh_buffer_new True True = Some b \<and> buffer_ok b \<and> contents b = [] \<and> \<not> secure b"
proof -
  have ok: "buffer_ok empty_buffer" by (simp add: buffer_ok_def empty_buffer_def)
  obtain b where b: "realloc_buffer True 63 empty_buffer = Some b" using realloc_succeeds [of 63] by auto
  have "ssh_buffer_new True True = Some b"
    using b by (simp add: ssh_buffer_new_def ssh_buffer_allocate_size_def empty_buffer_def)
  with realloc_ok [OF ok _ b] show ?thesis by (simp add: empty_buffer_def contents_def)
qed

lemma prepend_ok:
  assumes ok: "buffer_ok b" and len: "length d < 2 ^ 31"
    and ret: "ssh_buffer_prepend_data m d b = (rc, b')"
  shows "buffer_ok b' \<and> secure b' = secure b \<and>
    (rc = 0 \<and> contents b' = d @ contents b \<or> rc = -1 \<and> b' = b)"
proof -
  let ?len = "of_nat (length d) :: u32"
  have l: "unat ?len = length d" using len by (simp add: unat_of_nat take_bit_nat_eq_self_iff)
  have le: "unat (pos b) \<le> unat (used b)" "unat (used b) \<le> length (data b)" "length (data b) = unat (allocated b)"
    using ok by (auto simp: buffer_ok_def)
  have bound: "unat (used b) \<le> 16384" by (rule used_bound [OF ok])
  have sub: "unat (used b - pos b) = unat (used b) - unat (pos b)" using le by (simp add: unat_sub word_le_nat_alt)
  show ?thesis
  proof (cases "?len \<le> pos b")
    case True
    then have lp: "length d \<le> unat (pos b)" using l by (simp add: word_le_nat_alt)
    then have u: "unat (pos b - ?len) = unat (pos b) - length d" using True l by (simp add: unat_sub)
    let ?b = "b\<lparr>data := write_at (unat (pos b - ?len)) d (data b), pos := pos b - ?len\<rparr>"
    have ok': "buffer_ok ?b" using ok u lp le by (auto simp: buffer_ok_def)
    have "contents ?b = d @ contents b"
      using u lp le by (simp add: contents_def write_at_def)
    with ok' True ret show ?thesis by (auto simp: ssh_buffer_prepend_data_def Let_def)
  next
    case False
    then have lp: "unat (pos b) < length d" using l by (simp add: word_le_nat_alt)
    have nw: "unat (used b - pos b + ?len) = unat (used b) - unat (pos b) + length d"
      using sub l len bound by (subst unat_add_no_wrap) auto
    then have nwrap: "\<not> used b - pos b + ?len < ?len" using l by (simp add: word_less_nat_alt)
    define grown where "grown = (if allocated b < used b - pos b + ?len
        then realloc_buffer m (used b - pos b + ?len) b else Some b)"
    show ?thesis
    proof (cases grown)
      case None
      with False nwrap ret ok show ?thesis by (auto simp: ssh_buffer_prepend_data_def grown_def Let_def)
    next
      case (Some b1)
      have grow: "used b \<le> used b - pos b + ?len" using nw lp le by (simp add: word_le_nat_alt)
      have b1: "buffer_ok b1 \<and> contents b1 = contents b \<and> used b1 = used b \<and> pos b1 = pos b \<and> secure b1 = secure b \<and>
          unat (used b) - unat (pos b) + length d \<le> unat (allocated b1)"
        using Some realloc_ok [OF ok grow, of m b1] ok nw
        by (auto simp: grown_def word_less_nat_alt not_less split: if_splits)
      let ?b = "b1\<lparr>data := write_at 0 d (write_at (unat ?len) (contents b) (data b1)),
          used := used b1 + (?len - pos b1), pos := 0\<rparr>"
      have d1: "length (data b1) = unat (allocated b1)" "unat (allocated b1) \<le> 16384"
        using b1 by (auto simp: buffer_ok_def)
      have lc: "length (contents b) = unat (used b) - unat (pos b)" by (rule length_contents [OF ok])
      have u: "unat (used b1 + (?len - pos b1)) = unat (used b) - unat (pos b) + length d"
      proof -
        have eq: "used b1 = used b" "pos b1 = pos b" using b1 by simp_all
        have "used b + (?len - pos b) = used b - pos b + ?len" by simp
        then show ?thesis unfolding eq using nw by (simp only:)
      qed
      have ok': "buffer_ok ?b" using b1 d1 u lc l by (auto simp: buffer_ok_def write_at_def)
      have "contents ?b = d @ contents b"
        using u b1 d1 lc l by (simp add: contents_def write_at_def)
      moreover have "take (unat (used b1 - pos b1)) (drop (unat (pos b1)) (data b1)) = contents b1"
        using b1 sub by (simp add: contents_def)
      ultimately show ?thesis
        using False nwrap ret ok' Some b1 by (auto simp: ssh_buffer_prepend_data_def grown_def [symmetric] Let_def)
    qed
  qed
qed

lemma pass_bytes_ok:
  assumes ok: "buffer_ok b"
  shows "if unat len \<le> length (contents b)
    then \<exists>b'. ssh_buffer_pass_bytes len b = (len, b') \<and> buffer_ok b' \<and> contents b' = drop (unat len) (contents b)
    else ssh_buffer_pass_bytes len b = (0, b)"
proof (cases "unat len \<le> length (contents b)")
  case True
  have v: "ssh_buffer_validate_length len b = SSH_OK"
  proof (cases "len = 0")
    case True
    with ok show ?thesis by (simp add: ssh_buffer_validate_length_def buffer_ok_def word_less_nat_alt not_less)
  next
    case False
    with True get_data_ok [OF ok, of len] show ?thesis by (auto simp: ssh_buffer_get_data_def split: if_splits)
  qed
  from True get_data_ok [OF ok, of len] v have ok': "buffer_ok (b\<lparr>pos := pos b + len\<rparr>)"
      and c: "contents (b\<lparr>pos := pos b + len\<rparr>) = drop (unat len) (contents b)"
    by (auto simp: ssh_buffer_get_data_def)
  let ?b = "b\<lparr>pos := pos b + len\<rparr>"
  have nov: "\<not> (pos b + len < len \<or> used b < pos b + len)"
    using v by (auto simp: ssh_buffer_validate_length_def split: if_splits)
  show ?thesis
  proof (cases "pos b + len = used b")
    case same: True
    then have "contents ?b = []" by (simp add: contents_def)
    with c have "drop (unat len) (contents b) = []" by simp
    moreover have "buffer_ok (b\<lparr>pos := 0, used := 0\<rparr>)" using ok by (simp add: buffer_ok_def)
    ultimately show ?thesis using True nov same by (simp add: ssh_buffer_pass_bytes_def contents_def)
  next
    case False
    with True nov c ok' show ?thesis by (simp add: ssh_buffer_pass_bytes_def)
  qed
next
  case False
  with get_data_ok [OF ok, of len] have "ssh_buffer_get_data len b = ((0, []), b)" by simp
  moreover have "len \<noteq> 0" using False by auto
  ultimately have "ssh_buffer_validate_length len b \<noteq> SSH_OK" by (auto simp: ssh_buffer_get_data_def split: if_splits)
  then have "pos b + len < len \<or> used b < pos b + len"
    by (auto simp: ssh_buffer_validate_length_def split: if_splits)
  with False show ?thesis by (auto simp: ssh_buffer_pass_bytes_def)
qed

section \<open>The queue's interface\<close>

text \<open>A bounded byte queue: what a reader and a writer of a buffer rely on.\<close>

locale byte_queue =
  fixes ok :: "'q \<Rightarrow> bool"
    and view :: "'q \<Rightarrow> byte list"
    and put :: "byte list \<Rightarrow> 'q \<Rightarrow> int \<times> 'q"
    and get :: "u32 \<Rightarrow> 'q \<Rightarrow> (u32 \<times> byte list) \<times> 'q"
    and capacity :: nat
  assumes put_room: "ok q \<Longrightarrow> length (view q) + length d < capacity \<Longrightarrow>
      \<exists>q'. put d q = (0, q') \<and> ok q' \<and> view q' = view q @ d"
    and get_enough: "ok q \<Longrightarrow> unat n \<le> length (view q) \<Longrightarrow>
      \<exists>q'. get n q = ((n, take (unat n) (view q)), q') \<and> ok q' \<and> view q' = drop (unat n) (view q)"
    and get_short: "ok q \<Longrightarrow> length (view q) < unat n \<Longrightarrow> get n q = ((0, []), q)"
begin

lemma get_prefix:
  assumes "ok q" and "view q = d @ rest" and "unat n = length d"
  shows "\<exists>q'. get n q = ((n, d), q') \<and> ok q' \<and> view q' = rest"
  using get_enough [OF assms(1), of n] assms(2,3) by simp

lemma put_get:
  assumes "ok q" and "view q = []" and "length d < capacity" and "unat n = length d"
  shows "\<exists>q1 q2. put d q = (0, q1) \<and> get n q1 = ((n, d), q2) \<and> ok q2 \<and> view q2 = []"
proof -
  from put_room [OF assms(1), of d] assms(2,3) obtain q1
    where q1: "put d q = (0, q1)" "ok q1" "view q1 = d" by auto
  from get_prefix [OF q1(2), of d "[]" n] q1(1,3) assms(4) show ?thesis by auto
qed

lemma put_put:
  assumes "ok q" and "length (view q) + length d + length e < capacity"
  shows "\<exists>q1 q2. put d q = (0, q1) \<and> put e q1 = (0, q2) \<and> ok q2 \<and> view q2 = view q @ d @ e"
proof -
  from put_room [OF assms(1), of d] assms(2) obtain q1
    where q1: "put d q = (0, q1)" "ok q1" "view q1 = view q @ d" by auto
  from put_room [OF q1(2), of e] assms(2) q1(1,3) show ?thesis by auto
qed

end

interpretation buf: byte_queue buffer_ok contents "\<lambda>d. ssh_buffer_add_data True (Some d)" ssh_buffer_get_data 16384
proof
  fix q :: ssh_buffer and n :: u32
  assume ok: "buffer_ok q"
  show "length (contents q) + length d < 16384 \<Longrightarrow>
      \<exists>q'. ssh_buffer_add_data True (Some d) q = (0, q') \<and> buffer_ok q' \<and> contents q' = contents q @ d" for d
    using add_data_fits [OF ok, of d] by auto
  show "unat n \<le> length (contents q) \<Longrightarrow>
      \<exists>q'. ssh_buffer_get_data n q = ((n, take (unat n) (contents q)), q') \<and> buffer_ok q' \<and>
        contents q' = drop (unat n) (contents q)"
    using get_data_ok [OF ok, of n] by auto
  show "length (contents q) < unat n \<Longrightarrow> ssh_buffer_get_data n q = ((0, []), q)"
    using get_data_ok [OF ok, of n] by simp
qed

section \<open>Properties\<close>

text \<open>
  C28: A buffer is a bounded byte queue. From a well-formed buffer, adding data either appends
  exactly that data or, on a failed allocation or past the limit, leaves the contents as they
  were; with memory available it succeeds whenever the contents and the data stay below 16384
  bytes; reading returns the oldest bytes and removes them, or nothing when there are too few.
  Every result is well-formed.
\<close>

theorem buffer_refines_queue:
  assumes ok: "buffer_ok b" and len: "length d < 2 ^ 32"
  shows "(case ssh_buffer_add_data m (Some d) b of (rc, b') \<Rightarrow>
       buffer_ok b' \<and> contents b' = (if rc = 0 then contents b @ d else contents b)) \<and>
    (length (contents b) + length d < 16384 \<longrightarrow> fst (ssh_buffer_add_data True (Some d) b) = 0) \<and>
    (case ssh_buffer_get_data n b of ((k, out), b') \<Rightarrow>
       buffer_ok b' \<and> contents b = out @ contents b' \<and>
       (if unat n \<le> length (contents b) then k = n \<and> length out = unat n else k = 0 \<and> b' = b))"
proof -
  obtain rc b' where add: "ssh_buffer_add_data m (Some d) b = (rc, b')" by fastforce
  have "length (contents b) + length d < 16384 \<Longrightarrow> fst (ssh_buffer_add_data True (Some d) b) = 0"
    using add_data_fits [OF ok, of d] by auto
  moreover have "case ssh_buffer_get_data n b of ((k, out), b') \<Rightarrow>
       buffer_ok b' \<and> contents b = out @ contents b' \<and>
       (if unat n \<le> length (contents b) then k = n \<and> length out = unat n else k = 0 \<and> b' = b)"
  proof (cases "unat n \<le> length (contents b)")
    case True
    with get_data_ok [OF ok, of n] obtain b2 where
      "ssh_buffer_get_data n b = ((n, take (unat n) (contents b)), b2)" "buffer_ok b2"
      "contents b2 = drop (unat n) (contents b)" by auto
    with True show ?thesis by simp
  next
    case False
    with get_data_ok [OF ok, of n] ok show ?thesis by simp
  qed
  moreover have "buffer_ok b' \<and> contents b' = (if rc = 0 then contents b @ d else contents b)"
    using add_data_ok [OF ok len add] by auto
  ultimately show ?thesis by (simp add: add)
qed

definition demo_buffer :: ssh_buffer where
  "demo_buffer = \<lparr>secure = False, used = 3, allocated = 4, pos = 1, data = [9, 1, 2, 0], freed = []\<rparr>"

lemma demo_buffer_ok: "buffer_ok demo_buffer" "contents demo_buffer = [1, 2]"
  by (simp_all add: buffer_ok_def contents_def demo_buffer_def)

lemma buffer_refines_queue_witness:
  "fst (ssh_buffer_add_data True (Some [7, 8]) demo_buffer) = 0 \<and>
   contents (snd (ssh_buffer_add_data True (Some [7, 8]) demo_buffer)) = [1, 2, 7, 8]"
proof -
  obtain rc b' where add: "ssh_buffer_add_data True (Some [7, 8]) demo_buffer = (rc, b')" by fastforce
  from buffer_refines_queue [OF demo_buffer_ok(1), of "[7, 8]" True 0] add show ?thesis
    by (auto simp: demo_buffer_ok(2))
qed

text \<open>
  Prepending puts data in front. \<open>ssh_buffer_prepend_data\<close>, which writes a packet's header
  before its payload, gives exactly header and payload, whether it finds room before the
  position or moves the contents, and changes nothing when it fails.
\<close>

theorem prepend_puts_in_front:
  assumes "buffer_ok b" and "length d < 2 ^ 31"
  shows "case ssh_buffer_prepend_data m d b of (rc, b') \<Rightarrow>
    buffer_ok b' \<and> (if rc = 0 then contents b' = d @ contents b else b' = b)"
proof -
  obtain rc b' where ret: "ssh_buffer_prepend_data m d b = (rc, b')" by fastforce
  from prepend_ok [OF assms ret] show ?thesis by (auto simp: ret)
qed

lemma prepend_puts_in_front_witness:
  "fst (ssh_buffer_prepend_data True [5] demo_buffer) = 0 \<and>
   contents (snd (ssh_buffer_prepend_data True [5] demo_buffer)) = [5, 1, 2]"
proof -
  have rc: "fst (ssh_buffer_prepend_data True [5] demo_buffer) = 0"
    by (simp add: ssh_buffer_prepend_data_def demo_buffer_def)
  with prepend_puts_in_front [OF demo_buffer_ok(1), of "[5]" True] show ?thesis
    by (auto simp: demo_buffer_ok(2) split: prod.splits)
qed

text \<open>
  \<open>ssh_buffer_pass_bytes_end\<close> can break a buffer. It compares the length with \<open>used\<close> and not
  with what is left after the position, so passing more bytes than are left puts the position
  behind the end: the remaining length becomes almost 2 to the 32.
\<close>

theorem pass_bytes_end_breaks:
  "buffer_ok demo_buffer \<and> fst (ssh_buffer_pass_bytes_end 3 demo_buffer) = 3 \<and>
   \<not> buffer_ok (snd (ssh_buffer_pass_bytes_end 3 demo_buffer)) \<and>
   ssh_buffer_get_len (snd (ssh_buffer_pass_bytes_end 3 demo_buffer)) = 2 ^ 32 - 1"
  by (simp add: buffer_ok_def ssh_buffer_pass_bytes_end_def ssh_buffer_get_len_def demo_buffer_def)

text \<open>
  A secure buffer can give back a block with a secret in it. Reallocation clears only the
  first \<open>used\<close> bytes of the old block; reading the secret to the end sets \<open>used\<close> to 0 and leaves
  the bytes, so the next reallocation returns them to the allocator unerased.
\<close>

theorem secure_realloc_leaks:
  assumes "secret \<noteq> []" and "length secret = 4"
  shows "\<exists>b b'. secure b \<and> buffer_ok b \<and> contents b = secret \<and>
    ssh_buffer_allocate_size True 8 (snd (ssh_buffer_pass_bytes 4 b)) = (0, b') \<and> secret \<in> set (freed b')"
proof -
  let ?b = "\<lparr>secure = True, used = 4, allocated = 4, pos = 0, data = secret, freed = []\<rparr>"
  have g: "grow 1 8 = Some 16"
    by (simp add: grow.simps)
  have "ssh_buffer_pass_bytes 4 ?b = (4, ?b\<lparr>used := 0\<rparr>)" by (simp add: ssh_buffer_pass_bytes_def)
  then have "\<exists>b'. ssh_buffer_allocate_size True 8 (snd (ssh_buffer_pass_bytes 4 ?b)) = (0, b') \<and> secret \<in> set (freed b')"
    using assms by (simp add: ssh_buffer_allocate_size_def realloc_buffer_def g BUFFER_SIZE_MAX_def write_at_def)
  moreover have "secure ?b" "buffer_ok ?b" "contents ?b = secret"
    using assms by (simp_all add: buffer_ok_def contents_def)
  ultimately show ?thesis by blast
qed

lemma secure_realloc_leaks_witness:
  "\<exists>b b'. secure b \<and> buffer_ok b \<and> contents b = [1, 2, 3, 4] \<and>
    ssh_buffer_allocate_size True 8 (snd (ssh_buffer_pass_bytes 4 b)) = (0, b') \<and> [1, 2, 3, 4] \<in> set (freed b')"
  by (rule secure_realloc_leaks) simp_all

end
