(* ===== verification/Kex_State.thy ===== *)
theory Kex_State
  imports Kex_Choice Ssh_String Ssh_Buffer
begin

text \<open>
  The state of a key exchange: the part of \<open>ssh_crypto_struct\<close> (\<open>crypto.h\<close>) and of
  \<open>ssh_session_struct\<close> (\<open>session.h\<close>) that only the key exchange reads and writes. A big number is a
  natural number; a public key and an elliptic curve's private key are what the functions that make
  them return (\<open>pki.c\<close>, mbedTLS).
\<close>

type_synonym bignum = nat
type_synonym ssh_key = "byte list"

record dh_keypair =
  priv_key :: "bignum option"
  pub_key :: "bignum option"

record dh_ctx =
  client_pair :: dh_keypair
  server_pair :: dh_keypair
  dh_generator :: "bignum option"
  dh_modulus :: "bignum option"

datatype kdf_digest = SSH_KDF_SHA1 | SSH_KDF_SHA256 | SSH_KDF_SHA384 | SSH_KDF_SHA512

record kex_crypto =
  shared_secret :: "bignum option"
  dh_ctx :: "dh_ctx option"
  dh_pmin :: u32
  dh_pn :: u32
  dh_pmax :: u32
  ecdh_privkey :: "byte list option"
  ecdh_client_pubkey :: "ssh_string option"
  ecdh_server_pubkey :: "ssh_string option"
  curve25519_privkey :: "byte list"
  curve25519_client_pubkey :: "byte list"
  curve25519_server_pubkey :: "byte list"
  dh_server_signature :: "ssh_string option"
  digest_len :: nat
  digest_type :: kdf_digest
  secret_hash :: "byte list option"
  server_pubkey :: "ssh_key option"
  delayed_compress_in :: bool
  delayed_compress_out :: bool
  server_kex :: ssh_kex
  client_kex :: ssh_kex
  kex_methods :: "string option list"
  kex_type :: kex_type

text \<open>All zero, as \<open>calloc\<close> leaves it. Zero is no digest; nothing reads the field before it is set.\<close>

definition zero_kex :: ssh_kex where
  "zero_kex = \<lparr>kex_cookie = replicate 16 0, methods = replicate SSH_KEX_METHODS None\<rparr>"

definition new_kex_crypto :: kex_crypto where
  "new_kex_crypto =
     \<lparr>shared_secret = None, dh_ctx = None, dh_pmin = 0, dh_pn = 0, dh_pmax = 0, ecdh_privkey = None, ecdh_client_pubkey = None, ecdh_server_pubkey = None,
      curve25519_privkey = replicate 32 0, curve25519_client_pubkey = replicate 32 0,
      curve25519_server_pubkey = replicate 32 0, dh_server_signature = None, digest_len = 0, digest_type = SSH_KDF_SHA1,
      secret_hash = None, server_pubkey = None, delayed_compress_in = False, delayed_compress_out = False,
      server_kex = zero_kex, client_kex = zero_kex, kex_methods = replicate SSH_KEX_METHODS None,
      kex_type = SSH_KEX_NONE\<rparr>"

text \<open>The session's part.\<close>

record handshake =
  serverbanner :: "byte list option"
  clientbanner :: "byte list option"
  openssh :: int
  connected :: bool
  is_alive :: bool
  extensions :: u32
  send_first_kex_follows :: bool
  first_kex_follows_guess_wrong :: bool
  in_hashbuf :: "ssh_buffer option"
  out_hashbuf :: "ssh_buffer option"
  wanted_methods :: "string option list"
  peer_discon_msg :: "byte list option"

definition new_handshake :: handshake where
  "new_handshake =
     \<lparr>serverbanner = None, clientbanner = None, openssh = 0, connected = False, is_alive = False, extensions = 0,
      send_first_kex_follows = False, first_kex_follows_guess_wrong = False, in_hashbuf = None, out_hashbuf = None,
      wanted_methods = replicate SSH_KEX_METHODS None, peer_discon_msg = None\<rparr>"

end
