(* ===== verification/Packet_State.thy ===== *)
theory Packet_State
  imports Packet_Filter Kex_State
begin

unbundle bit_operations_syntax

text \<open>
  The state of a session that the packet layer keeps (\<open>session.h\<close>, \<open>crypto.h\<close>,
  \<open>packet.h\<close>), and the functions of \<open>packet.c\<close> that decide which keys are in use and when to
  change them. A cipher is a structure of function pointers over a context of type \<open>'k\<close> and
  stays one here: the ciphers themselves are in the crypto library.
\<close>

section \<open>Ciphers and keys\<close>

datatype hmac_type =
    SSH_HMAC_SHA1 | SSH_HMAC_SHA256 | SSH_HMAC_SHA512 | SSH_HMAC_MD5
  | SSH_HMAC_AEAD_POLY1305 | SSH_HMAC_AEAD_GCM | SSH_HMAC_NONE

definition hmac_digest_len :: "hmac_type \<Rightarrow> nat" where
  "hmac_digest_len t =
     (case t of
        SSH_HMAC_SHA1 \<Rightarrow> 20 | SSH_HMAC_SHA256 \<Rightarrow> 32 | SSH_HMAC_SHA512 \<Rightarrow> 64 | SSH_HMAC_MD5 \<Rightarrow> 16
      | SSH_HMAC_AEAD_POLY1305 \<Rightarrow> 16 | SSH_HMAC_AEAD_GCM \<Rightarrow> 16 | _ \<Rightarrow> 0)"

datatype ssh_cipher_e =
    SSH_NO_CIPHER | SSH_3DES_CBC | SSH_AES128_CBC | SSH_AES192_CBC | SSH_AES256_CBC | SSH_AES128_CTR | SSH_AES192_CTR
  | SSH_AES256_CTR | SSH_AEAD_AES128_GCM | SSH_AEAD_AES256_GCM | SSH_AEAD_CHACHA20_POLY1305

record 'k ssh_cipher =
  cipher_name :: string
  blocksize :: u32
  ciphertype :: ssh_cipher_e
  lenfield_blocksize :: u32
  keysize :: u32
  packets :: u32
  blocks :: u64
  max_blocks :: u64
  kctx :: 'k
  set_encrypt_key :: "('k \<Rightarrow> byte list \<Rightarrow> byte list \<Rightarrow> int \<times> 'k) option"
  set_decrypt_key :: "('k \<Rightarrow> byte list \<Rightarrow> byte list \<Rightarrow> int \<times> 'k) option"
  encrypt :: "'k \<Rightarrow> byte list \<Rightarrow> byte list \<times> 'k"
  decrypt :: "'k \<Rightarrow> byte list \<Rightarrow> byte list \<times> 'k"
  aead_encrypt :: "('k \<Rightarrow> byte list \<Rightarrow> u64 \<Rightarrow> byte list \<times> byte list \<times> 'k) option"
  aead_decrypt_length :: "('k \<Rightarrow> byte list \<Rightarrow> nat \<Rightarrow> u64 \<Rightarrow> int \<times> byte list \<times> 'k) option"
  aead_decrypt :: "('k \<Rightarrow> byte list \<Rightarrow> nat \<Rightarrow> u64 \<Rightarrow> int \<times> byte list \<times> 'k) option"

text \<open>The directions a set of keys is used for, as bits.\<close>

abbreviation (input) SSH_DIRECTION_IN :: u32 where "SSH_DIRECTION_IN \<equiv> 1"
abbreviation (input) SSH_DIRECTION_OUT :: u32 where "SSH_DIRECTION_OUT \<equiv> 2"
abbreviation (input) SSH_DIRECTION_BOTH :: u32 where "SSH_DIRECTION_BOTH \<equiv> 3"

record 'k ssh_crypto =
  session_id :: "byte list option"
  encryptIV :: "byte list"
  decryptIV :: "byte list"
  encryptkey :: "byte list"
  decryptkey :: "byte list"
  encryptMAC :: "byte list"
  decryptMAC :: "byte list"
  in_cipher :: "'k ssh_cipher option"
  out_cipher :: "'k ssh_cipher option"
  in_hmac :: hmac_type
  out_hmac :: hmac_type
  in_hmac_etm :: bool
  out_hmac_etm :: bool
  do_compress_out :: bool
  do_compress_in :: bool
  used_for :: u32
  kx :: kex_crypto

text \<open>
  \<open>crypto_new\<close>: a zeroed structure. Zero is no value of the MAC enumeration; its digest has no
  bytes, like that of \<open>SSH_HMAC_NONE\<close>, and until keys are set nothing else reads it.
\<close>

definition crypto_new :: "bool \<Rightarrow> 'k ssh_crypto option" where
  "crypto_new m =
     (if m then
        Some \<lparr>session_id = None, encryptIV = [], decryptIV = [], encryptkey = [], decryptkey = [], encryptMAC = [],
              decryptMAC = [], in_cipher = None, out_cipher = None, in_hmac = SSH_HMAC_NONE, out_hmac = SSH_HMAC_NONE,
              in_hmac_etm = False, out_hmac_etm = False, do_compress_out = False, do_compress_in = False, used_for = 0,
              kx = new_kex_crypto\<rparr>
      else None)"

section \<open>The session\<close>

datatype packet_state = PACKET_STATE_INIT | PACKET_STATE_SIZEREAD | PACKET_STATE_PROCESSING

record packet =
  valid :: bool
  plen :: u32
  ptype :: byte

record raw_counter =
  in_bytes :: u64
  out_bytes :: u64
  in_packets :: u64
  out_packets :: u64

text \<open>
  \<open>wire\<close> is what was given to \<open>ssh_socket_write\<close>, one entry per packet; \<open>packet_callbacks\<close>
  holds the addresses of the tables of handlers.
\<close>

record 'k ssh_session = filter_session +
  flags :: u32
  current_crypto :: "'k ssh_crypto option"
  next_crypto :: "'k ssh_crypto option"
  rekey_data :: u64
  rekey_time :: u32
  last_rekey_time :: nat
  out_buffer :: ssh_buffer
  out_queue :: "ssh_buffer list"
  in_buffer :: "ssh_buffer option"
  in_packet :: packet
  packet_state :: packet_state
  recv_seq :: u32
  send_seq :: u32
  raw_counter :: "raw_counter option"
  packet_callbacks :: "nat list option"
  wire :: "byte list list"
  shake :: handshake

abbreviation (input) SSH_SESSION_FLAG_AUTHENTICATED :: u32 where "SSH_SESSION_FLAG_AUTHENTICATED \<equiv> 2"
abbreviation (input) SSH_SESSION_FLAG_KEXINIT_SENT :: u32 where "SSH_SESSION_FLAG_KEXINIT_SENT \<equiv> 8"
abbreviation (input) SSH_SESSION_FLAG_KEX_STRICT :: u32 where "SSH_SESSION_FLAG_KEX_STRICT \<equiv> 0x10"
abbreviation (input) SSH_SESSION_FLAG_KEX_TAINTED :: u32 where "SSH_SESSION_FLAG_KEX_TAINTED \<equiv> 0x20"

section \<open>The keys in use\<close>

definition ssh_packet_get_current_crypto :: "'k ssh_session option \<Rightarrow> u32 \<Rightarrow> 'k ssh_crypto option" where
  "ssh_packet_get_current_crypto session direction =
     (case session of
        None \<Rightarrow> None
      | Some s \<Rightarrow>
          (let crypto =
             (if \<exists>c\<in>set_option (current_crypto s). used_for c AND direction \<noteq> 0 then current_crypto s
              else if \<exists>c\<in>set_option (next_crypto s). used_for c AND direction \<noteq> 0 then next_crypto s
              else None)
           in case crypto of
                None \<Rightarrow> None
              | Some c \<Rightarrow>
                  if direction = SSH_DIRECTION_IN then (if in_cipher c \<noteq> None then Some c else None)
                  else if direction = SSH_DIRECTION_OUT then (if out_cipher c \<noteq> None then Some c else None)
                  else if direction = SSH_DIRECTION_BOTH then
                    (if in_cipher c \<noteq> None \<and> out_cipher c \<noteq> None then Some c else None)
                  else None))"

definition MAX_PACKETS :: u32 where "MAX_PACKETS = 0x80000000"

text \<open>\<open>elapsed\<close> is the answer of \<open>ssh_timeout_elapsed\<close> for the last key change.\<close>

definition ssh_packet_need_rekey :: "(nat \<Rightarrow> u32 \<Rightarrow> bool) \<Rightarrow> 'k ssh_session \<Rightarrow> u32 \<Rightarrow> bool" where
  "ssh_packet_need_rekey elapsed s payloadsize =
     (if flags s AND SSH_SESSION_FLAG_AUTHENTICATED = 0 then False
      else if dh_handshake_state s \<noteq> DH_STATE_FINISHED then False
      else
        (case ssh_packet_get_current_crypto (Some s) SSH_DIRECTION_BOTH of
           None \<Rightarrow> False
         | Some crypto \<Rightarrow>
             (let oc = the (out_cipher crypto); ic = the (in_cipher crypto) in
              if packets oc = 0 \<and> packets ic = 0 then False
              else if rekey_time s \<noteq> 0 \<and> elapsed (last_rekey_time s) (rekey_time s) then True
              else if MAX_PACKETS < packets oc \<or> MAX_PACKETS < packets ic then True
              else
                let next_blocks = payloadsize div blocksize oc in
                (max_blocks oc \<noteq> 0 \<and> max_blocks oc < blocks oc + ucast next_blocks) \<or>
                (max_blocks ic \<noteq> 0 \<and> max_blocks ic < blocks ic + ucast next_blocks))))"

definition ssh_packet_is_kex :: "byte \<Rightarrow> bool" where
  "ssh_packet_is_kex t = (1 \<le> t \<and> t \<le> 34 \<and> t \<noteq> 5 \<and> t \<noteq> 6 \<and> t \<noteq> 2 \<and> t \<noteq> 7)"

definition ssh_packet_in_rekey :: "'k ssh_session \<Rightarrow> bool" where
  "ssh_packet_in_rekey s =
     (flags s AND SSH_SESSION_FLAG_AUTHENTICATED \<noteq> 0 \<and>
      dh_handshake_state s \<noteq> DH_STATE_FINISHED \<and> dh_handshake_state s \<noteq> DH_STATE_NEWKEYS_SENT)"

section \<open>Changing keys\<close>

definition ssh_init_rekey_state :: "'k ssh_session \<Rightarrow> 'k ssh_cipher \<Rightarrow> 'k ssh_cipher" where
  "ssh_init_rekey_state s cipher =
     (let mb = (if 16 \<le> blocksize cipher then push_bit (unat (blocksize cipher * 2)) 1
                else push_bit 30 1 div ucast (blocksize cipher));
          mb' = (if rekey_data s \<noteq> 0 then min mb (rekey_data s div ucast (blocksize cipher)) else mb)
      in cipher\<lparr>packets := 0, blocks := 0, max_blocks := mb'\<rparr>)"

text \<open>
  What \<open>ssh_packet_set_newkeys\<close> calls elsewhere: the allocations, the clock, and the derivation of
  the session identifier, the algorithms and the keys (\<open>dh.c\<close>, \<open>wrapper.c\<close>), each a change of
  the session with its result.
\<close>

record 'k key_env =
  new_ok :: bool
  id_ok :: bool
  now :: nat
  make_sessionid :: "'k ssh_session \<Rightarrow> int \<times> 'k ssh_session"
  set_algorithms_client :: "'k ssh_session \<Rightarrow> int \<times> 'k ssh_session"
  generate_session_keys :: "'k ssh_session \<Rightarrow> int \<times> 'k ssh_session"

definition with_next :: "('k ssh_crypto \<Rightarrow> 'k ssh_crypto) \<Rightarrow> 'k ssh_session \<Rightarrow> 'k ssh_session" where
  "with_next f s = s\<lparr>next_crypto := map_option f (next_crypto s)\<rparr>"

text \<open>The last part: the counters, and the keys given to the two ciphers.\<close>

definition install_keys :: "'k key_env \<Rightarrow> 'k ssh_session \<Rightarrow> int \<times> 'k ssh_session" where
  "install_keys env s =
     (case next_crypto s of
        None \<Rightarrow> (SSH_ERROR, s)
      | Some n \<Rightarrow>
          (case (in_cipher n, out_cipher n) of
             (Some ic, Some oc) \<Rightarrow>
               (let oc1 = ssh_init_rekey_state s oc; ic1 = ssh_init_rekey_state s ic;
                    s1 = with_next (\<lambda>c. c\<lparr>in_cipher := Some ic1, out_cipher := Some oc1\<rparr>) s;
                    s2 = (if rekey_time s1 \<noteq> 0 then s1\<lparr>last_rekey_time := now env\<rparr> else s1);
                    (rc, ic2) = (case set_decrypt_key ic1 of
                                   None \<Rightarrow> (0, ic1)
                                 | Some f \<Rightarrow> let (r, k) = f (kctx ic1) (decryptkey n) (decryptIV n) in (r, ic1\<lparr>kctx := k\<rparr>));
                    s3 = with_next (\<lambda>c. c\<lparr>in_cipher := Some ic2\<rparr>) s2
                in if rc < 0 then (SSH_ERROR, with_next (\<lambda>c. c\<lparr>used_for := 0\<rparr>) s3)
                   else
                     let (rc', oc2) = (case set_encrypt_key oc1 of
                                         None \<Rightarrow> (0, oc1)
                                       | Some f \<Rightarrow> let (r, k) = f (kctx oc1) (encryptkey n) (encryptIV n) in (r, oc1\<lparr>kctx := k\<rparr>));
                         s4 = with_next (\<lambda>c. c\<lparr>out_cipher := Some oc2\<rparr>) s3
                     in if rc' < 0 then (SSH_ERROR, with_next (\<lambda>c. c\<lparr>used_for := 0\<rparr>) s4)
                        else (SSH_OK, s4))
           | _ \<Rightarrow> (SSH_ERROR, s)))"

text \<open>Both directions have switched: the next keys become the current ones.\<close>

definition swap_keys :: "'k key_env \<Rightarrow> 'k ssh_session \<Rightarrow> 'k ssh_crypto \<Rightarrow> int \<times> 'k ssh_session" where
  "swap_keys env s n =
     (let s1 = s\<lparr>current_crypto := Some (n\<lparr>used_for := SSH_DIRECTION_BOTH\<rparr>), next_crypto := crypto_new (new_ok env)\<rparr>
      in if next_crypto s1 = None then (SSH_ERROR, s1)
         else if \<not> id_ok env then (SSH_ERROR, s1)
         else (SSH_OK, with_next (\<lambda>c. c\<lparr>session_id := session_id n\<rparr>) s1))"

definition ssh_packet_set_newkeys :: "'k key_env \<Rightarrow> 'k ssh_session \<Rightarrow> u32 \<Rightarrow> int \<times> 'k ssh_session" where
  "ssh_packet_set_newkeys env s direction =
     (case next_crypto s of
        None \<Rightarrow> (SSH_ERROR, s)
      | Some n0 \<Rightarrow>
          (let n = n0\<lparr>used_for := used_for n0 OR direction\<rparr>;
               s1 = s\<lparr>next_crypto := Some n,
                      current_crypto := map_option (\<lambda>c. c\<lparr>used_for := used_for c AND NOT direction\<rparr>) (current_crypto s)\<rparr>
           in if used_for n = SSH_DIRECTION_BOTH then swap_keys env s1 n
              else
                let (rc, s2) = (if client s1 then make_sessionid env s1 else (SSH_OK, s1)) in
                if rc \<noteq> SSH_OK then (SSH_ERROR, s2)
                else
                  let (rc2, s3) = (if client s2 then set_algorithms_client env s2 else (SSH_OK, s2)) in
                  if rc2 < 0 then (SSH_ERROR, s3)
                  else
                    let (rc3, s4) = generate_session_keys env s3 in
                    if rc3 < 0 then (SSH_ERROR, s4) else install_keys env s4))"


section \<open>Which keys a direction uses\<close>

datatype key_slot = Plain | Current | Next

definition slot_of :: "'k ssh_session \<Rightarrow> u32 \<Rightarrow> key_slot" where
  "slot_of s d =
     (if \<exists>c\<in>set_option (current_crypto s). used_for c AND d \<noteq> 0 then Current
      else if \<exists>c\<in>set_option (next_crypto s). used_for c AND d \<noteq> 0 then Next else Plain)"

text \<open>The two directions never disagree about who serves them.\<close>

definition keys_ok :: "'k ssh_session \<Rightarrow> bool" where
  "keys_ok s =
     (\<exists>n. next_crypto s = Some n \<and> used_for n \<in> {0, 1, 2} \<and>
          (\<forall>c. current_crypto s = Some c \<longrightarrow> used_for c = 3 AND NOT (used_for n)))"

text \<open>What the derivation of the keys must leave alone.\<close>

definition leaves_slots :: "('k ssh_session \<Rightarrow> int \<times> 'k ssh_session) \<Rightarrow> bool" where
  "leaves_slots f =
     (\<forall>s. current_crypto (snd (f s)) = current_crypto s \<and> client (snd (f s)) = client s \<and>
          map_option used_for (next_crypto (snd (f s))) = map_option used_for (next_crypto s))"

lemma install_keys_slots:
  assumes "install_keys env s = (r, t)"
  shows "current_crypto t = current_crypto s \<and>
    (r = SSH_OK \<and> map_option used_for (next_crypto t) = map_option used_for (next_crypto s) \<or>
     r = SSH_ERROR \<and> (map_option used_for (next_crypto t) = map_option used_for (next_crypto s) \<or>
        map_option used_for (next_crypto t) = map_option (\<lambda>_. 0) (next_crypto s)))"
  using assms
  by (auto simp: install_keys_def with_next_def Let_def ssh_init_rekey_state_def split: option.splits prod.splits if_splits)

lemma leaves_if:
  assumes "leaves_slots f"
  shows "current_crypto (snd (if b then f s else (r, s))) = current_crypto s"
    "map_option used_for (next_crypto (snd (if b then f s else (r, s)))) = map_option used_for (next_crypto s)"
  using assms by (auto simp: leaves_slots_def)

lemma leaves_snd:
  assumes "leaves_slots f"
  shows "current_crypto (snd (f s)) = current_crypto s"
    "map_option used_for (next_crypto (snd (f s))) = map_option used_for (next_crypto s)"
  using assms by (auto simp: leaves_slots_def)

text \<open>After the derivation the slots are as the first step of \<open>ssh_packet_set_newkeys\<close> left them.\<close>

lemma set_newkeys_slots:
  assumes "ssh_packet_set_newkeys env s d = (SSH_OK, t)" and "next_crypto s = Some n"
    and "leaves_slots (make_sessionid env)" "leaves_slots (set_algorithms_client env)" "leaves_slots (generate_session_keys env)"
  shows "if used_for n OR d = 3
    then current_crypto t = Some (n\<lparr>used_for := 3\<rparr>) \<and> (\<exists>m. next_crypto t = Some m \<and> used_for m = 0 \<and> session_id m = session_id n)
    else current_crypto t = map_option (\<lambda>c. c\<lparr>used_for := used_for c AND NOT d\<rparr>) (current_crypto s) \<and>
      map_option used_for (next_crypto t) = Some (used_for n OR d)"
proof (cases "used_for n OR d = 3")
  case True
  with assms(1,2) show ?thesis
    by (auto simp: ssh_packet_set_newkeys_def swap_keys_def Let_def with_next_def crypto_new_def split: if_splits)
next
  case False
  let ?n = "n\<lparr>used_for := used_for n OR d\<rparr>"
  let ?s1 = "s\<lparr>next_crypto := Some ?n, current_crypto := map_option (\<lambda>c. c\<lparr>used_for := used_for c AND NOT d\<rparr>) (current_crypto s)\<rparr>"
  let ?r2 = "if client ?s1 then make_sessionid env ?s1 else (SSH_OK, ?s1)"
  let ?r3 = "if client (snd ?r2) then set_algorithms_client env (snd ?r2) else (SSH_OK, snd ?r2)"
  let ?r4 = "generate_session_keys env (snd ?r3)"
  let ?same = "\<lambda>u. current_crypto u = current_crypto ?s1 \<and> map_option used_for (next_crypto u) = Some (used_for n OR d)"
  have "?same (snd ?r2)" by (simp only: leaves_if [OF assms(3)]) simp
  then have "?same (snd ?r3)" by (simp only: leaves_if [OF assms(4)])
  then have r4: "?same (snd ?r4)" by (simp only: leaves_snd [OF assms(5)])
  have "install_keys env (snd ?r4) = (SSH_OK, t)"
    using assms(1,2) False
    by (auto simp: ssh_packet_set_newkeys_def Let_def split: prod.splits if_splits)
  from install_keys_slots [OF this] r4 False show ?thesis by auto
qed

text \<open>
  C3: New keys take over one direction at a time, and no packet of the other direction is read
  or written with them early. After a successful \<open>ssh_packet_set_newkeys\<close> the direction asked
  for uses the new keys while the other one keeps what it had; once both have switched, the new
  keys are the current ones, for both directions, and a fresh set with the same session
  identifier waits for the next exchange.
\<close>

theorem new_keys_take_over:
  assumes "ssh_packet_set_newkeys env s d = (SSH_OK, t)" and "keys_ok s" and "d \<in> {1, 2}"
    and "leaves_slots (make_sessionid env)" "leaves_slots (set_algorithms_client env)" "leaves_slots (generate_session_keys env)"
  shows "keys_ok t \<and>
    (if slot_of s (3 - d) = Next
     then (\<exists>n m. next_crypto s = Some n \<and> current_crypto t = Some (n\<lparr>used_for := 3\<rparr>) \<and>
             next_crypto t = Some m \<and> session_id m = session_id n) \<and> slot_of t 1 = Current \<and> slot_of t 2 = Current
     else slot_of t d = Next \<and> slot_of t (3 - d) = slot_of s (3 - d) \<and>
       map_option in_cipher (current_crypto t) = map_option in_cipher (current_crypto s) \<and>
       map_option out_cipher (current_crypto t) = map_option out_cipher (current_crypto s))"
proof -
  from assms(2) obtain n where n: "next_crypto s = Some n" "used_for n \<in> {0, 1, 2}"
    and c: "\<And>c. current_crypto s = Some c \<Longrightarrow> used_for c = 3 AND NOT (used_for n)"
    by (auto simp: keys_ok_def)
  note slots = set_newkeys_slots [OF assms(1) n(1) assms(4-6)]
  from n(2) assms(3) consider "used_for n = 0" "d = 1" | "used_for n = 0" "d = 2" | "used_for n = 1" "d = 1"
    | "used_for n = 1" "d = 2" | "used_for n = 2" "d = 1" | "used_for n = 2" "d = 2" by auto
  then show ?thesis
    using slots n c by cases (cases "current_crypto s"; auto simp: keys_ok_def slot_of_def)+
qed


text \<open>A session between two key exchanges, with a toy cipher, to evaluate the functions on.\<close>

definition demo_cipher :: "unit ssh_cipher" where
  "demo_cipher =
     \<lparr>cipher_name = ''toy'', blocksize = 16, ciphertype = SSH_AES128_CTR, lenfield_blocksize = 0, keysize = 128, packets = 0, blocks = 0, max_blocks = 0, kctx = (),
      set_encrypt_key = None, set_decrypt_key = None,
      encrypt = (\<lambda>k bs. (map (\<lambda>b. b XOR 0x5A) bs, k)), decrypt = (\<lambda>k bs. (map (\<lambda>b. b XOR 0x5A) bs, k)),
      aead_encrypt = None, aead_decrypt_length = None, aead_decrypt = None\<rparr>"

definition demo_crypto :: "u32 \<Rightarrow> unit ssh_crypto" where
  "demo_crypto u =
     \<lparr>session_id = Some [1, 2], encryptIV = [], decryptIV = [], encryptkey = [], decryptkey = [], encryptMAC = [],
      decryptMAC = [], in_cipher = Some demo_cipher, out_cipher = Some demo_cipher, in_hmac = SSH_HMAC_NONE,
      out_hmac = SSH_HMAC_NONE, in_hmac_etm = False, out_hmac_etm = False, do_compress_out = False,
      do_compress_in = False, used_for = u, kx = new_kex_crypto\<rparr>"

definition demo_session :: "unit ssh_crypto option \<Rightarrow> unit ssh_crypto option \<Rightarrow> unit ssh_session" where
  "demo_session cur nxt =
     \<lparr>client = True, server = False, session_state = SSH_SESSION_STATE_AUTHENTICATED,
      dh_handshake_state = DH_STATE_FINISHED, auth_service_state = SSH_AUTH_SERVICE_ACCEPTED,
      auth_state = SSH_AUTH_STATE_SUCCESS, flags = 2, current_crypto = cur, next_crypto = nxt, rekey_data = 0,
      rekey_time = 0, last_rekey_time = 0, out_buffer = empty_buffer, out_queue = [], in_buffer = None,
      in_packet = \<lparr>valid = False, plen = 0, ptype = 0\<rparr>, packet_state = PACKET_STATE_INIT, recv_seq = 0,
      send_seq = 0, raw_counter = None, packet_callbacks = None, wire = [], shake = new_handshake\<rparr>"

definition demo_key_env :: "unit key_env" where
  "demo_key_env =
     \<lparr>new_ok = True, id_ok = True, now = 7, make_sessionid = (\<lambda>s. (0, s)),
      set_algorithms_client = (\<lambda>s. (0, s)), generate_session_keys = (\<lambda>s. (0, s))\<rparr>"

theorem new_keys_take_over_witness:
  "\<exists>t. ssh_packet_set_newkeys demo_key_env (demo_session (Some (demo_crypto 3)) (Some (demo_crypto 0))) 2 = (SSH_OK, t) \<and>
       slot_of t 2 = Next \<and> slot_of t 1 = Current"
proof -
  let ?s = "demo_session (Some (demo_crypto 3)) (Some (demo_crypto 0))"
  have "fst (ssh_packet_set_newkeys demo_key_env ?s 2) = SSH_OK" by code_simp
  then obtain t where t: "ssh_packet_set_newkeys demo_key_env ?s 2 = (SSH_OK, t)"
    by (metis prod.collapse)
  have k: "keys_ok ?s" by (simp add: keys_ok_def demo_session_def demo_crypto_def)
  have l: "leaves_slots (make_sessionid demo_key_env)" "leaves_slots (set_algorithms_client demo_key_env)"
    "leaves_slots (generate_session_keys demo_key_env)"
    by (simp_all add: leaves_slots_def demo_key_env_def)
  have "slot_of ?s (3 - 2) = Current" by (simp add: slot_of_def demo_session_def demo_crypto_def)
  with new_keys_take_over [OF t k _ l] t show ?thesis by auto
qed

section \<open>How much is sent with one key\<close>

text \<open>
  The limits on the use of one key. Without a limit of the user's, a cipher of 16-byte blocks
  is given \<open>2 ^ 32\<close> blocks and one of 8-byte blocks a gigabyte. A user's limit can only lower
  that; but one below the block size becomes a limit of zero, which \<open>ssh_packet_need_rekey\<close>
  reads as no limit at all.
\<close>

theorem rekey_limits:
  "(rekey_data s = 0 \<longrightarrow>
      (blocksize c = 16 \<longrightarrow> max_blocks (ssh_init_rekey_state s c) = 2 ^ 32) \<and>
      (blocksize c = 8 \<longrightarrow> max_blocks (ssh_init_rekey_state s c) * 8 = 2 ^ 30)) \<and>
   (0 < rekey_data s \<longrightarrow> max_blocks (ssh_init_rekey_state s c) \<le> rekey_data s div ucast (blocksize c)) \<and>
   (0 < rekey_data s \<longrightarrow> rekey_data s < ucast (blocksize c) \<longrightarrow> max_blocks (ssh_init_rekey_state s c) = 0)"
proof -
  have "x div y = 0" if "x < y" for x y :: u64 using that by (simp add: div_word_less)
  then show ?thesis by (auto simp: ssh_init_rekey_state_def Let_def push_bit_eq_mult)
qed

theorem rekey_limits_witness:
  "blocksize demo_cipher = 16 \<and> max_blocks (ssh_init_rekey_state (demo_session None None) demo_cipher) = 2 ^ 32"
proof -
  have "rekey_data (demo_session None None) = 0" "blocksize demo_cipher = 16"
    by (simp_all add: demo_session_def demo_cipher_def)
  with rekey_limits [of "demo_session None None" demo_cipher] show ?thesis by simp
qed

end
