(* ===== verification/Packet_Crypt.thy ===== *)
theory Packet_Crypt
  imports Packet_State Ssh_String
begin

unbundle bit_operations_syntax

text \<open>
  Encryption, decryption and authentication of packets (\<open>packet_crypt.c\<close>), over the function
  pointers of the ciphers. The MAC functions of the crypto library are parameters. A buffer
  written in place is a result.
\<close>

section \<open>Environment\<close>

text \<open>
  What the packet layer uses from elsewhere, beside what \<open>key_env\<close> has: whether allocations
  succeed, the MAC functions (keyed, fed and read out), random bytes for the packet with a given
  number, compression, the socket, the clock, the start of a key exchange (\<open>kex.c\<close>), and the
  tables of handlers.
\<close>

record ('k) handler_table =
  cb_start :: byte
  cb_table :: "('k ssh_session \<Rightarrow> byte \<Rightarrow> int \<times> 'k ssh_session) option list"

record 'k packet_env = "'k key_env" +
  mem :: bool
  hmac_init :: "byte list \<Rightarrow> hmac_type \<Rightarrow> bool"
  hmac_update :: "byte list \<Rightarrow> bool"
  hmac_final :: "byte list \<Rightarrow> hmac_type \<Rightarrow> byte list \<Rightarrow> byte list option"
  random :: "u32 \<Rightarrow> nat \<Rightarrow> byte list option"
  compress :: "'k ssh_session \<Rightarrow> ssh_buffer \<Rightarrow> int \<times> ssh_buffer"
  decompress :: "'k ssh_session \<Rightarrow> ssh_buffer \<Rightarrow> int \<times> ssh_buffer"
  sock_ok :: "'k ssh_session \<Rightarrow> bool"
  elapsed :: "nat \<Rightarrow> u32 \<Rightarrow> bool"
  send_rekex :: "'k ssh_session \<Rightarrow> int \<times> 'k ssh_session"
  table_at :: "nat \<Rightarrow> 'k handler_table option"

text \<open>One MAC: the key, then the parts it is fed.\<close>

definition mac_of :: "'k packet_env \<Rightarrow> byte list \<Rightarrow> hmac_type \<Rightarrow> byte list list \<Rightarrow> byte list option" where
  "mac_of env key t parts =
     (if \<not> list_all (hmac_update env) parts then None
      else hmac_final env (take (hmac_digest_len t) key) t (concat parts))"

text \<open>\<open>secure_memcmp\<close> looks at every byte.\<close>

definition secure_memcmp :: "byte list \<Rightarrow> byte list \<Rightarrow> nat \<Rightarrow> bool" where
  "secure_memcmp s1 s2 n = (fold (\<lambda>i status. status OR (s1 ! i XOR s2 ! i)) [0..<n] 0 \<noteq> 0)"

text \<open>A change of the keys the direction uses, where \<open>ssh_packet_get_current_crypto\<close> found them.\<close>

definition with_crypto :: "u32 \<Rightarrow> ('k ssh_crypto \<Rightarrow> 'k ssh_crypto) \<Rightarrow> 'k ssh_session \<Rightarrow> 'k ssh_session" where
  "with_crypto d f s =
     (if \<exists>c\<in>set_option (current_crypto s). used_for c AND d \<noteq> 0
      then s\<lparr>current_crypto := map_option f (current_crypto s)\<rparr>
      else s\<lparr>next_crypto := map_option f (next_crypto s)\<rparr>)"

definition set_in_ctx :: "'k \<Rightarrow> 'k ssh_session \<Rightarrow> 'k ssh_session" where
  "set_in_ctx k s = with_crypto SSH_DIRECTION_IN (\<lambda>c. c\<lparr>in_cipher := map_option (\<lambda>x. x\<lparr>kctx := k\<rparr>) (in_cipher c)\<rparr>) s"

definition set_out_ctx :: "'k \<Rightarrow> 'k ssh_session \<Rightarrow> 'k ssh_session" where
  "set_out_ctx k s = with_crypto SSH_DIRECTION_OUT (\<lambda>c. c\<lparr>out_cipher := map_option (\<lambda>x. x\<lparr>kctx := k\<rparr>) (out_cipher c)\<rparr>) s"

section \<open>Receiving\<close>

text \<open>The result, what is written to the destination, and the session.\<close>

definition ssh_packet_decrypt ::
  "'k ssh_session \<Rightarrow> byte list \<Rightarrow> nat \<Rightarrow> nat \<Rightarrow> int \<times> byte list \<times> 'k ssh_session" where
  "ssh_packet_decrypt s source start encrypted_size =
     (if encrypted_size = 0 then (SSH_ERROR, [], s)
      else
        (case ssh_packet_get_current_crypto (Some s) SSH_DIRECTION_IN of
           None \<Rightarrow> (SSH_ERROR, [], s)
         | Some crypto \<Rightarrow>
             (let cipher = the (in_cipher crypto) in
              if encrypted_size mod unat (blocksize cipher) \<noteq> 0 then (SSH_ERROR, [], s)
              else
                (case aead_decrypt cipher of
                   Some f \<Rightarrow>
                     (let (rc, out, k) = f (kctx cipher) source encrypted_size (ucast (recv_seq s))
                      in (rc, out, set_in_ctx k s))
                 | None \<Rightarrow>
                     (let (out, k) = decrypt cipher (kctx cipher) (take encrypted_size (drop start source))
                      in (0, out, set_in_ctx k s))))))"

definition ssh_packet_decrypt_len :: "'k ssh_session \<Rightarrow> byte list \<Rightarrow> u32 \<times> byte list \<times> 'k ssh_session" where
  "ssh_packet_decrypt_len s source =
     (case ssh_packet_get_current_crypto (Some s) SSH_DIRECTION_IN of
        Some crypto \<Rightarrow>
          (let cipher = the (in_cipher crypto);
               (rc, dst, s1) =
                 (case aead_decrypt_length cipher of
                    Some f \<Rightarrow>
                      (let (r, out, k) = f (kctx cipher) source (unat (lenfield_blocksize cipher)) (ucast (recv_seq s))
                       in (r, out, set_in_ctx k s))
                  | None \<Rightarrow> ssh_packet_decrypt s source 0 (unat (blocksize cipher)))
           in if rc < 0 then (0, dst, s1) else (be_word (take 4 dst), dst, s1))
      | None \<Rightarrow> (be_word (take 4 (take 8 source)), take 8 source, s))"

definition ssh_packet_hmac_verify :: "'k packet_env \<Rightarrow> 'k ssh_session \<Rightarrow> byte list \<Rightarrow> byte list \<Rightarrow> hmac_type \<Rightarrow> int" where
  "ssh_packet_hmac_verify env s dat mac t =
     (if t = SSH_HMAC_AEAD_POLY1305 \<or> t = SSH_HMAC_AEAD_GCM then SSH_OK
      else
        (case ssh_packet_get_current_crypto (Some s) SSH_DIRECTION_IN of
           None \<Rightarrow> SSH_ERROR
         | Some crypto \<Rightarrow>
             if \<not> hmac_init env (take (hmac_digest_len t) (decryptMAC crypto)) t then SSH_ERROR
             else
               (case mac_of env (decryptMAC crypto) t [be_bytes 4 (recv_seq s), dat] of
                  None \<Rightarrow> SSH_ERROR
                | Some digest \<Rightarrow> if \<not> secure_memcmp mac digest (length digest) then SSH_OK else SSH_ERROR)))"

section \<open>Sending\<close>

text \<open>
  \<open>ssh_packet_encrypt\<close>: the MAC to append or None, the data as it is left, and the session. The
  length is a 32-bit \<open>size_t\<close>, and the differences wrap.
\<close>

definition ssh_packet_encrypt ::
  "'k packet_env \<Rightarrow> 'k ssh_session \<Rightarrow> byte list \<Rightarrow> byte list option \<times> byte list \<times> 'k ssh_session" where
  "ssh_packet_encrypt env s dat =
     (case ssh_packet_get_current_crypto (Some s) SSH_DIRECTION_OUT of
        None \<Rightarrow> (None, dat, s)
      | Some crypto \<Rightarrow>
          (let cipher = the (out_cipher crypto); t = out_hmac crypto; etm = out_hmac_etm crypto;
               etm_packet_offset = (if etm then 4 else 0) :: nat;
               len = of_nat (length dat) :: u32;
               seq = be_bytes 4 (send_seq s)
           in if (len - lenfield_blocksize cipher - of_nat etm_packet_offset) mod blocksize cipher \<noteq> 0 then (None, dat, s)
              else if \<not> mem env then (None, dat, s)
              else
                (case aead_encrypt cipher of
                   Some f \<Rightarrow> (let (out, mac, k) = f (kctx cipher) dat (ucast (send_seq s)) in (Some mac, out, set_out_ctx k s))
                 | None \<Rightarrow>
                     if t \<noteq> SSH_HMAC_NONE \<and> \<not> hmac_init env (take (hmac_digest_len t) (encryptMAC crypto)) t then (None, dat, s)
                     else
                       let plain_mac = (if t \<noteq> SSH_HMAC_NONE \<and> \<not> etm then mac_of env (encryptMAC crypto) t [seq, dat] else Some [])
                       in if plain_mac = None then (None, dat, s)
                          else
                            let (out, k) = encrypt cipher (kctx cipher) (drop etm_packet_offset dat);
                                dat1 = take etm_packet_offset dat @ out;
                                s1 = set_out_ctx k s
                            in if t \<noteq> SSH_HMAC_NONE \<and> etm then
                                 let dat2 = be_bytes 4 (len - of_nat etm_packet_offset) @ drop 4 dat1
                                 in (mac_of env (encryptMAC crypto) t [seq, dat2], dat2, s1)
                               else (plain_mac, dat1, s1))))"

section \<open>Facts\<close>

lemma get_crypto_in:
  "ssh_packet_get_current_crypto (Some s) SSH_DIRECTION_IN = Some c \<Longrightarrow>
   in_cipher c \<noteq> None \<and> (current_crypto s = Some c \<or> next_crypto s = Some c)"
  by (auto simp: ssh_packet_get_current_crypto_def Let_def split: if_splits option.splits)

lemma get_crypto_out:
  "ssh_packet_get_current_crypto (Some s) SSH_DIRECTION_OUT = Some c \<Longrightarrow>
   out_cipher c \<noteq> None \<and> (current_crypto s = Some c \<or> next_crypto s = Some c)"
  by (auto simp: ssh_packet_get_current_crypto_def Let_def split: if_splits option.splits)

lemma secure_memcmp_iff:
  assumes "n \<le> length a" "n \<le> length b"
  shows "secure_memcmp a b n = (take n a \<noteq> take n b)"
proof -
  have "(fold (\<lambda>i status. status OR (a ! i XOR b ! i)) xs x = 0) = (x = 0 \<and> (\<forall>i\<in>set xs. a ! i = b ! i))" for xs and x :: byte
  proof (induction xs arbitrary: x)
    case (Cons i xs)
    have "(x OR (a ! i XOR b ! i) = 0) = (x = 0 \<and> a ! i = b ! i)"
      by (auto simp: bit_eq_iff bit_or_iff bit_xor_iff)
    then show ?case using Cons by simp
  qed simp
  then have "secure_memcmp a b n = (\<not> (\<forall>i<n. a ! i = b ! i))" by (auto simp: secure_memcmp_def)
  then show ?thesis using assms by (auto simp: list_eq_iff_nth_eq)
qed

end
