(* ===== verification/Ssh_Pack.thy ===== *)
theory Ssh_Pack
  imports Ssh_Buffer Ssh_String
begin

text \<open>
  Typed access to buffers (\<open>buffer.c\<close>): integers in network order, strings, and the variadic
  \<open>ssh_buffer_pack\<close> and \<open>ssh_buffer_unpack\<close> that build and parse every message from a format
  string. The variable arguments are a list; taking one of the wrong kind, taking one more than
  there are, or a missing end marker is undefined or aborts: the result is then None.
\<close>

section \<open>Integers and strings\<close>

definition ssh_buffer_add_u8 :: "bool \<Rightarrow> byte \<Rightarrow> ssh_buffer \<Rightarrow> int \<times> ssh_buffer" where
  "ssh_buffer_add_u8 m x b =
     (let (rc, b') = ssh_buffer_add_data m (Some (host_bytes 1 x)) b in if rc < 0 then (-1, b') else (0, b'))"

definition ssh_buffer_add_u16 :: "bool \<Rightarrow> u16 \<Rightarrow> ssh_buffer \<Rightarrow> int \<times> ssh_buffer" where
  "ssh_buffer_add_u16 m x b =
     (let (rc, b') = ssh_buffer_add_data m (Some (host_bytes 2 x)) b in if rc < 0 then (-1, b') else (0, b'))"

definition ssh_buffer_add_u32 :: "bool \<Rightarrow> u32 \<Rightarrow> ssh_buffer \<Rightarrow> int \<times> ssh_buffer" where
  "ssh_buffer_add_u32 m x b =
     (let (rc, b') = ssh_buffer_add_data m (Some (host_bytes 4 x)) b in if rc < 0 then (-1, b') else (0, b'))"

definition ssh_buffer_add_u64 :: "bool \<Rightarrow> u64 \<Rightarrow> ssh_buffer \<Rightarrow> int \<times> ssh_buffer" where
  "ssh_buffer_add_u64 m x b =
     (let (rc, b') = ssh_buffer_add_data m (Some (host_bytes 8 x)) b in if rc < 0 then (-1, b') else (0, b'))"

text \<open>The string's block itself is copied: the size as stored, then the data.\<close>

definition ssh_buffer_add_ssh_string :: "bool \<Rightarrow> ssh_string option \<Rightarrow> ssh_buffer \<Rightarrow> int \<times> ssh_buffer" where
  "ssh_buffer_add_ssh_string m s b =
     (case s of
        None \<Rightarrow> (-1, b)
      | Some x \<Rightarrow>
          let len = unat (ssh_string_len s);
              (rc, b') = ssh_buffer_add_data m (Some (be_bytes 4 (str_size x) @ take len (str_data x))) b
          in if rc < 0 then (-1, b') else (0, b'))"

definition ssh_buffer_get_u8 :: "ssh_buffer \<Rightarrow> (u32 \<times> byte) \<times> ssh_buffer" where
  "ssh_buffer_get_u8 b = (let ((n, bs), b') = ssh_buffer_get_data 1 b in ((n, host_word bs), b'))"

definition ssh_buffer_get_u16 :: "ssh_buffer \<Rightarrow> (u32 \<times> u16) \<times> ssh_buffer" where
  "ssh_buffer_get_u16 b = (let ((n, bs), b') = ssh_buffer_get_data 2 b in ((n, host_word bs), b'))"

definition ssh_buffer_get_u32 :: "ssh_buffer \<Rightarrow> (u32 \<times> u32) \<times> ssh_buffer" where
  "ssh_buffer_get_u32 b = (let ((n, bs), b') = ssh_buffer_get_data 4 b in ((n, host_word bs), b'))"

definition ssh_buffer_get_u64 :: "ssh_buffer \<Rightarrow> (u32 \<times> u64) \<times> ssh_buffer" where
  "ssh_buffer_get_u64 b = (let ((n, bs), b') = ssh_buffer_get_data 8 b in ((n, host_word bs), b'))"

definition ssh_buffer_get_ssh_string :: "bool \<Rightarrow> ssh_buffer \<Rightarrow> ssh_string option \<times> ssh_buffer" where
  "ssh_buffer_get_ssh_string m b =
     (let ((rc, stringlen), b1) = ssh_buffer_get_u32 b in
      if rc = 0 then (None, b1)
      else
        let hostlen = ntohl stringlen in
        if ssh_buffer_validate_length hostlen b1 \<noteq> SSH_OK then (None, b1)
        else (case ssh_string_new m hostlen of
                None \<Rightarrow> (None, b1)
              | Some str \<Rightarrow>
                  let ((n, bs), b2) = ssh_buffer_get_data hostlen b1 in
                  if n \<noteq> hostlen then (None, b2)
                  else (Some (str\<lparr>str_data := bs @ drop (unat hostlen) (str_data str)\<rparr>), b2)))"

section \<open>Packing\<close>

text \<open>\<open>VA_bignum\<close> is a number already converted: what \<open>ssh_make_bignum_string\<close> returns for it.\<close>

datatype va =
    VA_int u32 | VA_qword u64 | VA_string "ssh_string option" | VA_cstring "byte list"
  | VA_size u32 | VA_data "byte list" | VA_bignum "ssh_string option" | VA_end

text \<open>
  The first pass: the bytes needed. The state is the size and \<open>count\<close>; the result is the code,
  the count and the remaining arguments.
\<close>

fun pack_size :: "string \<Rightarrow> nat \<Rightarrow> nat \<Rightarrow> va list \<Rightarrow> u32 \<Rightarrow> (int \<times> nat \<times> va list \<times> u32) option" where
  "pack_size [] argc count ap n = Some (SSH_OK, count, ap, n)"
| "pack_size (p # ps) argc count ap n =
     (if argc < count then Some (SSH_ERROR, Suc argc, ap, n)
      else if p = CHR ''b'' then
        (case ap of VA_int x # r \<Rightarrow> pack_size ps argc (Suc count) r (n + 1) | _ \<Rightarrow> None)
      else if p = CHR ''w'' then
        (case ap of VA_int x # r \<Rightarrow> pack_size ps argc (Suc count) r (n + 2) | _ \<Rightarrow> None)
      else if p = CHR ''d'' then
        (case ap of VA_int x # r \<Rightarrow> pack_size ps argc (Suc count) r (n + 4) | _ \<Rightarrow> None)
      else if p = CHR ''q'' then
        (case ap of VA_qword x # r \<Rightarrow> pack_size ps argc (Suc count) r (n + 8) | _ \<Rightarrow> None)
      else if p = CHR ''S'' then
        (case ap of VA_string s # r \<Rightarrow> pack_size ps argc (Suc count) r (n + (4 + ssh_string_len s)) | _ \<Rightarrow> None)
      else if p = CHR ''s'' then
        (case ap of VA_cstring s # r \<Rightarrow> pack_size ps argc (Suc count) r (n + (4 + of_nat (length s))) | _ \<Rightarrow> None)
      else if p = CHR ''P'' then
        (case ap of VA_size k # VA_data d # r \<Rightarrow> pack_size ps argc (Suc (Suc count)) r (n + k) | _ \<Rightarrow> None)
      else if p = CHR ''B'' then
        (case ap of VA_bignum x # r \<Rightarrow> pack_size ps argc (Suc count) r (n + 64) | _ \<Rightarrow> None)
      else if p = CHR ''t'' then
        (case ap of VA_cstring s # r \<Rightarrow> pack_size ps argc (Suc count) r (n + of_nat (length s)) | _ \<Rightarrow> None)
      else Some (SSH_ERROR, count, ap, n))"

definition ssh_buffer_pack_allocate_va :: "bool \<Rightarrow> string \<Rightarrow> nat \<Rightarrow> va list \<Rightarrow> ssh_buffer \<Rightarrow> (int \<times> ssh_buffer) option" where
  "ssh_buffer_pack_allocate_va m format argc ap b =
     (case pack_size format argc 0 ap 0 of
        None \<Rightarrow> None
      | Some (rc, count, rest, needed_size) \<Rightarrow>
          if argc \<noteq> count then Some (SSH_ERROR, b)
          else if rc \<noteq> SSH_ERROR \<and> (case rest of VA_end # _ \<Rightarrow> False | _ \<Rightarrow> True) then None
          else let (r, b') = ssh_buffer_allocate_size m needed_size b in
               Some (if r \<noteq> 0 then SSH_ERROR else SSH_OK, b'))"

text \<open>One argument of the second pass.\<close>

definition pack_one :: "bool \<Rightarrow> char \<Rightarrow> va list \<Rightarrow> ssh_buffer \<Rightarrow> (int \<times> ssh_buffer \<times> nat \<times> va list) option" where
  "pack_one m p ap b =
     (if p = CHR ''b'' then
        (case ap of VA_int x # r \<Rightarrow> let (rc, b') = ssh_buffer_add_u8 m (ucast x) b in Some (rc, b', 1, r) | _ \<Rightarrow> None)
      else if p = CHR ''w'' then
        (case ap of VA_int x # r \<Rightarrow> let (rc, b') = ssh_buffer_add_u16 m (htons (ucast x)) b in Some (rc, b', 1, r) | _ \<Rightarrow> None)
      else if p = CHR ''d'' then
        (case ap of VA_int x # r \<Rightarrow> let (rc, b') = ssh_buffer_add_u32 m (htonl x) b in Some (rc, b', 1, r) | _ \<Rightarrow> None)
      else if p = CHR ''q'' then
        (case ap of VA_qword x # r \<Rightarrow> let (rc, b') = ssh_buffer_add_u64 m (htonll x) b in Some (rc, b', 1, r) | _ \<Rightarrow> None)
      else if p = CHR ''S'' then
        (case ap of VA_string s # r \<Rightarrow> let (rc, b') = ssh_buffer_add_ssh_string m s b in Some (rc, b', 1, r) | _ \<Rightarrow> None)
      else if p = CHR ''s'' then
        (case ap of
           VA_cstring s # r \<Rightarrow>
             let (rc, b1) = ssh_buffer_add_u32 m (htonl (of_nat (length s))) b in
             if rc = SSH_OK then let (rc2, b2) = ssh_buffer_add_data m (Some s) b1 in Some (rc2, b2, 1, r)
             else Some (rc, b1, 1, r)
         | _ \<Rightarrow> None)
      else if p = CHR ''P'' then
        (case ap of
           VA_size k # VA_data d # r \<Rightarrow>
             (if length d < unat k then None
              else let (rc, b') = ssh_buffer_add_data m (Some (take (unat k) d)) b in Some (rc, b', 2, r))
         | _ \<Rightarrow> None)
      else if p = CHR ''B'' then
        (case ap of
           VA_bignum None # r \<Rightarrow> Some (SSH_ERROR, b, 1, r)
         | VA_bignum (Some s) # r \<Rightarrow> let (rc, b') = ssh_buffer_add_ssh_string m (Some s) b in Some (rc, b', 1, r)
         | _ \<Rightarrow> None)
      else if p = CHR ''t'' then
        (case ap of VA_cstring s # r \<Rightarrow> let (rc, b') = ssh_buffer_add_data m (Some s) b in Some (rc, b', 1, r) | _ \<Rightarrow> None)
      else Some (SSH_ERROR, b, 1, ap))"

text \<open>The loop; \<open>rc\<close> starts as an error. A failed argument leaves it before \<open>count\<close> is advanced.\<close>

fun pack_loop :: "bool \<Rightarrow> string \<Rightarrow> nat \<Rightarrow> nat \<Rightarrow> int \<Rightarrow> va list \<Rightarrow> ssh_buffer \<Rightarrow>
    (int \<times> nat \<times> va list \<times> ssh_buffer) option" where
  "pack_loop m [] argc count rc ap b = Some (rc, count, ap, b)"
| "pack_loop m (p # ps) argc count rc ap b =
     (if argc < count then Some (SSH_ERROR, Suc argc, ap, b)
      else (case pack_one m p ap b of
              None \<Rightarrow> None
            | Some (rc', b', k, r) \<Rightarrow>
                if rc' \<noteq> SSH_OK then Some (rc', count + k - 1, r, b')
                else pack_loop m ps argc (count + k) rc' r b'))"

definition ssh_buffer_pack_va :: "bool \<Rightarrow> string \<Rightarrow> nat \<Rightarrow> va list \<Rightarrow> ssh_buffer \<Rightarrow> (int \<times> ssh_buffer) option" where
  "ssh_buffer_pack_va m format argc ap b =
     (if 256 < argc then Some (SSH_ERROR, b)
      else (case pack_loop m format argc 0 SSH_ERROR ap b of
              None \<Rightarrow> None
            | Some (rc, count, rest, b') \<Rightarrow>
                if argc \<noteq> count then Some (SSH_ERROR, b')
                else if rc \<noteq> SSH_ERROR \<and> (case rest of VA_end # _ \<Rightarrow> False | _ \<Rightarrow> True) then None
                else Some (rc, b')))"

definition ssh_buffer_pack :: "bool \<Rightarrow> string \<Rightarrow> nat \<Rightarrow> va list \<Rightarrow> ssh_buffer \<Rightarrow> (int \<times> ssh_buffer) option" where
  "ssh_buffer_pack m format argc ap b =
     (if 256 < argc then Some (SSH_ERROR, b)
      else (case ssh_buffer_pack_allocate_va m format argc ap b of
              None \<Rightarrow> None
            | Some (rc, b1) \<Rightarrow>
                if rc \<noteq> SSH_OK then Some (rc, b1) else ssh_buffer_pack_va m format argc ap b1))"

section \<open>Unpacking\<close>

datatype ua = UA_ptr | UA_size u32 | UA_end

datatype item =
    I_byte byte | I_word u16 | I_dword u32 | I_qword u64
  | I_string ssh_string | I_cstring "byte list" | I_data "byte list" | I_bignum ssh_string

text \<open>
  One format character: the code, the buffer, how far \<open>count\<close> advanced inside the case, the
  remaining arguments, and what was stored. \<open>bn\<close> tells which strings the big number library
  can convert. \<open>max_len - 1\<close> is unsigned.
\<close>

definition unpack_one :: "bool \<Rightarrow> (ssh_string \<Rightarrow> bool) \<Rightarrow> u32 \<Rightarrow> char \<Rightarrow> ua list \<Rightarrow> ssh_buffer \<Rightarrow>
    (int \<times> ssh_buffer \<times> nat \<times> ua list \<times> item list) option" where
  "unpack_one m bn max_len p ap b =
     (if p = CHR ''b'' then
        (case ap of
           UA_ptr # r \<Rightarrow>
             let ((n, x), b') = ssh_buffer_get_u8 b in
             Some (if n = 1 then (SSH_OK, b', 0, r, [I_byte x]) else (SSH_ERROR, b', 0, r, []))
         | _ \<Rightarrow> None)
      else if p = CHR ''w'' then
        (case ap of
           UA_ptr # r \<Rightarrow>
             let ((n, x), b') = ssh_buffer_get_u16 b in
             Some (if n = 2 then (SSH_OK, b', 0, r, [I_word (ntohs x)]) else (SSH_ERROR, b', 0, r, []))
         | _ \<Rightarrow> None)
      else if p = CHR ''d'' then
        (case ap of
           UA_ptr # r \<Rightarrow>
             let ((n, x), b') = ssh_buffer_get_u32 b in
             Some (if n = 4 then (SSH_OK, b', 0, r, [I_dword (ntohl x)]) else (SSH_ERROR, b', 0, r, []))
         | _ \<Rightarrow> None)
      else if p = CHR ''q'' then
        (case ap of
           UA_ptr # r \<Rightarrow>
             let ((n, x), b') = ssh_buffer_get_u64 b in
             Some (if n = 8 then (SSH_OK, b', 0, r, [I_qword (ntohll x)]) else (SSH_ERROR, b', 0, r, []))
         | _ \<Rightarrow> None)
      else if p = CHR ''B'' then
        (case ap of
           UA_ptr # r \<Rightarrow>
             (case ssh_buffer_get_ssh_string m b of
                (None, b') \<Rightarrow> Some (SSH_ERROR, b', 0, r, [])
              | (Some str, b') \<Rightarrow>
                  Some (if bn str then (SSH_OK, b', 0, r, [I_bignum str]) else (SSH_ERROR, b', 0, r, [])))
         | _ \<Rightarrow> None)
      else if p = CHR ''S'' then
        (case ap of
           UA_ptr # r \<Rightarrow>
             (case ssh_buffer_get_ssh_string m b of
                (None, b') \<Rightarrow> Some (SSH_ERROR, b', 0, r, [])
              | (Some str, b') \<Rightarrow> Some (SSH_OK, b', 0, r, [I_string str]))
         | _ \<Rightarrow> None)
      else if p = CHR ''s'' then
        (case ap of
           UA_ptr # r \<Rightarrow>
             let ((n, u32len), b1) = ssh_buffer_get_u32 b in
             if n \<noteq> 4 then Some (SSH_ERROR, b1, 0, r, [])
             else
               let len = ntohl u32len in
               if max_len - 1 < len then Some (SSH_ERROR, b1, 0, r, [])
               else if ssh_buffer_validate_length len b1 \<noteq> SSH_OK then Some (SSH_ERROR, b1, 0, r, [])
               else if \<not> m then Some (SSH_ERROR, b1, 0, r, [])
               else
                 let ((n2, bs), b2) = ssh_buffer_get_data len b1 in
                 Some (if n2 \<noteq> len then (SSH_ERROR, b2, 0, r, []) else (SSH_OK, b2, 0, r, [I_cstring bs]))
         | _ \<Rightarrow> None)
      else if p = CHR ''P'' then
        (case ap of
           UA_size len # r \<Rightarrow>
             (if max_len - 1 < len then Some (SSH_ERROR, b, 0, r, [])
              else if ssh_buffer_validate_length len b \<noteq> SSH_OK then Some (SSH_ERROR, b, 0, r, [])
              else (case r of
                      UA_ptr # r' \<Rightarrow>
                        if \<not> m then Some (SSH_ERROR, b, 1, r', [])
                        else
                          let ((n, bs), b') = ssh_buffer_get_data len b in
                          Some (if n \<noteq> len then (SSH_ERROR, b', 1, r', []) else (SSH_OK, b', 1, r', [I_data bs]))
                    | _ \<Rightarrow> None))
         | _ \<Rightarrow> None)
      else Some (SSH_ERROR, b, 0, ap, []))"

fun unpack_loop :: "bool \<Rightarrow> (ssh_string \<Rightarrow> bool) \<Rightarrow> u32 \<Rightarrow> string \<Rightarrow> nat \<Rightarrow> nat \<Rightarrow> int \<Rightarrow> ua list \<Rightarrow> item list \<Rightarrow> ssh_buffer \<Rightarrow>
    (int \<times> nat \<times> ua list \<times> item list \<times> ssh_buffer) option" where
  "unpack_loop m bn max_len [] argc count rc ap out b = Some (rc, count, ap, out, b)"
| "unpack_loop m bn max_len (p # ps) argc count rc ap out b =
     (if argc < count then Some (SSH_ERROR, count, ap, out, b)
      else (case unpack_one m bn max_len p ap b of
              None \<Rightarrow> None
            | Some (rc', b', k, r, x) \<Rightarrow>
                if rc' \<noteq> SSH_OK then Some (rc', count + k, r, out, b')
                else unpack_loop m bn max_len ps argc (Suc (count + k)) rc' r (out @ x) b'))"

text \<open>On an error everything stored so far is erased or freed; the buffer keeps its position.\<close>

definition ssh_buffer_unpack_va :: "bool \<Rightarrow> (ssh_string \<Rightarrow> bool) \<Rightarrow> string \<Rightarrow> nat \<Rightarrow> ua list \<Rightarrow> ssh_buffer \<Rightarrow>
    (int \<times> item list \<times> ssh_buffer) option" where
  "ssh_buffer_unpack_va m bn format argc ap b =
     (if 256 < argc then Some (SSH_ERROR, [], b)
      else (case unpack_loop m bn (ssh_buffer_get_len b) format argc 0 SSH_ERROR ap [] b of
              None \<Rightarrow> None
            | Some (rc0, count, rest, out, b') \<Rightarrow>
                let rc = (if argc \<noteq> count then SSH_ERROR else rc0) in
                if rc \<noteq> SSH_ERROR \<and> (case rest of UA_end # _ \<Rightarrow> False | _ \<Rightarrow> True) then None
                else Some (rc, if rc \<noteq> SSH_OK then [] else out, b')))"

definition ssh_buffer_unpack :: "bool \<Rightarrow> (ssh_string \<Rightarrow> bool) \<Rightarrow> string \<Rightarrow> nat \<Rightarrow> ua list \<Rightarrow> ssh_buffer \<Rightarrow>
    (int \<times> item list \<times> ssh_buffer) option" where
  "ssh_buffer_unpack m bn format argc ap b = ssh_buffer_unpack_va m bn format argc ap b"

section \<open>Messages\<close>

text \<open>A field of a message, and its format character, arguments, encoding and value read back.\<close>

datatype field =
  F_byte byte | F_word u16 | F_dword u32 | F_qword u64 | F_string ssh_string | F_cstring "byte list" | F_data "byte list"

fun field_fmt :: "field \<Rightarrow> char" where
  "field_fmt (F_byte x) = CHR ''b''"
| "field_fmt (F_word x) = CHR ''w''"
| "field_fmt (F_dword x) = CHR ''d''"
| "field_fmt (F_qword x) = CHR ''q''"
| "field_fmt (F_string x) = CHR ''S''"
| "field_fmt (F_cstring x) = CHR ''s''"
| "field_fmt (F_data x) = CHR ''P''"

fun field_va :: "field \<Rightarrow> va list" where
  "field_va (F_byte x) = [VA_int (ucast x)]"
| "field_va (F_word x) = [VA_int (ucast x)]"
| "field_va (F_dword x) = [VA_int x]"
| "field_va (F_qword x) = [VA_qword x]"
| "field_va (F_string x) = [VA_string (Some x)]"
| "field_va (F_cstring x) = [VA_cstring x]"
| "field_va (F_data x) = [VA_size (of_nat (length x)), VA_data x]"

fun field_ua :: "field \<Rightarrow> ua list" where
  "field_ua (F_data x) = [UA_size (of_nat (length x)), UA_ptr]"
| "field_ua f = [UA_ptr]"

fun field_enc :: "field \<Rightarrow> byte list" where
  "field_enc (F_byte x) = [x]"
| "field_enc (F_word x) = be_bytes 2 x"
| "field_enc (F_dword x) = be_bytes 4 x"
| "field_enc (F_qword x) = be_bytes 8 x"
| "field_enc (F_string x) = be_bytes 4 (str_size x) @ str_view x"
| "field_enc (F_cstring x) = be_bytes 4 (of_nat (length x) :: u32) @ x"
| "field_enc (F_data x) = x"

fun field_item :: "field \<Rightarrow> item" where
  "field_item (F_byte x) = I_byte x"
| "field_item (F_word x) = I_word x"
| "field_item (F_dword x) = I_dword x"
| "field_item (F_qword x) = I_qword x"
| "field_item (F_string x) = I_string (x\<lparr>str_data := str_view x @ [0]\<rparr>)"
| "field_item (F_cstring x) = I_cstring x"
| "field_item (F_data x) = I_data x"

fun field_ok :: "field \<Rightarrow> bool" where
  "field_ok (F_string x) = string_ok x"
| "field_ok f = True"

definition message :: "field list \<Rightarrow> byte list" where
  "message fs = concat (map field_enc fs)"

definition arg_count :: "field list \<Rightarrow> nat" where
  "arg_count fs = (\<Sum>f\<leftarrow>fs. length (field_va f))"

lemma message_simps [simp]: "message [] = []" "message (f # fs) = field_enc f @ message fs"
  by (simp_all add: message_def)

lemma arg_count_simps [simp]: "arg_count [] = 0" "arg_count (f # fs) = length (field_va f) + arg_count fs"
  by (simp_all add: arg_count_def)

lemma small_nat: "n < 16384 \<Longrightarrow> unat (of_nat n :: u32) = n"
  by (simp add: unat_of_nat take_bit_nat_eq_self_iff)

end
