(* ===== verification/Packet_Send.thy ===== *)
theory Packet_Send
  imports Packet_Crypt Ssh_Pack
begin

unbundle bit_operations_syntax

text \<open>
  Sending packets (\<open>packet.c\<close>): the framing of a payload, the queue that holds packets back
  while keys are exchanged, and the two messages the layer sends itself. The allocations of one
  call all succeed or all fail (\<open>mem\<close>). \<open>wire\<close> records what was given to the socket.
\<close>

section \<open>One packet\<close>

definition ssh_packet_parse_type :: "'k ssh_session \<Rightarrow> int \<times> 'k ssh_session" where
  "ssh_packet_parse_type s =
     (let s1 = s\<lparr>in_packet := \<lparr>valid = False, plen = 0, ptype = 0\<rparr>\<rparr> in
      case in_buffer s1 of
        None \<Rightarrow> (SSH_ERROR, s1)
      | Some b \<Rightarrow>
          let ((n, t), b') = ssh_buffer_get_u8 b; s2 = s1\<lparr>in_buffer := Some b'\<rparr>
          in if n = 0 then (SSH_ERROR, s2)
             else (SSH_OK, s2\<lparr>in_packet := \<lparr>valid = True, plen = 0, ptype = t\<rparr>\<rparr>))"

definition ssh_packet_write :: "'k packet_env \<Rightarrow> 'k ssh_session \<Rightarrow> int \<times> 'k ssh_session" where
  "ssh_packet_write env s =
     (if sock_ok env s
      then (SSH_OK, s\<lparr>wire := wire s @ [take (unat (ssh_buffer_get_len (out_buffer s))) (ssh_buffer_get (out_buffer s))]\<rparr>)
      else (SSH_ERROR, s))"

text \<open>The number of bytes of padding, a \<open>uint8_t\<close>.\<close>

definition padding_size :: "u32 \<Rightarrow> u32 \<Rightarrow> u32 \<Rightarrow> u32 \<Rightarrow> byte" where
  "padding_size bs lenfield offset currentlen =
     (let p = ucast (bs - ((bs - lenfield - offset + currentlen + 5) mod bs)) :: byte
      in if p < 4 then p + ucast bs else p)"

text \<open>The counters once a packet of \<open>payloadsize\<close> bytes has been written.\<close>

definition packet_sent :: "bool \<Rightarrow> u32 \<Rightarrow> 'k ssh_session \<Rightarrow> 'k ssh_session" where
  "packet_sent keyed payloadsize s =
     (let s1 = s\<lparr>send_seq := send_seq s + 1\<rparr>;
          s2 = (if keyed then
                  with_crypto SSH_DIRECTION_OUT
                    (\<lambda>c. c\<lparr>out_cipher := map_option (\<lambda>x. x\<lparr>packets := packets x + 1,
                       blocks := blocks x + ucast (payloadsize div blocksize x)\<rparr>) (out_cipher c)\<rparr>) s1
                else s1)
      in s2\<lparr>raw_counter := map_option (\<lambda>r. r\<lparr>out_bytes := out_bytes r + ucast payloadsize,
                                              out_packets := out_packets r + 1\<rparr>) (raw_counter s2)\<rparr>)"

text \<open>From the encryption to the end: what is done with the framed packet in \<open>out_buffer\<close>.\<close>

definition send_framed :: "'k packet_env \<Rightarrow> 'k ssh_session \<Rightarrow> bool \<Rightarrow> hmac_type \<Rightarrow> u32 \<Rightarrow> byte \<Rightarrow> int \<times> 'k ssh_session" where
  "send_framed env s keyed hmac_type payloadsize type_byte =
     (let b = out_buffer s;
          (hmac, dat, s1) = ssh_packet_encrypt env s (take (unat (ssh_buffer_get_len b)) (ssh_buffer_get b));
          b1 = b\<lparr>data := write_at (unat (pos b)) dat (data b)\<rparr>;
          (rc, b2) = (case hmac of
                        None \<Rightarrow> (0, b1)
                      | Some mac \<Rightarrow> ssh_buffer_add_data (mem env) (Some (take (hmac_digest_len hmac_type) mac)) b1);
          s2 = s1\<lparr>out_buffer := b2\<rparr>
      in if rc < 0 then (rc, s2)
         else
           let (rc1, s3) = ssh_packet_write env s2 in
           if rc1 = SSH_ERROR then (rc1, s3)
           else
             let s4 = packet_sent keyed payloadsize s3;
                 (rc2, b3) = ssh_buffer_reinit (mem env) (out_buffer s4);
                 s5 = s4\<lparr>out_buffer := b3\<rparr>
             in if rc2 < 0 then (SSH_ERROR, s5)
                else if type_byte = 21 then ssh_packet_set_newkeys (key_env.truncate env) s5 SSH_DIRECTION_OUT
                else (rc2, s5))"

text \<open>
  The whole function. The \<open>rc\<close> that the error label returns is the one of the last call that set
  it: \<open>SSH_ERROR\<close> at first, 0 after a compression.
\<close>

definition packet_send2 :: "'k packet_env \<Rightarrow> 'k ssh_session \<Rightarrow> int \<times> 'k ssh_session" where
  "packet_send2 env s =
     (let crypto = ssh_packet_get_current_crypto (Some s) SSH_DIRECTION_OUT;
          keyed = (crypto \<noteq> None);
          cipher = the (out_cipher (the crypto));
          bs = (if keyed then blocksize cipher else 8);
          etm = (keyed \<and> out_hmac_etm (the crypto));
          hmac_type = (if keyed then out_hmac (the crypto) else out_hmac (the (next_crypto s)));
          lenfield = (if keyed \<and> \<not> etm then lenfield_blocksize cipher else 0);
          offset = (if etm then 4 else 0);
          type_byte = hd (ssh_buffer_get (out_buffer s));
          payloadsize = ssh_buffer_get_len (out_buffer s);
          (rc, b) = (if keyed \<and> do_compress_out (the crypto) \<and> 0 < payloadsize then compress env s (out_buffer s)
                     else (SSH_ERROR, out_buffer s));
          s1 = s\<lparr>out_buffer := b\<rparr>;
          currentlen = ssh_buffer_get_len b;
          psize = padding_size bs lenfield offset currentlen
      in if keyed \<and> do_compress_out (the crypto) \<and> 0 < payloadsize \<and> rc < 0 then (rc, s1)
         else
           (case (if keyed then random env (send_seq s) (unat psize) else Some (replicate (unat psize) 0)) of
              None \<Rightarrow> (rc, s1)
            | Some padding \<Rightarrow>
                let finallen = currentlen - offset + ucast psize + 1;
                    (rc1, b1) = ssh_buffer_prepend_data (mem env) (be_bytes 4 finallen @ [psize]) b
                in if rc1 < 0 then (rc1, s1\<lparr>out_buffer := b1\<rparr>)
                   else
                     let (rc2, b2) = ssh_buffer_add_data (mem env) (Some padding) b1
                     in if rc2 < 0 then (rc2, s1\<lparr>out_buffer := b2\<rparr>)
                        else send_framed env (s1\<lparr>out_buffer := b2\<rparr>) keyed hmac_type payloadsize type_byte))"

section \<open>The queue\<close>

text \<open>
  After the key exchange: the packets held back, oldest first. \<open>q\<close> is the queue, which sending a
  packet does not touch (\<open>send2_keeps_queue\<close>); a packet leaves it just before it is sent.
\<close>

fun drain :: "'k packet_env \<Rightarrow> ssh_buffer list \<Rightarrow> 'k ssh_session \<Rightarrow> int \<times> 'k ssh_session" where
  "drain env [] s = (SSH_OK, s)"
| "drain env (b # q) s =
     (if ssh_packet_need_rekey (elapsed env) s (ssh_buffer_get_len b) then send_rekex env s
      else
        let (rc, t) = packet_send2 env (s\<lparr>out_buffer := b, out_queue := q\<rparr>)
        in if rc \<noteq> SSH_OK then (rc, t) else drain env q t)"

definition ssh_packet_send :: "'k packet_env \<Rightarrow> 'k ssh_session \<Rightarrow> int \<times> 'k ssh_session" where
  "ssh_packet_send env s =
     (let payloadsize = ssh_buffer_get_len (out_buffer s) in
      if payloadsize < 1 then (SSH_ERROR, s)
      else
        let type_byte = hd (ssh_buffer_get (out_buffer s));
            need_rekey = ssh_packet_need_rekey (elapsed env) s payloadsize;
            in_rekey = ssh_packet_in_rekey s
        in if need_rekey \<or> (in_rekey \<and> \<not> ssh_packet_is_kex type_byte) then
             (if \<not> mem env then (SSH_ERROR, s)
              else
                let s1 = s\<lparr>out_queue := out_queue s @ [out_buffer s]\<rparr> in
                case ssh_buffer_new (mem env) (mem env) of
                  None \<Rightarrow> (SSH_ERROR, s1)
                | Some b \<Rightarrow>
                    let s2 = s1\<lparr>out_buffer := b\<rparr> in if need_rekey then send_rekex env s2 else (SSH_OK, s2))
           else
             let (rc, s1) = packet_send2 env s in
             if rc = SSH_OK \<and> type_byte = 21 then
               let s2 = (if flags s1 AND SSH_SESSION_FLAG_KEX_STRICT \<noteq> 0 then s1\<lparr>send_seq := 0\<rparr> else s1)
               in drain env (out_queue s2) s2
             else (rc, s1))"

section \<open>Messages of the layer itself\<close>

definition ssh_packet_send_newkeys :: "'k packet_env \<Rightarrow> 'k ssh_session \<Rightarrow> int \<times> 'k ssh_session" where
  "ssh_packet_send_newkeys env s =
     (let (rc, b) = ssh_buffer_add_u8 (mem env) 21 (out_buffer s); s1 = s\<lparr>out_buffer := b\<rparr>
      in if rc < 0 then (rc, s1) else ssh_packet_send env s1)"

definition ssh_packet_send_unimplemented :: "'k packet_env \<Rightarrow> 'k ssh_session \<Rightarrow> u32 \<Rightarrow> int \<times> 'k ssh_session" where
  "ssh_packet_send_unimplemented env s seqnum =
     (case ssh_buffer_pack (mem env) ''bd'' 2 [VA_int 3, VA_int seqnum, VA_end] (out_buffer s) of
        None \<Rightarrow> (SSH_ERROR, s)
      | Some (rc, b) \<Rightarrow>
          let s1 = s\<lparr>out_buffer := b\<rparr> in if rc \<noteq> SSH_OK then (SSH_ERROR, s1) else ssh_packet_send env s1)"

definition ssh_packet_unimplemented :: "'k packet_env \<Rightarrow> 'k ssh_session \<Rightarrow> ssh_buffer \<Rightarrow> int \<times> ssh_buffer" where
  "ssh_packet_unimplemented env s packet =
     (case ssh_buffer_unpack (mem env) (\<lambda>_. True) ''d'' 1 [UA_ptr, UA_end] packet of
        None \<Rightarrow> (1, packet)
      | Some (rc, items, b) \<Rightarrow> (1, b))"

end
