(* ===== verification/Packet_Recv.thy ===== *)
theory Packet_Recv
  imports Packet_Send
begin

unbundle bit_operations_syntax

text \<open>
  Receiving packets (\<open>packet.c\<close>). \<open>ssh_packet_socket_callback\<close> is given what the socket has read;
  it takes one packet off the front, checks it, gives it to the handlers and calls itself on the
  rest. The parts of the C function are separate definitions here, in its order. \<open>size_t\<close> and
  \<open>long\<close> have 32 bits.
\<close>

section \<open>Reading\<close>

definition MAX_PACKET_LEN :: u32 where "MAX_PACKET_LEN = 262144"

text \<open>What the direction's keys say about the format of a packet.\<close>

record recv_params =
  keyed :: bool
  macsize :: u32
  lenfield :: u32
  etm :: bool
  etm_offset :: u32

definition recv_params :: "'k ssh_session \<Rightarrow> recv_params" where
  "recv_params s =
     (case ssh_packet_get_current_crypto (Some s) SSH_DIRECTION_IN of
        None \<Rightarrow> \<lparr>keyed = False, macsize = 0, lenfield = 8, etm = False, etm_offset = 0\<rparr>
      | Some c \<Rightarrow>
          (let x = the (in_cipher c); l = lenfield_blocksize x; e = in_hmac_etm c in
           \<lparr>keyed = True, macsize = of_nat (hmac_digest_len (in_hmac c)),
            lenfield = (if e then 0 else if l = 0 then blocksize x else l), etm = e,
            etm_offset = (if e then 4 else 0)\<rparr>))"

text \<open>A part of the function ends it, or hands over what it has processed and the session.\<close>

datatype 'k part = Return u32 "'k ssh_session" | Go u32 "'k ssh_session"

definition fail :: "u32 \<Rightarrow> 'k ssh_session \<Rightarrow> 'k part" where
  "fail n s = Return n (s\<lparr>session_state := SSH_SESSION_STATE_ERROR\<rparr>)"

definition with_in :: "'k ssh_session \<Rightarrow> ssh_buffer \<Rightarrow> 'k ssh_session" where
  "with_in s b = s\<lparr>in_buffer := Some b\<rparr>"

text \<open>The buffer for a new packet: the old one emptied, or a new one.\<close>

definition fresh_in :: "'k packet_env \<Rightarrow> 'k ssh_session \<Rightarrow> 'k ssh_session option" where
  "fresh_in env s =
     (case in_buffer s of
        Some b \<Rightarrow> (let (rc, b') = ssh_buffer_reinit (mem env) b in if rc < 0 then None else Some (with_in s b'))
      | None \<Rightarrow> map_option (with_in s) (ssh_buffer_new (mem env) (mem env)))"

text \<open>\<open>PACKET_STATE_INIT\<close>: the length.\<close>

definition read_size :: "'k packet_env \<Rightarrow> recv_params \<Rightarrow> 'k ssh_session \<Rightarrow> byte list \<Rightarrow> 'k part" where
  "read_size env p s dat =
     (if of_nat (length dat) < lenfield p + etm_offset p then Return 0 s
      else
        let s1 = s\<lparr>in_packet := \<lparr>valid = False, plen = 0, ptype = 0\<rparr>\<rparr> in
        case fresh_in env s1 of
          None \<Rightarrow> fail 0 s1
        | Some s2 \<Rightarrow>
            let n = lenfield p + etm_offset p;
                finish = (\<lambda>len to_be_read t.
                  if MAX_PACKET_LEN < len then fail n t
                  else if sint (to_be_read :: u32) < 0 then fail n t
                  else Go n (t\<lparr>in_packet := (in_packet t)\<lparr>plen := len\<rparr>, packet_state := PACKET_STATE_SIZEREAD\<rparr>))
            in if etm p then let len = be_word (take 4 dat) in finish len (len - etm_offset p) s2
               else
                 (case ssh_buffer_allocate (mem env) (lenfield p) (the (in_buffer s2)) of
                    (None, b) \<Rightarrow> fail 0 (with_in s2 b)
                  | (Some off, b) \<Rightarrow>
                      let (len, dst, s3) = ssh_packet_decrypt_len (with_in s2 b) dat;
                          s4 = with_in s3 (b\<lparr>data := write_at off dst (data b)\<rparr>)
                      in finish len (len - lenfield p + 4) s4))"

text \<open>The rest of the packet: authenticated and decrypted, or copied. \<open>off\<close> is its place in the buffer.\<close>

definition open_packet ::
  "'k packet_env \<Rightarrow> recv_params \<Rightarrow> 'k ssh_session \<Rightarrow> byte list \<Rightarrow> u32 \<Rightarrow> nat \<Rightarrow> u32 \<Rightarrow> 'k part" where
  "open_packet env p s dat processed off packet_remaining =
     (let start = lenfield p + etm_offset p;
          put = (\<lambda>t bs. with_in t ((the (in_buffer t))\<lparr>data := write_at off bs (data (the (in_buffer t)))\<rparr>))
      in case ssh_packet_get_current_crypto (Some s) SSH_DIRECTION_IN of
           None \<Rightarrow> Go processed (put s (take (unat packet_remaining) (drop (unat start) dat)))
         | Some c \<Rightarrow>
             let mac = drop (unat (start + packet_remaining)) dat; t = in_hmac c in
             if t \<noteq> SSH_HMAC_NONE \<and> etm p \<and> ssh_packet_hmac_verify env s (take (unat processed) dat) mac t < 0
             then fail processed s
             else
               let (rc, bs, s1) = (if 0 < packet_remaining
                                   then ssh_packet_decrypt s dat (unat start) (unat (processed - start))
                                   else (0, [], s));
                   s2 = put s1 bs; b = the (in_buffer s2)
               in if rc < 0 then fail processed s2
                  else if t \<noteq> SSH_HMAC_NONE \<and> \<not> etm p \<and>
                    ssh_packet_hmac_verify env s2 (take (unat (ssh_buffer_get_len b)) (ssh_buffer_get b)) mac t < 0
                  then fail processed s2
                  else Go (processed + macsize p) s2)"

text \<open>\<open>PACKET_STATE_SIZEREAD\<close>, up to the decryption.\<close>

definition read_body :: "'k packet_env \<Rightarrow> recv_params \<Rightarrow> 'k ssh_session \<Rightarrow> byte list \<Rightarrow> 'k part" where
  "read_body env p s dat =
     (let packet_len = plen (in_packet s);
          packet_offset = lenfield p + etm_offset p;
          to_be_read = packet_len + 4 + macsize p
      in if to_be_read \<noteq> 0 \<and> of_nat (length dat) < to_be_read then Return 0 s
         else
           let processed = (if to_be_read \<noteq> 0 then to_be_read - macsize p else packet_offset);
               packet_remaining = packet_len - (packet_offset - 4)
           in case ssh_buffer_allocate (mem env) packet_remaining (the (in_buffer s)) of
                (None, b) \<Rightarrow> fail processed (with_in s b)
              | (Some off, b) \<Rightarrow>
                  if to_be_read \<noteq> 0 then open_packet env p (with_in s b) dat processed off packet_remaining
                  else Go processed (with_in s b))"

text \<open>The padding is taken off, and the payload decompressed.\<close>

definition strip_packet :: "'k packet_env \<Rightarrow> recv_params \<Rightarrow> u32 \<Rightarrow> 'k ssh_session \<Rightarrow> 'k part" where
  "strip_packet env p processed s =
     (let b0 = the (in_buffer s);
          b1 = (if etm p then b0 else snd (ssh_buffer_pass_bytes 4 b0));
          ((rc, padding), b2) = ssh_buffer_get_u8 b1
      in if rc = 0 then fail processed (with_in s b2)
         else if ssh_buffer_get_len b2 < ucast padding then fail processed (with_in s b2)
         else
           let b3 = snd (ssh_buffer_pass_bytes_end (ucast padding) b2);
               s1 = with_in s b3
           in if (\<exists>c\<in>set_option (ssh_packet_get_current_crypto (Some s) SSH_DIRECTION_IN). do_compress_in c) \<and>
                 0 < ssh_buffer_get_len b3
              then let (rc2, b4) = decompress env s1 b3
                   in if rc2 < 0 then fail processed (with_in s1 b4) else Go processed (with_in s1 b4)
              else Go processed s1)"

text \<open>The counters.\<close>

definition packet_received :: "recv_params \<Rightarrow> u32 \<Rightarrow> 'k ssh_session \<Rightarrow> 'k part" where
  "packet_received p processed s =
     (let payloadsize = ssh_buffer_get_len (the (in_buffer s)) in
      if recv_seq s = 0xFFFFFFFF \<and> \<not> keyed p then fail processed s
      else
        let s1 = s\<lparr>recv_seq := recv_seq s + 1\<rparr>;
            s2 = (if keyed p then
                    with_crypto SSH_DIRECTION_IN
                      (\<lambda>c. c\<lparr>in_cipher := map_option (\<lambda>x. x\<lparr>packets := packets x + 1,
                         blocks := blocks x + ucast (payloadsize div blocksize x)\<rparr>) (in_cipher c)\<rparr>) s1
                  else s1)
        in Go processed (s2\<lparr>raw_counter := map_option (\<lambda>r. r\<lparr>in_bytes := in_bytes r + ucast payloadsize,
                                                       in_packets := in_packets r + 1\<rparr>) (raw_counter s2)\<rparr>))"

section \<open>Handlers\<close>

definition ssh_packet_set_callbacks :: "bool \<Rightarrow> 'k ssh_session \<Rightarrow> nat \<Rightarrow> 'k ssh_session" where
  "ssh_packet_set_callbacks m s cb =
     (if \<not> m then s else s\<lparr>packet_callbacks := Some ((case packet_callbacks s of None \<Rightarrow> [] | Some l \<Rightarrow> l) @ [cb])\<rparr>)"

definition ssh_packet_remove_callbacks :: "'k ssh_session \<Rightarrow> nat \<Rightarrow> 'k ssh_session" where
  "ssh_packet_remove_callbacks s cb =
     s\<lparr>packet_callbacks := map_option (\<lambda>l. remove1 cb l) (packet_callbacks s)\<rparr>"

text \<open>
  The node after the one of table \<open>a\<close>. None: the node has been removed. A table is registered at
  most once.
\<close>

fun next_node :: "nat \<Rightarrow> nat list \<Rightarrow> nat option option" where
  "next_node a [] = None"
| "next_node a (x # xs) = (if x = a then Some (case xs of [] \<Rightarrow> None | y # _ \<Rightarrow> Some y) else next_node a xs)"

text \<open>The handler of table \<open>a\<close> for a type of packet, unless it has none.\<close>

definition handler :: "'k packet_env \<Rightarrow> nat \<Rightarrow> byte \<Rightarrow> ('k ssh_session \<Rightarrow> byte \<Rightarrow> int \<times> 'k ssh_session) option" where
  "handler env a t =
     (case table_at env a of
        None \<Rightarrow> None
      | Some cb \<Rightarrow>
          if t < cb_start cb then None
          else if unat (cb_start cb) + length (cb_table cb) \<le> unat t then None
          else cb_table cb ! unat (t - cb_start cb))"

text \<open>
  The loop over the tables; a handler may change the list. None: it steps on a node that has been
  freed, or never ends.
\<close>

partial_function (option) process_from ::
  "'k packet_env \<Rightarrow> byte \<Rightarrow> nat option \<Rightarrow> int \<Rightarrow> 'k ssh_session \<Rightarrow> (int \<times> 'k ssh_session) option" where
  "process_from env t i rc s =
     (case i of
        None \<Rightarrow> Some (rc, s)
      | Some a \<Rightarrow>
          (case next_node a (case packet_callbacks s of None \<Rightarrow> [] | Some l \<Rightarrow> l) of
             None \<Rightarrow> None
           | Some nxt \<Rightarrow>
               (case handler env a t of
                  None \<Rightarrow> process_from env t nxt rc s
                | Some f \<Rightarrow>
                    (let (rc', s') = f s t in
                     if rc' = 1 then Some (rc', s') else process_from env t nxt rc' s'))))"

definition taint :: "'k ssh_session \<Rightarrow> 'k ssh_session" where
  "taint s = s\<lparr>flags := flags s OR SSH_SESSION_FLAG_KEX_TAINTED\<rparr>"

text \<open>\<open>SSH_PACKET_USED\<close> is 1 and \<open>SSH_PACKET_NOT_USED\<close> is 2.\<close>

definition ssh_packet_process :: "'k packet_env \<Rightarrow> 'k ssh_session \<Rightarrow> byte \<Rightarrow> 'k ssh_session option" where
  "ssh_packet_process env s t =
     (case packet_callbacks s of
        None \<Rightarrow> Some s
      | Some l \<Rightarrow>
          (case process_from env t (case l of [] \<Rightarrow> None | x # _ \<Rightarrow> Some x) 2 s of
             None \<Rightarrow> None
           | Some (rc, s1) \<Rightarrow>
               Some (if rc = 2 then
                       let (r, s2) = ssh_packet_send_unimplemented env s1 (recv_seq s1 - 1)
                       in if current_crypto s2 = None then taint s2 else s2
                     else s1)))"

text \<open>
  A packet whose counters are done: its type, the filter, and the handlers. The flag tells whether
  the packet was rejected.
\<close>

definition dispatch :: "'k packet_env \<Rightarrow> recv_params \<Rightarrow> 'k ssh_session \<Rightarrow> (bool \<times> 'k ssh_session) option" where
  "dispatch env p s =
     (let s1 = snd (ssh_packet_parse_type (s\<lparr>packet_state := PACKET_STATE_PROCESSING\<rparr>));
          t = ptype (in_packet s1);
          s2 = (if \<not> keyed p \<and> t \<noteq> 20 \<and> t \<noteq> 21 \<and> (t < 30 \<or> 34 < t) then taint s1 else s1)
      in case ssh_packet_incoming_filter t s2 of
           SSH_PACKET_ALLOWED \<Rightarrow> map_option (Pair False) (ssh_packet_process env s2 t)
         | SSH_PACKET_DENIED \<Rightarrow> Some (True, s2)
         | SSH_PACKET_UNKNOWN \<Rightarrow>
             let s3 = (if \<not> keyed p then taint s2 else s2)
             in Some (False, snd (ssh_packet_send_unimplemented env s3 (recv_seq s3 - 1))))"

section \<open>The callback\<close>

text \<open>Sequencing of the parts.\<close>

fun and_then :: "'k part \<Rightarrow> (u32 \<Rightarrow> 'k ssh_session \<Rightarrow> 'k part) \<Rightarrow> 'k part" where
  "and_then (Return n s) f = Return n s"
| "and_then (Go n s) f = f n s"

text \<open>One packet off the front of the data, up to its dispatch.\<close>

definition receive :: "'k packet_env \<Rightarrow> recv_params \<Rightarrow> 'k ssh_session \<Rightarrow> byte list option \<Rightarrow> 'k part" where
  "receive env p s source =
     (case source of
        None \<Rightarrow> fail 0 s
      | Some dat \<Rightarrow>
          if session_state s = SSH_SESSION_STATE_ERROR then fail 0 s
          else if packet_state s = PACKET_STATE_PROCESSING then Return 0 s
          else
            and_then
              (and_then
                (and_then
                  (if packet_state s = PACKET_STATE_INIT then read_size env p s dat else Go 0 s)
                  (\<lambda>n t. read_body env p t dat))
                (strip_packet env p))
              (packet_received p))"

text \<open>The end of the function: a key exchange when it is due. A negative code becomes a huge \<open>size_t\<close>.\<close>

definition finish_packet :: "'k packet_env \<Rightarrow> u32 \<Rightarrow> 'k ssh_session \<Rightarrow> u32 \<times> 'k ssh_session" where
  "finish_packet env processed s =
     (if ssh_packet_need_rekey (elapsed env) s 0 then
        let (rc, s1) = send_rekex env s in if rc \<noteq> SSH_OK then (word_of_int rc, s1) else (processed, s1)
      else (processed, s))"

text \<open>None: the handlers of a packet do not return.\<close>

partial_function (option) ssh_packet_socket_callback ::
  "'k packet_env \<Rightarrow> byte list option \<Rightarrow> 'k ssh_session \<Rightarrow> (u32 \<times> 'k ssh_session) option" where
  "ssh_packet_socket_callback env source s =
     (case receive env (recv_params s) s source of
        Return n t \<Rightarrow> Some (n, t)
      | Go n t \<Rightarrow>
          (case dispatch env (recv_params s) t of
             None \<Rightarrow> None
           | Some (denied, u) \<Rightarrow>
               if denied then Some (n, u\<lparr>session_state := SSH_SESSION_STATE_ERROR\<rparr>)
               else
                 let u1 = u\<lparr>packet_state := PACKET_STATE_INIT\<rparr> in
                 if unat n < length (the source) then
                   Option.bind (ssh_packet_socket_callback env (Some (drop (unat n) (the source))) u1)
                     (\<lambda>(rc, u2). Some (finish_packet env (n + rc) u2))
                 else Some (finish_packet env n u1)))"

end
