(* ===== verification/Packet_Frame.thy ===== *)
theory Packet_Frame
  imports Packet_Recv
begin

unbundle bit_operations_syntax

text \<open>
  The format of packets: what the buffer operations do to the contents, the padding, the framed
  packet that \<open>packet_send2\<close> builds and the parts of the reading code that take it apart.
\<close>

section \<open>More on buffers\<close>

lemma get_contents:
  assumes "buffer_ok b"
  shows "take (unat (ssh_buffer_get_len b)) (ssh_buffer_get b) = contents b"
    "unat (ssh_buffer_get_len b) = length (contents b)"
  using assms length_contents [OF assms]
  by (simp_all add: ssh_buffer_get_len_def ssh_buffer_get_def contents_def buffer_ok_def unat_sub word_le_nat_alt)

lemma hd_contents: "contents b \<noteq> [] \<Longrightarrow> hd (ssh_buffer_get b) = hd (contents b)"
  by (auto simp: contents_def ssh_buffer_get_def hd_take)

lemma overwrite_ok:
  assumes ok: "buffer_ok b" and len: "length bs = length (contents b)"
  shows "buffer_ok (b\<lparr>data := write_at (unat (pos b)) bs (data b)\<rparr>) \<and>
    contents (b\<lparr>data := write_at (unat (pos b)) bs (data b)\<rparr>) = bs"
proof -
  let ?b = "b\<lparr>data := write_at (unat (pos b)) bs (data b)\<rparr>"
  have l: "length bs = unat (used b) - unat (pos b)" using len length_contents [OF ok] by simp
  with ok have ok': "buffer_ok ?b" by (auto simp: buffer_ok_def)
  have "contents ?b = bs" using l ok by (auto simp: contents_def write_at_def buffer_ok_def)
  with ok' show ?thesis by simp
qed

lemma reinit_ok:
  assumes ok: "buffer_ok b"
  shows "\<exists>b'. ssh_buffer_reinit m b = (0, b') \<and> buffer_ok b' \<and> contents b' = []"
proof -
  have "\<not> 65536 < allocated b" using ok by (simp add: buffer_ok_def word_less_nat_alt)
  then show ?thesis using ok
    by (auto simp: ssh_buffer_reinit_def Let_def buffer_ok_def contents_def)
qed

lemma prepend_fits:
  assumes ok: "buffer_ok b" and fits: "length (contents b) + length d < 16384"
  shows "\<exists>b'. ssh_buffer_prepend_data True d b = (0, b') \<and> buffer_ok b' \<and> contents b' = d @ contents b"
proof -
  let ?len = "of_nat (length d) :: u32"
  have l: "unat ?len = length d" using fits by (simp add: small_nat)
  have sub: "unat (used b - pos b) = length (contents b)"
    using ok length_contents [OF ok] by (simp add: buffer_ok_def unat_sub word_le_nat_alt)
  have sum: "unat (used b - pos b + ?len) = length (contents b) + length d"
    using sub l fits by (subst unat_add_no_wrap) auto
  have "fst (ssh_buffer_prepend_data True d b) = 0"
  proof (cases "?len \<le> pos b")
    case False
    have nw: "\<not> used b - pos b + ?len < ?len" using sum l by (simp add: word_less_nat_alt)
    obtain b' where "realloc_buffer True (used b - pos b + ?len) b = Some b'"
      using realloc_succeeds [of "used b - pos b + ?len" b] sum fits by (auto simp: word_less_nat_alt)
    with False nw show ?thesis by (simp add: ssh_buffer_prepend_data_def Let_def)
  qed (simp add: ssh_buffer_prepend_data_def Let_def)
  then obtain b' where b': "ssh_buffer_prepend_data True d b = (0, b')" by (metis prod.collapse)
  from prepend_ok [OF ok _ b'] fits b' show ?thesis by auto
qed

text \<open>A block handed out at the end: writing it appends to the contents.\<close>

lemma allocate_fits:
  assumes ok: "buffer_ok b" and fits: "length (contents b) + unat len < 16384"
  shows "\<exists>b' off. ssh_buffer_allocate True len b = (Some off, b') \<and>
    (\<forall>bs. length bs = unat len \<longrightarrow> buffer_ok (b'\<lparr>data := write_at off bs (data b')\<rparr>) \<and>
       contents (b'\<lparr>data := write_at off bs (data b')\<rparr>) = contents b @ bs)"
proof -
  have nw: "\<not> used b + len < len" using used_bound [OF ok] fits by (simp add: no_wrap_iff [OF ok])
  obtain b2 where b2: "make_room True len b = Inr b2" using make_room_fits [OF ok fits] ..
  from make_room_ok [OF ok nw, of True] b2
  have r: "buffer_ok b2" "contents b2 = contents b" "unat (used b2) + unat len \<le> unat (allocated b2)" by simp_all
  have "buffer_ok (b2\<lparr>used := used b2 + len, data := write_at (unat (used b2)) bs (data b2)\<rparr>) \<and>
    contents (b2\<lparr>used := used b2 + len, data := write_at (unat (used b2)) bs (data b2)\<rparr>) = contents b @ bs"
    if "length bs = unat len" for bs
  proof -
    from r(3) that have "unat (used b2) + length bs \<le> unat (allocated b2)" by simp
    from append_ok [OF r(1) this that [symmetric]] r(2)
    have main: "buffer_ok (b2\<lparr>data := write_at (unat (used b2)) bs (data b2), used := used b2 + len\<rparr>) \<and>
      contents (b2\<lparr>data := write_at (unat (used b2)) bs (data b2), used := used b2 + len\<rparr>) = contents b @ bs" by simp
    have eq: "b2\<lparr>used := used b2 + len, data := write_at (unat (used b2)) bs (data b2)\<rparr> =
      b2\<lparr>data := write_at (unat (used b2)) bs (data b2), used := used b2 + len\<rparr>" by (cases b2) simp
    show ?thesis unfolding eq by (rule main)
  qed
  moreover have "ssh_buffer_allocate True len b = (Some (unat (used b2)), b2\<lparr>used := used b2 + len\<rparr>)"
    using nw b2 by (simp add: ssh_buffer_allocate_def)
  ultimately show ?thesis by auto
qed

lemma pass_bytes_end_ok:
  assumes ok: "buffer_ok b" and le: "unat len \<le> length (contents b)"
  shows "\<exists>b'. ssh_buffer_pass_bytes_end len b = (len, b') \<and> buffer_ok b' \<and>
    contents b' = take (length (contents b) - unat len) (contents b)"
proof -
  have l: "unat (pos b) + unat len \<le> unat (used b)" using le length_contents [OF ok] ok unfolding buffer_ok_def by linarith
  then have u: "unat (used b - len) = unat (used b) - unat len" by (simp add: unat_sub word_le_nat_alt)
  let ?b = "b\<lparr>used := used b - len\<rparr>"
  have "buffer_ok ?b" using ok u l by (auto simp: buffer_ok_def)
  moreover have "contents ?b = take (length (contents b) - unat len) (contents b)"
    using l u length_contents [OF ok] by (auto simp: contents_def min_def add.commute)
  ultimately show ?thesis using l by (auto simp: ssh_buffer_pass_bytes_end_def word_less_nat_alt)
qed

section \<open>Padding\<close>

lemma padding_value:
  assumes b: "bs = 2 ^ k" "3 \<le> k" "k \<le> 6"
  shows "unat (padding_size bs l off n) =
    (let q = 2 ^ k - unat (bs - l - off + n + 5) mod 2 ^ k in if q < 4 then q + 2 ^ k else q)"
proof -
  let ?x = "bs - l - off + n + 5"
  have pk: "(2 :: nat) ^ k \<le> 2 ^ 6" using b(3) by (rule power_increasing) simp
  have ub: "unat bs = 2 ^ k" using b(1) unat_pow2 [of k] b(3) by simp
  have r: "unat (?x mod bs) = unat ?x mod 2 ^ k" by (simp add: unat_mod ub)
  have rl: "unat ?x mod 2 ^ k < 2 ^ k" by simp
  have "?x mod bs \<le> bs" using r rl by (simp add: word_le_nat_alt ub)
  then have q: "unat (bs - ?x mod bs) = 2 ^ k - unat ?x mod 2 ^ k" by (simp only: unat_sub r ub)
  have small: "unat (ucast (bs - ?x mod bs) :: byte) = 2 ^ k - unat ?x mod 2 ^ k"
    using q pk by (simp add: unsigned_ucast_eq take_bit_nat_eq_self_iff)
  have bb: "unat (ucast bs :: byte) = 2 ^ k"
    using ub pk b(3) by (simp add: unsigned_ucast_eq take_bit_nat_eq_self_iff)
  show ?thesis
    using small bb pk rl
    by (auto simp: padding_size_def Let_def word_less_nat_alt unat_add_no_wrap)
qed
lemma padding_ok:
  assumes b: "bs = 2 ^ k" "3 \<le> k" "k \<le> 6"
  shows "4 \<le> padding_size bs l off n \<and> unat (padding_size bs l off n) \<le> unat bs + 3 \<and>
    (n + 5 + ucast (padding_size bs l off n) - l - off) mod bs = 0"
proof -
  define pad where pd: "pad = padding_size bs l off n"
  let ?x = "bs - l - off + n + 5"
  have ub: "unat bs = 2 ^ k" using b(1) unat_pow2 [of k] b(3) by simp
  have pk: "(2 :: nat) ^ 3 \<le> 2 ^ k" using b(2) by (rule power_increasing) simp
  define q where "q = 2 ^ k - unat ?x mod 2 ^ k"
  have r: "unat ?x mod 2 ^ k < 2 ^ k" by simp
  then have q: "0 < q" "q \<le> 2 ^ k" by (simp_all add: q_def)
  have "unat ?x = 2 ^ k * (unat ?x div 2 ^ k) + unat ?x mod 2 ^ k" by simp
  with r have "unat ?x + q = 2 ^ k * (unat ?x div 2 ^ k) + 2 ^ k" unfolding q_def by linarith
  then have dvd: "2 ^ k dvd unat ?x + q" by simp
  have pad: "unat pad = (if q < 4 then q + 2 ^ k else q)"
    using padding_value [OF b, of l off n] by (simp add: pd q_def Let_def)
  have "2 ^ k dvd unat ?x + unat pad" using dvd by (auto simp: pad add.assoc [symmetric])
  then obtain m where m: "unat ?x + unat pad = 2 ^ k * m" ..
  have "n + 5 + ucast pad - l - off = ?x + ucast pad - bs" by simp
  also have "\<dots> = of_nat (unat ?x + unat pad) - of_nat (2 ^ k)"
    using b(1) by (simp add: unsigned_of_nat)
  also have "\<dots> = push_bit k (of_nat m - 1)" unfolding m by (simp add: push_bit_eq_mult algebra_simps)
  finally have "n + 5 + ucast pad - l - off = push_bit k (of_nat m - 1)" .
  then have "(n + 5 + ucast pad - l - off) mod bs = take_bit k (push_bit k (of_nat m - 1))"
    by (simp only: b(1) take_bit_eq_mod)
  then show ?thesis using pad q pk ub unfolding pd [symmetric]
    by (auto simp: take_bit_push_bit word_le_nat_alt)
qed

section \<open>What is sent\<close>

text \<open>The parameters of the direction out: block size, length field and offset of the padding.\<close>

definition out_format :: "'k ssh_session \<Rightarrow> u32 \<times> u32 \<times> u32" where
  "out_format s =
     (case ssh_packet_get_current_crypto (Some s) SSH_DIRECTION_OUT of
        None \<Rightarrow> (8, 0, 0)
      | Some c \<Rightarrow> (blocksize (the (out_cipher c)), if out_hmac_etm c then 0 else lenfield_blocksize (the (out_cipher c)),
                  if out_hmac_etm c then 4 else 0))"

definition pad_of :: "'k ssh_session \<Rightarrow> byte list \<Rightarrow> byte" where
  "pad_of s payload = (case out_format s of (bs, l, off) \<Rightarrow> padding_size bs l off (of_nat (length payload)))"

text \<open>The framed packet before encryption.\<close>

definition framed :: "'k ssh_session \<Rightarrow> byte list \<Rightarrow> byte list \<Rightarrow> byte list" where
  "framed s payload padding =
     be_bytes 4 (of_nat (length payload) - snd (snd (out_format s)) + ucast (pad_of s payload) + 1 :: u32) @
     [pad_of s payload] @ payload @ padding"

lemma length_framed: "length (framed s payload padding) = 5 + length payload + length padding"
  by (simp add: framed_def del: be_bytes.simps)

text \<open>The bytes that pad a packet: zeros without keys, random ones with them.\<close>

definition padding_bytes :: "'k packet_env \<Rightarrow> 'k ssh_session \<Rightarrow> byte list \<Rightarrow> byte list option" where
  "padding_bytes env s payload =
     (if ssh_packet_get_current_crypto (Some s) SSH_DIRECTION_OUT \<noteq> None
      then random env (send_seq s) (unat (pad_of s payload))
      else Some (replicate (unat (pad_of s payload)) 0))"

definition out_keyed :: "'k ssh_session \<Rightarrow> bool" where
  "out_keyed s = (ssh_packet_get_current_crypto (Some s) SSH_DIRECTION_OUT \<noteq> None)"

definition out_mac_type :: "'k ssh_session \<Rightarrow> hmac_type" where
  "out_mac_type s = (case ssh_packet_get_current_crypto (Some s) SSH_DIRECTION_OUT of
     None \<Rightarrow> out_hmac (the (next_crypto s)) | Some c \<Rightarrow> out_hmac c)"

definition compresses :: "'k ssh_session \<Rightarrow> bool" where
  "compresses s = (\<exists>c. ssh_packet_get_current_crypto (Some s) SSH_DIRECTION_OUT = Some c \<and> do_compress_out c)"

text \<open>A payload in the buffer that is ready to be sent.\<close>

definition sendable :: "'k packet_env \<Rightarrow> 'k ssh_session \<Rightarrow> byte list \<Rightarrow> bool" where
  "sendable env s payload \<longleftrightarrow>
     mem env \<and> buffer_ok (out_buffer s) \<and> contents (out_buffer s) = payload \<and> payload \<noteq> [] \<and>
     \<not> compresses s \<and> length payload + 5 + unat (pad_of s payload) < 16384"

lemma send2_frames:
  assumes "sendable env s payload" and pad: "padding_bytes env s payload = Some padding"
    and lp: "length padding = unat (pad_of s payload)"
  shows "\<exists>b. buffer_ok b \<and> contents b = framed s payload padding \<and>
    packet_send2 env s =
      send_framed env (s\<lparr>out_buffer := b\<rparr>) (out_keyed s) (out_mac_type s) (of_nat (length payload)) (hd payload)"
proof -
  let ?b = "out_buffer s" and ?pad = "pad_of s payload"
  let ?head = "be_bytes 4 (of_nat (length payload) - snd (snd (out_format s)) + ucast ?pad + 1 :: u32) @ [?pad]"
  from assms(1) have ok: "buffer_ok ?b" "contents ?b = payload" "payload \<noteq> []" and m: "mem env"
    and nc: "\<not> compresses s" and fits: "length payload + 5 + unat ?pad < 16384"
    by (simp_all add: sendable_def)
  have len: "ssh_buffer_get_len ?b = of_nat (length payload)"
    by (simp only: get_contents(2) [OF ok(1), unfolded ok(2), symmetric] of_nat_unat ucast_id)
  have lh: "length ?head = 5" by (simp del: be_bytes.simps)
  obtain b1 where b1: "ssh_buffer_prepend_data True ?head ?b = (0, b1)" "buffer_ok b1" "contents b1 = ?head @ payload"
    using prepend_fits [OF ok(1), of ?head] fits lh ok(2) by auto
  have "length (contents b1) + length padding < 16384" using b1(3) lh lp fits by simp
  from add_data_fits [OF b1(2) this] b1(3) obtain b2 where
    b2: "ssh_buffer_add_data True (Some padding) b1 = (0, b2)" "buffer_ok b2" "contents b2 = framed s payload padding"
    by (auto simp: framed_def)
  have "packet_send2 env s =
      send_framed env (s\<lparr>out_buffer := b2\<rparr>) (out_keyed s) (out_mac_type s) (of_nat (length payload)) (hd payload)"
  proof (cases "ssh_packet_get_current_crypto (Some s) SSH_DIRECTION_OUT")
    case None
    with b1(1) b2(1) pad m show ?thesis
      by (simp add: packet_send2_def Let_def len out_keyed_def out_mac_type_def out_format_def pad_of_def
          padding_bytes_def hd_contents [of ?b, unfolded ok(2), OF ok(3)] ok(2) del: be_bytes.simps)
  next
    case (Some c)
    with nc have "\<not> do_compress_out c" by (simp add: compresses_def)
    with Some b1(1) b2(1) pad m show ?thesis
      by (simp add: packet_send2_def Let_def len out_keyed_def out_mac_type_def out_format_def pad_of_def
          padding_bytes_def hd_contents [of ?b, unfolded ok(2), OF ok(3)] ok(2) del: be_bytes.simps split: if_splits)
  qed
  with b2 show ?thesis by blast
qed

lemma with_crypto_fields [simp]:
  "out_buffer (with_crypto d f s) = out_buffer s" "in_buffer (with_crypto d f s) = in_buffer s"
  "wire (with_crypto d f s) = wire s" "out_queue (with_crypto d f s) = out_queue s"
  "recv_seq (with_crypto d f s) = recv_seq s" "send_seq (with_crypto d f s) = send_seq s"
  "flags (with_crypto d f s) = flags s" "packet_callbacks (with_crypto d f s) = packet_callbacks s"
  "in_packet (with_crypto d f s) = in_packet s" "packet_state (with_crypto d f s) = packet_state s"
  "raw_counter (with_crypto d f s) = raw_counter s" "session_state (with_crypto d f s) = session_state s"
  "dh_handshake_state (with_crypto d f s) = dh_handshake_state s"
  by (simp_all add: with_crypto_def)

lemma set_ctx_fields [simp]:
  "out_buffer (set_in_ctx k s) = out_buffer s" "in_buffer (set_in_ctx k s) = in_buffer s"
  "wire (set_in_ctx k s) = wire s" "recv_seq (set_in_ctx k s) = recv_seq s"
  "send_seq (set_in_ctx k s) = send_seq s" "session_state (set_in_ctx k s) = session_state s"
  "out_buffer (set_out_ctx k s) = out_buffer s" "in_buffer (set_out_ctx k s) = in_buffer s"
  "wire (set_out_ctx k s) = wire s" "recv_seq (set_out_ctx k s) = recv_seq s"
  "send_seq (set_out_ctx k s) = send_seq s" "out_queue (set_out_ctx k s) = out_queue s"
  "dh_handshake_state (set_out_ctx k s) = dh_handshake_state s"
  by (simp_all add: set_in_ctx_def set_out_ctx_def)

lemma packet_sent_fields [simp]:
  "out_buffer (packet_sent k n s) = out_buffer s" "wire (packet_sent k n s) = wire s"
  "send_seq (packet_sent k n s) = send_seq s + 1" "out_queue (packet_sent k n s) = out_queue s"
  "dh_handshake_state (packet_sent k n s) = dh_handshake_state s"
  by (simp_all add: packet_sent_def Let_def)

lemma send_framed_ok:
  assumes ok: "buffer_ok (out_buffer s)" and X: "contents (out_buffer s) = X"
    and enc: "ssh_packet_encrypt env s X = (h, Y, s1)" and same: "out_buffer s1 = out_buffer s" and len: "length Y = length X"
    and tag: "(case h of None \<Rightarrow> [] | Some m \<Rightarrow> take (hmac_digest_len ht) m) = tag"
    and fits: "length X + length tag < 16384" and env: "mem env" "\<And>t. sock_ok env t" and ty: "ty \<noteq> 21"
  shows "\<exists>b. buffer_ok b \<and> contents b = [] \<and>
    send_framed env s k ht n ty = (0, (packet_sent k n (s1\<lparr>out_buffer := b, wire := wire s1 @ [Y @ tag]\<rparr>))\<lparr>out_buffer := b\<rparr>)"
proof -
  let ?b = "out_buffer s"
  let ?b1 = "?b\<lparr>data := write_at (unat (pos ?b)) Y (data ?b)\<rparr>"
  have b1: "buffer_ok ?b1" "contents ?b1 = Y" using overwrite_ok [OF ok, of Y] len X by simp_all
  obtain b2 where b2: "buffer_ok b2" "contents b2 = Y @ tag"
    "(case h of None \<Rightarrow> (0, ?b1) | Some m \<Rightarrow> ssh_buffer_add_data (mem env) (Some (take (hmac_digest_len ht) m)) ?b1) = (0, b2)"
  proof (cases h)
    case None
    with b1 tag that [of ?b1] show ?thesis by simp
  next
    case (Some m)
    with tag have t: "take (hmac_digest_len ht) m = tag" by simp
    have "length (contents ?b1) + length tag < 16384" using b1(2) len fits by simp
    from add_data_fits [OF b1(1) this] Some t b1(2) that env(1) show ?thesis by auto
  qed
  let ?s2 = "s1\<lparr>out_buffer := b2\<rparr>"
  have w: "ssh_packet_write env ?s2 = (SSH_OK, ?s2\<lparr>wire := wire s1 @ [Y @ tag]\<rparr>)"
    using env(2) get_contents(1) [OF b2(1)] b2(2) by (simp add: ssh_packet_write_def)
  obtain b3 where b3: "ssh_buffer_reinit (mem env) b2 = (0, b3)" "buffer_ok b3" "contents b3 = []"
    using reinit_ok [OF b2(1)] by auto
  have "send_framed env s k ht n ty = (0, (packet_sent k n (?s2\<lparr>wire := wire s1 @ [Y @ tag]\<rparr>))\<lparr>out_buffer := b3\<rparr>)"
    using enc b2(3) w b3 ty
    by (simp add: send_framed_def Let_def get_contents(1) [OF ok, unfolded X])
  moreover have "(packet_sent k n (?s2\<lparr>wire := wire s1 @ [Y @ tag]\<rparr>))\<lparr>out_buffer := b3\<rparr> =
      (packet_sent k n (s1\<lparr>out_buffer := b3, wire := wire s1 @ [Y @ tag]\<rparr>))\<lparr>out_buffer := b3\<rparr>"
    by (simp add: packet_sent_def with_crypto_def Let_def)
  ultimately show ?thesis using b3 by metis
qed

section \<open>What is received\<close>

lemma with_in_simps [simp]:
  "in_buffer (with_in s b) = Some b" "with_in (with_in s b) b' = with_in s b'"
  "in_packet (with_in s b) = in_packet s" "recv_seq (with_in s b) = recv_seq s"
  "current_crypto (with_in s b) = current_crypto s" "next_crypto (with_in s b) = next_crypto s"
  "session_state (with_in s b) = session_state s" "packet_state (with_in s b) = packet_state s"
  by (simp_all add: with_in_def)

lemma get_crypto_with_in [simp]:
  "ssh_packet_get_current_crypto (Some (with_in s b)) d = ssh_packet_get_current_crypto (Some s) d"
  by (simp add: ssh_packet_get_current_crypto_def)

lemma fresh_in_ok:
  assumes "mem env" and "\<forall>b\<in>set_option (in_buffer s). buffer_ok b"
  shows "\<exists>b. fresh_in env s = Some (with_in s b) \<and> buffer_ok b \<and> contents b = []"
proof (cases "in_buffer s")
  case None
  with assms new_ok show ?thesis by (auto simp: fresh_in_def)
next
  case (Some b)
  with assms have "buffer_ok b" by simp
  from reinit_ok [OF this, of "mem env"] Some show ?thesis by (auto simp: fresh_in_def)
qed

lemma sint_small:
  assumes "unat (x :: u32) < 2 ^ 31"
  shows "\<not> sint x < 0"
proof -
  have "uint x = int (unat x)" by simp
  moreover from assms have "unat x < 2147483648" by simp
  ultimately have "uint x < 2147483648" by linarith
  then have "uint x < 2 ^ 31" by simp
  moreover have "- (2 ^ 31) \<le> uint x" by (rule order_trans [OF _ uint_ge_0]) simp
  ultimately have "signed_take_bit 31 (uint x) = uint x" by (rule signed_take_bit_int_eq_self [rotated])
  then show ?thesis using uint_ge_0 [of x] by (simp add: sint_uint)
qed

lemma read_size_ok:
  assumes env: "mem env" and old: "\<forall>b\<in>set_option (in_buffer s). buffer_ok b"
    and p: "\<not> etm p" "etm_offset p = 0" "lenfield p \<le> of_nat (length dat)"
    and dec: "\<And>b. ssh_packet_decrypt_len (with_in (s\<lparr>in_packet := \<lparr>valid = False, plen = 0, ptype = 0\<rparr>\<rparr>) b) dat =
      (len, first, with_in s1 b)"
    and len: "length first = unat (lenfield p)" "unat (lenfield p) < 16384" "unat len \<le> 262144"
      "unat (lenfield p) \<le> unat len + 4"
  shows "\<exists>b. buffer_ok b \<and> contents b = first \<and>
    read_size env p s dat = Go (lenfield p)
      ((with_in s1 b)\<lparr>in_packet := (in_packet s1)\<lparr>plen := len\<rparr>, packet_state := PACKET_STATE_SIZEREAD\<rparr>)"
proof -
  let ?s = "s\<lparr>in_packet := \<lparr>valid = False, plen = 0, ptype = 0\<rparr>\<rparr>"
  obtain b where b: "fresh_in env ?s = Some (with_in ?s b)" "buffer_ok b" "contents b = []"
    using fresh_in_ok [OF env, of ?s] old by auto
  obtain b' off where b': "ssh_buffer_allocate True (lenfield p) b = (Some off, b')"
    and put: "buffer_ok (b'\<lparr>data := write_at off first (data b')\<rparr>)"
      "contents (b'\<lparr>data := write_at off first (data b')\<rparr>) = first"
    using allocate_fits [OF b(2), of "lenfield p"] b(3) len(1,2) by auto
  have l4: "unat (len + 4) = unat len + 4" using len(3) by (subst unat_add_no_wrap) auto
  have "unat (len - lenfield p + 4) = unat len + 4 - unat (lenfield p)"
    using len(4) l4 unat_sub [of "lenfield p" "len + 4"] by (simp add: word_le_nat_alt algebra_simps)
  then have nn: "\<not> sint (len - lenfield p + 4) < 0" using len(3) by (intro sint_small) simp
  have mx: "\<not> MAX_PACKET_LEN < len" using len(3) by (simp add: MAX_PACKET_LEN_def word_less_nat_alt)
  have "read_size env p s dat = Go (lenfield p)
      ((with_in s1 (b'\<lparr>data := write_at off first (data b')\<rparr>))\<lparr>in_packet := (in_packet s1)\<lparr>plen := len\<rparr>,
         packet_state := PACKET_STATE_SIZEREAD\<rparr>)"
    using p b(1) b' nn mx env dec [of b'] by (simp add: read_size_def Let_def)
  with put show ?thesis by blast
qed

lemma strip_ok:
  assumes ok: "buffer_ok b" and b: "in_buffer s = Some b"
    and c: "contents b = (if etm p then [] else lf) @ pad # payload @ padding"
    and len: "length lf = 4" "length padding = unat pad"
    and nc: "\<And>c. ssh_packet_get_current_crypto (Some s) SSH_DIRECTION_IN = Some c \<Longrightarrow> \<not> do_compress_in c"
  shows "\<exists>b'. buffer_ok b' \<and> contents b' = payload \<and> strip_packet env p n s = Go n (with_in s b')"
proof -
  obtain b1 where b1: "(if etm p then b else snd (ssh_buffer_pass_bytes 4 b)) = b1" "buffer_ok b1"
    "contents b1 = pad # payload @ padding"
    using pass_bytes_ok [OF ok, of 4] ok c len(1) by (cases "etm p") auto
  obtain b2 where b2: "ssh_buffer_get_data 1 b1 = ((1, [pad]), b2)" "buffer_ok b2" "contents b2 = payload @ padding"
    using get_data_ok [OF b1(2), of 1] b1(3) by auto
  have u8: "ssh_buffer_get_u8 b1 = ((1, pad), b2)"
    using b2(1) by (simp add: ssh_buffer_get_u8_def host_word_def be_word_def)
  have up: "unat (ucast pad :: u32) = unat pad" by (simp add: unsigned_ucast_eq take_bit_nat_eq_self_iff less_trans [OF unsigned_less])
  have nl: "\<not> ssh_buffer_get_len b2 < ucast pad"
    using get_contents(2) [OF b2(2)] b2(3) len(2) up by (simp add: word_less_nat_alt)
  obtain b3 where b3: "ssh_buffer_pass_bytes_end (ucast pad) b2 = (ucast pad, b3)" "buffer_ok b3" "contents b3 = payload"
    using pass_bytes_end_ok [OF b2(2), of "ucast pad"] b2(3) len(2) up by auto
  have "strip_packet env p n s = Go n (with_in s b3)"
    using b b1(1) u8 nl b3(1) nc by (auto simp: strip_packet_def Let_def split: option.splits)
  with b3 show ?thesis by blast
qed

text \<open>The rest of a packet has its place in the buffer, and is opened.\<close>

lemma read_body_ok:
  assumes env: "mem env" and b: "in_buffer s = Some b" "buffer_ok b" "contents b = first"
    and len: "plen (in_packet s) = len"
    and start: "unat (lenfield p + etm_offset p) = k" "4 \<le> k" "k \<le> unat len + 4"
    and fits: "length first + (unat len + 4 - k) < 16384" "unat len + 4 < 16384" "unat (macsize p) \<le> 64"
    and dat: "unat len + 4 + unat (macsize p) \<le> length dat" "length dat < 2 ^ 32"
  shows "\<exists>b' off. (\<forall>bs. length bs = unat len + 4 - k \<longrightarrow> buffer_ok (b'\<lparr>data := write_at off bs (data b')\<rparr>) \<and>
       contents (b'\<lparr>data := write_at off bs (data b')\<rparr>) = first @ bs) \<and>
    read_body env p s dat = open_packet env p (with_in s b') dat (len + 4) off (of_nat (unat len + 4 - k))"
proof -
  let ?st = "lenfield p + etm_offset p" and ?rem = "of_nat (unat len + 4 - k) :: u32"
  have l4: "unat (len + 4) = unat len + 4" using fits by (subst unat_add_no_wrap) auto
  have tot: "unat (len + 4 + macsize p) = unat len + 4 + unat (macsize p)"
    using fits l4 by (subst unat_add_no_wrap) auto
  have ld: "unat (of_nat (length dat) :: u32) = length dat"
    using dat(2) by (simp add: unat_of_nat take_bit_nat_eq_self_iff)
  have ge: "\<not> of_nat (length dat) < len + 4 + macsize p" using tot ld dat(1) by (simp add: word_less_nat_alt)
  have nz: "len + 4 + macsize p \<noteq> 0" using tot by (metis add_is_0 unat_0 zero_neq_numeral)
  have ur: "unat ?rem = unat len + 4 - k" using fits(2) by (simp add: small_nat)
  have "len - (?st - 4) = (len + 4) - ?st" by simp
  also have "\<dots> = ?rem"
    using start l4 ur unat_sub [of ?st "len + 4"] by (simp only: word_unat_eq_iff word_le_nat_alt)
  finally have rem: "len - (?st - 4) = ?rem" .
  have "length (contents b) + unat ?rem < 16384" using b(3) fits(1) ur by simp
  from allocate_fits [OF b(2) this] ur b(3) obtain b' off where
    b': "ssh_buffer_allocate True ?rem b = (Some off, b')"
    and put: "\<forall>bs. length bs = unat len + 4 - k \<longrightarrow> buffer_ok (b'\<lparr>data := write_at off bs (data b')\<rparr>) \<and>
       contents (b'\<lparr>data := write_at off bs (data b')\<rparr>) = first @ bs" by auto
  have "read_body env p s dat = open_packet env p (with_in s b') dat (len + 4) off ?rem"
    using env b(1) b' ge nz len rem by (simp add: read_body_def Let_def del: of_nat_add of_nat_diff)
  with put show ?thesis by blast
qed

end
