(* ===== verification/Packet_Stream.thy ===== *)
theory Packet_Stream
  imports Packet_Frame
begin

unbundle bit_operations_syntax

text \<open>
  A sender and a receiver in step: they agree on the keys of the direction, with ciphers that undo
  each other block by block, and on the sequence number. One packet, sent and received, without
  keys, with a MAC of the plain text and with a MAC of the encrypted packet.
\<close>

section \<open>Two ends in step\<close>

definition cipher_pair :: "('k \<Rightarrow> 'k \<Rightarrow> bool) \<Rightarrow> nat \<Rightarrow> ('k \<Rightarrow> byte list \<Rightarrow> byte list \<times> 'k) \<Rightarrow>
    ('k \<Rightarrow> byte list \<Rightarrow> byte list \<times> 'k) \<Rightarrow> bool" where
  "cipher_pair R n enc dec \<longleftrightarrow>
     (\<forall>ke kd xs. R ke kd \<longrightarrow> n dvd length xs \<longrightarrow>
        length (fst (enc ke xs)) = length xs \<and>
        (\<exists>kd'. dec kd (fst (enc ke xs)) = (xs, kd') \<and> R (snd (enc ke xs)) kd')) \<and>
     (\<forall>kd xs ys. n dvd length xs \<longrightarrow>
        dec kd (xs @ ys) = (fst (dec kd xs) @ fst (dec (snd (dec kd xs)) ys), snd (dec (snd (dec kd xs)) ys))) \<and>
     (\<forall>kd xs. n dvd length xs \<longrightarrow> length (fst (dec kd xs)) = length xs) \<and>
     (\<forall>kd. dec kd [] = ([], kd))"

definition macs_work :: "'k packet_env \<Rightarrow> bool" where
  "macs_work env \<longleftrightarrow>
     (\<forall>key t. hmac_init env key t) \<and> (\<forall>bs. hmac_update env bs) \<and>
     (\<forall>key t bs. \<exists>m. hmac_final env key t bs = Some m \<and> length m = hmac_digest_len t)"

definition random_works :: "'k packet_env \<Rightarrow> bool" where
  "random_works env \<longleftrightarrow> (\<forall>i n. \<exists>bs. random env i n = Some bs \<and> length bs = n)"

definition keys_match :: "('k \<Rightarrow> 'k \<Rightarrow> bool) \<Rightarrow> 'k ssh_crypto \<Rightarrow> 'k ssh_crypto \<Rightarrow> bool" where
  "keys_match R c d \<longleftrightarrow>
     (let x = the (out_cipher c); y = the (in_cipher d) in
      (\<exists>k. 3 \<le> k \<and> k \<le> 6 \<and> blocksize x = 2 ^ k) \<and> blocksize y = blocksize x \<and>
      lenfield_blocksize x = 0 \<and> lenfield_blocksize y = 0 \<and>
      aead_encrypt x = None \<and> aead_decrypt y = None \<and> aead_decrypt_length y = None \<and>
      out_hmac c = in_hmac d \<and> out_hmac_etm c = in_hmac_etm d \<and> (out_hmac_etm c \<longrightarrow> out_hmac c \<noteq> SSH_HMAC_NONE) \<and>
      take (hmac_digest_len (in_hmac d)) (encryptMAC c) = take (hmac_digest_len (in_hmac d)) (decryptMAC d) \<and>
      \<not> do_compress_out c \<and> \<not> do_compress_in d \<and>
      R (kctx x) (kctx y) \<and> cipher_pair R (unat (blocksize x)) (encrypt x) (decrypt y))"

definition in_step :: "('k \<Rightarrow> 'k \<Rightarrow> bool) \<Rightarrow> 'k ssh_session \<Rightarrow> 'k ssh_session \<Rightarrow> bool" where
  "in_step R s r \<longleftrightarrow>
     send_seq s = recv_seq r \<and>
     (case (ssh_packet_get_current_crypto (Some s) SSH_DIRECTION_OUT, ssh_packet_get_current_crypto (Some r) SSH_DIRECTION_IN) of
        (None, None) \<Rightarrow> True
      | (Some c, Some d) \<Rightarrow> keys_match R c d
      | _ \<Rightarrow> False)"

section \<open>The keys after a packet\<close>

lemma current_with_crypto:
  assumes "ssh_packet_get_current_crypto (Some s) d = Some c" and "d = SSH_DIRECTION_IN \<or> d = SSH_DIRECTION_OUT"
    and "\<And>c. used_for (f c) = used_for c" "\<And>c. in_cipher (f c) = None \<longleftrightarrow> in_cipher c = None"
      "\<And>c. out_cipher (f c) = None \<longleftrightarrow> out_cipher c = None"
  shows "ssh_packet_get_current_crypto (Some (with_crypto d f s)) d = Some (f c)"
proof (cases "\<exists>x\<in>set_option (current_crypto s). used_for x AND d \<noteq> 0")
  case True
  then obtain x where x: "current_crypto s = Some x" "used_for x AND d \<noteq> 0" by auto
  with assms(1,2) have "x = c" and "if d = SSH_DIRECTION_IN then in_cipher c \<noteq> None else out_cipher c \<noteq> None"
    by (auto simp: ssh_packet_get_current_crypto_def split: if_splits)
  with x assms(2-5) show ?thesis
    by (auto simp: ssh_packet_get_current_crypto_def with_crypto_def)
next
  case False
  with assms(1) obtain x where x: "next_crypto s = Some x" "used_for x AND d \<noteq> 0"
    by (auto simp: ssh_packet_get_current_crypto_def split: if_splits)
  with False assms(1,2) have "x = c" and "if d = SSH_DIRECTION_IN then in_cipher c \<noteq> None else out_cipher c \<noteq> None"
    by (auto simp: ssh_packet_get_current_crypto_def split: if_splits)
  with x False assms(2-5) show ?thesis
    by (auto simp: ssh_packet_get_current_crypto_def with_crypto_def)
qed

lemma current_upd [simp]:
  "ssh_packet_get_current_crypto (Some (s\<lparr>out_buffer := b\<rparr>)) d = ssh_packet_get_current_crypto (Some s) d"
  "ssh_packet_get_current_crypto (Some (s\<lparr>wire := w\<rparr>)) d = ssh_packet_get_current_crypto (Some s) d"
  "ssh_packet_get_current_crypto (Some (s\<lparr>send_seq := n\<rparr>)) d = ssh_packet_get_current_crypto (Some s) d"
  "ssh_packet_get_current_crypto (Some (s\<lparr>recv_seq := n\<rparr>)) d = ssh_packet_get_current_crypto (Some s) d"
  "ssh_packet_get_current_crypto (Some (s\<lparr>raw_counter := rc\<rparr>)) d = ssh_packet_get_current_crypto (Some s) d"
  "ssh_packet_get_current_crypto (Some (s\<lparr>in_packet := ip\<rparr>)) d = ssh_packet_get_current_crypto (Some s) d"
  "ssh_packet_get_current_crypto (Some (s\<lparr>packet_state := st\<rparr>)) d = ssh_packet_get_current_crypto (Some s) d"
  by (simp_all add: ssh_packet_get_current_crypto_def)

lemma current_set_out_ctx:
  "ssh_packet_get_current_crypto (Some s) SSH_DIRECTION_OUT = Some c \<Longrightarrow>
   ssh_packet_get_current_crypto (Some (set_out_ctx k s)) SSH_DIRECTION_OUT =
     Some (c\<lparr>out_cipher := map_option (\<lambda>x. x\<lparr>kctx := k\<rparr>) (out_cipher c)\<rparr>)"
  unfolding set_out_ctx_def by (rule current_with_crypto) simp_all

lemma current_set_in_ctx:
  "ssh_packet_get_current_crypto (Some s) SSH_DIRECTION_IN = Some c \<Longrightarrow>
   ssh_packet_get_current_crypto (Some (set_in_ctx k s)) SSH_DIRECTION_IN =
     Some (c\<lparr>in_cipher := map_option (\<lambda>x. x\<lparr>kctx := k\<rparr>) (in_cipher c)\<rparr>)"
  unfolding set_in_ctx_def by (rule current_with_crypto) simp_all

section \<open>The sender\<close>

definition out_after :: "'k \<Rightarrow> 'k ssh_session \<Rightarrow> 'k ssh_crypto \<Rightarrow> 'k ssh_session \<Rightarrow> bool" where
  "out_after k s c t \<longleftrightarrow>
     (\<exists>x. ssh_packet_get_current_crypto (Some t) SSH_DIRECTION_OUT = Some (c\<lparr>out_cipher := Some x\<rparr>) \<and>
        kctx x = k \<and> blocksize x = blocksize (the (out_cipher c)) \<and>
        lenfield_blocksize x = lenfield_blocksize (the (out_cipher c)) \<and>
        aead_encrypt x = aead_encrypt (the (out_cipher c)) \<and> encrypt x = encrypt (the (out_cipher c)))"

lemma out_after_sent:
  assumes c: "ssh_packet_get_current_crypto (Some s) SSH_DIRECTION_OUT = Some c"
  shows "out_after k s c ((packet_sent True n ((set_out_ctx k s)\<lparr>out_buffer := b, wire := w\<rparr>))\<lparr>out_buffer := b'\<rparr>)"
proof -
  obtain x where x: "out_cipher c = Some x" using get_crypto_out [OF c] by auto
  let ?c = "c\<lparr>out_cipher := Some (x\<lparr>kctx := k\<rparr>)\<rparr>"
  have "ssh_packet_get_current_crypto (Some ((set_out_ctx k s)\<lparr>out_buffer := b, wire := w, send_seq := m\<rparr>)) SSH_DIRECTION_OUT = Some ?c" for m
    using current_set_out_ctx [OF c, of k] x by simp
  from current_with_crypto [OF this, where f = "\<lambda>c. c\<lparr>out_cipher := map_option (\<lambda>x. x\<lparr>packets := packets x + 1,
      blocks := blocks x + ucast (n div blocksize x)\<rparr>) (out_cipher c)\<rparr>"]
  have "ssh_packet_get_current_crypto (Some ((packet_sent True n ((set_out_ctx k s)\<lparr>out_buffer := b, wire := w\<rparr>))\<lparr>out_buffer := b'\<rparr>))
      SSH_DIRECTION_OUT = Some (c\<lparr>out_cipher := Some (x\<lparr>kctx := k, packets := packets x + 1,
        blocks := blocks x + ucast (n div blocksize x)\<rparr>)\<rparr>)"
    by (simp add: packet_sent_def Let_def)
  then show ?thesis unfolding out_after_def x
    by (intro exI [of _ "x\<lparr>kctx := k, packets := packets x + 1, blocks := blocks x + ucast (n div blocksize x)\<rparr>"]) simp
qed

text \<open>The MAC of the parts, under the key of a direction.\<close>

lemma mac_of_works:
  "macs_work env \<Longrightarrow> \<exists>m. mac_of env key t parts = Some m \<and> length m = hmac_digest_len t"
  by (simp add: mac_of_def macs_work_def list_all_iff)

definition mac_for :: "'k packet_env \<Rightarrow> byte list \<Rightarrow> hmac_type \<Rightarrow> u32 \<Rightarrow> byte list \<Rightarrow> byte list" where
  "mac_for env key t seq d = (if t = SSH_HMAC_NONE then [] else the (mac_of env key t [be_bytes 4 seq, d]))"

lemma mac_for_works:
  assumes "macs_work env"
  shows "length (mac_for env key t seq d) = hmac_digest_len t"
    "t \<noteq> SSH_HMAC_NONE \<Longrightarrow> mac_of env key t [be_bytes 4 seq, d] = Some (mac_for env key t seq d)"
  using mac_of_works [OF assms, of key t "[be_bytes 4 seq, d]"]
  by (auto simp: mac_for_def hmac_digest_len_def)

text \<open>What is encrypted, and what it becomes.\<close>

lemma encrypt_em:
  assumes c: "ssh_packet_get_current_crypto (Some s) SSH_DIRECTION_OUT = Some c" and x: "out_cipher c = Some x"
    and "aead_encrypt x = None" "lenfield_blocksize x = 0" "\<not> out_hmac_etm c"
    and "(of_nat (length X) :: u32) mod blocksize x = 0" "mem env" "macs_work env"
  shows "ssh_packet_encrypt env s X =
    (Some (mac_for env (encryptMAC c) (out_hmac c) (send_seq s) X), fst (encrypt x (kctx x) X),
     set_out_ctx (snd (encrypt x (kctx x) X)) s)"
  using assms mac_for_works [OF assms(8), where key = "encryptMAC c" and t = "out_hmac c" and seq = "send_seq s" and d = X]
  by (auto simp: ssh_packet_encrypt_def Let_def macs_work_def mac_for_def split: prod.splits simp del: be_bytes.simps)

lemma encrypt_etm:
  assumes c: "ssh_packet_get_current_crypto (Some s) SSH_DIRECTION_OUT = Some c" and x: "out_cipher c = Some x"
    and "aead_encrypt x = None" "lenfield_blocksize x = 0" "out_hmac_etm c" "out_hmac c \<noteq> SSH_HMAC_NONE"
    and "(of_nat (length X) - 4 :: u32) mod blocksize x = 0" "mem env" "macs_work env" "4 \<le> length X"
  defines "Y \<equiv> be_bytes 4 (of_nat (length X) - 4 :: u32) @ fst (encrypt x (kctx x) (drop 4 X))"
  shows "ssh_packet_encrypt env s X =
    (Some (mac_for env (encryptMAC c) (out_hmac c) (send_seq s) Y), Y, set_out_ctx (snd (encrypt x (kctx x) (drop 4 X))) s)"
  using assms(1-10) mac_for_works [OF assms(9), where key = "encryptMAC c" and t = "out_hmac c" and seq = "send_seq s" and d = Y]
  unfolding Y_def
  by (auto simp: ssh_packet_encrypt_def Let_def macs_work_def split: prod.splits simp del: be_bytes.simps)

lemma verify_ok:
  assumes d: "ssh_packet_get_current_crypto (Some r) SSH_DIRECTION_IN = Some d" and w: "macs_work env"
    and k: "take (hmac_digest_len t) key = take (hmac_digest_len t) (decryptMAC d)" and t: "t \<noteq> SSH_HMAC_NONE"
  shows "ssh_packet_hmac_verify env r D (mac_for env key t (recv_seq r) D @ rest) t = SSH_OK"
proof -
  let ?m = "mac_for env key t (recv_seq r) D"
  have "mac_of env (decryptMAC d) t [be_bytes 4 (recv_seq r), D] = Some ?m"
    using mac_for_works(2) [OF w t, of key "recv_seq r" D] k by (simp only: mac_of_def)
  moreover have "\<not> secure_memcmp (?m @ rest) ?m (length ?m)" by (simp add: secure_memcmp_iff)
  ultimately show ?thesis using d w
    by (simp add: ssh_packet_hmac_verify_def macs_work_def del: be_bytes.simps)
qed

section \<open>The receiver\<close>

text \<open>The first two parts have taken a packet of \<open>n\<close> bytes and put \<open>D\<close> into the buffer.\<close>

definition taken :: "'k packet_env \<Rightarrow> 'k ssh_session \<Rightarrow> byte list \<Rightarrow> nat \<Rightarrow> byte list \<Rightarrow> 'k ssh_session \<Rightarrow> bool" where
  "taken env r dat n D u \<longleftrightarrow>
     and_then (read_size env (recv_params r) r dat) (\<lambda>_ t. read_body env (recv_params r) t dat) = Go (of_nat n) u \<and>
     (\<exists>b. in_buffer u = Some b \<and> buffer_ok b \<and> contents b = D) \<and> recv_seq u = recv_seq r \<and> session_state u = session_state r"

lemma current_in_upd [simp]:
  "ssh_packet_get_current_crypto (Some (with_in s b)) d = ssh_packet_get_current_crypto (Some s) d"
  by simp

lemma take_plain:
  assumes none: "ssh_packet_get_current_crypto (Some r) SSH_DIRECTION_IN = None"
    and env: "mem env" and old: "\<forall>b\<in>set_option (in_buffer r). buffer_ok b"
    and len: "be_word (take 4 X) = (len :: u32)" "unat len + 4 = length X" "8 \<le> length X" "length X < 16384"
    and dat: "length (X @ rest) < 2 ^ 32"
  shows "\<exists>u. taken env r (X @ rest) (length X) X u \<and> ssh_packet_get_current_crypto (Some u) SSH_DIRECTION_IN = None"
proof -
  let ?p = "recv_params r" and ?dat = "X @ rest"
  let ?r = "r\<lparr>in_packet := \<lparr>valid = False, plen = 0, ptype = 0\<rparr>\<rparr>"
  have p: "?p = \<lparr>keyed = False, macsize = 0, lenfield = 8, etm = False, etm_offset = 0\<rparr>"
    by (simp add: recv_params_def none)
  have n: "ssh_packet_get_current_crypto (Some ?r) SSH_DIRECTION_IN = None" using none by simp
  have "unat (of_nat (length ?dat) :: u32) = length ?dat" using dat by (simp only: unat_of_nat take_bit_nat_eq_self_iff) simp
  then have ge: "lenfield ?p \<le> of_nat (length ?dat)" using len(3) by (simp add: p word_le_nat_alt)
  have dec: "ssh_packet_decrypt_len (with_in ?r b) ?dat = (len, take 8 ?dat, with_in ?r b)" for b
    using n len by (simp add: ssh_packet_decrypt_len_def min_def)
  have p': "\<not> etm ?p" "etm_offset ?p = 0" "length (take 8 ?dat) = unat (lenfield ?p)" "unat (lenfield ?p) < 16384"
    "unat (lenfield ?p) \<le> unat len + 4" "unat len + 4 < 16384" "unat len \<le> 262144"
    using len by (simp_all add: p)
  from read_size_ok [OF env old p'(1,2) ge dec p'(3,4,7,5)] obtain b where
    b: "buffer_ok b" "contents b = take 8 ?dat" "read_size env ?p r ?dat = Go (lenfield ?p)
      ((with_in ?r b)\<lparr>in_packet := (in_packet ?r)\<lparr>plen := len\<rparr>, packet_state := PACKET_STATE_SIZEREAD\<rparr>)" by blast
  let ?t = "(with_in ?r b)\<lparr>in_packet := (in_packet ?r)\<lparr>plen := len\<rparr>, packet_state := PACKET_STATE_SIZEREAD\<rparr>"
  have t: "in_buffer ?t = Some b" "plen (in_packet ?t) = len" by (simp_all add: with_in_def)
  have q: "unat (lenfield ?p + etm_offset ?p) = 8" "(4 :: nat) \<le> 8" "8 \<le> unat len + 4" "unat (macsize ?p) \<le> 64"
    "length (take 8 ?dat) + (unat len + 4 - 8) < 16384" "unat len + 4 + unat (macsize ?p) \<le> length ?dat"
    using len by (simp_all add: p)
  from read_body_ok [OF env t(1) b(1,2) t(2) q(1-3,5) p'(6) q(4,6) dat] obtain b' off where
    put: "\<And>bs. length bs = unat len + 4 - 8 \<Longrightarrow> buffer_ok (b'\<lparr>data := write_at off bs (data b')\<rparr>) \<and>
       contents (b'\<lparr>data := write_at off bs (data b')\<rparr>) = take 8 ?dat @ bs"
    and body: "read_body env ?p ?t ?dat = open_packet env ?p (with_in ?t b') ?dat (len + 4) off (of_nat (unat len + 4 - 8))"
    by blast
  let ?bs = "drop 8 X"
  let ?u = "with_in ?t (b'\<lparr>data := write_at off ?bs (data b')\<rparr>)"
  have ub: "unat (of_nat (unat len + 4 - 8) :: u32) = unat len + 4 - 8" by (rule small_nat) (use len in simp)
  have "take (unat (of_nat (unat len + 4 - 8) :: u32)) (drop 8 ?dat) = ?bs"
    unfolding ub using len by simp
  moreover have "len + 4 = of_nat (length X)" using len(2) by (metis of_nat_add of_nat_numeral of_nat_unat ucast_id)
  ultimately have "read_body env ?p ?t ?dat = Go (of_nat (length X)) ?u"
    using body n by (simp add: open_packet_def p)
  moreover have "buffer_ok (b'\<lparr>data := write_at off ?bs (data b')\<rparr>)" "contents (b'\<lparr>data := write_at off ?bs (data b')\<rparr>) = X"
    using put [of ?bs] len by (auto simp: take_append)
  ultimately have "taken env r ?dat (length X) X ?u" using b(3) by (simp add: taken_def)
  moreover have "ssh_packet_get_current_crypto (Some ?u) SSH_DIRECTION_IN = None" using n by simp
  ultimately show ?thesis by blast
qed

lemma decrypt_blocks:
  assumes "ssh_packet_get_current_crypto (Some s) SSH_DIRECTION_IN = Some d" "in_cipher d = Some y"
    and "aead_decrypt y = None" "0 < n" "n mod unat (blocksize y) = 0"
  shows "ssh_packet_decrypt s src start n =
    (0, fst (decrypt y (kctx y) (take n (drop start src))), set_in_ctx (snd (decrypt y (kctx y) (take n (drop start src)))) s)"
  using assms by (simp add: ssh_packet_decrypt_def Let_def split: prod.splits)

lemma set_in_ctx_with_in: "set_in_ctx k (with_in s b) = with_in (set_in_ctx k s) b"
  by (simp add: set_in_ctx_def with_crypto_def with_in_def)

text \<open>A cipher that works block by block, for the receiver.\<close>

definition block_wise :: "nat \<Rightarrow> ('k \<Rightarrow> byte list \<Rightarrow> byte list \<times> 'k) \<Rightarrow> bool" where
  "block_wise n dec \<longleftrightarrow>
     (\<forall>kd xs ys. n dvd length xs \<longrightarrow>
        dec kd (xs @ ys) = (fst (dec kd xs) @ fst (dec (snd (dec kd xs)) ys), snd (dec (snd (dec kd xs)) ys))) \<and>
     (\<forall>kd xs. n dvd length xs \<longrightarrow> length (fst (dec kd xs)) = length xs) \<and> (\<forall>kd. dec kd [] = ([], kd))"

lemma block_wise_split:
  assumes "block_wise n dec" and "dec k Y = (X, k')" and "n dvd m" "m \<le> length Y"
  shows "fst (dec k (take m Y)) = take m X" "fst (dec (snd (dec k (take m Y))) (drop m Y)) = drop m X"
    "snd (dec (snd (dec k (take m Y))) (drop m Y)) = k'"
proof -
  have d: "n dvd length (take m Y)" using assms(3,4) by (simp add: min_def)
  then have l: "length (fst (dec k (take m Y))) = m" using assms(1,4) by (simp add: block_wise_def)
  have "dec k (take m Y @ drop m Y) = (fst (dec k (take m Y)) @ fst (dec (snd (dec k (take m Y))) (drop m Y)),
      snd (dec (snd (dec k (take m Y))) (drop m Y)))"
    using assms(1) d unfolding block_wise_def by blast
  then have e: "X = fst (dec k (take m Y)) @ fst (dec (snd (dec k (take m Y))) (drop m Y))"
    "k' = snd (dec (snd (dec k (take m Y))) (drop m Y))" using assms(2) by simp_all
  then show "fst (dec k (take m Y)) = take m X" "fst (dec (snd (dec k (take m Y))) (drop m Y)) = drop m X"
    "snd (dec (snd (dec k (take m Y))) (drop m Y)) = k'" using l by simp_all
qed

definition rekeyed :: "'k \<Rightarrow> 'k ssh_crypto \<Rightarrow> 'k ssh_crypto" where
  "rekeyed k d = d\<lparr>in_cipher := map_option (\<lambda>y. y\<lparr>kctx := k\<rparr>) (in_cipher d)\<rparr>"

lemma rekeyed_rekeyed [simp]: "rekeyed k (rekeyed k' d) = rekeyed k d"
  by (cases "in_cipher d") (simp_all add: rekeyed_def)

lemma take_em:
  assumes d: "ssh_packet_get_current_crypto (Some r) SSH_DIRECTION_IN = Some d" and y: "in_cipher d = Some y"
    and aead: "aead_decrypt y = None" "aead_decrypt_length y = None" "lenfield_blocksize y = 0" "\<not> in_hmac_etm d"
    and bs: "unat (blocksize y) = B" "8 \<le> B" "B \<le> 64" and bw: "block_wise B (decrypt y)"
    and dec: "decrypt y (kctx y) Y = (X, k')" and lY: "length Y = length X" and dvd: "B dvd length X"
    and env: "mem env" "macs_work env" and old: "\<forall>b\<in>set_option (in_buffer r). buffer_ok b"
    and key: "take (hmac_digest_len (in_hmac d)) key = take (hmac_digest_len (in_hmac d)) (decryptMAC d)"
    and len: "be_word (take 4 X) = (len :: u32)" "unat len + 4 = length X" "0 < length X" "length X < 16384"
    and W: "W = Y @ mac_for env key (in_hmac d) (recv_seq r) X" and dat: "length (W @ rest) < 2 ^ 32"
  shows "\<exists>u. taken env r (W @ rest) (length W) X u \<and> ssh_packet_get_current_crypto (Some u) SSH_DIRECTION_IN = Some (rekeyed k' d)"
proof -
  let ?p = "recv_params r" and ?dat = "W @ rest" and ?dl = "hmac_digest_len (in_hmac d)"
  let ?r = "r\<lparr>in_packet := \<lparr>valid = False, plen = 0, ptype = 0\<rparr>\<rparr>"
  let ?mac = "mac_for env key (in_hmac d) (recv_seq r) X"
  define k1 where "k1 = snd (decrypt y (kctx y) (take B Y))"
  have dl: "?dl \<le> 64" by (cases "in_hmac d") (simp_all add: hmac_digest_len_def)
  have ms: "unat (of_nat ?dl :: u32) = ?dl" using dl by (simp add: small_nat)
  have p: "?p = \<lparr>keyed = True, macsize = of_nat ?dl, lenfield = blocksize y, etm = False, etm_offset = 0\<rparr>"
    using d y aead by (simp add: recv_params_def Let_def)
  have BX: "B \<le> length X" using dvd len(3) by (rule dvd_imp_le)
  have ld: "length ?dat = length X + ?dl + length rest" using lY mac_for_works(1) [OF env(2)] by (simp add: W)
  note split = block_wise_split [OF bw dec dvd_refl, unfolded lY, OF BX]
  have tk: "take B ?dat = take B Y" using BX lY by (simp add: W)
  have "unat (of_nat (length ?dat) :: u32) = length ?dat" using dat by (simp only: unat_of_nat take_bit_nat_eq_self_iff) simp
  then have ge: "lenfield ?p \<le> of_nat (length ?dat)" using ld BX bs by (simp add: p word_le_nat_alt)
  have d': "ssh_packet_get_current_crypto (Some (with_in ?r b)) SSH_DIRECTION_IN = Some d" for b using d by simp
  have B0: "0 < unat (blocksize y)" "unat (blocksize y) mod unat (blocksize y) = 0" using bs by simp_all
  have dec_len: "ssh_packet_decrypt_len (with_in ?r b) ?dat = (len, take B X, with_in (set_in_ctx k1 ?r) b)" for b
    using decrypt_blocks [OF d' y aead(1) B0, of b ?dat 0] d' [of b] y aead(2) split(1) bs tk len(1)
    by (simp add: ssh_packet_decrypt_len_def k1_def set_in_ctx_with_in min_def)
  have p': "\<not> etm ?p" "etm_offset ?p = 0" "length (take B X) = unat (lenfield ?p)" "unat (lenfield ?p) < 16384"
    "unat (lenfield ?p) \<le> unat len + 4" "unat len + 4 < 16384" "unat len \<le> 262144"
    using len bs BX by (simp_all add: p)
  from read_size_ok [OF env(1) old p'(1,2) ge dec_len p'(3,4,7,5)] obtain b where
    b: "buffer_ok b" "contents b = take B X" "read_size env ?p r ?dat = Go (lenfield ?p)
      ((with_in (set_in_ctx k1 ?r) b)\<lparr>in_packet := (in_packet (set_in_ctx k1 ?r))\<lparr>plen := len\<rparr>,
         packet_state := PACKET_STATE_SIZEREAD\<rparr>)" by blast
  let ?t = "(with_in (set_in_ctx k1 ?r) b)\<lparr>in_packet := (in_packet (set_in_ctx k1 ?r))\<lparr>plen := len\<rparr>,
    packet_state := PACKET_STATE_SIZEREAD\<rparr>"
  have t: "in_buffer ?t = Some b" "plen (in_packet ?t) = len" by (simp_all add: with_in_def)
  have q: "unat (lenfield ?p + etm_offset ?p) = B" "4 \<le> B" "B \<le> unat len + 4" "unat (macsize ?p) \<le> 64"
    "length (take B X) + (unat len + 4 - B) < 16384" "unat len + 4 + unat (macsize ?p) \<le> length ?dat"
    using len bs BX ms dl ld by (simp_all add: p)
  from read_body_ok [OF env(1) t(1) b(1,2) t(2) q(1-3,5) p'(6) q(4,6) dat] obtain b' off where
    put: "\<And>bs. length bs = unat len + 4 - B \<Longrightarrow> buffer_ok (b'\<lparr>data := write_at off bs (data b')\<rparr>) \<and>
       contents (b'\<lparr>data := write_at off bs (data b')\<rparr>) = take B X @ bs"
    and body: "read_body env ?p ?t ?dat = open_packet env ?p (with_in ?t b') ?dat (len + 4) off (of_nat (unat len + 4 - B))"
    by blast
  let ?s = "with_in ?t b'" and ?w = "of_nat (unat len + 4 - B) :: u32"
  have uw: "unat ?w = length X - B" using small_nat [of "unat len + 4 - B"] len by simp
  have l4: "unat (len + 4) = length X" using len by (subst unat_add_no_wrap) auto
  have sz: "unat (len + 4 - blocksize y) = length X - B" using l4 bs BX by (simp add: unat_sub word_le_nat_alt)
  have sw: "unat (blocksize y + ?w) = length X" using uw bs BX len by (subst unat_add_no_wrap) auto
  have cs: "ssh_packet_get_current_crypto (Some ?s) SSH_DIRECTION_IN = Some (rekeyed k1 d)"
    using current_set_in_ctx [of ?r d k1] d by (simp add: rekeyed_def)
  have yk: "in_cipher (rekeyed k1 d) = Some (y\<lparr>kctx := k1\<rparr>)" using y by (simp add: rekeyed_def)
  obtain s1 where s1: "(if 0 < ?w then ssh_packet_decrypt ?s ?dat (unat (blocksize y)) (unat (len + 4 - blocksize y))
      else (0, [], ?s)) = (0, drop B X, s1)" "ssh_packet_get_current_crypto (Some s1) SSH_DIRECTION_IN = Some (rekeyed k' d)"
    "in_buffer s1 = Some b'" "recv_seq s1 = recv_seq r" "session_state s1 = session_state r"
  proof (cases "length X = B")
    case True
    then have "?w = 0" using len by simp
    moreover have "k' = k1" using dec True lY by (simp add: k1_def)
    ultimately show ?thesis using that [of ?s] True cs by (simp add: with_in_def)
  next
    case False
    then have pos: "0 < length X - B" using BX by simp
    then have w: "0 < ?w" using uw by (simp add: word_gt_0_no word_less_nat_alt del: of_nat_add of_nat_diff)
    have md: "(length X - B) mod unat (blocksize (y\<lparr>kctx := k1\<rparr>)) = 0" using dvd bs(1) BX by (simp add: dvd_diff_nat)
    have tk2: "take (length X - B) (drop B ?dat) = drop B Y" using lY BX by (simp add: W)
    have "ssh_packet_decrypt ?s ?dat B (length X - B) = (0, drop B X, set_in_ctx k' ?s)"
      using decrypt_blocks [OF cs yk _ pos md, of ?dat B] aead(1) split(2,3) tk2 by (simp add: k1_def)
    then show ?thesis
      using that [of "set_in_ctx k' ?s"] w bs(1) sz current_set_in_ctx [OF cs, of k']
      by (simp add: rekeyed_def [symmetric] set_in_ctx_with_in del: of_nat_add of_nat_diff)
  qed
  let ?b = "b'\<lparr>data := write_at off (drop B X) (data b')\<rparr>"
  let ?u = "with_in s1 ?b"
  have ub: "buffer_ok ?b" "contents ?b = X" using put [of "drop B X"] len BX by auto
  have vd: "\<not> (in_hmac d \<noteq> SSH_HMAC_NONE \<and> ssh_packet_hmac_verify env ?u X (?mac @ rest) (in_hmac d) < 0)"
    using verify_ok [of ?u "rekeyed k' d" env "in_hmac d" key X rest] s1(2,4) env(2) key by (auto simp: rekeyed_def)
  have dm: "drop (length X) ?dat = ?mac @ rest" using lY by (simp add: W)
  have n: "len + 4 + of_nat ?dl = of_nat (length W)"
    using l4 mac_for_works(1) [OF env(2)] lY
    by (simp add: W) (metis of_nat_unat ucast_id)
  have "open_packet env ?p ?s ?dat (len + 4) off ?w = Go (of_nat (length W)) ?u"
    using cs s1(1,3) vd dm sw get_contents(1) [OF ub(1)] ub(2) n
    by (auto simp: open_packet_def Let_def p rekeyed_def simp del: of_nat_add of_nat_diff)
  then have "taken env r ?dat (length W) X ?u" using b(3) body ub s1(4,5) by (simp add: taken_def)
  then show ?thesis using s1(2) by auto
qed

lemma take_etm:
  assumes d: "ssh_packet_get_current_crypto (Some r) SSH_DIRECTION_IN = Some d" and y: "in_cipher d = Some y"
    and aead: "aead_decrypt y = None" "in_hmac_etm d" "in_hmac d \<noteq> SSH_HMAC_NONE"
    and bs: "unat (blocksize y) = B" and dec: "decrypt y (kctx y) C = (P, k')" and lC: "length C = length P"
    and dvd: "B dvd length P"
    and env: "mem env" "macs_work env" and old: "\<forall>b\<in>set_option (in_buffer r). buffer_ok b"
    and key: "take (hmac_digest_len (in_hmac d)) key = take (hmac_digest_len (in_hmac d)) (decryptMAC d)"
    and len: "unat (len :: u32) = length P" "4 \<le> length P" "length P + 4 < 16384"
    and W: "W = be_bytes 4 len @ C @ mac_for env key (in_hmac d) (recv_seq r) (be_bytes 4 len @ C)"
    and dat: "length (W @ rest) < 2 ^ 32"
  shows "\<exists>u. taken env r (W @ rest) (length W) P u \<and> ssh_packet_get_current_crypto (Some u) SSH_DIRECTION_IN = Some (rekeyed k' d)"
proof -
  let ?p = "recv_params r" and ?dat = "W @ rest" and ?dl = "hmac_digest_len (in_hmac d)"
  let ?r = "r\<lparr>in_packet := \<lparr>valid = False, plen = 0, ptype = 0\<rparr>\<rparr>"
  let ?lf = "be_bytes 4 len" let ?mac = "mac_for env key (in_hmac d) (recv_seq r) (?lf @ C)"
  have dl: "?dl \<le> 64" by (cases "in_hmac d") (simp_all add: hmac_digest_len_def)
  have ms: "unat (of_nat ?dl :: u32) = ?dl" using dl by (simp add: small_nat)
  have p: "?p = \<lparr>keyed = True, macsize = of_nat ?dl, lenfield = 0, etm = True, etm_offset = 4\<rparr>"
    using d y aead by (simp add: recv_params_def Let_def)
  have ld: "length ?dat = 4 + length P + ?dl + length rest"
    using lC mac_for_works(1) [OF env(2)] by (simp add: W del: be_bytes.simps)
  have "unat (of_nat (length ?dat) :: u32) = length ?dat" using dat by (simp only: unat_of_nat take_bit_nat_eq_self_iff) simp
  then have ge: "\<not> (of_nat (length ?dat) :: u32) < 4" using ld by (simp add: word_less_nat_alt)
  have lf: "be_word (take 4 ?dat) = len" using be_word_bytes [of 4 len] by (simp add: W del: be_bytes.simps)
  obtain b where b: "fresh_in env ?r = Some (with_in ?r b)" "buffer_ok b" "contents b = []"
    using fresh_in_ok [OF env(1), of ?r] old by auto
  have "unat (len - 4) = length P - 4" using len(1,2) by (simp add: unat_sub word_le_nat_alt)
  then have nn: "\<not> sint (len - 4) < 0" using len(3) by (intro sint_small) simp
  have mx: "\<not> MAX_PACKET_LEN < len" using len by (simp add: MAX_PACKET_LEN_def word_less_nat_alt)
  let ?t = "(with_in ?r b)\<lparr>in_packet := (in_packet ?r)\<lparr>plen := len\<rparr>, packet_state := PACKET_STATE_SIZEREAD\<rparr>"
  have size: "read_size env ?p r ?dat = Go 4 ?t"
    using ge b(1) nn mx lf by (simp add: read_size_def Let_def p)
  have t: "in_buffer ?t = Some b" "plen (in_packet ?t) = len" by (simp_all add: with_in_def)
  have q: "unat (lenfield ?p + etm_offset ?p) = 4" "(4 :: nat) \<le> 4" "4 \<le> unat len + 4" "unat (macsize ?p) \<le> 64"
    "length ([] :: byte list) + (unat len + 4 - 4) < 16384" "unat len + 4 < 16384"
    "unat len + 4 + unat (macsize ?p) \<le> length ?dat"
    using len ms dl ld by (simp_all add: p)
  from read_body_ok [OF env(1) t(1) b(2,3) t(2) q(1-3,5,6,4,7) dat] obtain b' off where
    put: "\<And>bs. length bs = unat len + 4 - 4 \<Longrightarrow> buffer_ok (b'\<lparr>data := write_at off bs (data b')\<rparr>) \<and>
       contents (b'\<lparr>data := write_at off bs (data b')\<rparr>) = [] @ bs"
    and body: "read_body env ?p ?t ?dat = open_packet env ?p (with_in ?t b') ?dat (len + 4) off (of_nat (unat len + 4 - 4))"
    by blast
  let ?s = "with_in ?t b'"
  have w: "of_nat (unat len + 4 - 4) = len" by simp
  have l4: "unat (len + 4) = 4 + length P" using len by (subst unat_add_no_wrap) auto
  have cs: "ssh_packet_get_current_crypto (Some ?s) SSH_DIRECTION_IN = Some d" using d by simp
  have tk: "take (unat (len + 4)) ?dat = ?lf @ C" "take (length P) (drop 4 ?dat) = C" "drop (unat (4 + len)) ?dat = ?mac @ rest"
    using l4 lC by (simp_all add: W add.commute [of 4 len] del: be_bytes.simps)
  have vd: "\<not> ssh_packet_hmac_verify env ?s (?lf @ C) (?mac @ rest) (in_hmac d) < 0"
    using verify_ok [OF cs env(2) key aead(3), of "?lf @ C" rest] by (simp add: with_in_def del: be_bytes.simps)
  have pos: "0 < length P" and md: "length P mod unat (blocksize y) = 0" using len dvd bs by auto
  have ds: "ssh_packet_decrypt ?s ?dat 4 (length P) = (0, P, set_in_ctx k' ?s)"
    using decrypt_blocks [OF cs y aead(1) pos md, of ?dat 4] tk(2) dec by simp
  let ?b = "b'\<lparr>data := write_at off P (data b')\<rparr>"
  let ?u = "with_in (set_in_ctx k' ?s) ?b"
  have ub: "buffer_ok ?b" "contents ?b = P" using put [of P] len(1) by auto
  have n: "len + 4 + of_nat ?dl = of_nat (length W)"
    using l4 lC mac_for_works(1) [OF env(2)]
    by (simp add: W len(1) [symmetric] add.commute [of 4] del: be_bytes.simps)
  have lpos: "0 < len" "unat (len + 4 - 4) = length P" using len pos by (simp_all add: word_less_nat_alt)
  have "open_packet env ?p ?s ?dat (len + 4) off len = Go (of_nat (length W)) ?u"
    using cs ds vd tk n lpos aead(2,3) ub len(1)
    by (auto simp: open_packet_def Let_def p set_in_ctx_with_in simp del: be_bytes.simps)
  then have "taken env r ?dat (length W) P ?u" using body size ub w by (simp add: taken_def)
  moreover have "ssh_packet_get_current_crypto (Some ?u) SSH_DIRECTION_IN = Some (rekeyed k' d)"
    using current_set_in_ctx [OF cs, of k'] by (simp add: rekeyed_def)
  ultimately show ?thesis by blast
qed

text \<open>The remaining parts: the payload is left in the buffer, and the packet is counted.\<close>

definition counted :: "u32 \<Rightarrow> 'k ssh_crypto \<Rightarrow> 'k ssh_crypto" where
  "counted n d = d\<lparr>in_cipher := map_option (\<lambda>x. x\<lparr>packets := packets x + 1,
     blocks := blocks x + ucast (n div blocksize x)\<rparr>) (in_cipher d)\<rparr>"

lemma receive_ok:
  assumes taken: "taken env r dat n D u"
    and D: "D = (if etm (recv_params r) then [] else lf) @ pad # payload @ padding"
    and len: "length lf = 4" "length padding = unat pad"
    and r: "packet_state r = PACKET_STATE_INIT" "session_state r \<noteq> SSH_SESSION_STATE_ERROR" "recv_seq r \<noteq> 0xFFFFFFFF"
    and nc: "\<And>c. ssh_packet_get_current_crypto (Some u) SSH_DIRECTION_IN = Some c \<Longrightarrow> \<not> do_compress_in c"
    and k: "keyed (recv_params r) = (ssh_packet_get_current_crypto (Some u) SSH_DIRECTION_IN \<noteq> None)"
  shows "\<exists>v b m. receive env (recv_params r) r (Some dat) = Go (of_nat n) v \<and> in_buffer v = Some b \<and> buffer_ok b \<and>
    contents b = payload \<and> recv_seq v = recv_seq r + 1 \<and> session_state v = session_state r \<and>
    ssh_packet_get_current_crypto (Some v) SSH_DIRECTION_IN =
      map_option (counted m) (ssh_packet_get_current_crypto (Some u) SSH_DIRECTION_IN)"
proof -
  let ?p = "recv_params r"
  from taken obtain b where t: "and_then (read_size env ?p r dat) (\<lambda>_ t. read_body env ?p t dat) = Go (of_nat n) u"
    and b: "in_buffer u = Some b" "buffer_ok b" "contents b = D" and seq: "recv_seq u = recv_seq r" and st: "session_state u = session_state r"
    by (auto simp: taken_def)
  from strip_ok [OF b(2,1) b(3) [unfolded D] len nc] obtain b' where
    b': "buffer_ok b'" "contents b' = payload" "strip_packet env ?p (of_nat n) u = Go (of_nat n) (with_in u b')" by blast
  let ?m = "ssh_buffer_get_len b'"
  let ?s = "(with_in u b')\<lparr>recv_seq := recv_seq r + 1\<rparr>"
  let ?s2 = "if keyed ?p then with_crypto SSH_DIRECTION_IN (counted ?m) ?s else ?s"
  let ?v = "?s2\<lparr>raw_counter := map_option (\<lambda>x. x\<lparr>in_bytes := in_bytes x + ucast ?m, in_packets := in_packets x + 1\<rparr>) (raw_counter ?s2)\<rparr>"
  have "packet_received ?p (of_nat n) (with_in u b') = Go (of_nat n) ?v"
    using r(3) seq by (simp add: packet_received_def Let_def counted_def [abs_def])
  then have "receive env ?p r (Some dat) = Go (of_nat n) ?v"
    using t b'(3) r(1,2) by (simp add: receive_def)
  moreover have "ssh_packet_get_current_crypto (Some ?v) SSH_DIRECTION_IN =
      map_option (counted ?m) (ssh_packet_get_current_crypto (Some u) SSH_DIRECTION_IN)"
  proof (cases "ssh_packet_get_current_crypto (Some u) SSH_DIRECTION_IN")
    case None
    with k show ?thesis by simp
  next
    case (Some c)
    then have "ssh_packet_get_current_crypto (Some ?s) SSH_DIRECTION_IN = Some c" by simp
    from current_with_crypto [OF this, where f = "counted ?m"] Some k show ?thesis by (simp add: counted_def)
  qed
  moreover have "in_buffer ?v = Some b'" "recv_seq ?v = recv_seq r + 1" "session_state ?v = session_state r"
    using st by (simp_all add: with_in_def)
  ultimately show ?thesis using b'(1,2) by blast
qed

lemma framed_split:
  "take 4 (framed s payload padding) =
     be_bytes 4 (of_nat (length payload) - snd (snd (out_format s)) + ucast (pad_of s payload) + 1 :: u32)"
  "drop 4 (framed s payload padding) = pad_of s payload # payload @ padding"
  by (simp_all add: framed_def del: be_bytes.simps)

section \<open>A packet arrives as it was sent\<close>

definition delivered :: "'k packet_env \<Rightarrow> ('k \<Rightarrow> 'k \<Rightarrow> bool) \<Rightarrow> 'k ssh_session \<Rightarrow> 'k ssh_session \<Rightarrow> byte list \<Rightarrow> bool" where
  "delivered env R s r payload \<longleftrightarrow>
     (\<exists>t w. packet_send2 env s = (SSH_OK, t) \<and> wire t = wire s @ [w] \<and>
        length w < 16384 \<and> out_queue t = out_queue s \<and> dh_handshake_state t = dh_handshake_state s \<and>
        buffer_ok (out_buffer t) \<and> contents (out_buffer t) = [] \<and>
        (\<forall>rest. length (w @ rest) < 2 ^ 32 \<longrightarrow>
           (\<exists>u b. receive env (recv_params r) r (Some (w @ rest)) = Go (of_nat (length w)) u \<and>
              in_buffer u = Some b \<and> buffer_ok b \<and> contents b = payload \<and>
              recv_seq u = recv_seq r + 1 \<and> session_state u = session_state r \<and> in_step R t u)))"

text \<open>A receiver that waits for a packet.\<close>

definition waiting :: "'k ssh_session \<Rightarrow> bool" where
  "waiting r \<longleftrightarrow> packet_state r = PACKET_STATE_INIT \<and> session_state r \<noteq> SSH_SESSION_STATE_ERROR \<and>
     (\<forall>b\<in>set_option (in_buffer r). buffer_ok b) \<and> recv_seq r \<noteq> 0xFFFFFFFF"

lemma final_len:
  assumes "length payload < 16000" and l: "length X = 5 + length payload + unat (pad :: byte)" and "\<not> 300 < unat pad"
  shows "unat (of_nat (length payload) + ucast pad + 1 :: u32) + 4 = length X"
    "(of_nat (length X) :: u32) = of_nat (length payload) + 5 + ucast pad"
proof -
  have "of_nat (length payload) + ucast pad + 1 = (of_nat (length payload + unat pad + 1) :: u32)" by simp
  moreover have "unat (of_nat (length payload + unat pad + 1) :: u32) = length payload + unat pad + 1"
    by (rule small_nat) (use assms in simp)
  ultimately show "unat (of_nat (length payload) + ucast pad + 1 :: u32) + 4 = length X" using l by (simp only:)
  show "(of_nat (length X) :: u32) = of_nat (length payload) + 5 + ucast pad" by (simp add: l)
qed

lemma byte_small: "\<not> 300 < unat (x :: byte)"
  using unat_less_size [of x] by simp

lemma dvd_of_mod:
  assumes "(of_nat n :: u32) mod b = 0" and "n < 16384"
  shows "unat b dvd n"
proof -
  have "unat ((of_nat n :: u32) mod b) = 0" by (simp only: assms(1)) simp
  then show ?thesis by (simp add: unat_mod small_nat [OF assms(2)] mod_eq_0_iff_dvd)
qed

lemma roundtrip_plain:
  assumes none: "ssh_packet_get_current_crypto (Some s) SSH_DIRECTION_OUT = None" "ssh_packet_get_current_crypto (Some r) SSH_DIRECTION_IN = None"
    and seq: "send_seq s = recv_seq r" and ready: "sendable env s payload" "hd payload \<noteq> 21" "length payload < 16000"
    and sock: "\<And>t. sock_ok env t" and r: "waiting r"
  shows "delivered env R s r payload"
proof -
  let ?pad = "pad_of s payload" and ?padding = "replicate (unat (pad_of s payload)) (0 :: byte)"
  let ?X = "framed s payload ?padding"
  have m: "mem env" and ne: "payload \<noteq> []" using ready(1) by (simp_all add: sendable_def)
  have fmt: "out_format s = (8, 0, 0)" by (simp add: out_format_def none)
  have pad4: "4 \<le> ?pad"
    using padding_ok [of 8 3 0 0 "of_nat (length payload)"] by (simp add: pad_of_def fmt)
  have lX: "length ?X = 5 + length payload + unat ?pad" by (simp add: length_framed)
  have small: "length ?X < 16384" using ready(1) lX by (simp add: sendable_def)
  from send2_frames [OF ready(1), of ?padding] obtain b where b: "buffer_ok b" "contents b = ?X"
    and send: "packet_send2 env s = send_framed env (s\<lparr>out_buffer := b\<rparr>) (out_keyed s) (out_mac_type s) (of_nat (length payload)) (hd payload)"
    by (auto simp: padding_bytes_def none)
  let ?s = "s\<lparr>out_buffer := b\<rparr>"
  have enc: "ssh_packet_encrypt env ?s ?X = (None, ?X, ?s)" by (simp add: ssh_packet_encrypt_def none)
  have "length ?X + length ([] :: byte list) < 16384" using small by simp
  from send_framed_ok [where s = ?s and k = "out_keyed s" and ht = "out_mac_type s" and n = "of_nat (length payload)", OF _ _ enc _ _ _ this m sock ready(2)] b
  obtain b2 where b2: "buffer_ok b2" "contents b2 = []" and sf: "send_framed env ?s (out_keyed s) (out_mac_type s) (of_nat (length payload)) (hd payload) =
      (0, (packet_sent (out_keyed s) (of_nat (length payload)) (?s\<lparr>out_buffer := b2, wire := wire ?s @ [?X]\<rparr>))\<lparr>out_buffer := b2\<rparr>)"
    by (auto simp: split: option.splits)
  let ?t = "(packet_sent (out_keyed s) (of_nat (length payload)) (?s\<lparr>out_buffer := b2, wire := wire ?s @ [?X]\<rparr>))\<lparr>out_buffer := b2\<rparr>"
  have t: "ssh_packet_get_current_crypto (Some ?t) SSH_DIRECTION_OUT = None" "send_seq ?t = send_seq s + 1" "wire ?t = wire s @ [?X]"
    using none by (simp_all add: packet_sent_def out_keyed_def Let_def)
  note fl = final_len(1) [OF ready(3) lX byte_small]
  have head: "be_word (take 4 ?X) = (of_nat (length payload) + ucast ?pad + 1 :: u32)"
    by (simp add: framed_split fmt be_word_bytes del: be_bytes.simps)
  have "\<exists>u b. receive env (recv_params r) r (Some (?X @ rest)) = Go (of_nat (length ?X)) u \<and>
      in_buffer u = Some b \<and> buffer_ok b \<and> contents b = payload \<and>
      recv_seq u = recv_seq r + 1 \<and> session_state u = session_state r \<and> in_step R ?t u"
    if rest: "length (?X @ rest) < 2 ^ 32" for rest
  proof -
    have w: "\<forall>b\<in>set_option (in_buffer r). buffer_ok b" "packet_state r = PACKET_STATE_INIT"
      "session_state r \<noteq> SSH_SESSION_STATE_ERROR" "recv_seq r \<noteq> 0xFFFFFFFF" using r by (simp_all add: waiting_def)
    have "8 \<le> length ?X" using lX pad4 ne by (cases payload) (simp_all add: word_le_nat_alt)
    from take_plain [OF none(2) m w(1) head fl this small rest] obtain u where
      u: "taken env r (?X @ rest) (length ?X) ?X u" "ssh_packet_get_current_crypto (Some u) SSH_DIRECTION_IN = None" by blast
    have p: "recv_params r = \<lparr>keyed = False, macsize = 0, lenfield = 8, etm = False, etm_offset = 0\<rparr>"
      by (simp add: recv_params_def none)
    have D: "?X = (if etm (recv_params r) then [] else take 4 ?X) @ ?pad # payload @ ?padding"
      using append_take_drop_id [of 4 ?X] framed_split(2) [of s payload ?padding] by (simp add: p)
    have "length (take 4 ?X) = 4" using lX by simp
    from receive_ok [OF u(1) D this _ w(2-4)] u(2) p t(1,2) seq show ?thesis by (auto simp: in_step_def)
  qed
  with sf send t(3) small b2 show ?thesis by (auto simp: delivered_def)
qed

lemma in_step_after:
  assumes km: "keys_match R c d" and d: "ssh_packet_get_current_crypto (Some r) SSH_DIRECTION_IN = Some d"
    and t: "out_after k s c t" and R: "R k k'" and seq: "send_seq t = recv_seq v"
    and v: "ssh_packet_get_current_crypto (Some v) SSH_DIRECTION_IN = Some (counted m (rekeyed k' d))"
  shows "in_step R t v"
proof -
  obtain y where y: "in_cipher d = Some y" using get_crypto_in [OF d] by auto
  from t obtain x where x: "ssh_packet_get_current_crypto (Some t) SSH_DIRECTION_OUT = Some (c\<lparr>out_cipher := Some x\<rparr>)"
    "kctx x = k" "blocksize x = blocksize (the (out_cipher c))"
    "lenfield_blocksize x = lenfield_blocksize (the (out_cipher c))"
    "aead_encrypt x = aead_encrypt (the (out_cipher c))" "encrypt x = encrypt (the (out_cipher c))"
    by (auto simp: out_after_def)
  show ?thesis using km x R seq v y
    by (simp add: in_step_def keys_match_def counted_def rekeyed_def Let_def) auto
qed

lemma keyed_setup:
  assumes "random_works env" and "ssh_packet_get_current_crypto (Some s) SSH_DIRECTION_OUT = Some c"
  shows "\<exists>padding. padding_bytes env s payload = Some padding \<and> length padding = unat (pad_of s payload)"
  using assms by (auto simp: padding_bytes_def random_works_def)

text \<open>What holds of both ways to combine cipher and MAC: sealing and opening are what is left to show.\<close>

lemma keyed_delivery:
  fixes s payload padding
  defines "X \<equiv> framed s payload padding"
  assumes c: "ssh_packet_get_current_crypto (Some s) SSH_DIRECTION_OUT = Some c"
    and d: "ssh_packet_get_current_crypto (Some r) SSH_DIRECTION_IN = Some d"
    and km: "keys_match R c d"
    and seq: "send_seq s = recv_seq r" and ready: "sendable env s payload" "hd payload \<noteq> 21"
    and sock: "\<And>t. sock_ok env t" and r: "waiting r"
    and pd: "padding_bytes env s payload = Some padding" "length padding = unat (pad_of s payload)"
    and enc: "\<And>b. ssh_packet_encrypt env (s\<lparr>out_buffer := b\<rparr>) X = (Some tag, Y, set_out_ctx k (s\<lparr>out_buffer := b\<rparr>))"
    and len: "length Y = length X" "length tag = hmac_digest_len (in_hmac d)" "length X + length tag < 16384"
    and kd: "R k k'"
    and take: "\<And>rest. length ((Y @ tag) @ rest) < 2 ^ 32 \<Longrightarrow>
      \<exists>u. taken env r ((Y @ tag) @ rest) (length (Y @ tag)) (if in_hmac_etm d then drop 4 X else X) u \<and>
        ssh_packet_get_current_crypto (Some u) SSH_DIRECTION_IN = Some (rekeyed k' d)"
  shows "delivered env R s r payload"
proof -
  have f: "out_hmac c = in_hmac d" "\<not> do_compress_in d" using km by (simp_all add: keys_match_def Let_def)
  have m: "mem env" using ready(1) by (simp add: sendable_def)
  from send2_frames [OF ready(1) pd] obtain b where b: "buffer_ok b" "contents b = X"
    and send: "packet_send2 env s = send_framed env (s\<lparr>out_buffer := b\<rparr>) (out_keyed s) (out_mac_type s) (of_nat (length payload)) (hd payload)"
    by (auto simp: X_def)
  let ?s = "s\<lparr>out_buffer := b\<rparr>" and ?ht = "in_hmac d"
  have cs: "ssh_packet_get_current_crypto (Some ?s) SSH_DIRECTION_OUT = Some c" using c by simp
  have mode: "out_keyed s" "out_mac_type s = ?ht" by (simp_all add: out_keyed_def out_mac_type_def c f(1))
  from send_framed_ok [where s = ?s and k = True and ht = ?ht and n = "of_nat (length payload)", OF _ _ enc _ len(1) _ len(3) m sock ready(2)] b len(2)
  obtain b2 where b2: "buffer_ok b2" "contents b2 = []" and sf: "send_framed env ?s True ?ht (of_nat (length payload)) (hd payload) =
      (0, (packet_sent True (of_nat (length payload)) ((set_out_ctx k ?s)\<lparr>out_buffer := b2, wire := wire s @ [Y @ tag]\<rparr>))\<lparr>out_buffer := b2\<rparr>)"
    by auto
  let ?t = "(packet_sent True (of_nat (length payload)) ((set_out_ctx k ?s)\<lparr>out_buffer := b2, wire := wire s @ [Y @ tag]\<rparr>))\<lparr>out_buffer := b2\<rparr>"
  have t: "out_after k ?s c ?t" "send_seq ?t = recv_seq r + 1" "wire ?t = wire s @ [Y @ tag]"
    using out_after_sent [OF cs] seq by simp_all
  have "\<exists>u b. receive env (recv_params r) r (Some ((Y @ tag) @ rest)) = Go (of_nat (length (Y @ tag))) u \<and>
      in_buffer u = Some b \<and> buffer_ok b \<and> contents b = payload \<and>
      recv_seq u = recv_seq r + 1 \<and> session_state u = session_state r \<and> in_step R ?t u"
    if rest: "length ((Y @ tag) @ rest) < 2 ^ 32" for rest
  proof -
    have w: "packet_state r = PACKET_STATE_INIT" "session_state r \<noteq> SSH_SESSION_STATE_ERROR" "recv_seq r \<noteq> 0xFFFFFFFF"
      using r by (simp_all add: waiting_def)
    from take [OF rest] obtain u where
      u: "taken env r ((Y @ tag) @ rest) (length (Y @ tag)) (if in_hmac_etm d then drop 4 X else X) u"
      "ssh_packet_get_current_crypto (Some u) SSH_DIRECTION_IN = Some (rekeyed k' d)" by blast
    have p: "keyed (recv_params r)" "etm (recv_params r) = in_hmac_etm d" by (simp_all add: recv_params_def d Let_def)
    have D: "(if in_hmac_etm d then drop 4 X else X) =
        (if etm (recv_params r) then [] else take 4 X) @ pad_of s payload # payload @ padding"
      using append_take_drop_id [of 4 X] framed_split(2) [of s payload padding] p(2) by (simp add: X_def)
    have l4: "length (take 4 X) = 4" by (simp add: X_def length_framed)
    have nc: "\<And>e. ssh_packet_get_current_crypto (Some u) SSH_DIRECTION_IN = Some e \<Longrightarrow> \<not> do_compress_in e"
      and kk: "keyed (recv_params r) = (ssh_packet_get_current_crypto (Some u) SSH_DIRECTION_IN \<noteq> None)"
      using u(2) f(2) p(1) by (auto simp: rekeyed_def)
    from receive_ok [OF u(1) D l4 pd(2) w nc kk] obtain v b' mm where
      v: "receive env (recv_params r) r (Some ((Y @ tag) @ rest)) = Go (of_nat (length (Y @ tag))) v" "in_buffer v = Some b'"
        "buffer_ok b'" "contents b' = payload" "recv_seq v = recv_seq r + 1" "session_state v = session_state r"
        "ssh_packet_get_current_crypto (Some v) SSH_DIRECTION_IN =
          map_option (counted mm) (ssh_packet_get_current_crypto (Some u) SSH_DIRECTION_IN)" by blast
    have "in_step R ?t v" using in_step_after [OF km d t(1) kd] v(5,7) u(2) t(2) by simp
    with v show ?thesis by blast
  qed
  with sf send mode t(3) len(1,3) b2 show ?thesis unfolding delivered_def by (intro exI [of _ ?t] exI [of _ "Y @ tag"]) simp
qed

text \<open>The facts about two matching keys.\<close>

lemma keys_match_facts:
  assumes "keys_match R c d" and "out_cipher c = Some x" and "in_cipher d = Some y"
  shows "\<exists>k. 3 \<le> k \<and> k \<le> 6 \<and> blocksize x = 2 ^ k \<and> unat (blocksize x) = 2 ^ k"
    "blocksize y = blocksize x" "lenfield_blocksize x = 0" "lenfield_blocksize y = 0" "aead_encrypt x = None"
    "aead_decrypt y = None" "aead_decrypt_length y = None" "out_hmac c = in_hmac d" "out_hmac_etm c = in_hmac_etm d"
    "out_hmac_etm c \<Longrightarrow> in_hmac d \<noteq> SSH_HMAC_NONE"
    "take (hmac_digest_len (in_hmac d)) (encryptMAC c) = take (hmac_digest_len (in_hmac d)) (decryptMAC d)"
    "R (kctx x) (kctx y)" "cipher_pair R (unat (blocksize x)) (encrypt x) (decrypt y)"
    "block_wise (unat (blocksize x)) (decrypt y)"
  using assms by (auto simp: keys_match_def Let_def cipher_pair_def block_wise_def unat_pow2)

lemma tag_fits:
  assumes "length payload < 16000" "3 \<le> k" "k \<le> 6" and "unat pad \<le> 2 ^ k + 3"
  shows "5 + length payload + unat (pad :: byte) + hmac_digest_len t < 16384"
proof -
  have "(2 :: nat) ^ k \<le> 2 ^ 6" using assms(3) by (rule power_increasing) simp
  moreover have "hmac_digest_len t \<le> 64" by (cases t) (simp_all add: hmac_digest_len_def)
  ultimately show ?thesis using assms by simp
qed

lemma roundtrip_em:
  assumes c: "ssh_packet_get_current_crypto (Some s) SSH_DIRECTION_OUT = Some c"
    and d: "ssh_packet_get_current_crypto (Some r) SSH_DIRECTION_IN = Some d"
    and km: "keys_match R c d" and em: "\<not> out_hmac_etm c"
    and seq: "send_seq s = recv_seq r" and ready: "sendable env s payload" "hd payload \<noteq> 21" "length payload < 16000"
    and works: "macs_work env" "random_works env" and sock: "\<And>t. sock_ok env t" and r: "waiting r"
  shows "delivered env R s r payload"
proof -
  obtain x where x: "out_cipher c = Some x" using get_crypto_out [OF c] by auto
  obtain y where y: "in_cipher d = Some y" using get_crypto_in [OF d] by auto
  note f = keys_match_facts [OF km x y]
  define B where "B = unat (blocksize x)"
  obtain k where k: "3 \<le> k" "k \<le> 6" "blocksize x = 2 ^ k" and B: "B = 2 ^ k" using f(1) by (auto simp: B_def)
  have B8: "8 \<le> B" "B \<le> 64"
    using power_increasing [OF k(1), of "2 :: nat"] power_increasing [OF k(2), of "2 :: nat"] B by simp_all
  have m: "mem env" using ready(1) by (simp add: sendable_def)
  have fmt: "out_format s = (blocksize x, 0, 0)" using em f(3) by (simp add: out_format_def c x)
  obtain padding where pd: "padding_bytes env s payload = Some padding" "length padding = unat (pad_of s payload)"
    using keyed_setup [OF works(2) c] by blast
  let ?X = "framed s payload padding" and ?ht = "in_hmac d"
  have lX: "length ?X = 5 + length payload + unat (pad_of s payload)" by (simp add: length_framed pd(2))
  have small: "length ?X < 16384" using ready(1) lX by (simp add: sendable_def)
  note fl = final_len [OF ready(3) lX byte_small]
  note pw = padding_ok [OF k(3,1,2), of 0 0 "of_nat (length payload)"]
  have modX: "(of_nat (length ?X) :: u32) mod blocksize x = 0" using pw by (simp add: fl(2) pad_of_def fmt)
  then have dvd: "B dvd length ?X" unfolding B_def by (rule dvd_of_mod) (rule small)
  define Y where "Y = fst (encrypt x (kctx x) ?X)"
  define tag where "tag = mac_for env (encryptMAC c) ?ht (recv_seq r) ?X"
  have lt: "length tag = hmac_digest_len ?ht" by (simp add: tag_def mac_for_works(1) [OF works(1)])
  from f(12,13) dvd obtain kd where kd: "length Y = length ?X" "decrypt y (kctx y) Y = (?X, kd)" "R (snd (encrypt x (kctx x) ?X)) kd"
    unfolding cipher_pair_def Y_def B_def by blast
  show ?thesis
  proof (rule keyed_delivery [OF c d km seq ready(1,2) sock r pd _ kd(1) lt _ kd(3)])
    fix b
    have "ssh_packet_get_current_crypto (Some (s\<lparr>out_buffer := b\<rparr>)) SSH_DIRECTION_OUT = Some c" using c by simp
    from encrypt_em [OF this x f(5,3) em modX m works(1)]
    show "ssh_packet_encrypt env (s\<lparr>out_buffer := b\<rparr>) ?X = (Some tag, Y, set_out_ctx (snd (encrypt x (kctx x) ?X)) (s\<lparr>out_buffer := b\<rparr>))"
      using f(8) seq by (simp add: Y_def tag_def)
  next
    show "length ?X + length tag < 16384"
      using tag_fits [OF ready(3) k(1,2), of "pad_of s payload" ?ht] pw lt lX B by (simp add: pad_of_def fmt B_def)
  next
    fix rest assume rest: "length ((Y @ tag) @ rest) < 2 ^ 32"
    have ne: "\<not> in_hmac_etm d" using em f(9) by simp
    have head: "be_word (take 4 ?X) = (of_nat (length payload) + ucast (pad_of s payload) + 1 :: u32)"
      by (simp add: framed_split fmt be_word_bytes del: be_bytes.simps)
    have "unat (blocksize y) = B" "0 < length ?X" "\<forall>b\<in>set_option (in_buffer r). buffer_ok b"
      using f(2) lX r by (simp_all add: B_def waiting_def)
    from take_em [OF d y f(6,7,4) ne this(1) B8 f(14) [folded B_def] kd(2,1) dvd m works(1) this(3) f(11) head fl(1) this(2) small
        tag_def [THEN arg_cong [where f = "append Y"]] rest] ne
    show "\<exists>u. taken env r ((Y @ tag) @ rest) (length (Y @ tag)) (if in_hmac_etm d then drop 4 ?X else ?X) u \<and>
        ssh_packet_get_current_crypto (Some u) SSH_DIRECTION_IN = Some (rekeyed kd d)" by simp
  qed
qed

lemma roundtrip_etm:
  assumes c: "ssh_packet_get_current_crypto (Some s) SSH_DIRECTION_OUT = Some c"
    and d: "ssh_packet_get_current_crypto (Some r) SSH_DIRECTION_IN = Some d"
    and km: "keys_match R c d" and etm: "out_hmac_etm c"
    and seq: "send_seq s = recv_seq r" and ready: "sendable env s payload" "hd payload \<noteq> 21" "length payload < 16000"
    and works: "macs_work env" "random_works env" and sock: "\<And>t. sock_ok env t" and r: "waiting r"
  shows "delivered env R s r payload"
proof -
  obtain x where x: "out_cipher c = Some x" using get_crypto_out [OF c] by auto
  obtain y where y: "in_cipher d = Some y" using get_crypto_in [OF d] by auto
  note f = keys_match_facts [OF km x y]
  define B where "B = unat (blocksize x)"
  obtain k where k: "3 \<le> k" "k \<le> 6" "blocksize x = 2 ^ k" and B: "B = 2 ^ k" using f(1) by (auto simp: B_def)
  have m: "mem env" using ready(1) by (simp add: sendable_def)
  have fmt: "out_format s = (blocksize x, 0, 4)" using etm f(3) by (simp add: out_format_def c x)
  obtain padding where pd: "padding_bytes env s payload = Some padding" "length padding = unat (pad_of s payload)"
    using keyed_setup [OF works(2) c] by blast
  let ?X = "framed s payload padding" and ?ht = "in_hmac d"
  let ?P = "drop 4 ?X" and ?len = "of_nat (length ?X) - 4 :: u32"
  have lX: "length ?X = 5 + length payload + unat (pad_of s payload)" by (simp add: length_framed pd(2))
  have small: "length ?X < 16384" using ready(1) lX by (simp add: sendable_def)
  note fl = final_len [OF ready(3) lX byte_small]
  note pw = padding_ok [OF k(3,1,2), of 0 4 "of_nat (length payload)"]
  have modX: "?len mod blocksize x = 0" using pw by (simp add: fl(2) pad_of_def fmt)
  have lw: "?len = of_nat (length ?P)" using lX by (simp add: of_nat_diff)
  have lP: "length ?P + 4 = length ?X" using lX by simp
  have dvd: "B dvd length ?P" unfolding B_def using modX unfolding lw by (rule dvd_of_mod) (use small lP in linarith)
  have ul: "unat ?len = length ?P" unfolding lw by (rule small_nat) (use small lP in simp)
  have l4: "4 \<le> length ?P"
  proof -
    have "4 \<le> unat (pad_of s payload)" using pw by (simp add: pad_of_def fmt word_le_nat_alt)
    with lX lP show ?thesis by simp
  qed
  define C where "C = fst (encrypt x (kctx x) ?P)"
  define Y where "Y = be_bytes 4 ?len @ C"
  define tag where "tag = mac_for env (encryptMAC c) ?ht (recv_seq r) Y"
  have lt: "length tag = hmac_digest_len ?ht" by (simp add: tag_def mac_for_works(1) [OF works(1)])
  from f(12,13) dvd obtain kd where kd: "length C = length ?P" "decrypt y (kctx y) C = (?P, kd)" "R (snd (encrypt x (kctx x) ?P)) kd"
    unfolding cipher_pair_def C_def B_def by blast
  have lY: "length Y = length ?X" using kd(1) lP by (simp add: Y_def del: be_bytes.simps)
  show ?thesis
  proof (rule keyed_delivery [OF c d km seq ready(1,2) sock r pd _ lY lt _ kd(3)])
    fix b
    have "ssh_packet_get_current_crypto (Some (s\<lparr>out_buffer := b\<rparr>)) SSH_DIRECTION_OUT = Some c" using c by simp
    from encrypt_etm [OF this x f(5,3) etm _ modX m works(1)] f(8,10) etm seq lX
    show "ssh_packet_encrypt env (s\<lparr>out_buffer := b\<rparr>) ?X = (Some tag, Y, set_out_ctx (snd (encrypt x (kctx x) ?P)) (s\<lparr>out_buffer := b\<rparr>))"
      by (simp add: Y_def tag_def C_def del: be_bytes.simps)
  next
    show "length ?X + length tag < 16384"
      using tag_fits [OF ready(3) k(1,2), of "pad_of s payload" ?ht] pw lt lX B by (simp add: pad_of_def fmt B_def)
  next
    fix rest assume rest: "length ((Y @ tag) @ rest) < 2 ^ 32"
    have e: "in_hmac_etm d" "?ht \<noteq> SSH_HMAC_NONE" using etm f(9,10) by simp_all
    have "unat (blocksize y) = B" "\<forall>b\<in>set_option (in_buffer r). buffer_ok b" "length ?P + 4 < 16384"
      using f(2) r small lP by (simp_all add: B_def waiting_def)
    from take_etm [OF d y f(6) e this(1) kd(2,1) dvd m works(1) this(2) f(11) ul l4 this(3), of "Y @ tag" rest] rest e(1)
    show "\<exists>u. taken env r ((Y @ tag) @ rest) (length (Y @ tag)) (if in_hmac_etm d then drop 4 ?X else ?X) u \<and>
        ssh_packet_get_current_crypto (Some u) SSH_DIRECTION_IN = Some (rekeyed kd d)"
      by (simp add: Y_def tag_def del: be_bytes.simps)
  qed
qed

text \<open>All three cases.\<close>

lemma packet_delivered:
  assumes "in_step R s r" and "sendable env s payload" "hd payload \<noteq> 21" "length payload < 16000"
    and "macs_work env" "random_works env" and "\<And>t. sock_ok env t" and "waiting r"
  shows "delivered env R s r payload"
proof -
  have seq: "send_seq s = recv_seq r" using assms(1) by (simp add: in_step_def)
  show ?thesis
  proof (cases "ssh_packet_get_current_crypto (Some s) SSH_DIRECTION_OUT")
    case None
    with assms(1) have "ssh_packet_get_current_crypto (Some r) SSH_DIRECTION_IN = None"
      by (auto simp: in_step_def split: option.splits)
    with None seq assms show ?thesis by (intro roundtrip_plain) auto
  next
    case (Some c)
    with assms(1) obtain d where d: "ssh_packet_get_current_crypto (Some r) SSH_DIRECTION_IN = Some d" "keys_match R c d"
      by (auto simp: in_step_def split: option.splits)
    show ?thesis
    proof (cases "out_hmac_etm c")
      case True
      from roundtrip_etm [OF Some d True seq assms(2-8)] show ?thesis .
    next
      case False
      from roundtrip_em [OF Some d False seq assms(2-8)] show ?thesis .
    qed
  qed
qed

end
