(* ===== verification/Packet_Safety.thy ===== *)
theory Packet_Safety
  imports Packet_Stream
begin

unbundle bit_operations_syntax

text \<open>
  What the packet layer promises: the properties of sending, queueing, receiving and dispatching,
  and the places where it falls short of them.
\<close>

section \<open>Packets\<close>

text \<open>
  The padding of every packet is legal. For a cipher of blocks of 8 to 64 bytes there are at
  least four bytes of it, fewer than a block more, so that they fit into the 32 bytes
  \<open>packet_send2\<close> has for blocks of up to 16 bytes, and the part of the packet that is encrypted is
  a whole number of blocks, also when 32-bit arithmetic wraps.
\<close>

theorem padding_well_formed:
  assumes "bs = 2 ^ k" "3 \<le> k" "k \<le> 6"
  shows "4 \<le> padding_size bs l off n \<and> unat (padding_size bs l off n) \<le> unat bs + 3 \<and>
    (n + 5 + ucast (padding_size bs l off n) - l - off) mod bs = 0"
  using assms by (rule padding_ok)

text \<open>
  C18: A packet sent is the packet received. When two sessions agree on the keys of the direction
  (or have none yet) and on the sequence number, what \<open>packet_send2\<close> writes for a payload is one
  packet from which the receiving code takes exactly its bytes, whatever follows them, and leaves
  exactly the payload in its buffer; afterwards the two sessions agree again, on the advanced
  ciphers and the next sequence number. This holds without keys, and with a block cipher and a MAC
  of the plain text or of the encrypted packet.
\<close>

theorem packet_roundtrip:
  assumes "in_step R s r" and "sendable env s payload" "hd payload \<noteq> 21" "length payload < 16000"
    and "macs_work env" "random_works env" and "\<And>t. sock_ok env t" and "waiting r"
  shows "delivered env R s r payload"
  using assms by (rule packet_delivered)

section \<open>The queue\<close>

text \<open>A receiver that reads packets one after the other off a stream, and what it gets.\<close>

fun reads :: "'k packet_env \<Rightarrow> 'k ssh_session \<Rightarrow> byte list \<Rightarrow> byte list list \<Rightarrow> bool" where
  "reads env r dat [] = (dat = [])"
| "reads env r dat (p # ps) =
     (\<exists>n u b. receive env (recv_params r) r (Some dat) = Go n u \<and> in_buffer u = Some b \<and> contents b = p \<and>
        reads env (u\<lparr>packet_state := PACKET_STATE_INIT\<rparr>) (drop (unat n) dat) ps)"

text \<open>A buffer in the queue: a payload of moderate size that is not a change of keys.\<close>

definition queueable :: "ssh_buffer \<Rightarrow> bool" where
  "queueable b \<longleftrightarrow> buffer_ok b \<and> contents b \<noteq> [] \<and> hd (contents b) \<noteq> 21 \<and> length (contents b) < 16000"

lemma in_step_pad:
  assumes "in_step R s r"
  shows "unat (pad_of s payload) \<le> 67" "\<not> compresses s"
proof -
  show "\<not> compresses s" using assms
    by (auto simp: in_step_def compresses_def keys_match_def Let_def split: option.splits)
  show "unat (pad_of s payload) \<le> 67"
  proof (cases "ssh_packet_get_current_crypto (Some s) SSH_DIRECTION_OUT")
    case None
    with padding_ok [of 8 3 0 0 "of_nat (length payload)"] show ?thesis by (simp add: pad_of_def out_format_def)
  next
    case (Some c)
    with assms obtain d k where k: "3 \<le> k" "k \<le> 6" "blocksize (the (out_cipher c)) = 2 ^ k"
      by (auto simp: in_step_def keys_match_def Let_def split: option.splits)
    have "(2 :: nat) ^ k \<le> 2 ^ 6" using k(2) by (rule power_increasing) simp
    then have "unat (padding_size (2 ^ k) l off n) \<le> 67" for l off n
      using padding_ok [OF refl k(1,2), of l off n] k(2) unat_pow2 [of k] by simp
    with Some k(3) show ?thesis by (simp add: pad_of_def out_format_def)
  qed
qed

lemma in_step_upd:
  "in_step R (s\<lparr>out_buffer := b, out_queue := q\<rparr>) r = in_step R s r"
  "in_step R s (r\<lparr>packet_state := x\<rparr>) = in_step R s r"
proof -
  have "ssh_packet_get_current_crypto (Some (s\<lparr>out_buffer := b, out_queue := q\<rparr>)) d = ssh_packet_get_current_crypto (Some s) d" for d
    by (simp add: ssh_packet_get_current_crypto_def)
  then show "in_step R (s\<lparr>out_buffer := b, out_queue := q\<rparr>) r = in_step R s r" by (simp add: in_step_def)
  show "in_step R s (r\<lparr>packet_state := x\<rparr>) = in_step R s r" by (simp add: in_step_def)
qed

lemma no_rekey: "dh_handshake_state s \<noteq> DH_STATE_FINISHED \<Longrightarrow> \<not> ssh_packet_need_rekey e s n"
  by (simp add: ssh_packet_need_rekey_def)

text \<open>A receiver in step with the sender that can still read \<open>n\<close> packets.\<close>

definition listening :: "('k \<Rightarrow> 'k \<Rightarrow> bool) \<Rightarrow> 'k ssh_session \<Rightarrow> nat \<Rightarrow> 'k ssh_session \<Rightarrow> bool" where
  "listening R s n r \<longleftrightarrow> in_step R s r \<and> waiting r \<and> unat (recv_seq r) + n < 2 ^ 32 - 1"

lemma drain_reads:
  assumes "\<exists>r. listening R s (length q) r" and "\<forall>b\<in>set q. queueable b" and "dh_handshake_state s \<noteq> DH_STATE_FINISHED"
    and works: "mem env" "macs_work env" "random_works env" "\<And>t. sock_ok env t" and "out_queue s = q"
  shows "\<exists>t ws. drain env q s = (SSH_OK, t) \<and> out_queue t = [] \<and> wire t = wire s @ ws \<and> length (concat ws) \<le> 16384 * length q \<and>
    (\<forall>r. listening R s (length q) r \<and> length (concat ws) < 2 ^ 32 \<longrightarrow> reads env r (concat ws) (map contents q))"
  using assms(1-3,8)
proof (induction q arbitrary: s)
  case Nil
  then show ?case by simp
next
  case (Cons b q)
  let ?s = "s\<lparr>out_buffer := b, out_queue := q\<rparr>"
  have b: "buffer_ok b" "contents b \<noteq> []" "hd (contents b) \<noteq> 21" "length (contents b) < 16000"
    using Cons.prems(2) by (simp_all add: queueable_def)
  have ready: "sendable env ?s (contents b)" if "in_step R s r" for r
  proof -
    have step: "in_step R ?s r" using that by (simp only: in_step_upd)
    have "unat (pad_of ?s (contents b)) \<le> 67" "\<not> compresses ?s" using in_step_pad [OF step] by simp_all
    then show ?thesis using b works(1) by (simp add: sendable_def)
  qed
  have del: "delivered env R ?s r (contents b)" if "in_step R s r" "waiting r" for r
    using packet_delivered [OF _ ready [OF that(1)] b(3,4) works(2-4) that(2)] that(1) by (simp only: in_step_upd)
  from Cons.prems(1) obtain r0 where r0: "in_step R s r0" "waiting r0" "unat (recv_seq r0) + length (b # q) < 2 ^ 32 - 1"
    by (auto simp: listening_def)
  from del [OF r0(1,2)] obtain t w where t: "packet_send2 env ?s = (SSH_OK, t)" "wire t = wire s @ [w]" "length w < 16384"
      "out_queue t = q" "dh_handshake_state t = dh_handshake_state s"
    by (auto simp: delivered_def)
  have one: "\<exists>u b'. receive env (recv_params r) r (Some (w @ rest)) = Go (of_nat (length w)) u \<and> in_buffer u = Some b' \<and>
      contents b' = contents b \<and> listening R t (length q) (u\<lparr>packet_state := PACKET_STATE_INIT\<rparr>)"
    if "listening R s (length (b # q)) r" "length (w @ rest) < 2 ^ 32" for r rest
  proof -
    from that(1) have r: "in_step R s r" "waiting r" "unat (recv_seq r) + Suc (length q) < 2 ^ 32 - 1" by (simp_all add: listening_def)
    from del [OF r(1,2)] t(1,2) that(2) obtain u b' where u:
      "receive env (recv_params r) r (Some (w @ rest)) = Go (of_nat (length w)) u" "in_buffer u = Some b'" "buffer_ok b'"
      "contents b' = contents b" "recv_seq u = recv_seq r + 1" "session_state u = session_state r" "in_step R t u"
      by (auto simp: delivered_def)
    have "unat (recv_seq r + 1) = Suc (unat (recv_seq r))" using r(3) by (subst unat_add_no_wrap) auto
    then have "unat (recv_seq u) + length q < 2 ^ 32 - 1" "recv_seq u \<noteq> 0xFFFFFFFF" using r(3) u(5) by (auto dest: arg_cong [where f = unat])
    with u r(2) show ?thesis by (auto simp: listening_def waiting_def in_step_upd)
  qed
  from one [of r0 "[]"] Cons.prems(1) r0 t(3) have "\<exists>r. listening R t (length q) r" by (auto simp: listening_def)
  from Cons.IH [OF this] Cons.prems(2,3) t(4,5) obtain t' ws where ws: "drain env q t = (SSH_OK, t')" "out_queue t' = []"
      "wire t' = wire t @ ws" "length (concat ws) \<le> 16384 * length q"
    and rd: "\<And>r. listening R t (length q) r \<Longrightarrow> length (concat ws) < 2 ^ 32 \<Longrightarrow> reads env r (concat ws) (map contents q)"
    by auto
  have "drain env (b # q) s = (SSH_OK, t')" using t(1) ws(1) no_rekey [OF Cons.prems(3)] by simp
  moreover have "reads env r (concat (w # ws)) (map contents (b # q))"
    if r: "listening R s (length (b # q)) r" "length (concat (w # ws)) < 2 ^ 32" for r
  proof -
    from one [OF r(1), of "concat ws"] r(2) obtain u b' where u:
      "receive env (recv_params r) r (Some (w @ concat ws)) = Go (of_nat (length w)) u" "in_buffer u = Some b'"
      "contents b' = contents b" "listening R t (length q) (u\<lparr>packet_state := PACKET_STATE_INIT\<rparr>)" by auto
    have "unat (of_nat (length w) :: u32) = length w" using t(3) by (rule small_nat)
    with rd [OF u(4)] r(2) u show ?thesis by simp
  qed
  ultimately show ?case using ws t(2,3) by (intro exI [of _ t'] exI [of _ "w # ws"]) auto
qed

text \<open>
  Packets held back during a key exchange go out in the order they were queued, none lost and
  none twice. When the queue is drained after the new keys were sent, every packet leaves it, and a
  receiver in step with the sender reads off the wire exactly the payloads of the queue, first one
  first.
\<close>

theorem queue_delivered_in_order:
  assumes "listening R s (length (out_queue s)) r" and "\<forall>b\<in>set (out_queue s). queueable b"
    and "dh_handshake_state s \<noteq> DH_STATE_FINISHED" and "length (out_queue s) < 262144"
    and "mem env" "macs_work env" "random_works env" "\<And>t. sock_ok env t"
  shows "\<exists>t ws. drain env (out_queue s) s = (SSH_OK, t) \<and> out_queue t = [] \<and> wire t = wire s @ ws \<and>
    reads env r (concat ws) (map contents (out_queue s))"
proof -
  from drain_reads [OF exI, OF assms(1-3,5-8) refl] obtain t ws where
    "drain env (out_queue s) s = (SSH_OK, t)" "out_queue t = []" "wire t = wire s @ ws"
    "length (concat ws) \<le> 16384 * length (out_queue s)"
    "length (concat ws) < 2 ^ 32 \<longrightarrow> reads env r (concat ws) (map contents (out_queue s))"
    using assms(1) by blast
  with assms(4) show ?thesis by auto
qed

text \<open>
  During a key exchange of an authenticated session only packets of the key exchange go out.
  Until the new keys are sent every other packet is put at the end of the queue and nothing is
  written; a packet of the key exchange is sent at once.
\<close>

theorem rekey_holds_back:
  assumes "ssh_packet_in_rekey s" and "mem env" and "buffer_ok (out_buffer s)" and "contents (out_buffer s) = t # payload"
    and "t \<noteq> 21"
  shows "if ssh_packet_is_kex t then ssh_packet_send env s = packet_send2 env s
    else (\<exists>b. ssh_packet_send env s = (SSH_OK, s\<lparr>out_queue := out_queue s @ [out_buffer s], out_buffer := b\<rparr>) \<and>
           buffer_ok b \<and> contents b = [])"
proof -
  have "dh_handshake_state s \<noteq> DH_STATE_FINISHED" using assms(1) by (simp add: ssh_packet_in_rekey_def)
  note nr = no_rekey [OF this]
  have h: "hd (ssh_buffer_get (out_buffer s)) = t" using hd_contents [of "out_buffer s"] assms(4) by simp
  have "0 < unat (ssh_buffer_get_len (out_buffer s))" using get_contents(2) [OF assms(3)] assms(4) by simp
  then have l: "\<not> ssh_buffer_get_len (out_buffer s) < 1" by (simp add: word_less_nat_alt)
  show ?thesis
  proof (cases "ssh_packet_is_kex t")
    case True
    then show ?thesis using nr h l assms(5) by (simp add: ssh_packet_send_def Let_def split: prod.splits)
  next
    case False
    then show ?thesis using nr h l assms(1,2) new_ok by (auto simp: ssh_packet_send_def Let_def)
  qed
qed

section \<open>Authentication\<close>

lemma and_then_Go: "and_then x f = Go n s \<longleftrightarrow> (\<exists>m t. x = Go m t \<and> f m t = Go n s)"
  by (cases x) auto

text \<open>A later session with the same keys, up to the state of the cipher, and the same number.\<close>

definition same_keys :: "'k ssh_crypto \<Rightarrow> 'k ssh_session \<Rightarrow> 'k ssh_session \<Rightarrow> bool" where
  "same_keys d s t \<longleftrightarrow> recv_seq t = recv_seq s \<and>
     (\<exists>c. ssh_packet_get_current_crypto (Some t) SSH_DIRECTION_IN = Some c \<and> decryptMAC c = decryptMAC d \<and>
        in_hmac c = in_hmac d \<and> in_hmac_etm c = in_hmac_etm d)"

lemma same_keys_upd [simp]:
  "same_keys d s (with_in t b) = same_keys d s t"
  "same_keys d s (t\<lparr>in_packet := x\<rparr>) = same_keys d s t"
  "same_keys d s (t\<lparr>packet_state := y\<rparr>) = same_keys d s t"
  by (simp_all add: same_keys_def)

lemma same_keys_ctx: "same_keys d s t \<Longrightarrow> same_keys d s (set_in_ctx k t)"
  by (auto simp: same_keys_def dest: current_set_in_ctx [where k = k])

lemma decrypt_keys: "ssh_packet_decrypt s src start n = (rc, out, t) \<Longrightarrow> t = s \<or> (\<exists>k. t = set_in_ctx k s)"
  by (auto simp: ssh_packet_decrypt_def Let_def split: if_splits option.splits prod.splits)

lemma decrypt_len_keys: "ssh_packet_decrypt_len s src = (l, out, t) \<Longrightarrow> t = s \<or> (\<exists>k. t = set_in_ctx k s)"
  by (auto simp: ssh_packet_decrypt_len_def Let_def split: if_splits option.splits prod.splits dest!: decrypt_keys)

lemma verify_sound:
  assumes "\<not> ssh_packet_hmac_verify env s D mac t < 0" and "ssh_packet_get_current_crypto (Some s) SSH_DIRECTION_IN = Some c"
    and "t \<noteq> SSH_HMAC_AEAD_POLY1305" "t \<noteq> SSH_HMAC_AEAD_GCM"
  shows "\<exists>m. mac_of env (decryptMAC c) t [be_bytes 4 (recv_seq s), D] = Some m \<and> \<not> secure_memcmp mac m (length m)"
  using assms by (auto simp: ssh_packet_hmac_verify_def simp del: be_bytes.simps split: if_splits option.splits)

lemma read_size_keys:
  assumes "read_size env p s dat = Go n t" and "same_keys d r s"
  shows "same_keys d r t \<and> plen (in_packet t) \<le> MAX_PACKET_LEN"
proof -
  have fresh: "same_keys d r u" if "fresh_in env (s\<lparr>in_packet := x\<rparr>) = Some u" for u x
    using that assms(2) by (auto simp: fresh_in_def Let_def split: option.splits prod.splits if_splits)
  have dec: "same_keys d r v" if "fresh_in env (s\<lparr>in_packet := x\<rparr>) = Some u" "ssh_packet_decrypt_len (with_in u b) dat = (l, out, v)" for u x b l out v
    using decrypt_len_keys [OF that(2)] fresh [OF that(1)] by (auto intro: same_keys_ctx)
  show ?thesis using assms
    by (auto simp: read_size_def Let_def fail_def not_less intro: dec fresh split: if_splits option.splits prod.splits)
qed

text \<open>What has been verified when a packet has been opened.\<close>

definition verified :: "'k packet_env \<Rightarrow> 'k ssh_session \<Rightarrow> 'k ssh_crypto \<Rightarrow> byte list \<Rightarrow> bool" where
  "verified env r d dat \<longleftrightarrow>
     (\<exists>D m k. mac_of env (decryptMAC d) (in_hmac d) [be_bytes 4 (recv_seq r), D] = Some m \<and>
        \<not> secure_memcmp (drop k dat) m (length m) \<and> (in_hmac_etm d \<longrightarrow> D = take k dat))"

lemma open_packet_verified:
  assumes go: "open_packet env p s dat processed off rem = Go n t" and keys: "same_keys d r s"
    and ty: "in_hmac d \<noteq> SSH_HMAC_NONE" "in_hmac d \<noteq> SSH_HMAC_AEAD_POLY1305" "in_hmac d \<noteq> SSH_HMAC_AEAD_GCM"
    and p: "etm p = in_hmac_etm d" "etm p \<Longrightarrow> processed = lenfield p + etm_offset p + rem"
  shows "verified env r d dat"
proof -
  let ?k = "unat (lenfield p + etm_offset p + rem)"
  from keys obtain c where c: "ssh_packet_get_current_crypto (Some s) SSH_DIRECTION_IN = Some c" "decryptMAC c = decryptMAC d"
    "in_hmac c = in_hmac d" "in_hmac_etm c = in_hmac_etm d" and seq: "recv_seq s = recv_seq r" by (auto simp: same_keys_def)
  show ?thesis
  proof (cases "etm p")
    case True
    with go c ty have "\<not> ssh_packet_hmac_verify env s (take (unat processed) dat) (drop ?k dat) (in_hmac d) < 0"
      by (auto simp: open_packet_def Let_def fail_def split: if_splits)
    from verify_sound [OF this c(1) ty(2,3)] show ?thesis
      unfolding verified_def using c(2) seq p True by metis
  next
    case False
    obtain rc bs s1 where s1: "(if 0 < rem then ssh_packet_decrypt s dat (unat (lenfield p + etm_offset p))
        (unat (processed - (lenfield p + etm_offset p))) else (0, [], s)) = (rc, bs, s1)" by (metis prod_cases3)
    then have "s1 = s \<or> (\<exists>k. s1 = set_in_ctx k s)" by (auto split: if_splits dest: decrypt_keys)
    with keys have k1: "same_keys d r s1" by (auto intro: same_keys_ctx)
    from go c ty False s1 obtain b D where
      v: "\<not> ssh_packet_hmac_verify env (with_in s1 b) D (drop ?k dat) (in_hmac d) < 0"
      by (auto simp: open_packet_def Let_def fail_def split: if_splits prod.splits)
    from k1 obtain c' where c': "ssh_packet_get_current_crypto (Some (with_in s1 b)) SSH_DIRECTION_IN = Some c'"
      "decryptMAC c' = decryptMAC d" and seq': "recv_seq (with_in s1 b) = recv_seq r" by (auto simp: same_keys_def)
    from verify_sound [OF v c'(1) ty(2,3)] show ?thesis
      unfolding verified_def using c'(2) seq' p(1) False by metis
  qed
qed

lemma total_nonzero: "(len :: u32) \<le> MAX_PACKET_LEN \<Longrightarrow> len + 4 + of_nat (hmac_digest_len t) \<noteq> 0"
proof -
  assume "len \<le> MAX_PACKET_LEN"
  then have l: "unat len \<le> 262144" by (simp add: MAX_PACKET_LEN_def word_le_nat_alt)
  have h: "hmac_digest_len t \<le> 64" by (cases t) (simp_all add: hmac_digest_len_def)
  then have u: "unat (of_nat (hmac_digest_len t) :: u32) = hmac_digest_len t" by (simp add: small_nat)
  have "unat (len + 4) = unat len + 4" using l by (subst unat_add_no_wrap) auto
  then have "unat (len + 4 + of_nat (hmac_digest_len t)) = unat len + 4 + hmac_digest_len t"
    using l h u by (subst unat_add_no_wrap) auto
  then show ?thesis by auto
qed


section \<open>The callback returns\<close>

text \<open>Whatever the layer calls leaves the list of handler tables alone.\<close>

definition leaves_tables :: "'k packet_env \<Rightarrow> bool" where
  "leaves_tables env \<longleftrightarrow>
     (\<forall>s. packet_callbacks (snd (send_rekex env s)) = packet_callbacks s) \<and>
     (\<forall>s. packet_callbacks (snd (make_sessionid env s)) = packet_callbacks s) \<and>
     (\<forall>s. packet_callbacks (snd (set_algorithms_client env s)) = packet_callbacks s) \<and>
     (\<forall>s. packet_callbacks (snd (generate_session_keys env s)) = packet_callbacks s) \<and>
     (\<forall>a t f s. handler env a t = Some f \<longrightarrow> packet_callbacks (snd (f s t)) = packet_callbacks s)"

definition tables_distinct :: "'k ssh_session \<Rightarrow> bool" where
  "tables_distinct s = (case packet_callbacks s of None \<Rightarrow> True | Some l \<Rightarrow> distinct l)"

named_theorems tables "steps that leave the list of handler tables alone"

lemma tables_ctx [tables]:
  "packet_callbacks (set_in_ctx k s) = packet_callbacks s" "packet_callbacks (set_out_ctx k s) = packet_callbacks s"
  "packet_callbacks (with_in s b) = packet_callbacks s" "packet_callbacks (packet_sent kd n s) = packet_callbacks s"
  "packet_callbacks (taint s) = packet_callbacks s" "packet_callbacks (with_next f s) = packet_callbacks s"
  by (simp_all add: set_in_ctx_def set_out_ctx_def with_in_def packet_sent_def taint_def with_next_def Let_def)

lemma tables_encrypt [tables]: "ssh_packet_encrypt env s X = (h, Y, t) \<Longrightarrow> packet_callbacks t = packet_callbacks s"
  by (auto simp: ssh_packet_encrypt_def Let_def tables split: if_splits option.splits prod.splits)

lemma tables_install [tables]: "install_keys e s = (rc, t) \<Longrightarrow> packet_callbacks t = packet_callbacks s"
  by (auto simp: install_keys_def Let_def tables split: if_splits option.splits prod.splits)

lemma tables_newkeys:
  assumes "leaves_tables env" and "ssh_packet_set_newkeys (key_env.truncate env) s d = (rc, t)"
  shows "packet_callbacks t = packet_callbacks s"
proof -
  have k: "packet_callbacks u = packet_callbacks v"
    if "make_sessionid env v = (a, u) \<or> set_algorithms_client env v = (a, u) \<or> generate_session_keys env v = (a, u)" for u v a
    using assms(1) that unfolding leaves_tables_def by (metis snd_conv)
  show ?thesis using assms(2)
    by (auto simp: ssh_packet_set_newkeys_def swap_keys_def key_env.defs Let_def tables 
        dest!: tables_install k [OF disjI1] k [OF disjI2, OF disjI1] k [OF disjI2, OF disjI2] split: if_splits option.splits prod.splits)
qed

lemma tables_framed:
  assumes "leaves_tables env" and "send_framed env s k ht n ty = (rc, t)"
  shows "packet_callbacks t = packet_callbacks s"
  using assms(2)
  by (auto simp: send_framed_def ssh_packet_write_def Let_def tables split: if_splits option.splits prod.splits
      dest!: tables_encrypt tables_newkeys [OF assms(1)])

lemma tables_send2:
  assumes "leaves_tables env" and "packet_send2 env s = (rc, t)"
  shows "packet_callbacks t = packet_callbacks s"
  using assms(2)
  by (auto simp: packet_send2_def Let_def split: if_splits option.splits prod.splits dest!: tables_framed [OF assms(1)])

lemma tables_rekex: "leaves_tables env \<Longrightarrow> send_rekex env s = (rc, t) \<Longrightarrow> packet_callbacks t = packet_callbacks s"
  unfolding leaves_tables_def by (metis snd_conv)

lemma tables_drain:
  assumes "leaves_tables env"
  shows "drain env q s = (rc, t) \<Longrightarrow> packet_callbacks t = packet_callbacks s"
proof (induction q arbitrary: s)
  case (Cons b q)
  obtain r u where u: "packet_send2 env (s\<lparr>out_buffer := b, out_queue := q\<rparr>) = (r, u)" by fastforce
  have "packet_callbacks u = packet_callbacks s" using tables_send2 [OF assms u] by simp
  with Cons u show ?case by (auto split: if_splits dest: tables_rekex [OF assms])
qed simp

lemma tables_send:
  assumes "leaves_tables env" and "ssh_packet_send env s = (rc, t)"
  shows "packet_callbacks t = packet_callbacks s"
  using assms(2)
  by (auto simp: ssh_packet_send_def Let_def split: if_splits option.splits prod.splits
      dest!: tables_send2 [OF assms(1)] tables_drain [OF assms(1)] tables_rekex [OF assms(1)])

lemma tables_unimplemented:
  assumes "leaves_tables env" and "ssh_packet_send_unimplemented env s n = (rc, t)"
  shows "packet_callbacks t = packet_callbacks s"
  using assms(2)
  by (auto simp: ssh_packet_send_unimplemented_def Let_def split: if_splits option.splits prod.splits
      dest!: tables_send [OF assms(1)])

text \<open>The walk over the tables from the middle of the list.\<close>

lemma next_node_mid: "distinct (xs @ a # ys) \<Longrightarrow> next_node a (xs @ a # ys) = Some (case ys of [] \<Rightarrow> None | y # _ \<Rightarrow> Some y)"
  by (induction xs) auto

lemma process_walk:
  assumes "leaves_tables env"
  shows "packet_callbacks s = Some (xs @ ys) \<Longrightarrow> distinct (xs @ ys) \<Longrightarrow>
    \<exists>rc' s'. process_from env t (case ys of [] \<Rightarrow> None | y # _ \<Rightarrow> Some y) rc s = Some (rc', s') \<and> packet_callbacks s' = packet_callbacks s"
proof (induction ys arbitrary: xs rc s)
  case Nil
  then show ?case by (simp add: process_from.simps)
next
  case (Cons a ys)
  note nx = next_node_mid [OF Cons.prems(2)]
  show ?case
  proof (cases "handler env a t")
    case None
    with Cons.IH [of s "xs @ [a]" rc] Cons.prems nx show ?thesis by (subst process_from.simps) simp
  next
    case (Some f)
    obtain r s1 where f: "f s t = (r, s1)" by fastforce
    have "packet_callbacks s1 = packet_callbacks s" using assms Some f unfolding leaves_tables_def by (metis snd_conv)
    with Cons.IH [of s1 "xs @ [a]" r] Cons.prems nx Some f show ?thesis by (subst process_from.simps) auto
  qed
qed

lemma process_returns:
  assumes "leaves_tables env" and "tables_distinct s"
  shows "\<exists>u. ssh_packet_process env s t = Some u \<and> packet_callbacks u = packet_callbacks s"
proof (cases "packet_callbacks s")
  case None
  then show ?thesis by (simp add: ssh_packet_process_def)
next
  case (Some l)
  from process_walk [OF assms(1), of s "[]" l t 2] Some assms(2) obtain rc s1 where
    "process_from env t (case l of [] \<Rightarrow> None | y # _ \<Rightarrow> Some y) 2 s = Some (rc, s1)" "packet_callbacks s1 = packet_callbacks s"
    by (auto simp: tables_distinct_def)
  with Some show ?thesis
    by (auto simp: ssh_packet_process_def Let_def tables split: prod.splits dest!: tables_unimplemented [OF assms(1)])
qed

lemma dispatch_returns:
  assumes "leaves_tables env" and "tables_distinct s"
  shows "\<exists>b u. dispatch env p s = Some (b, u) \<and> packet_callbacks u = packet_callbacks s"
proof -
  define s1 where "s1 = snd (ssh_packet_parse_type (s\<lparr>packet_state := PACKET_STATE_PROCESSING\<rparr>))"
  define t where "t = ptype (in_packet s1)"
  define s2 where "s2 = (if \<not> keyed p \<and> t \<noteq> 20 \<and> t \<noteq> 21 \<and> (t < 30 \<or> 34 < t) then taint s1 else s1)"
  have "packet_callbacks s1 = packet_callbacks s"
    by (auto simp: s1_def Let_def ssh_packet_parse_type_def split: option.splits prod.splits)
  then have cb: "packet_callbacks s2 = packet_callbacks s" by (simp add: s2_def tables)
  then have "tables_distinct s2" using assms(2) by (simp add: tables_distinct_def)
  from process_returns [OF assms(1) this] cb obtain u where
    u: "ssh_packet_process env s2 t = Some u" "packet_callbacks u = packet_callbacks s" by metis
  obtain r v where v: "ssh_packet_send_unimplemented env (if \<not> keyed p then taint s2 else s2)
      (recv_seq (if \<not> keyed p then taint s2 else s2) - 1) = (r, v)" by fastforce
  have "packet_callbacks v = packet_callbacks s" using tables_unimplemented [OF assms(1) v] cb by (simp add: tables split: if_splits)
  moreover have "dispatch env p s = (case ssh_packet_incoming_filter t s2 of
      SSH_PACKET_ALLOWED \<Rightarrow> Some (False, u) | SSH_PACKET_DENIED \<Rightarrow> Some (True, s2) | SSH_PACKET_UNKNOWN \<Rightarrow> Some (False, v))"
  proof -
    have "dispatch env p s = (case ssh_packet_incoming_filter t s2 of
        SSH_PACKET_ALLOWED \<Rightarrow> map_option (Pair False) (ssh_packet_process env s2 t) | SSH_PACKET_DENIED \<Rightarrow> Some (True, s2)
      | SSH_PACKET_UNKNOWN \<Rightarrow> Some (False, snd (ssh_packet_send_unimplemented env (if \<not> keyed p then taint s2 else s2)
          (recv_seq (if \<not> keyed p then taint s2 else s2) - 1))))"
      by (simp only: dispatch_def Let_def s1_def [symmetric] t_def [symmetric] s2_def [symmetric])
    then show ?thesis by (simp only: u(1) v option.map snd_conv)
  qed
  ultimately show ?thesis using u(2) cb by (cases "ssh_packet_incoming_filter t s2") auto
qed

lemma fresh_in_tables: "fresh_in env s = Some t \<Longrightarrow> packet_callbacks t = packet_callbacks s"
  by (auto simp: fresh_in_def Let_def tables split: option.splits prod.splits if_splits)

lemma decrypt_len_tables: "ssh_packet_decrypt_len s src = (l, out, t) \<Longrightarrow> packet_callbacks t = packet_callbacks s"
  by (auto simp: tables dest!: decrypt_len_keys)

lemma decrypt_tables: "ssh_packet_decrypt s src a n = (l, out, t) \<Longrightarrow> packet_callbacks t = packet_callbacks s"
  by (auto simp: tables dest!: decrypt_keys)

lemma read_size_tables: "read_size env p s dat = Go n t \<Longrightarrow> packet_callbacks t = packet_callbacks s"
  by (auto simp: read_size_def Let_def fail_def tables split: if_splits option.splits prod.splits
      dest!: fresh_in_tables decrypt_len_tables)

lemma open_packet_tables: "open_packet env p s dat a off r = Go n t \<Longrightarrow> packet_callbacks t = packet_callbacks s"
  by (auto simp: open_packet_def Let_def fail_def tables split: if_splits option.splits prod.splits dest!: decrypt_tables)

lemma read_body_tables: "read_body env p s dat = Go n t \<Longrightarrow> packet_callbacks t = packet_callbacks s"
  by (auto simp: read_body_def Let_def fail_def tables split: if_splits option.splits prod.splits dest!: open_packet_tables)

lemma strip_tables: "strip_packet env p m s = Go n t \<Longrightarrow> n = m \<and> packet_callbacks t = packet_callbacks s"
  by (auto simp: strip_packet_def Let_def fail_def tables split: if_splits prod.splits)

lemma received_tables: "packet_received p m s = Go n t \<Longrightarrow> n = m \<and> packet_callbacks t = packet_callbacks s"
  by (auto simp: packet_received_def Let_def fail_def tables split: if_splits)

lemma receive_tables: "receive env p s (Some dat) = Go n t \<Longrightarrow> packet_callbacks t = packet_callbacks s"
  by (auto simp: receive_def fail_def and_then_Go split: if_splits
      dest!: read_size_tables read_body_tables strip_tables received_tables)

text \<open>A packet taken off the data is not empty.\<close>

lemma recv_macsize: "\<exists>t. macsize (recv_params r) = of_nat (hmac_digest_len t)"
  by (auto simp: recv_params_def Let_def hmac_digest_len_def intro: exI [of _ SSH_HMAC_NONE] split: option.splits)

lemma len_nonzero: "(len :: u32) \<le> MAX_PACKET_LEN \<Longrightarrow> len + 4 \<noteq> 0"
  using total_nonzero [of len SSH_HMAC_NONE] by (simp add: hmac_digest_len_def)

lemma receive_progress:
  assumes "receive env (recv_params r) r (Some dat) = Go n v"
    and "packet_state r = PACKET_STATE_SIZEREAD \<Longrightarrow> plen (in_packet r) \<le> MAX_PACKET_LEN"
  shows "n \<noteq> 0"
proof -
  let ?p = "recv_params r"
  from assms(1) obtain m t m' t' where
    first: "(if packet_state r = PACKET_STATE_INIT then read_size env ?p r dat else Go 0 r) = Go m t"
    and body: "read_body env ?p t dat = Go m' t'" and n: "n = m'" and st: "packet_state r \<noteq> PACKET_STATE_PROCESSING"
    by (auto simp: receive_def fail_def and_then_Go split: if_splits dest!: strip_tables received_tables)
  let ?len = "plen (in_packet t)"
  have len: "?len \<le> MAX_PACKET_LEN"
  proof (cases "packet_state r = PACKET_STATE_INIT")
    case True
    have "plen (in_packet t) \<le> MAX_PACKET_LEN" if "read_size env ?p r dat = Go m t"
      using that by (auto simp: read_size_def Let_def fail_def not_less split: if_splits option.splits prod.splits)
    with True first show ?thesis by auto
  next
    case False
    with st have "packet_state r = PACKET_STATE_SIZEREAD" by (cases "packet_state r") auto
    with False first assms(2) show ?thesis by auto
  qed
  obtain ty where mac: "macsize ?p = of_nat (hmac_digest_len ty)" using recv_macsize by blast
  note nz = total_nonzero [OF len, of ty] len_nonzero [OF len]
  from body nz(1) mac obtain b off k where "open_packet env ?p (with_in t b) dat (?len + 4) off k = Go m' t'"
    by (auto simp: read_body_def Let_def fail_def split: if_splits prod.splits option.splits)
  then have "m' = ?len + 4 \<or> m' = ?len + 4 + macsize ?p"
    by (auto simp: open_packet_def Let_def fail_def split: if_splits option.splits prod.splits)
  with nz mac n show ?thesis by auto
qed

lemma finish_tables:
  assumes "leaves_tables env" shows "packet_callbacks (snd (finish_packet env n s)) = packet_callbacks s"
  by (auto simp: finish_packet_def split: prod.splits dest: tables_rekex [OF assms])


section \<open>Where the layer falls short\<close>

text \<open>
  C39: A packet whose encryption fails is sent unencrypted. \<open>ssh_packet_encrypt\<close> returns NULL both
  when there are no keys yet and when it fails, and \<open>packet_send2\<close> goes on in both cases: when
  the MAC cannot be set up, the payload is written to the socket as it is, and success is reported.
\<close>

theorem encrypt_failure_sends_plaintext:
  assumes c: "ssh_packet_get_current_crypto (Some s) SSH_DIRECTION_OUT = Some c" "aead_encrypt (the (out_cipher c)) = None"
    and fails: "out_hmac c \<noteq> SSH_HMAC_NONE" "\<And>key. \<not> hmac_init env key (out_hmac c)"
    and ready: "sendable env s payload" "hd payload \<noteq> 21" and env: "random_works env" "\<And>t. sock_ok env t"
  shows "\<exists>t w. packet_send2 env s = (SSH_OK, t) \<and> wire t = wire s @ [w] \<and> take (length payload) (drop 5 w) = payload"
proof -
  obtain padding where pd: "padding_bytes env s payload = Some padding" "length padding = unat (pad_of s payload)"
    using keyed_setup [OF env(1) c(1)] by blast
  let ?X = "framed s payload padding"
  have m: "mem env" and small: "length ?X + length ([] :: byte list) < 16384"
    using ready(1) pd(2) by (simp_all add: sendable_def length_framed)
  from send2_frames [OF ready(1) pd] obtain b where b: "buffer_ok b" "contents b = ?X"
    and send: "packet_send2 env s = send_framed env (s\<lparr>out_buffer := b\<rparr>) (out_keyed s) (out_mac_type s) (of_nat (length payload)) (hd payload)"
    by blast
  let ?s = "s\<lparr>out_buffer := b\<rparr>"
  have enc: "ssh_packet_encrypt env ?s ?X = (None, ?X, ?s)"
    using c fails by (simp add: ssh_packet_encrypt_def Let_def)
  from send_framed_ok [where s = ?s and k = "out_keyed s" and ht = "out_mac_type s" and n = "of_nat (length payload)",
      OF _ _ enc _ _ _ small m env(2) ready(2)] b
  obtain t where "send_framed env ?s (out_keyed s) (out_mac_type s) (of_nat (length payload)) (hd payload) = (0, t)"
    "wire t = wire s @ [?X]" by auto
  with send show ?thesis by (auto simp: framed_def eval_nat_numeral simp del: be_bytes.simps)
qed

text \<open>
  Packets the protocol allows end the session. The reading code accepts a length of up to
  262144 bytes, but the buffer the packet must fit in cannot grow beyond 16384: any longer
  packet, complete and well formed, puts the session into its error state.
\<close>

theorem large_packet_ends_session:
  assumes none: "ssh_packet_get_current_crypto (Some r) SSH_DIRECTION_IN = None" and r: "waiting r" and env: "mem env"
    and len: "be_word (take 4 dat) = (len :: u32)" "16381 \<le> unat len" "unat len \<le> 262144"
    and dat: "unat len + 4 \<le> length dat" "length dat < 2 ^ 32"
  shows "\<exists>n v. receive env (recv_params r) r (Some dat) = Return n v \<and> session_state v = SSH_SESSION_STATE_ERROR"
proof -
  let ?p = "recv_params r" and ?r = "r\<lparr>in_packet := \<lparr>valid = False, plen = 0, ptype = 0\<rparr>\<rparr>"
  have p: "?p = \<lparr>keyed = False, macsize = 0, lenfield = 8, etm = False, etm_offset = 0\<rparr>"
    by (simp add: recv_params_def none)
  have w: "\<forall>b\<in>set_option (in_buffer r). buffer_ok b" "packet_state r = PACKET_STATE_INIT"
    "session_state r \<noteq> SSH_SESSION_STATE_ERROR" using r by (simp_all add: waiting_def)
  have ul: "unat (of_nat (length dat) :: u32) = length dat" using dat(2) by (simp only: unat_of_nat take_bit_nat_eq_self_iff) simp
  have ge: "lenfield ?p \<le> of_nat (length dat)" using ul dat(1) len(2) by (simp add: p word_le_nat_alt)
  have dec: "ssh_packet_decrypt_len (with_in ?r b) dat = (len, take 8 dat, with_in ?r b)" for b
    using none len(1) by (simp add: ssh_packet_decrypt_len_def min_def)
  have p': "\<not> etm ?p" "etm_offset ?p = 0" "length (take 8 dat) = unat (lenfield ?p)" "unat (lenfield ?p) < 16384"
    "unat (lenfield ?p) \<le> unat len + 4"
    using len(2) dat(1) by (simp_all add: p)
  from read_size_ok [OF env w(1) p'(1,2) ge dec p'(3,4) len(3) p'(5)] obtain b where
    b: "buffer_ok b" "contents b = take 8 dat" "read_size env ?p r dat = Go (lenfield ?p)
      ((with_in ?r b)\<lparr>in_packet := (in_packet ?r)\<lparr>plen := len\<rparr>, packet_state := PACKET_STATE_SIZEREAD\<rparr>)" by blast
  let ?t = "(with_in ?r b)\<lparr>in_packet := (in_packet ?r)\<lparr>plen := len\<rparr>, packet_state := PACKET_STATE_SIZEREAD\<rparr>"
  have l4: "unat (len + 4) = unat len + 4" using len(3) by (subst unat_add_no_wrap) auto
  have nlt: "\<not> of_nat (length dat) < len + 4" using l4 ul dat(1) by (simp add: word_less_nat_alt)
  have four: "(4 :: u32) \<le> len" using len(2) by (simp add: word_le_nat_alt)
  have rem: "unat (len - 4) = unat len - 4" using four by (simp add: unat_sub)
  have lb: "length (contents b) = 8" using b(2) dat(1) len(2) by simp
  have "fst (ssh_buffer_allocate True (len - 4) b) = None"
  proof -
    have ub: "unat (used b) \<le> 16384" "8 \<le> unat (used b)"
      using used_bound [OF b(1)] length_contents [OF b(1)] lb by auto
    have sum: "unat (used b + (len - 4)) = unat (used b) + (unat len - 4)"
      using ub len(3) rem by (subst unat_add_no_wrap) auto
    have nw: "\<not> used b + (len - 4) < len - 4" using sum rem by (simp add: word_less_nat_alt)
    have al: "unat (allocated b) \<le> 16384" using b(1) by (simp add: buffer_ok_def)
    define b1 where "b1 = (if 0 < pos b then buffer_shift b else b)"
    have "unat (used b1) = 8"
      using b(1) shift_ok [OF b(1)] length_contents [OF b(1)] lb by (auto simp: b1_def buffer_ok_def unat_sub word_le_nat_alt word_gt_0)
    then have s1: "unat (used b1 + (len - 4)) = 4 + unat len" using len rem by (subst unat_add_no_wrap) auto
    then have f: "realloc_buffer True (used b1 + (len - 4)) b1 = None" by (intro realloc_fails) (use len(2) in \<open>simp add: word_le_nat_alt\<close>)
    show ?thesis
    proof (cases "allocated b < used b + (len - 4)")
      case True
      then have "make_room True (len - 4) b = (case realloc_buffer True (used b1 + (len - 4)) b1 of None \<Rightarrow> Inl b1 | Some b2 \<Rightarrow> Inr b2)"
        by (simp only: make_room_def b1_def Let_def if_True)
      with f nw show ?thesis by (simp add: ssh_buffer_allocate_def)
    next
      case False
      with sum al len(2) ub show ?thesis by (simp add: word_less_nat_alt)
    qed
  qed
  then obtain b' where "ssh_buffer_allocate True (len - 4) b = (None, b')" by (cases "ssh_buffer_allocate True (len - 4) b") auto
  moreover have "len + 4 \<noteq> 0" using l4 by auto
  ultimately have "read_body env ?p ?t dat = fail (len + 4) (with_in ?t b')"
    using nlt env by (simp add: read_body_def Let_def p with_in_def)
  then have "receive env ?p r (Some dat) = fail (len + 4) (with_in ?t b')"
    using b(3) w(2,3) by (simp add: receive_def fail_def)
  then show ?thesis by (simp add: fail_def)
qed

section \<open>Evaluation\<close>

text \<open>An environment in which everything works, and sessions with a toy cipher.\<close>

definition demo_packet_env :: "unit packet_env" where
  "demo_packet_env =
     \<lparr>new_ok = True, id_ok = True, now = 7, make_sessionid = (\<lambda>s. (0, s)),
      set_algorithms_client = (\<lambda>s. (0, s)), generate_session_keys = (\<lambda>s. (0, s)),
      mem = True, hmac_init = (\<lambda>key t. True), hmac_update = (\<lambda>bs. True),
      hmac_final = (\<lambda>key t bs. Some (replicate (hmac_digest_len t) (foldr (XOR) (key @ bs) 0))),
      random = (\<lambda>i n. Some (replicate n 7)), compress = (\<lambda>s b. (0, b)), decompress = (\<lambda>s b. (0, b)),
      sock_ok = (\<lambda>s. True), elapsed = (\<lambda>t n. False), send_rekex = (\<lambda>s. (0, s)), table_at = (\<lambda>a. None)\<rparr>"

definition demo_keys :: "unit ssh_crypto" where
  "demo_keys = (demo_crypto 3)\<lparr>in_hmac := SSH_HMAC_SHA256, out_hmac := SSH_HMAC_SHA256, in_hmac_etm := True, out_hmac_etm := True\<rparr>"

definition demo_message :: ssh_buffer where
  "demo_message = \<lparr>secure = False, used = 3, allocated = 4, pos = 0, data = [90, 1, 2, 0], freed = []\<rparr>"

definition demo_keyed :: "unit ssh_session" where
  "demo_keyed = (demo_session (Some demo_keys) (Some (demo_crypto 0)))\<lparr>out_buffer := demo_message\<rparr>"

lemma demo_env_works:
  "mem demo_packet_env" "macs_work demo_packet_env" "random_works demo_packet_env" "sock_ok demo_packet_env t"
  by (simp_all add: demo_packet_env_def macs_work_def random_works_def)

lemma demo_message_ok: "buffer_ok demo_message" "contents demo_message = [90, 1, 2]"
  by (simp_all add: buffer_ok_def contents_def demo_message_def)

lemma demo_current:
  "ssh_packet_get_current_crypto (Some demo_keyed) 2 = Some demo_keys" "ssh_packet_get_current_crypto (Some demo_keyed) 1 = Some demo_keys"
  by (simp_all add: ssh_packet_get_current_crypto_def demo_keyed_def demo_session_def demo_keys_def demo_crypto_def)

lemma xor_twice: "(x XOR 0x5A) XOR 0x5A = (x :: byte)"
  by (simp add: xor.assoc)

lemma demo_pair: "cipher_pair (\<lambda>_ _. True) 16 (encrypt demo_cipher) (decrypt demo_cipher)"
  by (simp add: cipher_pair_def demo_cipher_def comp_def xor_twice)

lemma demo_match: "keys_match (\<lambda>_ _. True) demo_keys demo_keys"
proof -
  have "\<exists>k. 3 \<le> k \<and> k \<le> 6 \<and> (16 :: u32) = 2 ^ k" by (rule exI [of _ 4]) simp
  then show ?thesis using demo_pair by (simp add: keys_match_def demo_keys_def demo_crypto_def Let_def demo_cipher_def)
qed

lemma demo_in_step: "in_step (\<lambda>_ _. True) demo_keyed demo_keyed"
  using demo_match by (simp add: in_step_def demo_current) (simp add: demo_keyed_def demo_session_def)

lemma current_dh:
  "ssh_packet_get_current_crypto (Some (s\<lparr>dh_handshake_state := h, out_queue := q\<rparr>)) d = ssh_packet_get_current_crypto (Some s) d"
  by (simp add: ssh_packet_get_current_crypto_def)

lemma demo_fields: "out_buffer demo_keyed = demo_message" "out_queue demo_keyed = []" "recv_seq demo_keyed = 0" "wire demo_keyed = []"
  by (simp_all add: demo_keyed_def demo_session_def)

lemma demo_waiting: "waiting demo_keyed"
  by (simp add: waiting_def demo_keyed_def demo_session_def)

lemma demo_sendable: "sendable demo_packet_env demo_keyed [90, 1, 2]"
  using in_step_pad(1) [OF demo_in_step, of "[90, 1, 2]"] in_step_pad(2) [OF demo_in_step] demo_message_ok demo_env_works(1)
  by (simp add: sendable_def demo_fields)

lemma demo_received: "\<exists>w u. receive demo_packet_env (recv_params demo_keyed) demo_keyed (Some w) = Go (of_nat (length w)) u"
proof -
  have "out_hmac_etm demo_keys" "send_seq demo_keyed = recv_seq demo_keyed"
    by (simp_all add: demo_keys_def demo_keyed_def demo_session_def)
  from roundtrip_etm [OF demo_current demo_match this demo_sendable _ _ demo_env_works(2-4) demo_waiting]
  obtain w where "length w < 16384" and w: "\<And>rest. length (w @ rest) < 2 ^ 32 \<Longrightarrow>
      \<exists>u. receive demo_packet_env (recv_params demo_keyed) demo_keyed (Some (w @ rest)) = Go (of_nat (length w)) u"
    unfolding delivered_def by force
  with w [of "[]"] show ?thesis by auto
qed

theorem padding_well_formed_witness:
  "4 \<le> padding_size 16 0 4 40 \<and> (40 + 5 + ucast (padding_size 16 0 4 40) - 0 - 4 :: u32) mod 16 = 0"
  using padding_well_formed [where bs = 16 and k = 4 and l = 0 and off = 4 and n = 40] by simp

theorem packet_roundtrip_witness: "delivered demo_packet_env (\<lambda>_ _. True) demo_keyed demo_keyed [90, 1, 2]"
  by (rule packet_roundtrip [OF demo_in_step demo_sendable _ _ demo_env_works(2-4) demo_waiting]) simp_all

theorem queue_delivered_in_order_witness:
  "\<exists>t ws. drain demo_packet_env [demo_message, demo_message]
      (demo_keyed\<lparr>dh_handshake_state := DH_STATE_NEWKEYS_SENT, out_queue := [demo_message, demo_message]\<rparr>) = (SSH_OK, t) \<and>
    out_queue t = [] \<and> reads demo_packet_env demo_keyed (concat ws) [[90, 1, 2], [90, 1, 2]]"
proof -
  let ?s = "demo_keyed\<lparr>dh_handshake_state := DH_STATE_NEWKEYS_SENT, out_queue := [demo_message, demo_message]\<rparr>"
  have "in_step (\<lambda>_ _. True) ?s demo_keyed"
    using demo_in_step by (simp add: in_step_def current_dh)
  then have "listening (\<lambda>_ _. True) ?s (length (out_queue ?s)) demo_keyed"
    using demo_waiting by (simp add: listening_def demo_fields)
  from queue_delivered_in_order [OF this _ _ _ demo_env_works]
  have "\<exists>t ws. drain demo_packet_env (out_queue ?s) ?s = (SSH_OK, t) \<and> out_queue t = [] \<and> wire t = wire ?s @ ws \<and>
      reads demo_packet_env demo_keyed (concat ws) (map contents (out_queue ?s))"
    using demo_message_ok by (simp add: queueable_def)
  moreover have "out_queue ?s = [demo_message, demo_message]" by simp
  ultimately show ?thesis by (simp del: drain.simps reads.simps add: demo_message_ok(2)) blast
qed

theorem rekey_holds_back_witness:
  "fst (ssh_packet_send demo_packet_env (demo_keyed\<lparr>dh_handshake_state := DH_STATE_INIT\<rparr>)) = SSH_OK \<and>
   out_queue (snd (ssh_packet_send demo_packet_env (demo_keyed\<lparr>dh_handshake_state := DH_STATE_INIT\<rparr>))) = [demo_message]"
proof -
  let ?s = "demo_keyed\<lparr>dh_handshake_state := DH_STATE_INIT\<rparr>"
  have "ssh_packet_in_rekey ?s" "buffer_ok (out_buffer ?s)" "contents (out_buffer ?s) = 90 # [1, 2]"
    using demo_message_ok by (simp_all add: ssh_packet_in_rekey_def demo_keyed_def demo_session_def)
  from rekey_holds_back [OF this(1) demo_env_works(1) this(2,3)]
  show ?thesis by (auto simp: ssh_packet_is_kex_def demo_fields)
qed



theorem encrypt_failure_sends_plaintext_witness:
  "\<exists>t w. packet_send2 (demo_packet_env\<lparr>hmac_init := \<lambda>key t. False\<rparr>) demo_keyed = (SSH_OK, t) \<and>
     wire t = [w] \<and> take 3 (drop 5 w) = [90, 1, 2]"
proof -
  let ?e = "demo_packet_env\<lparr>hmac_init := \<lambda>key t. False\<rparr>"
  have "random_works ?e" using demo_env_works(3) by (simp add: random_works_def)
  moreover have "sendable ?e demo_keyed [90, 1, 2]" using demo_sendable by (simp add: sendable_def)
  moreover have "aead_encrypt (the (out_cipher demo_keys)) = None" "out_hmac demo_keys \<noteq> SSH_HMAC_NONE"
    by (simp_all add: demo_keys_def demo_crypto_def demo_cipher_def)
  moreover have "sock_ok ?e t" for t using demo_env_works(4) by simp
  ultimately have "\<exists>t w. packet_send2 ?e demo_keyed = (SSH_OK, t) \<and> wire t = wire demo_keyed @ [w] \<and>
      take (length [90, 1, 2 :: byte]) (drop 5 w) = [90, 1, 2]"
    by (intro encrypt_failure_sends_plaintext [OF demo_current(1)]) simp_all
  then show ?thesis by (simp add: demo_fields eval_nat_numeral)
qed

theorem large_packet_ends_session_witness:
  "\<exists>n v. receive demo_packet_env (recv_params (demo_session None (Some (demo_crypto 0)))) (demo_session None (Some (demo_crypto 0)))
      (Some ([0, 0, 0x40, 0] @ replicate 16384 0)) = Return n v \<and> session_state v = SSH_SESSION_STATE_ERROR"
proof -
  let ?r = "demo_session None (Some (demo_crypto 0))" and ?d = "[0, 0, 0x40, 0] @ replicate 16384 0 :: byte list"
  have "ssh_packet_get_current_crypto (Some ?r) 1 = None"
    by (simp add: ssh_packet_get_current_crypto_def demo_session_def demo_crypto_def)
  moreover have "waiting ?r" by (simp add: waiting_def demo_session_def)
  moreover have "be_word (take 4 ?d) = (16384 :: u32)" by (simp add: be_word_def)
  ultimately show ?thesis by (rule large_packet_ends_session [OF _ _ demo_env_works(1)]) simp_all
qed

end
