(* ===== verification/Channel_State.thy ===== *)
theory Channel_State
  imports Packet_Safety
begin

unbundle bit_operations_syntax

text \<open>
  Channels (\<open>channels.c\<close>, \<open>channels.h\<close>): their state, the session around them, and the operations
  every other part uses. A channel is an object on the heap: \<open>chan_at\<close> tells which addresses hold a
  live one, so that an access to a freed channel is visible; it makes the result None.
\<close>

section \<open>State\<close>

datatype channel_request_state =
    SSH_CHANNEL_REQ_STATE_NONE | SSH_CHANNEL_REQ_STATE_PENDING | SSH_CHANNEL_REQ_STATE_ACCEPTED
  | SSH_CHANNEL_REQ_STATE_DENIED | SSH_CHANNEL_REQ_STATE_ERROR

datatype channel_state =
    SSH_CHANNEL_STATE_NOT_OPEN | SSH_CHANNEL_STATE_OPENING | SSH_CHANNEL_STATE_OPEN_DENIED
  | SSH_CHANNEL_STATE_OPEN | SSH_CHANNEL_STATE_CLOSED

abbreviation (input) SSH_CHANNEL_FLAG_CLOSED_REMOTE :: u32 where "SSH_CHANNEL_FLAG_CLOSED_REMOTE \<equiv> 1"
abbreviation (input) SSH_CHANNEL_FLAG_CLOSED_LOCAL :: u32 where "SSH_CHANNEL_FLAG_CLOSED_LOCAL \<equiv> 2"
abbreviation (input) SSH_CHANNEL_FLAG_FREED_LOCAL :: u32 where "SSH_CHANNEL_FLAG_FREED_LOCAL \<equiv> 4"
abbreviation (input) SSH_CHANNEL_FLAG_NOT_BOUND :: u32 where "SSH_CHANNEL_FLAG_NOT_BOUND \<equiv> 8"

definition CHANNEL_MAX_PACKET :: u32 where "CHANNEL_MAX_PACKET = 32768"
definition WINDOW_DEFAULT :: u32 where "WINDOW_DEFAULT = 8000"

text \<open>\<open>chan_callbacks\<close> holds the addresses of the user's tables of functions.\<close>

record ssh_channel =
  local_channel :: u32
  local_window :: u32
  local_eof :: bool
  local_maxpacket :: u32
  remote_channel :: u32
  remote_window :: u32
  remote_eof :: bool
  remote_maxpacket :: u32
  chan_state :: channel_state
  delayed_close :: bool
  chan_flags :: u32
  stdout_buffer :: "ssh_buffer option"
  stderr_buffer :: "ssh_buffer option"
  exit_status :: bool
  exit_code :: u32
  exit_signal :: "byte list option"
  core_dumped :: bool
  request_state :: channel_request_state
  chan_callbacks :: "nat list option"
  counter :: "raw_counter option"

text \<open>
  Logging in: the call that has not got its answer yet, and the questions of a keyboard-interactive
  login; None is a null pointer, of the arrays and of what they point to.
\<close>

datatype pending_call =
    SSH_PENDING_CALL_NONE | SSH_PENDING_CALL_CONNECT | SSH_PENDING_CALL_AUTH_NONE | SSH_PENDING_CALL_AUTH_PASSWORD
  | SSH_PENDING_CALL_AUTH_OFFER_PUBKEY | SSH_PENDING_CALL_AUTH_PUBKEY | SSH_PENDING_CALL_AUTH_AGENT
  | SSH_PENDING_CALL_AUTH_KBDINT_INIT | SSH_PENDING_CALL_AUTH_KBDINT_SEND | SSH_PENDING_CALL_AUTH_GSSAPI_MIC

record kbdint =
  nprompts :: u32
  nanswers :: u32
  kbd_name :: "byte list option"
  kbd_instruction :: "byte list option"
  kbd_prompts :: "byte list option list option"
  kbd_echo :: "byte list option"
  kbd_answers :: "byte list option list option"

record login =
  pending_call :: pending_call
  supported_methods :: u32
  current_method :: u32
  kbdint :: "kbdint option"
  issue_banner :: "ssh_string option"
  bye_message :: "byte list option"
  user_name :: "byte list option"

text \<open>
  The session with the part that channels use. \<open>rounds\<close> counts the calls that wait for the
  network, so that what they deliver may differ from one to the next; \<open>sent\<close> is a history
  variable, the payloads given to the packet layer.
\<close>

record 'k conn =
  sess :: "'k ssh_session"
  alive :: bool
  maxchannel :: u32
  global_req_state :: channel_request_state
  channels :: "nat list option"
  chan_at :: "nat \<Rightarrow> ssh_channel option"
  opts_timeout :: u32
  opts_timeout_usec :: u32
  rounds :: nat
  sent :: "byte list list"
  login :: login

text \<open>The events a channel tells the user's callbacks.\<close>

datatype chan_event =
    Open_response bool | Write_wontblock u32 | Eof | Close | Request_response
  | Exit_status u32 | Signal "byte list" | Exit_signal "byte list" bool "byte list" "byte list"

text \<open>
  What channels use from elsewhere: the packet layer with its environment; whether the socket can
  be polled, and one round of polling for so many milliseconds (its result, and the session after
  the handlers have run, or None when one of them faults or does not return); the clock in
  milliseconds at each round; whether bytes wait in the socket's buffer; the user's callbacks; and
  the handling of requests for servers (\<open>messages.c\<close>). \<open>fresh\<close> is the address a new channel gets.
\<close>

record 'k conn_env =
  pk :: "'k packet_env"
  pollable :: "'k conn \<Rightarrow> bool"
  poll_round :: "nat \<Rightarrow> int \<Rightarrow> 'k conn \<Rightarrow> (int \<times> 'k conn) option"
  clock :: "nat \<Rightarrow> int"
  write_buffered :: "'k conn \<Rightarrow> bool"
  event_cb :: "nat \<Rightarrow> chan_event \<Rightarrow> nat \<Rightarrow> 'k conn \<Rightarrow> 'k conn"
  data_cb :: "nat \<Rightarrow> nat \<Rightarrow> byte list \<Rightarrow> bool \<Rightarrow> 'k conn \<Rightarrow> int \<times> 'k conn"
  agent_cb :: "nat \<Rightarrow> (nat \<Rightarrow> 'k conn \<Rightarrow> 'k conn) option"
  server_request :: "nat \<Rightarrow> byte list \<Rightarrow> byte \<Rightarrow> 'k conn \<Rightarrow> 'k conn"
  fresh :: "'k conn \<Rightarrow> nat"
  random_cookie :: "byte list option"

section \<open>Access\<close>

definition upd_chan :: "nat \<Rightarrow> (ssh_channel \<Rightarrow> ssh_channel) \<Rightarrow> 'k conn \<Rightarrow> 'k conn" where
  "upd_chan a f c = c\<lparr>chan_at := (chan_at c)(a := map_option f (chan_at c a))\<rparr>"

definition with_sess :: "('k ssh_session \<Rightarrow> 'k ssh_session) \<Rightarrow> 'k conn \<Rightarrow> 'k conn" where
  "with_sess f c = c\<lparr>sess := f (sess c)\<rparr>"

definition send_packet :: "'k conn_env \<Rightarrow> 'k conn \<Rightarrow> int \<times> 'k conn" where
  "send_packet env c =
     (let (rc, s) = ssh_packet_send (pk env) (sess c)
      in (rc, c\<lparr>sess := s, sent := sent c @ [contents (out_buffer (sess c))]\<rparr>))"

text \<open>
  \<open>ssh_buffer_pack\<close> into the outgoing buffer and \<open>ssh_buffer_unpack\<close> of the packet that is being
  handled, which is the session's incoming buffer. The formats of this file fit their arguments.
\<close>

definition pack_out :: "'k conn_env \<Rightarrow> string \<Rightarrow> va list \<Rightarrow> 'k conn \<Rightarrow> int \<times> 'k conn" where
  "pack_out env format args c =
     (case ssh_buffer_pack (mem (pk env)) format (length args) (args @ [VA_end]) (out_buffer (sess c)) of
        None \<Rightarrow> (SSH_ERROR, c)
      | Some (rc, b) \<Rightarrow> (rc, with_sess (\<lambda>s. s\<lparr>out_buffer := b\<rparr>) c))"

definition unpack_in :: "'k conn_env \<Rightarrow> string \<Rightarrow> 'k conn \<Rightarrow> int \<times> item list \<times> 'k conn" where
  "unpack_in env format c =
     (case ssh_buffer_unpack (mem (pk env)) (\<lambda>_. True) format (length format)
             (replicate (length format) UA_ptr @ [UA_end]) (the (in_buffer (sess c))) of
        None \<Rightarrow> (SSH_ERROR, [], c)
      | Some (rc, items, b) \<Rightarrow> (rc, items, with_sess (\<lambda>s. s\<lparr>in_buffer := Some b\<rparr>) c))"

definition reinit_out :: "'k conn_env \<Rightarrow> 'k conn \<Rightarrow> 'k conn" where
  "reinit_out env c = with_sess (\<lambda>s. s\<lparr>out_buffer := snd (ssh_buffer_reinit (mem (pk env)) (out_buffer s))\<rparr>) c"

text \<open>\<open>ssh_callbacks_execute_list\<close>: the functions of all tables of the channel.\<close>

definition notify :: "'k conn_env \<Rightarrow> chan_event \<Rightarrow> nat \<Rightarrow> 'k conn \<Rightarrow> 'k conn" where
  "notify env ev a c =
     (case chan_at c a of
        None \<Rightarrow> c
      | Some ch \<Rightarrow> fold (\<lambda>cb. event_cb env cb ev a) (case chan_callbacks ch of None \<Rightarrow> [] | Some l \<Rightarrow> l) c)"

section \<open>Lists of channels\<close>

definition ssh_channel_new_id :: "'k conn \<Rightarrow> u32 \<times> 'k conn" where
  "ssh_channel_new_id c = (maxchannel c + 1, c\<lparr>maxchannel := maxchannel c + 1\<rparr>)"

definition new_channel :: "ssh_buffer \<Rightarrow> ssh_buffer \<Rightarrow> ssh_channel" where
  "new_channel out err =
     \<lparr>local_channel = 0, local_window = 0, local_eof = False, local_maxpacket = 0, remote_channel = 0,
      remote_window = 0, remote_eof = False, remote_maxpacket = 0, chan_state = SSH_CHANNEL_STATE_NOT_OPEN,
      delayed_close = False, chan_flags = SSH_CHANNEL_FLAG_NOT_BOUND, stdout_buffer = Some out,
      stderr_buffer = Some err, exit_status = False, exit_code = -1, exit_signal = None,
      core_dumped = False, request_state = SSH_CHANNEL_REQ_STATE_NONE, chan_callbacks = None, counter = None\<rparr>"

definition ssh_channel_new :: "'k conn_env \<Rightarrow> 'k conn \<Rightarrow> nat option \<times> 'k conn" where
  "ssh_channel_new env c =
     (if flags (sess c) AND SSH_SESSION_FLAG_AUTHENTICATED = 0 then (None, c)
      else if \<not> mem (pk env) then (None, c)
      else
        (case (ssh_buffer_new True True, ssh_buffer_new True True) of
           (Some out, Some err) \<Rightarrow>
             let a = fresh env c
             in (Some a, c\<lparr>chan_at := (chan_at c)(a \<mapsto> new_channel out err),
                           channels := Some (a # (case channels c of None \<Rightarrow> [] | Some l \<Rightarrow> l))\<rparr>)
         | _ \<Rightarrow> (None, c)))"

fun find_local :: "(nat \<Rightarrow> ssh_channel option) \<Rightarrow> u32 \<Rightarrow> nat list \<Rightarrow> nat option option" where
  "find_local h i [] = Some None"
| "find_local h i (a # l) =
     (case h a of None \<Rightarrow> None | Some ch \<Rightarrow> if local_channel ch = i then Some (Some a) else find_local h i l)"

definition ssh_channel_from_local :: "'k conn \<Rightarrow> u32 \<Rightarrow> nat option option" where
  "ssh_channel_from_local c i = find_local (chan_at c) i (case channels c of None \<Rightarrow> [] | Some l \<Rightarrow> l)"

definition channel_from_msg :: "'k conn_env \<Rightarrow> 'k conn \<Rightarrow> (nat option \<times> 'k conn) option" where
  "channel_from_msg env c =
     (let (rc, items, c1) = unpack_in env ''d'' c in
      case items of
        [I_dword chan] \<Rightarrow> map_option (\<lambda>a. (a, c1)) (ssh_channel_from_local c1 chan)
      | _ \<Rightarrow> Some (None, c1))"

definition ssh_channel_do_free :: "nat \<Rightarrow> 'k conn \<Rightarrow> 'k conn" where
  "ssh_channel_do_free a c =
     c\<lparr>channels := map_option (remove1 a) (channels c), chan_at := (chan_at c)(a := None)\<rparr>"

section \<open>Windows\<close>

definition buffer_len :: "ssh_buffer option \<Rightarrow> u32" where
  "buffer_len b = (case b of None \<Rightarrow> 0 | Some x \<Rightarrow> ssh_buffer_get_len x)"

definition window_increment :: "ssh_channel \<Rightarrow> u32" where
  "window_increment ch =
     (let used = local_window ch + buffer_len (stdout_buffer ch) + buffer_len (stderr_buffer ch)
      in if used < WINDOW_DEFAULT then WINDOW_DEFAULT - used else 0)"

definition grow_window :: "'k conn_env \<Rightarrow> nat \<Rightarrow> 'k conn \<Rightarrow> (int \<times> 'k conn) option" where
  "grow_window env a c =
     (case chan_at c a of
        None \<Rightarrow> None
      | Some ch \<Rightarrow>
          let increment = window_increment ch
          in if increment < WINDOW_DEFAULT div 2 then Some (SSH_OK, c)
             else
               let (rc, c1) = pack_out env ''bdd'' [VA_int 93, VA_int (remote_channel ch), VA_int increment] c
               in if rc \<noteq> SSH_OK then Some (SSH_ERROR, reinit_out env c1)
                  else
                    let (rc2, c2) = send_packet env c1
                    in if rc2 = SSH_ERROR then Some (SSH_ERROR, reinit_out env c2)
                       else Some (SSH_OK, upd_chan a (\<lambda>ch. ch\<lparr>local_window := local_window ch + increment\<rparr>) c2))"

definition ssh_channel_has_unread_data :: "ssh_channel \<Rightarrow> bool" where
  "ssh_channel_has_unread_data ch = (0 < buffer_len (stdout_buffer ch) \<or> 0 < buffer_len (stderr_buffer ch))"

text \<open>A failed append frees the buffer with everything in it.\<close>

definition bufferize :: "bool \<Rightarrow> byte list \<Rightarrow> ssh_buffer option \<Rightarrow> int \<times> ssh_buffer option" where
  "bufferize m dat b =
     (case (case b of None \<Rightarrow> ssh_buffer_new m m | Some x \<Rightarrow> Some x) of
        None \<Rightarrow> (-1, None)
      | Some x \<Rightarrow> let (rc, x') = ssh_buffer_add_data m (Some dat) x in if rc < 0 then (-1, None) else (0, Some x'))"

definition channel_default_bufferize :: "bool \<Rightarrow> byte list \<Rightarrow> bool \<Rightarrow> ssh_channel \<Rightarrow> int \<times> ssh_channel" where
  "channel_default_bufferize m dat is_stderr ch =
     (if is_stderr then let (rc, b) = bufferize m dat (stderr_buffer ch) in (rc, ch\<lparr>stderr_buffer := b\<rparr>)
      else let (rc, b) = bufferize m dat (stdout_buffer ch) in (rc, ch\<lparr>stdout_buffer := b\<rparr>))"

end
