(* ===== verification/Session_Wait.thy ===== *)
theory Session_Wait
  imports Channel_State
begin

unbundle bit_operations_syntax

text \<open>
  Waiting for the peer (\<open>session.c\<close>, and the clock of \<open>misc.c\<close>): one round of packets, and
  rounds until a condition holds or the time is up. A condition is asked of the session; it gives
  None when it looks at a channel that was freed.
\<close>

abbreviation (input) SSH_TIMEOUT_INFINITE :: int where "SSH_TIMEOUT_INFINITE \<equiv> -1"
abbreviation (input) SSH_TIMEOUT_USER :: int where "SSH_TIMEOUT_USER \<equiv> -2"
abbreviation (input) SSH_TIMEOUT_DEFAULT :: int where "SSH_TIMEOUT_DEFAULT \<equiv> -3"
abbreviation (input) SSH_TIMEOUT_NONBLOCKING :: int where "SSH_TIMEOUT_NONBLOCKING \<equiv> 0"
abbreviation (input) SSH_SESSION_FLAG_BLOCKING :: u32 where "SSH_SESSION_FLAG_BLOCKING \<equiv> 1"

section \<open>Time\<close>

definition ssh_make_milliseconds :: "u32 \<Rightarrow> u32 \<Rightarrow> int" where
  "ssh_make_milliseconds sec usec =
     (let res = (if usec \<noteq> 0 then usec div 1000 else 0) + sec * 1000;
          res = (if res = 0 then 10 * 1000 else res)
      in if 2147483647 < res then SSH_TIMEOUT_INFINITE else uint res)"

definition ssh_timeout_elapsed :: "int \<Rightarrow> int \<Rightarrow> int \<Rightarrow> bool" where
  "ssh_timeout_elapsed t ts timeout =
     (if timeout = -2 \<or> timeout = -1 then False else if timeout = 0 then True else timeout \<le> t - ts)"

definition ssh_timeout_update :: "int \<Rightarrow> int \<Rightarrow> int \<Rightarrow> int" where
  "ssh_timeout_update t ts timeout =
     (if timeout \<le> 0 then timeout
      else let ms = (if t - ts < 0 then 0 else t - ts); ret = timeout - ms in if 0 \<le> ret then ret else 0)"

section \<open>Blocking mode\<close>

definition ssh_set_blocking :: "bool \<Rightarrow> 'k conn \<Rightarrow> 'k conn" where
  "ssh_set_blocking blocking c =
     with_sess (\<lambda>s. s\<lparr>flags := flags s AND NOT SSH_SESSION_FLAG_BLOCKING OR
                                (if blocking then SSH_SESSION_FLAG_BLOCKING else 0)\<rparr>) c"

definition ssh_is_blocking :: "'k conn \<Rightarrow> bool" where
  "ssh_is_blocking c = (flags (sess c) AND SSH_SESSION_FLAG_BLOCKING \<noteq> 0)"

section \<open>Rounds\<close>

definition ssh_handle_packets :: "'k conn_env \<Rightarrow> int \<Rightarrow> 'k conn \<Rightarrow> (int \<times> 'k conn) option" where
  "ssh_handle_packets env timeout c =
     (if \<not> pollable env c then Some (SSH_ERROR, c)
      else
        let tm = (if timeout = SSH_TIMEOUT_USER then
                    (if ssh_is_blocking c then ssh_make_milliseconds (opts_timeout c) (opts_timeout_usec c) else 0)
                  else timeout)
        in case poll_round env (rounds c) tm (c\<lparr>rounds := Suc (rounds c)\<rparr>) of
             None \<Rightarrow> None
           | Some (rc, c1) \<Rightarrow>
               Some (rc, if rc = SSH_ERROR then with_sess (\<lambda>s. s\<lparr>session_state := SSH_SESSION_STATE_ERROR\<rparr>) c1 else c1))"

definition wait_timeout :: "int \<Rightarrow> 'k conn \<Rightarrow> int" where
  "wait_timeout timeout c =
     (if 0 \<le> timeout then timeout
      else if ssh_is_blocking c then
        (if (timeout = SSH_TIMEOUT_USER \<or> timeout = SSH_TIMEOUT_DEFAULT) \<and>
            (0 < opts_timeout c \<or> 0 < opts_timeout_usec c)
         then ssh_make_milliseconds (opts_timeout c) (opts_timeout_usec c) else SSH_TIMEOUT_INFINITE)
      else SSH_TIMEOUT_NONBLOCKING)"

partial_function (option) wait_loop ::
  "'k conn_env \<Rightarrow> ('k conn \<Rightarrow> bool option) \<Rightarrow> int \<Rightarrow> int \<Rightarrow> int \<Rightarrow> int \<Rightarrow> 'k conn \<Rightarrow> (int \<times> 'k conn) option" where
  "wait_loop env fct ts timeout_ms tm ret c =
     Option.bind (fct c) (\<lambda>done.
       if done then Some (ret, c)
       else Option.bind (ssh_handle_packets env tm c) (\<lambda>(ret1, c1).
         if ret1 = SSH_ERROR then Some (ret1, c1)
         else if ssh_timeout_elapsed (clock env (rounds c1)) ts timeout_ms then
           Option.bind (fct c1) (\<lambda>done1. Some (if done1 then SSH_OK else SSH_AGAIN, c1))
         else wait_loop env fct ts timeout_ms (ssh_timeout_update (clock env (rounds c1)) ts timeout_ms) ret1 c1))"

definition ssh_handle_packets_termination ::
  "'k conn_env \<Rightarrow> int \<Rightarrow> ('k conn \<Rightarrow> bool option) \<Rightarrow> 'k conn \<Rightarrow> (int \<times> 'k conn) option" where
  "ssh_handle_packets_termination env timeout fct c =
     (let tm = wait_timeout timeout c in wait_loop env fct (clock env (rounds c)) tm tm SSH_OK c)"

definition session_failed :: "'k conn \<Rightarrow> bool" where
  "session_failed c = (session_state (sess c) = SSH_SESSION_STATE_ERROR)"

definition ssh_flush_termination :: "'k conn_env \<Rightarrow> 'k conn \<Rightarrow> bool option" where
  "ssh_flush_termination env c = Some (\<not> write_buffered env c \<or> session_failed c)"

definition ssh_blocking_flush :: "'k conn_env \<Rightarrow> int \<Rightarrow> 'k conn \<Rightarrow> (int \<times> 'k conn) option" where
  "ssh_blocking_flush env timeout c =
     Option.bind (ssh_handle_packets_termination env timeout (ssh_flush_termination env) c) (\<lambda>(rc, c1).
       if rc = SSH_ERROR then Some (rc, c1)
       else Option.bind (ssh_flush_termination env c1) (\<lambda>done. Some (if done then rc else SSH_AGAIN, c1)))"

section \<open>What waiting keeps, and when it ends\<close>

lemma wait_loop_both:
  assumes ret: "wait_loop env fct ts tmo tm ret0 c = Some r"
  shows "(fst r \<noteq> SSH_ERROR \<and> fst r \<noteq> SSH_AGAIN \<longrightarrow> fct (snd r) = Some True) \<and>
    (\<forall>P. P c \<longrightarrow> (\<forall>tm c x. P c \<longrightarrow> ssh_handle_packets env tm c = Some x \<longrightarrow> P (snd x)) \<longrightarrow> P (snd r))"
proof (rule wait_loop.raw_induct [where P = "\<lambda>env fct ts tmo tm ret0 c r.
    (fst r \<noteq> SSH_ERROR \<and> fst r \<noteq> SSH_AGAIN \<longrightarrow> fct (snd r) = Some True) \<and>
    (\<forall>P. P c \<longrightarrow> (\<forall>tm c x. P c \<longrightarrow> ssh_handle_packets env tm c = Some x \<longrightarrow> P (snd x)) \<longrightarrow> P (snd r))", OF _ ret])
  fix f and env :: "'a conn_env" and fct ts tmo tm ret0 c r
  assume IH: "\<And>env fct ts tmo tm ret0 c r. f env fct ts tmo tm ret0 c = Some r \<Longrightarrow>
      (fst r \<noteq> SSH_ERROR \<and> fst r \<noteq> SSH_AGAIN \<longrightarrow> fct (snd r) = Some True) \<and>
      (\<forall>P. P c \<longrightarrow> (\<forall>tm c x. P c \<longrightarrow> ssh_handle_packets env tm c = Some x \<longrightarrow> P (snd x)) \<longrightarrow> P (snd r))"
    and eq: "Option.bind (fct c) (\<lambda>done.
       if done then Some (ret0, c)
       else Option.bind (ssh_handle_packets env tm c) (\<lambda>(ret1, c1).
         if ret1 = SSH_ERROR then Some (ret1, c1)
         else if ssh_timeout_elapsed (clock env (rounds c1)) ts tmo then
           Option.bind (fct c1) (\<lambda>done1. Some (if done1 then SSH_OK else SSH_AGAIN, c1))
         else f env fct ts tmo (ssh_timeout_update (clock env (rounds c1)) ts tmo) ret1 c1)) = Some r"
  from eq obtain d where d: "fct c = Some d" by (cases "fct c") auto
  show "(fst r \<noteq> SSH_ERROR \<and> fst r \<noteq> SSH_AGAIN \<longrightarrow> fct (snd r) = Some True) \<and>
      (\<forall>P. P c \<longrightarrow> (\<forall>tm c x. P c \<longrightarrow> ssh_handle_packets env tm c = Some x \<longrightarrow> P (snd x)) \<longrightarrow> P (snd r))"
  proof (cases d)
    case True
    with eq d show ?thesis by auto
  next
    case False
    with eq d obtain ret1 c1 where p: "ssh_handle_packets env tm c = Some (ret1, c1)"
      by (cases "ssh_handle_packets env tm c") auto
    show ?thesis
    proof (cases "ret1 = SSH_ERROR \<or> ssh_timeout_elapsed (clock env (rounds c1)) ts tmo")
      case True
      with eq d False p have r: "snd r = c1" "fst r \<noteq> SSH_ERROR \<longrightarrow> fst r \<noteq> SSH_AGAIN \<longrightarrow> fct c1 = Some True"
        by (auto split: if_splits option.splits simp: bind_eq_Some_conv)
      show ?thesis
      proof (intro conjI allI impI)
        fix P assume "P c" and "\<forall>tm c x. P c \<longrightarrow> ssh_handle_packets env tm c = Some x \<longrightarrow> P (snd x)"
        with p r(1) show "P (snd r)" by (metis snd_conv)
      qed (use r in auto)
    next
      case go: False
      with eq d False p have "f env fct ts tmo (ssh_timeout_update (clock env (rounds c1)) ts tmo) ret1 c1 = Some r" by simp
      note ih = IH [OF this]
      show ?thesis
      proof (intro conjI allI impI)
        fix P assume "P c" and step: "\<forall>tm c x. P c \<longrightarrow> ssh_handle_packets env tm c = Some x \<longrightarrow> P (snd x)"
        with p have "P c1" by (metis snd_conv)
        with ih step show "P (snd r)" by blast
      qed (use ih in blast)
    qed
  qed
qed

lemma wait_done:
  "ssh_handle_packets_termination env timeout fct c = Some (rc, c') \<Longrightarrow> rc \<noteq> SSH_ERROR \<Longrightarrow> rc \<noteq> SSH_AGAIN \<Longrightarrow>
    fct c' = Some True"
  using wait_loop_both [of env fct _ _ _ SSH_OK c "(rc, c')"] by (auto simp: ssh_handle_packets_termination_def Let_def)

lemma wait_keeps:
  assumes "ssh_handle_packets_termination env timeout fct c = Some (rc, c')" and "P c"
    and "\<And>tm c rc c'. P c \<Longrightarrow> ssh_handle_packets env tm c = Some (rc, c') \<Longrightarrow> P c'"
  shows "P c'"
proof -
  have "\<forall>tm c x. P c \<longrightarrow> ssh_handle_packets env tm c = Some x \<longrightarrow> P (snd x)" using assms(3) by auto
  moreover have "wait_loop env fct (clock env (rounds c)) (wait_timeout timeout c) (wait_timeout timeout c) SSH_OK c =
      Some (rc, c')"
    using assms(1) by (simp add: ssh_handle_packets_termination_def Let_def)
  note wait_loop_both [OF this]
  ultimately show ?thesis using assms(2) by (metis snd_conv)
qed

text \<open>A session that does not block makes at most one round.\<close>

lemma wait_nonblocking:
  assumes "wait_timeout timeout c = 0"
  shows "ssh_handle_packets_termination env timeout fct c =
    Option.bind (fct c) (\<lambda>done. if done then Some (SSH_OK, c)
      else Option.bind (ssh_handle_packets env 0 c) (\<lambda>(rc, c1).
        if rc = SSH_ERROR then Some (rc, c1)
        else Option.bind (fct c1) (\<lambda>done1. Some (if done1 then SSH_OK else SSH_AGAIN, c1))))"
  unfolding ssh_handle_packets_termination_def Let_def assms
  by (subst wait_loop.simps) (simp add: ssh_timeout_elapsed_def cong: if_cong)

lemma flush_keeps:
  assumes "ssh_blocking_flush env timeout c = Some (rc, c')" and "P c"
    and "\<And>tm c rc c'. P c \<Longrightarrow> ssh_handle_packets env tm c = Some (rc, c') \<Longrightarrow> P c'"
  shows "P c'"
proof -
  from assms(1) obtain rc1 where "ssh_handle_packets_termination env timeout (ssh_flush_termination env) c = Some (rc1, c')"
    by (auto simp: ssh_blocking_flush_def ssh_flush_termination_def bind_eq_Some_conv split: if_splits)
  then show ?thesis by (rule wait_keeps [where P = P]) (fact assms(2), rule assms(3))
qed

end
