(* ===== verification/Channel_Recv.thy ===== *)
theory Channel_Recv
  imports Session_Wait
begin

unbundle bit_operations_syntax

text \<open>
  The handlers of the messages for channels (\<open>channels.c\<close>). Each takes the session, whose
  incoming buffer is the message, and returns what it tells the dispatcher (\<open>SSH_PACKET_USED\<close> is
  1) and the session; None is an access to a channel that was freed. Messages to the log and the
  error text of the session are left out.
\<close>

abbreviation (input) chan_view :: "'k conn \<Rightarrow> nat \<Rightarrow> (ssh_channel \<Rightarrow> 'b option) \<Rightarrow> 'b option" where
  "chan_view c a f \<equiv> Option.bind (chan_at c a) f"

text \<open>\<open>strcmp (request, s) == 0\<close>: both end at their first NUL.\<close>

definition same_text :: "byte list \<Rightarrow> string \<Rightarrow> bool" where
  "same_text bs s = (takeWhile (\<lambda>x. x \<noteq> 0) bs = bytes_of s)"

section \<open>Opening\<close>

text \<open>What an unpacking of numbers stores before it fails.\<close>

fun dwords :: "nat \<Rightarrow> ssh_buffer \<Rightarrow> u32 list" where
  "dwords 0 b = []"
| "dwords (Suc n) b = (let ((k, x), b') = ssh_buffer_get_u32 b in if k = 4 then ntohl x # dwords n b' else [])"

definition store_remote :: "u32 list \<Rightarrow> ssh_channel \<Rightarrow> ssh_channel" where
  "store_remote xs ch =
     ch\<lparr>remote_channel := (if 0 < length xs then xs ! 0 else remote_channel ch),
        remote_window := (if 1 < length xs then xs ! 1 else remote_window ch),
        remote_maxpacket := (if 2 < length xs then xs ! 2 else remote_maxpacket ch)\<rparr>"

definition ssh_packet_channel_open_conf :: "'k conn_env \<Rightarrow> 'k conn \<Rightarrow> (int \<times> 'k conn) option" where
  "ssh_packet_channel_open_conf env c =
     Option.bind (channel_from_msg env c) (\<lambda>(chan, c1).
       case chan of
         None \<Rightarrow> Some (1, c1)
       | Some a \<Rightarrow>
           let xs = dwords 3 (the (in_buffer (sess c1)));
               (rc, items, c2) = unpack_in env ''ddd'' c1;
               c3 = upd_chan a (store_remote xs) c2
           in if rc \<noteq> SSH_OK then Some (1, c3)
              else chan_view c3 a (\<lambda>ch.
                if chan_state ch \<noteq> SSH_CHANNEL_STATE_OPENING then Some (1, c3)
                else Some (1, notify env (Open_response True) a
                       (upd_chan a (\<lambda>ch. ch\<lparr>chan_state := SSH_CHANNEL_STATE_OPEN,
                                           chan_flags := chan_flags ch AND NOT SSH_CHANNEL_FLAG_NOT_BOUND\<rparr>) c3))))"

definition ssh_packet_channel_open_fail :: "'k conn_env \<Rightarrow> 'k conn \<Rightarrow> (int \<times> 'k conn) option" where
  "ssh_packet_channel_open_fail env c =
     Option.bind (channel_from_msg env c) (\<lambda>(chan, c1).
       case chan of
         None \<Rightarrow> Some (1, c1)
       | Some a \<Rightarrow>
           let (rc, items, c2) = unpack_in env ''ds'' c1
           in if rc \<noteq> SSH_OK then Some (1, c2)
              else chan_view c2 a (\<lambda>ch.
                if chan_state ch \<noteq> SSH_CHANNEL_STATE_OPENING then Some (1, c2)
                else Some (1, notify env (Open_response False) a
                       (upd_chan a (\<lambda>ch. ch\<lparr>chan_state := SSH_CHANNEL_STATE_OPEN_DENIED\<rparr>) c2))))"

section \<open>Window and data\<close>

definition channel_rcv_change_window :: "'k conn_env \<Rightarrow> 'k conn \<Rightarrow> (int \<times> 'k conn) option" where
  "channel_rcv_change_window env c =
     Option.bind (channel_from_msg env c) (\<lambda>(chan, c1).
       let (rc, items, c2) = unpack_in env ''d'' c1
       in case (chan, items) of
            (Some a, [I_dword bytes]) \<Rightarrow>
              chan_view c2 a (\<lambda>ch.
                let was_empty = (remote_window ch = 0);
                    c3 = upd_chan a (\<lambda>ch. ch\<lparr>remote_window := remote_window ch + bytes\<rparr>) c2
                in Some (1, if was_empty \<and> 0 < bytes then notify env (Write_wontblock (remote_window ch + bytes)) a c3
                            else c3))
          | _ \<Rightarrow> Some (1, c2))"

text \<open>The user's data callbacks in turn; each says how many bytes it took.\<close>

definition std_buf :: "bool \<Rightarrow> ssh_channel \<Rightarrow> ssh_buffer option" where
  "std_buf is_stderr ch = (if is_stderr then stderr_buffer ch else stdout_buffer ch)"

definition set_std :: "bool \<Rightarrow> ssh_buffer \<Rightarrow> ssh_channel \<Rightarrow> ssh_channel" where
  "set_std is_stderr b ch = (if is_stderr then ch\<lparr>stderr_buffer := Some b\<rparr> else ch\<lparr>stdout_buffer := Some b\<rparr>)"

definition count_in :: "u64 \<Rightarrow> ssh_channel \<Rightarrow> ssh_channel" where
  "count_in n ch = ch\<lparr>counter := map_option (\<lambda>k. k\<lparr>in_bytes := in_bytes k + n\<rparr>) (counter ch)\<rparr>"

fun run_data_callbacks :: "'k conn_env \<Rightarrow> nat \<Rightarrow> bool \<Rightarrow> nat list \<Rightarrow> 'k conn \<Rightarrow> (int \<times> 'k conn) option" where
  "run_data_callbacks env a is_stderr [] c = Some (1, c)"
| "run_data_callbacks env a is_stderr (cb # cbs) c =
     chan_view c a (\<lambda>ch.
       Option.bind (std_buf is_stderr ch) (\<lambda>buf.
         let (rest, c1) = data_cb env cb a (contents buf) is_stderr c
         in if rest \<le> 0 then run_data_callbacks env a is_stderr cbs c1
            else chan_view c1 a (\<lambda>ch1.
              Option.bind (std_buf is_stderr ch1) (\<lambda>buf1.
                let b = snd (ssh_buffer_pass_bytes (of_int rest) buf1);
                    c2 = upd_chan a (\<lambda>ch. set_std is_stderr b (count_in (of_int rest) ch)) c1
                in Option.bind (grow_window env a c2) (\<lambda>(rc, c3).
                     if rc = SSH_ERROR then Some (-1, c3) else run_data_callbacks env a is_stderr cbs c3)))))"

definition rcv_string :: "'k conn_env \<Rightarrow> bool \<Rightarrow> nat \<Rightarrow> 'k conn \<Rightarrow> (int \<times> 'k conn) option" where
  "rcv_string env is_stderr a c =
     (let (str, b) = ssh_buffer_get_ssh_string (mem (pk env)) (the (in_buffer (sess c)));
          c1 = with_sess (\<lambda>s. s\<lparr>in_buffer := Some b\<rparr>) c
      in case str of
           None \<Rightarrow> Some (1, c1)
         | Some x \<Rightarrow>
             let len = ssh_string_len (Some x) in
             chan_view c1 a (\<lambda>ch.
               if local_window ch < len then Some (1, c1)
               else
                 let (rc, ch1) = channel_default_bufferize (mem (pk env)) (str_view x) is_stderr ch
                 in if rc < 0 then Some (1, upd_chan a (\<lambda>_. ch1) c1)
                    else
                      let ch2 = ch1\<lparr>local_window := local_window ch1 - len\<rparr>
                      in run_data_callbacks env a is_stderr (case chan_callbacks ch2 of None \<Rightarrow> [] | Some l \<Rightarrow> l)
                           (upd_chan a (\<lambda>_. ch2) c1)))"

definition channel_rcv_data :: "'k conn_env \<Rightarrow> byte \<Rightarrow> 'k conn \<Rightarrow> (int \<times> 'k conn) option" where
  "channel_rcv_data env typ c =
     Option.bind (channel_from_msg env c) (\<lambda>(chan, c1).
       case chan of
         None \<Rightarrow> Some (1, c1)
       | Some a \<Rightarrow>
           if typ = 94 then rcv_string env False a c1
           else
             let ((n, code), b) = ssh_buffer_get_u32 (the (in_buffer (sess c1)));
                 c2 = with_sess (\<lambda>s. s\<lparr>in_buffer := Some b\<rparr>) c1
             in if n \<noteq> 4 then Some (1, c2) else rcv_string env True a c2)"

section \<open>End of file and close\<close>

definition channel_rcv_eof :: "'k conn_env \<Rightarrow> 'k conn \<Rightarrow> (int \<times> 'k conn) option" where
  "channel_rcv_eof env c =
     Option.bind (channel_from_msg env c) (\<lambda>(chan, c1).
       case chan of
         None \<Rightarrow> Some (1, c1)
       | Some a \<Rightarrow> Some (1, notify env Eof a (upd_chan a (\<lambda>ch. ch\<lparr>remote_eof := True\<rparr>) c1)))"

definition channel_rcv_close :: "'k conn_env \<Rightarrow> 'k conn \<Rightarrow> (int \<times> 'k conn) option" where
  "channel_rcv_close env c =
     Option.bind (channel_from_msg env c) (\<lambda>(chan, c1).
       case chan of
         None \<Rightarrow> Some (1, c1)
       | Some a \<Rightarrow>
           let c2 = upd_chan a (\<lambda>ch.
                 (if \<not> ssh_channel_has_unread_data ch then ch\<lparr>chan_state := SSH_CHANNEL_STATE_CLOSED\<rparr>
                  else ch\<lparr>delayed_close := True\<rparr>)\<lparr>remote_eof := True\<rparr>) c1;
               c3 = notify env Close a c2
           in chan_view c3 a (\<lambda>ch.
                let c4 = upd_chan a (\<lambda>ch. ch\<lparr>chan_flags := chan_flags ch OR SSH_CHANNEL_FLAG_CLOSED_REMOTE\<rparr>) c3
                in Some (1, if chan_flags ch AND SSH_CHANNEL_FLAG_FREED_LOCAL \<noteq> 0 then ssh_channel_do_free a c4 else c4)))"

section \<open>Requests\<close>

definition reply_request :: "'k conn_env \<Rightarrow> u32 \<Rightarrow> nat \<Rightarrow> 'k conn \<Rightarrow> (int \<times> 'k conn) option" where
  "reply_request env status a c =
     chan_view c a (\<lambda>ch.
       let (rc, c1) = pack_out env ''bd'' [VA_int status, VA_int (remote_channel ch)] c
       in Some (1, if rc \<noteq> SSH_OK then c1 else snd (send_packet env c1)))"

text \<open>The first table with the function is asked; that there is one is the answer.\<close>

fun first_agent :: "'k conn_env \<Rightarrow> nat list \<Rightarrow> (nat \<Rightarrow> 'k conn \<Rightarrow> 'k conn) option" where
  "first_agent env [] = None"
| "first_agent env (cb # cbs) = (case agent_cb env cb of Some f \<Rightarrow> Some f | None \<Rightarrow> first_agent env cbs)"

definition rcv_exit_status :: "'k conn_env \<Rightarrow> nat \<Rightarrow> 'k conn \<Rightarrow> (int \<times> 'k conn) option" where
  "rcv_exit_status env a c =
     (let (rc, items, c1) = unpack_in env ''d'' c
      in case items of
           [I_dword code] \<Rightarrow>
             Some (1, notify env (Exit_status code) a
                        (upd_chan a (\<lambda>ch. ch\<lparr>exit_code := code, exit_status := True\<rparr>) c1))
         | _ \<Rightarrow> Some (1, c1))"

definition rcv_signal :: "'k conn_env \<Rightarrow> nat \<Rightarrow> 'k conn \<Rightarrow> (int \<times> 'k conn) option" where
  "rcv_signal env a c =
     (let (rc, items, c1) = unpack_in env ''s'' c
      in case items of [I_cstring sig] \<Rightarrow> Some (1, notify env (Signal sig) a c1) | _ \<Rightarrow> Some (1, c1))"

definition rcv_exit_signal :: "'k conn_env \<Rightarrow> nat \<Rightarrow> 'k conn \<Rightarrow> (int \<times> 'k conn) option" where
  "rcv_exit_signal env a c =
     (let (rc, items, c1) = unpack_in env ''sbss'' c
      in case items of
           [I_cstring sig, I_byte core, I_cstring errmsg, I_cstring lang] \<Rightarrow>
             let c2 = notify env (Exit_signal sig (core \<noteq> 0) errmsg lang) a c1
             in chan_view c2 a (\<lambda>_.
                  Some (1, upd_chan a (\<lambda>ch. ch\<lparr>core_dumped := (core \<noteq> 0), exit_signal := Some sig, exit_status := True\<rparr>) c2))
         | _ \<Rightarrow> Some (1, c1))"

definition rcv_agent_request :: "'k conn_env \<Rightarrow> nat \<Rightarrow> bool \<Rightarrow> 'k conn \<Rightarrow> (int \<times> 'k conn) option" where
  "rcv_agent_request env a want_reply c =
     chan_view c a (\<lambda>ch.
       let f = first_agent env (case chan_callbacks ch of None \<Rightarrow> [] | Some l \<Rightarrow> l);
           status = (if f = None then 100 else 99);
           c1 = (case f of None \<Rightarrow> c | Some g \<Rightarrow> g a c)
       in if want_reply then reply_request env status a c1 else Some (1, c1))"

definition channel_rcv_request :: "'k conn_env \<Rightarrow> 'k conn \<Rightarrow> (int \<times> 'k conn) option" where
  "channel_rcv_request env c =
     Option.bind (channel_from_msg env c) (\<lambda>(chan, c1).
       case chan of
         None \<Rightarrow> Some (1, c1)
       | Some a \<Rightarrow>
           let (rc, items, c2) = unpack_in env ''sb'' c1
           in case items of
                [I_cstring request, I_byte want_reply] \<Rightarrow>
                  if same_text request ''exit-status'' then rcv_exit_status env a c2
                  else if same_text request ''signal'' then rcv_signal env a c2
                  else if same_text request ''exit-signal'' then rcv_exit_signal env a c2
                  else if same_text request ''keepalive@openssh.com'' then reply_request env 100 a c2
                  else if same_text request ''auth-agent-req@openssh.com'' then rcv_agent_request env a (want_reply \<noteq> 0) c2
                  else Some (1, server_request env a request want_reply c2)
              | _ \<Rightarrow> Some (1, c2))"

section \<open>Answers to our requests\<close>

definition request_answered ::
  "channel_request_state \<Rightarrow> 'k conn_env \<Rightarrow> 'k conn \<Rightarrow> (int \<times> 'k conn) option" where
  "request_answered answer env c =
     Option.bind (channel_from_msg env c) (\<lambda>(chan, c1).
       case chan of
         None \<Rightarrow> Some (1, c1)
       | Some a \<Rightarrow>
           chan_view c1 a (\<lambda>ch.
             if request_state ch \<noteq> SSH_CHANNEL_REQ_STATE_PENDING then Some (1, c1)
             else Some (1, notify env Request_response a (upd_chan a (\<lambda>ch. ch\<lparr>request_state := answer\<rparr>) c1))))"

definition ssh_packet_channel_success :: "'k conn_env \<Rightarrow> 'k conn \<Rightarrow> (int \<times> 'k conn) option" where
  "ssh_packet_channel_success = request_answered SSH_CHANNEL_REQ_STATE_ACCEPTED"

definition ssh_packet_channel_failure :: "'k conn_env \<Rightarrow> 'k conn \<Rightarrow> (int \<times> 'k conn) option" where
  "ssh_packet_channel_failure = request_answered SSH_CHANNEL_REQ_STATE_DENIED"

definition ssh_request_success :: "'k conn \<Rightarrow> (int \<times> 'k conn) option" where
  "ssh_request_success c =
     Some (1, if global_req_state c \<noteq> SSH_CHANNEL_REQ_STATE_PENDING then c
              else c\<lparr>global_req_state := SSH_CHANNEL_REQ_STATE_ACCEPTED\<rparr>)"

definition ssh_request_denied :: "'k conn \<Rightarrow> (int \<times> 'k conn) option" where
  "ssh_request_denied c =
     Some (1, if global_req_state c \<noteq> SSH_CHANNEL_REQ_STATE_PENDING then c
              else c\<lparr>global_req_state := SSH_CHANNEL_REQ_STATE_DENIED\<rparr>)"

section \<open>The part of the table of handlers that is for channels\<close>

definition channel_handler :: "'k conn_env \<Rightarrow> byte \<Rightarrow> ('k conn \<Rightarrow> (int \<times> 'k conn) option) option" where
  "channel_handler env typ =
     (if typ = 81 then Some ssh_request_success
      else if typ = 82 then Some ssh_request_denied
      else if typ = 91 then Some (ssh_packet_channel_open_conf env)
      else if typ = 92 then Some (ssh_packet_channel_open_fail env)
      else if typ = 93 then Some (channel_rcv_change_window env)
      else if typ = 94 \<or> typ = 95 then Some (channel_rcv_data env typ)
      else if typ = 96 then Some (channel_rcv_eof env)
      else if typ = 97 then Some (channel_rcv_close env)
      else if typ = 98 then Some (channel_rcv_request env)
      else if typ = 99 then Some (ssh_packet_channel_success env)
      else if typ = 100 then Some (ssh_packet_channel_failure env)
      else None)"

end
