(* ===== verification/Channel_Send.thy ===== *)
theory Channel_Send
  imports Channel_Recv
begin

unbundle bit_operations_syntax

text \<open>
  What a user does to a channel (\<open>channels.c\<close>): open, write, end, close, free. A channel the
  caller gives may be a null pointer.
\<close>

section \<open>Opening\<close>

definition ssh_channel_open_termination :: "nat \<Rightarrow> 'k conn \<Rightarrow> bool option" where
  "ssh_channel_open_termination a c =
     chan_view c a (\<lambda>ch. Some (chan_state ch \<noteq> SSH_CHANNEL_STATE_OPENING \<or> session_failed c))"

definition open_result :: "nat \<Rightarrow> int \<Rightarrow> 'k conn \<Rightarrow> (int \<times> 'k conn) option" where
  "open_result a err c =
     chan_view c a (\<lambda>ch.
       Some (if chan_state ch = SSH_CHANNEL_STATE_OPEN then SSH_OK
             else if err \<noteq> SSH_AGAIN then SSH_ERROR else err, c))"

definition open_pending :: "'k conn_env \<Rightarrow> nat \<Rightarrow> 'k conn \<Rightarrow> (int \<times> 'k conn) option" where
  "open_pending env a c =
     Option.bind (ssh_handle_packets_termination env SSH_TIMEOUT_DEFAULT (ssh_channel_open_termination a) c)
       (\<lambda>(err, c1). open_result a (if session_failed c1 then SSH_ERROR else err) c1)"

definition channel_open ::
  "'k conn_env \<Rightarrow> nat \<Rightarrow> string \<Rightarrow> u32 \<Rightarrow> u32 \<Rightarrow> ssh_buffer option \<Rightarrow> 'k conn \<Rightarrow> (int \<times> 'k conn) option" where
  "channel_open env a typ window maxpacket payload c =
     chan_view c a (\<lambda>ch.
       case chan_state ch of
         SSH_CHANNEL_STATE_OPENING \<Rightarrow> open_pending env a c
       | SSH_CHANNEL_STATE_NOT_OPEN \<Rightarrow>
           let (i, c1) = ssh_channel_new_id c;
               c2 = upd_chan a (\<lambda>ch. ch\<lparr>local_channel := i, local_maxpacket := maxpacket, local_window := window\<rparr>) c1;
               (rc, c3) = pack_out env ''bsddd'' [VA_int 90, VA_cstring (bytes_of typ), VA_int i, VA_int window, VA_int maxpacket] c2
           in if rc \<noteq> SSH_OK then Some (SSH_ERROR, c3)
              else
                let (rc1, b) = (case payload of
                                  None \<Rightarrow> (0, out_buffer (sess c3))
                                | Some p \<Rightarrow> ssh_buffer_add_buffer (mem (pk env)) p (out_buffer (sess c3)));
                    c4 = with_sess (\<lambda>s. s\<lparr>out_buffer := b\<rparr>) c3
                in if rc1 < 0 then Some (SSH_ERROR, c4)
                   else
                     let (rc2, c5) = send_packet env (upd_chan a (\<lambda>ch. ch\<lparr>chan_state := SSH_CHANNEL_STATE_OPENING\<rparr>) c4)
                     in if rc2 = SSH_ERROR then Some (SSH_ERROR, c5) else open_pending env a c5
       | _ \<Rightarrow> open_result a SSH_ERROR c)"

definition ssh_channel_open_session :: "'k conn_env \<Rightarrow> nat option \<Rightarrow> 'k conn \<Rightarrow> (int \<times> 'k conn) option" where
  "ssh_channel_open_session env ch c =
     (case ch of None \<Rightarrow> Some (SSH_ERROR, c)
      | Some a \<Rightarrow> channel_open env a ''session'' WINDOW_DEFAULT CHANNEL_MAX_PACKET None c)"

definition ssh_channel_open_auth_agent :: "'k conn_env \<Rightarrow> nat option \<Rightarrow> 'k conn \<Rightarrow> (int \<times> 'k conn) option" where
  "ssh_channel_open_auth_agent env ch c =
     (case ch of None \<Rightarrow> Some (SSH_ERROR, c)
      | Some a \<Rightarrow> channel_open env a ''auth-agent@openssh.com'' WINDOW_DEFAULT CHANNEL_MAX_PACKET None c)"

text \<open>A new buffer with the fields of a message, and what is done with it.\<close>

definition packed :: "'k conn_env \<Rightarrow> string \<Rightarrow> va list \<Rightarrow> 'k conn \<Rightarrow> (ssh_buffer \<Rightarrow> (int \<times> 'k conn) option) \<Rightarrow> (int \<times> 'k conn) option" where
  "packed env format args c f =
     (case ssh_buffer_new (mem (pk env)) (mem (pk env)) of
        None \<Rightarrow> Some (SSH_ERROR, c)
      | Some b0 \<Rightarrow>
          Option.bind (ssh_buffer_pack (mem (pk env)) format (length args) (args @ [VA_end]) b0)
            (\<lambda>(rc, b). if rc \<noteq> SSH_OK then Some (rc, c) else f b))"

definition ssh_channel_open_forward ::
  "'k conn_env \<Rightarrow> nat option \<Rightarrow> byte list option \<Rightarrow> u32 \<Rightarrow> byte list option \<Rightarrow> u32 \<Rightarrow> 'k conn \<Rightarrow> (int \<times> 'k conn) option" where
  "ssh_channel_open_forward env ch remotehost remoteport sourcehost localport c =
     (case (ch, remotehost, sourcehost) of
        (Some a, Some r, Some s) \<Rightarrow>
          packed env ''sdsd'' [VA_cstring r, VA_int remoteport, VA_cstring s, VA_int localport] c
            (\<lambda>b. channel_open env a ''direct-tcpip'' WINDOW_DEFAULT CHANNEL_MAX_PACKET (Some b) c)
      | _ \<Rightarrow> Some (SSH_ERROR, c))"

text \<open>\<open>version\<close> is what \<open>ssh_get_openssh_version\<close> says of the peer.\<close>

definition ssh_channel_open_forward_unix ::
  "'k conn_env \<Rightarrow> nat \<Rightarrow> nat option \<Rightarrow> byte list option \<Rightarrow> byte list option \<Rightarrow> u32 \<Rightarrow> 'k conn \<Rightarrow> (int \<times> 'k conn) option" where
  "ssh_channel_open_forward_unix env version ch remotepath sourcehost localport c =
     (case ch of
        None \<Rightarrow> Some (SSH_ERROR, c)
      | Some a \<Rightarrow>
          if version = 0 then Some (SSH_ERROR, c)
          else (case (remotepath, sourcehost) of
                  (Some r, Some s) \<Rightarrow>
                    packed env ''ssd'' [VA_cstring r, VA_cstring s, VA_int localport] c
                      (\<lambda>b. channel_open env a ''direct-streamlocal@openssh.com'' WINDOW_DEFAULT CHANNEL_MAX_PACKET (Some b) c)
                | _ \<Rightarrow> Some (SSH_ERROR, c)))"

definition ssh_channel_open_reverse_forward ::
  "'k conn_env \<Rightarrow> nat option \<Rightarrow> byte list option \<Rightarrow> u32 \<Rightarrow> byte list option \<Rightarrow> u32 \<Rightarrow> 'k conn \<Rightarrow> (int \<times> 'k conn) option" where
  "ssh_channel_open_reverse_forward env ch remotehost remoteport sourcehost localport c =
     (case (ch, remotehost, sourcehost) of
        (Some a, Some r, Some s) \<Rightarrow>
          chan_view c a (\<lambda>v.
            let go = (\<lambda>b. channel_open env a ''forwarded-tcpip'' WINDOW_DEFAULT CHANNEL_MAX_PACKET b c)
            in if chan_state v \<noteq> SSH_CHANNEL_STATE_NOT_OPEN then go None
               else packed env ''sdsd'' [VA_cstring r, VA_int remoteport, VA_cstring s, VA_int localport] c (go \<circ> Some))
      | _ \<Rightarrow> Some (SSH_ERROR, c))"

definition ssh_channel_open_x11 ::
  "'k conn_env \<Rightarrow> nat option \<Rightarrow> byte list option \<Rightarrow> u32 \<Rightarrow> 'k conn \<Rightarrow> (int \<times> 'k conn) option" where
  "ssh_channel_open_x11 env ch orig_addr orig_port c =
     (case (ch, orig_addr) of
        (Some a, Some r) \<Rightarrow>
          chan_view c a (\<lambda>v.
            let go = (\<lambda>b. channel_open env a ''x11'' WINDOW_DEFAULT CHANNEL_MAX_PACKET b c)
            in if chan_state v \<noteq> SSH_CHANNEL_STATE_NOT_OPEN then go None
               else packed env ''sd'' [VA_cstring r, VA_int orig_port] c (go \<circ> Some))
      | _ \<Rightarrow> Some (SSH_ERROR, c))"

section \<open>End of file, close, free\<close>

definition ssh_channel_flush :: "'k conn_env \<Rightarrow> nat \<Rightarrow> 'k conn \<Rightarrow> (int \<times> 'k conn) option" where
  "ssh_channel_flush env a c = chan_view c a (\<lambda>_. ssh_blocking_flush env SSH_TIMEOUT_DEFAULT c)"

definition ssh_channel_send_eof :: "'k conn_env \<Rightarrow> nat option \<Rightarrow> 'k conn \<Rightarrow> (int \<times> 'k conn) option" where
  "ssh_channel_send_eof env channel c =
     (case channel of
        None \<Rightarrow> Some (SSH_ERROR, c)
      | Some a \<Rightarrow>
          chan_view c a (\<lambda>ch.
            if local_eof ch then Some (SSH_OK, c)
            else
              let (err, c1) = pack_out env ''bd'' [VA_int 96, VA_int (remote_channel ch)] c
              in if err \<noteq> SSH_OK then Some (SSH_ERROR, reinit_out env c1)
                 else
                   let (rc, c2) = send_packet env c1
                   in if rc \<noteq> SSH_OK then Some (rc, reinit_out env c2)
                      else Option.bind (ssh_channel_flush env a c2) (\<lambda>(rc1, c3).
                        if rc1 = SSH_ERROR then Some (rc1, reinit_out env c3)
                        else chan_view c3 a (\<lambda>_. Some (rc1, upd_chan a (\<lambda>ch. ch\<lparr>local_eof := True\<rparr>) c3)))))"

definition ssh_channel_close :: "'k conn_env \<Rightarrow> nat option \<Rightarrow> 'k conn \<Rightarrow> (int \<times> 'k conn) option" where
  "ssh_channel_close env channel c =
     (case channel of
        None \<Rightarrow> Some (SSH_ERROR, c)
      | Some a \<Rightarrow>
          chan_view c a (\<lambda>ch.
            if chan_flags ch AND SSH_CHANNEL_FLAG_CLOSED_LOCAL \<noteq> 0 then Some (SSH_OK, c)
            else Option.bind (ssh_channel_send_eof env channel c) (\<lambda>(rc, c1).
              if rc \<noteq> SSH_OK then Some (rc, c1)
              else chan_view c1 a (\<lambda>ch1.
                let (rc1, c2) = pack_out env ''bd'' [VA_int 97, VA_int (remote_channel ch1)] c1
                in if rc1 \<noteq> SSH_OK then Some (rc1, reinit_out env c2)
                   else
                     let (rc2, c3) = send_packet env c2;
                         c4 = (if rc2 = SSH_OK then
                                 upd_chan a (\<lambda>ch. ch\<lparr>chan_state := SSH_CHANNEL_STATE_CLOSED,
                                                    chan_flags := chan_flags ch OR SSH_CHANNEL_FLAG_CLOSED_LOCAL\<rparr>) c3
                               else c3)
                     in Option.bind (ssh_channel_flush env a c4) (\<lambda>(rc3, c5).
                          Some (rc3, if rc3 = SSH_ERROR then reinit_out env c5 else c5))))))"

definition ssh_channel_free :: "'k conn_env \<Rightarrow> nat option \<Rightarrow> 'k conn \<Rightarrow> 'k conn option" where
  "ssh_channel_free env channel c =
     (case channel of
        None \<Rightarrow> Some c
      | Some a \<Rightarrow>
          chan_view c a (\<lambda>ch.
            let send_close =
              (case chan_state ch of
                 SSH_CHANNEL_STATE_OPEN \<Rightarrow> True
               | SSH_CHANNEL_STATE_CLOSED \<Rightarrow>
                   chan_flags ch AND SSH_CHANNEL_FLAG_CLOSED_REMOTE \<noteq> 0 \<and> chan_flags ch AND SSH_CHANNEL_FLAG_CLOSED_LOCAL = 0
               | _ \<Rightarrow> False)
            in Option.bind (if alive c \<and> send_close then map_option snd (ssh_channel_close env channel c) else Some c) (\<lambda>c1.
                 chan_view c1 a (\<lambda>ch1.
                   let ch2 = ch1\<lparr>chan_flags := chan_flags ch1 OR SSH_CHANNEL_FLAG_FREED_LOCAL, chan_callbacks := None\<rparr>;
                       c2 = upd_chan a (\<lambda>_. ch2) c1
                   in Some (if chan_flags ch2 AND SSH_CHANNEL_FLAG_CLOSED_REMOTE \<noteq> 0 \<or>
                               chan_flags ch2 AND SSH_CHANNEL_FLAG_NOT_BOUND \<noteq> 0
                            then ssh_channel_do_free a c2 else c2)))))"

section \<open>Writing\<close>

definition ssh_channel_waitwindow_termination :: "nat \<Rightarrow> 'k conn \<Rightarrow> bool option" where
  "ssh_channel_waitwindow_termination a c =
     chan_view c a (\<lambda>ch. Some (0 < remote_window ch \<or> session_failed c \<or> chan_state ch = SSH_CHANNEL_STATE_CLOSED))"

definition ssh_waitsession_unblocked :: "'k conn \<Rightarrow> bool" where
  "ssh_waitsession_unblocked c =
     (case session_state (sess c) of
        SSH_SESSION_STATE_DH \<Rightarrow> False | SSH_SESSION_STATE_INITIAL_KEX \<Rightarrow> False
      | SSH_SESSION_STATE_KEXINIT_RECEIVED \<Rightarrow> False | _ \<Rightarrow> True)"

definition chunk_len :: "ssh_channel \<Rightarrow> u32 \<Rightarrow> u32" where
  "chunk_len ch len =
     (let effectivelen = (if remote_window ch < len then min len (remote_window ch) else len)
      in min effectivelen (remote_maxpacket ch))"

definition count_out :: "u64 \<Rightarrow> ssh_channel \<Rightarrow> ssh_channel" where
  "count_out n ch = ch\<lparr>counter := map_option (\<lambda>k. k\<lparr>out_bytes := out_bytes k + n\<rparr>) (counter ch)\<rparr>"

text \<open>One message of the loop: the result code, how much was written, the session.\<close>

definition write_chunk ::
  "'k conn_env \<Rightarrow> nat \<Rightarrow> bool \<Rightarrow> byte list \<Rightarrow> 'k conn \<Rightarrow> (int \<times> nat \<times> 'k conn) option" where
  "write_chunk env a is_stderr bs c =
     chan_view c a (\<lambda>ch.
       let n = chunk_len ch (of_nat (length bs));
           (rc, c1) = pack_out env ''bd'' [VA_int (if is_stderr then 95 else 94), VA_int (remote_channel ch)] c
       in if rc \<noteq> SSH_OK then Some (SSH_ERROR, 0, reinit_out env c1)
          else
            let (rc1, c2) = (if is_stderr then pack_out env ''d'' [VA_int 1] c1 else (SSH_OK, c1))
            in if rc1 \<noteq> SSH_OK then Some (SSH_ERROR, 0, reinit_out env c2)
               else
                 let (rc2, c3) = pack_out env ''dP'' [VA_int n, VA_size n, VA_data (take (unat n) bs)] c2
                 in if rc2 \<noteq> SSH_OK then Some (SSH_ERROR, 0, reinit_out env c3)
                    else
                      let (rc3, c4) = send_packet env c3
                      in if rc3 = SSH_ERROR then Some (SSH_ERROR, 0, c4)
                         else Some (SSH_OK, unat n,
                                    upd_chan a (\<lambda>ch. count_out (ucast n) (ch\<lparr>remote_window := remote_window ch - n\<rparr>)) c4))"

partial_function (option) write_loop ::
  "'k conn_env \<Rightarrow> nat \<Rightarrow> bool \<Rightarrow> nat \<Rightarrow> byte list \<Rightarrow> 'k conn \<Rightarrow> (int \<times> 'k conn) option" where
  "write_loop env a is_stderr origlen bs c =
     (if bs = [] then
        Option.bind (ssh_channel_flush env a c) (\<lambda>(rc, c1).
          Some (if rc = SSH_ERROR then (SSH_ERROR, reinit_out env c1) else (int origlen, c1)))
      else chan_view c a (\<lambda>ch.
        if remote_window ch = 0 then
          Option.bind (ssh_handle_packets_termination env SSH_TIMEOUT_DEFAULT (ssh_channel_waitwindow_termination a) c)
            (\<lambda>(rc, c1).
              if rc = SSH_ERROR then Some (int (origlen - length bs), c1)
              else chan_view c1 a (\<lambda>ch1.
                if \<not> (0 < remote_window ch1 \<or> session_failed c1 \<or> chan_state ch1 = SSH_CHANNEL_STATE_CLOSED) \<or>
                   session_failed c1 \<or> chan_state ch1 = SSH_CHANNEL_STATE_CLOSED
                then Some (int (origlen - length bs), c1)
                else write_loop env a is_stderr origlen bs c1))
        else Option.bind (write_chunk env a is_stderr bs c) (\<lambda>(rc, n, c1).
          if rc = SSH_ERROR then Some (SSH_ERROR, c1)
          else write_loop env a is_stderr origlen (drop n bs) c1)))"

definition channel_write_common ::
  "'k conn_env \<Rightarrow> nat option \<Rightarrow> byte list option \<Rightarrow> bool \<Rightarrow> 'k conn \<Rightarrow> (int \<times> 'k conn) option" where
  "channel_write_common env channel dat is_stderr c =
     (case channel of
        None \<Rightarrow> Some (-1, c)
      | Some a \<Rightarrow>
        (case dat of
           None \<Rightarrow> Some (-1, c)
         | Some bs \<Rightarrow>
             if 2147483647 < length bs then Some (SSH_ERROR, c)
             else chan_view c a (\<lambda>ch.
               if local_eof ch then Some (-1, c)
               else if chan_state ch \<noteq> SSH_CHANNEL_STATE_OPEN \<or> delayed_close ch then Some (-1, c)
               else if session_failed c then Some (SSH_ERROR, c)
               else if \<not> ssh_waitsession_unblocked c then
                 Option.bind (ssh_handle_packets_termination env SSH_TIMEOUT_DEFAULT (\<lambda>c. Some (ssh_waitsession_unblocked c)) c)
                   (\<lambda>(rc, c1). if rc = SSH_ERROR \<or> \<not> ssh_waitsession_unblocked c1 then Some (0, c1)
                                else write_loop env a is_stderr (length bs) bs c1)
               else write_loop env a is_stderr (length bs) bs c)))"

definition ssh_channel_write :: "'k conn_env \<Rightarrow> nat option \<Rightarrow> byte list option \<Rightarrow> 'k conn \<Rightarrow> (int \<times> 'k conn) option" where
  "ssh_channel_write env channel bs c = channel_write_common env channel bs False c"

definition ssh_channel_write_stderr :: "'k conn_env \<Rightarrow> nat option \<Rightarrow> byte list option \<Rightarrow> 'k conn \<Rightarrow> (int \<times> 'k conn) option" where
  "ssh_channel_write_stderr env channel bs c = channel_write_common env channel bs True c"

section \<open>Looking\<close>

definition ssh_channel_window_size :: "nat \<Rightarrow> 'k conn \<Rightarrow> u32 option" where
  "ssh_channel_window_size a c = map_option remote_window (chan_at c a)"

definition ssh_channel_is_open :: "nat option \<Rightarrow> 'k conn \<Rightarrow> int option" where
  "ssh_channel_is_open channel c =
     (case channel of None \<Rightarrow> Some 0
      | Some a \<Rightarrow> chan_view c a (\<lambda>ch. Some (if chan_state ch = SSH_CHANNEL_STATE_OPEN \<and> alive c then 1 else 0)))"

definition ssh_channel_is_closed :: "nat option \<Rightarrow> 'k conn \<Rightarrow> int option" where
  "ssh_channel_is_closed channel c =
     (case channel of None \<Rightarrow> Some SSH_ERROR
      | Some a \<Rightarrow> chan_view c a (\<lambda>ch. Some (if chan_state ch \<noteq> SSH_CHANNEL_STATE_OPEN \<or> \<not> alive c then 1 else 0)))"

definition ssh_channel_is_eof :: "nat option \<Rightarrow> 'k conn \<Rightarrow> int option" where
  "ssh_channel_is_eof channel c =
     (case channel of None \<Rightarrow> Some SSH_ERROR
      | Some a \<Rightarrow> chan_view c a (\<lambda>ch.
          Some (if ssh_channel_has_unread_data ch then 0 else if remote_eof ch then 1 else 0)))"

definition ssh_channel_set_blocking :: "nat option \<Rightarrow> bool \<Rightarrow> 'k conn \<Rightarrow> 'k conn option" where
  "ssh_channel_set_blocking channel blocking c =
     (case channel of None \<Rightarrow> Some c | Some a \<Rightarrow> chan_view c a (\<lambda>_. Some (ssh_set_blocking blocking c)))"

definition ssh_channel_set_counter :: "nat option \<Rightarrow> raw_counter option \<Rightarrow> 'k conn \<Rightarrow> 'k conn option" where
  "ssh_channel_set_counter channel k c =
     (case channel of None \<Rightarrow> Some c | Some a \<Rightarrow> chan_view c a (\<lambda>_. Some (upd_chan a (\<lambda>ch. ch\<lparr>counter := k\<rparr>) c)))"

end
