(* ===== verification/Channel_Request.thy ===== *)
theory Channel_Request
  imports Channel_Send
begin

unbundle bit_operations_syntax

text \<open>
  Requests on a channel and global ones (\<open>channels.c\<close>). A request that expects an answer leaves
  the channel pending; calling again while it is pending waits for the same answer, whatever is
  asked. Strings a caller gives may be null pointers.
\<close>

section \<open>A request and its answer\<close>

definition ssh_channel_request_termination :: "nat \<Rightarrow> 'k conn \<Rightarrow> bool option" where
  "ssh_channel_request_termination a c =
     chan_view c a (\<lambda>ch. Some (request_state ch \<noteq> SSH_CHANNEL_REQ_STATE_PENDING \<or> session_failed c))"

definition request_pending :: "'k conn_env \<Rightarrow> nat \<Rightarrow> 'k conn \<Rightarrow> (int \<times> 'k conn) option" where
  "request_pending env a c =
     Option.bind (ssh_handle_packets_termination env SSH_TIMEOUT_DEFAULT (ssh_channel_request_termination a) c)
       (\<lambda>(rc, c1). chan_view c1 a (\<lambda>ch.
          let st = (if session_failed c1 \<or> rc = SSH_ERROR then SSH_CHANNEL_REQ_STATE_ERROR else request_state ch)
          in Some (case st of
                     SSH_CHANNEL_REQ_STATE_PENDING \<Rightarrow> (SSH_AGAIN, c1)
                   | SSH_CHANNEL_REQ_STATE_ACCEPTED \<Rightarrow>
                       (SSH_OK, upd_chan a (\<lambda>ch. ch\<lparr>request_state := SSH_CHANNEL_REQ_STATE_NONE\<rparr>) c1)
                   | _ \<Rightarrow> (SSH_ERROR, upd_chan a (\<lambda>ch. ch\<lparr>request_state := SSH_CHANNEL_REQ_STATE_NONE\<rparr>) c1))))"

definition channel_request ::
  "'k conn_env \<Rightarrow> nat \<Rightarrow> string \<Rightarrow> ssh_buffer option \<Rightarrow> bool \<Rightarrow> 'k conn \<Rightarrow> (int \<times> 'k conn) option" where
  "channel_request env a request buffer reply c =
     chan_view c a (\<lambda>ch.
       if request_state ch \<noteq> SSH_CHANNEL_REQ_STATE_NONE then request_pending env a c
       else
         let (ret, c1) = pack_out env ''bdsb'' [VA_int 98, VA_int (remote_channel ch), VA_cstring (bytes_of request),
                                                VA_int (if reply then 1 else 0)] c
         in if ret \<noteq> SSH_OK then Some (SSH_ERROR, reinit_out env c1)
            else
              let (rc1, b) = (case buffer of
                                None \<Rightarrow> (0, out_buffer (sess c1))
                              | Some p \<Rightarrow> ssh_buffer_add_data (mem (pk env)) (Some (contents p)) (out_buffer (sess c1)));
                  c2 = with_sess (\<lambda>s. s\<lparr>out_buffer := b\<rparr>) c1
              in if rc1 < 0 then Some (SSH_ERROR, reinit_out env c2)
                 else
                   let (rc2, c3) = send_packet env (upd_chan a (\<lambda>ch. ch\<lparr>request_state := SSH_CHANNEL_REQ_STATE_PENDING\<rparr>) c2)
                   in if rc2 = SSH_ERROR then Some (SSH_ERROR, c3)
                      else if \<not> reply then
                        Some (SSH_OK, upd_chan a (\<lambda>ch. ch\<lparr>request_state := SSH_CHANNEL_REQ_STATE_NONE\<rparr>) c3)
                      else request_pending env a c3)"

text \<open>The two shapes of the requests below: one that is sent at once, one that may be pending.\<close>

definition send_request :: "'k conn_env \<Rightarrow> nat \<Rightarrow> string \<Rightarrow> string \<Rightarrow> va list \<Rightarrow> 'k conn \<Rightarrow> (int \<times> 'k conn) option" where
  "send_request env a request format args c =
     packed env format args c (\<lambda>b. channel_request env a request (Some b) False c)"

definition ask_request :: "'k conn_env \<Rightarrow> nat \<Rightarrow> string \<Rightarrow> string \<Rightarrow> va list \<Rightarrow> 'k conn \<Rightarrow> (int \<times> 'k conn) option" where
  "ask_request env a request format args c =
     chan_view c a (\<lambda>ch.
       if request_state ch \<noteq> SSH_CHANNEL_REQ_STATE_NONE then channel_request env a request None True c
       else packed env format args c (\<lambda>b. channel_request env a request (Some b) True c))"

section \<open>The requests\<close>

definition ssh_channel_request_pty_size_modes ::
  "'k conn_env \<Rightarrow> nat option \<Rightarrow> byte list option \<Rightarrow> u32 \<Rightarrow> u32 \<Rightarrow> byte list \<Rightarrow> 'k conn \<Rightarrow> (int \<times> 'k conn) option" where
  "ssh_channel_request_pty_size_modes env channel terminal col row modes c =
     (case (channel, terminal) of
        (Some a, Some t) \<Rightarrow>
          ask_request env a ''pty-req'' ''sdddddP''
            [VA_cstring t, VA_int col, VA_int row, VA_int 0, VA_int 0, VA_int (of_nat (length modes)),
             VA_size (of_nat (length modes)), VA_data modes] c
      | _ \<Rightarrow> Some (SSH_ERROR, c))"

text \<open>\<open>tty\<close> is the result of \<open>encode_current_tty_opts\<close>: a negative code, or the encoded modes.\<close>

definition ssh_channel_request_pty_size ::
  "'k conn_env \<Rightarrow> int + byte list \<Rightarrow> nat option \<Rightarrow> byte list option \<Rightarrow> u32 \<Rightarrow> u32 \<Rightarrow> 'k conn \<Rightarrow> (int \<times> 'k conn) option" where
  "ssh_channel_request_pty_size env tty channel terminal col row c =
     (case tty of
        Inl rc \<Rightarrow> Some (rc, c)
      | Inr modes \<Rightarrow> ssh_channel_request_pty_size_modes env channel terminal col row modes c)"

definition ssh_channel_request_pty :: "'k conn_env \<Rightarrow> int + byte list \<Rightarrow> nat option \<Rightarrow> 'k conn \<Rightarrow> (int \<times> 'k conn) option" where
  "ssh_channel_request_pty env tty channel c =
     ssh_channel_request_pty_size env tty channel (Some (bytes_of ''xterm'')) 80 24 c"

definition ssh_channel_change_pty_size :: "'k conn_env \<Rightarrow> nat \<Rightarrow> u32 \<Rightarrow> u32 \<Rightarrow> 'k conn \<Rightarrow> (int \<times> 'k conn) option" where
  "ssh_channel_change_pty_size env a cols rows c =
     chan_view c a (\<lambda>_.
       send_request env a ''window-change'' ''dddd'' [VA_int cols, VA_int rows, VA_int 0, VA_int 0] c)"

definition ssh_channel_request_shell :: "'k conn_env \<Rightarrow> nat option \<Rightarrow> 'k conn \<Rightarrow> (int \<times> 'k conn) option" where
  "ssh_channel_request_shell env channel c =
     (case channel of None \<Rightarrow> Some (SSH_ERROR, c) | Some a \<Rightarrow> channel_request env a ''shell'' None True c)"

definition ssh_channel_request_subsystem ::
  "'k conn_env \<Rightarrow> nat option \<Rightarrow> byte list option \<Rightarrow> 'k conn \<Rightarrow> (int \<times> 'k conn) option" where
  "ssh_channel_request_subsystem env channel subsys c =
     (case (channel, subsys) of
        (Some a, Some x) \<Rightarrow> ask_request env a ''subsystem'' ''s'' [VA_cstring x] c
      | _ \<Rightarrow> Some (SSH_ERROR, c))"

definition ssh_channel_request_sftp :: "'k conn_env \<Rightarrow> nat option \<Rightarrow> 'k conn \<Rightarrow> (int \<times> 'k conn) option" where
  "ssh_channel_request_sftp env channel c =
     (case channel of None \<Rightarrow> Some (SSH_ERROR, c)
      | Some a \<Rightarrow> ssh_channel_request_subsystem env (Some a) (Some (bytes_of ''sftp'')) c)"

definition generate_cookie :: "byte list option \<Rightarrow> byte list option" where
  "generate_cookie rnd =
     map_option (\<lambda>r. let hex = bytes_of ''0123456789abcdef''
       in concat (map (\<lambda>i. [hex ! unat (r ! i AND 0x0F), hex ! unat (drop_bit 4 (r ! i))]) [0..<16])) rnd"

definition ssh_channel_request_x11 ::
  "'k conn_env \<Rightarrow> nat option \<Rightarrow> bool \<Rightarrow> byte list option \<Rightarrow> byte list option \<Rightarrow> u32 \<Rightarrow> 'k conn \<Rightarrow> (int \<times> 'k conn) option" where
  "ssh_channel_request_x11 env channel single_connection protocol cookie screen_number c =
     (case channel of
        None \<Rightarrow> Some (SSH_ERROR, c)
      | Some a \<Rightarrow>
          chan_view c a (\<lambda>ch.
            if request_state ch \<noteq> SSH_CHANNEL_REQ_STATE_NONE then channel_request env a ''x11-req'' None True c
            else if \<not> mem (pk env) then Some (SSH_ERROR, c)
            else (case (case cookie of None \<Rightarrow> generate_cookie (random_cookie env) | Some k \<Rightarrow> Some k) of
                    None \<Rightarrow> Some (SSH_ERROR, c)
                  | Some k \<Rightarrow>
                      packed env ''bssd''
                        [VA_int (if single_connection then 1 else 0),
                         VA_cstring (case protocol of None \<Rightarrow> bytes_of ''MIT-MAGIC-COOKIE-1'' | Some p \<Rightarrow> p),
                         VA_cstring k, VA_int screen_number] c
                        (\<lambda>b. channel_request env a ''x11-req'' (Some b) True c))))"

definition ssh_channel_request_auth_agent :: "'k conn_env \<Rightarrow> nat option \<Rightarrow> 'k conn \<Rightarrow> (int \<times> 'k conn) option" where
  "ssh_channel_request_auth_agent env channel c =
     (case channel of None \<Rightarrow> Some (SSH_ERROR, c)
      | Some a \<Rightarrow> channel_request env a ''auth-agent-req@openssh.com'' None False c)"

definition ssh_channel_request_env ::
  "'k conn_env \<Rightarrow> nat option \<Rightarrow> byte list option \<Rightarrow> byte list option \<Rightarrow> 'k conn \<Rightarrow> (int \<times> 'k conn) option" where
  "ssh_channel_request_env env channel name value c =
     (case (channel, name, value) of
        (Some a, Some n, Some v) \<Rightarrow> ask_request env a ''env'' ''ss'' [VA_cstring n, VA_cstring v] c
      | _ \<Rightarrow> Some (SSH_ERROR, c))"

definition ssh_channel_request_exec :: "'k conn_env \<Rightarrow> nat option \<Rightarrow> byte list option \<Rightarrow> 'k conn \<Rightarrow> (int \<times> 'k conn) option" where
  "ssh_channel_request_exec env channel cmd c =
     (case (channel, cmd) of
        (Some a, Some x) \<Rightarrow> ask_request env a ''exec'' ''s'' [VA_cstring x] c
      | _ \<Rightarrow> Some (SSH_ERROR, c))"

definition ssh_channel_request_send_signal ::
  "'k conn_env \<Rightarrow> nat option \<Rightarrow> byte list option \<Rightarrow> 'k conn \<Rightarrow> (int \<times> 'k conn) option" where
  "ssh_channel_request_send_signal env channel sig c =
     (case (channel, sig) of
        (Some a, Some x) \<Rightarrow> send_request env a ''signal'' ''s'' [VA_cstring x] c
      | _ \<Rightarrow> Some (SSH_ERROR, c))"

definition ssh_channel_request_send_break :: "'k conn_env \<Rightarrow> nat option \<Rightarrow> u32 \<Rightarrow> 'k conn \<Rightarrow> (int \<times> 'k conn) option" where
  "ssh_channel_request_send_break env channel break_length c =
     (case channel of None \<Rightarrow> Some (SSH_ERROR, c)
      | Some a \<Rightarrow> send_request env a ''break'' ''d'' [VA_int break_length] c)"

definition ssh_channel_request_send_exit_status :: "'k conn_env \<Rightarrow> nat option \<Rightarrow> u32 \<Rightarrow> 'k conn \<Rightarrow> (int \<times> 'k conn) option" where
  "ssh_channel_request_send_exit_status env channel status c =
     (case channel of None \<Rightarrow> Some (SSH_ERROR, c)
      | Some a \<Rightarrow> send_request env a ''exit-status'' ''d'' [VA_int status] c)"

definition ssh_channel_request_send_exit_signal ::
  "'k conn_env \<Rightarrow> nat option \<Rightarrow> byte list option \<Rightarrow> bool \<Rightarrow> byte list option \<Rightarrow> byte list option \<Rightarrow> 'k conn \<Rightarrow>
    (int \<times> 'k conn) option" where
  "ssh_channel_request_send_exit_signal env channel sig core errmsg lang c =
     (case (channel, sig, errmsg, lang) of
        (Some a, Some s, Some e, Some l) \<Rightarrow>
          send_request env a ''exit-signal'' ''sbss'' [VA_cstring s, VA_int (if core then 1 else 0), VA_cstring e, VA_cstring l] c
      | _ \<Rightarrow> Some (SSH_ERROR, c))"

section \<open>Global requests\<close>

definition ssh_global_request_termination :: "'k conn \<Rightarrow> bool option" where
  "ssh_global_request_termination c =
     Some (global_req_state c \<noteq> SSH_CHANNEL_REQ_STATE_PENDING \<or> session_failed c)"

definition global_pending :: "'k conn_env \<Rightarrow> 'k conn \<Rightarrow> (int \<times> 'k conn) option" where
  "global_pending env c =
     map_option (\<lambda>(rc, c1).
       let st = (if rc = SSH_ERROR \<or> session_failed c1 then SSH_CHANNEL_REQ_STATE_ERROR else global_req_state c1)
       in if st = SSH_CHANNEL_REQ_STATE_PENDING then (SSH_AGAIN, c1)
          else (if st = SSH_CHANNEL_REQ_STATE_ACCEPTED then SSH_OK else SSH_ERROR,
                c1\<lparr>global_req_state := SSH_CHANNEL_REQ_STATE_NONE\<rparr>))
       (ssh_handle_packets_termination env SSH_TIMEOUT_DEFAULT ssh_global_request_termination c)"

definition ssh_global_request ::
  "'k conn_env \<Rightarrow> string \<Rightarrow> ssh_buffer option \<Rightarrow> bool \<Rightarrow> 'k conn \<Rightarrow> (int \<times> 'k conn) option" where
  "ssh_global_request env request buffer reply c =
     (if global_req_state c \<noteq> SSH_CHANNEL_REQ_STATE_NONE then global_pending env c
      else
        let (rc, c1) = pack_out env ''bsb'' [VA_int 80, VA_cstring (bytes_of request), VA_int (if reply then 1 else 0)] c
        in if rc \<noteq> SSH_OK then Some (SSH_ERROR, reinit_out env c1)
           else
             let (rc1, b) = (case buffer of
                               None \<Rightarrow> (0, out_buffer (sess c1))
                             | Some p \<Rightarrow> ssh_buffer_add_data (mem (pk env)) (Some (contents p)) (out_buffer (sess c1)));
                 c2 = with_sess (\<lambda>s. s\<lparr>out_buffer := b\<rparr>) c1
             in if rc1 < 0 then Some (SSH_ERROR, reinit_out env c2)
                else
                  let (rc2, c3) = send_packet env (c2\<lparr>global_req_state := SSH_CHANNEL_REQ_STATE_PENDING\<rparr>)
                  in if rc2 = SSH_ERROR then Some (SSH_ERROR, c3)
                     else if \<not> reply then Some (SSH_OK, c3\<lparr>global_req_state := SSH_CHANNEL_REQ_STATE_NONE\<rparr>)
                     else global_pending env c3)"

definition forward_request ::
  "'k conn_env \<Rightarrow> string \<Rightarrow> byte list option \<Rightarrow> u32 \<Rightarrow> 'k conn \<Rightarrow> (int \<times> 'k conn) option" where
  "forward_request env request address port c =
     (if global_req_state c \<noteq> SSH_CHANNEL_REQ_STATE_NONE then ssh_global_request env request None True c
      else packed env ''sd'' [VA_cstring (case address of None \<Rightarrow> [] | Some x \<Rightarrow> x), VA_int port] c
             (\<lambda>b. ssh_global_request env request (Some b) True c))"

text \<open>The last result is what is stored as the bound port, if anything.\<close>

definition ssh_channel_listen_forward ::
  "'k conn_env \<Rightarrow> byte list option \<Rightarrow> u32 \<Rightarrow> bool \<Rightarrow> 'k conn \<Rightarrow> (int \<times> u32 option \<times> 'k conn) option" where
  "ssh_channel_listen_forward env address port want_port c =
     map_option (\<lambda>(rc, c1).
       if rc = SSH_OK \<and> port = 0 \<and> want_port then
         let (rc1, items, c2) = unpack_in env ''d'' c1
         in (rc1, Some (case items of [I_dword p] \<Rightarrow> p | _ \<Rightarrow> 0), c2)
       else (rc, None, c1))
       (forward_request env ''tcpip-forward'' address port c)"

definition ssh_channel_cancel_forward ::
  "'k conn_env \<Rightarrow> byte list option \<Rightarrow> u32 \<Rightarrow> 'k conn \<Rightarrow> (int \<times> 'k conn) option" where
  "ssh_channel_cancel_forward env address port c = forward_request env ''cancel-tcpip-forward'' address port c"

end
