(* ===== verification/Channel_Read.thy ===== *)
theory Channel_Read
  imports Channel_Send
begin

unbundle bit_operations_syntax

text \<open>
  Reading from a channel, asking whether there is something to read, and the state a remote
  process ended with (\<open>channels.c\<close>). The buffer a reader looks at is the channel's, for standard
  output or standard error; that it is gone is seen as None.
\<close>

definition ssh_channel_read_termination :: "nat \<Rightarrow> bool \<Rightarrow> 'k conn \<Rightarrow> bool option" where
  "ssh_channel_read_termination a is_stderr c =
     chan_view c a (\<lambda>ch. Option.bind (std_buf is_stderr ch) (\<lambda>buf.
       Some (1 \<le> ssh_buffer_get_len buf \<or> remote_eof ch \<or> session_failed c)))"

text \<open>What was read comes with the result.\<close>

definition take_data :: "'k conn_env \<Rightarrow> nat \<Rightarrow> u32 \<Rightarrow> bool \<Rightarrow> 'k conn \<Rightarrow> (int \<times> byte list \<times> 'k conn) option" where
  "take_data env a count is_stderr c =
     chan_view c a (\<lambda>ch. Option.bind (std_buf is_stderr ch) (\<lambda>buf.
       let len = (if count < ssh_buffer_get_len buf then count else ssh_buffer_get_len buf);
           dest = take (unat len) (ssh_buffer_get buf);
           ch1 = count_in (ucast len) (set_std is_stderr (snd (ssh_buffer_pass_bytes len buf)) ch);
           ch2 = (if delayed_close ch1 \<and> \<not> ssh_channel_has_unread_data ch1
                  then ch1\<lparr>chan_state := SSH_CHANNEL_STATE_CLOSED\<rparr> else ch1)
       in Option.bind (grow_window env a (upd_chan a (\<lambda>_. ch2) c)) (\<lambda>(rc, c1).
            Some (if rc = SSH_ERROR then -1 else int (unat len), dest, c1))))"

definition ssh_channel_read_timeout ::
  "'k conn_env \<Rightarrow> nat option \<Rightarrow> bool \<Rightarrow> u32 \<Rightarrow> bool \<Rightarrow> int \<Rightarrow> 'k conn \<Rightarrow> (int \<times> byte list \<times> 'k conn) option" where
  "ssh_channel_read_timeout env channel dest_ok count is_stderr timeout_ms c =
     (case channel of
        None \<Rightarrow> Some (SSH_ERROR, [], c)
      | Some a \<Rightarrow>
          if \<not> dest_ok then Some (SSH_ERROR, [], c)
          else if count = 0 then Some (0, [], c)
          else
            let timeout = (if timeout_ms < SSH_TIMEOUT_DEFAULT then SSH_TIMEOUT_INFINITE else timeout_ms)
            in Option.bind (ssh_handle_packets_termination env timeout (ssh_channel_read_termination a is_stderr) c) (\<lambda>(rc, c1).
                 if rc = SSH_ERROR \<or> rc = SSH_AGAIN then Some (rc, [], c1)
                 else if session_failed c1 then Some (SSH_ERROR, [], c1)
                 else chan_view c1 a (\<lambda>ch. Option.bind (std_buf is_stderr ch) (\<lambda>buf.
                   if remote_eof ch \<and> ssh_buffer_get_len buf = 0 then Some (0, [], c1)
                   else if chan_state ch = SSH_CHANNEL_STATE_CLOSED then Some (SSH_ERROR, [], c1)
                   else take_data env a count is_stderr c1))))"

definition ssh_channel_read ::
  "'k conn_env \<Rightarrow> nat option \<Rightarrow> bool \<Rightarrow> u32 \<Rightarrow> bool \<Rightarrow> 'k conn \<Rightarrow> (int \<times> byte list \<times> 'k conn) option" where
  "ssh_channel_read env channel dest_ok count is_stderr c =
     ssh_channel_read_timeout env channel dest_ok count is_stderr SSH_TIMEOUT_DEFAULT c"

text \<open>A length is returned as an \<open>int\<close>.\<close>

definition ssh_channel_poll :: "'k conn_env \<Rightarrow> nat option \<Rightarrow> bool \<Rightarrow> 'k conn \<Rightarrow> (int \<times> 'k conn) option" where
  "ssh_channel_poll env channel is_stderr c =
     (case channel of
        None \<Rightarrow> Some (SSH_ERROR, c)
      | Some a \<Rightarrow>
          chan_view c a (\<lambda>ch.
            if chan_flags ch AND SSH_CHANNEL_FLAG_FREED_LOCAL \<noteq> 0 then Some (SSH_ERROR, c)
            else
              let after = (\<lambda>c1. chan_view c1 a (\<lambda>ch1. Option.bind (std_buf is_stderr ch1) (\<lambda>buf.
                    if 0 < ssh_buffer_get_len buf then Some (sint (ssh_buffer_get_len buf), c1)
                    else if remote_eof ch1 then Some (SSH_EOF, c1)
                    else Some (sint (ssh_buffer_get_len buf), c1))))
              in if remote_eof ch then after c
                 else if session_failed c then Some (SSH_ERROR, c)
                 else Option.bind (ssh_handle_packets env SSH_TIMEOUT_NONBLOCKING c) (\<lambda>(rc, c1).
                   if rc = SSH_ERROR then Some (SSH_ERROR, c1) else after c1)))"

definition ssh_channel_read_nonblocking ::
  "'k conn_env \<Rightarrow> nat option \<Rightarrow> bool \<Rightarrow> u32 \<Rightarrow> bool \<Rightarrow> 'k conn \<Rightarrow> (int \<times> byte list \<times> 'k conn) option" where
  "ssh_channel_read_nonblocking env channel dest_ok count is_stderr c =
     (if channel = None \<or> \<not> dest_ok then Some (SSH_ERROR, [], c)
      else Option.bind (ssh_channel_poll env channel is_stderr c) (\<lambda>(rc, c1).
        if rc \<le> 0 then Some (if session_failed c1 then SSH_ERROR else rc, [], c1)
        else
          let to_read = (if count < of_int rc then count else of_int rc);
              blocking = ssh_is_blocking c1
          in map_option (\<lambda>(rc1, dest, c2). (rc1, dest, ssh_set_blocking blocking c2))
               (ssh_channel_read env channel dest_ok to_read is_stderr (ssh_set_blocking False c1))))"

definition ssh_channel_poll_timeout :: "'k conn_env \<Rightarrow> nat option \<Rightarrow> int \<Rightarrow> bool \<Rightarrow> 'k conn \<Rightarrow> (int \<times> 'k conn) option" where
  "ssh_channel_poll_timeout env channel timeout is_stderr c =
     (case channel of
        None \<Rightarrow> Some (SSH_ERROR, c)
      | Some a \<Rightarrow>
          chan_view c a (\<lambda>ch.
            if chan_flags ch AND SSH_CHANNEL_FLAG_FREED_LOCAL \<noteq> 0 then Some (SSH_ERROR, c)
            else Option.bind (ssh_handle_packets_termination env timeout (ssh_channel_read_termination a is_stderr) c) (\<lambda>(rc, c1).
              if rc = SSH_ERROR \<or> session_failed c1 then Some (SSH_ERROR, c1)
              else if rc = SSH_AGAIN then Some (SSH_OK, c1)
              else chan_view c1 a (\<lambda>ch1. Option.bind (std_buf is_stderr ch1) (\<lambda>buf.
                let len = ssh_buffer_get_len buf in
                if 0 < len then Some (if 2147483647 < len then SSH_ERROR else uint len, c1)
                else Some (if remote_eof ch1 then SSH_EOF else rc, c1))))))"

section \<open>Reading into a buffer\<close>

text \<open>
  The bytes are read straight into the memory reserved at the end of the buffer, from its
  position \<open>i\<close> on, which stays the same for every read.
\<close>

definition store_at :: "nat \<Rightarrow> byte list \<Rightarrow> ssh_buffer \<Rightarrow> ssh_buffer" where
  "store_at i bs b = b\<lparr>data := write_at i bs (data b)\<rparr>"

partial_function (option) read_full ::
  "'k conn_env \<Rightarrow> nat \<Rightarrow> bool \<Rightarrow> u32 \<Rightarrow> nat \<Rightarrow> u32 \<Rightarrow> ssh_buffer \<Rightarrow> 'k conn \<Rightarrow> (int \<times> ssh_buffer \<times> 'k conn) option" where
  "read_full env a is_stderr count i tot buf c =
     (if count \<le> tot then Some (sint tot, buf, c)
      else Option.bind (ssh_channel_read env (Some a) True (count - tot) is_stderr c) (\<lambda>(r, bs, c1).
        let buf1 = store_at i bs buf in
        if r < 0 then Some (r, snd (ssh_buffer_pass_bytes_end count buf1), c1)
        else if r = 0 then Some (sint tot, snd (ssh_buffer_pass_bytes_end (count - tot) buf1), c1)
        else read_full env a is_stderr count i (tot + of_int r) buf1 c1))"

partial_function (option) read_available ::
  "'k conn_env \<Rightarrow> nat \<Rightarrow> bool \<Rightarrow> ssh_buffer \<Rightarrow> 'k conn \<Rightarrow> (int \<times> ssh_buffer \<times> 'k conn) option" where
  "read_available env a is_stderr buf c =
     Option.bind (ssh_channel_poll env (Some a) is_stderr c) (\<lambda>(r, c1).
       if r < 0 then Some (r, buf, c1)
       else if 0 < r then
         (case ssh_buffer_allocate (mem (pk env)) (of_int r) buf of
            (None, buf1) \<Rightarrow> Some (SSH_ERROR, buf1, c1)
          | (Some i, buf1) \<Rightarrow>
              Option.bind (ssh_channel_read env (Some a) True (of_int r) is_stderr c1) (\<lambda>(r1, bs, c2).
                let buf2 = store_at i bs buf1 in
                if r1 < 0 then Some (r1, snd (ssh_buffer_pass_bytes_end (of_int r) buf2), c2)
                else Some (r1, snd (ssh_buffer_pass_bytes_end (of_int r - of_int r1) buf2), c2)))
       else Option.bind (ssh_channel_is_eof (Some a) c1) (\<lambda>e.
         if e \<noteq> 0 then Some (0, buf, c1)
         else Option.bind (ssh_handle_packets env SSH_TIMEOUT_INFINITE c1) (\<lambda>(_, c2).
           read_available env a is_stderr buf c2)))"

definition channel_read_buffer ::
  "'k conn_env \<Rightarrow> nat option \<Rightarrow> ssh_buffer option \<Rightarrow> u32 \<Rightarrow> bool \<Rightarrow> 'k conn \<Rightarrow>
    (int \<times> ssh_buffer option \<times> 'k conn) option" where
  "channel_read_buffer env channel buffer count is_stderr c =
     (case (channel, buffer) of
        (Some a, Some b) \<Rightarrow>
          map_option (\<lambda>(r, b', c'). (r, Some b', c'))
            (let b1 = snd (ssh_buffer_reinit (mem (pk env)) b) in
             if count = 0 then read_available env a is_stderr b1 c
             else (case ssh_buffer_allocate (mem (pk env)) count b1 of
                     (None, b2) \<Rightarrow> Some (SSH_ERROR, b2, c)
                   | (Some i, b2) \<Rightarrow> read_full env a is_stderr count i 0 b2 c))
      | _ \<Rightarrow> Some (SSH_ERROR, buffer, c))"

section \<open>How the remote process ended\<close>

definition ssh_channel_exit_status_termination :: "nat \<Rightarrow> 'k conn \<Rightarrow> bool option" where
  "ssh_channel_exit_status_termination a c =
     chan_view c a (\<lambda>ch. Some (exit_status ch \<or> chan_flags ch AND SSH_CHANNEL_FLAG_CLOSED_REMOTE \<noteq> 0 \<or> session_failed c))"

record exit_report =
  pexit_code :: "u32 option"
  pexit_signal :: "byte list option option"
  pcore_dumped :: "bool option"

text \<open>
  The caller says which of the three it wants; the report holds what is stored there. The check
  after \<open>strdup\<close> looks at the caller's pointer, so it never sees that \<open>strdup\<close> failed.
\<close>

definition ssh_channel_get_exit_state ::
  "'k conn_env \<Rightarrow> nat option \<Rightarrow> bool \<Rightarrow> bool \<Rightarrow> bool \<Rightarrow> 'k conn \<Rightarrow> (int \<times> exit_report \<times> 'k conn) option" where
  "ssh_channel_get_exit_state env channel want_code want_signal want_core c =
     (let nothing = \<lparr>pexit_code = None, pexit_signal = None, pcore_dumped = None\<rparr> in
      case channel of
        None \<Rightarrow> Some (SSH_ERROR, nothing, c)
      | Some a \<Rightarrow>
          chan_view c a (\<lambda>ch.
            if chan_flags ch AND SSH_CHANNEL_FLAG_FREED_LOCAL \<noteq> 0 then Some (SSH_ERROR, nothing, c)
            else Option.bind (ssh_handle_packets_termination env SSH_TIMEOUT_DEFAULT (ssh_channel_exit_status_termination a) c)
              (\<lambda>(rc, c1). chan_view c1 a (\<lambda>ch1.
                 if rc = SSH_ERROR \<or> session_failed c1 then Some (SSH_ERROR, nothing, c1)
                 else if \<not> exit_status ch1 then Some (SSH_AGAIN, nothing, c1)
                 else Some (SSH_OK,
                        \<lparr>pexit_code = (if want_code then Some (exit_code ch1) else None),
                         pexit_signal = (if want_signal then Some (if mem (pk env) then exit_signal ch1 else None) else None),
                         pcore_dumped = (if want_core then Some (core_dumped ch1) else None)\<rparr>, c1)))))"

definition ssh_channel_get_exit_status :: "'k conn_env \<Rightarrow> nat option \<Rightarrow> 'k conn \<Rightarrow> (int \<times> 'k conn) option" where
  "ssh_channel_get_exit_status env channel c =
     map_option (\<lambda>(rc, rep, c1).
       (if rc \<noteq> SSH_OK then SSH_ERROR else sint (case pexit_code rep of None \<Rightarrow> -1 | Some x \<Rightarrow> x), c1))
       (ssh_channel_get_exit_state env channel True False False c)"

end
