(* ===== verification/Channel_Law.thy ===== *)
theory Channel_Law
  imports Channel_Request Channel_Read
begin

unbundle bit_operations_syntax

text \<open>
  A property of channels that everything keeps: what a step of a channel has to promise is a
  locale, and inside it every handler and every operation keeps the property for all channels.
\<close>

section \<open>If it returns\<close>

text \<open>\<open>ret_ok Q r\<close>: if the step returns, \<open>Q\<close> holds of what it returns; with one rule per construct.\<close>

definition ret_ok :: "('a \<Rightarrow> bool) \<Rightarrow> 'a option \<Rightarrow> bool" where
  "ret_ok Q r \<longleftrightarrow> (\<forall>x. r = Some x \<longrightarrow> Q x)"

named_theorems ret_rules "introduction rules for results"

lemma ret_Some [ret_rules]: "Q x \<Longrightarrow> ret_ok Q (Some x)"
  by (simp add: ret_ok_def)

lemma ret_None [simp]: "ret_ok Q None"
  by (simp add: ret_ok_def)

lemma ret_if [ret_rules]: "(b \<Longrightarrow> ret_ok Q x) \<Longrightarrow> (\<not> b \<Longrightarrow> ret_ok Q y) \<Longrightarrow> ret_ok Q (if b then x else y)"
  by simp

lemma ret_look [ret_rules]: "(\<And>ch. chan_at c a = Some ch \<Longrightarrow> ret_ok Q (f ch)) \<Longrightarrow> ret_ok Q (Option.bind (chan_at c a) f)"
  by (cases "chan_at c a") (auto simp: ret_ok_def)

lemma ret_buf [ret_rules]: "(\<And>b. std_buf e ch = Some b \<Longrightarrow> ret_ok Q (f b)) \<Longrightarrow> ret_ok Q (Option.bind (std_buf e ch) f)"
  by (cases "std_buf e ch") (auto simp: ret_ok_def)

lemma ret_seq: "ret_ok R m \<Longrightarrow> (\<And>x. R x \<Longrightarrow> ret_ok Q (f x)) \<Longrightarrow> ret_ok Q (Option.bind m f)"
  by (cases m) (auto simp: ret_ok_def)

lemma ret_map: "ret_ok R m \<Longrightarrow> (\<And>x. R x \<Longrightarrow> Q (f x)) \<Longrightarrow> ret_ok Q (map_option f m)"
  by (cases m) (auto simp: ret_ok_def)

lemma ret_mono: "ret_ok R m \<Longrightarrow> (\<And>x. R x \<Longrightarrow> Q x) \<Longrightarrow> ret_ok Q m"
  by (auto simp: ret_ok_def)

section \<open>What leaves the channels alone\<close>

lemma chan_at_simps [simp]:
  "chan_at (with_sess f c) = chan_at c" "chan_at (snd (send_packet env c)) = chan_at c"
  "chan_at (snd (pack_out env fmt args c)) = chan_at c" "chan_at (snd (snd (unpack_in env fmt c))) = chan_at c"
  "chan_at (reinit_out env c) = chan_at c" "chan_at (ssh_set_blocking b c) = chan_at c"
  "chan_at (snd (ssh_channel_new_id c)) = chan_at c"
  by (auto simp: with_sess_def send_packet_def pack_out_def unpack_in_def reinit_out_def ssh_set_blocking_def
      ssh_channel_new_id_def Let_def split: prod.split option.split)

lemma chan_at_send: "send_packet env c = (rc, c') \<Longrightarrow> chan_at c' = chan_at c"
  by (metis chan_at_simps(2) snd_conv)

lemma chan_at_pack: "pack_out env fmt args c = (rc, c') \<Longrightarrow> chan_at c' = chan_at c"
  by (metis chan_at_simps(3) snd_conv)

lemma chan_at_unpack: "unpack_in env fmt c = (rc, items, c') \<Longrightarrow> chan_at c' = chan_at c"
  by (metis chan_at_simps(4) snd_conv)

lemmas chan_at_same = chan_at_send chan_at_pack chan_at_unpack

lemma channel_from_msg_same: "channel_from_msg env c = Some (x, c') \<Longrightarrow> chan_at c' = chan_at c"
  by (auto simp: channel_from_msg_def dest!: chan_at_unpack split: prod.splits list.splits item.splits)

section \<open>All channels\<close>

definition all_in :: "(ssh_channel \<Rightarrow> bool) \<Rightarrow> (nat \<Rightarrow> ssh_channel option) \<Rightarrow> bool" where
  "all_in ok h \<longleftrightarrow> (\<forall>a ch. h a = Some ch \<longrightarrow> ok ch)"

abbreviation all_chans :: "(ssh_channel \<Rightarrow> bool) \<Rightarrow> 'k conn \<Rightarrow> bool" where
  "all_chans ok c \<equiv> all_in ok (chan_at c)"

lemma chan_at_upd [simp]: "chan_at (upd_chan a f c) = (chan_at c)(a := map_option f (chan_at c a))"
  by (simp add: upd_chan_def)

lemma chan_at_free [simp]: "chan_at (ssh_channel_do_free a c) = (chan_at c)(a := None)"
  by (simp add: ssh_channel_do_free_def)

lemma all_upd: "all_in ok h \<Longrightarrow> (\<And>ch. h a = Some ch \<Longrightarrow> ok ch \<Longrightarrow> ok (f ch)) \<Longrightarrow> all_in ok (h(a := map_option f (h a)))"
  by (auto simp: all_in_def)

lemma all_put: "all_in ok h \<Longrightarrow> ok ch \<Longrightarrow> all_in ok (h(a \<mapsto> ch))"
  by (auto simp: all_in_def)

lemma all_step: "all_in ok h \<Longrightarrow> h a = Some ch \<Longrightarrow> (ok ch \<Longrightarrow> ok ch') \<Longrightarrow> all_in ok (h(a \<mapsto> ch'))"
  by (auto simp: all_in_def)

lemma all_free: "all_in ok h \<Longrightarrow> all_in ok (h(a := None))"
  by (auto simp: all_in_def)

lemma all_at: "all_in ok h \<Longrightarrow> h a = Some ch \<Longrightarrow> ok ch"
  by (simp add: all_in_def)

text \<open>
  What the user's functions, the rest of the library and a round of packets must not break. A
  data callback takes no more than it is given, and does not turn a channel back into a new one.
\<close>

definition tame :: "(ssh_channel \<Rightarrow> bool) \<Rightarrow> 'k conn_env \<Rightarrow> bool" where
  "tame ok env \<longleftrightarrow>
     (\<forall>cb ev a c. all_chans ok c \<longrightarrow> all_chans ok (event_cb env cb ev a c)) \<and>
     (\<forall>cb a bs e c r c'. all_chans ok c \<longrightarrow> data_cb env cb a bs e c = (r, c') \<longrightarrow>
        all_chans ok c' \<and> (0 < r \<longrightarrow> r \<le> int (length bs) \<and> (\<forall>ch. chan_at c' a = Some ch \<longrightarrow> chan_state ch \<noteq> SSH_CHANNEL_STATE_NOT_OPEN))) \<and>
     (\<forall>cb a c. all_chans ok c \<longrightarrow> (case agent_cb env cb of None \<Rightarrow> True | Some f \<Rightarrow> all_chans ok (f a c))) \<and>
     (\<forall>a req w c. all_chans ok c \<longrightarrow> all_chans ok (server_request env a req w c)) \<and>
     (\<forall>n tm c rc c'. all_chans ok c \<longrightarrow> poll_round env n tm c = Some (rc, c') \<longrightarrow> all_chans ok c')"

lemma tame_event: "tame ok env \<Longrightarrow> all_chans ok c \<Longrightarrow> all_chans ok (event_cb env cb ev a c)"
  unfolding tame_def by (drule conjunct1) blast

lemma tame_data:
  "tame ok env \<Longrightarrow> all_chans ok c \<Longrightarrow> data_cb env cb a bs e c = (r, c') \<Longrightarrow>
    all_chans ok c' \<and> (0 < r \<longrightarrow> r \<le> int (length bs) \<and> (\<forall>ch. chan_at c' a = Some ch \<longrightarrow> chan_state ch \<noteq> SSH_CHANNEL_STATE_NOT_OPEN))"
  unfolding tame_def by (drule conjunct2, drule conjunct1) blast

lemma tame_agent: "tame ok env \<Longrightarrow> all_chans ok c \<Longrightarrow> agent_cb env cb = Some f \<Longrightarrow> all_chans ok (f a c)"
  unfolding tame_def by (drule conjunct2, drule conjunct2, drule conjunct1) (metis option.simps(5))

lemma tame_server: "tame ok env \<Longrightarrow> all_chans ok c \<Longrightarrow> all_chans ok (server_request env a req w c)"
  unfolding tame_def by (elim conjE) blast

lemma tame_poll: "tame ok env \<Longrightarrow> all_chans ok c \<Longrightarrow> poll_round env n tm c = Some (rc, c') \<Longrightarrow> all_chans ok c'"
  unfolding tame_def by (drule conjunct2, drule conjunct2, drule conjunct2, drule conjunct2) blast

lemma notify_keeps:
  assumes "tame ok env" and "all_chans ok c"
  shows "all_chans ok (notify env ev a c)"
proof -
  have "all_chans ok (fold (\<lambda>cb. event_cb env cb ev a) l c)" for l
    using assms(2) by (induction l arbitrary: c) (auto intro: tame_event [OF assms(1)])
  with assms(2) show ?thesis by (simp add: notify_def split: option.split)
qed

lemma poll_keeps:
  assumes "tame ok env" and "all_chans ok c" and "ssh_handle_packets env tm c = Some (rc, c')"
  shows "all_chans ok c'"
proof (cases "pollable env c")
  case True
  with assms(3) obtain tm' c1 where p: "poll_round env (rounds c) tm' (c\<lparr>rounds := Suc (rounds c)\<rparr>) = Some (rc, c1)"
    and c': "c' = c1 \<or> c' = with_sess (\<lambda>s. s\<lparr>session_state := SSH_SESSION_STATE_ERROR\<rparr>) c1"
    by (simp add: ssh_handle_packets_def Let_def split: option.splits) (auto split: if_splits)
  have "all_chans ok (c\<lparr>rounds := Suc (rounds c)\<rparr>)" using assms(2) by simp
  from tame_poll [OF assms(1) this p] c' show ?thesis by auto
qed (use assms in \<open>simp add: ssh_handle_packets_def\<close>)

lemma waiting_keeps:
  "tame ok env \<Longrightarrow> all_chans ok c \<Longrightarrow> ssh_handle_packets_termination env tmo fct c = Some (rc, c') \<Longrightarrow> all_chans ok c'"
  by (rule wait_keeps [where P = "all_chans ok"]) (auto intro: poll_keeps)

lemma flushing_keeps:
  "tame ok env \<Longrightarrow> all_chans ok c \<Longrightarrow> ssh_blocking_flush env tmo c = Some (rc, c') \<Longrightarrow> all_chans ok c'"
  by (rule flush_keeps [where P = "all_chans ok"]) (auto intro: poll_keeps)

section \<open>Strings of a packet\<close>

lemma get_u32_ok:
  assumes "buffer_ok b" and "ssh_buffer_get_u32 b = ((n, x), b')"
  shows "buffer_ok b'"
proof -
  obtain m bs b1 where g: "ssh_buffer_get_data 4 b = ((m, bs), b1)" by (metis prod.exhaust)
  have "buffer_ok b1" using get_data_ok [OF assms(1), of 4] g assms(1) by (auto split: if_splits)
  with assms(2) g show ?thesis by (simp add: ssh_buffer_get_u32_def)
qed

lemma get_string_len:
  assumes ok: "buffer_ok b" and ret: "ssh_buffer_get_ssh_string m b = (Some x, b')"
  shows "length (str_view x) = unat (ssh_string_len (Some x))"
proof -
  obtain n w b1 where u: "ssh_buffer_get_u32 b = ((n, w), b1)" by (metis prod.exhaust)
  have b1: "buffer_ok b1" by (rule get_u32_ok [OF ok u])
  obtain k bs b2 where d: "ssh_buffer_get_data (ntohl w) b1 = ((k, bs), b2)" by (metis prod.exhaust)
  from ret u d obtain str where str: "ssh_string_new m (ntohl w) = Some str" "k = ntohl w"
    and x: "x = str\<lparr>str_data := bs @ drop (unat (ntohl w)) (str_data str)\<rparr>"
    by (auto simp: ssh_buffer_get_ssh_string_def Let_def split: if_splits option.splits)
  have "length bs = unat (ntohl w)"
    using get_data_ok [OF b1, of "ntohl w"] d str(2) by (auto split: if_splits)
  with str(1) x show ?thesis
    by (auto simp: ssh_string_new_def ssh_string_len_def str_view_def word_gt_0 not_less split: if_splits)
qed

lemma channel_from_msg_buffer:
  assumes "buffer_ok (the (in_buffer (sess c)))" and "channel_from_msg env c = Some (x, c')"
  shows "buffer_ok (the (in_buffer (sess c')))"
proof -
  obtain rc items c1 where u: "unpack_in env ''d'' c = (rc, items, c1)" by (metis prod.exhaust)
  obtain n w b1 where g: "ssh_buffer_get_u32 (the (in_buffer (sess c))) = ((n, w), b1)" by (metis prod.exhaust)
  have "buffer_ok b1" by (rule get_u32_ok [OF assms(1) g])
  then have "buffer_ok (the (in_buffer (sess c1)))"
    using u g assms(1)
    by (auto simp: unpack_in_def ssh_buffer_unpack_def ssh_buffer_unpack_va_def unpack_one_def with_sess_def
        split: if_splits option.splits prod.splits)
  moreover have "c' = c1"
    using assms(2) u by (auto simp: channel_from_msg_def split: list.splits item.splits)
  ultimately show ?thesis by simp
qed

section \<open>The law\<close>

text \<open>
  \<open>ok\<close> is kept by every change the code makes to a channel. Data arrives only within the local
  window; the window grows only on a channel that is not new, which one with buffered data is not.
\<close>

locale chan_law =
  fixes ok :: "ssh_channel \<Rightarrow> bool"
  assumes new: "ssh_buffer_new True True = Some b1 \<Longrightarrow> ssh_buffer_new True True = Some b2 \<Longrightarrow> ok (new_channel b1 b2)"
    and opens: "ok ch \<Longrightarrow> chan_state ch = SSH_CHANNEL_STATE_NOT_OPEN \<Longrightarrow>
      ok (ch\<lparr>local_channel := i, local_maxpacket := p, local_window := WINDOW_DEFAULT, chan_state := SSH_CHANNEL_STATE_OPENING\<rparr>)"
    and announced: "ok ch \<Longrightarrow> ok (store_remote xs ch)"
    and confirmed: "ok ch \<Longrightarrow> chan_state ch = SSH_CHANNEL_STATE_OPENING \<Longrightarrow>
      ok (ch\<lparr>chan_state := SSH_CHANNEL_STATE_OPEN, chan_flags := chan_flags ch AND NOT SSH_CHANNEL_FLAG_NOT_BOUND\<rparr>)"
    and denied: "ok ch \<Longrightarrow> chan_state ch = SSH_CHANNEL_STATE_OPENING \<Longrightarrow> ok (ch\<lparr>chan_state := SSH_CHANNEL_STATE_OPEN_DENIED\<rparr>)"
    and granted: "ok ch \<Longrightarrow> ok (ch\<lparr>remote_window := w\<rparr>)"
    and arrived: "ok ch \<Longrightarrow> channel_default_bufferize m bs e ch = (rc, ch1) \<Longrightarrow> length bs \<le> unat (local_window ch) \<Longrightarrow>
      ok (if rc < 0 then ch1 else ch1\<lparr>local_window := local_window ch1 - of_nat (length bs)\<rparr>)"
    and taken: "ok ch \<Longrightarrow> std_buf e ch = Some b \<Longrightarrow> ok (set_std e (snd (ssh_buffer_pass_bytes n b)) (count_in k ch))"
    and grown: "ok ch \<Longrightarrow> chan_state ch \<noteq> SSH_CHANNEL_STATE_NOT_OPEN \<Longrightarrow>
      ok (ch\<lparr>local_window := local_window ch + window_increment ch\<rparr>)"
    and used_open: "ok ch \<Longrightarrow> std_buf e ch = Some b \<Longrightarrow> 0 < ssh_buffer_get_len b \<Longrightarrow>
      chan_state ch \<noteq> SSH_CHANNEL_STATE_NOT_OPEN"
    and ended: "ok ch \<Longrightarrow> ok (ch\<lparr>remote_eof := True\<rparr>)"
    and peer_closed: "ok ch \<Longrightarrow> ok ((if \<not> ssh_channel_has_unread_data ch then ch\<lparr>chan_state := SSH_CHANNEL_STATE_CLOSED\<rparr>
      else ch\<lparr>delayed_close := True\<rparr>)\<lparr>remote_eof := True\<rparr>)"
    and read_close: "ok ch \<Longrightarrow> \<not> ssh_channel_has_unread_data ch \<Longrightarrow> ok (ch\<lparr>chan_state := SSH_CHANNEL_STATE_CLOSED\<rparr>)"
    and remote_gone: "ok ch \<Longrightarrow> ok (ch\<lparr>chan_flags := chan_flags ch OR SSH_CHANNEL_FLAG_CLOSED_REMOTE\<rparr>)"
    and exited: "ok ch \<Longrightarrow> ok (ch\<lparr>exit_code := x, exit_status := True\<rparr>)"
      "ok ch \<Longrightarrow> ok (ch\<lparr>core_dumped := d, exit_signal := sg, exit_status := True\<rparr>)"
    and request: "ok ch \<Longrightarrow> ok (ch\<lparr>request_state := r\<rparr>)"
    and sent_eof: "ok ch \<Longrightarrow> ok (ch\<lparr>local_eof := True\<rparr>)"
    and sent_close: "ok ch \<Longrightarrow>
      ok (ch\<lparr>chan_state := SSH_CHANNEL_STATE_CLOSED, chan_flags := chan_flags ch OR SSH_CHANNEL_FLAG_CLOSED_LOCAL\<rparr>)"
    and given_up: "ok ch \<Longrightarrow> ok (ch\<lparr>chan_flags := chan_flags ch OR SSH_CHANNEL_FLAG_FREED_LOCAL, chan_callbacks := None\<rparr>)"
    and wrote: "ok ch \<Longrightarrow> ok (count_out k (ch\<lparr>remote_window := remote_window ch - n\<rparr>))"
    and counted: "ok ch \<Longrightarrow> ok (ch\<lparr>counter := q\<rparr>)"

context chan_law begin

lemma grow_keeps:
  assumes "grow_window env a c = Some (rc, c')" and "all_chans ok c"
    and "\<And>ch. chan_at c a = Some ch \<Longrightarrow> chan_state ch \<noteq> SSH_CHANNEL_STATE_NOT_OPEN"
  shows "all_chans ok c'"
proof -
  obtain ch where ch: "chan_at c a = Some ch" using assms(1) by (auto simp: grow_window_def split: option.splits)
  have "chan_at c' = chan_at c \<or> chan_at c' = (chan_at c)(a \<mapsto> ch\<lparr>local_window := local_window ch + window_increment ch\<rparr>)"
    using assms(1) ch by (auto simp: grow_window_def Let_def case_prod_beta split: if_splits)
  then show ?thesis using all_put [OF assms(2) grown [OF all_at [OF assms(2) ch] assms(3) [OF ch]]] assms(2) by auto
qed

lemma open_conf_keeps:
  assumes t: "tame ok env" and c: "all_chans ok c" and ret: "ssh_packet_channel_open_conf env c = Some (rc, c')"
  shows "all_chans ok c'"
proof -
  from ret obtain x c1 where 1: "channel_from_msg env c = Some (x, c1)"
    by (auto simp: ssh_packet_channel_open_conf_def bind_eq_Some_conv)
  have c1: "all_chans ok c1" using channel_from_msg_same [OF 1] c by simp
  from ret 1 c1 show ?thesis
    by (auto simp: ssh_packet_channel_open_conf_def Let_def case_prod_beta bind_eq_Some_conv split: if_splits option.splits list.splits item.splits
       intro!: notify_keeps [OF t] all_upd all_put announced confirmed [simplified] dest: all_at)
qed

lemma open_fail_keeps:
  assumes t: "tame ok env" and c: "all_chans ok c" and ret: "ssh_packet_channel_open_fail env c = Some (rc, c')"
  shows "all_chans ok c'"
proof -
  from ret obtain x c1 where 1: "channel_from_msg env c = Some (x, c1)"
    by (auto simp: ssh_packet_channel_open_fail_def bind_eq_Some_conv)
  have c1: "all_chans ok c1" using channel_from_msg_same [OF 1] c by simp
  from ret 1 c1 show ?thesis
    by (auto simp: ssh_packet_channel_open_fail_def Let_def case_prod_beta bind_eq_Some_conv split: if_splits option.splits list.splits item.splits
       intro!: notify_keeps [OF t] all_upd all_put denied dest: all_at)
qed

lemma change_window_keeps:
  assumes t: "tame ok env" and c: "all_chans ok c" and ret: "channel_rcv_change_window env c = Some (rc, c')"
  shows "all_chans ok c'"
proof -
  from ret obtain x c1 where 1: "channel_from_msg env c = Some (x, c1)"
    by (auto simp: channel_rcv_change_window_def bind_eq_Some_conv)
  have c1: "all_chans ok c1" using channel_from_msg_same [OF 1] c by simp
  from ret 1 c1 show ?thesis
    by (auto simp: channel_rcv_change_window_def Let_def case_prod_beta bind_eq_Some_conv split: if_splits option.splits list.splits item.splits
       intro!: notify_keeps [OF t] all_upd all_put granted dest: all_at)
qed

lemma rcv_eof_keeps:
  assumes t: "tame ok env" and c: "all_chans ok c" and ret: "channel_rcv_eof env c = Some (rc, c')"
  shows "all_chans ok c'"
proof -
  from ret obtain x c1 where 1: "channel_from_msg env c = Some (x, c1)"
    by (auto simp: channel_rcv_eof_def bind_eq_Some_conv)
  have c1: "all_chans ok c1" using channel_from_msg_same [OF 1] c by simp
  from ret 1 c1 show ?thesis
    by (auto simp: channel_rcv_eof_def Let_def case_prod_beta bind_eq_Some_conv split: if_splits option.splits list.splits item.splits
       intro!: notify_keeps [OF t] all_upd ended dest: all_at)
qed

lemma rcv_close_keeps:
  assumes t: "tame ok env" and c: "all_chans ok c" and ret: "channel_rcv_close env c = Some (rc, c')"
  shows "all_chans ok c'"
proof -
  from ret obtain x c1 where 1: "channel_from_msg env c = Some (x, c1)"
    by (auto simp: channel_rcv_close_def bind_eq_Some_conv)
  have c1: "all_chans ok c1" using channel_from_msg_same [OF 1] c by simp
  show ?thesis
  proof (cases x)
    case None
    with ret 1 c1 show ?thesis by (auto simp: channel_rcv_close_def)
  next
    case (Some a)
    define c3 where "c3 = notify env Close a (upd_chan a (\<lambda>ch.
                 (if \<not> ssh_channel_has_unread_data ch then ch\<lparr>chan_state := SSH_CHANNEL_STATE_CLOSED\<rparr>
                  else ch\<lparr>delayed_close := True\<rparr>)\<lparr>remote_eof := True\<rparr>) c1)"
    have c3: "all_chans ok c3" unfolding c3_def using c1 by (auto intro!: notify_keeps [OF t] all_upd peer_closed)
    from ret 1 Some show ?thesis
      using c3
      by (auto simp: channel_rcv_close_def Let_def c3_def [symmetric] bind_eq_Some_conv intro!: all_free all_put remote_gone dest: all_at split: if_splits)
  qed
qed

lemma request_answered_keeps:
  assumes t: "tame ok env" and c: "all_chans ok c" and ret: "request_answered answer env c = Some (rc, c')"
  shows "all_chans ok c'"
proof -
  from ret obtain x c1 where 1: "channel_from_msg env c = Some (x, c1)"
    by (auto simp: request_answered_def bind_eq_Some_conv)
  have c1: "all_chans ok c1" using channel_from_msg_same [OF 1] c by simp
  from ret 1 c1 show ?thesis
    by (auto simp: request_answered_def Let_def case_prod_beta bind_eq_Some_conv split: if_splits option.splits list.splits item.splits
       intro!: notify_keeps [OF t] all_upd all_put request dest: all_at)
qed

lemma callbacks_keep:
  assumes t: "tame ok env"
  shows "all_chans ok c \<Longrightarrow> run_data_callbacks env a e cbs c = Some (rc, c') \<Longrightarrow> all_chans ok c'"
proof (induction cbs arbitrary: c)
  case (Cons cb cbs)
  from Cons.prems(2) obtain ch buf where ch: "chan_at c a = Some ch" "std_buf e ch = Some buf"
    by (auto simp: bind_eq_Some_conv)
  obtain r c1 where cb: "data_cb env cb a (contents buf) e c = (r, c1)" by fastforce
  have c1: "all_chans ok c1" and pos: "0 < r \<Longrightarrow> \<forall>ch. chan_at c1 a = Some ch \<longrightarrow> chan_state ch \<noteq> SSH_CHANNEL_STATE_NOT_OPEN"
    using tame_data [OF t Cons.prems(1) cb] by auto
  show ?case
  proof (cases "r \<le> 0")
    case True
    with Cons.prems(2) ch cb Cons.IH [OF c1] show ?thesis by simp
  next
    case False
    with Cons.prems(2) ch cb obtain ch1 buf1 where ch1: "chan_at c1 a = Some ch1" "std_buf e ch1 = Some buf1"
      by (auto simp: bind_eq_Some_conv)
    define c2 where "c2 = upd_chan a (\<lambda>ch. set_std e (snd (ssh_buffer_pass_bytes (of_int r) buf1)) (count_in (of_int r) ch)) c1"
    from False Cons.prems(2) ch cb ch1 obtain rc3 c3 where g: "grow_window env a c2 = Some (rc3, c3)"
      by (auto simp: bind_eq_Some_conv Let_def c2_def)
    have c2: "all_chans ok c2" unfolding c2_def using c1 ch1 taken [OF all_at [OF c1 ch1(1)] ch1(2)] by (auto intro!: all_put)
    have "chan_state h \<noteq> SSH_CHANNEL_STATE_NOT_OPEN" if "chan_at c2 a = Some h" for h
      using that pos False ch1 by (auto simp: c2_def set_std_def count_in_def split: if_splits)
    from grow_keeps [OF g c2 this] have c3: "all_chans ok c3" by blast
    from False Cons.prems(2) ch cb ch1 g Cons.IH [OF c3] c3 show ?thesis
      by (auto simp: Let_def c2_def [symmetric] split: if_splits)
  qed
qed simp

lemma rcv_string_keeps:
  assumes t: "tame ok env" and c: "all_chans ok c" and b: "buffer_ok (the (in_buffer (sess c)))"
    and ret: "rcv_string env e a c = Some (rc, c')"
  shows "all_chans ok c'"
proof -
  obtain str b' where g: "ssh_buffer_get_ssh_string (mem (pk env)) (the (in_buffer (sess c))) = (str, b')" by fastforce
  define c1 where "c1 = with_sess (\<lambda>s. s\<lparr>in_buffer := Some b'\<rparr>) c"
  show ?thesis
  proof (cases str)
    case None
    with ret g c show ?thesis by (auto simp: rcv_string_def)
  next
    case (Some x)
    with ret g obtain ch where ch: "chan_at c a = Some ch" by (auto simp: rcv_string_def Let_def bind_eq_Some_conv)
    note len = get_string_len [OF b g [unfolded Some]]
    show ?thesis
    proof (cases "local_window ch < ssh_string_len (Some x)")
      case True
      with ret g Some ch c show ?thesis by (auto simp: rcv_string_def Let_def)
    next
      case False
      obtain rc1 ch1 where bf: "channel_default_bufferize (mem (pk env)) (str_view x) e ch = (rc1, ch1)" by fastforce
      have le: "length (str_view x) \<le> unat (local_window ch)" using False len by (simp add: word_less_nat_alt)
      have n: "of_nat (length (str_view x)) = ssh_string_len (Some x)" using len by simp
      note ok = arrived [OF all_at [OF c ch] bf le, unfolded n]
      show ?thesis
      proof (cases "rc1 < 0")
        case True
        with ok ret g Some ch False bf c show ?thesis by (auto simp: rcv_string_def Let_def intro!: all_put)
      next
        case ok1: False
        with ok have "all_chans ok (upd_chan a (\<lambda>_. ch1\<lparr>local_window := local_window ch1 - ssh_string_len (Some x)\<rparr>) c1)"
          using c ch by (auto simp: c1_def intro!: all_put)
        from callbacks_keep [OF t this] ret g Some ch False bf ok1 show ?thesis
          by (auto simp: rcv_string_def Let_def c1_def)
      qed
    qed
  qed
qed

lemma rcv_data_keeps:
  assumes t: "tame ok env" and c: "all_chans ok c" and b: "buffer_ok (the (in_buffer (sess c)))"
    and ret: "channel_rcv_data env typ c = Some (rc, c')"
  shows "all_chans ok c'"
proof -
  from ret obtain x c1 where 1: "channel_from_msg env c = Some (x, c1)"
    by (auto simp: channel_rcv_data_def bind_eq_Some_conv)
  have c1: "all_chans ok c1" using channel_from_msg_same [OF 1] c by simp
  have b1: "buffer_ok (the (in_buffer (sess c1)))" by (rule channel_from_msg_buffer [OF b 1])
  show ?thesis
  proof (cases x)
    case None
    with ret 1 c1 show ?thesis by (auto simp: channel_rcv_data_def)
  next
    case (Some a)
    obtain n code b' where u: "ssh_buffer_get_u32 (the (in_buffer (sess c1))) = ((n, code), b')" by (metis prod.exhaust)
    have b2: "buffer_ok (the (in_buffer (sess (with_sess (\<lambda>s. s\<lparr>in_buffer := Some b'\<rparr>) c1))))"
      using get_u32_ok [OF b1 u] by (simp add: with_sess_def)
    show ?thesis
      using ret 1 Some u c1 rcv_string_keeps [OF t c1 b1] rcv_string_keeps [OF t _ b2]
      by (auto simp: channel_rcv_data_def Let_def split: if_splits)
  qed
qed

lemma reply_keeps:
  assumes "all_chans ok c" and "reply_request env status a c = Some (rc, c')"
  shows "all_chans ok c'"
  using assms by (auto simp: reply_request_def Let_def case_prod_beta bind_eq_Some_conv)

lemma first_agent_keeps: "tame ok env \<Longrightarrow> all_chans ok c \<Longrightarrow> first_agent env cbs = Some f \<Longrightarrow> all_chans ok (f a c)"
  by (induction cbs) (auto split: option.splits intro: tame_agent)

abbreviation keeps :: "(int \<times> 'k conn) option \<Rightarrow> bool" where
  "keeps r \<equiv> ret_ok (\<lambda>x. all_chans ok (snd x)) r"

lemma keeps_request:
  assumes t: "tame ok env" and c: "all_chans ok c"
  shows "keeps (rcv_exit_status env a c)" "keeps (rcv_signal env a c)" "keeps (rcv_exit_signal env a c)"
    "keeps (rcv_agent_request env a w c)" "keeps (reply_request env status a c)"
proof -
  have reply: "keeps (reply_request env status a c)" if "all_chans ok c" for status c
    using that by (auto simp: reply_request_def Let_def case_prod_beta intro!: ret_rules)
  then show "keeps (reply_request env status a c)" using c .
  show "keeps (rcv_exit_status env a c)"
    using c by (auto simp: rcv_exit_status_def case_prod_beta split: list.split item.split
        intro!: ret_rules notify_keeps [OF t] all_upd exited)
  show "keeps (rcv_signal env a c)"
    using c by (auto simp: rcv_signal_def case_prod_beta split: list.split item.split intro!: ret_rules notify_keeps [OF t])
  show "keeps (rcv_exit_signal env a c)"
    using c by (auto simp: rcv_exit_signal_def case_prod_beta Let_def split: list.split item.split
        intro!: ret_rules notify_keeps [OF t] all_step exited)
  show "keeps (rcv_agent_request env a w c)"
    using c reply first_agent_keeps [OF t c]
    by (auto simp: rcv_agent_request_def Let_def split: option.split intro!: ret_rules reply)
qed

lemma rcv_request_keeps:
  assumes t: "tame ok env" and c: "all_chans ok c" and ret: "channel_rcv_request env c = Some (rc, c')"
  shows "all_chans ok c'"
proof -
  from ret obtain x c1 where 1: "channel_from_msg env c = Some (x, c1)"
    by (auto simp: channel_rcv_request_def bind_eq_Some_conv)
  have c1: "all_chans ok c1" using channel_from_msg_same [OF 1] c by simp
  have "keeps (channel_rcv_request env c)"
    unfolding channel_rcv_request_def 1 using c1
    by (auto simp: case_prod_beta Let_def split: option.split list.split item.split
      intro!: ret_rules keeps_request [OF t] tame_server [OF t])
  with ret show ?thesis by (auto simp: ret_ok_def)
qed

text \<open>Every message for a channel keeps the property.\<close>

lemma handler_keeps:
  assumes "tame ok env" and "all_chans ok c" and "buffer_ok (the (in_buffer (sess c)))"
    and "channel_handler env typ = Some h" and "h c = Some (rc, c')"
  shows "all_chans ok c'"
  using assms(4,5)
    open_conf_keeps [OF assms(1,2)] open_fail_keeps [OF assms(1,2)] change_window_keeps [OF assms(1,2)]
    rcv_data_keeps [OF assms(1,2,3)] rcv_eof_keeps [OF assms(1,2)] rcv_close_keeps [OF assms(1,2)]
    rcv_request_keeps [OF assms(1,2)] request_answered_keeps [OF assms(1,2)] assms(2)
  by (auto simp: channel_handler_def ssh_packet_channel_success_def ssh_packet_channel_failure_def
      ssh_request_success_def ssh_request_denied_def split: if_splits)

section \<open>What the user does\<close>

lemma new_keeps:
  assumes "all_chans ok c" and "ssh_channel_new env c = (x, c')"
  shows "all_chans ok c'"
  using assms by (auto simp: ssh_channel_new_def Let_def split: if_splits option.splits intro!: all_put new)

lemma keeps_wait: "tame ok env \<Longrightarrow> all_chans ok c \<Longrightarrow> keeps (ssh_handle_packets_termination env tmo fct c)"
  by (auto simp: ret_ok_def intro: waiting_keeps)

lemma keeps_poll: "tame ok env \<Longrightarrow> all_chans ok c \<Longrightarrow> keeps (ssh_handle_packets env tmo c)"
  by (auto simp: ret_ok_def intro: poll_keeps)

lemma keeps_flush: "tame ok env \<Longrightarrow> all_chans ok c \<Longrightarrow> keeps (ssh_channel_flush env a c)"
  unfolding ssh_channel_flush_def by (intro ret_rules) (auto simp: ret_ok_def intro: flushing_keeps)

lemmas seq_wait = ret_seq [OF keeps_wait]
lemmas seq_poll = ret_seq [OF keeps_poll]
lemmas seq_flush = ret_seq [OF keeps_flush]

lemma keeps_open_result: "all_chans ok c \<Longrightarrow> keeps (open_result a err c)"
  unfolding open_result_def by (intro ret_rules) simp

lemma keeps_open_pending: "tame ok env \<Longrightarrow> all_chans ok c \<Longrightarrow> keeps (open_pending env a c)"
  unfolding open_pending_def case_prod_beta by (rule seq_wait) (auto intro: keeps_open_result)

text \<open>An open that was sent; one that could not be leaves a new channel with a window.\<close>

lemma keeps_open:
  assumes t: "tame ok env" and c: "all_chans ok c"
  shows "ret_ok (\<lambda>x. (\<forall>ch. chan_at (snd x) a = Some ch \<longrightarrow> chan_state ch \<noteq> SSH_CHANNEL_STATE_NOT_OPEN) \<longrightarrow>
    all_chans ok (snd x)) (channel_open env a typ WINDOW_DEFAULT maxpacket payload c)" (is "ret_ok ?Q _")
proof -
  have o: "all_in ok ((chan_at c)(a \<mapsto> ch\<lparr>local_channel := i, local_maxpacket := maxpacket, local_window := WINDOW_DEFAULT,
      chan_state := SSH_CHANNEL_STATE_OPENING\<rparr>))"
    if "chan_at c a = Some ch" "chan_state ch = SSH_CHANNEL_STATE_NOT_OPEN" for i ch
    using c that by (intro all_step opens)
  have pend: "ret_ok ?Q (open_pending env a c1)" if "all_chans ok c1" for c1
    by (rule ret_mono [OF keeps_open_pending [OF t that]]) simp
  have res: "ret_ok ?Q (open_result a err c)" for err
    by (rule ret_mono [OF keeps_open_result [OF c]]) simp
  show ?thesis
    unfolding channel_open_def Let_def case_prod_beta
    using c o by (auto intro!: ret_rules res pend split: channel_state.split)
qed

lemma keeps_send_eof:
  assumes t: "tame ok env" and c: "all_chans ok c"
  shows "keeps (ssh_channel_send_eof env channel c)"
  unfolding ssh_channel_send_eof_def Let_def case_prod_beta
  using c by (auto intro!: ret_rules seq_flush [OF t] all_step sent_eof split: option.split)

lemmas seq_eof = ret_seq [OF keeps_send_eof]

lemma keeps_close:
  assumes t: "tame ok env" and c: "all_chans ok c"
  shows "keeps (ssh_channel_close env channel c)"
  unfolding ssh_channel_close_def Let_def case_prod_beta
  using c sent_close by (auto intro!: ret_rules seq_eof [OF t] seq_flush [OF t] all_step split: option.split)

lemma keeps_free:
  assumes t: "tame ok env" and c: "all_chans ok c"
  shows "ret_ok (all_chans ok) (ssh_channel_free env channel c)"
proof -
  have cl: "ret_ok (all_chans ok) (if b then map_option snd (ssh_channel_close env (Some a) c) else Some c)" for a b
    using c by (auto intro!: ret_rules ret_map [OF keeps_close [OF t c]])
  show ?thesis
    unfolding ssh_channel_free_def Let_def
    using c by (auto intro!: ret_rules ret_seq [OF cl] all_free all_step given_up split: option.split)
qed

lemma keeps_chunk:
  assumes c: "all_chans ok c"
  shows "ret_ok (\<lambda>x. all_chans ok (snd (snd x))) (write_chunk env a is_stderr bs c)"
  unfolding write_chunk_def Let_def case_prod_beta
  using c by (auto intro!: ret_rules all_step wrote)

lemma keeps_write_loop:
  assumes t: "tame ok env" and c: "all_chans ok c"
  shows "keeps (write_loop env a is_stderr origlen bs c)"
proof -
  have "tame ok env \<longrightarrow> all_chans ok c \<longrightarrow> all_chans ok (snd r)"
    if "write_loop env a is_stderr origlen bs c = Some r" for r
  proof (rule write_loop.raw_induct [where P = "\<lambda>env a is_stderr origlen bs c r.
      tame ok env \<longrightarrow> all_chans ok c \<longrightarrow> all_chans ok (snd r)", OF _ that], intro impI)
    fix f and env :: "'a conn_env" and a is_stderr origlen bs c r
    assume IH: "\<And>env a is_stderr origlen bs c r. f env a is_stderr origlen bs c = Some r \<Longrightarrow>
        tame ok env \<longrightarrow> all_chans ok c \<longrightarrow> all_chans ok (snd r)"
      and t: "tame ok env" and c: "all_chans ok c"
      and eq: "(if bs = [] then
        Option.bind (ssh_channel_flush env a c) (\<lambda>(rc, c1).
          Some (if rc = SSH_ERROR then (SSH_ERROR, reinit_out env c1) else (int origlen, c1)))
      else Option.bind (chan_at c a) (\<lambda>ch.
        if remote_window ch = 0 then
          Option.bind (ssh_handle_packets_termination env SSH_TIMEOUT_DEFAULT (ssh_channel_waitwindow_termination a) c)
            (\<lambda>(rc, c1).
              if rc = SSH_ERROR then Some (int (origlen - length bs), c1)
              else Option.bind (chan_at c1 a) (\<lambda>ch1.
                if \<not> (0 < remote_window ch1 \<or> session_failed c1 \<or> chan_state ch1 = SSH_CHANNEL_STATE_CLOSED) \<or>
                   session_failed c1 \<or> chan_state ch1 = SSH_CHANNEL_STATE_CLOSED
                then Some (int (origlen - length bs), c1)
                else f env a is_stderr origlen bs c1))
        else Option.bind (write_chunk env a is_stderr bs c) (\<lambda>(rc, n, c1).
          if rc = SSH_ERROR then Some (SSH_ERROR, c1)
          else f env a is_stderr origlen (drop n bs) c1))) = Some r"
    have go: "keeps (f env a is_stderr origlen bs c)" if "all_chans ok c" for bs c
      using IH t that by (auto simp: ret_ok_def)
    note body = ret_if [OF seq_flush [OF t c] ret_look [OF ret_if [OF seq_wait [OF t c] ret_seq [OF keeps_chunk [OF c]]]]]
    have "keeps (Some r)"
      unfolding eq [symmetric] case_prod_beta
      by (rule body) (auto intro!: ret_rules go)
    then show "all_chans ok (snd r)" by (simp add: ret_ok_def)
  qed
  with t c show ?thesis by (auto simp: ret_ok_def)
qed

lemma keeps_write:
  assumes t: "tame ok env" and c: "all_chans ok c"
  shows "keeps (channel_write_common env channel dat is_stderr c)"
  unfolding channel_write_common_def case_prod_beta
  using c by (auto intro!: ret_rules seq_wait [OF t] keeps_write_loop [OF t] split: option.split)

section \<open>Requests\<close>

lemma keeps_request_pending:
  assumes t: "tame ok env" and c: "all_chans ok c"
  shows "keeps (request_pending env a c)"
  unfolding request_pending_def Let_def case_prod_beta
  by (rule seq_wait [OF t c]) (auto intro!: ret_rules all_step request split: channel_request_state.split)

lemma keeps_channel_request:
  assumes t: "tame ok env" and c: "all_chans ok c"
  shows "keeps (channel_request env a req buffer reply c)"
  unfolding channel_request_def Let_def case_prod_beta
  using c by (auto intro!: ret_rules keeps_request_pending [OF t] all_step request)

lemma keeps_packed: "all_chans ok c \<Longrightarrow> (\<And>b. keeps (f b)) \<Longrightarrow> keeps (packed env fmt args c f)"
  unfolding packed_def case_prod_beta
  by (auto intro!: ret_rules ret_seq [where R = "\<lambda>_. True"] split: option.split) (simp add: ret_ok_def)

lemma keeps_send_request:
  "tame ok env \<Longrightarrow> all_chans ok c \<Longrightarrow> keeps (send_request env a req fmt args c)"
  unfolding send_request_def by (intro keeps_packed keeps_channel_request)

lemma keeps_ask_request:
  "tame ok env \<Longrightarrow> all_chans ok c \<Longrightarrow> keeps (ask_request env a req fmt args c)"
  unfolding ask_request_def by (intro ret_rules keeps_packed keeps_channel_request)

section \<open>Reading\<close>

lemma keeps_grow:
  assumes "all_chans ok c" and "\<And>ch. chan_at c a = Some ch \<Longrightarrow> chan_state ch \<noteq> SSH_CHANNEL_STATE_NOT_OPEN"
  shows "keeps (grow_window env a c)"
  using grow_keeps [OF _ assms(1), of env a] assms(2) by (auto simp: ret_ok_def)

lemma keeps_take_data:
  assumes t: "tame ok env" and c: "all_chans ok c"
    and some: "\<And>ch b. chan_at c a = Some ch \<Longrightarrow> std_buf e ch = Some b \<Longrightarrow> 0 < ssh_buffer_get_len b"
  shows "ret_ok (\<lambda>x. all_chans ok (snd (snd x))) (take_data env a count e c)"
proof -
  have "keeps (grow_window env a (upd_chan a (\<lambda>_. if delayed_close h \<and> \<not> ssh_channel_has_unread_data h
      then h\<lparr>chan_state := SSH_CHANNEL_STATE_CLOSED\<rparr> else h) c))"
    if ch: "chan_at c a = Some ch" "std_buf e ch = Some b"
      and h: "h = count_in k (set_std e (snd (ssh_buffer_pass_bytes n b)) ch)" for ch b h k n
  proof -
    have same: "count_in k (set_std e b' ch) = set_std e b' (count_in k ch)" for b'
      by (simp add: count_in_def set_std_def)
    have okh: "ok h" using taken [OF all_at [OF c ch(1)] ch(2)] by (simp add: h same)
    have "chan_state h = chan_state ch" by (simp add: h count_in_def set_std_def)
    with used_open [OF all_at [OF c ch(1)] ch(2)] some [OF ch] have "chan_state h \<noteq> SSH_CHANNEL_STATE_NOT_OPEN" by simp
    with okh read_close [OF okh] show ?thesis
      using c ch by (intro keeps_grow) (auto intro!: all_put split: if_splits)
  qed
  then show ?thesis
    unfolding take_data_def Let_def case_prod_beta
    by (auto intro!: ret_rules ret_seq [where R = "\<lambda>x. all_chans ok (snd x)"])
qed

abbreviation keeps2 :: "(int \<times> 'b \<times> 'k conn) option \<Rightarrow> bool" where
  "keeps2 r \<equiv> ret_ok (\<lambda>x. all_chans ok (snd (snd x))) r"

lemma keeps_read:
  assumes t: "tame ok env" and c: "all_chans ok c"
  shows "keeps2 (ssh_channel_read_timeout env channel dest_ok count e tmo c)"
proof (cases "\<exists>a. channel = Some a \<and> dest_ok \<and> count \<noteq> 0")
  case True
  then obtain a where a: "channel = Some a" "dest_ok" "count \<noteq> 0" by blast
  define wait where "wait = ssh_handle_packets_termination env (if tmo < SSH_TIMEOUT_DEFAULT then SSH_TIMEOUT_INFINITE else tmo)
    (ssh_channel_read_termination a e) c"
  have w: "ret_ok (\<lambda>x. all_chans ok (snd x) \<and> (fst x \<noteq> SSH_ERROR \<longrightarrow> fst x \<noteq> SSH_AGAIN \<longrightarrow>
      ssh_channel_read_termination a e (snd x) = Some True)) wait"
    unfolding ret_ok_def wait_def using waiting_keeps [OF t c] wait_done by fastforce
  have len: "0 < ssh_buffer_get_len b"
    if "ssh_channel_read_termination a e c1 = Some True" "chan_at c1 a = Some ch" "std_buf e ch = Some b"
      "\<not> session_failed c1" "\<not> (remote_eof ch \<and> ssh_buffer_get_len b = 0)" for c1 ch b
    using that by (auto simp: ssh_channel_read_termination_def word_gt_0)
  have "keeps2 (Option.bind wait (\<lambda>(rc, c1).
                 if rc = SSH_ERROR \<or> rc = SSH_AGAIN then Some (rc, [], c1)
                 else if session_failed c1 then Some (SSH_ERROR, [], c1)
                 else Option.bind (chan_at c1 a) (\<lambda>ch. Option.bind (std_buf e ch) (\<lambda>buf.
                   if remote_eof ch \<and> ssh_buffer_get_len buf = 0 then Some (0, [], c1)
                   else if chan_state ch = SSH_CHANNEL_STATE_CLOSED then Some (SSH_ERROR, [], c1)
                   else take_data env a count e c1))))"
    unfolding case_prod_beta
    by (rule ret_seq [OF w], intro ret_rules) (auto intro!: keeps_take_data [OF t] dest: len)
  with a show ?thesis by (simp add: ssh_channel_read_timeout_def wait_def)
qed (use c in \<open>auto simp: ssh_channel_read_timeout_def intro!: ret_rules split: option.split\<close>)

lemma keeps_chan_poll:
  assumes t: "tame ok env" and c: "all_chans ok c"
  shows "keeps (ssh_channel_poll env channel e c)"
  unfolding ssh_channel_poll_def Let_def case_prod_beta
  using c by (auto intro!: ret_rules seq_poll [OF t] split: option.split)

lemma keeps_read_nonblocking:
  assumes t: "tame ok env" and c: "all_chans ok c"
  shows "keeps2 (ssh_channel_read_nonblocking env channel dest_ok count e c)"
  unfolding ssh_channel_read_nonblocking_def Let_def case_prod_beta ssh_channel_read_def
  using c by (auto intro!: ret_rules ret_seq [OF keeps_chan_poll [OF t]] ret_map [OF keeps_read [OF t]])

lemma keeps_poll_timeout:
  assumes t: "tame ok env" and c: "all_chans ok c"
  shows "keeps (ssh_channel_poll_timeout env channel tmo e c)"
  unfolding ssh_channel_poll_timeout_def Let_def case_prod_beta
  using c by (auto intro!: ret_rules seq_wait [OF t] split: option.split)

lemma keeps_exit_state:
  assumes t: "tame ok env" and c: "all_chans ok c"
  shows "keeps2 (ssh_channel_get_exit_state env channel x y z c)"
  unfolding ssh_channel_get_exit_state_def Let_def case_prod_beta
  using c by (auto intro!: ret_rules seq_wait [OF t] split: option.split)

end

section \<open>A session's life\<close>

text \<open>
  One step: a packet arrives in the incoming buffer and its handler runs, or the user calls one of
  the operations on a channel of the session. An open is one that got as far as being sent.
\<close>

inductive chan_step :: "'k conn_env \<Rightarrow> 'k conn \<Rightarrow> 'k conn \<Rightarrow> bool" for env where
  packet: "buffer_ok b \<Longrightarrow> channel_handler env typ = Some h \<Longrightarrow>
    h (with_sess (\<lambda>s. s\<lparr>in_buffer := Some b\<rparr>) c) = Some (rc, c') \<Longrightarrow> chan_step env c c'"
| new: "ssh_channel_new env c = (x, c') \<Longrightarrow> chan_step env c c'"
| open_up: "channel_open env a typ WINDOW_DEFAULT maxpacket payload c = Some (rc, c') \<Longrightarrow>
    (\<forall>ch. chan_at c' a = Some ch \<longrightarrow> chan_state ch \<noteq> SSH_CHANNEL_STATE_NOT_OPEN) \<Longrightarrow> chan_step env c c'"
| write_out: "channel_write_common env channel bs e c = Some (rc, c') \<Longrightarrow> chan_step env c c'"
| read_in: "ssh_channel_read_timeout env channel dest_ok count e tmo c = Some (rc, bs, c') \<Longrightarrow> chan_step env c c'"
| nonblocking: "ssh_channel_read_nonblocking env channel dest_ok count e c = Some (rc, bs, c') \<Longrightarrow> chan_step env c c'"
| poll: "ssh_channel_poll env channel e c = Some (rc, c') \<Longrightarrow> chan_step env c c'"
| poll_timeout: "ssh_channel_poll_timeout env channel tmo e c = Some (rc, c') \<Longrightarrow> chan_step env c c'"
| request: "channel_request env a req buffer reply c = Some (rc, c') \<Longrightarrow> chan_step env c c'"
| exit_state: "ssh_channel_get_exit_state env channel x y z c = Some (rc, rep, c') \<Longrightarrow> chan_step env c c'"
| eof: "ssh_channel_send_eof env channel c = Some (rc, c') \<Longrightarrow> chan_step env c c'"
| close_down: "ssh_channel_close env channel c = Some (rc, c') \<Longrightarrow> chan_step env c c'"
| set_free: "ssh_channel_free env channel c = Some c' \<Longrightarrow> chan_step env c c'"

inductive reached :: "'k conn_env \<Rightarrow> 'k conn \<Rightarrow> 'k conn \<Rightarrow> bool" for env c where
  start: "reached env c c"
| step: "reached env c c1 \<Longrightarrow> chan_step env c1 c2 \<Longrightarrow> reached env c c2"

context chan_law begin

lemma step_keeps:
  assumes s: "chan_step env c c'" and t: "tame ok env" and c: "all_chans ok c"
  shows "all_chans ok c'"
  using s
proof cases
  case (packet b ty h rc)
  then show ?thesis
    using handler_keeps [OF t, of "with_sess (\<lambda>s. s\<lparr>in_buffer := Some b\<rparr>) c" ty h rc c'] c
    by (simp add: with_sess_def)
qed (use new_keeps [OF c] keeps_open [OF t c] keeps_write [OF t c] keeps_read [OF t c] keeps_read_nonblocking [OF t c]
  keeps_chan_poll [OF t c] keeps_poll_timeout [OF t c] keeps_channel_request [OF t c] keeps_exit_state [OF t c]
  keeps_send_eof [OF t c] keeps_close [OF t c] keeps_free [OF t c] in \<open>auto simp: ret_ok_def\<close>)

lemma reached_keeps: "reached env c c' \<Longrightarrow> tame ok env \<Longrightarrow> all_chans ok c \<Longrightarrow> all_chans ok c'"
  by (induction rule: reached.induct) (auto intro: step_keeps)

end

end
