(* ===== verification/Channel_Window.thy ===== *)
theory Channel_Window
  imports Channel_Law
begin

unbundle bit_operations_syntax

text \<open>
  The window a channel grants is backed by room: what the peer may still send and what is waiting
  to be read are together at most one window, at every moment of a session's life.
\<close>

definition chan_ok :: "ssh_channel \<Rightarrow> bool" where
  "chan_ok ch \<longleftrightarrow>
     (\<forall>b. stdout_buffer ch = Some b \<longrightarrow> buffer_ok b) \<and> (\<forall>b. stderr_buffer ch = Some b \<longrightarrow> buffer_ok b) \<and>
     unat (local_window ch) + unat (buffer_len (stdout_buffer ch)) + unat (buffer_len (stderr_buffer ch)) \<le> 8000 \<and>
     (chan_state ch = SSH_CHANNEL_STATE_NOT_OPEN \<longrightarrow>
        local_window ch = 0 \<and> buffer_len (stdout_buffer ch) = 0 \<and> buffer_len (stderr_buffer ch) = 0)"

lemma buffer_len_contents: "buffer_ok b \<Longrightarrow> unat (buffer_len (Some b)) = length (contents b)"
  by (simp add: buffer_len_def ssh_buffer_get_len_def length_contents unat_sub word_le_nat_alt buffer_ok_def)

lemma buffer_len_None [simp]: "buffer_len None = 0"
  by (simp add: buffer_len_def)

lemma new_buffer: "ssh_buffer_new True True = Some b \<Longrightarrow> buffer_ok b \<and> buffer_len (Some b) = 0"
  using new_ok buffer_len_contents [of b] by (metis list.size(3) option.inject unat_eq_zero)

lemma bufferize_len:
  assumes ok: "\<forall>x. b = Some x \<longrightarrow> buffer_ok x" and len: "length bs < 2 ^ 32" and ret: "bufferize m bs b = (rc, b')"
  shows "(\<forall>x. b' = Some x \<longrightarrow> buffer_ok x) \<and>
    unat (buffer_len b') = (if rc < 0 then 0 else unat (buffer_len b) + length bs)"
proof (cases "case b of None \<Rightarrow> ssh_buffer_new m m | Some x \<Rightarrow> Some x")
  case None
  with ret show ?thesis by (simp add: bufferize_def)
next
  case (Some x)
  obtain r x' where a: "ssh_buffer_add_data m (Some bs) x = (r, x')" by fastforce
  have x: "buffer_ok x" "buffer_len (Some x) = buffer_len b"
    using Some ok new_buffer by (auto simp: ssh_buffer_new_def split: option.splits if_splits)
  from add_data_ok [OF x(1) len a] have x': "buffer_ok x'" "r = 0 \<and> contents x' = contents x @ bs \<or> r = -1" by auto
  show ?thesis
    using ret Some a x x' buffer_len_contents [OF x'(1)] buffer_len_contents [OF x(1)]
    by (auto simp: bufferize_def split: if_splits)
qed

lemma set_std_len:
  assumes "std_buf e ch = Some b" and "buffer_ok b'" and "unat (buffer_len (Some b')) \<le> unat (buffer_len (Some b))"
    and "chan_ok ch"
  shows "chan_ok (set_std e b' (count_in k ch))"
  using assms by (auto simp: chan_ok_def set_std_def count_in_def std_buf_def unat_eq_zero split: if_splits)

lemma pass_len: "buffer_ok b \<Longrightarrow> buffer_ok (snd (ssh_buffer_pass_bytes n b)) \<and>
    unat (buffer_len (Some (snd (ssh_buffer_pass_bytes n b)))) \<le> unat (buffer_len (Some b))"
  using pass_bytes_ok [of b n] by (auto simp: buffer_len_contents split: if_splits)

lemma window_room:
  assumes "chan_ok ch"
  shows "unat (local_window ch + window_increment ch) + unat (buffer_len (stdout_buffer ch)) +
    unat (buffer_len (stderr_buffer ch)) = 8000"
proof -
  let ?w = "local_window ch" and ?o = "buffer_len (stdout_buffer ch)" and ?e = "buffer_len (stderr_buffer ch)"
  have le: "unat ?w + unat ?o + unat ?e \<le> 8000" using assms by (simp add: chan_ok_def)
  then have u: "unat (?w + ?o + ?e) = unat ?w + unat ?o + unat ?e" by (simp add: unat_add_no_wrap)
  have i: "unat (window_increment ch) = 8000 - (unat ?w + unat ?o + unat ?e)"
    using le u by (auto simp: window_increment_def WINDOW_DEFAULT_def Let_def word_less_nat_alt unat_sub word_le_nat_alt)
  then have "unat (?w + window_increment ch) = unat ?w + unat (window_increment ch)"
    using le by (simp add: unat_add_no_wrap)
  with i le show ?thesis by simp
qed

lemma std_ok: "chan_ok ch \<Longrightarrow> std_buf e ch = Some b \<Longrightarrow> buffer_ok b"
  by (auto simp: chan_ok_def std_buf_def split: if_splits)

lemma bufferize_ok:
  assumes ok: "chan_ok ch" and ret: "channel_default_bufferize m bs e ch = (rc, ch1)"
    and le: "length bs \<le> unat (local_window ch)"
  shows "chan_ok (if rc < 0 then ch1 else ch1\<lparr>local_window := local_window ch1 - of_nat (length bs)\<rparr>)"
proof -
  have "unat (local_window ch) < 2 ^ 32" using unsigned_less [of "local_window ch", where ?'a = nat] by simp
  with le have len: "length bs < 2 ^ 32" by simp
  then have "unat (of_nat (length bs) :: u32) = length bs" by (simp add: unat_of_nat take_bit_nat_eq_self_iff)
  with le have w: "unat (local_window ch - of_nat (length bs)) = unat (local_window ch) - length bs"
    by (simp add: unat_sub word_le_nat_alt)
  have c: "unat (local_window ch) + unat (buffer_len (stdout_buffer ch)) + unat (buffer_len (stderr_buffer ch)) \<le> 8000"
    "chan_state ch = SSH_CHANNEL_STATE_NOT_OPEN \<Longrightarrow>
      unat (local_window ch) = 0 \<and> unat (buffer_len (stdout_buffer ch)) = 0 \<and> unat (buffer_len (stderr_buffer ch)) = 0"
    "\<forall>b. stdout_buffer ch = Some b \<longrightarrow> buffer_ok b" "\<forall>b. stderr_buffer ch = Some b \<longrightarrow> buffer_ok b"
    using ok unfolding chan_ok_def by simp_all
  obtain b where b: "bufferize m bs (std_buf e ch) = (rc, b)"
    and ch1: "ch1 = (if e then ch\<lparr>stderr_buffer := b\<rparr> else ch\<lparr>stdout_buffer := b\<rparr>)"
    using ret by (auto simp: channel_default_bufferize_def std_buf_def split: prod.splits if_splits)
  have "\<forall>x. std_buf e ch = Some x \<longrightarrow> buffer_ok x" using c(3,4) by (simp add: std_buf_def)
  from bufferize_len [OF this len b]
  have bl: "\<forall>x. b = Some x \<longrightarrow> buffer_ok x" "unat (buffer_len b) = (if rc < 0 then 0 else unat (buffer_len (std_buf e ch)) + length bs)"
    by simp_all
  show ?thesis
  proof (cases "chan_state ch = SSH_CHANNEL_STATE_NOT_OPEN")
    case True
    note z = c(2) [OF True]
    with le have "bs = []" by simp
    with bl(2) z have "unat (buffer_len b) = 0" by (simp add: std_buf_def)
    then have "buffer_len b = 0" by (simp add: unat_eq_zero)
    then show ?thesis using True z bl(1) c(3,4) ch1 \<open>bs = []\<close> by (cases e) (simp_all add: chan_ok_def unat_eq_zero)
  next
    case False
    then show ?thesis using c(1,3,4) bl ch1 le w by (cases e) (simp_all add: chan_ok_def std_buf_def)
  qed
qed

interpretation win: chan_law chan_ok
proof (standard, goal_cases)
  case (1 b1 b2)
  then show ?case using new_buffer [of b1] new_buffer [of b2] by (simp add: chan_ok_def new_channel_def)
next
  case (7 ch m bs e rc ch1)
  then show ?case by (rule bufferize_ok)
next
  case (8 ch e b n k)
  then show ?case using set_std_len pass_len std_ok by blast
next
  case (9 ch)
  then show ?case using window_room [of ch] by (auto simp: chan_ok_def)
next
  case (10 ch e b)
  then show ?case by (auto simp: chan_ok_def std_buf_def buffer_len_def split: if_splits)
next
  case (12 ch)
  then show ?case by (auto simp: chan_ok_def)
qed (auto simp: chan_ok_def WINDOW_DEFAULT_def store_remote_def count_out_def)

end
