(* ===== verification/Channel_Demo.thy ===== *)
theory Channel_Demo
  imports Channel_Window Channel_Read
begin

unbundle bit_operations_syntax

text \<open>
  A session with one open channel and an environment, on which the properties of channels are
  evaluated.
\<close>

text \<open>One open channel at address 5, and an environment in which polling does nothing.\<close>

definition demo_buf :: "byte list \<Rightarrow> ssh_buffer" where
  "demo_buf bs = \<lparr>secure = False, used = of_nat (length bs), allocated = of_nat (length bs), pos = 0, data = bs, freed = []\<rparr>"

definition demo_channel :: "byte list \<Rightarrow> ssh_channel" where
  "demo_channel bs =
     \<lparr>local_channel = 1, local_window = 7000, local_eof = False, local_maxpacket = 32768, remote_channel = 1,
      remote_window = 20, remote_eof = False, remote_maxpacket = 4, chan_state = SSH_CHANNEL_STATE_OPEN,
      delayed_close = False, chan_flags = 0, stdout_buffer = Some (demo_buf bs), stderr_buffer = Some empty_buffer,
      exit_status = False, exit_code = 0, exit_signal = None, core_dumped = False,
      request_state = SSH_CHANNEL_REQ_STATE_NONE, chan_callbacks = None, counter = None\<rparr>"

definition demo_conn :: "unit ssh_session \<Rightarrow> ssh_channel \<Rightarrow> unit conn" where
  "demo_conn s ch =
     \<lparr>sess = s, alive = True, maxchannel = 1, global_req_state = SSH_CHANNEL_REQ_STATE_NONE, channels = Some [5],
      chan_at = [5 \<mapsto> ch], opts_timeout = 0, opts_timeout_usec = 0, rounds = 0, sent = [],
      login = \<lparr>pending_call = SSH_PENDING_CALL_NONE, supported_methods = 0, current_method = 0, kbdint = None,
               issue_banner = None, bye_message = None, user_name = None\<rparr>\<rparr>"

definition demo_conn_env :: "(nat \<Rightarrow> int \<Rightarrow> unit conn \<Rightarrow> (int \<times> unit conn) option) \<Rightarrow> unit conn_env" where
  "demo_conn_env round =
     \<lparr>pk = demo_packet_env, pollable = (\<lambda>_. True), poll_round = round, clock = int, write_buffered = (\<lambda>_. False),
      event_cb = (\<lambda>_ _ _ c. c), data_cb = (\<lambda>_ _ _ _ c. (0, c)), agent_cb = (\<lambda>_. None), server_request = (\<lambda>_ _ _ c. c),
      fresh = (\<lambda>_. 9), random_cookie = None\<rparr>"

abbreviation (input) demo_env :: "unit conn_env" where
  "demo_env \<equiv> demo_conn_env (\<lambda>_ _ c. Some (SSH_OK, c))"

lemma demo_conn_simps [simp]:
  "sess (demo_conn s ch) = s" "chan_at (demo_conn s ch) = [5 \<mapsto> ch]" "sent (demo_conn s ch) = []"
  "pk (demo_conn_env f) = demo_packet_env" "poll_round (demo_conn_env f) = f" "clock (demo_conn_env f) = int"
  "write_buffered (demo_conn_env f) c = False" "rounds (demo_conn s ch) = 0" "channels (demo_conn s ch) = Some [5]"
  "opts_timeout (demo_conn s ch) = 0" "opts_timeout_usec (demo_conn s ch) = 0"
  by (simp_all add: demo_conn_def demo_conn_env_def)

lemma demo_channel_simps [simp]:
  "local_channel (demo_channel bs) = 1" "local_window (demo_channel bs) = 7000" "local_eof (demo_channel bs) = False"
  "remote_channel (demo_channel bs) = 1" "remote_window (demo_channel bs) = 20" "remote_maxpacket (demo_channel bs) = 4"
  "chan_state (demo_channel bs) = SSH_CHANNEL_STATE_OPEN" "delayed_close (demo_channel bs) = False" "chan_flags (demo_channel bs) = 0"
  "stdout_buffer (demo_channel bs) = Some (demo_buf bs)" "stderr_buffer (demo_channel bs) = Some empty_buffer"
  "chan_callbacks (demo_channel bs) = None" "remote_eof (demo_channel bs) = False"
  by (simp_all add: demo_channel_def)

lemma empty_ok: "buffer_ok empty_buffer" "contents empty_buffer = []" "buffer_len (Some empty_buffer) = 0"
  by (simp_all add: buffer_ok_def empty_buffer_def contents_def buffer_len_def ssh_buffer_get_len_def)

lemma demo_buf_ok: "length bs < 100 \<Longrightarrow> buffer_ok (demo_buf bs) \<and> contents (demo_buf bs) = bs"
  by (simp add: buffer_ok_def demo_buf_def contents_def unsigned_of_nat take_bit_nat_eq_self)

lemma demo_chan_ok: "length bs < 100 \<Longrightarrow> chan_ok (demo_channel bs)"
  using demo_buf_ok [of bs] buffer_len_contents [of "demo_buf bs"] empty_ok by (simp add: chan_ok_def)

lemma demo_from_local: "ssh_channel_from_local (demo_conn s (demo_channel bs)) 1 = Some (Some 5)"
  by (simp add: ssh_channel_from_local_def)

abbreviation (input) demo_sess :: "unit ssh_session" where
  "demo_sess \<equiv> demo_keyed\<lparr>out_buffer := empty_buffer\<rparr>"

lemma demo_tame: "tame chan_ok (demo_conn_env (\<lambda>_ _ c. Some (rc, c)))"
  by (simp add: tame_def demo_conn_env_def)

lemma demo_sess_step: "in_step (\<lambda>_ _. True) demo_sess demo_keyed"
  using demo_in_step by (simp add: in_step_def)

end
