(* ===== verification/Ssh_Message.thy ===== *)
theory Ssh_Message
  imports Ssh_Pack
begin

text \<open>
  What packing and unpacking do to the contents of a buffer, field by field and for whole
  messages, and that a message is read back as it was written.
\<close>

section \<open>Packing a field\<close>

lemma add_bytes_fits:
  assumes "buffer_ok b" and "length (contents b) + length d < 16384"
  obtains b' where "ssh_buffer_add_data True (Some d) b = (0, b')" "buffer_ok b'" "contents b' = contents b @ d"
  using buf.put_room [OF assms] by blast

lemma host_bytes_1: "host_bytes 1 (x :: byte) = [x]"
  by (simp add: host_bytes_def)

lemma length_host_bytes [simp]: "length (host_bytes n x) = n"
  by (simp add: host_bytes_def)

lemma pack_one_ok:
  assumes ok: "buffer_ok b" and f: "field_ok f" and fits: "length (contents b) + length (field_enc f) < 16384"
  shows "\<exists>b'. pack_one True (field_fmt f) (field_va f @ r) b = Some (SSH_OK, b', length (field_va f), r) \<and>
    buffer_ok b' \<and> contents b' = contents b @ field_enc f"
proof (cases f)
  case (F_byte x)
  obtain b' where "ssh_buffer_add_data True (Some [x]) b = (0, b')" "buffer_ok b'" "contents b' = contents b @ [x]"
    using fits F_byte by (auto intro: add_bytes_fits [OF ok, of "[x]"])
  moreover have "ucast (ucast x :: u32) = x" by (rule bit_word_eqI) (simp add: bit_unsigned_iff)
  ultimately show ?thesis
    using F_byte host_bytes_1 [of x] by (auto simp: pack_one_def ssh_buffer_add_u8_def simp del: One_nat_def)
next
  case (F_word x)
  obtain b' where "ssh_buffer_add_data True (Some (be_bytes 2 x)) b = (0, b')" "buffer_ok b'" "contents b' = contents b @ be_bytes 2 x"
    using fits F_word by (auto intro: add_bytes_fits [OF ok, of "be_bytes 2 x"] simp del: be_bytes.simps)
  moreover have "ucast (ucast x :: u32) = x" by (rule bit_word_eqI) (simp add: bit_unsigned_iff)
  ultimately show ?thesis
    using F_word by (auto simp: pack_one_def ssh_buffer_add_u16_def host_bytes_hton simp del: be_bytes.simps)
next
  case (F_dword x)
  obtain b' where "ssh_buffer_add_data True (Some (be_bytes 4 x)) b = (0, b')" "buffer_ok b'" "contents b' = contents b @ be_bytes 4 x"
    using fits F_dword by (auto intro: add_bytes_fits [OF ok, of "be_bytes 4 x"] simp del: be_bytes.simps)
  then show ?thesis
    using F_dword by (auto simp: pack_one_def ssh_buffer_add_u32_def host_bytes_hton simp del: be_bytes.simps)
next
  case (F_qword x)
  obtain b' where "ssh_buffer_add_data True (Some (be_bytes 8 x)) b = (0, b')" "buffer_ok b'" "contents b' = contents b @ be_bytes 8 x"
    using fits F_qword by (auto intro: add_bytes_fits [OF ok, of "be_bytes 8 x"] simp del: be_bytes.simps)
  then show ?thesis
    using F_qword by (auto simp: pack_one_def ssh_buffer_add_u64_def host_bytes_hton simp del: be_bytes.simps)
next
  case (F_string x)
  let ?d = "be_bytes 4 (str_size x) @ str_view x"
  obtain b' where "ssh_buffer_add_data True (Some ?d) b = (0, b')" "buffer_ok b'" "contents b' = contents b @ ?d"
    using fits F_string by (auto intro: add_bytes_fits [OF ok, of ?d] simp del: be_bytes.simps)
  then show ?thesis
    using F_string f by (auto simp: pack_one_def ssh_buffer_add_ssh_string_def str_view_def simp del: be_bytes.simps)
next
  case (F_cstring x)
  let ?n = "be_bytes 4 (of_nat (length x) :: u32)"
  have "length (contents b) + length ?n + length x < 16384" using fits F_cstring by (simp del: be_bytes.simps)
  from buf.put_put [OF ok this] obtain b1 b2 where
    "ssh_buffer_add_data True (Some ?n) b = (0, b1)" "ssh_buffer_add_data True (Some x) b1 = (0, b2)"
    "buffer_ok b2" "contents b2 = contents b @ ?n @ x" by blast
  then show ?thesis
    using F_cstring by (auto simp: pack_one_def ssh_buffer_add_u32_def host_bytes_hton simp del: be_bytes.simps)
next
  case (F_data x)
  obtain b' where "ssh_buffer_add_data True (Some x) b = (0, b')" "buffer_ok b'" "contents b' = contents b @ x"
    using fits F_data by (auto intro: add_bytes_fits [OF ok, of x])
  then show ?thesis
    using F_data fits small_nat [of "length x"] by (auto simp: pack_one_def)
qed

lemma pack_loop_ok:
  assumes "buffer_ok b" and "\<forall>f\<in>set fs. field_ok f" and "length (contents b) + length (message fs) < 16384"
    and "count + arg_count fs \<le> argc"
  shows "\<exists>b'. pack_loop True (map field_fmt fs) argc count rc (concat (map field_va fs) @ r) b =
      Some (if fs = [] then rc else SSH_OK, count + arg_count fs, r, b') \<and>
    buffer_ok b' \<and> contents b' = contents b @ message fs"
  using assms
proof (induction fs arbitrary: b count rc)
  case Nil
  then show ?case by auto
next
  case (Cons f fs)
  then have len: "length (contents b) + length (field_enc f) < 16384" by simp
  obtain b1 where b1: "pack_one True (field_fmt f) (field_va f @ concat (map field_va fs) @ r) b =
      Some (SSH_OK, b1, length (field_va f), concat (map field_va fs) @ r)" "buffer_ok b1"
      "contents b1 = contents b @ field_enc f"
    using pack_one_ok [OF Cons.prems(1) _ len] Cons.prems(2) by auto
  have "length (contents b1) + length (message fs) < 16384"
    "count + length (field_va f) + arg_count fs \<le> argc"
    using Cons.prems b1(3) by simp_all
  from Cons.IH [OF b1(2) _ this, of SSH_OK] Cons.prems b1 show ?case
    by (auto simp: add.assoc)
qed

lemma pack_size_ok:
  assumes "\<forall>f\<in>set fs. field_ok f" and "count + arg_count fs \<le> argc"
  shows "pack_size (map field_fmt fs) argc count (concat (map field_va fs) @ r) n =
    Some (SSH_OK, count + arg_count fs, r, n + of_nat (length (message fs)))"
  using assms
proof (induction fs arbitrary: count n)
  case Nil
  then show ?case by simp
next
  case (Cons f fs)
  have str: "of_nat (length (str_view x)) = str_size x" if "string_ok x" for x
    using that by simp
  show ?case
    using Cons str by (cases f) (auto simp: add.assoc algebra_simps simp del: be_bytes.simps length_str_view)
qed

lemma allocate_size_ok:
  assumes ok: "buffer_ok b" and len: "len < 16384"
  shows "\<exists>b'. ssh_buffer_allocate_size True len b = (0, b') \<and> buffer_ok b' \<and> contents b' = contents b"
proof (cases "allocated b < len")
  case True
  define b1 where "b1 = (if 0 < pos b then buffer_shift b else b)"
  have b1: "buffer_ok b1" "contents b1 = contents b" "allocated b1 = allocated b"
    using ok shift_ok [OF ok] by (auto simp: b1_def)
  then have fits: "used b1 \<le> len" using True by (auto simp: buffer_ok_def word_le_nat_alt word_less_nat_alt)
  obtain b2 where r: "realloc_buffer True len b1 = Some b2" using realloc_succeeds [OF len, of b1] by blast
  have "ssh_buffer_allocate_size True len b = (case realloc_buffer True len b1 of None \<Rightarrow> (-1, b1) | Some b2 \<Rightarrow> (0, b2))"
    using True by (simp only: ssh_buffer_allocate_size_def b1_def Let_def if_True)
  with r realloc_ok [OF b1(1) fits r] b1 show ?thesis by simp
next
  case False
  with ok show ?thesis by (simp add: ssh_buffer_allocate_size_def)
qed

lemma pack_ok:
  assumes ok: "buffer_ok b" and fs: "\<forall>f\<in>set fs. field_ok f" "fs \<noteq> []" and args: "arg_count fs \<le> 256"
    and fits: "length (contents b) + length (message fs) < 16384"
  shows "\<exists>b'. ssh_buffer_pack True (map field_fmt fs) (arg_count fs) (concat (map field_va fs) @ [VA_end]) b =
      Some (SSH_OK, b') \<and> buffer_ok b' \<and> contents b' = contents b @ message fs"
proof -
  have size: "pack_size (map field_fmt fs) (arg_count fs) 0 (concat (map field_va fs) @ [VA_end]) 0 =
      Some (SSH_OK, arg_count fs, [VA_end], of_nat (length (message fs)))"
    using pack_size_ok [OF fs(1), of 0 "arg_count fs"] by simp
  have "(of_nat (length (message fs)) :: u32) < 16384"
    using fits small_nat [of "length (message fs)"] by (simp add: word_less_nat_alt)
  from allocate_size_ok [OF ok this] obtain b1 where
    b1: "ssh_buffer_allocate_size True (of_nat (length (message fs))) b = (0, b1)" "buffer_ok b1" "contents b1 = contents b"
    by blast
  from pack_loop_ok [OF b1(2) fs(1), of 0 "arg_count fs" SSH_ERROR "[VA_end]"] fits b1(3) fs(2) obtain b2 where
    "pack_loop True (map field_fmt fs) (arg_count fs) 0 SSH_ERROR (concat (map field_va fs) @ [VA_end]) b1 =
      Some (SSH_OK, arg_count fs, [VA_end], b2)" "buffer_ok b2" "contents b2 = contents b @ message fs"
    by auto
  then show ?thesis
    using args size b1(1) by (simp add: ssh_buffer_pack_def ssh_buffer_pack_allocate_va_def ssh_buffer_pack_va_def)
qed

section \<open>Unpacking a field\<close>

lemma host_word_be: "host_word [x] = (x :: byte)"
  using be_word_bytes [of 1 x] by (simp add: host_word_def)

lemma get_prefix_at:
  assumes "buffer_ok b" and "contents b = d @ rest" and "unat n = length d"
  obtains b' where "ssh_buffer_get_data n b = ((n, d), b')" "buffer_ok b'" "contents b' = rest"
  using buf.get_prefix [OF assms] by blast

lemma get_u32_at:
  assumes "buffer_ok b" and "contents b = be_bytes 4 (x :: u32) @ rest"
  obtains b' where "ssh_buffer_get_u32 b = ((4, host_word (be_bytes 4 x)), b')" "buffer_ok b'" "contents b' = rest"
proof -
  obtain b' where "ssh_buffer_get_data 4 b = ((4, be_bytes 4 x), b')" "buffer_ok b'" "contents b' = rest"
    using get_prefix_at [OF assms, of 4] by (auto simp del: be_bytes.simps)
  then show ?thesis by (intro that [of b']) (simp_all add: ssh_buffer_get_u32_def del: be_bytes.simps)
qed

lemma validate_at:
  assumes "buffer_ok b" and "contents b = d @ rest" and "unat n = length d"
  shows "ssh_buffer_validate_length n b = SSH_OK"
proof (cases "n = 0")
  case True
  with assms(1) show ?thesis
    by (simp add: ssh_buffer_validate_length_def buffer_ok_def word_less_nat_alt not_less)
next
  case False
  obtain b' where "ssh_buffer_get_data n b = ((n, d), b')" using get_prefix_at [OF assms] .
  with False show ?thesis by (auto simp: ssh_buffer_get_data_def split: if_splits)
qed

lemma get_string_at:
  assumes ok: "buffer_ok b" and x: "string_ok x" and c: "contents b = be_bytes 4 (str_size x) @ str_view x @ rest"
  obtains b' where "ssh_buffer_get_ssh_string True b = (Some (x\<lparr>str_data := str_view x @ [0]\<rparr>), b')" "buffer_ok b'"
    "contents b' = rest"
proof -
  obtain b1 where b1: "ssh_buffer_get_u32 b = ((4, host_word (be_bytes 4 (str_size x))), b1)" "buffer_ok b1"
    "contents b1 = str_view x @ rest"
    using get_u32_at [OF ok c] .
  have n: "unat (str_size x) = length (str_view x)" using x by simp
  obtain b2 where b2: "ssh_buffer_get_data (str_size x) b1 = ((str_size x, str_view x), b2)" "buffer_ok b2" "contents b2 = rest"
    using get_prefix_at [OF b1(2,3) n] .
  have size: "\<not> STRING_SIZE_MAX < str_size x" using x by (auto simp: string_ok_def)
  have "ssh_buffer_get_ssh_string True b = (Some (x\<lparr>str_data := str_view x @ [0]\<rparr>), b2)"
    using validate_at [OF b1(2,3) n] size
    by (simp add: ssh_buffer_get_ssh_string_def b1(1) ntoh_host_word b2(1) ssh_string_new_def Let_def drop_Cons'
        del: be_bytes.simps length_str_view)
  with b2 that show ?thesis by blast
qed

lemma unpack_one_ok:
  assumes ok: "buffer_ok b" and f: "field_ok f" and c: "contents b = field_enc f @ rest"
    and max: "length (field_enc f) < 16384" "\<forall>d. f = F_cstring d \<or> f = F_data d \<longrightarrow> length d < unat max_len"
  shows "\<exists>b'. unpack_one True bn max_len (field_fmt f) (field_ua f @ r) b =
      Some (SSH_OK, b', length (field_va f) - 1, r, [field_item f]) \<and> buffer_ok b' \<and> contents b' = rest"
proof -
  have below: "\<not> max_len - 1 < of_nat n" if "n < unat max_len" "n < 16384" for n
  proof -
    have "unat (max_len - 1) = unat max_len - 1" using that(1) by (subst unat_sub) (auto simp: word_le_nat_alt)
    then show ?thesis using that small_nat [of n] by (simp add: word_less_nat_alt)
  qed
  show ?thesis
  proof (cases f)
    case (F_byte x)
    then have c': "contents b = [x] @ rest" using c by simp
    obtain b' where "ssh_buffer_get_data 1 b = ((1, [x]), b')" "buffer_ok b'" "contents b' = rest"
      using get_prefix_at [OF ok c', of 1] by (auto simp del: be_bytes.simps)
    with F_byte show ?thesis
      by (simp add: unpack_one_def ssh_buffer_get_u8_def host_word_be del: be_bytes.simps)
  next
    case (F_word x)
    then have c': "contents b = be_bytes 2 x @ rest" using c by simp
    obtain b' where "ssh_buffer_get_data 2 b = ((2, be_bytes 2 x), b')" "buffer_ok b'" "contents b' = rest"
      using get_prefix_at [OF ok c', of 2] by (auto simp del: be_bytes.simps)
    with F_word show ?thesis
      by (simp add: unpack_one_def ssh_buffer_get_u16_def ntoh_host_word del: be_bytes.simps)
  next
    case (F_dword x)
    then have c': "contents b = be_bytes 4 x @ rest" using c by simp
    obtain b' where "ssh_buffer_get_data 4 b = ((4, be_bytes 4 x), b')" "buffer_ok b'" "contents b' = rest"
      using get_prefix_at [OF ok c', of 4] by (auto simp del: be_bytes.simps)
    with F_dword show ?thesis
      by (simp add: unpack_one_def ssh_buffer_get_u32_def ntoh_host_word del: be_bytes.simps)
  next
    case (F_qword x)
    then have c': "contents b = be_bytes 8 x @ rest" using c by simp
    obtain b' where "ssh_buffer_get_data 8 b = ((8, be_bytes 8 x), b')" "buffer_ok b'" "contents b' = rest"
      using get_prefix_at [OF ok c', of 8] by (auto simp del: be_bytes.simps)
    with F_qword show ?thesis
      by (simp add: unpack_one_def ssh_buffer_get_u64_def ntoh_host_word del: be_bytes.simps)
  next
    case (F_string x)
    then obtain b' where "ssh_buffer_get_ssh_string True b = (Some (x\<lparr>str_data := str_view x @ [0]\<rparr>), b')"
      "buffer_ok b'" "contents b' = rest"
      using get_string_at [OF ok, of x rest] f c by auto
    with F_string show ?thesis by (auto simp: unpack_one_def)
  next
    case (F_cstring x)
    then have c': "contents b = be_bytes 4 (of_nat (length x) :: u32) @ x @ rest" and lx: "length x < 16384"
      using c max(1) by (simp_all del: be_bytes.simps)
    obtain b1 where b1: "ssh_buffer_get_u32 b = ((4, host_word (be_bytes 4 (of_nat (length x) :: u32))), b1)" "buffer_ok b1"
      "contents b1 = x @ rest" using get_u32_at [OF ok c'] .
    note n = small_nat [OF lx]
    obtain b2 where b2: "ssh_buffer_get_data (of_nat (length x)) b1 = ((of_nat (length x), x), b2)" "buffer_ok b2"
      "contents b2 = rest" using get_prefix_at [OF b1(2,3) n] .
    show ?thesis
      using F_cstring b1 b2 below [of "length x"] max(2) lx validate_at [OF b1(2,3) n]
      by (auto simp: unpack_one_def ntoh_host_word simp del: be_bytes.simps)
  next
    case (F_data x)
    then have c': "contents b = x @ rest" and lx: "length x < 16384" using c max(1) by simp_all
    note n = small_nat [OF lx]
    obtain b2 where b2: "ssh_buffer_get_data (of_nat (length x)) b = ((of_nat (length x), x), b2)" "buffer_ok b2"
      "contents b2 = rest" using get_prefix_at [OF ok c' n] .
    show ?thesis
      using F_data b2 below [of "length x"] max(2) lx validate_at [OF ok c' n]
      by (auto simp: unpack_one_def)
  qed
qed

lemma unpack_loop_ok:
  assumes "buffer_ok b" and "\<forall>f\<in>set fs. field_ok f" and "contents b = message fs @ rest"
    and "count + arg_count fs \<le> argc" and "length (message fs) < 16384"
    and "\<forall>f\<in>set fs. \<forall>d. f = F_cstring d \<or> f = F_data d \<longrightarrow> length d < unat max_len"
  shows "\<exists>b'. unpack_loop True bn max_len (map field_fmt fs) argc count rc (concat (map field_ua fs) @ r) out b =
      Some (if fs = [] then rc else SSH_OK, count + arg_count fs, r, out @ map field_item fs, b') \<and>
    buffer_ok b' \<and> contents b' = rest"
  using assms
proof (induction fs arbitrary: b count rc out)
  case Nil
  then show ?case by auto
next
  case (Cons f fs)
  have c: "contents b = field_enc f @ message fs @ rest" using Cons.prems(3) by simp
  have len: "length (field_enc f) < 16384" using Cons.prems(5) by simp
  have d: "\<forall>d. f = F_cstring d \<or> f = F_data d \<longrightarrow> length d < unat max_len" using Cons.prems(6) by auto
  have f: "field_ok f" using Cons.prems(2) by simp
  obtain j where k: "length (field_va f) = Suc j" by (cases f) auto
  from unpack_one_ok [OF Cons.prems(1) f c len d, of bn "concat (map field_ua fs) @ r"] obtain b1 where
    b1: "unpack_one True bn max_len (field_fmt f) (field_ua f @ concat (map field_ua fs) @ r) b =
      Some (SSH_OK, b1, length (field_va f) - 1, concat (map field_ua fs) @ r, [field_item f])"
      "buffer_ok b1" "contents b1 = message fs @ rest" by blast
  have "count + length (field_va f) + arg_count fs \<le> argc" "length (message fs) < 16384"
    using Cons.prems by simp_all
  from Cons.IH [OF b1(2) _ b1(3) this, where rc = SSH_OK and out = "out @ [field_item f]"] Cons.prems b1 k show ?case
    by (auto simp: add.assoc)
qed

lemma field_enc_le: "f \<in> set fs \<Longrightarrow> length (field_enc f) \<le> length (message fs)"
  by (induction fs) auto


definition demo_fields :: "field list" where
  "demo_fields = [F_byte 94, F_dword 7, F_cstring [108, 115], F_data [1, 2]]"


text \<open>
  A raw field that is the whole of a buffer cannot be unpacked: the length is compared with
  one less than what is left, so it is refused, although the bytes are there.
\<close>

theorem unpack_whole_data_fails:
  assumes ok: "buffer_ok b" and c: "contents b = d" and ne: "d \<noteq> []"
  shows "ssh_buffer_unpack True bn ''P'' 2 [UA_size (of_nat (length d)), UA_ptr, UA_end] b = Some (SSH_ERROR, [], b) \<and>
    (\<exists>b'. ssh_buffer_get_data (of_nat (length d)) b = ((of_nat (length d), d), b'))"
proof -
  have used: "unat (used b) \<le> 16384" by (rule used_bound [OF ok])
  have max: "unat (ssh_buffer_get_len b) = length d"
    using length_contents [OF ok] c ok
    by (simp add: ssh_buffer_get_len_def unat_sub word_le_nat_alt buffer_ok_def)
  have "ssh_buffer_get_len b = of_nat (unat (ssh_buffer_get_len b))" by simp
  then have len: "ssh_buffer_get_len b = of_nat (length d)" unfolding max .
  have pos: "0 < length d" using ne by simp
  have "ssh_buffer_get_len b - 1 < ssh_buffer_get_len b"
  proof -
    have "unat (ssh_buffer_get_len b - 1) = unat (ssh_buffer_get_len b) - 1"
      using max pos by (subst unat_sub) (auto simp: word_le_nat_alt Suc_le_eq)
    then show ?thesis using max pos by (simp add: word_less_nat_alt)
  qed
  then have "ssh_buffer_unpack True bn ''P'' 2 [UA_size (of_nat (length d)), UA_ptr, UA_end] b = Some (SSH_ERROR, [], b)"
    by (simp add: ssh_buffer_unpack_def ssh_buffer_unpack_va_def unpack_one_def len [symmetric])
  moreover have "\<exists>b'. ssh_buffer_get_data (of_nat (length d)) b = ((of_nat (length d), d), b')"
    using buf.get_prefix [OF ok, of d "[]" "of_nat (length d)"] c max len by auto
  ultimately show ?thesis by blast
qed

lemma unpack_whole_data_fails_witness:
  "ssh_buffer_unpack True (\<lambda>_. True) ''P'' 2 [UA_size (of_nat (length [1, 2 :: byte])), UA_ptr, UA_end] demo_buffer =
     Some (SSH_ERROR, [], demo_buffer)"
  using unpack_whole_data_fails [OF demo_buffer_ok, of "\<lambda>_. True"] by simp

end
