(* ===== verification/Channel_Flow.thy ===== *)
theory Channel_Flow
  imports Channel_Demo Ssh_Message
begin

unbundle bit_operations_syntax

text \<open>
  What arrives on a channel and what is read from it: a message of data is appended to the channel's
  buffer exactly when it fits into the window, and a reader gets the bytes in order, each once.
\<close>

section \<open>Unpacking the number of a channel\<close>

lemma unpack_dword:
  assumes "buffer_ok b" and "contents b = be_bytes 4 (x :: u32) @ rest"
  shows "\<exists>b'. ssh_buffer_unpack m bn ''d'' 1 [UA_ptr, UA_end] b = Some (SSH_OK, [I_dword x], b') \<and>
    buffer_ok b' \<and> contents b' = rest"
proof -
  obtain b' where "ssh_buffer_get_u32 b = ((4, host_word (be_bytes 4 x)), b')" "buffer_ok b'" "contents b' = rest"
    using get_u32_at [OF assms] .
  then show ?thesis
    by (simp add: ssh_buffer_unpack_def ssh_buffer_unpack_va_def unpack_one_def ntoh_host_word del: be_bytes.simps)
qed

text \<open>The message that is being handled.\<close>

definition handling :: "byte list \<Rightarrow> 'k conn \<Rightarrow> bool" where
  "handling msg c \<longleftrightarrow> (\<exists>b. in_buffer (sess c) = Some b \<and> buffer_ok b \<and> contents b = msg)"

lemma channel_from_msg_ok:
  assumes h: "handling (be_bytes 4 i @ rest) c" and a: "ssh_channel_from_local c i = Some x"
  shows "\<exists>c1. channel_from_msg env c = Some (x, c1) \<and> handling rest c1 \<and> chan_at c1 = chan_at c \<and> channels c1 = channels c \<and>
    sess c1 = (sess c)\<lparr>in_buffer := in_buffer (sess c1)\<rparr> \<and> sent c1 = sent c"
proof -
  from h obtain b where b: "in_buffer (sess c) = Some b" "buffer_ok b" "contents b = be_bytes 4 i @ rest"
    by (auto simp: handling_def)
  from unpack_dword [OF b(2,3), of "mem (pk env)" "\<lambda>_. True"] obtain b' where
    b': "ssh_buffer_unpack (mem (pk env)) (\<lambda>_. True) ''d'' 1 [UA_ptr, UA_end] b = Some (SSH_OK, [I_dword i], b')"
      "buffer_ok b'" "contents b' = rest" by blast
  have u: "unpack_in env ''d'' c = (SSH_OK, [I_dword i], with_sess (\<lambda>s. s\<lparr>in_buffer := Some b'\<rparr>) c)"
    using b(1) b'(1) by (simp add: unpack_in_def)
  moreover have "ssh_channel_from_local (with_sess f c) i = Some x" for f
    using a by (simp add: ssh_channel_from_local_def with_sess_def)
  ultimately show ?thesis
    using b' by (auto simp: channel_from_msg_def handling_def with_sess_def)
qed

section \<open>Data\<close>

lemma bufferize_fits:
  assumes ok: "chan_ok ch" and fits: "length bs \<le> unat (local_window ch)" and b: "std_buf e ch = Some b"
  shows "\<exists>b'. channel_default_bufferize True bs e ch = (0, if e then ch\<lparr>stderr_buffer := Some b'\<rparr> else ch\<lparr>stdout_buffer := Some b'\<rparr>) \<and>
    buffer_ok b' \<and> contents b' = contents b @ bs"
proof -
  have bo: "buffer_ok b" by (rule std_ok [OF ok b])
  have "unat (buffer_len (Some b)) + unat (local_window ch) \<le> 8000"
    using ok b by (auto simp: chan_ok_def std_buf_def split: if_splits)
  then have "length (contents b) + length bs < 16384" using fits buffer_len_contents [OF bo] by simp
  from add_data_fits [OF bo this] obtain b' where
    "ssh_buffer_add_data True (Some bs) b = (0, b')" "buffer_ok b'" "contents b' = contents b @ bs" by blast
  with b show ?thesis
    by (auto simp: channel_default_bufferize_def bufferize_def std_buf_def split: if_splits)
qed

text \<open>The channel after data that fits, its buffer now \<open>b'\<close>.\<close>

definition with_data :: "bool \<Rightarrow> ssh_buffer \<Rightarrow> nat \<Rightarrow> ssh_channel \<Rightarrow> ssh_channel" where
  "with_data e b' n ch = (set_std e b' ch)\<lparr>local_window := local_window ch - of_nat n\<rparr>"

lemma rcv_string_ok:
  assumes h: "handling (be_bytes 4 (of_nat (length bs) :: u32) @ bs) c" and len: "length bs < 16384"
    and ch: "chan_at c a = Some ch" "chan_ok ch" "chan_callbacks ch = None" "std_buf e ch = Some b" and m: "mem (pk env)"
  shows "\<exists>c'. rcv_string env e a c = Some (1, c') \<and> channels c' = channels c \<and> sent c' = sent c \<and>
    (if length bs \<le> unat (local_window ch)
     then \<exists>b'. buffer_ok b' \<and> contents b' = contents b @ bs \<and> chan_at c' = (chan_at c)(a \<mapsto> with_data e b' (length bs) ch)
     else chan_at c' = chan_at c)"
proof -
  note n = small_nat [OF len]
  from h obtain p where p: "in_buffer (sess c) = Some p" "buffer_ok p" "contents p = be_bytes 4 (of_nat (length bs) :: u32) @ bs"
    by (auto simp: handling_def)
  define x where "x = \<lparr>str_size = of_nat (length bs) :: u32, str_data = bs @ [0]\<rparr>"
  have x: "string_ok x" "str_view x = bs" "str_size x = of_nat (length bs)"
    using n len by (simp_all add: x_def string_ok_def str_view_def STRING_SIZE_MAX_def word_le_nat_alt)
  obtain p' where g: "ssh_buffer_get_ssh_string True p = (Some (x\<lparr>str_data := str_view x @ [0]\<rparr>), p')"
    using get_string_at [OF p(2) x(1), of "[]"] p(3) x(2,3) by (auto simp del: be_bytes.simps)
  define y where "y = x\<lparr>str_data := str_view x @ [0]\<rparr>"
  have y: "ssh_string_len (Some y) = of_nat (length bs)" "str_view y = bs"
    using x n by (simp_all add: y_def string_ok_def ssh_string_len_def str_view_def word_gt_0)
  define c1 where "c1 = with_sess (\<lambda>s. s\<lparr>in_buffer := Some p'\<rparr>) c"
  have c1: "chan_at c1 = chan_at c" "channels c1 = channels c" "sent c1 = sent c" by (simp_all add: c1_def with_sess_def)
  have r: "rcv_string env e a c =
      (if local_window ch < of_nat (length bs) then Some (1, c1)
       else let (rc, ch1) = channel_default_bufferize True bs e ch
            in if rc < 0 then Some (1, upd_chan a (\<lambda>_. ch1) c1)
               else run_data_callbacks env a e
                      (case chan_callbacks (ch1\<lparr>local_window := local_window ch1 - of_nat (length bs)\<rparr>) of None \<Rightarrow> [] | Some l \<Rightarrow> l)
                      (upd_chan a (\<lambda>_. ch1\<lparr>local_window := local_window ch1 - of_nat (length bs)\<rparr>) c1))"
    using g ch(1) m p(1) y c1(1)
    by (simp add: rcv_string_def y_def [symmetric] c1_def [symmetric] Let_def case_prod_beta)
  have lw: "local_window ch < of_nat (length bs) \<longleftrightarrow> unat (local_window ch) < length bs" using n by (simp add: word_less_nat_alt)
  show ?thesis
  proof (cases "length bs \<le> unat (local_window ch)")
    case True
    from bufferize_fits [OF ch(2) True ch(4)] obtain b' where
      b': "channel_default_bufferize True bs e ch = (0, if e then ch\<lparr>stderr_buffer := Some b'\<rparr> else ch\<lparr>stdout_buffer := Some b'\<rparr>)"
        "buffer_ok b'" "contents b' = contents b @ bs" by blast
    define ch2 where "ch2 = (if e then ch\<lparr>stderr_buffer := Some b'\<rparr> else ch\<lparr>stdout_buffer := Some b'\<rparr>)"
    have w: "ch2\<lparr>local_window := local_window ch2 - of_nat (length bs)\<rparr> = with_data e b' (length bs) ch" "chan_callbacks ch2 = None"
      using ch(3) by (simp_all add: ch2_def with_data_def set_std_def)
    have "rcv_string env e a c = Some (1, upd_chan a (\<lambda>_. with_data e b' (length bs) ch) c1)"
      using r True lw b'(1) w by (simp add: ch2_def [symmetric])
    moreover have "channels (upd_chan a f c1) = channels c" "sent (upd_chan a f c1) = sent c" for f
      using c1 by (simp_all add: upd_chan_def)
    ultimately show ?thesis using True b' c1 ch(1) by auto
  next
    case False
    with r lw c1 show ?thesis by simp
  qed
qed

lemma with_data_ok:
  assumes ok: "chan_ok ch" and b: "std_buf e ch = Some b" and b': "buffer_ok b'" "contents b' = contents b @ bs"
    and fits: "length bs \<le> unat (local_window ch)"
  shows "chan_ok (with_data e b' (length bs) ch)"
proof -
  from bufferize_fits [OF ok fits b] obtain x where
    x: "channel_default_bufferize True bs e ch = (0, if e then ch\<lparr>stderr_buffer := Some x\<rparr> else ch\<lparr>stdout_buffer := Some x\<rparr>)"
      "buffer_ok x" "contents x = contents b @ bs" by blast
  have "chan_ok (with_data e x (length bs) ch)"
    using bufferize_ok [OF ok x(1) fits] by (auto simp: with_data_def set_std_def split: if_splits)
  moreover have "buffer_len (Some b') = buffer_len (Some x)"
    using buffer_len_contents [OF b'(1)] buffer_len_contents [OF x(2)] b'(2) x(3) by (simp add: word_unat_eq_iff)
  ultimately show ?thesis using b'(1) by (auto simp: chan_ok_def with_data_def set_std_def split: if_splits)
qed

lemma rcv_data_keeps_list:
  assumes "handling (be_bytes 4 i @ be_bytes 4 (of_nat (length bs) :: u32) @ bs) c" and "length bs < 16384"
    and "ssh_channel_from_local c i = Some (Some a)" and "chan_at c a = Some ch" and "chan_ok ch"
    and "chan_callbacks ch = None" and "stdout_buffer ch = Some b" and "mem (pk env)"
  shows "\<exists>c'. channel_rcv_data env 94 c = Some (1, c') \<and> channels c' = channels c \<and> sent c' = sent c \<and>
    (if length bs \<le> unat (local_window ch)
     then \<exists>b'. buffer_ok b' \<and> contents b' = contents b @ bs \<and> chan_at c' = (chan_at c)(a \<mapsto> with_data False b' (length bs) ch)
     else chan_at c' = chan_at c)"
proof -
  from channel_from_msg_ok [OF assms(1,3), of env] obtain c1 where
    c1: "channel_from_msg env c = Some (Some a, c1)" "handling (be_bytes 4 (of_nat (length bs) :: u32) @ bs) c1"
      "chan_at c1 = chan_at c" "channels c1 = channels c" "sent c1 = sent c"
    by blast
  have "chan_at c1 a = Some ch" "std_buf False ch = Some b" using assms(4,7) c1(3) by (simp_all add: std_buf_def)
  from rcv_string_ok [OF c1(2) assms(2) this(1) assms(5,6) this(2) assms(8)] c1 show ?thesis
    by (simp add: channel_rcv_data_def) metis
qed

text \<open>
  Data that fits into the window is never lost. A data message for a channel without callbacks
  adds its bytes to the end of the channel's buffer and takes as much off the local window; one
  that exceeds the window changes no channel at all.
\<close>

theorem rcv_data_appends:
  assumes "handling (be_bytes 4 i @ be_bytes 4 (of_nat (length bs) :: u32) @ bs) c" and "length bs < 16384"
    and "ssh_channel_from_local c i = Some (Some a)" and "chan_at c a = Some ch" and "chan_ok ch"
    and "chan_callbacks ch = None" and "stdout_buffer ch = Some b" and "mem (pk env)"
  shows "\<exists>c'. channel_rcv_data env 94 c = Some (1, c') \<and>
    (if length bs \<le> unat (local_window ch)
     then \<exists>b'. buffer_ok b' \<and> contents b' = contents b @ bs \<and> chan_at c' = (chan_at c)(a \<mapsto> with_data False b' (length bs) ch)
     else chan_at c' = chan_at c)"
  using rcv_data_keeps_list [OF assms] by blast

section \<open>Reading\<close>

lemma read_takes:
  assumes ch: "chan_at c a = Some ch" "chan_ok ch" "std_buf e ch = Some b"
    and ret: "take_data env a count e c = Some (r, bs, c')"
  shows "\<exists>b' ch'. contents b = bs @ contents b' \<and> length bs = min (unat count) (length (contents b)) \<and>
    (r = int (length bs) \<or> r = -1) \<and> chan_at c' = (chan_at c)(a \<mapsto> ch') \<and> std_buf e ch' = Some b' \<and>
    std_buf (\<not> e) ch' = std_buf (\<not> e) ch \<and> local_channel ch' = local_channel ch \<and> chan_callbacks ch' = chan_callbacks ch \<and>
    (contents b \<noteq> [] \<longrightarrow> chan_ok ch')"
proof -
  have bo: "buffer_ok b" by (rule std_ok [OF ch(2,3)])
  let ?l = "ssh_buffer_get_len b"
  define n where "n = (if count < ?l then count else ?l)"
  have l: "unat ?l = length (contents b)" using get_contents(2) [OF bo] .
  have n: "unat n = min (unat count) (length (contents b))" using l by (auto simp: n_def word_less_nat_alt)
  then have "unat n \<le> length (contents b)" by simp
  with pass_bytes_ok [OF bo, of n] obtain b' where b': "ssh_buffer_pass_bytes n b = (n, b')" "contents b' = drop (unat n) (contents b)"
    by auto
  define ch1 where "ch1 = count_in (ucast n) (set_std e (snd (ssh_buffer_pass_bytes n b)) ch)"
  define ch2 where "ch2 = (if delayed_close ch1 \<and> \<not> ssh_channel_has_unread_data ch1
                  then ch1\<lparr>chan_state := SSH_CHANNEL_STATE_CLOSED\<rparr> else ch1)"
  have t: "take_data env a count e c =
      Option.bind (grow_window env a (upd_chan a (\<lambda>_. ch2) c)) (\<lambda>(rc, c1).
        Some (if rc = SSH_ERROR then -1 else int (unat n), take (unat n) (ssh_buffer_get b), c1))"
    unfolding take_data_def ch2_def ch1_def n_def Let_def by (simp only: ch(1,3) Option.bind.simps)
  with ret obtain rc where g: "grow_window env a (upd_chan a (\<lambda>_. ch2) c) = Some (rc, c')"
    and bs: "bs = take (unat n) (ssh_buffer_get b)" "r = int (unat n) \<or> r = -1"
    by (auto simp: bind_eq_Some_conv split: if_splits)
  have bs': "bs = take (unat n) (contents b)"
    using bs(1) n by (simp add: ssh_buffer_get_def contents_def length_contents [OF bo] min_def)
  have lb: "length bs = min (unat count) (length (contents b))" using bs' n by simp
  have split: "contents b = bs @ contents b'" using bs' b'(2) by simp
  have same: "std_buf e ch2 = Some b'" "std_buf (\<not> e) ch2 = std_buf (\<not> e) ch" "local_channel ch2 = local_channel ch"
    "chan_callbacks ch2 = chan_callbacks ch"
    using b'(1) by (simp_all add: ch2_def ch1_def count_in_def set_std_def std_buf_def)
  have okc: "chan_ok ch2" and grown: "contents b \<noteq> [] \<Longrightarrow> chan_ok (ch2\<lparr>local_window := local_window ch2 + window_increment ch2\<rparr>)"
  proof -
    have "count_in k (set_std e x ch) = set_std e x (count_in k ch)" for k x by (simp add: count_in_def set_std_def)
    with win.taken [OF ch(2,3)] have "chan_ok ch1" by (simp add: ch1_def)
    with win.read_close show ok2: "chan_ok ch2" by (auto simp: ch2_def)
    assume "contents b \<noteq> []"
    with l have "0 < ?l" by (simp add: word_less_nat_alt)
    with win.used_open [OF ch(2,3)] have "chan_state ch2 \<noteq> SSH_CHANNEL_STATE_NOT_OPEN"
      by (simp add: ch2_def ch1_def count_in_def set_std_def)
    with ok2 show "chan_ok (ch2\<lparr>local_window := local_window ch2 + window_increment ch2\<rparr>)" by (rule win.grown)
  qed
  let ?g = "ch2\<lparr>local_window := local_window ch2 + window_increment ch2\<rparr>"
  from g ch(1) have "chan_at c' = (chan_at c)(a \<mapsto> ch2) \<or> chan_at c' = (chan_at c)(a \<mapsto> ?g)"
    by (auto simp: grow_window_def Let_def case_prod_beta split: if_splits)
  then obtain ch' where ch': "ch' = ch2 \<or> ch' = ?g" "chan_at c' = (chan_at c)(a \<mapsto> ch')" by blast
  have "std_buf e ch' = Some b'" "std_buf (\<not> e) ch' = std_buf (\<not> e) ch" "local_channel ch' = local_channel ch"
    "chan_callbacks ch' = chan_callbacks ch"
    using same ch'(1) by (auto simp: std_buf_def)
  moreover have "contents b \<noteq> [] \<Longrightarrow> chan_ok ch'" using okc grown ch'(1) by blast
  ultimately show ?thesis using split lb bs(2) n ch'(2) by auto
qed

text \<open>With bytes in the buffer a reader does not wait.\<close>

lemma read_at_once:
  assumes "chan_at c a = Some ch" and "std_buf e ch = Some b" and "0 < ssh_buffer_get_len b"
  shows "ssh_handle_packets_termination env tmo (ssh_channel_read_termination a e) c = Some (SSH_OK, c)"
proof -
  have "1 \<le> ssh_buffer_get_len b" using assms(3) by (simp add: word_le_nat_alt word_less_nat_alt)
  with assms(1,2) have "ssh_channel_read_termination a e c = Some True" by (simp add: ssh_channel_read_termination_def)
  then show ?thesis
    unfolding ssh_handle_packets_termination_def Let_def by (subst wait_loop.simps) simp
qed

lemma read_buffered:
  assumes ch: "chan_at c a = Some ch" "chan_ok ch" "std_buf e ch = Some b" and some: "contents b \<noteq> []"
    and ret: "ssh_channel_read env (Some a) True count e c = Some (r, bs, c')"
  shows "\<exists>b' ch'. contents b = bs @ contents b' \<and> chan_at c' = (chan_at c)(a \<mapsto> ch') \<and> std_buf e ch' = Some b' \<and>
    local_channel ch' = local_channel ch \<and> chan_callbacks ch' = chan_callbacks ch \<and> chan_ok ch'"
proof -
  have bo: "buffer_ok b" by (rule std_ok [OF ch(2,3)])
  have "unat (ssh_buffer_get_len b) \<noteq> 0" using get_contents(2) [OF bo] some by simp
  then have l: "0 < ssh_buffer_get_len b" "ssh_buffer_get_len b \<noteq> 0" by (auto simp: word_less_nat_alt)
  have same: "chan_at c = (chan_at c)(a \<mapsto> ch)" using ch(1) by (simp add: fun_upd_idem)
  show ?thesis
  proof (cases "count = 0 \<or> session_failed c \<or> chan_state ch = SSH_CHANNEL_STATE_CLOSED")
    case True
    with ret read_at_once [OF ch(1,3) l(1)] ch(1,3) l(2) have "bs = []" "c' = c"
      by (auto simp: ssh_channel_read_def ssh_channel_read_timeout_def split: if_splits)
    with ch(2,3) same show ?thesis by (intro exI [of _ b] exI [of _ ch]) simp
  next
    case False
    with ret read_at_once [OF ch(1,3) l(1)] ch(1,3) l(2) have "take_data env a count e c = Some (r, bs, c')"
      by (auto simp: ssh_channel_read_def ssh_channel_read_timeout_def split: if_splits)
    from read_takes [OF ch this] some show ?thesis by blast
  qed
qed

section \<open>The stream\<close>

text \<open>
  A channel \<open>a\<close> with number \<open>i\<close> in use: data messages that fit arrive, and the user reads what is
  waiting, in any order. \<open>xs\<close> is all that arrived, \<open>ys\<close> all that was read.
\<close>

inductive flows :: "'k conn_env \<Rightarrow> nat \<Rightarrow> u32 \<Rightarrow> 'k conn \<Rightarrow> byte list \<Rightarrow> byte list \<Rightarrow> 'k conn \<Rightarrow> bool" for env a i c0 where
  start: "flows env a i c0 [] [] c0"
| arrive: "flows env a i c0 xs ys c \<Longrightarrow> buffer_ok b \<Longrightarrow> contents b = be_bytes 4 i @ be_bytes 4 (of_nat (length bs) :: u32) @ bs \<Longrightarrow>
    chan_at c a = Some ch \<Longrightarrow> length bs \<le> unat (local_window ch) \<Longrightarrow>
    channel_rcv_data env 94 (with_sess (\<lambda>s. s\<lparr>in_buffer := Some b\<rparr>) c) = Some (rc, c') \<Longrightarrow> flows env a i c0 (xs @ bs) ys c'"
| consume: "flows env a i c0 xs ys c \<Longrightarrow> chan_at c a = Some ch \<Longrightarrow> stdout_buffer ch = Some b \<Longrightarrow> contents b \<noteq> [] \<Longrightarrow>
    ssh_channel_read env (Some a) True count False c = Some (r, bs, c') \<Longrightarrow> flows env a i c0 xs (ys @ bs) c'"

definition in_use :: "nat \<Rightarrow> u32 \<Rightarrow> 'k conn \<Rightarrow> bool" where
  "in_use a i c \<longleftrightarrow> (\<exists>ch. chan_at c a = Some ch \<and> chan_ok ch \<and> chan_callbacks ch = None \<and> local_channel ch = i) \<and>
     ssh_channel_from_local c i = Some (Some a)"

lemma find_local_upd:
  "find_local h i l = Some (Some a) \<Longrightarrow> h a = Some ch \<Longrightarrow> local_channel ch' = local_channel ch \<Longrightarrow>
    find_local (h(a \<mapsto> ch')) i l = Some (Some a)"
  by (induction l) (auto split: option.splits if_splits)

lemma channels_grow: "grow_window env a c = Some (rc, c') \<Longrightarrow> channels c' = channels c"
  by (auto simp: grow_window_def Let_def case_prod_beta pack_out_def send_packet_def reinit_out_def with_sess_def upd_chan_def
      split: option.splits if_splits)

lemma channels_read:
  assumes "chan_at c a = Some ch" "std_buf e ch = Some b" "0 < ssh_buffer_get_len b"
    and "ssh_channel_read env (Some a) True count e c = Some (r, bs, c')"
  shows "channels c' = channels c"
  using assms read_at_once [OF assms(1-3)]
  by (auto simp: ssh_channel_read_def ssh_channel_read_timeout_def take_data_def Let_def bind_eq_Some_conv upd_chan_def
      split: if_splits dest!: channels_grow)

text \<open>
  C22: A channel is a queue of bytes. However arrivals and reads alternate, the bytes that arrived
  are those that were read followed by those still in the channel's buffer: nothing is lost,
  repeated or reordered, and a read that fails has still only taken bytes from the front.
\<close>

theorem stream_in_order:
  assumes "flows env a i c0 xs ys c" and "in_use a i c0" and "mem (pk env)"
    and "chan_at c0 a = Some ch0" and "stdout_buffer ch0 = Some b0" and "contents b0 = []"
  shows "in_use a i c \<and> (\<exists>ch b. chan_at c a = Some ch \<and> stdout_buffer ch = Some b \<and> xs = ys @ contents b)"
  using assms(1)
proof (induction rule: flows.induct)
  case start
  then show ?case using assms(2,4-6) by auto
next
  case (arrive xs ys c p bs ch rc c')
  from arrive.IH arrive.hyps(4) obtain b where b: "chan_ok ch" "chan_callbacks ch = None" "local_channel ch = i"
    "ssh_channel_from_local c i = Some (Some a)" "stdout_buffer ch = Some b" "xs = ys @ contents b"
    by (auto simp: in_use_def)
  let ?c = "with_sess (\<lambda>s. s\<lparr>in_buffer := Some p\<rparr>) c"
  have h: "handling (be_bytes 4 i @ be_bytes 4 (of_nat (length bs) :: u32) @ bs) ?c"
    using arrive.hyps(2,3) by (simp add: handling_def with_sess_def)
  have len: "length bs < 16384" using arrive.hyps(5) b(1) by (simp add: chan_ok_def)
  have fl: "ssh_channel_from_local ?c i = Some (Some a)" using b(4) by (simp add: ssh_channel_from_local_def with_sess_def)
  have at: "chan_at ?c a = Some ch" using arrive.hyps(4) by simp
  from rcv_data_keeps_list [OF h len fl at b(1,2,5) assms(3)] arrive.hyps(5,6) have
    "\<exists>b'. buffer_ok b' \<and> contents b' = contents b @ bs \<and> chan_at c' = (chan_at c)(a \<mapsto> with_data False b' (length bs) ch)"
    and l: "channels c' = channels c" by (simp_all add: with_sess_def)
  then obtain b' where
    b': "buffer_ok b'" "contents b' = contents b @ bs" "chan_at c' = (chan_at c)(a \<mapsto> with_data False b' (length bs) ch)" by blast
  have w: "chan_ok (with_data False b' (length bs) ch)" "local_channel (with_data False b' (length bs) ch) = i"
    "chan_callbacks (with_data False b' (length bs) ch) = None" "stdout_buffer (with_data False b' (length bs) ch) = Some b'"
    using b with_data_ok [OF b(1), of False b b' bs] b'(1,2) arrive.hyps(5) by (simp_all add: with_data_def set_std_def std_buf_def)
  have "ssh_channel_from_local c' i = Some (Some a)"
    using find_local_upd [of "chan_at c" i _ a ch "with_data False b' (length bs) ch"] b(3,4) w(2) arrive.hyps(4)
    by (simp add: ssh_channel_from_local_def l b'(3))
  with b'(3) w b(6) b'(2) show ?case by (simp add: in_use_def)
next
  case (consume xs ys c ch b count r bs c')
  from consume.IH consume.hyps(2,3) have b: "chan_ok ch" "chan_callbacks ch = None" "local_channel ch = i"
    "ssh_channel_from_local c i = Some (Some a)" "xs = ys @ contents b"
    by (auto simp: in_use_def)
  have sb: "std_buf False ch = Some b" using consume.hyps(3) by (simp add: std_buf_def)
  have bo: "buffer_ok b" by (rule std_ok [OF b(1) sb])
  have "unat (ssh_buffer_get_len b) \<noteq> 0" using get_contents(2) [OF bo] consume.hyps(4) by simp
  then have l: "0 < ssh_buffer_get_len b" by (simp add: word_less_nat_alt)
  from read_buffered [OF consume.hyps(2) b(1) sb consume.hyps(4,5)] obtain b' ch' where
    r: "contents b = bs @ contents b'" "chan_at c' = (chan_at c)(a \<mapsto> ch')" "std_buf False ch' = Some b'"
    "local_channel ch' = local_channel ch" "chan_callbacks ch' = chan_callbacks ch" "chan_ok ch'" by blast
  have "ssh_channel_from_local c' i = Some (Some a)"
    using find_local_upd [of "chan_at c" i _ a ch ch'] b(4) r(4) consume.hyps(2)
    by (simp add: ssh_channel_from_local_def channels_read [OF consume.hyps(2) sb l consume.hyps(5)] r(2))
  with r b(2,3,5) show ?case by (simp add: in_use_def std_buf_def)
qed

section \<open>Evaluation\<close>

text \<open>The message with the bytes 7 and 8 for channel 1.\<close>

definition demo_data :: ssh_buffer where
  "demo_data = demo_buf (be_bytes 4 (1 :: u32) @ be_bytes 4 (of_nat (length [7, 8 :: byte]) :: u32) @ [7, 8])"

lemma demo_data_ok: "buffer_ok demo_data" "contents demo_data = be_bytes 4 (1 :: u32) @ be_bytes 4 (of_nat (length [7, 8 :: byte]) :: u32) @ [7, 8]"
  unfolding demo_data_def by (use demo_buf_ok [of "be_bytes 4 (1 :: u32) @ be_bytes 4 (of_nat (length [7, 8 :: byte]) :: u32) @ [7, 8]"] in \<open>simp_all del: be_bytes.simps\<close>)

abbreviation (input) demo_arrived :: "unit conn" where
  "demo_arrived \<equiv> with_sess (\<lambda>s. s\<lparr>in_buffer := Some demo_data\<rparr>) (demo_conn demo_sess (demo_channel [6]))"

lemma demo_handling: "handling (be_bytes 4 (1 :: u32) @ be_bytes 4 (of_nat (length [7, 8 :: byte]) :: u32) @ [7, 8]) demo_arrived"
  using demo_data_ok by (simp add: handling_def with_sess_def del: be_bytes.simps)

lemma demo_arrived_simps: "ssh_channel_from_local demo_arrived 1 = Some (Some 5)" "chan_at demo_arrived 5 = Some (demo_channel [6])"
  by (simp_all add: ssh_channel_from_local_def with_sess_def)

theorem rcv_data_appends_witness:
  "\<exists>c'. channel_rcv_data demo_env 94 demo_arrived = Some (1, c') \<and>
    (\<exists>b'. contents b' = [6, 7, 8] \<and> chan_at c' = [5 \<mapsto> with_data False b' 2 (demo_channel [6])])"
proof -
  have b: "contents (demo_buf [6]) = [6]" using demo_buf_ok [of "[6]"] by simp
  have "\<exists>c'. channel_rcv_data demo_env 94 demo_arrived = Some (1, c') \<and>
    (if length [7, 8 :: byte] \<le> unat (local_window (demo_channel [6]))
     then \<exists>b'. buffer_ok b' \<and> contents b' = contents (demo_buf [6]) @ [7, 8] \<and>
       chan_at c' = (chan_at demo_arrived)(5 \<mapsto> with_data False b' (length [7, 8 :: byte]) (demo_channel [6]))
     else chan_at c' = chan_at demo_arrived)"
    by (rule rcv_data_appends [OF demo_handling _ demo_arrived_simps demo_chan_ok]) (simp_all add: demo_env_works)
  moreover have "length [7, 8 :: byte] \<le> unat (local_window (demo_channel [6]))" by simp
  ultimately obtain c' b' where "channel_rcv_data demo_env 94 demo_arrived = Some (1, c')" "contents b' = contents (demo_buf [6]) @ [7, 8]"
    "chan_at c' = (chan_at demo_arrived)(5 \<mapsto> with_data False b' (length [7, 8 :: byte]) (demo_channel [6]))"
    by (simp only: if_True) blast
  then show ?thesis using b by (intro exI [of _ c'] conjI exI [of _ b']) (simp_all add: numeral_2_eq_2)
qed

theorem stream_in_order_witness:
  "\<exists>c. flows demo_env 5 1 (demo_conn demo_sess (demo_channel [])) [7, 8] [] c \<and>
    (\<exists>ch b. chan_at c 5 = Some ch \<and> stdout_buffer ch = Some b \<and> contents b = [7, 8])"
proof -
  let ?c = "demo_conn demo_sess (demo_channel [])"
  have b: "contents (demo_buf []) = []" using demo_buf_ok [of "[]"] by simp
  have h: "handling (be_bytes 4 (1 :: u32) @ be_bytes 4 (of_nat (length [7, 8 :: byte]) :: u32) @ [7, 8]) (with_sess (\<lambda>s. s\<lparr>in_buffer := Some demo_data\<rparr>) ?c)"
    using demo_data_ok by (simp add: handling_def with_sess_def del: be_bytes.simps)
  have "\<exists>c'. channel_rcv_data demo_env 94 (with_sess (\<lambda>s. s\<lparr>in_buffer := Some demo_data\<rparr>) ?c) = Some (1, c')"
    using rcv_data_keeps_list [OF h, of 5 "demo_channel []" "demo_buf []" demo_env] demo_chan_ok [of "[]"] demo_env_works(1)
    by (auto simp: ssh_channel_from_local_def with_sess_def)
  then obtain c' where c': "channel_rcv_data demo_env 94 (with_sess (\<lambda>s. s\<lparr>in_buffer := Some demo_data\<rparr>) ?c) = Some (1, c')" by blast
  have "flows demo_env 5 1 ?c ([] @ [7, 8]) [] c'"
    by (rule flows.arrive [OF flows.start demo_data_ok _ _ c', where ch = "demo_channel []"]) simp_all
  then have fl: "flows demo_env 5 1 ?c [7, 8] [] c'" by simp
  have "in_use 5 1 ?c" using demo_chan_ok [of "[]"] by (simp add: in_use_def demo_from_local)
  from stream_in_order [OF fl this _ _ _ b] demo_env_works(1) fl show ?thesis by auto
qed

end
