(* ===== verification/Channel_Write.thy ===== *)
theory Channel_Write
  imports Channel_Flow Packet_Safety
begin

unbundle bit_operations_syntax

text \<open>
  Writing to a channel: what goes out for the bytes a user gives, within the window and the packet
  size the peer granted, and the way of those bytes into the peer's channel.
\<close>

section \<open>Messages\<close>

lemma pack_out_ok:
  assumes ok: "buffer_ok (out_buffer (sess c))" and fs: "\<forall>f\<in>set fs. field_ok f" "fs \<noteq> []" "arg_count fs \<le> 256"
    and fits: "length (contents (out_buffer (sess c))) + length (message fs) < 16384" and m: "mem (pk env)"
    and fmt: "fmt = map field_fmt fs" "args = concat (map field_va fs)"
  shows "\<exists>b. pack_out env fmt args c = (SSH_OK, with_sess (\<lambda>s. s\<lparr>out_buffer := b\<rparr>) c) \<and> buffer_ok b \<and>
    contents b = contents (out_buffer (sess c)) @ message fs"
proof -
  have n: "length (concat (map field_va fs)) = arg_count fs" by (simp add: arg_count_def length_concat comp_def)
  from pack_ok [OF ok fs(1,2,3) fits] obtain b where
    "ssh_buffer_pack True (map field_fmt fs) (arg_count fs) (concat (map field_va fs) @ [VA_end]) (out_buffer (sess c)) = Some (SSH_OK, b)"
    "buffer_ok b" "contents b = contents (out_buffer (sess c)) @ message fs" by blast
  then show ?thesis using m by (auto simp: pack_out_def fmt n)
qed

definition data_message :: "bool \<Rightarrow> u32 \<Rightarrow> byte list \<Rightarrow> byte list" where
  "data_message e i bs = (if e then 95 # be_bytes 4 i @ be_bytes 4 (1 :: u32) else 94 # be_bytes 4 i) @
     be_bytes 4 (of_nat (length bs) :: u32) @ bs"

text \<open>The packet layer takes \<open>n\<close> more packets.\<close>

primrec sends :: "nat \<Rightarrow> 'k packet_env \<Rightarrow> 'k ssh_session \<Rightarrow> bool" where
  "sends 0 env s = True"
| "sends (Suc n) env s =
     (\<forall>b. buffer_ok b \<longrightarrow> contents b \<noteq> [] \<longrightarrow> hd (contents b) \<noteq> 21 \<longrightarrow> length (contents b) < 16000 \<longrightarrow>
        (\<exists>s'. ssh_packet_send env (s\<lparr>out_buffer := b\<rparr>) = (SSH_OK, s') \<and> sends n env s' \<and>
              buffer_ok (out_buffer s') \<and> contents (out_buffer s') = []))"

definition out_empty :: "'k conn \<Rightarrow> bool" where
  "out_empty c \<longleftrightarrow> buffer_ok (out_buffer (sess c)) \<and> contents (out_buffer (sess c)) = []"

definition written :: "nat \<Rightarrow> ssh_channel \<Rightarrow> ssh_channel" where
  "written n ch = count_out (of_nat n) (ch\<lparr>remote_window := remote_window ch - of_nat n\<rparr>)"

lemma written_simps [simp]:
  "remote_window (written n ch) = remote_window ch - of_nat n" "remote_channel (written n ch) = remote_channel ch"
  "remote_maxpacket (written n ch) = remote_maxpacket ch" "written m (written n ch) = written (n + m) ch"
  by (simp_all add: written_def count_out_def option.map_comp comp_def add.assoc)

lemma sess_upd [simp]: "sess (with_sess f c) = f (sess c)" "sess (upd_chan a g c) = sess c"
  "sent (with_sess f c) = sent c" "sent (upd_chan a g c) = sent c"
  by (simp_all add: with_sess_def upd_chan_def)

text \<open>One message: everything of \<open>write_chunk\<close> up to the packet layer.\<close>

lemma chunk_packed:
  assumes ch: "chan_at c a = Some ch" and o: "out_empty c" and m: "mem (pk env)"
    and n: "n = chunk_len ch (of_nat (length bs))" "unat n \<le> length bs" "unat n \<le> 15900"
  shows "\<exists>b. buffer_ok b \<and> contents b = data_message e (remote_channel ch) (take (unat n) bs) \<and>
    write_chunk env a e bs c =
      (let (rc, s) = ssh_packet_send (pk env) ((sess c)\<lparr>out_buffer := b\<rparr>);
           c4 = c\<lparr>sess := s, sent := sent c @ [contents b]\<rparr>
       in Some (if rc = SSH_ERROR then (SSH_ERROR, 0, c4)
                else (SSH_OK, unat n, upd_chan a (written (unat n)) c4)))"
proof -
  let ?ty = "if e then 95 else 94 :: byte" and ?i = "remote_channel ch" and ?p = "take (unat n) bs"
  have lp: "length ?p = unat n" using n(2) by simp
  have o': "buffer_ok (out_buffer (sess c))" "contents (out_buffer (sess c)) = []" using o by (simp_all add: out_empty_def)
  have f1: "length (contents (out_buffer (sess c))) + length (message [F_byte ?ty, F_dword ?i]) < 16384"
    using o'(2) by (simp del: be_bytes.simps)
  have a1: "[VA_int (if e then 95 else 94), VA_int ?i] = concat (map field_va [F_byte ?ty, F_dword ?i])" by simp
  from pack_out_ok [OF o'(1) _ _ _ f1 m _ a1, of "''bd''"] o'(2) obtain b1 where
    b1: "pack_out env ''bd'' [VA_int (if e then 95 else 94), VA_int ?i] c = (SSH_OK, with_sess (\<lambda>s. s\<lparr>out_buffer := b1\<rparr>) c)"
      "buffer_ok b1" "contents b1 = ?ty # be_bytes 4 ?i"
    by (simp del: be_bytes.simps) blast
  let ?c1 = "with_sess (\<lambda>s. s\<lparr>out_buffer := b1\<rparr>) c"
  have two: "with_sess (\<lambda>s. s\<lparr>out_buffer := b\<rparr>) (with_sess (\<lambda>s. s\<lparr>out_buffer := b'\<rparr>) c) = with_sess (\<lambda>s. s\<lparr>out_buffer := b\<rparr>) c"
    for b b' by (simp add: with_sess_def)
  have bo1: "buffer_ok (out_buffer (sess ?c1))" using b1(2) by simp
  have f2: "length (contents (out_buffer (sess ?c1))) + length (message [F_dword (1 :: u32)]) < 16384"
    by (simp add: b1(3) del: be_bytes.simps)
  have a2: "[VA_int 1] = concat (map field_va [F_dword 1])" by simp
  from pack_out_ok [OF bo1 _ _ _ f2 m _ a2, of "''d''"] obtain bx where
    bx: "pack_out env ''d'' [VA_int 1] ?c1 = (SSH_OK, with_sess (\<lambda>s. s\<lparr>out_buffer := bx\<rparr>) c)"
      "buffer_ok bx" "contents bx = contents b1 @ be_bytes 4 (1 :: u32)"
    by (simp add: two del: be_bytes.simps) blast
  define c2 where "c2 = (if e then pack_out env ''d'' [VA_int 1] ?c1 else (SSH_OK, ?c1))"
  define b2 where "b2 = (if e then bx else b1)"
  have b2: "c2 = (SSH_OK, with_sess (\<lambda>s. s\<lparr>out_buffer := b2\<rparr>) c)" "buffer_ok b2"
    using bx(1,2) b1(2) by (simp_all add: c2_def b2_def)
  have b23: "contents b2 = (if e then 95 # be_bytes 4 ?i @ be_bytes 4 (1 :: u32) else 94 # be_bytes 4 ?i)"
    unfolding b2_def using bx(3) b1(3) by (cases e) (simp_all del: be_bytes.simps)
  let ?c2 = "with_sess (\<lambda>s. s\<lparr>out_buffer := b2\<rparr>) c"
  have nn: "of_nat (length ?p) = n" using lp by simp
  have "length (contents b2) \<le> 9" unfolding b23 by (cases e) (simp_all del: be_bytes.simps)
  then have fits: "length (contents (out_buffer (sess ?c2))) + length (message [F_dword n, F_data ?p]) < 16384"
    using n(3) lp by (simp del: be_bytes.simps length_take)
  have args: "[VA_int n, VA_size n, VA_data ?p] = concat (map field_va [F_dword n, F_data ?p])"
    using nn by (simp del: length_take)
  have ok2: "buffer_ok (out_buffer (sess ?c2))" using b2(2) by simp
  from pack_out_ok [OF ok2 _ _ _ fits m _ args, of "''dP''"] obtain b3 where
    b3: "pack_out env ''dP'' [VA_int n, VA_size n, VA_data ?p] ?c2 = (SSH_OK, with_sess (\<lambda>s. s\<lparr>out_buffer := b3\<rparr>) c)"
      "buffer_ok b3" "contents b3 = contents b2 @ be_bytes 4 n @ ?p"
    by (simp add: two del: be_bytes.simps length_take) blast
  have msg: "contents b3 = data_message e ?i ?p" using b3(3) nn unfolding b23 by (simp add: data_message_def del: be_bytes.simps length_take)
  have "write_chunk env a e bs c =
      (let (rc, s) = ssh_packet_send (pk env) ((sess c)\<lparr>out_buffer := b3\<rparr>);
           c4 = c\<lparr>sess := s, sent := sent c @ [contents b3]\<rparr>
       in Some (if rc = SSH_ERROR then (SSH_ERROR, 0, c4)
                else (SSH_OK, unat n, upd_chan a (written (unat n)) c4)))"
    unfolding write_chunk_def
    by (simp only: ch Option.bind.simps Let_def n(1) [symmetric] b1(1) prod.case c2_def [symmetric] b2(1) b3(1) send_packet_def
        simp_thms if_False sess_upd)
      (simp add: case_prod_beta with_sess_def written_def [abs_def])
  with b3(2) msg show ?thesis by blast
qed

section \<open>The loop\<close>

function chunks :: "nat \<Rightarrow> byte list \<Rightarrow> byte list list" where
  "chunks m bs = (if bs = [] \<or> m = 0 then [] else take m bs # chunks m (drop m bs))"
  by pat_completeness auto
termination by (relation "measure (\<lambda>(m, bs). length bs)") auto

declare chunks.simps [simp del]

lemma concat_chunks: "0 < m \<Longrightarrow> concat (chunks m bs) = bs"
  by (induction m bs rule: chunks.induct) (subst chunks.simps, auto)

lemma chunks_short: "x \<in> set (chunks m bs) \<Longrightarrow> length x \<le> m"
  by (induction m bs rule: chunks.induct) (subst (asm) (2) chunks.simps, auto split: if_splits)

lemma flush_idle:
  assumes "chan_at c a = Some ch" and "\<not> write_buffered env c"
  shows "ssh_channel_flush env a c = Some (SSH_OK, c)"
  using assms unfolding ssh_channel_flush_def ssh_blocking_flush_def ssh_handle_packets_termination_def Let_def
  by (subst wait_loop.simps) (simp add: ssh_flush_termination_def)

lemma chunk_written:
  assumes ch: "chan_at c a = Some ch" and o: "out_empty c" and m: "mem (pk env)"
    and bs: "bs \<noteq> []" "length bs \<le> unat (remote_window ch)" and mp: "unat (remote_maxpacket ch) \<le> 15900"
    and go: "sends (Suc n) (pk env) (sess c)"
  shows "\<exists>c'. write_chunk env a e bs c = Some (SSH_OK, length (take (unat (remote_maxpacket ch)) bs), c') \<and> out_empty c' \<and> sends n (pk env) (sess c') \<and>
    chan_at c' = (chan_at c)(a \<mapsto> written (length (take (unat (remote_maxpacket ch)) bs)) ch) \<and>
    sent c' = sent c @ [data_message e (remote_channel ch) (take (unat (remote_maxpacket ch)) bs)]"
proof -
  have "length bs < 2 ^ 32" using bs(2) unsigned_less [of "remote_window ch", where ?'a = nat] by simp
  then have l: "unat (of_nat (length bs) :: u32) = length bs" by (simp add: unsigned_of_nat take_bit_nat_eq_self)
  define k where "k = chunk_len ch (of_nat (length bs))"
  have k: "unat k = min (length bs) (unat (remote_maxpacket ch))"
    using bs(2) l by (auto simp: k_def chunk_len_def Let_def min_def word_le_nat_alt word_less_nat_alt)
  have "unat k \<le> length bs" "unat k \<le> 15900" using k mp by simp_all
  from chunk_packed [OF ch o m k_def this, of e] obtain b where b: "buffer_ok b"
      "contents b = data_message e (remote_channel ch) (take (unat k) bs)"
    and w: "write_chunk env a e bs c = (let (rc, s) = ssh_packet_send (pk env) ((sess c)\<lparr>out_buffer := b\<rparr>);
        c4 = c\<lparr>sess := s, sent := sent c @ [contents b]\<rparr>
      in Some (if rc = SSH_ERROR then (SSH_ERROR, 0, c4) else (SSH_OK, unat k, upd_chan a (written (unat k)) c4)))"
    by blast
  have tk: "take (unat k) bs = take (unat (remote_maxpacket ch)) bs" "unat k = length (take (unat (remote_maxpacket ch)) bs)"
    using k by (auto simp: min_def)
  have "contents b \<noteq> []" "hd (contents b) \<noteq> 21" "length (contents b) < 16000"
    using k mp unfolding b(2) data_message_def by (cases e; simp del: be_bytes.simps)+
  with go b(1) obtain s' where s': "ssh_packet_send (pk env) ((sess c)\<lparr>out_buffer := b\<rparr>) = (SSH_OK, s')" "sends n (pk env) s'"
      "buffer_ok (out_buffer s')" "contents (out_buffer s') = []"
    by (simp del: be_bytes.simps) blast
  from w s' b(2) [unfolded tk(1)] ch show ?thesis
    unfolding tk(2) by (simp add: out_empty_def upd_chan_def del: length_take)
qed

lemma write_loop_ok:
  assumes "chan_at c a = Some ch" and "out_empty c" and "mem (pk env)" and "\<forall>c. \<not> write_buffered env c"
    and "length bs \<le> unat (remote_window ch)" and "unat (remote_maxpacket ch) = m" "0 < m" "m \<le> 15900"
    and "sends (length (chunks m bs)) (pk env) (sess c)"
  shows "\<exists>c'. write_loop env a e orig bs c = Some (int orig, c') \<and> out_empty c' \<and>
    chan_at c' = (chan_at c)(a \<mapsto> written (length bs) ch) \<and>
    sent c' = sent c @ map (data_message e (remote_channel ch)) (chunks m bs)"
  using assms
proof (induction m bs arbitrary: c ch rule: chunks.induct)
  case (1 m bs)
  show ?case
  proof (cases "bs = []")
    case True
    have "written 0 ch = ch" by (cases ch) (simp add: written_def count_out_def map_option_idI)
    with True 1 flush_idle [OF 1(2)] show ?thesis
      by (subst write_loop.simps) (simp add: chunks.simps fun_upd_idem)
  next
    case False
    let ?t = "take m bs"
    have cs: "chunks m bs = ?t # chunks m (drop m bs)" using False 1(8) by (subst chunks.simps) simp
    have "sends (Suc (length (chunks m (drop m bs)))) (pk env) (sess c)" using 1(10) unfolding cs by simp
    with chunk_written [OF 1(2,3,4) False 1(6), of "length (chunks m (drop m bs))" e] 1(7,9) obtain c1 where
      c1: "write_chunk env a e bs c = Some (SSH_OK, length ?t, c1)" "out_empty c1" "sends (length (chunks m (drop m bs))) (pk env) (sess c1)"
        "chan_at c1 = (chan_at c)(a \<mapsto> written (length ?t) ch)" "sent c1 = sent c @ [data_message e (remote_channel ch) ?t]"
      by auto
    have dr: "drop (length ?t) bs = drop m bs" by (simp add: min_def)
    have nz: "remote_window ch \<noteq> 0" using False 1(6) by auto
    have w: "write_loop env a e orig bs c = write_loop env a e orig (drop m bs) c1"
      using 1(2) nz False c1(1) dr by (subst write_loop.simps) (simp del: length_take)
    have at: "chan_at c1 a = Some (written (length ?t) ch)" using c1(4) by simp
    have small: "unat (of_nat k :: u32) = k" if "k \<le> unat (remote_window ch)" for k
      using that unsigned_less [of "remote_window ch", where ?'a = nat] by (simp add: unsigned_of_nat take_bit_nat_eq_self)
    have le: "length (drop m bs) \<le> unat (remote_window (written (length ?t) ch))"
      using 1(6) by (simp add: unat_sub word_le_nat_alt small min_def) arith
    have more: "\<not> (bs = [] \<or> m = 0)" "unat (remote_maxpacket (written (length ?t) ch)) = m" using False 1(7,8) by simp_all
    from 1(1) [OF more(1) at c1(2) 1(4,5) le more(2) 1(8,9) c1(3)] obtain c' where
      c': "write_loop env a e orig (drop m bs) c1 = Some (int orig, c')" "out_empty c'"
        "chan_at c' = (chan_at c1)(a \<mapsto> written (length (drop m bs)) (written (length ?t) ch))"
        "sent c' = sent c1 @ map (data_message e (remote_channel (written (length ?t) ch))) (chunks m (drop m bs))"
      by blast
    have "length ?t + length (drop m bs) = length bs" by simp
    with c' w c1(4,5) cs show ?thesis by (simp add: fun_eq_iff del: length_take length_drop)
  qed
qed


section \<open>The packet layer in step\<close>

lemma sends_listening:
  assumes "\<exists>r. listening R s n r" and "dh_handshake_state s = DH_STATE_NEWKEYS_SENT"
    and works: "mem env" "macs_work env" "random_works env" "\<And>t. sock_ok env t"
  shows "sends n env s"
  using assms(1,2)
proof (induction n arbitrary: s)
  case (Suc n)
  from Suc.prems(1) obtain r where r: "in_step R s r" "waiting r" "unat (recv_seq r) + Suc n < 2 ^ 32 - 1" by (auto simp: listening_def)
  show ?case
  proof (simp only: sends.simps, intro allI impI)
    fix b assume b: "buffer_ok b" "contents b \<noteq> []" "hd (contents b) \<noteq> 21" "length (contents b) < 16000"
    let ?s = "s\<lparr>out_buffer := b\<rparr>"
    have step: "in_step R ?s r" using r(1) by (simp add: in_step_def)
    have "unat (pad_of ?s (contents b)) \<le> 67" "\<not> compresses ?s" using in_step_pad [OF step] by simp_all
    then have "sendable env ?s (contents b)" using b works(1) by (simp add: sendable_def)
    from packet_delivered [OF step this b(3,4) works(2-4) r(2)] obtain t w where
      t: "packet_send2 env ?s = (SSH_OK, t)" "length w < 16384" "dh_handshake_state t = dh_handshake_state ?s"
        "buffer_ok (out_buffer t)" "contents (out_buffer t) = []"
      and rd: "\<forall>rest. length (w @ rest) < 2 ^ 32 \<longrightarrow> (\<exists>u b'. receive env (recv_params r) r (Some (w @ rest)) = Go (of_nat (length w)) u \<and>
          in_buffer u = Some b' \<and> buffer_ok b' \<and> contents b' = contents b \<and>
          recv_seq u = recv_seq r + 1 \<and> session_state u = session_state r \<and> in_step R t u)"
      unfolding delivered_def by blast
    from rd t(2) obtain u b' where u: "in_buffer u = Some b'" "buffer_ok b'" "recv_seq u = recv_seq r + 1"
        "session_state u = session_state r" "in_step R t u"
      by (auto dest!: spec [where x = "[]"])
    have "unat (recv_seq r + 1) = Suc (unat (recv_seq r))" using r(3) by (subst unat_add_no_wrap) auto
    then have "unat (recv_seq u) + n < 2 ^ 32 - 1" "recv_seq u \<noteq> 0xFFFFFFFF" using r(3) u(3) by (auto dest: arg_cong [where f = unat])
    with u r(2) have "listening R t n (u\<lparr>packet_state := PACKET_STATE_INIT\<rparr>)" by (auto simp: listening_def waiting_def in_step_upd)
    from Suc.IH [OF exI, OF this] t(3) Suc.prems(2) have "sends n env t" by simp
    moreover have "ssh_packet_send env ?s = (SSH_OK, t)"
    proof -
      have h: "hd (ssh_buffer_get b) \<noteq> 21" using hd_contents [of b] b(2,3) by simp
      have "0 < unat (ssh_buffer_get_len b)" using get_contents(2) [OF b(1)] b(2) by simp
      then have "\<not> ssh_buffer_get_len b < 1" by (simp add: word_less_nat_alt)
      then show ?thesis using no_rekey [of ?s] Suc.prems(2) h t(1) by (simp add: ssh_packet_send_def Let_def ssh_packet_in_rekey_def)
    qed
    ultimately show "\<exists>s'. ssh_packet_send env ?s = (SSH_OK, s') \<and> sends n env s' \<and> buffer_ok (out_buffer s') \<and> contents (out_buffer s') = []"
      using t(4,5) by blast
  qed
qed simp

section \<open>Evaluation\<close>

lemma current_handshake:
  "ssh_packet_get_current_crypto (Some (s\<lparr>dh_handshake_state := h\<rparr>)) d = ssh_packet_get_current_crypto (Some s) d"
  by (simp add: ssh_packet_get_current_crypto_def)


end
