(* ===== verification/Channel_Safety.thy ===== *)
theory Channel_Safety
  imports Channel_Write
begin

unbundle bit_operations_syntax

text \<open>
  What the channels promise together with the packet layer and the session: data cross from one end
  to the other, waits end, windows are backed by buffers, and a channel is released once.
\<close>

section \<open>From one end to the other\<close>

text \<open>The packet layer sends the next packet itself, without a key exchange first.\<close>

definition free_to_send :: "'k packet_env \<Rightarrow> 'k ssh_session \<Rightarrow> bool" where
  "free_to_send env s \<longleftrightarrow> \<not> ssh_packet_in_rekey s \<and>
     (\<forall>b. \<not> ssh_packet_need_rekey (elapsed env) (s\<lparr>out_buffer := b\<rparr>) (ssh_buffer_get_len b))"

lemma send_at_once:
  assumes "free_to_send env s" and b: "buffer_ok b" "contents b \<noteq> []" "hd (contents b) \<noteq> 21"
    and "packet_send2 env (s\<lparr>out_buffer := b\<rparr>) = (SSH_OK, t)"
  shows "ssh_packet_send env (s\<lparr>out_buffer := b\<rparr>) = (SSH_OK, t)"
proof -
  have "hd (ssh_buffer_get b) \<noteq> 21" using hd_contents [of b] b(2,3) by simp
  moreover have "0 < unat (ssh_buffer_get_len b)" using get_contents(2) [OF b(1)] b(2) by simp
  then have "\<not> ssh_buffer_get_len b < 1" by (simp add: word_less_nat_alt)
  moreover have "\<not> ssh_packet_in_rekey (s\<lparr>out_buffer := b\<rparr>)"
    using assms(1) by (simp add: free_to_send_def ssh_packet_in_rekey_def)
  ultimately show ?thesis using assms(1,5) by (simp add: ssh_packet_send_def Let_def free_to_send_def)
qed

lemma parse_type_ok:
  assumes "in_buffer u = Some b" and "buffer_ok b" and "contents b = t # rest"
  shows "\<exists>s. ssh_packet_parse_type u = (SSH_OK, s) \<and> ptype (in_packet s) = t \<and> handling rest (d\<lparr>sess := s\<rparr>)"
proof -
  have "unat (1 :: u32) \<le> length (contents b)" using assms(3) by simp
  with get_data_ok [OF assms(2), of 1] obtain b' where
    "ssh_buffer_get_data 1 b = ((1, take (unat (1 :: u32)) (contents b)), b')" "buffer_ok b'" "contents b' = drop (unat (1 :: u32)) (contents b)"
    by auto
  with assms show ?thesis
    by (simp add: ssh_packet_parse_type_def Let_def ssh_buffer_get_u8_def handling_def host_word_def be_word_def)
qed

text \<open>
  C21: Data written at one end arrive at the other. Two ends whose packet layers are in step, a
  channel that each knows by the other's number, and a window the receiver has granted: one message
  of a write, read off the wire and handled, puts exactly the bytes it took from the writer at the
  end of the receiver's buffer, and both sides' idea of the window shrinks by their number.
\<close>

theorem chunk_crosses:
  assumes send: "chan_at c a = Some ch" "out_empty c" "free_to_send (pk env) (sess c)"
    and chunk: "n = chunk_len ch (of_nat (length bs))" "unat n \<le> length bs" "unat n \<le> 15900"
    and step: "in_step R (sess c) r" "waiting r"
    and works: "mem (pk env)" "macs_work (pk env)" "random_works (pk env)" "\<And>t. sock_ok (pk env) t"
    and recv: "ssh_channel_from_local d (remote_channel ch) = Some (Some j)" "chan_at d j = Some peer" "chan_ok peer"
      "chan_callbacks peer = None" "stdout_buffer peer = Some b"
    and granted: "remote_window ch \<le> local_window peer"
  shows "\<exists>c' w u s d' b'. write_chunk env a False bs c = Some (SSH_OK, unat n, c') \<and> wire (sess c') = wire (sess c) @ [w] \<and>
    receive (pk env) (recv_params r) r (Some w) = Go (of_nat (length w)) u \<and>
    ssh_packet_parse_type u = (SSH_OK, s) \<and> ptype (in_packet s) = 94 \<and>
    channel_rcv_data env 94 (d\<lparr>sess := s\<rparr>) = Some (1, d') \<and> buffer_ok b' \<and> contents b' = contents b @ take (unat n) bs \<and>
    chan_at d' = (chan_at d)(j \<mapsto> with_data False b' (unat n) peer) \<and>
    map_option remote_window (chan_at c' a) = Some (remote_window ch - n) \<and>
    remote_window ch - n \<le> local_window (with_data False b' (unat n) peer)"
proof -
  let ?p = "take (unat n) bs" and ?i = "remote_channel ch"
  have lp: "length ?p = unat n" using chunk(2) by simp
  from chunk_packed [OF send(1,2) works(1) chunk, of False] obtain q where q: "buffer_ok q" "contents q = data_message False ?i ?p"
    and w: "write_chunk env a False bs c = (let (rc, s) = ssh_packet_send (pk env) ((sess c)\<lparr>out_buffer := q\<rparr>);
        c4 = c\<lparr>sess := s, sent := sent c @ [contents q]\<rparr>
      in Some (if rc = SSH_ERROR then (SSH_ERROR, 0, c4) else (SSH_OK, unat n, upd_chan a (written (unat n)) c4)))"
    by blast
  have msg: "contents q = 94 # be_bytes 4 ?i @ be_bytes 4 (of_nat (length ?p) :: u32) @ ?p"
    by (simp add: q(2) data_message_def del: be_bytes.simps length_take)
  have len: "length (contents q) < 16000" using chunk(3) lp by (simp add: msg del: be_bytes.simps length_take)
  have head: "contents q \<noteq> []" "hd (contents q) \<noteq> 21" by (simp_all add: msg)
  let ?s = "(sess c)\<lparr>out_buffer := q\<rparr>"
  have in_step: "in_step R ?s r" using step(1) by (simp add: in_step_def)
  have "unat (pad_of ?s (contents q)) \<le> 67" "\<not> compresses ?s" using in_step_pad [OF in_step] by simp_all
  then have "sendable (pk env) ?s (contents q)" using q(1) head(1) len works(1) by (simp add: sendable_def)
  from packet_delivered [OF in_step this head(2) len works(2-4) step(2)] obtain t x where
    t: "packet_send2 (pk env) ?s = (SSH_OK, t)" "wire t = wire (sess c) @ [x]" "length x < 16384"
    and rd: "\<forall>rest. length (x @ rest) < 2 ^ 32 \<longrightarrow> (\<exists>u b'. receive (pk env) (recv_params r) r (Some (x @ rest)) = Go (of_nat (length x)) u \<and>
        in_buffer u = Some b' \<and> buffer_ok b' \<and> contents b' = contents q \<and>
        recv_seq u = recv_seq r + 1 \<and> session_state u = session_state r \<and> in_step R t u)"
    unfolding delivered_def by auto
  from rd [rule_format, of "[]"] t(3) obtain u b1 where
    u: "receive (pk env) (recv_params r) r (Some x) = Go (of_nat (length x)) u" "in_buffer u = Some b1" "buffer_ok b1" "contents b1 = contents q"
    by auto
  note sent = send_at_once [OF send(3) q(1) head t(1)]
  from parse_type_ok [OF u(2,3) u(4) [unfolded msg], of d] obtain s where
    s: "ssh_packet_parse_type u = (SSH_OK, s)" "ptype (in_packet s) = 94"
      "handling (be_bytes 4 ?i @ be_bytes 4 (of_nat (length ?p) :: u32) @ ?p) (d\<lparr>sess := s\<rparr>)" by blast
  have room: "unat n \<le> unat (local_window peer)"
    using granted chunk(1) by (auto simp: chunk_len_def Let_def min_def word_le_nat_alt word_less_nat_alt split: if_splits)
  have at: "ssh_channel_from_local (d\<lparr>sess := s\<rparr>) ?i = Some (Some j)" "chan_at (d\<lparr>sess := s\<rparr>) j = Some peer"
    using recv(1,2) by (simp_all add: ssh_channel_from_local_def)
  have small: "length ?p < 16384" using lp chunk(3) by simp
  from rcv_data_keeps_list [OF s(3) small at recv(3-5) works(1)] room obtain d' b' where
    d': "channel_rcv_data env 94 (d\<lparr>sess := s\<rparr>) = Some (1, d')" "buffer_ok b'" "contents b' = contents b @ ?p"
      "chan_at d' = (chan_at d)(j \<mapsto> with_data False b' (unat n) peer)"
    by (auto simp: lp simp del: length_take)
  let ?c' = "upd_chan a (written (unat n)) (c\<lparr>sess := t, sent := sent c @ [contents q]\<rparr>)"
  have "write_chunk env a False bs c = Some (SSH_OK, unat n, ?c')" using w sent by simp
  moreover have "wire (sess ?c') = wire (sess c) @ [x]" using t(2) by simp
  moreover have "map_option remote_window (chan_at ?c' a) = Some (remote_window ch - n)" using send(1) by (simp add: upd_chan_def)
  moreover have "remote_window ch - n \<le> local_window (with_data False b' (unat n) peer)"
  proof -
    have "n \<le> remote_window ch" by (auto simp: chunk(1) chunk_len_def Let_def min_def)
    moreover have "n \<le> local_window peer" using room by (simp add: word_le_nat_alt)
    ultimately show ?thesis using granted by (simp add: with_data_def set_std_def word_le_nat_alt unat_sub)
  qed
  ultimately show ?thesis using u(1) s d' by blast
qed

section \<open>Windows\<close>


section \<open>Waiting\<close>

lemma wait_loop_ends:
  assumes fct: "\<And>c. P c \<Longrightarrow> fct c \<noteq> None"
    and round: "\<And>n tm c. P c \<Longrightarrow> \<exists>rc c1. poll_round env n tm (c\<lparr>rounds := Suc (rounds c)\<rparr>) = Some (rc, c1) \<and> P c1 \<and> Suc (rounds c) \<le> rounds c1"
    and late: "\<And>m. n \<le> m \<Longrightarrow> ts + limit \<le> clock env m" and limit: "0 \<le> limit"
  shows "P c \<Longrightarrow> \<exists>r. wait_loop env fct ts limit tm ret c = Some r"
proof (induction "n - rounds c" arbitrary: c tm ret rule: less_induct)
  case less
  from fct [OF less.prems] obtain x where x: "fct c = Some x" by blast
  show ?case
  proof (cases x)
    case True
    with x show ?thesis by (subst wait_loop.simps) simp
  next
    case False
    show ?thesis
    proof (cases "pollable env c")
      case True
      define tmo where "tmo = (if tm = SSH_TIMEOUT_USER then
          (if ssh_is_blocking c then ssh_make_milliseconds (opts_timeout c) (opts_timeout_usec c) else 0) else tm)"
      from round [OF less.prems] obtain rc c1 where
        p: "poll_round env (rounds c) tmo (c\<lparr>rounds := Suc (rounds c)\<rparr>) = Some (rc, c1)" "P c1" "Suc (rounds c) \<le> rounds c1" by blast
      show ?thesis
      proof (cases "rc = SSH_ERROR")
        case True
        with x \<open>\<not> x\<close> \<open>pollable env c\<close> p(1) show ?thesis
          by (subst wait_loop.simps) (simp add: ssh_handle_packets_def tmo_def)
      next
        case False
        then have h: "ssh_handle_packets env tm c = Some (rc, c1)"
          using \<open>pollable env c\<close> p(1) by (simp add: ssh_handle_packets_def tmo_def)
        from fct [OF p(2)] obtain y where y: "fct c1 = Some y" by blast
        show ?thesis
        proof (cases "ssh_timeout_elapsed (clock env (rounds c1)) ts limit")
          case True
          with x \<open>\<not> x\<close> h y False show ?thesis by (subst wait_loop.simps) simp
        next
          case late': False
          with late [of "rounds c1"] limit have "\<not> n \<le> rounds c1" by (auto simp: ssh_timeout_elapsed_def split: if_splits)
          with p(3) have "n - rounds c1 < n - rounds c" by simp
          from less.hyps [OF this p(2)] x \<open>\<not> x\<close> h False late' show ?thesis by (subst wait_loop.simps) simp
        qed
      qed
    qed (use x False in \<open>subst wait_loop.simps, simp add: ssh_handle_packets_def\<close>)
  qed
qed

text \<open>
  C25: Waiting with a time limit ends. When the condition can be asked of every session the rounds
  lead to, every round of polling comes back, and the clock goes on, then
  \<open>ssh_handle_packets_termination\<close> returns; and unless it reports an error or that the time is
  up, the condition holds.
\<close>

theorem wait_ends:
  assumes "0 \<le> wait_timeout timeout c" and "P c"
    and "\<And>c. P c \<Longrightarrow> fct c \<noteq> None"
    and "\<And>n tm c. P c \<Longrightarrow> \<exists>rc c1. poll_round env n tm (c\<lparr>rounds := Suc (rounds c)\<rparr>) = Some (rc, c1) \<and> P c1 \<and> Suc (rounds c) \<le> rounds c1"
    and "\<And>k. \<exists>n. \<forall>m\<ge>n. k \<le> clock env m"
  shows "\<exists>rc c'. ssh_handle_packets_termination env timeout fct c = Some (rc, c') \<and>
    (rc = SSH_ERROR \<or> rc = SSH_AGAIN \<or> fct c' = Some True)"
proof -
  let ?ts = "clock env (rounds c)" and ?l = "wait_timeout timeout c"
  from assms(5) [of "?ts + ?l"] obtain n where "\<And>m. n \<le> m \<Longrightarrow> ?ts + ?l \<le> clock env m" by blast
  from wait_loop_ends [of P, OF assms(3,4) this assms(1,2)] obtain rc c' where
    r: "ssh_handle_packets_termination env timeout fct c = Some (rc, c')"
    by (fastforce simp: ssh_handle_packets_termination_def Let_def)
  with wait_done [OF r] show ?thesis by blast
qed

section \<open>Release\<close>

lemma find_local_free:
  assumes "find_local h i l = Some (Some a)" and "h a = Some ch" and "local_channel ch' = local_channel ch"
  shows "find_local (h(a \<mapsto> ch')) i l = Some (Some a)"
  using find_local_upd [OF assms] .

lemma rcv_close_ok:
  assumes h: "buffer_ok b" "contents b = be_bytes 4 i" and l: "ssh_channel_from_local c i = Some (Some a)"
    and ch: "chan_at c a = Some ch" "chan_callbacks ch = None"
  shows "\<exists>c'. channel_rcv_close env (with_sess (\<lambda>s. s\<lparr>in_buffer := Some b\<rparr>) c) = Some (1, c') \<and>
    (if chan_flags ch AND SSH_CHANNEL_FLAG_FREED_LOCAL \<noteq> 0
     then channels c' = map_option (remove1 a) (channels c) \<and> chan_at c' = (chan_at c)(a := None)
     else channels c' = channels c \<and>
       chan_at c' = (chan_at c)(a \<mapsto> (if \<not> ssh_channel_has_unread_data ch then ch\<lparr>chan_state := SSH_CHANNEL_STATE_CLOSED\<rparr>
           else ch\<lparr>delayed_close := True\<rparr>)\<lparr>remote_eof := True, chan_flags := chan_flags ch OR SSH_CHANNEL_FLAG_CLOSED_REMOTE\<rparr>))"
proof -
  let ?c = "with_sess (\<lambda>s. s\<lparr>in_buffer := Some b\<rparr>) c"
  have "handling (be_bytes 4 i @ []) ?c" using h by (simp add: handling_def with_sess_def)
  moreover have "ssh_channel_from_local ?c i = Some (Some a)" using l by (simp add: ssh_channel_from_local_def with_sess_def)
  ultimately obtain c1 where c1: "channel_from_msg env ?c = Some (Some a, c1)" "chan_at c1 = chan_at ?c" "channels c1 = channels ?c"
    using channel_from_msg_ok [of i "[]" ?c "Some a" env] by blast
  with ch show ?thesis
    by (auto simp: channel_rcv_close_def Let_def notify_def with_sess_def ssh_channel_do_free_def upd_chan_def)
qed

text \<open>
  C30: A closed channel is released once, by whichever comes second. For a channel that this side
  has closed, the user's \<open>ssh_channel_free\<close> and the peer's close message give the same heap and
  the same list of channels in either order; after the first of them the channel is still there, and
  after both its memory is gone, so that freeing it again touches freed memory.
\<close>

theorem released_by_the_second:
  assumes "ssh_channel_from_local c i = Some (Some a)" and "chan_at c a = Some ch"
    and "chan_state ch = SSH_CHANNEL_STATE_CLOSED" "chan_flags ch = SSH_CHANNEL_FLAG_CLOSED_LOCAL" "chan_callbacks ch = None"
    and "buffer_ok b" "contents b = be_bytes 4 i"
  shows "\<exists>c1 c2 d1 d2. ssh_channel_free env (Some a) c = Some c1 \<and> chan_at c1 a \<noteq> None \<and>
    channel_rcv_close env (with_sess (\<lambda>s. s\<lparr>in_buffer := Some b\<rparr>) c1) = Some (1, c2) \<and>
    channel_rcv_close env (with_sess (\<lambda>s. s\<lparr>in_buffer := Some b\<rparr>) c) = Some (1, d1) \<and> chan_at d1 a \<noteq> None \<and>
    ssh_channel_free env (Some a) d1 = Some d2 \<and>
    chan_at c2 = (chan_at c)(a := None) \<and> chan_at d2 = (chan_at c)(a := None) \<and>
    channels c2 = map_option (remove1 a) (channels c) \<and> channels d2 = channels c2 \<and>
    ssh_channel_free env (Some a) c2 = None"
proof -
  let ?fr = "ch\<lparr>chan_flags := 6, chan_callbacks := None\<rparr>"
  have free1: "ssh_channel_free env (Some a) c = Some (upd_chan a (\<lambda>_. ?fr) c)"
    using assms(2-4) by (simp add: ssh_channel_free_def)
  have l1: "ssh_channel_from_local (upd_chan a (\<lambda>_. ?fr) c) i = Some (Some a)"
    using assms(1,2) find_local_upd [of "chan_at c" i _ a ch ?fr] by (simp add: ssh_channel_from_local_def upd_chan_def)
  from rcv_close_ok [OF assms(6,7) l1, of ?fr env] assms(2) obtain c2 where
    c2: "channel_rcv_close env (with_sess (\<lambda>s. s\<lparr>in_buffer := Some b\<rparr>) (upd_chan a (\<lambda>_. ?fr) c)) = Some (1, c2)"
      "channels c2 = map_option (remove1 a) (channels c)" "chan_at c2 = (chan_at c)(a := None)"
    by (auto simp: upd_chan_def)
  define cl where "cl = (if \<not> ssh_channel_has_unread_data ch then ch\<lparr>chan_state := SSH_CHANNEL_STATE_CLOSED\<rparr>
      else ch\<lparr>delayed_close := True\<rparr>)\<lparr>remote_eof := True, chan_flags := chan_flags ch OR SSH_CHANNEL_FLAG_CLOSED_REMOTE\<rparr>"
  from rcv_close_ok [OF assms(6,7,1,2,5), of env] assms(4) obtain d1 where
    d1: "channel_rcv_close env (with_sess (\<lambda>s. s\<lparr>in_buffer := Some b\<rparr>) c) = Some (1, d1)"
      "channels d1 = channels c" "chan_at d1 = (chan_at c)(a \<mapsto> cl)"
    by (auto simp: cl_def)
  have cl: "chan_state cl = SSH_CHANNEL_STATE_CLOSED" "chan_flags cl = 3" using assms(3,4) by (simp_all add: cl_def)
  then have "\<exists>d2. ssh_channel_free env (Some a) d1 = Some d2 \<and> chan_at d2 = (chan_at c)(a := None) \<and>
      channels d2 = map_option (remove1 a) (channels c)"
    using d1(2,3) by (simp add: ssh_channel_free_def ssh_channel_do_free_def upd_chan_def)
  with free1 c2 d1 assms(2) show ?thesis by (auto simp: ssh_channel_free_def)
qed

section \<open>Reading into a buffer\<close>

lemma reserve_all:
  assumes ok: "buffer_ok b" and n: "unat n < 16384"
  shows "\<exists>b'. ssh_buffer_allocate True n (snd (ssh_buffer_reinit True b)) = (Some 0, b') \<and> pos b' = 0 \<and> used b' = n \<and> unat n \<le> length (data b')"
proof -
  define b1 where "b1 = (if secure b \<and> 0 < allocated b then b\<lparr>data := replicate (unat (allocated b)) 0\<rparr> else b)\<lparr>used := 0, pos := 0\<rparr>"
  have b1: "buffer_ok b1" "used b1 = 0" "pos b1 = 0" "contents b1 = []" using ok by (auto simp: b1_def buffer_ok_def contents_def)
  have "\<not> 65536 < allocated b" using ok by (auto simp: buffer_ok_def word_less_nat_alt)
  then have r: "snd (ssh_buffer_reinit True b) = b1" by (simp add: ssh_buffer_reinit_def b1_def Let_def)
  have nw: "\<not> used b1 + n < n" using b1(2) by simp
  from make_room_fits [OF b1(1), of n] n b1(4) obtain b2 where m: "make_room True n b1 = Inr b2" by auto
  from make_room_ok [OF b1(1) nw, of True] m have b2: "buffer_ok b2" "unat (used b2) + unat n \<le> unat (allocated b2)" by simp_all
  have z: "used b2 = 0" "pos b2 = 0"
    using m b1(2,3) by (auto simp: make_room_def realloc_buffer_def Let_def split: if_splits option.splits)
  have "length (data b2) = unat (allocated b2)" using b2(1) by (simp add: buffer_ok_def)
  then show ?thesis
    using r m nw z b2(2) by (simp add: ssh_buffer_allocate_def)
qed

lemma write_at_start: "length xs \<le> length d \<Longrightarrow> write_at 0 xs d = xs @ drop (length xs) d"
  by (simp add: write_at_def)

text \<open>
  C31: \<open>channel_read_buffer\<close> overwrites what it has read. When the bytes asked for come in two
  reads, the count that is returned is that of both, but the second read is stored where the first
  one was: the buffer holds the second read, and of the first only what sticks out beyond it.
\<close>

theorem second_read_overwrites:
  assumes "ssh_channel_read env (Some a) True n e c = Some (int (length xs), xs, c1)" and "xs \<noteq> []"
    and "ssh_channel_read env (Some a) True (n - of_nat (length xs)) e c1 = Some (int (length ys), ys, c2)" and "ys \<noteq> []"
    and "unat n = length xs + length ys" and "buffer_ok b" "mem (pk env)" and "unat n < 16384"
  shows "\<exists>b'. channel_read_buffer env (Some a) (Some b) n e c = Some (int (unat n), Some b', c2) \<and>
    length (contents b') = unat n \<and> take (max (length xs) (length ys)) (contents b') = ys @ drop (length ys) xs"
proof -
  from reserve_all [OF assms(6,8)] obtain b1 where b1:
    "ssh_buffer_allocate True n (snd (ssh_buffer_reinit True b)) = (Some 0, b1)" "pos b1 = 0" "used b1 = n" "unat n \<le> length (data b1)"
    by blast
  let ?b' = "store_at 0 ys (store_at 0 xs b1)"
  have nz: "n \<noteq> 0" using assms(2,5) by auto
  have nx: "of_nat (length xs) \<noteq> n" "\<not> n \<le> of_nat (length xs)" "n - of_nat (length xs) \<noteq> 0"
    "of_nat (length xs) + of_nat (length ys) = n"
  proof -
    have u: "unat (of_nat (length xs) :: u32) = length xs" using assms(5,8) by (simp add: unsigned_of_nat take_bit_nat_eq_self)
    show "\<not> n \<le> of_nat (length xs)" using u assms(4,5) by (simp add: word_le_nat_alt)
    then show "of_nat (length xs) \<noteq> n" "n - of_nat (length xs) \<noteq> 0" by auto
    have "of_nat (unat n) = n" by simp
    then show "of_nat (length xs) + of_nat (length ys) = n" by (simp add: assms(5))
  qed
  from assms(8) have "int (unat n) < 16384" by (simp only: of_nat_less_numeral_iff)
  then have "uint n < 2 ^ 31" by simp
  then have "signed_take_bit 31 (uint n) = uint n" by (intro signed_take_bit_int_eq_self) (auto intro: order_trans [of _ 0])
  then have sn: "sint n = int (unat n)" by (simp add: sint_uint)
  have pos: "\<not> int (length xs) < 0" "int (length xs) \<noteq> 0" "\<not> int (length ys) < 0" "int (length ys) \<noteq> 0" using assms(2,4) by auto
  have "read_full env a e n 0 0 b1 c = Some (sint n, ?b', c2)"
    apply (subst read_full.simps)
    using nz nx pos assms(1,3)
    apply simp
    apply (subst read_full.simps)
    apply (simp add: Let_def)
    apply (subst read_full.simps)
    apply simp
    done
  then have "channel_read_buffer env (Some a) (Some b) n e c = Some (int (unat n), Some ?b', c2)"
    using b1(1) nz assms(7) by (simp add: channel_read_buffer_def sn)
  moreover have "contents ?b' = take (unat n) (ys @ drop (length ys) (xs @ drop (length xs) (data b1)))"
    using b1(2-4) assms(5) by (simp add: contents_def store_at_def write_at_start)
  ultimately show ?thesis using assms(5) b1(4) by (auto simp: min_def max_def)
qed

section \<open>Evaluation\<close>

lemma demo_free_to_send: "free_to_send demo_packet_env demo_sess"
  by (simp add: free_to_send_def ssh_packet_in_rekey_def ssh_packet_need_rekey_def demo_keyed_def demo_session_def
      ssh_packet_get_current_crypto_def demo_keys_def demo_crypto_def demo_cipher_def Let_def)

theorem chunk_crosses_witness:
  "\<exists>c' w u s d'. write_chunk demo_env 5 False [104, 105] (demo_conn demo_sess (demo_channel [])) = Some (SSH_OK, 2, c') \<and>
    wire (sess c') = [w] \<and> receive demo_packet_env (recv_params demo_keyed) demo_keyed (Some w) = Go (of_nat (length w)) u \<and>
    ssh_packet_parse_type u = (SSH_OK, s) \<and>
    channel_rcv_data demo_env 94 (demo_conn demo_keyed (demo_channel [120])\<lparr>sess := s\<rparr>) = Some (1, d') \<and>
    map_option (\<lambda>ch. map_option contents (stdout_buffer ch)) (chan_at d' 5) = Some (Some [120, 104, 105])"
proof -
  let ?c = "demo_conn demo_sess (demo_channel [])" and ?d = "demo_conn demo_keyed (demo_channel [120])"
  have a: "chan_at ?c 5 = Some (demo_channel [])" "out_empty ?c" "free_to_send (pk demo_env) (sess ?c)"
    using empty_ok demo_free_to_send by (simp_all add: out_empty_def)
  have n: "2 = chunk_len (demo_channel []) (of_nat (length [104, 105 :: byte]))" "unat (2 :: u32) \<le> length [104, 105 :: byte]" "unat (2 :: u32) \<le> 15900"
    by (simp_all add: chunk_len_def Let_def)
  have st: "in_step (\<lambda>_ _. True) (sess ?c) demo_keyed" using demo_sess_step by simp
  have w: "mem (pk demo_env)" "macs_work (pk demo_env)" "random_works (pk demo_env)" "\<And>t. sock_ok (pk demo_env) t"
    using demo_env_works by simp_all
  have r: "ssh_channel_from_local ?d (remote_channel (demo_channel [])) = Some (Some 5)" "chan_at ?d 5 = Some (demo_channel [120])"
    "chan_ok (demo_channel [120])" "chan_callbacks (demo_channel [120]) = None" "stdout_buffer (demo_channel [120]) = Some (demo_buf [120])"
    using demo_chan_ok [of "[120]"] by (simp_all add: demo_from_local)
  have g: "remote_window (demo_channel []) \<le> local_window (demo_channel [120])" by simp
  have b: "contents (demo_buf [120]) = [120]" using demo_buf_ok [of "[120]"] by simp
  have wire: "wire demo_sess = []" by (simp add: demo_fields)
  from chunk_crosses [OF a n st demo_waiting w r g] obtain c' w u s d' b' where
    x: "write_chunk demo_env 5 False [104, 105] ?c = Some (SSH_OK, unat (2 :: u32), c')" "wire (sess c') = wire (sess ?c) @ [w]"
      "receive (pk demo_env) (recv_params demo_keyed) demo_keyed (Some w) = Go (of_nat (length w)) u"
      "ssh_packet_parse_type u = (SSH_OK, s)" "channel_rcv_data demo_env 94 (?d\<lparr>sess := s\<rparr>) = Some (1, d')"
      "contents b' = contents (demo_buf [120]) @ take (unat (2 :: u32)) [104, 105]"
      "chan_at d' = (chan_at ?d)(5 \<mapsto> with_data False b' (unat (2 :: u32)) (demo_channel [120]))"
    by blast
  have "write_chunk demo_env 5 False [104, 105] ?c = Some (SSH_OK, 2, c')" "wire (sess c') = [w]"
    "receive demo_packet_env (recv_params demo_keyed) demo_keyed (Some w) = Go (of_nat (length w)) u"
    using x(1-3) wire by simp_all
  moreover have "map_option (\<lambda>ch. map_option contents (stdout_buffer ch)) (chan_at d' 5) = Some (Some [120, 104, 105])"
    using x(6,7) b by (simp add: with_data_def set_std_def)
  ultimately show ?thesis using x(4,5) by blast
qed


theorem wait_ends_witness:
  "\<exists>rc c'. ssh_handle_packets_termination demo_env 50 (\<lambda>_. Some False) (demo_conn demo_sess (demo_channel [])) = Some (rc, c') \<and>
    (rc = SSH_ERROR \<or> rc = SSH_AGAIN)"
proof -
  let ?c = "demo_conn demo_sess (demo_channel [])"
  have t: "0 \<le> wait_timeout 50 ?c" by (simp add: wait_timeout_def)
  have r: "\<exists>rc c1. poll_round demo_env n tm (c\<lparr>rounds := Suc (rounds c)\<rparr>) = Some (rc, c1) \<and> True \<and> Suc (rounds c) \<le> rounds c1"
    for n tm c by simp
  have k: "\<exists>n. \<forall>m\<ge>n. k \<le> clock demo_env m" for k
    by (rule exI [of _ "nat k"]) auto
  from wait_ends [of 50 ?c "\<lambda>_. True" "\<lambda>_. Some False" demo_env, OF t TrueI _ r k] show ?thesis by auto
qed

theorem released_by_the_second_witness:
  "\<exists>c1 c2. ssh_channel_free demo_env (Some 5) (demo_conn demo_sess ((demo_channel [])\<lparr>chan_state := SSH_CHANNEL_STATE_CLOSED, chan_flags := 2\<rparr>)) = Some c1 \<and>
    chan_at c1 5 \<noteq> None \<and> channel_rcv_close demo_env (with_sess (\<lambda>s. s\<lparr>in_buffer := Some (demo_buf [0, 0, 0, 1])\<rparr>) c1) = Some (1, c2) \<and>
    chan_at c2 5 = None \<and> channels c2 = Some []"
proof -
  let ?ch = "(demo_channel [])\<lparr>chan_state := SSH_CHANNEL_STATE_CLOSED, chan_flags := 2\<rparr>" and ?b = "demo_buf [0, 0, 0, 1]"
  let ?c = "demo_conn demo_sess ?ch"
  have 1: "ssh_channel_from_local ?c 1 = Some (Some 5)" by (simp add: ssh_channel_from_local_def)
  have 2: "chan_at ?c 5 = Some ?ch" "chan_state ?ch = SSH_CHANNEL_STATE_CLOSED" "chan_flags ?ch = 2" "chan_callbacks ?ch = None" by simp_all
  have "be_bytes 4 (1 :: u32) = [0, 0, 0, 1]" by code_simp
  then have 3: "buffer_ok ?b" "contents ?b = be_bytes 4 (1 :: u32)" using demo_buf_ok [of "[0, 0, 0, 1]"] by simp_all
  from released_by_the_second [OF 1 2 3, of demo_env] show ?thesis by auto
qed

text \<open>Each round of polling brings one byte, 9.\<close>

abbreviation (input) brings_nine :: "unit conn_env" where
  "brings_nine \<equiv> demo_conn_env (\<lambda>_ _ c. Some (SSH_OK, upd_chan 5 (\<lambda>ch. ch\<lparr>stdout_buffer := Some (demo_buf [9])\<rparr>) c))"

lemma demo_take:
  assumes "chan_at c 5 = Some (demo_channel [1, 2])"
  shows "\<exists>c1. take_data env 5 3 False c = Some (2, [1, 2], c1) \<and> sess c1 = sess c \<and>
    chan_at c1 5 = Some ((demo_channel [1, 2])\<lparr>stdout_buffer := Some ((demo_buf [1, 2])\<lparr>used := 0\<rparr>)\<rparr>)"
  using assms
  by (simp add: take_data_def Let_def std_buf_def set_std_def count_in_def ssh_buffer_pass_bytes_def ssh_buffer_get_len_def
      demo_buf_def ssh_buffer_get_def grow_window_def window_increment_def buffer_len_def WINDOW_DEFAULT_def upd_chan_def empty_buffer_def
      demo_channel_def)

lemma demo_take_nine:
  assumes "chan_at c 5 = Some ((demo_channel [1, 2])\<lparr>stdout_buffer := Some (demo_buf [9])\<rparr>)"
  shows "\<exists>c1. take_data env 5 1 False c = Some (1, [9], c1)"
  using assms
  by (simp add: take_data_def Let_def std_buf_def set_std_def count_in_def ssh_buffer_pass_bytes_def ssh_buffer_get_len_def
      demo_buf_def ssh_buffer_get_def grow_window_def window_increment_def buffer_len_def WINDOW_DEFAULT_def upd_chan_def empty_buffer_def
      demo_channel_def)

lemma demo_second:
  assumes "chan_at c 5 = Some ((demo_channel [1, 2])\<lparr>stdout_buffer := Some ((demo_buf [1, 2])\<lparr>used := 0\<rparr>)\<rparr>)" and "sess c = demo_sess"
  shows "\<exists>c2. ssh_channel_read brings_nine (Some 5) True 1 False c = Some (1, [9], c2)"
proof -
  let ?fct = "ssh_channel_read_termination 5 False"
  define c1 where "c1 = upd_chan 5 (\<lambda>ch. ch\<lparr>stdout_buffer := Some (demo_buf [9])\<rparr>) (c\<lparr>rounds := Suc (rounds c)\<rparr>)"
  have at: "chan_at c1 5 = Some ((demo_channel [1, 2])\<lparr>stdout_buffer := Some (demo_buf [9])\<rparr>)" and ss: "sess c1 = demo_sess"
    using assms by (simp_all add: c1_def upd_chan_def)
  have "wait_timeout SSH_TIMEOUT_DEFAULT c = 0"
    by (simp add: wait_timeout_def ssh_is_blocking_def assms(2) demo_keyed_def demo_session_def)
  note nb = wait_nonblocking [OF this, of brings_nine ?fct]
  have nf: "\<not> session_failed c" "\<not> session_failed c1"
    by (simp_all add: session_failed_def assms(2) ss demo_keyed_def demo_session_def)
  have "?fct c = Some False"
    using assms(1) nf(1) by (simp add: ssh_channel_read_termination_def std_buf_def ssh_buffer_get_len_def demo_buf_def)
  moreover have "?fct c1 = Some True"
    using at by (simp add: ssh_channel_read_termination_def std_buf_def ssh_buffer_get_len_def demo_buf_def)
  moreover have "ssh_handle_packets brings_nine 0 c = Some (SSH_OK, c1)"
    by (simp add: ssh_handle_packets_def c1_def demo_conn_env_def)
  ultimately have w: "ssh_handle_packets_termination brings_nine SSH_TIMEOUT_DEFAULT ?fct c = Some (SSH_OK, c1)"
    using nb by simp
  from demo_take_nine [OF at] obtain c2 where "take_data brings_nine 5 1 False c1 = Some (1, [9], c2)" by blast
  with w at nf(2) show ?thesis
    by (simp add: ssh_channel_read_def ssh_channel_read_timeout_def std_buf_def)
qed

theorem second_read_overwrites_witness:
  "\<exists>b' c2. channel_read_buffer brings_nine (Some 5) (Some empty_buffer) 3 False (demo_conn demo_sess (demo_channel [1, 2])) = Some (3, Some b', c2) \<and>
    take 2 (contents b') = [9, 2]"
proof -
  let ?c = "demo_conn demo_sess (demo_channel [1, 2])"
  have at: "chan_at ?c 5 = Some (demo_channel [1, 2])" by simp
  from demo_take [OF at, of brings_nine] obtain c1 where c1: "take_data brings_nine 5 3 False ?c = Some (2, [1, 2], c1)" "sess c1 = demo_sess"
    "chan_at c1 5 = Some ((demo_channel [1, 2])\<lparr>stdout_buffer := Some ((demo_buf [1, 2])\<lparr>used := 0\<rparr>)\<rparr>)" by auto
  have sb: "std_buf False (demo_channel [1, 2]) = Some (demo_buf [1, 2])" "0 < ssh_buffer_get_len (demo_buf [1, 2])"
    by (simp_all add: std_buf_def ssh_buffer_get_len_def demo_buf_def)
  have nf: "\<not> session_failed ?c" by (simp add: session_failed_def demo_keyed_def demo_session_def)
  have 1: "ssh_channel_read brings_nine (Some 5) True 3 False ?c = Some (int (length [1, 2 :: byte]), [1, 2], c1)"
    using read_at_once [OF at sb, of brings_nine "SSH_TIMEOUT_DEFAULT"] c1(1) sb nf
    by (simp add: ssh_channel_read_def ssh_channel_read_timeout_def)
  from demo_second [OF c1(3,2)] obtain c2 where
    "ssh_channel_read brings_nine (Some 5) True 1 False c1 = Some (1, [9], c2)" by blast
  then have 2: "ssh_channel_read brings_nine (Some 5) True (3 - of_nat (length [1, 2 :: byte])) False c1 = Some (int (length [9 :: byte]), [9], c2)" by simp
  have 3: "unat (3 :: u32) = length [1, 2 :: byte] + length [9 :: byte]" "mem (pk brings_nine)" "unat (3 :: u32) < 16384"
    using demo_env_works(1) by simp_all
  from second_read_overwrites [OF 1 _ 2 _ 3(1) empty_ok(1) 3(2,3)] show ?thesis by (auto simp flip: numeral_2_eq_2)
qed

end
