(* ===== verification/Ssh_Base64.thy ===== *)
theory Ssh_Base64
  imports Ssh_Buffer
begin

text \<open>
  Base64 of the SSH library (\<open>base64.c\<close>). Text is a C string, given as its bytes without the
  terminator; decoding works on a copy in which every equals sign is replaced by a terminator.
  A block of four characters is a 24-bit number in a 32-bit word.
\<close>

unbundle bit_operations_syntax

definition alphabet64 :: "byte list" where
  "alphabet64 = map of_nat ([65..<91] @ [97..<123] @ [48..<58] @ [43, 47])"

section \<open>Decoding\<close>

definition get_equals :: "byte list \<Rightarrow> nat \<times> byte list" where
  "get_equals s = (length (filter (\<lambda>c. c = 61) s), map (\<lambda>c. if c = 61 then 0 else c) s)"

definition b64_strlen :: "byte list \<Rightarrow> byte list" where
  "b64_strlen s = takeWhile (\<lambda>c. c \<noteq> 0) s"

text \<open>\<open>strchr(alphabet, c)\<close>: the terminator of the alphabet is found for 0.\<close>

definition b64_index :: "byte \<Rightarrow> nat option" where
  "b64_index c = (if c = 0 then Some 64 else find_index (\<lambda>x. x = c) alphabet64)"

definition char_at :: "byte list \<Rightarrow> nat \<Rightarrow> byte" where
  "char_at s n = (if n < length s then s ! n else 0)"

definition set_sextet :: "nat \<Rightarrow> u32 \<Rightarrow> nat \<Rightarrow> u32" where
  "set_sextet k n i = n OR push_bit k (of_nat i AND 63)"

definition to_block4 :: "byte list \<Rightarrow> nat \<Rightarrow> u32 option" where
  "to_block4 source num =
     (if num < 1 then Some 0
      else (case b64_index (char_at source 0) of None \<Rightarrow> None | Some a \<Rightarrow>
            (case b64_index (char_at source 1) of None \<Rightarrow> None | Some b \<Rightarrow>
             let ab = set_sextet 12 (set_sextet 18 0 a) b in
             if num < 2 then Some ab
             else (case b64_index (char_at source 2) of None \<Rightarrow> None | Some c \<Rightarrow>
                   let abc = set_sextet 6 ab c in
                   if num < 3 then Some abc
                   else (case b64_index (char_at source 3) of None \<Rightarrow> None | Some d \<Rightarrow>
                         Some (set_sextet 0 abc d))))))"

definition base64_block_to_bin :: "byte list \<Rightarrow> nat \<Rightarrow> byte list option" where
  "base64_block_to_bin source num =
     (case to_block4 source num of
        None \<Rightarrow> None
      | Some n \<Rightarrow> Some [ucast (drop_bit 16 (n AND 0xff0000)), ucast (drop_bit 8 (n AND 0xff00)), ucast (n AND 0xff)])"

text \<open>One block decoded and appended: \<open>num\<close> bytes of it.\<close>

definition decode_block :: "bool \<Rightarrow> nat \<Rightarrow> byte list \<Rightarrow> ssh_buffer \<Rightarrow> ssh_buffer option" where
  "decode_block m num ptr b =
     (case base64_block_to_bin ptr num of
        None \<Rightarrow> None
      | Some block \<Rightarrow>
          (case ssh_buffer_add_data m (Some (take num block)) b of
             (rc, b') \<Rightarrow> if rc < 0 then None else Some b'))"

function decode_loop :: "bool \<Rightarrow> byte list \<Rightarrow> ssh_buffer \<Rightarrow> (byte list \<times> ssh_buffer) option" where
  "decode_loop m ptr b =
     (if 4 < length ptr then
        (case decode_block m 3 ptr b of None \<Rightarrow> None | Some b' \<Rightarrow> decode_loop m (drop 4 ptr) b')
      else Some (ptr, b))"
  by pat_completeness auto
termination
  by (relation "measure (\<lambda>(m, ptr, b). length ptr)") auto

declare decode_loop.simps [simp del]

text \<open>The end of \<open>base64_to_bin\<close>: the last block, according to what is left.\<close>

definition decode_last :: "bool \<Rightarrow> nat \<Rightarrow> byte list \<Rightarrow> ssh_buffer \<Rightarrow> ssh_buffer option" where
  "decode_last m equals ptr b =
     (if length ptr = 4 then (if equals \<noteq> 0 then None else decode_block m 3 ptr b)
      else if length ptr = 2 then (if equals \<noteq> 2 then None else decode_block m 1 ptr b)
      else if length ptr = 3 then (if equals \<noteq> 1 then None else decode_block m 2 ptr b)
      else None)"

definition base64_to_bin :: "bool \<Rightarrow> byte list \<Rightarrow> ssh_buffer option" where
  "base64_to_bin m source =
     (let (equals, base64) = get_equals source in
      if 2 < equals then None
      else (case ssh_buffer_new m m of
              None \<Rightarrow> None
            | Some b \<Rightarrow>
                (case decode_loop m (b64_strlen base64) (ssh_buffer_set_secure b) of
                   None \<Rightarrow> None
                 | Some (ptr, b1) \<Rightarrow> decode_last m equals ptr b1)))"

section \<open>Encoding\<close>

definition sextet :: "byte \<Rightarrow> byte" where
  "sextet i = alphabet64 ! unat i"

text \<open>\<open>_bin_to_base64\<close> on the first one, two or three bytes of the source.\<close>

definition encode_block :: "byte list \<Rightarrow> nat \<Rightarrow> byte list" where
  "encode_block source len =
     (if len = 1 then
        [sextet (drop_bit 2 (source ! 0)), sextet (push_bit 4 (source ! 0 AND 3)), 61, 61]
      else if len = 2 then
        [sextet (drop_bit 2 (source ! 0)),
         sextet (drop_bit 4 (source ! 1) OR push_bit 4 (source ! 0 AND 3)),
         sextet (push_bit 2 (source ! 1 AND 15)), 61]
      else if len = 3 then
        [sextet (drop_bit 2 (source ! 0)),
         sextet (drop_bit 4 (source ! 1) OR push_bit 4 (source ! 0 AND 3)),
         sextet (drop_bit 6 (source ! 2) OR push_bit 2 (source ! 1 AND 15)),
         sextet (source ! 2 AND 63)]
      else [])"

function encode_loop :: "byte list \<Rightarrow> byte list" where
  "encode_loop source =
     (if length source = 0 then []
      else encode_block source (if 3 < length source then 3 else length source) @
           (if length source < 3 then [] else encode_loop (drop 3 source)))"
  by pat_completeness auto
termination
  by (relation "measure length") auto

declare encode_loop.simps [simp del]

definition BASE64_MAX_INPUT_LEN :: nat where "BASE64_MAX_INPUT_LEN = 256 * 1024 * 1024"

text \<open>The size of the block that is allocated, and the text written to it.\<close>

definition base64_block_size :: "u32 \<Rightarrow> u32" where
  "base64_block_size len = (4 * (len + (3 - len mod 3))) div 3 + 1"

definition bin_to_base64 :: "bool \<Rightarrow> byte list \<Rightarrow> byte list option" where
  "bin_to_base64 m source =
     (if BASE64_MAX_INPUT_LEN < length source then None
      else if \<not> m then None
      else Some (encode_loop source))"

section \<open>Facts\<close>

lemma find_index_nth: "distinct xs \<Longrightarrow> i < length xs \<Longrightarrow> find_index (\<lambda>x. x = xs ! i) xs = Some i"
proof (induction xs arbitrary: i)
  case Nil
  then show ?case by simp
next
  case (Cons x xs)
  then show ?case by (cases i) auto
qed

lemma alphabet64_facts:
  "distinct alphabet64" "length alphabet64 = 64" "0 \<notin> set alphabet64" "61 \<notin> set alphabet64"
  by code_simp+

lemma sextet_mem: "unat i < 64 \<Longrightarrow> sextet i \<in> set alphabet64"
  using alphabet64_facts(2) nth_mem [of "unat i" alphabet64] by (simp add: sextet_def)

lemma sextet_plain: "unat i < 64 \<Longrightarrow> sextet i \<noteq> 0 \<and> sextet i \<noteq> 61"
  using alphabet64_facts(3,4) sextet_mem [of i] by metis

lemma sextet_index: "unat i < 64 \<Longrightarrow> b64_index (sextet i) = Some (unat i)"
  using alphabet64_facts(1,2) find_index_nth [of alphabet64 "unat i"] sextet_plain [of i]
  by (simp add: b64_index_def sextet_def)

lemma bit_byte_high [simp]: "8 \<le> n \<Longrightarrow> \<not> bit (x :: byte) n"
  using bit_imp_le_length [of x n] by auto

lemma sextet_bound:
  "unat (drop_bit 2 (x :: byte)) < 64" "unat (push_bit 4 (x AND 3)) < 64"
  "unat (drop_bit 4 y OR push_bit 4 (x AND 3)) < 64" "unat (push_bit 2 (x AND 15)) < 64"
  "unat (drop_bit 6 y OR push_bit 2 (x AND 15)) < 64" "unat (x AND 63) < 64"
proof -
  have six: "unat z < 64" if "take_bit 6 z = z" for z :: byte
  proof -
    have "unat (take_bit 6 z) < 2 ^ 6"
      using take_bit_nat_less_exp [of 6 "unat z"] by (simp only: unsigned_take_bit_eq)
    with that show ?thesis by simp
  qed
  have bits: "take_bit 6 z = z" if "\<not> bit z 6" "\<not> bit z 7" for z :: byte
  proof (rule bit_word_eqI)
    fix n assume "n < LENGTH(8)"
    then have "n < 6 \<or> n = 6 \<or> n = 7" by auto
    with that show "bit (take_bit 6 z) n = bit z n" by (auto simp: bit_take_bit_iff)
  qed
  show "unat (drop_bit 2 (x :: byte)) < 64" "unat (push_bit 4 (x AND 3)) < 64"
    "unat (drop_bit 4 y OR push_bit 4 (x AND 3)) < 64" "unat (push_bit 2 (x AND 15)) < 64"
    "unat (drop_bit 6 y OR push_bit 2 (x AND 15)) < 64" "unat (x AND 63) < 64"
    by (rule six, rule bits, simp_all add: bit_simps)+
qed

text \<open>The bits of a block: three bytes cut into four sextets and put together again.\<close>

abbreviation (input) sext :: "byte \<Rightarrow> u32" where "sext x \<equiv> ucast x AND 63"

lemma of_nat_unat_byte: "(of_nat (unat (x :: byte)) :: u32) = ucast x"
  by (simp add: unsigned_ucast_eq)

lemma byte_cases: "n < LENGTH(8) \<Longrightarrow> (n = 0 \<or> n = 1) \<or> (n = 2 \<or> n = 3) \<or> (n = 4 \<or> n = 5) \<or> (n = 6 \<or> n = (7::nat))"
  by auto

definition join4 :: "u32 \<Rightarrow> u32 \<Rightarrow> u32 \<Rightarrow> u32 \<Rightarrow> u32" where
  "join4 i j k l = push_bit 18 i OR push_bit 12 j OR push_bit 6 k OR l"


text \<open>The block of three bytes, and those of two and of one.\<close>

definition block3 :: "byte \<Rightarrow> byte \<Rightarrow> byte \<Rightarrow> u32" where
  "block3 a b c = join4 (sext (drop_bit 2 a)) (sext (drop_bit 4 b OR push_bit 4 (a AND 3)))
     (sext (drop_bit 6 c OR push_bit 2 (b AND 15))) (sext (c AND 63))"

definition block2 :: "byte \<Rightarrow> byte \<Rightarrow> u32" where
  "block2 a b = join4 (sext (drop_bit 2 a)) (sext (drop_bit 4 b OR push_bit 4 (a AND 3)))
     (sext (push_bit 2 (b AND 15))) 0"

definition block1 :: "byte \<Rightarrow> u32" where
  "block1 a = join4 (sext (drop_bit 2 a)) (sext (push_bit 4 (a AND 3))) 0 0"

lemma block_bytes:
  "(ucast (drop_bit 16 (block3 a b c AND 0xff0000)) :: byte) = a"
  "(ucast (drop_bit 8 (block3 a b c AND 0xff00)) :: byte) = b"
  "(ucast (block3 a b c AND 0xff) :: byte) = c"
  "(ucast (drop_bit 16 (block2 a b AND 0xff0000)) :: byte) = a"
  "(ucast (drop_bit 8 (block2 a b AND 0xff00)) :: byte) = b"
  "(ucast (drop_bit 16 (block1 a AND 0xff0000)) :: byte) = a"
  by (rule bit_word_eqI, drule byte_cases, elim disjE,
      simp_all add: block3_def block2_def block1_def join4_def bit_simps)+

lemma encode_index:
  "b64_index (sextet (drop_bit 2 a)) = Some (unat (drop_bit 2 a))"
  "b64_index (sextet (push_bit 4 (a AND 3))) = Some (unat (push_bit 4 (a AND 3)))"
  "b64_index (sextet (drop_bit 4 b OR push_bit 4 (a AND 3))) = Some (unat (drop_bit 4 b OR push_bit 4 (a AND 3)))"
  "b64_index (sextet (push_bit 2 (b AND 15))) = Some (unat (push_bit 2 (b AND 15)))"
  "b64_index (sextet (drop_bit 6 c OR push_bit 2 (b AND 15))) = Some (unat (drop_bit 6 c OR push_bit 2 (b AND 15)))"
  "b64_index (sextet (c AND 63)) = Some (unat (c AND 63))"
  by (intro sextet_index sextet_bound)+

lemma decode_encode3:
  "base64_block_to_bin (encode_block (a # b # c # rest) 3 @ tl0) 3 = Some [a, b, c]"
proof -
  have "to_block4 (encode_block (a # b # c # rest) 3 @ tl0) 3 = Some (block3 a b c)"
    by (simp add: to_block4_def encode_block_def char_at_def encode_index set_sextet_def of_nat_unat_byte
        block3_def join4_def or.assoc Let_def del: push_bit_and)
  then show ?thesis by (simp add: base64_block_to_bin_def block_bytes del: drop_bit_and)
qed

lemma decode_encode2:
  "map_option (take 2) (base64_block_to_bin (take 3 (encode_block [a, b] 2)) 2) = Some [a, b]"
proof -
  have "to_block4 (take 3 (encode_block [a, b] 2)) 2 = Some (block2 a b)"
    by (simp add: to_block4_def encode_block_def char_at_def encode_index set_sextet_def of_nat_unat_byte
        block2_def join4_def or.assoc Let_def del: push_bit_and)
  then show ?thesis by (simp add: base64_block_to_bin_def block_bytes del: drop_bit_and)
qed

lemma decode_encode1:
  "map_option (take 1) (base64_block_to_bin (take 2 (encode_block [a] 1)) 1) = Some [a]"
proof -
  have "to_block4 (take 2 (encode_block [a] 1)) 1 = Some (block1 a)"
    by (simp add: to_block4_def encode_block_def char_at_def encode_index set_sextet_def of_nat_unat_byte
        block1_def join4_def or.assoc Let_def del: push_bit_and)
  then show ?thesis by (simp add: base64_block_to_bin_def block_bytes del: drop_bit_and)
qed

text \<open>The characters of an encoding that are not padding.\<close>

fun plain :: "byte list \<Rightarrow> byte list" where
  "plain [] = []"
| "plain [a] = take 2 (encode_block [a] 1)"
| "plain [a, b] = take 3 (encode_block [a, b] 2)"
| "plain (a # b # c # r) = encode_block (a # b # c # r) 3 @ plain r"

fun pad :: "byte list \<Rightarrow> nat" where
  "pad [] = 0"
| "pad [a] = 2"
| "pad [a, b] = 1"
| "pad (a # b # c # r) = pad r"

lemma encode_plain: "encode_loop xs = plain xs @ replicate (pad xs) 61"
proof (induction xs rule: plain.induct)
  case (4 a b c r)
  then show ?case
    by (subst encode_loop.simps) (simp add: encode_block_def del: push_bit_and)
qed (subst encode_loop.simps, simp add: encode_block_def numeral_2_eq_2 del: push_bit_and)+

lemma plain_chars: "c \<in> set (plain xs) \<Longrightarrow> c \<noteq> 0 \<and> c \<noteq> 61"
proof (induction xs rule: plain.induct)
  case (4 a b c r)
  then show ?case
    using sextet_plain sextet_bound by (auto simp: encode_block_def simp del: push_bit_and)
qed (use sextet_plain sextet_bound in \<open>auto simp: encode_block_def simp del: push_bit_and\<close>)

lemma length_plain:
  "length (plain [a]) = 2" "length (plain [a, b]) = 3" "length (plain (a # b # c # r)) = 4 + length (plain r)"
  "r \<noteq> [] \<Longrightarrow> 2 \<le> length (plain r)"
  by (simp_all add: encode_block_def) (cases r rule: plain.cases; simp add: encode_block_def)

lemma get_equals_encode:
  "get_equals (encode_loop xs) = (pad xs, plain xs @ replicate (pad xs) 0)"
proof -
  have "map (\<lambda>c. if c = 61 then 0 else c) (plain xs) = plain xs"
    using plain_chars by (intro map_idI) auto
  moreover have "filter (\<lambda>c. c = 61) (plain xs) = []"
    using plain_chars by (auto simp: filter_empty_conv)
  ultimately show ?thesis by (simp add: get_equals_def encode_plain)
qed

lemma strlen_encode: "b64_strlen (plain xs @ replicate n 0) = plain xs"
  using plain_chars by (auto simp: b64_strlen_def takeWhile_append takeWhile_eq_all_conv)

lemma decode_block_ok:
  assumes "buffer_ok b" and "base64_block_to_bin ptr num = Some block" and "length (contents b) + num < 16384"
  shows "\<exists>b'. decode_block True num ptr b = Some b' \<and> buffer_ok b' \<and> contents b' = contents b @ take num block"
proof -
  have "length (contents b) + length (take num block) < 16384" using assms(3) by simp
  from buf.put_room [OF assms(1) this] assms(2) show ?thesis by (auto simp: decode_block_def)
qed

lemma decode_plain:
  assumes "xs \<noteq> []" and "buffer_ok b" and "length (contents b) + length xs < 16384"
  shows "\<exists>ptr b1 b2. decode_loop True (plain xs) b = Some (ptr, b1) \<and>
    decode_last True (pad xs) ptr b1 = Some b2 \<and> contents b2 = contents b @ xs"
  using assms
proof (induction xs arbitrary: b rule: plain.induct)
  case 1
  then show ?case by simp
next
  case (2 a)
  have "base64_block_to_bin (plain [a]) 1 = Some [a, x, y] \<Longrightarrow> ?case" for x y
    using decode_block_ok [OF "2.prems"(2), of "plain [a]" 1 "[a, x, y]"] "2.prems" length_plain(1) [of a]
    by (subst decode_loop.simps) (auto simp: decode_last_def simp del: plain.simps)
  moreover obtain x y where "base64_block_to_bin (plain [a]) 1 = Some [a, x, y]"
    using decode_encode1 [of a] by (auto simp: base64_block_to_bin_def split: option.splits)
  ultimately show ?case by blast
next
  case (3 a b')
  have "base64_block_to_bin (plain [a, b']) 2 = Some [a, b', y] \<Longrightarrow> ?case" for y
    using decode_block_ok [OF "3.prems"(2), of "plain [a, b']" 2 "[a, b', y]"] "3.prems" length_plain(2) [of a b']
    by (subst decode_loop.simps) (auto simp: decode_last_def simp del: plain.simps)
  moreover obtain y where "base64_block_to_bin (plain [a, b']) 2 = Some [a, b', y]"
    using decode_encode2 [of a b'] by (auto simp: base64_block_to_bin_def split: option.splits)
  ultimately show ?case by blast
next
  case (4 a b' c r)
  let ?p = "plain (a # b' # c # r)"
  have bin: "base64_block_to_bin ?p 3 = Some [a, b', c]"
    using decode_encode3 [of a b' c r "plain r"] by simp
  have fits: "length (contents b) + 3 < 16384" using "4.prems" by simp
  obtain b1 where b1: "decode_block True 3 ?p b = Some b1" "buffer_ok b1" "contents b1 = contents b @ [a, b', c]"
    using decode_block_ok [OF "4.prems"(2) bin fits] by auto
  show ?case
  proof (cases "r = []")
    case True
    then have "length ?p = 4" using length_plain(3) [of a b' c r] by simp
    then show ?thesis using b1 True
      by (subst decode_loop.simps) (auto simp: decode_last_def simp del: plain.simps(4))
  next
    case False
    then have len: "4 < length ?p" using length_plain(3) [of a b' c r] length_plain(4) [OF False] by linarith
    have "drop 4 ?p = plain r" by (simp add: encode_block_def)
    then have "decode_loop True ?p b = decode_loop True (plain r) b1"
      using len b1(1) by (subst decode_loop.simps) (simp del: plain.simps(4))
    moreover have "length (contents b1) + length r < 16384" using "4.prems"(3) b1(3) by simp
    ultimately show ?thesis using "4.IH" [OF False b1(2)] b1(3) by (simp del: plain.simps(4))
  qed
qed

text \<open>
  Base64 is decoded as it was encoded. Decoding the encoding of any non-empty sequence of
  fewer than 16384 bytes gives a buffer with exactly those bytes, marked secure. The encoding
  of the empty sequence is refused.
\<close>

theorem base64_roundtrip:
  assumes "length xs < 16384"
  shows "\<exists>text64. bin_to_base64 True xs = Some text64 \<and>
    (if xs = [] then base64_to_bin True text64 = None
     else \<exists>b. base64_to_bin True text64 = Some b \<and> contents b = xs)"
proof -
  obtain b0 where b0: "ssh_buffer_new True True = Some b0" "buffer_ok b0" "contents b0 = []" using new_ok by blast
  let ?b = "ssh_buffer_set_secure b0"
  have b: "buffer_ok ?b" "contents ?b = []" using b0 by (simp_all add: ssh_buffer_set_secure_def buffer_ok_def contents_def)
  have enc: "bin_to_base64 True xs = Some (encode_loop xs)"
    using assms by (simp add: bin_to_base64_def BASE64_MAX_INPUT_LEN_def)
  have two: "\<not> 2 < pad xs" by (induction xs rule: pad.induct) simp_all
  have dec: "base64_to_bin True (encode_loop xs) =
      (case decode_loop True (plain xs) ?b of None \<Rightarrow> None | Some (ptr, b1) \<Rightarrow> decode_last True (pad xs) ptr b1)"
    using two by (simp add: base64_to_bin_def get_equals_encode strlen_encode b0(1))
  show ?thesis
  proof (cases "xs = []")
    case True
    then have "base64_to_bin True (encode_loop xs) = None"
      unfolding dec by (subst decode_loop.simps) (simp add: decode_last_def)
    with True enc show ?thesis by simp
  next
    case False
    with decode_plain [OF False b(1)] b(2) assms enc dec show ?thesis by auto
  qed
qed

lemma base64_roundtrip_witness:
  "\<exists>text64. bin_to_base64 True [77, 97] = Some text64 \<and> (\<exists>b. base64_to_bin True text64 = Some b \<and> contents b = [77, 97])"
  using base64_roundtrip [of "[77, 97]"] by simp

lemma length_encode: "length (encode_loop xs) = 4 * ((length xs + 2) div 3)"
proof (induction xs rule: plain.induct)
  case (4 a b c r)
  have "(length (a # b # c # r) + 2) div 3 = Suc ((length r + 2) div 3)" by simp
  with 4 show ?case by (simp add: encode_plain encode_block_def)
qed (simp_all add: encode_plain encode_block_def)

lemma unat_numeral_3: "unat (3 :: u32) = 3"
  by simp

text \<open>
  The encoder stays inside its block. For every length the function accepts, the block it
  allocates holds the text and its terminator: the size is computed without wrapping.
\<close>

theorem base64_fits_block:
  assumes "length xs \<le> BASE64_MAX_INPUT_LEN"
  shows "length (encode_loop xs) + 1 \<le> unat (base64_block_size (of_nat (length xs)))"
proof -
  let ?n = "length xs" and ?w = "of_nat (length xs) :: u32"
  have n: "?n \<le> 2 ^ 28" using assms by (simp add: BASE64_MAX_INPUT_LEN_def)
  have w: "unat ?w = ?n" using n by (simp add: unat_of_nat take_bit_nat_eq_self_iff)
  have m: "unat (?w mod 3) = ?n mod 3" by (simp add: unat_mod w)
  then have "?w mod 3 \<le> 3" by (simp add: word_le_nat_alt)
  then have d: "unat (3 - ?w mod 3) = 3 - ?n mod 3" using m by (simp add: unat_sub)
  have a: "unat (?w + (3 - ?w mod 3)) = ?n + (3 - ?n mod 3)"
    using n w d by (subst unat_add_no_wrap) auto
  have f: "unat (4 * (?w + (3 - ?w mod 3))) = 4 * (?n + (3 - ?n mod 3))"
  proof -
    have gen: "unat (4 * y) = 4 * unat y" if "4 * unat y < 2 ^ 32" for y :: u32
      using that by (simp add: unat_word_ariths)
    show ?thesis unfolding a [symmetric] by (rule gen) (use n a in simp)
  qed
  let ?x = "(4 * (?w + (3 - ?w mod 3))) div 3" and ?y = "4 * (?n + (3 - ?n mod 3)) div 3"
  have x: "unat ?x = ?y" using f by (simp only: unat_div unat_numeral_3)
  have "?y \<le> 4 * (?n + (3 - ?n mod 3))" by (rule div_le_dividend)
  also have "\<dots> \<le> 4 * (2 ^ 28 + 3)" using n by simp
  finally have "unat ?x + unat (1 :: u32) < 2 ^ 32" unfolding x by simp
  then have "unat (?x + 1) = unat ?x + unat (1 :: u32)" by (intro unat_add_no_wrap) simp
  then have "unat (base64_block_size ?w) = ?y + 1" unfolding base64_block_size_def x by simp
  moreover have "4 * ((?n + 2) div 3) \<le> ?y"
  proof -
    have split: "(a :: nat) + (3 - r) = 3 * (q + 1)" if "q * 3 + r = a" "r < 3" for a q r :: nat
      using that by presburger
    have "?n + (3 - ?n mod 3) = 3 * (?n div 3 + 1)"
      by (rule split [OF div_mult_mod_eq]) simp
    then have "?y = 4 * (?n div 3 + 1)" by simp
    moreover have "(?n + 2) div 3 \<le> ?n div 3 + 1"
      using div_le_mono [of "?n + 2" "?n + 3" 3] by simp
    ultimately show ?thesis by simp
  qed
  ultimately show ?thesis by (simp add: length_encode)
qed

lemma base64_fits_block_witness:
  "length (encode_loop [1, 2, 3, 4]) + 1 \<le> unat (base64_block_size (of_nat (length [1, 2, 3, 4 :: byte])))"
  by (rule base64_fits_block) (simp add: BASE64_MAX_INPUT_LEN_def)

end
