(* ===== verification/Ssh_List.thy ===== *)
theory Ssh_List
  imports Prelude
begin

text \<open>
  The linked lists of the SSH library (\<open>misc.c\<close>), which hold its packet queue, its callbacks,
  channels and messages. The cells are kept in a heap, addresses to cells, so that what the
  operations write through pointers is visible; the heap also knows the next address
  \<open>malloc\<close> gives out. The flag \<open>m\<close> says whether an allocation succeeds. Loops follow pointers
  and need not end on a damaged list: they are partial functions, None meaning no return.
\<close>

type_synonym addr = nat

record 'a ssh_iterator =
  nxt :: "addr option"
  dat :: 'a

record 'a heap =
  cells :: "addr \<Rightarrow> 'a ssh_iterator option"
  brk :: addr

record ssh_list =
  root :: "addr option"
  tail_of :: "addr option" \<comment> \<open>the field \<open>end\<close>\<close>

section \<open>The operations\<close>

definition ssh_list_new :: "bool \<Rightarrow> ssh_list option" where
  "ssh_list_new m = (if m then Some \<lparr>root = None, tail_of = None\<rparr> else None)"

definition ssh_iterator_new :: "bool \<Rightarrow> 'a heap \<Rightarrow> 'a \<Rightarrow> addr option \<times> 'a heap" where
  "ssh_iterator_new m h d =
     (if \<not> m then (None, h)
      else (Some (brk h), h\<lparr>cells := (cells h)(brk h \<mapsto> \<lparr>nxt = None, dat = d\<rparr>), brk := Suc (brk h)\<rparr>))"

definition set_next :: "'a heap \<Rightarrow> addr \<Rightarrow> addr option \<Rightarrow> 'a heap" where
  "set_next h p n = h\<lparr>cells := (cells h)(p := map_option (\<lambda>c. c\<lparr>nxt := n\<rparr>) (cells h p))\<rparr>"

definition free_cell :: "'a heap \<Rightarrow> addr \<Rightarrow> 'a heap" where
  "free_cell h p = h\<lparr>cells := (cells h)(p := None)\<rparr>"

definition ssh_list_append :: "bool \<Rightarrow> 'a heap \<Rightarrow> ssh_list option \<Rightarrow> 'a \<Rightarrow> int \<times> 'a heap \<times> ssh_list option" where
  "ssh_list_append m h list d =
     (case list of
        None \<Rightarrow> (SSH_ERROR, h, None)
      | Some l \<Rightarrow>
          (case ssh_iterator_new m h d of
             (None, h1) \<Rightarrow> (SSH_ERROR, h1, list)
           | (Some it, h1) \<Rightarrow>
               (case tail_of l of
                  None \<Rightarrow> (SSH_OK, h1, Some \<lparr>root = Some it, tail_of = Some it\<rparr>)
                | Some e \<Rightarrow> (SSH_OK, set_next h1 e (Some it), Some (l\<lparr>tail_of := Some it\<rparr>)))))"

definition ssh_list_prepend :: "bool \<Rightarrow> 'a heap \<Rightarrow> ssh_list option \<Rightarrow> 'a \<Rightarrow> int \<times> 'a heap \<times> ssh_list option" where
  "ssh_list_prepend m h list d =
     (case list of
        None \<Rightarrow> (SSH_ERROR, h, None)
      | Some l \<Rightarrow>
          (case ssh_iterator_new m h d of
             (None, h1) \<Rightarrow> (SSH_ERROR, h1, list)
           | (Some it, h1) \<Rightarrow>
               (case tail_of l of
                  None \<Rightarrow> (SSH_OK, h1, Some \<lparr>root = Some it, tail_of = Some it\<rparr>)
                | Some e \<Rightarrow> (SSH_OK, set_next h1 it (root l), Some (l\<lparr>root := Some it\<rparr>)))))"

definition ssh_list_get_iterator :: "ssh_list option \<Rightarrow> addr option" where
  "ssh_list_get_iterator list = (case list of None \<Rightarrow> None | Some l \<Rightarrow> root l)"

text \<open>A dead pointer that is followed ends in no result as well.\<close>

partial_function (option) find_from :: "'a heap \<Rightarrow> addr option \<Rightarrow> 'a \<Rightarrow> addr option option" where
  "find_from h it v =
     (case it of
        None \<Rightarrow> Some None
      | Some p \<Rightarrow>
          (case cells h p of
             None \<Rightarrow> None
           | Some c \<Rightarrow> if dat c = v then Some (Some p) else find_from h (nxt c) v))"

definition ssh_list_find :: "'a heap \<Rightarrow> ssh_list option \<Rightarrow> 'a \<Rightarrow> addr option option" where
  "ssh_list_find h list v = find_from h (ssh_list_get_iterator list) v"

partial_function (option) count_from :: "'a heap \<Rightarrow> addr option \<Rightarrow> nat \<Rightarrow> nat option" where
  "count_from h it count =
     (case it of
        None \<Rightarrow> Some count
      | Some p \<Rightarrow> (case cells h p of None \<Rightarrow> None | Some c \<Rightarrow> count_from h (nxt c) (Suc count)))"

definition ssh_list_count :: "'a heap \<Rightarrow> ssh_list option \<Rightarrow> nat option" where
  "ssh_list_count h list = count_from h (ssh_list_get_iterator list) 0"

text \<open>The search of \<open>ssh_list_remove\<close>: the cell before the iterator, and whether it was found.\<close>

partial_function (option) find_prev :: "'a heap \<Rightarrow> addr option \<Rightarrow> addr option \<Rightarrow> addr \<Rightarrow> (addr option \<times> addr option) option" where
  "find_prev h prev ptr it =
     (case ptr of
        None \<Rightarrow> Some (prev, None)
      | Some p \<Rightarrow>
          if p = it then Some (prev, ptr)
          else (case cells h p of None \<Rightarrow> None | Some c \<Rightarrow> find_prev h (Some p) (nxt c) it))"

definition ssh_list_remove :: "'a heap \<Rightarrow> ssh_list option \<Rightarrow> addr \<Rightarrow> ('a heap \<times> ssh_list option) option" where
  "ssh_list_remove h list it =
     (case list of
        None \<Rightarrow> Some (h, None)
      | Some l \<Rightarrow>
          (case find_prev h None (root l) it of
             None \<Rightarrow> None
           | Some (prev, None) \<Rightarrow> Some (h, list)
           | Some (prev, Some p) \<Rightarrow>
               (case cells h p of
                  None \<Rightarrow> None
                | Some c \<Rightarrow>
                    let h1 = (case prev of None \<Rightarrow> h | Some q \<Rightarrow> set_next h q (nxt c));
                        l1 = (if root l = Some it then l\<lparr>root := nxt c\<rparr> else l);
                        l2 = (if tail_of l1 = Some it then l1\<lparr>tail_of := prev\<rparr> else l1)
                    in Some (free_cell h1 it, Some l2))))"

definition ssh_list_pop_head :: "'a heap \<Rightarrow> ssh_list option \<Rightarrow> ('a option \<times> 'a heap \<times> ssh_list option) option" where
  "ssh_list_pop_head h list =
     (case list of
        None \<Rightarrow> Some (None, h, None)
      | Some l \<Rightarrow>
          (case root l of
             None \<Rightarrow> Some (None, h, list)
           | Some p \<Rightarrow>
               (case cells h p of
                  None \<Rightarrow> None
                | Some c \<Rightarrow>
                    let l1 = l\<lparr>root := nxt c\<rparr>;
                        l2 = (if tail_of l1 = Some p then l1\<lparr>tail_of := None\<rparr> else l1)
                    in Some (Some (dat c), free_cell h p, Some l2))))"

partial_function (option) free_from :: "'a heap \<Rightarrow> addr option \<Rightarrow> 'a heap option" where
  "free_from h ptr =
     (case ptr of
        None \<Rightarrow> Some h
      | Some p \<Rightarrow> (case cells h p of None \<Rightarrow> None | Some c \<Rightarrow> free_from (free_cell h p) (nxt c)))"

definition ssh_list_free :: "'a heap \<Rightarrow> ssh_list option \<Rightarrow> 'a heap option" where
  "ssh_list_free h list = (case list of None \<Rightarrow> Some h | Some l \<Rightarrow> free_from h (root l))"

section \<open>The list a heap holds\<close>

text \<open>\<open>seg h p ps xs r\<close>: following the pointers from \<open>p\<close> through the cells \<open>ps\<close>, which hold \<open>xs\<close>, leads to \<open>r\<close>.\<close>

fun seg :: "'a heap \<Rightarrow> addr option \<Rightarrow> addr list \<Rightarrow> 'a list \<Rightarrow> addr option \<Rightarrow> bool" where
  "seg h p [] [] r = (p = r)"
| "seg h p (q # qs) (x # xs) r =
     (p = Some q \<and> (\<exists>c. cells h q = Some c \<and> dat c = x \<and> seg h (nxt c) qs xs r))"
| "seg h p _ _ r = False"

definition holds :: "'a heap \<Rightarrow> ssh_list \<Rightarrow> addr list \<Rightarrow> 'a list \<Rightarrow> bool" where
  "holds h l ps xs =
     (seg h (root l) ps xs None \<and> tail_of l = (if ps = [] then None else Some (last ps)) \<and>
      distinct ps \<and> (\<forall>p\<in>set ps. p < brk h))"

definition is_list :: "'a heap \<Rightarrow> ssh_list \<Rightarrow> 'a list \<Rightarrow> bool" where
  "is_list h l xs = (\<exists>ps. holds h l ps xs)"

lemma seg_cong:
  "(\<forall>q\<in>set ps. cells h' q = cells h q) \<Longrightarrow> seg h' p ps xs r = seg h p ps xs r"
  by (induction h p ps xs r rule: seg.induct) auto

lemma seg_length: "seg h p ps xs r \<Longrightarrow> length ps = length xs"
  by (induction h p ps xs r rule: seg.induct) auto

lemma seg_append:
  "length ps = length xs \<Longrightarrow> seg h p (ps @ qs) (xs @ ys) r = (\<exists>q. seg h p ps xs q \<and> seg h q qs ys r)"
  by (induction ps xs arbitrary: p rule: list_induct2) auto

lemma seg_splitE:
  assumes "seg h p (ps @ q # qs) xs r"
  obtains ys y zs c where "xs = ys @ y # zs" "seg h p ps ys (Some q)" "cells h q = Some c" "dat c = y"
    "seg h (nxt c) qs zs r"
proof -
  let ?n = "length ps"
  have len: "length xs = ?n + Suc (length qs)" using seg_length [OF assms] by simp
  then obtain ys zs' where xs: "xs = ys @ zs'" "length ys = ?n" "length zs' = Suc (length qs)"
    by (metis append_take_drop_id length_append length_take min.absorb2 le_add1 add_left_imp_eq)
  then obtain y zs where "zs' = y # zs" by (cases zs') auto
  with assms xs show thesis using that by (auto simp: seg_append)
qed

text \<open>Writing the last cell's pointer turns the end of a segment.\<close>

lemma seg_redirect:
  assumes "seg h p (ps @ [a]) xs r" and "distinct (ps @ [a])"
  shows "seg (set_next h a r') p (ps @ [a]) xs r'"
proof -
  from assms(1) obtain ys y c where *: "xs = ys @ [y]" "seg h p ps ys (Some a)" "cells h a = Some c" "dat c = y"
  proof (rule seg_splitE)
    fix ys y zs c assume "xs = ys @ y # zs" "seg h p ps ys (Some a)" "cells h a = Some c" "dat c = y" "seg h (nxt c) [] zs r"
    then show thesis using that by (cases zs) auto
  qed
  have "seg (set_next h a r') p ps ys (Some a)"
    using *(2) assms(2) by (subst seg_cong [where h = h]) (auto simp: set_next_def)
  then show ?thesis using * seg_length [OF *(2)] by (simp add: seg_append set_next_def)
qed

lemma brk_simps [simp]: "brk (set_next h p n) = brk h" "brk (free_cell h p) = brk h"
  by (simp_all add: set_next_def free_cell_def)

text \<open>What each operation does to the list that is held.\<close>

lemma append_holds:
  assumes "holds h l ps xs"
  shows "\<exists>h' l'. ssh_list_append True h (Some l) d = (SSH_OK, h', Some l') \<and> holds h' l' (ps @ [brk h]) (xs @ [d])"
proof -
  let ?h1 = "h\<lparr>cells := (cells h)(brk h \<mapsto> \<lparr>nxt = None, dat = d\<rparr>), brk := Suc (brk h)\<rparr>"
  have fresh: "brk h \<notin> set ps" using assms by (auto simp: holds_def)
  have s1: "seg ?h1 (root l) ps xs None"
    using assms fresh by (subst seg_cong [where h = h]) (auto simp: holds_def)
  show ?thesis
  proof (cases ps rule: rev_cases)
    case Nil
    then show ?thesis using assms
      by (cases xs) (auto simp: ssh_list_append_def ssh_iterator_new_def holds_def)
  next
    case (snoc qs e)
    have ne: "e \<noteq> brk h" using fresh snoc by auto
    have "seg (set_next ?h1 e (Some (brk h))) (root l) (qs @ [e]) xs (Some (brk h))"
      using s1 assms snoc by (intro seg_redirect [where r = None]) (auto simp: holds_def)
    then have "seg (set_next ?h1 e (Some (brk h))) (root l) (ps @ [brk h]) (xs @ [d]) None"
      using snoc ne seg_length [OF s1] by (simp add: seg_append set_next_def del: append_assoc)
    then show ?thesis using assms fresh snoc
      by (auto simp: ssh_list_append_def ssh_iterator_new_def holds_def less_Suc_eq)
  qed
qed

lemma prepend_holds:
  assumes "holds h l ps xs"
  shows "\<exists>h' l'. ssh_list_prepend True h (Some l) d = (SSH_OK, h', Some l') \<and> holds h' l' (brk h # ps) (d # xs)"
proof -
  let ?h1 = "h\<lparr>cells := (cells h)(brk h \<mapsto> \<lparr>nxt = None, dat = d\<rparr>), brk := Suc (brk h)\<rparr>"
  have fresh: "brk h \<notin> set ps" using assms by (auto simp: holds_def)
  have s1: "seg (set_next ?h1 (brk h) (root l)) (root l) ps xs None"
    using assms fresh by (subst seg_cong [where h = h]) (auto simp: holds_def set_next_def)
  show ?thesis
  proof (cases "ps = []")
    case True
    then show ?thesis using assms
      by (cases xs) (auto simp: ssh_list_prepend_def ssh_iterator_new_def holds_def)
  next
    case False
    then show ?thesis using assms fresh s1
      by (auto simp: ssh_list_prepend_def ssh_iterator_new_def holds_def set_next_def less_Suc_eq)
  qed
qed

lemma pop_holds:
  "holds h l [] [] \<Longrightarrow> ssh_list_pop_head h (Some l) = Some (None, h, Some l)"
  "holds h l (p # ps) (x # xs) \<Longrightarrow>
   \<exists>h' l'. ssh_list_pop_head h (Some l) = Some (Some x, h', Some l') \<and> holds h' l' ps xs \<and> cells h' p = None"
proof -
  assume "holds h l [] []"
  then show "ssh_list_pop_head h (Some l) = Some (None, h, Some l)"
    by (simp add: ssh_list_pop_head_def holds_def)
next
  assume a: "holds h l (p # ps) (x # xs)"
  then obtain c where c: "root l = Some p" "cells h p = Some c" "dat c = x" "seg h (nxt c) ps xs None" "p \<notin> set ps"
    by (auto simp: holds_def)
  have s: "seg (free_cell h p) (nxt c) ps xs None"
    using c by (subst seg_cong [where h = h]) (auto simp: free_cell_def)
  have last: "ps \<noteq> [] \<Longrightarrow> last ps \<noteq> p" using c(5) last_in_set by metis
  show "\<exists>h' l'. ssh_list_pop_head h (Some l) = Some (Some x, h', Some l') \<and> holds h' l' ps xs \<and> cells h' p = None"
    using a c s last by (cases ps) (auto simp: ssh_list_pop_head_def holds_def Let_def free_cell_def)
qed

lemma find_prev_seg:
  assumes "seg h ptr ps xs None" "distinct ps"
  shows "find_prev h prev ptr it =
    (if it \<in> set ps then Some (let qs = takeWhile (\<lambda>p. p \<noteq> it) ps in if qs = [] then prev else Some (last qs), Some it)
     else Some (if ps = [] then prev else Some (last ps), None))"
  using assms
proof (induction ps arbitrary: ptr prev xs)
  case Nil
  then show ?case by (cases xs) (auto simp: find_prev.simps)
next
  case (Cons p ps)
  then obtain x xs' c where x: "xs = x # xs'" "ptr = Some p" "cells h p = Some c" "seg h (nxt c) ps xs' None"
    by (cases xs) auto
  then show ?case
    using Cons.IH [OF x(4), of "Some p"] Cons.prems(2)
    by (subst find_prev.simps) (auto simp: Let_def)
qed

lemma remove_holds:
  assumes "holds h l (ps @ it # qs) (xs @ x # ys)" and "length ps = length xs"
  shows "\<exists>h' l'. ssh_list_remove h (Some l) it = Some (h', Some l') \<and> holds h' l' (ps @ qs) (xs @ ys)"
proof -
  have d: "distinct (ps @ it # qs)" and s: "seg h (root l) (ps @ it # qs) (xs @ x # ys) None"
    and t: "tail_of l = Some (last (ps @ it # qs))" and b: "\<forall>p\<in>set (ps @ it # qs). p < brk h"
    using assms by (auto simp: holds_def)
  have tw: "takeWhile (\<lambda>p. p \<noteq> it) (ps @ it # qs) = ps" using d by (subst takeWhile_append2) auto
  have fp: "find_prev h None (root l) it = Some (if ps = [] then None else Some (last ps), Some it)"
    using find_prev_seg [OF s d, of None it] by (simp add: tw Let_def)
  from s assms(2) obtain c where c: "seg h (root l) ps xs (Some it)" "cells h it = Some c" "dat c = x" "seg h (nxt c) qs ys None"
    by (auto simp: seg_append)
  have lastit: "last (ps @ it # qs) = it \<longleftrightarrow> qs = []" using d by (cases qs rule: rev_cases) auto
  show ?thesis
  proof (cases ps rule: rev_cases)
    case Nil
    have s': "seg (free_cell h it) (nxt c) qs ys None"
      using c d by (subst seg_cong [where h = h]) (auto simp: free_cell_def)
    show ?thesis using Nil c s' fp t d b assms(2) lastit
      by (cases qs) (auto simp: ssh_list_remove_def holds_def Let_def)
  next
    case (snoc ps' e)
    let ?h1 = "set_next h e (nxt c)"
    have "seg ?h1 (root l) (ps' @ [e]) xs (nxt c)" using c(1) d snoc by (intro seg_redirect) auto
    then have "seg (free_cell ?h1 it) (root l) ps xs (nxt c)"
      using d snoc by (subst seg_cong [where h = ?h1]) (auto simp: free_cell_def)
    moreover have "seg (free_cell ?h1 it) (nxt c) qs ys None"
      using c(4) d snoc by (subst seg_cong [where h = h]) (auto simp: free_cell_def set_next_def)
    ultimately have s': "seg (free_cell ?h1 it) (root l) (ps @ qs) (xs @ ys) None"
      using assms(2) by (auto simp: seg_append)
    have "root l \<noteq> Some it"
    proof -
      have "ps \<noteq> []" using snoc by simp
      then obtain q ps'' where "ps = q # ps''" by (auto simp: neq_Nil_conv)
      then show ?thesis using c(1) d by (cases xs) auto
    qed
    then show ?thesis using snoc c s' fp t d b lastit
      by (auto simp: ssh_list_remove_def holds_def Let_def)
  qed
qed


lemma find_from_seg:
  "seg h it ps xs None \<Longrightarrow> find_from h it v = Some (map_option ((!) ps) (find_index (\<lambda>x. x = v) xs))"
proof (induction ps arbitrary: it xs)
  case Nil
  then show ?case by (cases xs) (auto simp: find_from.simps)
next
  case (Cons p ps)
  then obtain x xs' c where "xs = x # xs'" "it = Some p" "cells h p = Some c" "dat c = x" "seg h (nxt c) ps xs' None"
    by (cases xs) auto
  then show ?case using Cons.IH [of "nxt c" xs']
    by (subst find_from.simps) (auto simp: option.map_comp comp_def)
qed

lemma count_from_seg: "seg h it ps xs None \<Longrightarrow> count_from h it n = Some (n + length xs)"
proof (induction ps arbitrary: it xs n)
  case Nil
  then show ?case by (cases xs) (auto simp: count_from.simps)
next
  case (Cons p ps)
  then show ?case by (cases xs) (auto simp: count_from.simps)
qed

section \<open>First in, first out\<close>

text \<open>The interface a client of the queue relies on.\<close>

fun pops :: "('s \<Rightarrow> 'a option \<times> 's) \<Rightarrow> nat \<Rightarrow> 's \<Rightarrow> 'a option list" where
  "pops get 0 s = []"
| "pops get (Suc n) s = (let (x, t) = get s in x # pops get n t)"

locale fifo =
  fixes R :: "'s \<Rightarrow> 'a list \<Rightarrow> bool"
    and put :: "'s \<Rightarrow> 'a \<Rightarrow> 's"
    and get :: "'s \<Rightarrow> 'a option \<times> 's"
  assumes put_R: "R s xs \<Longrightarrow> R (put s x) (xs @ [x])"
    and get_empty: "R s [] \<Longrightarrow> fst (get s) = None \<and> R (snd (get s)) []"
    and get_R: "R s (x # xs) \<Longrightarrow> fst (get s) = Some x \<and> R (snd (get s)) xs"
begin

lemma puts_R: "R s xs \<Longrightarrow> R (foldl put s ys) (xs @ ys)"
proof (induction ys arbitrary: s xs)
  case (Cons y ys)
  then show ?case using Cons.IH [OF put_R [of s xs y]] by simp
qed simp

lemma pops_R: "R s xs \<Longrightarrow> pops get n s = map Some (take n xs) @ replicate (n - length xs) None"
proof (induction n arbitrary: s xs)
  case (Suc n)
  show ?case
  proof (cases xs)
    case Nil
    with Suc.prems Suc.IH [of "snd (get s)" "[]"] get_empty [of s] show ?thesis by (cases "get s") simp
  next
    case (Cons x ys)
    with Suc.prems Suc.IH [of "snd (get s)" ys] get_R [of s x ys] show ?thesis by (cases "get s") simp
  qed
qed simp

lemma in_order: "R s [] \<Longrightarrow> pops get (length ys) (foldl put s ys) = map Some ys"
  using pops_R [OF puts_R [of s "[]" ys], of "length ys"] by simp

end

text \<open>The library's lists provide it: a heap and the list in it.\<close>

definition list_put :: "'a heap \<times> ssh_list option \<Rightarrow> 'a \<Rightarrow> 'a heap \<times> ssh_list option" where
  "list_put s d = snd (ssh_list_append True (fst s) (snd s) d)"

definition list_get :: "'a heap \<times> ssh_list option \<Rightarrow> 'a option \<times> ('a heap \<times> ssh_list option)" where
  "list_get s = (case ssh_list_pop_head (fst s) (snd s) of None \<Rightarrow> (None, s) | Some r \<Rightarrow> r)"

definition queue_of :: "'a heap \<times> ssh_list option \<Rightarrow> 'a list \<Rightarrow> bool" where
  "queue_of s xs = (\<exists>l. snd s = Some l \<and> is_list (fst s) l xs)"

interpretation lq: fifo queue_of list_put list_get
proof
  fix s :: "'a heap \<times> ssh_list option" and xs and x :: 'a
  obtain h r where s: "s = (h, r)" by (cases s)
  show "queue_of s xs \<Longrightarrow> queue_of (list_put s x) (xs @ [x])"
    using append_holds [of h _ _ xs x] s by (fastforce simp: queue_of_def is_list_def list_put_def)
  show "queue_of s [] \<Longrightarrow> fst (list_get s) = None \<and> queue_of (snd (list_get s)) []"
  proof -
    assume "queue_of s []"
    then obtain l ps where l: "r = Some l" "holds h l ps []" using s by (auto simp: queue_of_def is_list_def)
    then have "ps = []" by (auto simp: holds_def dest: seg_length)
    with l s show ?thesis using pop_holds(1) [of h l] by (auto simp: list_get_def queue_of_def is_list_def)
  qed
  show "queue_of s (x # xs) \<Longrightarrow> fst (list_get s) = Some x \<and> queue_of (snd (list_get s)) xs"
  proof -
    assume "queue_of s (x # xs)"
    then obtain l ps where l: "r = Some l" "holds h l ps (x # xs)" using s by (auto simp: queue_of_def is_list_def)
    then obtain p qs where "ps = p # qs" by (cases ps) (auto simp: holds_def)
    with l s show ?thesis using pop_holds(2) [of h l p qs x xs] by (auto simp: list_get_def queue_of_def is_list_def)
  qed
qed

text \<open>
  C38: The linked lists are the lists they stand for. On a list that is intact, with allocations
  succeeding, appending and prepending add at the two ends, taking the head gives the first
  element, or null on an empty list, counting and finding return, and removing a cell that
  holds an element removes that element and leaves every other one in its place.
\<close>

theorem list_refines:
  assumes "holds h l ps xs"
  shows "(\<exists>h' l'. ssh_list_append True h (Some l) d = (SSH_OK, h', Some l') \<and> is_list h' l' (xs @ [d])) \<and>
    (\<exists>h' l'. ssh_list_prepend True h (Some l) d = (SSH_OK, h', Some l') \<and> is_list h' l' (d # xs)) \<and>
    (\<exists>h' l'. ssh_list_pop_head h (Some l) = Some (if xs = [] then None else Some (hd xs), h', Some l') \<and> is_list h' l' (tl xs)) \<and>
    ssh_list_count h (Some l) = Some (length xs) \<and>
    ssh_list_find h (Some l) v = Some (map_option ((!) ps) (find_index (\<lambda>x. x = v) xs)) \<and>
    (\<forall>i<length xs. \<exists>h' l'. ssh_list_remove h (Some l) (ps ! i) = Some (h', Some l') \<and>
       is_list h' l' (take i xs @ drop (Suc i) xs))"
proof (intro conjI allI impI)
  show "\<exists>h' l'. ssh_list_append True h (Some l) d = (SSH_OK, h', Some l') \<and> is_list h' l' (xs @ [d])"
    using append_holds [OF assms] by (fastforce simp: is_list_def)
  show "\<exists>h' l'. ssh_list_prepend True h (Some l) d = (SSH_OK, h', Some l') \<and> is_list h' l' (d # xs)"
    using prepend_holds [OF assms] by (fastforce simp: is_list_def)
  have len: "length ps = length xs" using assms by (auto simp: holds_def dest: seg_length)
  then show "\<exists>h' l'. ssh_list_pop_head h (Some l) = Some (if xs = [] then None else Some (hd xs), h', Some l') \<and> is_list h' l' (tl xs)"
    using assms pop_holds(1) [of h l] pop_holds(2) [of h l "hd ps" "tl ps" "hd xs" "tl xs"]
    by (cases ps; cases xs) (auto simp: is_list_def)
  show "ssh_list_count h (Some l) = Some (length xs)"
    using assms count_from_seg [of h "root l" ps xs 0] by (simp add: ssh_list_count_def ssh_list_get_iterator_def holds_def)
  show "ssh_list_find h (Some l) v = Some (map_option ((!) ps) (find_index (\<lambda>x. x = v) xs))"
    using assms find_from_seg [of h "root l" ps xs v] by (simp add: ssh_list_find_def ssh_list_get_iterator_def holds_def)
  fix i assume i: "i < length xs"
  have "ps = take i ps @ (ps ! i) # drop (Suc i) ps" "xs = take i xs @ (xs ! i) # drop (Suc i) xs"
    using i len by (simp_all add: id_take_nth_drop [symmetric])
  with assms have "holds h l (take i ps @ (ps ! i) # drop (Suc i) ps) (take i xs @ (xs ! i) # drop (Suc i) xs)" by simp
  from remove_holds [OF this] len
  show "\<exists>h' l'. ssh_list_remove h (Some l) (ps ! i) = Some (h', Some l') \<and> is_list h' l' (take i xs @ drop (Suc i) xs)"
    by (fastforce simp: is_list_def)
qed

definition two_cells :: "nat heap" where
  "two_cells = \<lparr>cells = [0 \<mapsto> \<lparr>nxt = Some 1, dat = 7\<rparr>, 1 \<mapsto> \<lparr>nxt = None, dat = 8\<rparr>], brk = 2\<rparr>"

theorem list_refines_witness:
  "holds two_cells \<lparr>root = Some 0, tail_of = Some 1\<rparr> [0, 1] [7, 8] \<and>
   ssh_list_count two_cells (Some \<lparr>root = Some 0, tail_of = Some 1\<rparr>) = Some 2"
proof -
  have h: "holds two_cells \<lparr>root = Some 0, tail_of = Some 1\<rparr> [0, 1] [7, 8]"
    by (simp add: holds_def two_cells_def)
  show ?thesis using h list_refines [OF h] by simp
qed

text \<open>
  What is queued comes out in the order it went in. Whatever is appended to an empty list,
  taking the head as many times gives it back, first in, first out.
\<close>

theorem list_first_in_first_out:
  "pops list_get (length ds) (foldl list_put (\<lparr>cells = (\<lambda>_. None), brk = 0\<rparr>, ssh_list_new True) ds) = map Some ds"
proof (rule lq.in_order)
  show "queue_of (\<lparr>cells = (\<lambda>_. None), brk = 0\<rparr>, ssh_list_new True) []"
    by (auto simp: queue_of_def is_list_def holds_def ssh_list_new_def intro!: exI [of _ "[]"])
qed

end
