(* ===== verification/Kex_Dh.thy ===== *)
theory Kex_Dh
  imports Kex_State
begin

text \<open>
  Diffie-Hellman over the fixed groups (\<open>dh.c\<close>, \<open>dh_key.c\<close>): the groups, the pair of key pairs of an
  exchange, and the shared secret. The big numbers are mbedTLS's; what is used of it is a record of
  functions. None is an access through a null pointer.
\<close>

section \<open>Big numbers\<close>

text \<open>
  Whether a new number can be allocated; the number of bits; random numbers of so many bits;
  remainder and modular power, which may fail; and the conversions to and from bytes.
\<close>

record bn_lib =
  bn_alloc :: bool
  bn_bits :: "bignum \<Rightarrow> nat"
  bn_rand :: "nat \<Rightarrow> bignum option"
  bn_mod :: "bignum \<Rightarrow> bignum \<Rightarrow> bignum option"
  bn_mod_exp :: "bignum \<Rightarrow> bignum \<Rightarrow> bignum \<Rightarrow> bignum option"
  bn_bin :: "bignum \<Rightarrow> byte list"
  bn_read :: "byte list \<Rightarrow> bignum"

definition bignum_new :: "bn_lib \<Rightarrow> bignum option" where
  "bignum_new bn = (if bn_alloc bn then Some 0 else None)"

section \<open>The groups\<close>

text \<open>The bytes of each prime, 32 to an entry.\<close>

definition p_group1_value :: "nat list" where
  "p_group1_value =
     [0xFFFFFFFFFFFFFFFFC90FDAA22168C234C4C6628B80DC1CD129024E088A67CC74,
      0x020BBEA63B139B22514A08798E3404DDEF9519B3CD3A431B302B0A6DF25F1437,
      0x4FE1356D6D51C245E485B576625E7EC6F44C42E9A637ED6B0BFF5CB6F406B7ED,
      0xEE386BFB5A899FA5AE9F24117C4B1FE649286651ECE65381FFFFFFFFFFFFFFFF]"

definition p_group14_value :: "nat list" where
  "p_group14_value =
     [0xFFFFFFFFFFFFFFFFC90FDAA22168C234C4C6628B80DC1CD129024E088A67CC74,
      0x020BBEA63B139B22514A08798E3404DDEF9519B3CD3A431B302B0A6DF25F1437,
      0x4FE1356D6D51C245E485B576625E7EC6F44C42E9A637ED6B0BFF5CB6F406B7ED,
      0xEE386BFB5A899FA5AE9F24117C4B1FE649286651ECE45B3DC2007CB8A163BF05,
      0x98DA48361C55D39A69163FA8FD24CF5F83655D23DCA3AD961C62F356208552BB,
      0x9ED529077096966D670C354E4ABC9804F1746C08CA18217C32905E462E36CE3B,
      0xE39E772C180E86039B2783A2EC07A28FB5C55DF06F4C52C9DE2BCBF695581718,
      0x3995497CEA956AE515D2261898FA051015728E5A8AACAA68FFFFFFFFFFFFFFFF]"

definition p_group16_value :: "nat list" where
  "p_group16_value =
     [0xFFFFFFFFFFFFFFFFC90FDAA22168C234C4C6628B80DC1CD129024E088A67CC74,
      0x020BBEA63B139B22514A08798E3404DDEF9519B3CD3A431B302B0A6DF25F1437,
      0x4FE1356D6D51C245E485B576625E7EC6F44C42E9A637ED6B0BFF5CB6F406B7ED,
      0xEE386BFB5A899FA5AE9F24117C4B1FE649286651ECE45B3DC2007CB8A163BF05,
      0x98DA48361C55D39A69163FA8FD24CF5F83655D23DCA3AD961C62F356208552BB,
      0x9ED529077096966D670C354E4ABC9804F1746C08CA18217C32905E462E36CE3B,
      0xE39E772C180E86039B2783A2EC07A28FB5C55DF06F4C52C9DE2BCBF695581718,
      0x3995497CEA956AE515D2261898FA051015728E5A8AAAC42DAD33170D04507A33,
      0xA85521ABDF1CBA64ECFB850458DBEF0A8AEA71575D060C7DB3970F85A6E1E4C7,
      0xABF5AE8CDB0933D71E8C94E04A25619DCEE3D2261AD2EE6BF12FFA06D98A0864,
      0xD87602733EC86A64521F2B18177B200CBBE117577A615D6C770988C0BAD946E2,
      0x08E24FA074E5AB3143DB5BFCE0FD108E4B82D120A92108011A723C12A787E6D7,
      0x88719A10BDBA5B2699C327186AF4E23C1A946834B6150BDA2583E9CA2AD44CE8,
      0xDBBBC2DB04DE8EF92E8EFC141FBECAA6287C59474E6BC05D99B2964FA090C3A2,
      0x233BA186515BE7ED1F612970CEE2D7AFB81BDD762170481CD0069127D5B05AA9,
      0x93B4EA988D8FDDC186FFB7DC90A6C08F4DF435C934063199FFFFFFFFFFFFFFFF]"

definition p_group18_value :: "nat list" where
  "p_group18_value =
     [0xFFFFFFFFFFFFFFFFC90FDAA22168C234C4C6628B80DC1CD129024E088A67CC74,
      0x020BBEA63B139B22514A08798E3404DDEF9519B3CD3A431B302B0A6DF25F1437,
      0x4FE1356D6D51C245E485B576625E7EC6F44C42E9A637ED6B0BFF5CB6F406B7ED,
      0xEE386BFB5A899FA5AE9F24117C4B1FE649286651ECE45B3DC2007CB8A163BF05,
      0x98DA48361C55D39A69163FA8FD24CF5F83655D23DCA3AD961C62F356208552BB,
      0x9ED529077096966D670C354E4ABC9804F1746C08CA18217C32905E462E36CE3B,
      0xE39E772C180E86039B2783A2EC07A28FB5C55DF06F4C52C9DE2BCBF695581718,
      0x3995497CEA956AE515D2261898FA051015728E5A8AAAC42DAD33170D04507A33,
      0xA85521ABDF1CBA64ECFB850458DBEF0A8AEA71575D060C7DB3970F85A6E1E4C7,
      0xABF5AE8CDB0933D71E8C94E04A25619DCEE3D2261AD2EE6BF12FFA06D98A0864,
      0xD87602733EC86A64521F2B18177B200CBBE117577A615D6C770988C0BAD946E2,
      0x08E24FA074E5AB3143DB5BFCE0FD108E4B82D120A92108011A723C12A787E6D7,
      0x88719A10BDBA5B2699C327186AF4E23C1A946834B6150BDA2583E9CA2AD44CE8,
      0xDBBBC2DB04DE8EF92E8EFC141FBECAA6287C59474E6BC05D99B2964FA090C3A2,
      0x233BA186515BE7ED1F612970CEE2D7AFB81BDD762170481CD0069127D5B05AA9,
      0x93B4EA988D8FDDC186FFB7DC90A6C08F4DF435C93402849236C3FAB4D27C7026,
      0xC1D4DCB2602646DEC9751E763DBA37BDF8FF9406AD9E530EE5DB382F413001AE,
      0xB06A53ED9027D831179727B0865A8918DA3EDBEBCF9B14ED44CE6CBACED4BB1B,
      0xDB7F1447E6CC254B332051512BD7AF426FB8F401378CD2BF5983CA01C64B92EC,
      0xF032EA15D1721D03F482D7CE6E74FEF6D55E702F46980C82B5A84031900B1C9E,
      0x59E7C97FBEC7E8F323A97A7E36CC88BE0F1D45B7FF585AC54BD407B22B4154AA,
      0xCC8F6D7EBF48E1D814CC5ED20F8037E0A79715EEF29BE32806A1D58BB7C5DA76,
      0xF550AA3D8A1FBFF0EB19CCB1A313D55CDA56C9EC2EF29632387FE8D76E3C0468,
      0x043E8F663F4860EE12BF2D5B0B7474D6E694F91E6DBE115974A3926F12FEE5E4,
      0x38777CB6A932DF8CD8BEC4D073B931BA3BC832B68D9DD300741FA7BF8AFC47ED,
      0x2576F6936BA424663AAB639C5AE4F5683423B4742BF1C978238F16CBE39D652D,
      0xE3FDB8BEFC848AD922222E04A4037C0713EB57A81A23F0C73473FC646CEA306B,
      0x4BCBC8862F8385DDFA9D4B7FA2C087E879683303ED5BDD3A062B3CF5B3A278A6,
      0x6D2A13F83F44F82DDF310EE074AB6A364597E899A0255DC164F31CC50846851D,
      0xF9AB48195DED7EA1B1D510BD7EE74D73FAF36BC31ECFA268359046F4EB879F92,
      0x4009438B481C6CD7889A002ED5EE382BC9190DA6FC026E479558E4475677E9AA,
      0x9E3050E2765694DFC81F56E880B96E7160C980DD98EDD3DFFFFFFFFFFFFFFFFF]"

text \<open>\<open>bignum_bin2bn\<close> of a table: its bytes are one number, the most significant first.\<close>

definition number_of_words :: "nat list \<Rightarrow> bignum" where
  "number_of_words ws = foldl (\<lambda>n w. n * 2 ^ 256 + w) 0 ws"

text \<open>The globals of \<open>dh.c\<close>.\<close>

record dh_globals =
  dh_crypto_initialized :: bool
  ssh_dh_generator :: "bignum option"
  ssh_dh_group1 :: "bignum option"
  ssh_dh_group14 :: "bignum option"
  ssh_dh_group16 :: "bignum option"
  ssh_dh_group18 :: "bignum option"

definition ssh_dh_finalize :: "dh_globals \<Rightarrow> dh_globals" where
  "ssh_dh_finalize d =
     (if \<not> dh_crypto_initialized d then d
      else \<lparr>dh_crypto_initialized = False, ssh_dh_generator = None, ssh_dh_group1 = None, ssh_dh_group14 = None,
            ssh_dh_group16 = None, ssh_dh_group18 = None\<rparr>)"

definition ssh_dh_init :: "bn_lib \<Rightarrow> dh_globals \<Rightarrow> int \<times> dh_globals" where
  "ssh_dh_init bn d =
     (if dh_crypto_initialized d then (SSH_OK, d)
      else if \<not> bn_alloc bn then (SSH_ERROR, ssh_dh_finalize (d\<lparr>dh_crypto_initialized := True, ssh_dh_generator := None\<rparr>))
      else (0, \<lparr>dh_crypto_initialized = True, ssh_dh_generator = Some 2,
                ssh_dh_group1 = Some (number_of_words p_group1_value),
                ssh_dh_group14 = Some (number_of_words p_group14_value),
                ssh_dh_group16 = Some (number_of_words p_group16_value),
                ssh_dh_group18 = Some (number_of_words p_group18_value)\<rparr>))"

section \<open>Key pairs\<close>

abbreviation (input) DH_CLIENT_KEYPAIR :: nat where "DH_CLIENT_KEYPAIR \<equiv> 0"
abbreviation (input) DH_SERVER_KEYPAIR :: nat where "DH_SERVER_KEYPAIR \<equiv> 1"

definition DH_SECURITY_BITS :: nat where "DH_SECURITY_BITS = 512"

definition keypair :: "nat \<Rightarrow> dh_ctx \<Rightarrow> dh_keypair" where
  "keypair peer ctx = (if peer = DH_CLIENT_KEYPAIR then client_pair ctx else server_pair ctx)"

definition put_keypair :: "nat \<Rightarrow> dh_keypair \<Rightarrow> dh_ctx \<Rightarrow> dh_ctx" where
  "put_keypair peer k ctx = (if peer = DH_CLIENT_KEYPAIR then ctx\<lparr>client_pair := k\<rparr> else ctx\<lparr>server_pair := k\<rparr>)"

definition ssh_dh_free_dh_keypair :: "dh_keypair \<Rightarrow> dh_keypair" where
  "ssh_dh_free_dh_keypair k = \<lparr>priv_key = None, pub_key = None\<rparr>"

definition ssh_dh_init_dh_keypair :: "bn_lib \<Rightarrow> int \<times> dh_keypair" where
  "ssh_dh_init_dh_keypair bn =
     (case bignum_new bn of
        None \<Rightarrow> (SSH_ERROR, \<lparr>priv_key = None, pub_key = None\<rparr>)
      | Some x \<Rightarrow>
          (case bignum_new bn of
             None \<Rightarrow> (SSH_ERROR, ssh_dh_free_dh_keypair \<lparr>priv_key = Some x, pub_key = None\<rparr>)
           | Some y \<Rightarrow> (SSH_OK, \<lparr>priv_key = Some x, pub_key = Some y\<rparr>)))"

text \<open>One key of a pair, which must not be zero.\<close>

definition nonzero_key :: "bn_lib \<Rightarrow> bignum option \<Rightarrow> (int \<times> bignum option) option" where
  "nonzero_key bn k = map_option (\<lambda>x. if bn_bits bn x \<noteq> 0 then (SSH_OK, Some x) else (SSH_ERROR, None)) k"

text \<open>\<open>want_priv\<close> and \<open>want_pub\<close> tell which result pointers are not null.\<close>

definition ssh_dh_keypair_get_keys ::
  "bn_lib \<Rightarrow> dh_ctx option \<Rightarrow> nat \<Rightarrow> bool \<Rightarrow> bool \<Rightarrow> (int \<times> bignum option \<times> bignum option) option" where
  "ssh_dh_keypair_get_keys bn ctx peer want_priv want_pub =
     (if (peer \<noteq> DH_CLIENT_KEYPAIR \<and> peer \<noteq> DH_SERVER_KEYPAIR) \<or> (\<not> want_priv \<and> \<not> want_pub) \<or> ctx = None
      then Some (SSH_ERROR, None, None)
      else
        let k = keypair peer (the ctx) in
        Option.bind (if want_priv then nonzero_key bn (priv_key k) else Some (SSH_OK, None)) (\<lambda>(rc, priv).
          if rc \<noteq> SSH_OK then Some (SSH_ERROR, None, None)
          else Option.bind (if want_pub then nonzero_key bn (pub_key k) else Some (SSH_OK, None)) (\<lambda>(rc2, pub).
            Some (rc2, priv, pub))))"

definition ssh_dh_keypair_set_keys ::
  "dh_ctx option \<Rightarrow> nat \<Rightarrow> bignum option \<Rightarrow> bignum option \<Rightarrow> int \<times> dh_ctx option" where
  "ssh_dh_keypair_set_keys ctx peer priv pub =
     (if (peer \<noteq> DH_CLIENT_KEYPAIR \<and> peer \<noteq> DH_SERVER_KEYPAIR) \<or> (priv = None \<and> pub = None) \<or> ctx = None
      then (SSH_ERROR, ctx)
      else
        let k = keypair peer (the ctx);
            k1 = (if priv = None then k else k\<lparr>priv_key := priv\<rparr>);
            k2 = (if pub = None then k1 else k1\<lparr>pub_key := pub\<rparr>)
        in (SSH_OK, Some (put_keypair peer k2 (the ctx))))"

definition ssh_dh_get_parameters :: "dh_ctx option \<Rightarrow> int \<times> bignum option \<times> bignum option" where
  "ssh_dh_get_parameters ctx =
     (case ctx of None \<Rightarrow> (SSH_ERROR, None, None) | Some c \<Rightarrow> (SSH_OK, dh_modulus c, dh_generator c))"

definition ssh_dh_set_parameters :: "bn_lib \<Rightarrow> dh_ctx option \<Rightarrow> bignum option \<Rightarrow> bignum option \<Rightarrow> int \<times> dh_ctx option" where
  "ssh_dh_set_parameters bn ctx modulus generator =
     (case ctx of
        None \<Rightarrow> (SSH_ERROR, None)
      | Some c \<Rightarrow>
          if modulus = None \<and> generator = None then (SSH_ERROR, ctx)
          else
            let (rc, k) = ssh_dh_init_dh_keypair bn;
                c1 = c\<lparr>client_pair := k, server_pair := ssh_dh_free_dh_keypair (server_pair c)\<rparr>
            in if rc \<noteq> SSH_OK then (rc, Some c1)
               else
                 let (rc2, k2) = ssh_dh_init_dh_keypair bn; c2 = c1\<lparr>server_pair := k2\<rparr>
                 in if rc2 \<noteq> SSH_OK then (rc2, Some c2)
                    else
                      let c3 = (if modulus = None then c2 else c2\<lparr>dh_modulus := modulus\<rparr>);
                          c4 = (if generator = None then c3 else c3\<lparr>dh_generator := generator\<rparr>)
                      in (rc2, Some c4))"

text \<open>\<open>ssh_dh_init_common\<close> and \<open>ssh_dh_cleanup\<close> on the context of a key exchange of type \<open>t\<close>.\<close>

definition dh_group :: "dh_globals \<Rightarrow> kex_type \<Rightarrow> bignum option option" where
  "dh_group d t =
     (case t of
        SSH_KEX_DH_GROUP1_SHA1 \<Rightarrow> Some (ssh_dh_group1 d)
      | SSH_KEX_DH_GROUP14_SHA1 \<Rightarrow> Some (ssh_dh_group14 d)
      | SSH_KEX_DH_GROUP14_SHA256 \<Rightarrow> Some (ssh_dh_group14 d)
      | SSH_KEX_DH_GROUP16_SHA512 \<Rightarrow> Some (ssh_dh_group16 d)
      | SSH_KEX_DH_GROUP18_SHA512 \<Rightarrow> Some (ssh_dh_group18 d)
      | _ \<Rightarrow> None)"

definition zero_ctx :: dh_ctx where
  "zero_ctx =
     \<lparr>client_pair = \<lparr>priv_key = None, pub_key = None\<rparr>, server_pair = \<lparr>priv_key = None, pub_key = None\<rparr>,
      dh_generator = None, dh_modulus = None\<rparr>"

definition ssh_dh_init_common :: "bn_lib \<Rightarrow> dh_globals \<Rightarrow> kex_crypto \<Rightarrow> int \<times> kex_crypto" where
  "ssh_dh_init_common bn d k =
     (let k1 = k\<lparr>dh_ctx := None\<rparr> in
      if \<not> bn_alloc bn then (SSH_ERROR, k1)
      else
        let (rc, ctx) = (case dh_group d (kex_type k) of
                           None \<Rightarrow> (SSH_OK, Some zero_ctx)
                         | Some p \<Rightarrow> ssh_dh_set_parameters bn (Some zero_ctx) p (ssh_dh_generator d))
        in (rc, k1\<lparr>dh_ctx := if rc \<noteq> SSH_OK then None else ctx\<rparr>))"

definition ssh_dh_cleanup :: "kex_crypto \<Rightarrow> kex_crypto" where
  "ssh_dh_cleanup k = k\<lparr>dh_ctx := None\<rparr>"

text \<open>The bits of a private key, for a modulus of \<open>p_bits\<close>.\<close>

definition private_bits :: "nat \<Rightarrow> nat" where
  "private_bits p_bits =
     (let bits = min (DH_SECURITY_BITS * 2) p_bits
      in if bits \<le> p_bits \<and> p_bits < bits + 64 then bits + 64 else bits)"

definition ssh_dh_keypair_gen_keys :: "bn_lib \<Rightarrow> dh_ctx \<Rightarrow> nat \<Rightarrow> (int \<times> dh_ctx) option" where
  "ssh_dh_keypair_gen_keys bn ctx peer =
     (if \<not> bn_alloc bn then Some (SSH_ERROR, ctx)
      else Option.bind (dh_modulus ctx) (\<lambda>p.
        case bn_rand bn (private_bits (bn_bits bn p)) of
          None \<Rightarrow> Some (SSH_ERROR, ctx)
        | Some tmp \<Rightarrow>
            Option.bind (priv_key (keypair peer ctx)) (\<lambda>_.
              case bn_mod bn tmp p of
                None \<Rightarrow> Some (SSH_ERROR, ctx)
              | Some x \<Rightarrow>
                  let ctx1 = put_keypair peer ((keypair peer ctx)\<lparr>priv_key := Some x\<rparr>) ctx in
                  Option.bind (pub_key (keypair peer ctx1)) (\<lambda>_.
                  Option.bind (dh_generator ctx1) (\<lambda>g.
                    case bn_mod_exp bn g x p of
                      None \<Rightarrow> Some (SSH_ERROR, ctx1)
                    | Some e \<Rightarrow> Some (SSH_OK, put_keypair peer ((keypair peer ctx1)\<lparr>pub_key := Some e\<rparr>) ctx1))))))"

text \<open>\<open>dest\<close> is the number the secret is stored in, or null.\<close>

definition ssh_dh_compute_shared_secret ::
  "bn_lib \<Rightarrow> dh_ctx \<Rightarrow> nat \<Rightarrow> nat \<Rightarrow> bignum option \<Rightarrow> (int \<times> bignum option) option" where
  "ssh_dh_compute_shared_secret bn ctx local_peer remote_peer dest =
     (case (case dest of None \<Rightarrow> bignum_new bn | Some x \<Rightarrow> Some x) of
        None \<Rightarrow> Some (SSH_ERROR, None)
      | Some x \<Rightarrow>
          Option.bind (pub_key (keypair remote_peer ctx)) (\<lambda>f.
          Option.bind (priv_key (keypair local_peer ctx)) (\<lambda>y.
          Option.bind (dh_modulus ctx) (\<lambda>p.
            case bn_mod_exp bn f y p of None \<Rightarrow> Some (SSH_ERROR, Some x) | Some k \<Rightarrow> Some (SSH_OK, Some k)))))"


section \<open>The secret\<close>

text \<open>mbedTLS documents the modular power for odd moduli.\<close>

definition mod_exp_documented :: "bn_lib \<Rightarrow> bool" where
  "mod_exp_documented bn \<longleftrightarrow> (\<forall>b e m. odd m \<longrightarrow> bn_mod_exp bn b e m = Some (b ^ e mod m))"

lemma keypair_put [simp]:
  "keypair peer (put_keypair peer k ctx) = k"
  "peer \<noteq> 0 \<Longrightarrow> keypair 0 (put_keypair peer k ctx) = keypair 0 ctx"
  "peer \<noteq> 0 \<Longrightarrow> keypair peer (put_keypair 0 k ctx) = keypair peer ctx"
  "dh_modulus (put_keypair peer k ctx) = dh_modulus ctx"
  "dh_generator (put_keypair peer k ctx) = dh_generator ctx"
  by (auto simp: keypair_def put_keypair_def)

lemma gen_keys_ok:
  assumes "ssh_dh_keypair_gen_keys bn ctx peer = Some (SSH_OK, ctx')" and "mod_exp_documented bn"
    and "dh_modulus ctx = Some p" and "odd p" and "dh_generator ctx = Some g"
  shows "\<exists>x. priv_key (keypair peer ctx') = Some x \<and> pub_key (keypair peer ctx') = Some (g ^ x mod p) \<and> dh_modulus ctx' = Some p"
  using assms by (auto simp: ssh_dh_keypair_gen_keys_def mod_exp_documented_def bind_eq_Some_conv split: option.splits if_splits)


text \<open>A library with small numbers, to evaluate the functions on.\<close>

definition demo_bn :: "nat \<Rightarrow> bn_lib" where
  "demo_bn r =
     \<lparr>bn_alloc = True, bn_bits = (\<lambda>n. if n = 0 then 0 else 8), bn_rand = (\<lambda>_. Some r), bn_mod = (\<lambda>a b. Some (a mod b)),
      bn_mod_exp = (\<lambda>b e m. if odd m then Some (b ^ e mod m) else None),
      bn_bin = (\<lambda>n. if n = 0 then [] else [of_nat n]), bn_read = (\<lambda>bs. foldl (\<lambda>n b. 256 * n + unat b) 0 bs)\<rparr>"

definition demo_ctx :: "nat \<Rightarrow> dh_ctx" where
  "demo_ctx p =
     \<lparr>client_pair = \<lparr>priv_key = Some 0, pub_key = Some 0\<rparr>, server_pair = \<lparr>priv_key = Some 0, pub_key = Some 0\<rparr>,
      dh_generator = Some 2, dh_modulus = Some p\<rparr>"


text \<open>
  The public key of the server is not checked. RFC 4253 (8) forbids keys outside the range from
  1 to \<open>p - 1\<close>; \<open>ssh_dh_keypair_set_keys\<close> stores any number, and \<open>ssh_dh_compute_shared_secret\<close> uses
  it: with \<open>p + 1\<close> the secret is 1 for every private key, with \<open>p\<close> it is 0 for all but the key 0.
\<close>

theorem dh_range_not_checked:
  assumes "mod_exp_documented bn" and "bn_alloc bn" and "odd p" and "1 < p"
    and "dh_modulus a = Some p" and "priv_key (client_pair a) = Some x"
  shows "\<exists>a1 a2.
    ssh_dh_keypair_set_keys (Some a) DH_SERVER_KEYPAIR None (Some (p + 1)) = (SSH_OK, Some a1) \<and>
    ssh_dh_compute_shared_secret bn a1 DH_CLIENT_KEYPAIR DH_SERVER_KEYPAIR None = Some (SSH_OK, Some 1) \<and>
    ssh_dh_keypair_set_keys (Some a) DH_SERVER_KEYPAIR None (Some p) = (SSH_OK, Some a2) \<and>
    ssh_dh_compute_shared_secret bn a2 DH_CLIENT_KEYPAIR DH_SERVER_KEYPAIR None =
      Some (SSH_OK, Some (if x = 0 then 1 else 0))"
proof -
  have "(p + 1) ^ x mod p = 1" using assms(4) by (metis mod_add_self1 mod_less power_mod power_one)
  moreover have "p ^ x mod p = (if x = 0 then 1 else 0)" using assms(4) by (cases x) auto
  ultimately show ?thesis
    using assms
    by (simp add: ssh_dh_keypair_set_keys_def ssh_dh_compute_shared_secret_def Let_def put_keypair_def keypair_def
        bignum_new_def mod_exp_documented_def)
qed

theorem dh_range_not_checked_witness:
  "\<exists>a1. ssh_dh_keypair_set_keys (Some (demo_ctx 23)) DH_SERVER_KEYPAIR None (Some 24) = (SSH_OK, Some a1) \<and>
    ssh_dh_compute_shared_secret (demo_bn 6) a1 DH_CLIENT_KEYPAIR DH_SERVER_KEYPAIR None = Some (SSH_OK, Some 1)"
proof -
  have "mod_exp_documented (demo_bn 6)" by (simp add: mod_exp_documented_def demo_bn_def)
  from dh_range_not_checked [OF this, of 23 "demo_ctx 23" 0] show ?thesis by (auto simp: demo_bn_def demo_ctx_def)
qed

end
