(* ===== verification/Kex_Cipher.thy ===== *)
theory Kex_Cipher
  imports Kex_Choice Packet_State
begin

text \<open>
  The tables of ciphers (\<open>libmbedcrypto.c\<close>) and of MACs (\<open>wrapper.c\<close>), and the search in them. The
  functions a row points to use mbedTLS and are parameters; mbedTLS is taken to be built without
  ChaCha20, and \<open>gcm\<close> says whether it has GCM.
\<close>

section \<open>Ciphers\<close>

text \<open>The functions behind the rows: those of the block ciphers and those of the authenticated ones, by the row's name.\<close>

record 'k cipher_funs =
  zero_context :: "string \<Rightarrow> 'k"
  encrypt_key :: "string \<Rightarrow> 'k \<Rightarrow> byte list \<Rightarrow> byte list \<Rightarrow> int \<times> 'k"
  decrypt_key :: "string \<Rightarrow> 'k \<Rightarrow> byte list \<Rightarrow> byte list \<Rightarrow> int \<times> 'k"
  cipher_encrypt :: "string \<Rightarrow> 'k \<Rightarrow> byte list \<Rightarrow> byte list \<times> 'k"
  cipher_decrypt :: "string \<Rightarrow> 'k \<Rightarrow> byte list \<Rightarrow> byte list \<times> 'k"
  encrypt_gcm :: "string \<Rightarrow> 'k \<Rightarrow> byte list \<Rightarrow> u64 \<Rightarrow> byte list \<times> byte list \<times> 'k"
  gcm_get_length :: "string \<Rightarrow> 'k \<Rightarrow> byte list \<Rightarrow> nat \<Rightarrow> u64 \<Rightarrow> int \<times> byte list \<times> 'k"
  decrypt_gcm :: "string \<Rightarrow> 'k \<Rightarrow> byte list \<Rightarrow> nat \<Rightarrow> u64 \<Rightarrow> int \<times> byte list \<times> 'k"

text \<open>A row without functions, as the one of ChaCha20 is; calling its null pointers has no meaning here.\<close>

definition empty_row :: "'k cipher_funs \<Rightarrow> string \<Rightarrow> 'k ssh_cipher" where
  "empty_row fs name =
     \<lparr>cipher_name = name, blocksize = 0, ciphertype = SSH_NO_CIPHER, lenfield_blocksize = 0, keysize = 0, packets = 0,
      blocks = 0, max_blocks = 0, kctx = zero_context fs name, set_encrypt_key = None, set_decrypt_key = None,
      encrypt = (\<lambda>k bs. (bs, k)), decrypt = (\<lambda>k bs. (bs, k)), aead_encrypt = None, aead_decrypt_length = None,
      aead_decrypt = None\<rparr>"

definition block_row :: "'k cipher_funs \<Rightarrow> string \<times> u32 \<times> u32 \<Rightarrow> 'k ssh_cipher" where
  "block_row fs r =
     (let (name, bs, ks) = r in
      (empty_row fs name)\<lparr>blocksize := bs, keysize := ks, set_encrypt_key := Some (encrypt_key fs name),
        set_decrypt_key := Some (decrypt_key fs name), encrypt := cipher_encrypt fs name, decrypt := cipher_decrypt fs name\<rparr>)"

definition gcm_row :: "'k cipher_funs \<Rightarrow> string \<times> u32 \<Rightarrow> 'k ssh_cipher" where
  "gcm_row fs r =
     (let (name, ks) = r in
      (empty_row fs name)\<lparr>blocksize := 16, lenfield_blocksize := 4, keysize := ks,
        set_encrypt_key := Some (encrypt_key fs name), set_decrypt_key := Some (encrypt_key fs name),
        aead_encrypt := Some (encrypt_gcm fs name), aead_decrypt_length := Some (gcm_get_length fs name),
        aead_decrypt := Some (decrypt_gcm fs name)\<rparr>)"

definition ssh_ciphertab :: "bool \<Rightarrow> 'k cipher_funs \<Rightarrow> 'k ssh_cipher list" where
  "ssh_ciphertab gcm fs =
     map (block_row fs)
       [(''aes128-ctr'', 16, 128), (''aes192-ctr'', 16, 192), (''aes256-ctr'', 16, 256),
        (''aes128-cbc'', 16, 128), (''aes192-cbc'', 16, 192), (''aes256-cbc'', 16, 256)] @
     (if gcm then map (gcm_row fs) [(''aes128-gcm@openssh.com'', 128), (''aes256-gcm@openssh.com'', 256)] else []) @
     [block_row fs (''3des-cbc'', 8, 192), empty_row fs ''chacha20-poly1305@openssh.com'']"

text \<open>The searches stop at the first row of that name; \<open>cipher_new\<close> copies the row.\<close>

definition find_cipher :: "'k ssh_cipher list \<Rightarrow> string \<Rightarrow> 'k ssh_cipher option" where
  "find_cipher tab wanted = find (\<lambda>c. cipher_name c = wanted) tab"

definition cipher_new :: "bool \<Rightarrow> 'k ssh_cipher \<Rightarrow> 'k ssh_cipher option" where
  "cipher_new m row = (if m then Some row else None)"

section \<open>MACs\<close>

definition ssh_hmac_tab :: "(string \<times> hmac_type \<times> bool) list" where
  "ssh_hmac_tab =
     [(''hmac-sha1'', SSH_HMAC_SHA1, False), (''hmac-sha2-256'', SSH_HMAC_SHA256, False),
      (''hmac-sha2-512'', SSH_HMAC_SHA512, False), (''hmac-md5'', SSH_HMAC_MD5, False),
      (''aead-poly1305'', SSH_HMAC_AEAD_POLY1305, False), (''aead-gcm'', SSH_HMAC_AEAD_GCM, False),
      (''hmac-sha1-etm@openssh.com'', SSH_HMAC_SHA1, True), (''hmac-sha2-256-etm@openssh.com'', SSH_HMAC_SHA256, True),
      (''hmac-sha2-512-etm@openssh.com'', SSH_HMAC_SHA512, True), (''hmac-md5-etm@openssh.com'', SSH_HMAC_MD5, True)]"

definition find_hmac :: "string \<Rightarrow> (hmac_type \<times> bool) option" where
  "find_hmac wanted = map_of ssh_hmac_tab wanted"

definition ssh_hmac_type_to_string :: "hmac_type \<Rightarrow> bool \<Rightarrow> string option" where
  "ssh_hmac_type_to_string t etm = map_option fst (find (\<lambda>(_, u, e). u = t \<and> e = etm) ssh_hmac_tab)"

text \<open>The MAC that goes with a cipher: an authenticated cipher brings its own.\<close>

definition mac_name :: "'k ssh_cipher \<Rightarrow> string \<Rightarrow> string" where
  "mac_name c wanted =
     (if aead_encrypt c \<noteq> None then (if ciphertype c = SSH_AEAD_CHACHA20_POLY1305 then ''aead-poly1305'' else ''aead-gcm'')
      else wanted)"

section \<open>Every algorithm on offer exists\<close>

lemmas cipher_rows = ssh_ciphertab_def block_row_def gcm_row_def empty_row_def find_cipher_def

text \<open>A cipher of the list of supported ones has a row with functions and a key; it has a MAC of its own or takes any.\<close>

lemma supported_ciphers:
  "tokens_of (CHR '','') (supported_methods gcm ! 2) =
     (if gcm then [''aes256-gcm@openssh.com'', ''aes128-gcm@openssh.com''] else []) @
     [''aes256-ctr'', ''aes192-ctr'', ''aes128-ctr'', ''aes256-cbc'', ''aes192-cbc'', ''aes128-cbc'', ''3des-cbc'']"
  "supported_methods gcm ! 3 = supported_methods gcm ! 2"
proof -
  have "tokens_of (CHR '','') (supported_methods True ! 2) =
      [''aes256-gcm@openssh.com'', ''aes128-gcm@openssh.com'', ''aes256-ctr'', ''aes192-ctr'', ''aes128-ctr'', ''aes256-cbc'',
       ''aes192-cbc'', ''aes128-cbc'', ''3des-cbc'']" by code_simp
  moreover have "tokens_of (CHR '','') (supported_methods False ! 2) =
      [''aes256-ctr'', ''aes192-ctr'', ''aes128-ctr'', ''aes256-cbc'', ''aes192-cbc'', ''aes128-cbc'', ''3des-cbc'']" by code_simp
  ultimately show "tokens_of (CHR '','') (supported_methods gcm ! 2) =
     (if gcm then [''aes256-gcm@openssh.com'', ''aes128-gcm@openssh.com''] else []) @
     [''aes256-ctr'', ''aes192-ctr'', ''aes128-ctr'', ''aes256-cbc'', ''aes192-cbc'', ''aes128-cbc'', ''3des-cbc'']"
    by (cases gcm) simp_all
qed (simp add: supported_methods_def)

lemma supported_macs:
  "tokens_of (CHR '','') (supported_methods gcm ! 4) =
     [''hmac-sha2-256-etm@openssh.com'', ''hmac-sha2-512-etm@openssh.com'', ''hmac-sha1-etm@openssh.com'', ''hmac-sha2-256'',
      ''hmac-sha2-512'', ''hmac-sha1'']"
  "supported_methods gcm ! 5 = supported_methods gcm ! 4"
proof -
  have "supported_methods gcm ! 4 = supported_methods True ! 4" by (simp add: supported_methods_def)
  moreover have "tokens_of (CHR '','') (supported_methods True ! 4) =
      [''hmac-sha2-256-etm@openssh.com'', ''hmac-sha2-512-etm@openssh.com'', ''hmac-sha1-etm@openssh.com'', ''hmac-sha2-256'',
       ''hmac-sha2-512'', ''hmac-sha1'']" by code_simp
  ultimately show "tokens_of (CHR '','') (supported_methods gcm ! 4) =
     [''hmac-sha2-256-etm@openssh.com'', ''hmac-sha2-512-etm@openssh.com'', ''hmac-sha1-etm@openssh.com'', ''hmac-sha2-256'',
      ''hmac-sha2-512'', ''hmac-sha1'']" by simp
qed (simp add: supported_methods_def)

lemma supported_cipher_found:
  assumes "x \<in> set (tokens_of (CHR '','') (supported_methods gcm ! 2))"
  shows "\<exists>c. find_cipher (ssh_ciphertab gcm fs) x = Some c \<and> cipher_name c = x \<and> set_encrypt_key c \<noteq> None \<and>
    set_decrypt_key c \<noteq> None \<and> blocksize c \<in> {8, 16} \<and> keysize c \<in> {128, 192, 256} \<and>
    (aead_encrypt c \<noteq> None \<longrightarrow> mac_name c y = ''aead-gcm'') \<and> (aead_encrypt c = None \<longrightarrow> mac_name c y = y)"
  using assms unfolding supported_ciphers
  by (cases gcm; simp only: if_True if_False append_Nil append_Cons list.set insert_iff empty_iff simp_thms;
      elim disjE; simp add: cipher_rows mac_name_def)

lemma supported_mac_found:
  assumes "x \<in> set (tokens_of (CHR '','') (supported_methods gcm ! 4))"
  shows "\<exists>t e. find_hmac x = Some (t, e) \<and> hmac_digest_len t \<in> {20, 32, 64} \<and> ssh_hmac_type_to_string t e = Some x"
  using assms unfolding supported_macs
  by (simp only: list.set insert_iff empty_iff simp_thms; elim disjE;
      auto simp: find_hmac_def ssh_hmac_tab_def hmac_digest_len_def ssh_hmac_type_to_string_def)

end
