(* ===== verification/Kex_Lib.thy ===== *)
theory Kex_Lib
  imports Packet_Recv Kex_Dh Kex_Cipher
begin

unbundle bit_operations_syntax

text \<open>
  The client's first step of each key exchange (\<open>curve25519.c\<close>, \<open>ecdh_mbedcrypto.c\<close>, \<open>dh.c\<close>, the
  dispatch in \<open>client.c\<close>), and the buffers that collect what the exchange hash covers (\<open>kex.c\<close>). The
  functions work on a session whose \<open>next_crypto\<close> is set; the cryptography itself is a parameter.
\<close>

section \<open>Environment\<close>

text \<open>
  What a key exchange uses from elsewhere: the packet layer; big numbers and the globals of \<open>dh.c\<close>;
  whether mbedTLS has GCM; the algorithms of the known keys of the host; random bytes; Curve25519 and
  the curves of mbedTLS (a new pair of keys, and the shared number for a private key and a point); the
  import and export of keys and signatures and their verification (\<open>pki.c\<close>); the hash functions; the
  functions of the ciphers (mbedTLS); the group exchange (\<open>dh-gex.c\<close>); and the server's lists
  (\<open>server.c\<close>). A signature is its type's name with what verification looks at.
\<close>

type_synonym ssh_signature = "string \<times> byte list"

record 'k kex_lib =
  penv :: "'k packet_env"
  bignums :: bn_lib
  dh_vars :: dh_globals
  gcm_built :: bool
  known_hosts_names :: "'k ssh_session \<Rightarrow> string option"
  get_random :: "'k ssh_session \<Rightarrow> nat \<Rightarrow> byte list option"
  scalarmult_base :: "byte list \<Rightarrow> byte list"
  scalarmult :: "byte list \<Rightarrow> byte list \<Rightarrow> byte list"
  ecp_gen :: "kex_type \<Rightarrow> (byte list \<times> ssh_string) option"
  ecp_shared :: "kex_type \<Rightarrow> byte list \<Rightarrow> byte list \<Rightarrow> bignum option"
  import_pubkey_blob :: "ssh_string \<Rightarrow> ssh_key option"
  export_pubkey_blob :: "ssh_key \<Rightarrow> ssh_string option"
  import_signature_blob :: "ssh_string option \<Rightarrow> ssh_key \<Rightarrow> ssh_signature option"
  signature_verify :: "'k ssh_session \<Rightarrow> ssh_signature \<Rightarrow> ssh_key \<Rightarrow> byte list \<Rightarrow> int"
  hash_of :: "kdf_digest \<Rightarrow> byte list \<Rightarrow> byte list"
  ciphers :: "'k cipher_funs"
  client_dhgex_init :: "'k ssh_session \<Rightarrow> int \<times> 'k ssh_session"
  server_set_kex :: "'k ssh_session \<Rightarrow> int \<times> 'k ssh_session"

abbreviation alloc_ok :: "'k kex_lib \<Rightarrow> bool" where "alloc_ok lib \<equiv> mem (penv lib)"

section \<open>Access\<close>

definition next_kx :: "'k ssh_session \<Rightarrow> kex_crypto" where
  "next_kx s = kx (the (next_crypto s))"

definition with_kx :: "(kex_crypto \<Rightarrow> kex_crypto) \<Rightarrow> 'k ssh_session \<Rightarrow> 'k ssh_session" where
  "with_kx f s = with_next (\<lambda>c. c\<lparr>kx := f (kx c)\<rparr>) s"

definition with_shake :: "(handshake \<Rightarrow> handshake) \<Rightarrow> 'k ssh_session \<Rightarrow> 'k ssh_session" where
  "with_shake f s = s\<lparr>shake := f (shake s)\<rparr>"

lemma next_kx_with [simp]: "next_crypto s \<noteq> None \<Longrightarrow> next_kx (with_kx f s) = f (next_kx s)"
  by (auto simp: next_kx_def with_kx_def with_next_def)

definition own_kex :: "'k ssh_session \<Rightarrow> ssh_kex" where
  "own_kex s = (if server s then server_kex (next_kx s) else client_kex (next_kx s))"

text \<open>\<open>ssh_buffer_pack\<close> with a format and arguments that fit it.\<close>

definition pack_to :: "bool \<Rightarrow> string \<Rightarrow> va list \<Rightarrow> ssh_buffer \<Rightarrow> int \<times> ssh_buffer" where
  "pack_to m format args b =
     (case ssh_buffer_pack m format (length args) (args @ [VA_end]) b of None \<Rightarrow> (SSH_ERROR, b) | Some r \<Rightarrow> r)"

definition pack_session :: "'k kex_lib \<Rightarrow> string \<Rightarrow> va list \<Rightarrow> 'k ssh_session \<Rightarrow> int \<times> 'k ssh_session" where
  "pack_session lib format args s =
     (let (rc, b) = pack_to (alloc_ok lib) format args (out_buffer s) in (rc, s\<lparr>out_buffer := b\<rparr>))"

text \<open>The addresses of the tables of handlers.\<close>

definition default_packet_callbacks :: nat where "default_packet_callbacks = 0"
definition ssh_dh_client_callbacks :: nat where "ssh_dh_client_callbacks = 1"
definition ssh_dhgex_client_callbacks :: nat where "ssh_dhgex_client_callbacks = 2"
definition ssh_ecdh_client_callbacks :: nat where "ssh_ecdh_client_callbacks = 3"
definition ssh_curve25519_client_callbacks :: nat where "ssh_curve25519_client_callbacks = 4"

text \<open>The kinds of key exchange of the switches in \<open>client.c\<close> and \<open>kex.c\<close>.\<close>

datatype kex_kind = By_DH | By_DHGEX | By_ECDH | By_Curve25519 | By_none

definition kex_family :: "kex_type \<Rightarrow> kex_kind" where
  "kex_family t =
     (case t of
        SSH_KEX_DH_GROUP1_SHA1 \<Rightarrow> By_DH | SSH_KEX_DH_GROUP14_SHA1 \<Rightarrow> By_DH | SSH_KEX_DH_GROUP14_SHA256 \<Rightarrow> By_DH
      | SSH_KEX_DH_GROUP16_SHA512 \<Rightarrow> By_DH | SSH_KEX_DH_GROUP18_SHA512 \<Rightarrow> By_DH
      | SSH_KEX_DH_GEX_SHA1 \<Rightarrow> By_DHGEX | SSH_KEX_DH_GEX_SHA256 \<Rightarrow> By_DHGEX
      | SSH_KEX_ECDH_SHA2_NISTP256 \<Rightarrow> By_ECDH | SSH_KEX_ECDH_SHA2_NISTP384 \<Rightarrow> By_ECDH
      | SSH_KEX_ECDH_SHA2_NISTP521 \<Rightarrow> By_ECDH
      | SSH_KEX_CURVE25519_SHA256 \<Rightarrow> By_Curve25519 | SSH_KEX_CURVE25519_SHA256_LIBSSH_ORG \<Rightarrow> By_Curve25519
      | SSH_KEX_NONE \<Rightarrow> By_none)"

section \<open>First messages\<close>

definition ssh_curve25519_init :: "'k kex_lib \<Rightarrow> 'k ssh_session \<Rightarrow> int \<times> 'k ssh_session" where
  "ssh_curve25519_init lib s =
     (case get_random lib s 32 of
        None \<Rightarrow> (SSH_ERROR, s)
      | Some k \<Rightarrow>
          (SSH_OK, with_kx (\<lambda>x. let x1 = x\<lparr>curve25519_privkey := k\<rparr>; q = scalarmult_base lib k
                                in if server s then x1\<lparr>curve25519_server_pubkey := q\<rparr> else x1\<lparr>curve25519_client_pubkey := q\<rparr>) s))"

text \<open>The handlers are registered, the state is moved on, and the packet is sent.\<close>

definition start_exchange :: "'k kex_lib \<Rightarrow> nat \<Rightarrow> 'k ssh_session \<Rightarrow> int \<times> 'k ssh_session" where
  "start_exchange lib table s =
     (let s1 = ssh_packet_set_callbacks (alloc_ok lib) s table
      in ssh_packet_send (penv lib) (s1\<lparr>dh_handshake_state := DH_STATE_INIT_SENT\<rparr>))"

definition ssh_client_curve25519_init :: "'k kex_lib \<Rightarrow> 'k ssh_session \<Rightarrow> int \<times> 'k ssh_session" where
  "ssh_client_curve25519_init lib s =
     (let (rc, s1) = ssh_curve25519_init lib s in
      if rc \<noteq> SSH_OK then (rc, s1)
      else
        let (rc1, s2) = pack_session lib ''bdP'' [VA_int 30, VA_int 32, VA_size 32, VA_data (curve25519_client_pubkey (next_kx s1))] s1
        in if rc1 \<noteq> SSH_OK then (SSH_ERROR, s2) else start_exchange lib ssh_curve25519_client_callbacks s2)"

definition ssh_client_ecdh_init :: "'k kex_lib \<Rightarrow> 'k ssh_session \<Rightarrow> int \<times> 'k ssh_session" where
  "ssh_client_ecdh_init lib s =
     (let t = kex_type (next_kx s) in
      if t \<notin> {SSH_KEX_ECDH_SHA2_NISTP256, SSH_KEX_ECDH_SHA2_NISTP384, SSH_KEX_ECDH_SHA2_NISTP521} then (SSH_ERROR, s)
      else
        let (rc, b) = ssh_buffer_add_u8 (alloc_ok lib) 30 (out_buffer s); s1 = s\<lparr>out_buffer := b\<rparr>
        in if rc < 0 then (SSH_ERROR, s1)
           else if \<not> alloc_ok lib then (SSH_ERROR, with_kx (\<lambda>x. x\<lparr>ecdh_privkey := None\<rparr>) s1)
           else
             (case ecp_gen lib t of
                None \<Rightarrow> (SSH_ERROR, with_kx (\<lambda>x. x\<lparr>ecdh_privkey := Some []\<rparr>) s1)
              | Some (priv, q) \<Rightarrow>
                  let s2 = with_kx (\<lambda>x. x\<lparr>ecdh_privkey := Some priv\<rparr>) s1;
                      (rc1, b1) = ssh_buffer_add_ssh_string (alloc_ok lib) (Some q) (out_buffer s2);
                      s3 = s2\<lparr>out_buffer := b1\<rparr>
                  in if rc1 < 0 then (SSH_ERROR, s3)
                     else start_exchange lib ssh_ecdh_client_callbacks (with_kx (\<lambda>x. x\<lparr>ecdh_client_pubkey := Some q\<rparr>) s3)))"

text \<open>
  The parts of \<open>ssh_client_dh_init\<close> that compute. After a successful \<open>ssh_dh_init_common\<close> for one of
  the groups no pointer of the context is null (\<open>dh_client_keys_defined\<close>); a null result is an error
  here.
\<close>

definition dh_client_keys :: "'k kex_lib \<Rightarrow> kex_crypto \<Rightarrow> int \<times> bignum \<times> kex_crypto" where
  "dh_client_keys lib k =
     (let (rc, k1) = ssh_dh_init_common (bignums lib) (dh_vars lib) k in
      if rc = SSH_ERROR then (SSH_ERROR, 0, k1)
      else
        (case ssh_dh_keypair_gen_keys (bignums lib) (the (dh_ctx k1)) DH_CLIENT_KEYPAIR of
           None \<Rightarrow> (SSH_ERROR, 0, k1)
         | Some (rc1, ctx) \<Rightarrow>
             let k2 = k1\<lparr>dh_ctx := Some ctx\<rparr> in
             if rc1 = SSH_ERROR then (SSH_ERROR, 0, k2)
             else
               (case ssh_dh_keypair_get_keys (bignums lib) (Some ctx) DH_CLIENT_KEYPAIR False True of
                  Some (rc2, _, Some pub) \<Rightarrow> (rc2, pub, k2)
                | _ \<Rightarrow> (SSH_ERROR, 0, k2))))"

lemma dh_client_keys_defined:
  assumes "ssh_dh_init_common bn d k = (SSH_OK, k1)" and "kex_family (kex_type k) = By_DH"
    and "\<forall>g\<in>set_option (dh_group d (kex_type k)). g \<noteq> None" and "ssh_dh_generator d \<noteq> None"
  shows "\<exists>r. ssh_dh_keypair_gen_keys bn (the (dh_ctx k1)) DH_CLIENT_KEYPAIR = Some r \<and>
    (fst r = SSH_OK \<longrightarrow> ssh_dh_keypair_get_keys bn (Some (snd r)) DH_CLIENT_KEYPAIR False True \<noteq> None)"
proof -
  obtain p g where pg: "dh_group d (kex_type k) = Some (Some p)" "ssh_dh_generator d = Some g"
    using assms(2-4) by (auto simp: kex_family_def dh_group_def split: kex_type.splits)
  then have "dh_ctx k1 = Some \<lparr>client_pair = \<lparr>priv_key = Some 0, pub_key = Some 0\<rparr>,
      server_pair = \<lparr>priv_key = Some 0, pub_key = Some 0\<rparr>, dh_generator = Some g, dh_modulus = Some p\<rparr>"
    using assms(1)
    by (auto simp: ssh_dh_init_common_def ssh_dh_set_parameters_def ssh_dh_init_dh_keypair_def bignum_new_def zero_ctx_def
        Let_def split: if_splits)
  then show ?thesis
    by (auto simp: ssh_dh_keypair_gen_keys_def ssh_dh_keypair_get_keys_def nonzero_key_def keypair_def put_keypair_def
        Let_def split: option.splits)
qed

text \<open>
  \<open>ssh_make_bignum_string\<close> (\<open>bignum.c\<close>): the bytes of the number, with a zero in front when its first
  bit is set. mbedTLS's \<open>bn_bin\<close> gives the bytes.
\<close>

definition ssh_make_bignum_string :: "bool \<Rightarrow> bn_lib \<Rightarrow> bignum \<Rightarrow> ssh_string option" where
  "ssh_make_bignum_string m bn n =
     (let bin = bn_bin bn n; len = length bin; bits = bn_bits bn n;
          pad = (if bits mod 8 = 0 \<and> bit n (bits - 1) then 1 else 0)
      in if len = 0 then None
         else
           (case ssh_string_new m (of_nat (len + pad)) of
              None \<Rightarrow> None
            | Some x \<Rightarrow> Some (x\<lparr>str_data := replicate pad 0 @ bin @ [0]\<rparr>)))"

definition ssh_make_string_bn :: "bn_lib \<Rightarrow> ssh_string \<Rightarrow> bignum option" where
  "ssh_make_string_bn bn x =
     (if bn_alloc bn then Some (bn_read bn (take (unat (ssh_string_len (Some x))) (str_data x))) else None)"

definition ssh_client_dh_init :: "'k kex_lib \<Rightarrow> 'k ssh_session \<Rightarrow> int \<times> 'k ssh_session" where
  "ssh_client_dh_init lib s =
     (let (rc, pubkey, k) = dh_client_keys lib (next_kx s); s1 = with_kx (\<lambda>_. k) s in
      if rc \<noteq> SSH_OK then (SSH_ERROR, with_kx ssh_dh_cleanup s1)
      else
        let (rc1, s2) = pack_session lib ''bB'' [VA_int 30, VA_bignum (ssh_make_bignum_string (alloc_ok lib) (bignums lib) pubkey)] s1
        in if rc1 \<noteq> SSH_OK then (SSH_ERROR, with_kx ssh_dh_cleanup s2) else start_exchange lib ssh_dh_client_callbacks s2)"

definition ssh_client_curve25519_remove_callbacks :: "'k ssh_session \<Rightarrow> 'k ssh_session" where
  "ssh_client_curve25519_remove_callbacks s = ssh_packet_remove_callbacks s ssh_curve25519_client_callbacks"

definition ssh_client_ecdh_remove_callbacks :: "'k ssh_session \<Rightarrow> 'k ssh_session" where
  "ssh_client_ecdh_remove_callbacks s = ssh_packet_remove_callbacks s ssh_ecdh_client_callbacks"

definition ssh_client_dh_remove_callbacks :: "'k ssh_session \<Rightarrow> 'k ssh_session" where
  "ssh_client_dh_remove_callbacks s = ssh_packet_remove_callbacks s ssh_dh_client_callbacks"

definition ssh_client_dhgex_remove_callbacks :: "'k ssh_session \<Rightarrow> 'k ssh_session" where
  "ssh_client_dhgex_remove_callbacks s = ssh_packet_remove_callbacks s ssh_dhgex_client_callbacks"

section \<open>The dispatch\<close>

definition dh_handshake :: "'k kex_lib \<Rightarrow> 'k ssh_session \<Rightarrow> int \<times> 'k ssh_session" where
  "dh_handshake lib s =
     (case dh_handshake_state s of
        DH_STATE_INIT \<Rightarrow>
          (case kex_family (kex_type (next_kx s)) of
             By_DH \<Rightarrow> ssh_client_dh_init lib s
           | By_DHGEX \<Rightarrow> client_dhgex_init lib s
           | By_ECDH \<Rightarrow> ssh_client_ecdh_init lib s
           | By_Curve25519 \<Rightarrow> ssh_client_curve25519_init lib s
           | By_none \<Rightarrow> (SSH_ERROR, s))
      | DH_STATE_INIT_SENT \<Rightarrow> (SSH_AGAIN, s)
      | DH_STATE_NEWKEYS_SENT \<Rightarrow> (SSH_AGAIN, s)
      | DH_STATE_FINISHED \<Rightarrow> (SSH_OK, s)
      | _ \<Rightarrow> (SSH_ERROR, s))"

definition revert_kex_callbacks :: "'k ssh_session \<Rightarrow> 'k ssh_session" where
  "revert_kex_callbacks s =
     (case kex_family (kex_type (next_kx s)) of
        By_DH \<Rightarrow> ssh_client_dh_remove_callbacks s
      | By_DHGEX \<Rightarrow> ssh_client_dhgex_remove_callbacks s
      | By_ECDH \<Rightarrow> ssh_client_ecdh_remove_callbacks s
      | By_Curve25519 \<Rightarrow> ssh_client_curve25519_remove_callbacks s
      | By_none \<Rightarrow> s)"

section \<open>What the exchange hash covers\<close>

text \<open>
  A new buffer with room for \<open>room\<close> bytes, the number of the message and the cookie; the result and
  the buffer, None when it could not be made. The cookie has 16 bytes.
\<close>

definition hashbuf_add_cookie :: "bool \<Rightarrow> u32 \<Rightarrow> byte list \<Rightarrow> int \<times> ssh_buffer option" where
  "hashbuf_add_cookie m room cookie =
     (case ssh_buffer_new m m of
        None \<Rightarrow> (-1, None)
      | Some b \<Rightarrow>
          let (rc, b1) = ssh_buffer_allocate_size m room b in
          if rc < 0 then (-1, Some (snd (ssh_buffer_reinit m b1)))
          else
            let (rc1, b2) = ssh_buffer_add_u8 m 20 b1 in
            if rc1 < 0 then (-1, Some (snd (ssh_buffer_reinit m b2)))
            else
              let (rc2, b3) = ssh_buffer_add_data m (Some cookie) b2 in
              if rc2 < 0 then (-1, Some (snd (ssh_buffer_reinit m b3))) else (0, Some b3))"

definition ssh_hashbufout_add_cookie :: "'k kex_lib \<Rightarrow> 'k ssh_session \<Rightarrow> int \<times> 'k ssh_session" where
  "ssh_hashbufout_add_cookie lib s =
     (let (rc, b) = hashbuf_add_cookie (alloc_ok lib) 17 (kex_cookie (own_kex s))
      in (rc, with_shake (\<lambda>h. h\<lparr>out_hashbuf := b\<rparr>) s))"

definition ssh_hashbufin_add_cookie :: "'k kex_lib \<Rightarrow> 'k ssh_session \<Rightarrow> byte list \<Rightarrow> int \<times> 'k ssh_session" where
  "ssh_hashbufin_add_cookie lib s cookie =
     (let (rc, b) = hashbuf_add_cookie (alloc_ok lib) 37 cookie in (rc, with_shake (\<lambda>h. h\<lparr>in_hashbuf := b\<rparr>) s))"

end
