(* ===== verification/Kex_Offer.thy ===== *)
theory Kex_Offer
  imports Kex_Choice
begin

text \<open>
  What \<open>ssh_set_client_kex\<close> (\<open>kex.c\<close>) makes of the tables and of the user's lists: after a success
  every kind of method has a list, and the host keys offered are all known ones; after a failure the
  same call claims a success.
\<close>

section \<open>Names that are copied\<close>

lemma copy_all_names:
  "copy_all room ret ts = Inr r \<Longrightarrow> \<forall>t\<in>set ts. CHR '','' \<notin> set t \<Longrightarrow> set (names r) = set (names ret) \<union> (set ts - {[]})"
proof (induction ts arbitrary: ret)
  case (Cons t ts)
  have t: "names t = (if t = [] then [] else [t])" using Cons.prems(2) by (simp add: names_def tokens_of_single)
  have e: "names [] = []" by (simp add: names_def tokens_of_single)
  let ?r = "(if ret = [] then [] else ret @ '','') @ t"
  have "copy_match room ret t = Inr ?r" using Cons.prems(1) by (auto simp: copy_match_def Let_def split: if_splits)
  with Cons have "set (names r) = set (names ?r) \<union> (set ts - {[]})" by simp
  moreover have "set (names ?r) = set (names ret) \<union> ({t} - {[]})"
    using names_sep [of ret t] t e by (auto split: if_splits)
  ultimately show ?case by auto
qed simp

lemma all_matching_names:
  assumes "ssh_find_all_matching m (Some a) (Some p) = Inr (Some r)"
  shows "set (names r) = set (names a) \<inter> set (names p)"
proof -
  let ?ms = "matches (tokens_of (CHR '','') a) (tokens_of (CHR '','') p)"
  have c: "copy_all (max (length a) (length p) + 1) [] ?ms = Inr r"
    using assms by (auto simp: ssh_find_all_matching_def split: if_splits sum.splits)
  have s: "set ?ms = set (tokens_of (CHR '','') a) \<inter> set (tokens_of (CHR '','') p)" by (auto simp: matches_def)
  then have "\<forall>t\<in>set ?ms. CHR '','' \<notin> set t" using tokens_no_sep by blast
  from copy_all_names [OF c this] s show ?thesis by (auto simp: names_def tokens_of_single)
qed

lemma append_names:
  assumes "ssh_append_without_duplicates m (Some a) (Some b) = Some r"
  shows "set (names r) = set (names a) \<union> set (names b)"
proof -
  have m: "m" using assms by (auto simp: ssh_append_without_duplicates_def split: if_splits)
  let ?l = "a @ CHR '','' # b"
  have "r = join_tokens (names ?l) \<and> names ?l \<noteq> []"
    using assms m remove_duplicates_eq [of ?l]
    by (auto simp: ssh_append_without_duplicates_def str_or_empty_def Let_def kept_names split: if_splits)
  then have "tokens_of (CHR '','') r = names ?l" using tokens_join_kept [of ?l] by (simp add: kept_names)
  then have "set (names r) = set (names (a @ CHR '','' # b))" by (auto simp: names_def)
  then show ?thesis by (auto simp: names_sep)
qed


section \<open>A complete offer\<close>

lemma select_hostkeys_known:
  assumes "ssh_client_select_hostkeys w = Inr (Some x)"
  shows "set (names x) \<subseteq> set (names HOSTKEYS)"
proof -
  obtain wanted without where f: "ssh_find_all_matching (alloc w) (Some HOSTKEYS) (Some wanted) = Inr (Some without)"
    and x: "x = without \<or> (\<exists>ordered known. ssh_find_all_matching (alloc w) (Some known) (Some without) = Inr (Some ordered) \<and>
      ssh_append_without_duplicates (alloc w) (Some ordered) (Some without) = Some x)"
    using assms
    by (auto simp: ssh_client_select_hostkeys_def Let_def ssh_kex_get_default_methods_def
        split: option.splits sum.splits)
  from all_matching_names [OF f] have sub: "set (names without) \<subseteq> set (names HOSTKEYS)" by auto
  from x show ?thesis
  proof (elim disjE exE conjE)
    fix ordered known
    assume o: "ssh_find_all_matching (alloc w) (Some known) (Some without) = Inr (Some ordered)"
      and a: "ssh_append_without_duplicates (alloc w) (Some ordered) (Some without) = Some x"
    from all_matching_names [OF o] append_names [OF a] sub show ?thesis by auto
  qed (use sub in simp)
qed

lemma put_method_simps [simp]:
  "length (methods (put_method i x k)) = length (methods k)"
  "kex_cookie (put_method i x k) = kex_cookie k"
  "i < length (methods k) \<Longrightarrow> methods (put_method i x k) ! j = (if i = j then x else methods k ! j)"
  by (auto simp: put_method_def)

lemma set_methods_ok:
  assumes "set_methods w is k = Inr (SSH_OK, k')" and "\<forall>i\<in>set is. i < length (methods k)" and "distinct is"
  shows "length (methods k') = length (methods k) \<and> kex_cookie k' = kex_cookie k \<and>
    (\<forall>j. j \<notin> set is \<longrightarrow> methods k' ! j = methods k ! j) \<and>
    (\<forall>i\<in>set is. if i = SSH_HOSTKEYS then \<exists>x. methods k' ! i = Some x \<and> set (names x) \<subseteq> set (names HOSTKEYS)
       else methods k' ! i = Some (case wish_methods w ! i of None \<Rightarrow> default_methods (has_gcm w) ! i | Some x \<Rightarrow> x))"
  using assms
proof (induction "is" arbitrary: k)
  case (Cons i "is")
  show ?case
  proof (cases "i = SSH_HOSTKEYS")
    case True
    with Cons.prems(1) obtain x where x: "ssh_client_select_hostkeys w = Inr (Some x)"
      and r: "set_methods w is (put_method i (Some x) k) = Inr (SSH_OK, k')"
      by (auto split: sum.splits option.splits)
    from Cons.IH [OF r] Cons.prems select_hostkeys_known [OF x] True show ?thesis by auto
  next
    case False
    let ?x = "case wish_methods w ! i of None \<Rightarrow> default_methods (has_gcm w) ! i | Some x \<Rightarrow> x"
    from False Cons.prems(1) have r: "set_methods w is (put_method i (Some ?x) k) = Inr (SSH_OK, k')"
      by (auto split: if_splits)
    from Cons.IH [OF r] Cons.prems False show ?thesis by auto
  qed
qed simp

text \<open>
  C17: What a client offers is well formed. When \<open>ssh_set_client_kex\<close> succeeds on a structure that
  is not filled in yet, the cookie is the random one and all ten kinds of methods have a list: the
  host keys only names from the library's table, without certificates, every other kind the
  user's list or else the default, and after the key exchange methods the two extensions, unless
  the session is authenticated.
\<close>

theorem offer_complete:
  assumes "ssh_set_client_kex w k = Inr (SSH_OK, k')" and "methods k ! 0 = None" and "length (methods k) = SSH_KEX_METHODS"
  shows "length (methods k') = SSH_KEX_METHODS \<and> cookie_bytes w = Some (kex_cookie k') \<and>
    (\<forall>i<SSH_KEX_METHODS. \<exists>x. methods k' ! i = Some x \<and>
       (let base = (case wish_methods w ! i of None \<Rightarrow> default_methods (has_gcm w) ! i | Some y \<Rightarrow> y)
        in if i = SSH_HOSTKEYS then set (names x) \<subseteq> set (names HOSTKEYS)
           else if i = SSH_KEX \<and> \<not> is_authenticated w
           then x = base @ '','' @ KEX_EXTENSION_CLIENT @ '','' @ KEX_STRICT_CLIENT
           else x = base))"
proof -
  from assms(1,2) obtain c k1 where c: "cookie_bytes w = Some c"
    and l: "set_methods w [0..<SSH_KEX_METHODS] (k\<lparr>kex_cookie := c\<rparr>) = Inr (SSH_OK, k1)"
    and e: "if is_authenticated w then k' = k1 else the (ssh_kex_append_extensions (alloc w) False k1) = (SSH_OK, k')"
    by (auto simp: ssh_set_client_kex_def split: option.splits sum.splits prod.splits if_splits)
  note ok = set_methods_ok [OF l]
  have len: "length (methods k1) = 10" and cookie: "kex_cookie k1 = c" using ok assms(3) by auto
  let ?base = "\<lambda>i. case wish_methods w ! i of None \<Rightarrow> default_methods (has_gcm w) ! i | Some y \<Rightarrow> y"
  have m: "i < 10 \<Longrightarrow> if i = SSH_HOSTKEYS then \<exists>x. methods k1 ! i = Some x \<and> set (names x) \<subseteq> set (names HOSTKEYS)
      else methods k1 ! i = Some (?base i)" for i using ok assms(3) by auto
  have k': "length (methods k') = 10 \<and> kex_cookie k' = c \<and> (\<forall>j. j \<noteq> 0 \<longrightarrow> methods k' ! j = methods k1 ! j) \<and>
      methods k' ! 0 = (if is_authenticated w then methods k1 ! 0
        else Some (?base 0 @ '','' @ KEX_EXTENSION_CLIENT @ '','' @ KEX_STRICT_CLIENT))"
    using e m [of 0] len cookie
    by (auto simp: ssh_kex_append_extensions_def Let_def split: if_splits)
  show ?thesis
  proof (intro conjI allI impI)
    fix i :: nat
    assume i: "i < 10"
    from m [OF i] k' show "\<exists>x. methods k' ! i = Some x \<and>
       (let base = ?base i in if i = SSH_HOSTKEYS then set (names x) \<subseteq> set (names HOSTKEYS)
           else if i = SSH_KEX \<and> \<not> is_authenticated w
           then x = base @ '','' @ KEX_EXTENSION_CLIENT @ '','' @ KEX_STRICT_CLIENT else x = base)"
      by (cases "i = 0"; cases "i = 1") (auto simp: Let_def)
  qed (use k' c in auto)
qed


definition demo_wishes :: "string option \<Rightarrow> kex_wishes" where
  "demo_wishes hostkeys =
     \<lparr>alloc = True, has_gcm = False, known_names = None, cookie_bytes = Some (replicate 16 7),
      wish_methods = (replicate 10 None)[SSH_HOSTKEYS := hostkeys], is_authenticated = True\<rparr>"

definition demo_kex :: ssh_kex where
  "demo_kex = \<lparr>kex_cookie = replicate 16 0, methods = replicate 10 None\<rparr>"

theorem offer_complete_witness:
  "\<exists>k'. ssh_set_client_kex (demo_wishes (Some ''dsa,ssh-ed25519'')) demo_kex = Inr (SSH_OK, k') \<and>
     methods k' ! SSH_HOSTKEYS = Some ''ssh-ed25519'' \<and> length (methods k') = 10"
proof -
  let ?r = "ssh_set_client_kex (demo_wishes (Some ''dsa,ssh-ed25519'')) demo_kex"
  have "(case ?r of Inr (rc, k) \<Rightarrow> rc = SSH_OK \<and> methods k ! 1 = Some ''ssh-ed25519'' | Inl _ \<Rightarrow> False)" by code_simp
  then obtain k' where k: "?r = Inr (SSH_OK, k')" "methods k' ! 1 = Some ''ssh-ed25519''" by (auto split: sum.splits)
  have d: "methods demo_kex ! 0 = None" "length (methods demo_kex) = 10" by (simp_all add: demo_kex_def)
  have "length (methods k') = 10" using offer_complete [OF k(1) d] by (rule conjunct1)
  with k show ?thesis by blast
qed

section \<open>A failed offer\<close>

text \<open>
  A client that could not choose its host keys says it could, when asked again. The first call
  of \<open>ssh_set_client_kex\<close> fails with the list of host keys null; any later call finds the list of key
  exchange methods already set, takes the structure for complete, and returns success.
\<close>

theorem failed_offer_claims_success:
  assumes "ssh_set_client_kex w k = Inr (rc, k1)" and "rc \<noteq> SSH_OK" and "ssh_client_select_hostkeys w = Inr None"
    and "alloc w" and "cookie_bytes w \<noteq> None" and "methods k ! 0 = None" and "length (methods k) = SSH_KEX_METHODS"
  shows "ssh_set_client_kex w' k1 = Inr (SSH_OK, k1) \<and> methods k1 ! SSH_HOSTKEYS = None"
proof -
  from assms(5) obtain c where c: "cookie_bytes w = Some c" by auto
  let ?k = "k\<lparr>kex_cookie := c\<rparr>"
  let ?x = "case wish_methods w ! 0 of None \<Rightarrow> default_methods (has_gcm w) ! 0 | Some x \<Rightarrow> x"
  have up: "[0..<10] = 0 # [1..<10::nat]" and up1: "[1..<10] = 1 # [2..<10::nat]" by (simp_all add: upt_conv_Cons)
  have first: "set_methods w [0..<10] ?k = set_methods w [1..<10] (put_method 0 (Some ?x) ?k)"
    using assms(4) by (simp add: up)
  have "set_methods w [1..<10] (put_method 0 (Some ?x) ?k) = Inr (SSH_ERROR, put_method 1 None (put_method 0 (Some ?x) ?k))"
    unfolding up1 using assms(3) by simp
  with first have "k1 = put_method 1 None (put_method 0 (Some ?x) ?k)"
    using assms(1,2,6) c by (auto simp: ssh_set_client_kex_def)
  then show ?thesis using assms(7) by (simp add: ssh_set_client_kex_def)
qed

theorem failed_offer_claims_success_witness:
  "\<exists>k1. ssh_set_client_kex (demo_wishes (Some ''dsa'')) demo_kex = Inr (SSH_ERROR, k1) \<and>
     ssh_set_client_kex (demo_wishes None) k1 = Inr (SSH_OK, k1) \<and> methods k1 ! SSH_HOSTKEYS = None"
proof -
  let ?w = "demo_wishes (Some ''dsa'')"
  have "(case ssh_set_client_kex ?w demo_kex of Inr (rc, k) \<Rightarrow> rc = SSH_ERROR | Inl _ \<Rightarrow> False)" by code_simp
  then obtain k1 where k: "ssh_set_client_kex ?w demo_kex = Inr (SSH_ERROR, k1)" by (auto split: sum.splits)
  have h: "ssh_client_select_hostkeys ?w = Inr None" by code_simp
  from failed_offer_claims_success [OF k _ h, of "demo_wishes None"] k show ?thesis
    by (auto simp: demo_wishes_def demo_kex_def)
qed

section \<open>No overflow\<close>

lemma hostkeys_distinct: "distinct (tokens_of (CHR '','') HOSTKEYS)"
  by code_simp

lemma matching_fits:
  assumes "distinct (tokens_of (CHR '','') a)"
  shows "ssh_find_all_matching m (Some a) p \<noteq> Inl e"
proof (cases "m \<and> p \<noteq> None")
  case True
  then obtain q where "m" "p = Some q" by auto
  moreover obtain r where "ssh_find_all_matching True (Some a) (Some q) = Inr r"
    using find_all_matching_fits [OF assms] by blast
  ultimately show ?thesis by simp
qed (auto simp: ssh_find_all_matching_def split: option.splits)

lemma select_hostkeys_fits:
  assumes "\<And>k. known_names w = Some k \<Longrightarrow> distinct (tokens_of (CHR '','') k)"
  shows "ssh_client_select_hostkeys w \<noteq> Inl e"
  using assms matching_fits [OF hostkeys_distinct] matching_fits
  by (auto simp: ssh_client_select_hostkeys_def Let_def split: sum.splits option.splits)

text \<open>With the names of the known keys distinct no block is written past its end.\<close>

lemma set_client_kex_fits:
  assumes "\<And>k. known_names w = Some k \<Longrightarrow> distinct (tokens_of (CHR '','') k)"
  shows "ssh_set_client_kex w k \<noteq> Inl e"
proof -
  have "set_methods w is k' \<noteq> Inl e" for "is" k'
    using select_hostkeys_fits [OF assms]
    by (induction w "is" k' rule: set_methods.induct) (auto split: sum.splits option.splits)
  then show ?thesis by (auto simp: ssh_set_client_kex_def split: option.splits sum.splits)
qed

end
