(* ===== verification/Kex_Init.thy ===== *)
theory Kex_Init
  imports Kex_Lib Kex_Offer
begin

unbundle bit_operations_syntax

text \<open>
  KEXINIT (\<open>kex.c\<close>): sending one's lists, receiving the peer's, the choice, and starting a key
  exchange again. The function the session is called back with is an argument of
  \<open>ssh_packet_kexinit\<close>, as it is a field of the session.
\<close>

section \<open>The client's lists\<close>

definition client_wishes :: "'k kex_lib \<Rightarrow> 'k ssh_session \<Rightarrow> kex_wishes" where
  "client_wishes lib s =
     \<lparr>alloc = alloc_ok lib, has_gcm = gcm_built lib, known_names = known_hosts_names lib s,
      cookie_bytes = get_random lib s 16, wish_methods = wanted_methods (shake s),
      is_authenticated = flags s AND SSH_SESSION_FLAG_AUTHENTICATED \<noteq> 0\<rparr>"

text \<open>
  \<open>ssh_set_client_kex\<close> on the session. The names of known keys have no duplicates, so no block
  overflows (\<open>set_client_kex_fits\<close>); an overflow is an error here.
\<close>

definition set_client_kex :: "'k kex_lib \<Rightarrow> 'k ssh_session \<Rightarrow> int \<times> 'k ssh_session" where
  "set_client_kex lib s =
     (case ssh_set_client_kex (client_wishes lib s) (client_kex (next_kx s)) of
        Inl _ \<Rightarrow> (SSH_ERROR, s)
      | Inr (rc, k) \<Rightarrow> (rc, with_kx (\<lambda>x. x\<lparr>client_kex := k\<rparr>) s))"

section \<open>Sending\<close>

text \<open>The loop: each list is added to the hash buffer and to the packet.\<close>

fun add_lists :: "bool \<Rightarrow> string option list \<Rightarrow> ssh_buffer \<Rightarrow> ssh_buffer \<Rightarrow> bool \<times> ssh_buffer \<times> ssh_buffer" where
  "add_lists m [] h b = (True, h, b)"
| "add_lists m (x # xs) h b =
     (case ssh_string_from_char m (map_option bytes_of x) of
        None \<Rightarrow> (False, h, b)
      | Some str \<Rightarrow>
          let (rc, h1) = ssh_buffer_add_ssh_string m (Some str) h in
          if rc < 0 then (False, h1, b)
          else
            let (rc2, b1) = ssh_buffer_add_ssh_string m (Some str) b in
            if rc2 < 0 then (False, h1, b1) else add_lists m xs h1 b1)"

definition set_out_hash :: "ssh_buffer \<Rightarrow> 'k ssh_session \<Rightarrow> 'k ssh_session" where
  "set_out_hash h s = with_shake (\<lambda>x. x\<lparr>out_hashbuf := Some h\<rparr>) s"

text \<open>The error label of \<open>ssh_send_kex\<close>.\<close>

definition send_kex_failed :: "'k kex_lib \<Rightarrow> 'k ssh_session \<Rightarrow> int \<times> 'k ssh_session" where
  "send_kex_failed lib s =
     (-1, with_shake (\<lambda>x. x\<lparr>out_hashbuf := map_option (\<lambda>h. snd (ssh_buffer_reinit (alloc_ok lib) h)) (out_hashbuf x)\<rparr>)
            (s\<lparr>out_buffer := snd (ssh_buffer_reinit (alloc_ok lib) (out_buffer s))\<rparr>))"

text \<open>The first message of a guessed key exchange.\<close>

definition send_guess :: "'k kex_lib \<Rightarrow> ssh_kex \<Rightarrow> 'k ssh_session \<Rightarrow> int \<times> 'k ssh_session" where
  "send_guess lib kex s =
     (if \<not> alloc_ok lib then send_kex_failed lib s
      else
        let name = takeWhile (\<lambda>c. c \<noteq> CHR '','') (the (methods kex ! SSH_KEX));
            s1 = (with_kx (\<lambda>x. x\<lparr>kex_type := kex_select_kex_type name\<rparr>) s)\<lparr>dh_handshake_state := DH_STATE_INIT\<rparr>;
            (rc, s2) = dh_handshake lib s1
        in if rc = SSH_ERROR then send_kex_failed lib s2 else (0, s2))"

text \<open>The packet with the lists and the flag, built but not sent yet.\<close>

definition build_kexinit :: "'k kex_lib \<Rightarrow> bool \<Rightarrow> 'k ssh_session \<Rightarrow> bool \<times> 'k ssh_session" where
  "build_kexinit lib first s =
     (let m = alloc_ok lib; flag = (if first then 1 else 0);
          (rc, s1) = pack_session lib ''bP'' [VA_int 20, VA_size 16, VA_data (kex_cookie (own_kex s))] s
      in if rc \<noteq> SSH_OK then (False, s1)
         else
           let (rc1, s2) = ssh_hashbufout_add_cookie lib s1 in
           if rc1 < 0 then (False, s2)
           else
             let (ok, h, b) = add_lists m (methods (own_kex s2)) (the (out_hashbuf (shake s2))) (out_buffer s2);
                 s3 = set_out_hash h (s2\<lparr>out_buffer := b\<rparr>)
             in if \<not> ok then (False, s3)
                else
                  let (rc2, s4) = pack_session lib ''bd'' [VA_int flag, VA_int 0] s3 in
                  if rc2 \<noteq> SSH_OK then (False, s4)
                  else
                    let (rc3, h1) = ssh_buffer_add_u8 m (if first then 1 else 0) h in
                    if rc3 < 0 then (False, set_out_hash h1 s4)
                    else
                      let (rc4, h2) = ssh_buffer_add_u32 m 0 h1 in (0 \<le> rc4, set_out_hash h2 s4))"

definition ssh_send_kex :: "'k kex_lib \<Rightarrow> 'k ssh_session \<Rightarrow> int \<times> 'k ssh_session" where
  "ssh_send_kex lib s =
     (let first = (client s \<and> session_state s \<noteq> SSH_SESSION_STATE_KEXINIT_RECEIVED \<and> send_first_kex_follows (shake s));
          (ok, s1) = build_kexinit lib first s
      in if \<not> ok then send_kex_failed lib s1
         else
           let (rc, s2) = ssh_packet_send (penv lib) s1 in
           if rc = SSH_ERROR then (-1, s2)
           else
             let s3 = s2\<lparr>flags := flags s2 OR SSH_SESSION_FLAG_KEXINIT_SENT\<rparr>
             in if first then send_guess lib (own_kex s3) s3 else (0, s3))"

definition ssh_send_rekex :: "'k kex_lib \<Rightarrow> 'k ssh_session \<Rightarrow> int \<times> 'k ssh_session" where
  "ssh_send_rekex lib s =
     (if dh_handshake_state s \<noteq> DH_STATE_FINISHED then (SSH_ERROR, s)
      else if current_crypto s = None then (SSH_ERROR, s)
      else
        let (rc, s1) = (if client s then set_client_kex lib s else server_set_kex lib s) in
        if (if client s then rc \<noteq> SSH_OK else rc = SSH_ERROR) then (rc, s1)
        else
          let (rc1, s2) = ssh_send_kex lib (s1\<lparr>dh_handshake_state := DH_STATE_INIT\<rparr>) in
          if rc1 < 0 then (rc1, s2) else (SSH_OK, s2\<lparr>dh_handshake_state := DH_STATE_INIT_SENT\<rparr>))"

section \<open>Receiving\<close>

definition put_peer_methods :: "string option list \<Rightarrow> 'k ssh_session \<Rightarrow> 'k ssh_session" where
  "put_peer_methods l s =
     with_kx (\<lambda>x. if server s then x\<lparr>client_kex := (client_kex x)\<lparr>methods := l\<rparr>\<rparr>
                  else x\<lparr>server_kex := (server_kex x)\<lparr>methods := l\<rparr>\<rparr>) s"

definition put_peer_cookie :: "byte list \<Rightarrow> 'k ssh_session \<Rightarrow> 'k ssh_session" where
  "put_peer_cookie c s =
     with_kx (\<lambda>x. if server s then x\<lparr>client_kex := (client_kex x)\<lparr>kex_cookie := c\<rparr>\<rparr>
                  else x\<lparr>server_kex := (server_kex x)\<lparr>kex_cookie := c\<rparr>\<rparr>) s"

text \<open>The error label of \<open>ssh_packet_kexinit\<close>.\<close>

definition kexinit_failed :: "'k ssh_session \<Rightarrow> int \<times> 'k ssh_session" where
  "kexinit_failed s = (1, (put_peer_methods (replicate SSH_KEX_METHODS None) s)\<lparr>session_state := SSH_SESSION_STATE_ERROR\<rparr>)"

text \<open>The loop over the lists: what was read, the packet and the hash buffer after it.\<close>

fun read_lists :: "bool \<Rightarrow> nat \<Rightarrow> ssh_buffer \<Rightarrow> ssh_buffer \<Rightarrow> string list option \<times> ssh_buffer \<times> ssh_buffer" where
  "read_lists m 0 p h = (Some [], p, h)"
| "read_lists m (Suc n) p h =
     (case ssh_buffer_get_ssh_string m p of
        (None, p1) \<Rightarrow> (None, p1, h)
      | (Some str, p1) \<Rightarrow>
          let (rc, h1) = ssh_buffer_add_ssh_string m (Some str) h in
          if rc < 0 then (None, p1, h1)
          else
            (case ssh_string_to_char m (Some str) of
               None \<Rightarrow> (None, p1, h1)
             | Some cs \<Rightarrow>
                 let (l, p2, h2) = read_lists m n p1 h1 in (map_option (Cons (string_of cs)) l, p2, h2)))"

text \<open>Whether a KEXINIT is welcome. A peer that starts over takes back that ours was sent.\<close>

definition kexinit_expected :: "'k ssh_session \<Rightarrow> 'k ssh_session option" where
  "kexinit_expected s =
     (if session_state s = SSH_SESSION_STATE_AUTHENTICATED then
        (if dh_handshake_state s = DH_STATE_FINISHED then Some (s\<lparr>flags := flags s AND NOT SSH_SESSION_FLAG_KEXINIT_SENT\<rparr>)
         else if flags s AND SSH_SESSION_FLAG_KEXINIT_SENT \<noteq> 0 \<and> dh_handshake_state s = DH_STATE_INIT_SENT then Some s
         else None)
      else if session_state s \<noteq> SSH_SESSION_STATE_INITIAL_KEX then None
      else Some s)"

text \<open>
  The extensions a server turns on for a client that asked for them, \<open>SSH_EXT_NEGOTIATION\<close> being 1 and
  the two RSA signatures 2 and 4; None when the preference of the client cannot be told.
\<close>

definition client_extensions :: "bool \<Rightarrow> string option \<Rightarrow> string option \<Rightarrow> u32 \<Rightarrow> u32 option" where
  "client_extensions m hostkeys wanted_hostkeys ext =
     (let allowed = (\<lambda>name. match_group hostkeys (Some name) \<noteq> 0 \<and> wanted_hostkeys \<noteq> None \<and>
                            ssh_find_matching m wanted_hostkeys (Some name) \<noteq> None);
          e1 = ext OR 1;
          e2 = (if allowed ''rsa-sha2-512'' then e1 OR 4 else e1);
          e3 = (if allowed ''rsa-sha2-256'' then e2 OR 2 else e2)
      in if e3 AND 2 \<noteq> 0 \<and> e3 AND 4 \<noteq> 0 then
           let e4 = e3 AND NOT 6 in
           (case ssh_find_matching m (Some ''rsa-sha2-512,rsa-sha2-256'') hostkeys of
              None \<Rightarrow> None
            | Some r \<Rightarrow>
                if r = ''rsa-sha2-512'' then Some (e4 OR 4)
                else if r = ''rsa-sha2-256'' then Some (e4 OR 2)
                else None)
         else Some e3)"

text \<open>What is decided from the two lists: the guess, strict key exchange, and the extensions.\<close>

definition kexinit_decide :: "'k kex_lib \<Rightarrow> bool \<Rightarrow> 'k ssh_session \<Rightarrow> 'k ssh_session option" where
  "kexinit_decide lib first s =
     (let cm = methods (client_kex (next_kx s)); sm = methods (server_kex (next_kx s));
          s1 = (if first \<or> send_first_kex_follows (shake s) then
                  with_shake (\<lambda>h. h\<lparr>first_kex_follows_guess_wrong :=
                    (cmp_first_kex_algo (cm ! SSH_KEX) (sm ! SSH_KEX) \<or> cmp_first_kex_algo (cm ! SSH_HOSTKEYS) (sm ! SSH_HOSTKEYS))\<rparr>) s
                else s);
          ok = (if server s then match_group (cm ! SSH_KEX) (Some KEX_STRICT_CLIENT)
                else match_group (sm ! SSH_KEX) (Some KEX_STRICT_SERVER));
          s2 = (if ok \<noteq> 0 then s1\<lparr>flags := flags s1 OR SSH_SESSION_FLAG_KEX_STRICT\<rparr> else s1)
      in if server s \<and> match_group (cm ! SSH_KEX) (Some KEX_EXTENSION_CLIENT) \<noteq> 0 then
           map_option (\<lambda>e. with_shake (\<lambda>h. h\<lparr>extensions := e\<rparr>) s2)
             (client_extensions (alloc_ok lib) (cm ! SSH_HOSTKEYS) (wanted_methods (shake s2) ! SSH_HOSTKEYS) (extensions (shake s2)))
         else Some s2)"

text \<open>
  The packet after its cookie: the lists, the two last fields, and the decisions. The packet is the
  session's \<open>in_buffer\<close>.
\<close>

definition kexinit_lists :: "'k kex_lib \<Rightarrow> 'k ssh_session \<Rightarrow> 'k ssh_session \<times> bool" where
  "kexinit_lists lib s =
     (let m = alloc_ok lib;
          (l, p, h) = read_lists m SSH_KEX_METHODS (the (in_buffer s)) (the (in_hashbuf (shake s)));
          put = (\<lambda>p h t. with_shake (\<lambda>x. x\<lparr>in_hashbuf := Some h\<rparr>) (t\<lparr>in_buffer := Some p\<rparr>));
          s1 = put p h s
      in case l of
           None \<Rightarrow> (s1, False)
         | Some xs \<Rightarrow>
             let s2 = put_peer_methods (map Some xs) s1; ((n, first), p1) = ssh_buffer_get_u8 p in
             if n \<noteq> 1 then (put p1 h s2, False)
             else
               let (rc, h1) = ssh_buffer_add_u8 m first h in
               if rc < 0 then (put p1 h1 s2, False)
               else
                 let (rc1, h2) = ssh_buffer_add_u32 m 0 h1; s3 = put p1 h2 s2 in
                 if rc1 < 0 then (s3, False)
                 else (case kexinit_decide lib (first \<noteq> 0) s3 of None \<Rightarrow> (s3, False) | Some s4 \<Rightarrow> (s4, True)))"

definition ssh_packet_kexinit :: "'k kex_lib \<Rightarrow> ('k ssh_session \<Rightarrow> 'k ssh_session) \<Rightarrow> 'k ssh_session \<Rightarrow> byte \<Rightarrow> int \<times> 'k ssh_session" where
  "ssh_packet_kexinit lib ssh_connection_callback s type_byte =
     (case kexinit_expected s of
        None \<Rightarrow> kexinit_failed s
      | Some s0 \<Rightarrow>
          let ((n, cookie), p) = ssh_buffer_get_data 16 (the (in_buffer s0)); s1 = s0\<lparr>in_buffer := Some p\<rparr> in
          if n \<noteq> 16 then kexinit_failed s1
          else
            let s2 = put_peer_cookie cookie s1; (ok, s3) = ssh_hashbufin_add_cookie lib s2 cookie in
            if ok < 0 then kexinit_failed s3
            else
              let (rc, s4) = (if server s3 then server_set_kex lib s3 else set_client_kex lib s3) in
              if rc = SSH_ERROR then kexinit_failed s4
              else
                let (s5, good) = kexinit_lists lib s4 in
                if \<not> good then kexinit_failed s5
                else
                  let s6 = s5\<lparr>session_state := SSH_SESSION_STATE_KEXINIT_RECEIVED\<rparr>;
                      s7 = (if \<not> send_first_kex_follows (shake s6) then s6\<lparr>dh_handshake_state := DH_STATE_INIT\<rparr> else s6)
                  in (1, ssh_connection_callback s7))"

section \<open>Choosing\<close>

definition ssh_kex_select_methods :: "'k kex_lib \<Rightarrow> 'k ssh_session \<Rightarrow> (int \<times> 'k ssh_session) option" where
  "ssh_kex_select_methods lib s =
     map_option (\<lambda>(rc, sm, cm, km).
         let s1 = with_kx (\<lambda>x. x\<lparr>server_kex := (server_kex x)\<lparr>methods := sm\<rparr>, client_kex := (client_kex x)\<lparr>methods := cm\<rparr>,
                                 kex_methods := km\<rparr>) s
         in if rc \<noteq> SSH_OK then (rc, s1)
            else
              let s2 = (if client s1 \<and> first_kex_follows_guess_wrong (shake s1)
                        then with_shake (\<lambda>h. h\<lparr>first_kex_follows_guess_wrong := False\<rparr>)
                               ((revert_kex_callbacks s1)\<lparr>dh_handshake_state := DH_STATE_INIT\<rparr>)
                        else s1)
              in (SSH_OK, with_kx (\<lambda>x. x\<lparr>kex_type := kex_select_kex_type (the (km ! SSH_KEX))\<rparr>) s2))
       (select_methods (alloc_ok lib) (client s) (server s) (methods (server_kex (next_kx s)))
          (methods (client_kex (next_kx s))) (kex_methods (next_kx s)))"

end
