(* ===== verification/Kex_Demo.thy ===== *)
theory Kex_Demo
  imports Packet_Safety Kex_Init
begin

text \<open>An environment for the key exchange in which everything works, to evaluate the functions on.\<close>

definition demo_globals :: dh_globals where
  "demo_globals = snd (ssh_dh_init (demo_bn 6)
     \<lparr>dh_crypto_initialized = False, ssh_dh_generator = None, ssh_dh_group1 = None, ssh_dh_group14 = None,
      ssh_dh_group16 = None, ssh_dh_group18 = None\<rparr>)"

definition demo_funs :: "unit cipher_funs" where
  "demo_funs =
     \<lparr>zero_context = (\<lambda>n. ()), encrypt_key = (\<lambda>n c k v. (0, c)), decrypt_key = (\<lambda>n c k v. (0, c)),
      cipher_encrypt = (\<lambda>n c bs. (bs, c)), cipher_decrypt = (\<lambda>n c bs. (bs, c)),
      encrypt_gcm = (\<lambda>n c bs q. (bs, replicate 16 0, c)), gcm_get_length = (\<lambda>n c bs l q. (0, take 4 bs, c)),
      decrypt_gcm = (\<lambda>n c bs l q. (0, take l bs, c))\<rparr>"

definition demo_lib :: "unit kex_lib" where
  "demo_lib =
     \<lparr>penv = demo_packet_env, bignums = demo_bn 6, dh_vars = demo_globals, gcm_built = False,
      known_hosts_names = (\<lambda>s. None), get_random = (\<lambda>s n. Some (replicate n 7)), scalarmult_base = rev,
      scalarmult = (\<lambda>k q. map2 (+) k q), ecp_gen = (\<lambda>t. None), ecp_shared = (\<lambda>t k q. None),
      import_pubkey_blob = (\<lambda>b. Some (str_view b)), export_pubkey_blob = (\<lambda>k. ssh_string_from_char True (Some k)),
      import_signature_blob = (\<lambda>b k. map_option (\<lambda>x. (''ssh-ed25519'', str_view x)) b),
      signature_verify = (\<lambda>s sg k h. if snd sg = k then SSH_OK else SSH_ERROR),
      hash_of = (\<lambda>t bs. take 4 bs), ciphers = demo_funs,
      client_dhgex_init = (\<lambda>s. (SSH_ERROR, s)), server_set_kex = (\<lambda>s. (SSH_ERROR, s))\<rparr>"

definition demo_names :: "string list" where
  "demo_names = [''curve25519-sha256'', ''ssh-ed25519'', ''aes256-ctr'', ''aes256-ctr'', ''hmac-sha2-256'', ''hmac-sha2-256'',
     ''none'', ''none'', [], []]"

definition demo_offer :: ssh_kex where
  "demo_offer = \<lparr>kex_cookie = replicate 16 3, methods = map Some demo_names\<rparr>"

text \<open>A client that has chosen its lists.\<close>

definition demo_client :: "ssh_buffer option \<Rightarrow> unit ssh_session" where
  "demo_client b =
     (with_kx (\<lambda>x. x\<lparr>client_kex := demo_offer\<rparr>) (demo_session None (Some (demo_crypto 0))))
       \<lparr>session_state := SSH_SESSION_STATE_INITIAL_KEX, dh_handshake_state := DH_STATE_INIT, flags := 0, in_buffer := b\<rparr>"

lemma demo_client_simps [simp]:
  "server (demo_client b) = False" "client (demo_client b) = True" "next_crypto (demo_client b) \<noteq> None"
  "own_kex (demo_client b) = demo_offer" "client_kex (next_kx (demo_client b)) = demo_offer"
  "in_buffer (demo_client b) = b" "out_buffer (demo_client b) = empty_buffer"
  "session_state (demo_client b) = SSH_SESSION_STATE_INITIAL_KEX" "methods demo_offer ! 0 \<noteq> None"
  by (simp_all add: demo_client_def own_kex_def next_kx_def with_kx_def with_next_def demo_session_def demo_offer_def demo_names_def)

lemma empty_buffer_ok [simp]: "buffer_ok empty_buffer" "contents empty_buffer = []"
  by (simp_all add: buffer_ok_def contents_def empty_buffer_def)

lemma demo_lib_alloc [simp]: "alloc_ok demo_lib"
  by (simp add: demo_lib_def demo_packet_env_def)

end
