(* ===== verification/Kex_Wire.thy ===== *)
theory Kex_Wire
  imports Kex_Demo Ssh_Message
begin

unbundle bit_operations_syntax

text \<open>
  KEXINIT on the wire: a packet that one side builds is read by the other as it was meant, and both
  sides feed the same bytes to the exchange hash.
\<close>

section \<open>Lists on the wire\<close>

definition lists_enc :: "string list \<Rightarrow> byte list" where
  "lists_enc ns = concat (map (\<lambda>n. be_bytes 4 (of_nat (length n) :: u32) @ bytes_of n) ns)"

lemma lists_enc_simps [simp]:
  "lists_enc [] = []" "lists_enc (n # ns) = be_bytes 4 (of_nat (length n) :: u32) @ bytes_of n @ lists_enc ns"
  by (simp_all add: lists_enc_def)

lemma add_string_fits:
  assumes "buffer_ok b" and "string_ok x" and "length (contents b) + 4 + length (str_view x) < 16384"
  obtains b' where "ssh_buffer_add_ssh_string True (Some x) b = (0, b')" "buffer_ok b'"
    "contents b' = contents b @ be_bytes 4 (str_size x) @ str_view x"
proof -
  let ?d = "be_bytes 4 (str_size x) @ str_view x"
  obtain b' where "ssh_buffer_add_data True (Some ?d) b = (0, b')" "buffer_ok b'" "contents b' = contents b @ ?d"
    using assms by (auto intro: add_bytes_fits [OF assms(1), of ?d] simp del: be_bytes.simps)
  then show ?thesis
    using assms(2) by (intro that [of b']) (auto simp: ssh_buffer_add_ssh_string_def str_view_def simp del: be_bytes.simps)
qed

lemma string_from_name:
  assumes "length n < 16384"
  obtains x where "ssh_string_from_char True (Some (bytes_of n)) = Some x" "string_ok x" "str_view x = bytes_of n"
    "str_size x = of_nat (length n)"
proof -
  have "length (bytes_of n) \<le> 2 ^ 28" using assms by simp
  from from_char_ok [OF this] obtain x where x: "ssh_string_from_char True (Some (bytes_of n)) = Some x" "string_ok x"
    "str_view x = bytes_of n" by blast
  have "str_size x = of_nat (length n)"
    using x(1) by (auto simp: ssh_string_from_char_def ssh_string_new_def split: if_splits)
  with x that show ?thesis by blast
qed

lemma add_lists_ok:
  assumes "buffer_ok h" and "buffer_ok b" and "length (contents h) + length (lists_enc ns) < 16384"
    and "length (contents b) + length (lists_enc ns) < 16384"
  shows "\<exists>h' b'. add_lists True (map Some ns) h b = (True, h', b') \<and> buffer_ok h' \<and> buffer_ok b' \<and>
    contents h' = contents h @ lists_enc ns \<and> contents b' = contents b @ lists_enc ns"
  using assms
proof (induction ns arbitrary: h b)
  case (Cons n ns)
  have n: "length n < 16384" using Cons.prems(3) by (simp del: be_bytes.simps)
  obtain x where x: "ssh_string_from_char True (Some (bytes_of n)) = Some x" "string_ok x" "str_view x = bytes_of n"
    "str_size x = of_nat (length n)" using string_from_name [OF n] .
  have lh: "length (contents h) + 4 + length (str_view x) < 16384" and lb: "length (contents b) + 4 + length (str_view x) < 16384"
    using Cons.prems(3,4) x(3) by (simp_all del: be_bytes.simps length_str_view)
  obtain h1 where h1: "ssh_buffer_add_ssh_string True (Some x) h = (0, h1)" "buffer_ok h1"
    "contents h1 = contents h @ be_bytes 4 (str_size x) @ str_view x" using add_string_fits [OF Cons.prems(1) x(2) lh] .
  obtain b1 where b1: "ssh_buffer_add_ssh_string True (Some x) b = (0, b1)" "buffer_ok b1"
    "contents b1 = contents b @ be_bytes 4 (str_size x) @ str_view x" using add_string_fits [OF Cons.prems(2) x(2) lb] .
  have "length (contents h1) + length (lists_enc ns) < 16384" "length (contents b1) + length (lists_enc ns) < 16384"
    using Cons.prems(3,4) h1(3) b1(3) x(3) by (simp_all del: be_bytes.simps length_str_view)
  from Cons.IH [OF h1(2) b1(2) this] h1 b1 x show ?case
    by (auto simp del: be_bytes.simps length_str_view)
qed auto

lemma string_read_back:
  assumes "string_ok x" and "str_view x = bytes_of n" and "CHR 0x00 \<notin> set n" and "length n < 16384"
  shows "\<exists>cs. ssh_string_to_char True (Some (x\<lparr>str_data := str_view x @ [0]\<rparr>)) = Some cs \<and> string_of cs = n"
proof -
  have len: "unat (str_size x) = length n" using assms(1,2) length_str_view [OF assms(1)] by simp
  let ?y = "x\<lparr>str_data := str_view x @ [0]\<rparr>"
  have "string_ok ?y" using assms(1) by (auto simp: string_ok_def str_view_def)
  then have l: "ssh_string_len (Some ?y) = str_size x" by simp
  have "\<not> str_size x + 1 < str_size x"
    using len assms(4) by (simp add: word_less_nat_alt unat_add_no_wrap)
  then have "ssh_string_to_char True (Some ?y) = Some (bytes_of n @ [0])"
    using len assms(2) l [unfolded assms(2)] by (simp add: ssh_string_to_char_def Let_def)
  with string_of_bytes [OF assms(3), of "[]"] show ?thesis by simp
qed

lemma read_lists_ok:
  assumes "buffer_ok p" and "buffer_ok h" and "contents p = lists_enc ns @ rest"
    and "length (contents h) + length (lists_enc ns) < 16384" and "\<forall>n\<in>set ns. CHR 0x00 \<notin> set n"
  shows "\<exists>p' h'. read_lists True (length ns) p h = (Some ns, p', h') \<and> buffer_ok p' \<and> buffer_ok h' \<and>
    contents p' = rest \<and> contents h' = contents h @ lists_enc ns"
  using assms
proof (induction ns arbitrary: p h)
  case (Cons n ns)
  have n: "length n < 16384" using Cons.prems(4) by (simp del: be_bytes.simps)
  obtain x where x: "string_ok x" "str_view x = bytes_of n" "str_size x = of_nat (length n)"
    using string_from_name [OF n] by metis
  have "contents p = be_bytes 4 (str_size x) @ str_view x @ (lists_enc ns @ rest)"
    using Cons.prems(3) x by (simp del: be_bytes.simps length_str_view)
  then obtain p1 where p1: "ssh_buffer_get_ssh_string True p = (Some (x\<lparr>str_data := str_view x @ [0]\<rparr>), p1)" "buffer_ok p1"
    "contents p1 = lists_enc ns @ rest" using get_string_at [OF Cons.prems(1) x(1)] by blast
  let ?y = "x\<lparr>str_data := str_view x @ [0]\<rparr>"
  have y: "string_ok ?y" "str_view ?y = str_view x" "str_size ?y = str_size x"
    using x(1) by (auto simp: string_ok_def str_view_def min_def)
  have "length (contents h) + 4 + length (str_view ?y) < 16384"
    using Cons.prems(4) x y by (simp del: be_bytes.simps length_str_view)
  then obtain h1 where h1: "ssh_buffer_add_ssh_string True (Some ?y) h = (0, h1)" "buffer_ok h1"
    "contents h1 = contents h @ be_bytes 4 (str_size x) @ str_view x"
    using add_string_fits [OF Cons.prems(2) y(1)] y by metis
  have "length (contents h1) + length (lists_enc ns) < 16384"
    using Cons.prems(4) h1(3) x by (simp del: be_bytes.simps length_str_view)
  from Cons.IH [OF p1(2) h1(2) p1(3) this] Cons.prems(5) obtain p2 h2 where
    r: "read_lists True (length ns) p1 h1 = (Some ns, p2, h2)" "buffer_ok p2" "buffer_ok h2" "contents p2 = rest"
    "contents h2 = contents h1 @ lists_enc ns" by auto
  obtain cs where "ssh_string_to_char True (Some ?y) = Some cs" "string_of cs = n"
    using string_read_back [OF x(1,2) _ n] Cons.prems(5) by auto
  with p1(1) h1(1) r h1(3) x show ?case by (auto simp: Let_def simp del: be_bytes.simps length_str_view)
qed auto


section \<open>The whole packet\<close>

lemma add_u8_fits:
  assumes "buffer_ok b" and "length (contents b) < 16383"
  obtains b' where "ssh_buffer_add_u8 True x b = (0, b')" "buffer_ok b'" "contents b' = contents b @ [x]"
proof -
  obtain b' where "ssh_buffer_add_data True (Some [x]) b = (0, b')" "buffer_ok b'" "contents b' = contents b @ [x]"
    using assms by (auto intro: add_bytes_fits [OF assms(1), of "[x]"])
  then show ?thesis
    by (intro that [of b']) (auto simp: ssh_buffer_add_u8_def host_bytes_1 simp del: One_nat_def)
qed

lemma add_u32_zero:
  assumes "buffer_ok b" and "length (contents b) < 16380"
  obtains b' where "ssh_buffer_add_u32 True 0 b = (0, b')" "buffer_ok b'" "contents b' = contents b @ [0, 0, 0, 0]"
proof -
  have h: "host_bytes 4 (0 :: u32) = [0, 0, 0, 0]" by code_simp
  obtain b' where "ssh_buffer_add_data True (Some [0, 0, 0, 0]) b = (0, b')" "buffer_ok b'"
    "contents b' = contents b @ [0, 0, 0, 0]"
    using assms by (auto intro: add_bytes_fits [OF assms(1), of "[0, 0, 0, 0]"])
  then show ?thesis by (intro that [of b']) (auto simp: ssh_buffer_add_u32_def h)
qed

lemma pack_to_ok:
  assumes "buffer_ok b" and "\<forall>f\<in>set fs. field_ok f" and "fs \<noteq> []" and "arg_count fs \<le> 256"
    and "length (contents b) + length (message fs) < 16384"
  obtains b' where "pack_to True (map field_fmt fs) (concat (map field_va fs)) b = (SSH_OK, b')" "buffer_ok b'"
    "contents b' = contents b @ message fs"
proof -
  have "length (concat (map field_va fs)) = arg_count fs" by (induction fs) auto
  with pack_ok [OF assms] that show ?thesis by (auto simp: pack_to_def)
qed

lemma hashbuf_ok:
  assumes "unat room < 16384" and "length c = 16"
  obtains b where "hashbuf_add_cookie True room c = (0, Some b)" "buffer_ok b" "contents b = 20 # c"
proof -
  obtain b0 where b0: "ssh_buffer_new True True = Some b0" "buffer_ok b0" "contents b0 = []" using new_ok by blast
  have "room < 16384" using assms(1) by (simp add: word_less_nat_alt)
  from allocate_size_ok [OF b0(2) this] obtain b1 where
    b1: "ssh_buffer_allocate_size True room b0 = (0, b1)" "buffer_ok b1" "contents b1 = contents b0" by blast
  obtain b2 where b2: "ssh_buffer_add_u8 True 20 b1 = (0, b2)" "buffer_ok b2" "contents b2 = [20]"
    using add_u8_fits [OF b1(2), of 20] b1(3) b0(3) by auto
  have "length (contents b2) + length c < 16384" using b2(3) assms(2) by simp
  then obtain b3 where b3: "ssh_buffer_add_data True (Some c) b2 = (0, b3)" "buffer_ok b3" "contents b3 = contents b2 @ c"
    using add_bytes_fits [OF b2(2)] by blast
  show ?thesis using b0(1) b1(1) b2 b3 by (intro that [of b3]) (simp_all add: hashbuf_add_cookie_def)
qed

text \<open>The bytes after the number of the message that both sides hash.\<close>

definition kexinit_body :: "byte list \<Rightarrow> string list \<Rightarrow> bool \<Rightarrow> byte list" where
  "kexinit_body cookie ns first = cookie @ lists_enc ns @ [if first then 1 else 0] @ [0, 0, 0, 0]"

definition lists_ok :: "ssh_kex \<Rightarrow> string list \<Rightarrow> bool" where
  "lists_ok k ns \<longleftrightarrow> methods k = map Some ns \<and> length ns = SSH_KEX_METHODS \<and> length (kex_cookie k) = 16 \<and>
     (\<forall>n\<in>set ns. CHR 0x00 \<notin> set n) \<and> 22 + length (lists_enc ns) < 16384"

lemma own_kex_same [simp]:
  "own_kex (s\<lparr>out_buffer := b\<rparr>) = own_kex s" "own_kex (with_shake f s) = own_kex s"
  "own_kex (set_out_hash h s) = own_kex s"
  by (simp_all add: own_kex_def next_kx_def with_shake_def set_out_hash_def)

lemma shake_simps [simp]:
  "shake (with_shake f s) = f (shake s)" "out_buffer (with_shake f s) = out_buffer s"
  "out_buffer (set_out_hash h s) = out_buffer s" "out_hashbuf (shake (set_out_hash h s)) = Some h"
  by (simp_all add: with_shake_def set_out_hash_def)

lemma build_kexinit_ok:
  assumes m: "alloc_ok lib" and b: "buffer_ok (out_buffer s)" "contents (out_buffer s) = []" and k: "lists_ok (own_kex s) ns"
  shows "\<exists>s1 h. build_kexinit lib first s = (True, s1) \<and> out_hashbuf (shake s1) = Some h \<and> buffer_ok h \<and>
    contents h = 20 # kexinit_body (kex_cookie (own_kex s)) ns first \<and>
    contents (out_buffer s1) = 20 # kexinit_body (kex_cookie (own_kex s)) ns first"
proof -
  let ?c = "kex_cookie (own_kex s)"
  have c: "length ?c = 16" and ns: "methods (own_kex s) = map Some ns" and fit: "22 + length (lists_enc ns) < 16384"
    using k by (auto simp: lists_ok_def)
  obtain b1 where b1: "pack_to True ''bP'' [VA_int 20, VA_size 16, VA_data ?c] (out_buffer s) = (SSH_OK, b1)"
    "buffer_ok b1" "contents b1 = 20 # ?c"
    using pack_to_ok [OF b(1), of "[F_byte 20, F_data ?c]"] b(2) c by auto
  obtain h0 where h0: "hashbuf_add_cookie True 17 ?c = (0, Some h0)" "buffer_ok h0" "contents h0 = 20 # ?c"
    using hashbuf_ok [of 17 ?c] c by auto
  have "length (contents h0) + length (lists_enc ns) < 16384" "length (contents b1) + length (lists_enc ns) < 16384"
    using h0(3) b1(3) c fit by simp_all
  from add_lists_ok [OF h0(2) b1(2) this] obtain h1 b2 where
    l: "add_lists True (map Some ns) h0 b1 = (True, h1, b2)" "buffer_ok h1" "buffer_ok b2"
      "contents h1 = contents h0 @ lists_enc ns" "contents b2 = contents b1 @ lists_enc ns" by blast
  let ?f = "if first then 1 else 0 :: byte"
  have z: "be_bytes 4 (0 :: u32) = [0, 0, 0, 0]" by code_simp
  obtain b3 where b3: "pack_to True ''bd'' [VA_int (if first then 1 else 0), VA_int 0] b2 = (SSH_OK, b3)" "buffer_ok b3"
    "contents b3 = contents b2 @ [?f, 0, 0, 0, 0]"
  proof -
    have "\<forall>x\<in>set [F_byte ?f, F_dword 0]. field_ok x" "length (contents b2) + length (message [F_byte ?f, F_dword 0]) < 16384"
      using l(5) b1(3) c fit by simp_all
    then obtain b3 where "pack_to True (map field_fmt [F_byte ?f, F_dword 0]) (concat (map field_va [F_byte ?f, F_dword 0])) b2 = (SSH_OK, b3)"
      "buffer_ok b3" "contents b3 = contents b2 @ message [F_byte ?f, F_dword 0]"
      using pack_to_ok [OF l(3), of "[F_byte ?f, F_dword 0]"] by auto
    then show ?thesis by (intro that [of b3]) (auto simp: z simp del: be_bytes.simps)
  qed
  have "length (contents h1) < 16383" using l(4) h0(3) c fit by simp
  then obtain h2 where h2: "ssh_buffer_add_u8 True ?f h1 = (0, h2)" "buffer_ok h2" "contents h2 = contents h1 @ [?f]"
    using add_u8_fits [OF l(2)] by blast
  have "length (contents h2) < 16380" using h2(3) l(4) h0(3) c fit by simp
  then obtain h3 where h3: "ssh_buffer_add_u32 True 0 h2 = (0, h3)" "buffer_ok h3" "contents h3 = contents h2 @ [0, 0, 0, 0]"
    using add_u32_zero [OF h2(2)] by blast
  show ?thesis
    using m b1 h0 l b3 h2 h3
    by (simp add: build_kexinit_def pack_session_def ssh_hashbufout_add_cookie_def Let_def ns kexinit_body_def
        del: be_bytes.simps split del: if_split)
qed


section \<open>Reading it\<close>

lemma with_kx_simps [simp]:
  "shake (with_kx f s) = shake s" "in_buffer (with_kx f s) = in_buffer s" "server (with_kx f s) = server s"
  "session_state (with_kx f s) = session_state s" "next_crypto (with_kx f s) = None \<longleftrightarrow> next_crypto s = None"
  by (simp_all add: with_kx_def with_next_def)

lemma with_shake_more [simp]:
  "in_buffer (with_shake f s) = in_buffer s" "server (with_shake f s) = server s"
  "session_state (with_shake f s) = session_state s" "next_crypto (with_shake f s) = next_crypto s"
  "next_kx (with_shake f s) = next_kx s"
  by (simp_all add: with_shake_def next_kx_def)

lemma next_kx_same [simp]:
  "next_kx (s\<lparr>in_buffer := b\<rparr>) = next_kx s" "next_kx (s\<lparr>flags := w\<rparr>) = next_kx s"
  "next_kx (s\<lparr>session_state := x\<rparr>) = next_kx s" "next_kx (s\<lparr>dh_handshake_state := d\<rparr>) = next_kx s"
  by (simp_all add: next_kx_def)

lemma set_client_kex_again:
  assumes "methods (client_kex (next_kx s)) ! 0 \<noteq> None" and "next_crypto s \<noteq> None"
  shows "\<exists>s'. set_client_kex lib s = (SSH_OK, s') \<and> next_kx s' = next_kx s \<and> shake s' = shake s \<and> in_buffer s' = in_buffer s \<and>
    server s' = server s \<and> next_crypto s' \<noteq> None"
  using assms by (simp add: set_client_kex_def ssh_set_client_kex_def del: not_None_eq)

lemma kexinit_lists_ok:
  assumes m: "alloc_ok lib" and srv: "\<not> server t" and nx: "next_crypto t \<noteq> None"
    and p: "in_buffer t = Some p" "buffer_ok p" "contents p = lists_enc ns @ [if first then 1 else 0] @ [0, 0, 0, 0]"
    and h: "in_hashbuf (shake t) = Some h" "buffer_ok h" "contents h = 20 # c" "length c = 16"
    and ns: "length ns = 10" "\<forall>n\<in>set ns. CHR 0x00 \<notin> set n" "22 + length (lists_enc ns) < 16384"
  shows "\<exists>u h'. kexinit_lists lib t = (u, True) \<and> next_crypto u \<noteq> None \<and>
    server_kex (next_kx u) = (server_kex (next_kx t))\<lparr>methods := map Some ns\<rparr> \<and>
    in_hashbuf (shake u) = Some h' \<and> contents h' = 20 # kexinit_body c ns first"
proof -
  have "length (contents h) + length (lists_enc ns) < 16384" using h ns by simp
  from read_lists_ok [OF p(2) h(2) p(3) this ns(2)] obtain p1 h1 where
    r: "read_lists True 10 p h = (Some ns, p1, h1)" "buffer_ok p1" "buffer_ok h1"
      "contents p1 = [if first then 1 else 0] @ [0, 0, 0, 0]" "contents h1 = contents h @ lists_enc ns" using ns(1) by auto
  let ?f = "if first then 1 else 0 :: byte"
  obtain p2 where "ssh_buffer_get_data 1 p1 = ((1, [?f]), p2)" using get_prefix_at [OF r(2,4), of 1] by auto
  then have g: "ssh_buffer_get_u8 p1 = ((1, ?f), p2)" by (simp add: ssh_buffer_get_u8_def host_word_be del: One_nat_def)
  have "length (contents h1) < 16383" using r(5) h ns by simp
  then obtain h2 where h2: "ssh_buffer_add_u8 True ?f h1 = (0, h2)" "buffer_ok h2" "contents h2 = contents h1 @ [?f]"
    using add_u8_fits [OF r(3)] by blast
  have "length (contents h2) < 16380" using h2(3) r(5) h ns by simp
  then obtain h3 where h3: "ssh_buffer_add_u32 True 0 h2 = (0, h3)" "contents h3 = contents h2 @ [0, 0, 0, 0]"
    using add_u32_zero [OF h2(2)] by blast
  define s3 where "s3 = with_shake (\<lambda>x. x\<lparr>in_hashbuf := Some h3\<rparr>)
    (put_peer_methods (map Some ns) (with_shake (\<lambda>x. x\<lparr>in_hashbuf := Some h1\<rparr>) (t\<lparr>in_buffer := Some p1\<rparr>))\<lparr>in_buffer := Some p2\<rparr>)"
  have s3: "server_kex (next_kx s3) = (server_kex (next_kx t))\<lparr>methods := map Some ns\<rparr>" "\<not> server s3" "next_crypto s3 \<noteq> None"
    "in_hashbuf (shake s3) = Some h3"
    using srv nx by (simp_all add: s3_def put_peer_methods_def)
  have f: "?f \<noteq> 0 \<longleftrightarrow> first" by simp
  obtain u where u: "kexinit_decide lib first s3 = Some u" "next_kx u = next_kx s3" "in_hashbuf (shake u) = Some h3" "next_crypto u = next_crypto s3"
    using s3 by (auto simp: kexinit_decide_def Let_def)
  have "kexinit_lists lib t = (u, True)"
    using m r(1) g h2(1) h3(1) p(1) h(1) u(1)
    by (simp add: kexinit_lists_def s3_def Let_def f split del: if_split)
  then show ?thesis using u s3 h3(2) h2(3) r(5) h(3) by (auto simp: kexinit_body_def)
qed

text \<open>
  C13: A KEXINIT is read as it was meant. When one side has built the packet with its cookie and ten
  lists, and the client is given the bytes after the number of the message, it stores that cookie and
  those lists as the peer's, goes to the state after KEXINIT, and calls the session back; the bytes
  it keeps for the exchange hash are the ones the sender kept.
\<close>

theorem kexinit_read_back:
  assumes "alloc_ok lib" and "buffer_ok (out_buffer s)" and "contents (out_buffer s) = []" and "lists_ok (own_kex s) ns"
    and "build_kexinit lib first s = (True, s1)"
    and "alloc_ok lib'" and "\<not> server t" and "session_state t = SSH_SESSION_STATE_INITIAL_KEX" and "next_crypto t \<noteq> None"
    and "methods (client_kex (next_kx t)) ! 0 \<noteq> None"
    and "in_buffer t = Some p" and "buffer_ok p" and "20 # contents p = contents (out_buffer s1)"
  shows "\<exists>u. ssh_packet_kexinit lib' cb t 20 = (1, cb u) \<and> session_state u = SSH_SESSION_STATE_KEXINIT_RECEIVED \<and>
    server_kex (next_kx u) = own_kex s \<and>
    map_option contents (in_hashbuf (shake u)) = map_option contents (out_hashbuf (shake s1))"
proof -
  let ?c = "kex_cookie (own_kex s)"
  have c: "length ?c = 16" and ns: "methods (own_kex s) = map Some ns" "length ns = 10" "\<forall>n\<in>set ns. CHR 0x00 \<notin> set n"
    and fit: "22 + length (lists_enc ns) < 16384" using assms(4) by (auto simp: lists_ok_def)
  from build_kexinit_ok [OF assms(1-4), of first] assms(5) obtain ho where
    s1: "out_hashbuf (shake s1) = Some ho" "contents ho = 20 # kexinit_body ?c ns first"
      "contents (out_buffer s1) = 20 # kexinit_body ?c ns first" by auto
  have p: "contents p = ?c @ (lists_enc ns @ [if first then 1 else 0] @ [0, 0, 0, 0])"
    using assms(13) s1(3) by (simp add: kexinit_body_def)
  obtain p1 where p1: "ssh_buffer_get_data 16 p = ((16, ?c), p1)" "buffer_ok p1"
    "contents p1 = lists_enc ns @ [if first then 1 else 0] @ [0, 0, 0, 0]"
    using get_prefix_at [OF assms(12) p, of 16] c by auto
  obtain h where h: "hashbuf_add_cookie True 37 ?c = (0, Some h)" "buffer_ok h" "contents h = 20 # ?c"
    using hashbuf_ok [of 37 ?c] c by auto
  define s3 where "s3 = with_shake (\<lambda>x. x\<lparr>in_hashbuf := Some h\<rparr>) (put_peer_cookie ?c (t\<lparr>in_buffer := Some p1\<rparr>))"
  have kx3: "server_kex (next_kx s3) = (server_kex (next_kx t))\<lparr>kex_cookie := ?c\<rparr>" "client_kex (next_kx s3) = client_kex (next_kx t)"
    "\<not> server s3" "next_crypto s3 \<noteq> None" "in_buffer s3 = Some p1" "in_hashbuf (shake s3) = Some h"
    using assms(7,9) by (simp_all add: s3_def put_peer_cookie_def)
  obtain s4 where s4: "set_client_kex lib' s3 = (SSH_OK, s4)" "next_kx s4 = next_kx s3" "shake s4 = shake s3"
    "in_buffer s4 = in_buffer s3" "server s4 = server s3" "next_crypto s4 \<noteq> None"
    using set_client_kex_again [of s3 lib'] assms(10) kx3 by auto
  from kexinit_lists_ok [OF assms(6) _ s4(6) _ p1(2,3) _ h(2,3) c ns(2,3) fit] s4 kx3 obtain u h' where
    u: "kexinit_lists lib' s4 = (u, True)" "next_crypto u \<noteq> None"
      "server_kex (next_kx u) = (server_kex (next_kx t))\<lparr>kex_cookie := ?c, methods := map Some ns\<rparr>"
      "in_hashbuf (shake u) = Some h'" "contents h' = 20 # kexinit_body ?c ns first" by auto
  have own: "server_kex (next_kx u) = own_kex s" using u(3) ns(1) by simp
  have e: "kexinit_expected t = Some t" using assms(8) by (simp add: kexinit_expected_def)
  have hi: "ssh_hashbufin_add_cookie lib' (put_peer_cookie ?c (t\<lparr>in_buffer := Some p1\<rparr>)) ?c = (0, s3)"
    using h(1) assms(6) by (simp add: ssh_hashbufin_add_cookie_def s3_def)
  have "ssh_packet_kexinit lib' cb t 20 =
    (1, cb (let s6 = u\<lparr>session_state := SSH_SESSION_STATE_KEXINIT_RECEIVED\<rparr>
            in if \<not> send_first_kex_follows (shake s6) then s6\<lparr>dh_handshake_state := DH_STATE_INIT\<rparr> else s6))"
    unfolding ssh_packet_kexinit_def e assms(11) option.case option.sel p1(1) prod.case Let_def hi
    using kx3(3) s4(1) u(1) by simp
  then show ?thesis using own u(4,5) s1(1,2) by (auto simp: Let_def)
qed


lemma demo_lists: "lists_ok demo_offer demo_names"
proof -
  have "length (lists_enc demo_names) < 200" by (simp add: demo_names_def del: be_bytes.simps)
  then show ?thesis by (simp add: lists_ok_def demo_offer_def demo_names_def)
qed

theorem kexinit_read_back_witness:
  "\<exists>s1 p u. build_kexinit demo_lib False (demo_client None) = (True, s1) \<and>
     ssh_packet_kexinit demo_lib id (demo_client (Some p)) 20 = (1, u) \<and>
     server_kex (next_kx u) = demo_offer \<and> session_state u = SSH_SESSION_STATE_KEXINIT_RECEIVED"
proof -
  let ?s = "demo_client None"
  have l: "lists_ok (own_kex ?s) demo_names" using demo_lists by simp
  obtain s1 where s1: "build_kexinit demo_lib False ?s = (True, s1)"
    "contents (out_buffer s1) = 20 # kexinit_body (kex_cookie (own_kex ?s)) demo_names False"
    using build_kexinit_ok [OF demo_lib_alloc _ _ l, of False] by auto
  let ?b = "kexinit_body (kex_cookie (own_kex ?s)) demo_names False"
  have "length ?b < 16384" using demo_lists by (simp add: kexinit_body_def lists_ok_def)
  then obtain p where p: "buffer_ok p" "contents p = ?b"
    using add_bytes_fits [of empty_buffer ?b] by auto
  from kexinit_read_back [OF demo_lib_alloc _ _ l s1(1) demo_lib_alloc, of "demo_client (Some p)" p id] p s1 show ?thesis by auto
qed

end
