(* ===== verification/Kex_Session.thy ===== *)
theory Kex_Session
  imports Kex_Demo
begin

unbundle bit_operations_syntax

text \<open>
  From the shared secret to the keys: the exchange hash and the session identifier (\<open>kex.c\<close>), the
  key derivation (\<open>kdf.c\<close>), and the choice of ciphers and MACs (\<open>wrapper.c\<close>). A hash function is
  applied to everything its context is fed.
\<close>

section \<open>The exchange hash\<close>

definition kex_digest :: "kex_type \<Rightarrow> (nat \<times> kdf_digest) option" where
  "kex_digest t =
     (case t of
        SSH_KEX_DH_GROUP1_SHA1 \<Rightarrow> Some (20, SSH_KDF_SHA1)
      | SSH_KEX_DH_GROUP14_SHA1 \<Rightarrow> Some (20, SSH_KDF_SHA1)
      | SSH_KEX_DH_GEX_SHA1 \<Rightarrow> Some (20, SSH_KDF_SHA1)
      | SSH_KEX_DH_GROUP14_SHA256 \<Rightarrow> Some (32, SSH_KDF_SHA256)
      | SSH_KEX_ECDH_SHA2_NISTP256 \<Rightarrow> Some (32, SSH_KDF_SHA256)
      | SSH_KEX_CURVE25519_SHA256 \<Rightarrow> Some (32, SSH_KDF_SHA256)
      | SSH_KEX_CURVE25519_SHA256_LIBSSH_ORG \<Rightarrow> Some (32, SSH_KDF_SHA256)
      | SSH_KEX_DH_GEX_SHA256 \<Rightarrow> Some (32, SSH_KDF_SHA256)
      | SSH_KEX_ECDH_SHA2_NISTP384 \<Rightarrow> Some (48, SSH_KDF_SHA384)
      | SSH_KEX_DH_GROUP16_SHA512 \<Rightarrow> Some (64, SSH_KDF_SHA512)
      | SSH_KEX_DH_GROUP18_SHA512 \<Rightarrow> Some (64, SSH_KDF_SHA512)
      | SSH_KEX_ECDH_SHA2_NISTP521 \<Rightarrow> Some (64, SSH_KDF_SHA512)
      | SSH_KEX_NONE \<Rightarrow> None)"

definition big_arg :: "'k kex_lib \<Rightarrow> bignum \<Rightarrow> va" where
  "big_arg lib n = VA_bignum (ssh_make_bignum_string (alloc_ok lib) (bignums lib) n)"

text \<open>The public keys of the two sides, or None when one is zero or missing.\<close>

definition both_dh_keys :: "'k kex_lib \<Rightarrow> kex_crypto \<Rightarrow> (bignum \<times> bignum) option" where
  "both_dh_keys lib k =
     (case (ssh_dh_keypair_get_keys (bignums lib) (dh_ctx k) DH_CLIENT_KEYPAIR False True,
            ssh_dh_keypair_get_keys (bignums lib) (dh_ctx k) DH_SERVER_KEYPAIR False True) of
        (Some (_, _, Some e), Some (_, _, Some f)) \<Rightarrow> Some (e, f)
      | _ \<Rightarrow> None)"

text \<open>
  The values of the key exchange, packed into \<open>b\<close>. The result of the missing curve points is the one
  of the packing before it.
\<close>

definition pack_exchange :: "'k kex_lib \<Rightarrow> kex_crypto \<Rightarrow> ssh_buffer \<Rightarrow> (int \<times> ssh_buffer) + (int \<times> ssh_buffer)" where
  "pack_exchange lib k b =
     (let m = alloc_ok lib; done = (\<lambda>(rc, b1). if rc \<noteq> SSH_OK then Inl (rc, b1) else Inr (rc, b1)) in
      case kex_family (kex_type k) of
        By_DH \<Rightarrow>
          (case both_dh_keys lib k of
             None \<Rightarrow> Inl (SSH_ERROR, b)
           | Some (e, f) \<Rightarrow> done (pack_to m ''BB'' [big_arg lib e, big_arg lib f] b))
      | By_DHGEX \<Rightarrow>
          (case both_dh_keys lib k of
             None \<Rightarrow> Inl (SSH_ERROR, b)
           | Some (e, f) \<Rightarrow>
               let (rc, p, g) = ssh_dh_get_parameters (dh_ctx k) in
               if rc \<noteq> SSH_OK then Inl (rc, b)
               else done (pack_to m ''dddBBBB'' [VA_int (dh_pmin k), VA_int (dh_pn k), VA_int (dh_pmax k),
                            big_arg lib (the p), big_arg lib (the g), big_arg lib e, big_arg lib f] b))
      | By_ECDH \<Rightarrow>
          (if ecdh_client_pubkey k = None \<or> ecdh_server_pubkey k = None then Inl (SSH_OK, b)
           else done (pack_to m ''SS'' [VA_string (ecdh_client_pubkey k), VA_string (ecdh_server_pubkey k)] b))
      | By_Curve25519 \<Rightarrow>
          done (pack_to m ''dPdP'' [VA_int 32, VA_size 32, VA_data (curve25519_client_pubkey k),
                                   VA_int 32, VA_size 32, VA_data (curve25519_server_pubkey k)] b)
      | By_none \<Rightarrow> Inr (SSH_OK, b))"

definition blob_arg :: "ssh_buffer \<Rightarrow> va list" where
  "blob_arg h = [VA_int (ssh_buffer_get_len h), VA_size (ssh_buffer_get_len h), VA_data (ssh_buffer_get h)]"

text \<open>The buffer that is hashed; \<open>Inl\<close> is a jump to the error label with the code at that point.\<close>

definition hash_input :: "'k kex_lib \<Rightarrow> 'k ssh_session \<Rightarrow> ssh_buffer \<Rightarrow> int + ssh_buffer" where
  "hash_input lib s buf =
     (let m = alloc_ok lib; k = next_kx s;
          (rc, b1) = pack_to m ''ss'' [VA_cstring (the (clientbanner (shake s))), VA_cstring (the (serverbanner (shake s)))] buf
      in if rc = SSH_ERROR then Inl rc
         else
           (case Option.bind (server_pubkey k) (export_pubkey_blob lib) of
              None \<Rightarrow> Inl SSH_ERROR
            | Some blob \<Rightarrow>
                let own = the (out_hashbuf (shake s)); peer = the (in_hashbuf (shake s));
                    client_hash = (if client s then own else peer); server_hash = (if client s then peer else own);
                    (rc1, b2) = pack_to m ''dPdPS'' (blob_arg client_hash @ blob_arg server_hash @ [VA_string (Some blob)]) b1
                in if rc1 \<noteq> SSH_OK then Inl rc1
                   else
                     (case pack_exchange lib k b2 of
                        Inl (rc2, _) \<Rightarrow> Inl rc2
                      | Inr (_, b3) \<Rightarrow>
                          let (rc3, b4) = pack_to m ''B'' [big_arg lib (the (shared_secret k))] b3
                          in if rc3 \<noteq> SSH_OK then Inl rc3 else Inr b4)))"

definition drop_hashbufs :: "'k ssh_session \<Rightarrow> 'k ssh_session" where
  "drop_hashbufs s = with_shake (\<lambda>h. h\<lparr>in_hashbuf := None, out_hashbuf := None\<rparr>) s"

definition hashed :: "ssh_buffer \<Rightarrow> byte list" where
  "hashed b = take (unat (ssh_buffer_get_len b)) (ssh_buffer_get b)"

text \<open>The hash of the buffer, and the session identifier unless there is one already.\<close>

definition store_hash :: "'k kex_lib \<Rightarrow> ssh_buffer \<Rightarrow> 'k ssh_session \<Rightarrow> 'k ssh_session" where
  "store_hash lib b s =
     (let s1 = (case kex_digest (kex_type (next_kx s)) of
                  None \<Rightarrow> s
                | Some (n, d) \<Rightarrow>
                    with_kx (\<lambda>x. x\<lparr>digest_len := n, digest_type := d, secret_hash := Some (hash_of lib d (hashed b))\<rparr>) s)
      in with_next (\<lambda>c. if session_id c = None then c\<lparr>session_id := secret_hash (kx c)\<rparr> else c) s1)"

definition ssh_make_sessionid :: "'k kex_lib \<Rightarrow> 'k ssh_session \<Rightarrow> int \<times> 'k ssh_session" where
  "ssh_make_sessionid lib s =
     (case ssh_buffer_new (alloc_ok lib) (alloc_ok lib) of
        None \<Rightarrow> (SSH_ERROR, s)
      | Some buf \<Rightarrow>
          (case hash_input lib s buf of
             Inl rc \<Rightarrow> (rc, drop_hashbufs s)
           | Inr b \<Rightarrow>
               if \<not> alloc_ok lib then (SSH_ERROR, drop_hashbufs s) else (SSH_OK, drop_hashbufs (store_hash lib b s))))"

section \<open>Keys\<close>

text \<open>
  \<open>sshkdf_derive_key\<close>: the first block, then each further one over the output so far, the last cut to
  the length asked for. A digest has at least one byte, so the loop ends.
\<close>

function kdf_loop :: "(byte list \<Rightarrow> byte list) \<Rightarrow> byte list \<Rightarrow> byte list \<Rightarrow> nat \<Rightarrow> byte list" where
  "kdf_loop H seed out requested =
     (if requested \<le> length out \<or> H (seed @ out) = [] then out
      else kdf_loop H seed (out @ take (requested - length out) (H (seed @ out))) requested)"
  by pat_completeness auto
termination by (relation "measure (\<lambda>(H, seed, out, requested). requested - length out)")
    (auto simp: min_def simp flip: length_greater_0_conv)

declare kdf_loop.simps [simp del]

definition sshkdf_derive_key :: "'k kex_lib \<Rightarrow> kex_crypto \<Rightarrow> byte list \<Rightarrow> byte list \<Rightarrow> byte \<Rightarrow> nat \<Rightarrow> int \<times> byte list" where
  "sshkdf_derive_key lib k sid key key_type requested_len =
     (let H = (\<lambda>bs. take (digest_len k) (hash_of lib (digest_type k) bs)); seed = key @ the (secret_hash k) in
      if 64 < digest_len k then (-1, [])
      else if \<not> alloc_ok lib then (-1, [])
      else (0, kdf_loop H seed (take requested_len (H (seed @ [key_type] @ sid))) requested_len))"

text \<open>The six keys, from client to server and back: the initial vectors, encryption, and integrity.\<close>

definition derive_keys :: "'k kex_lib \<Rightarrow> 'k ssh_crypto \<Rightarrow> nat \<Rightarrow> nat \<Rightarrow> nat \<Rightarrow> nat \<Rightarrow> byte list list option" where
  "derive_keys lib c enc_cs enc_sc int_cs int_sc =
     (case ssh_make_bignum_string (alloc_ok lib) (bignums lib) (the (shared_secret (kx c))) of
        None \<Rightarrow> None
      | Some kstr \<Rightarrow>
          let key = be_bytes 4 (str_size kstr) @ take (unat (ssh_string_len (Some kstr))) (str_data kstr);
              derive = (\<lambda>t n. sshkdf_derive_key lib (kx c) (the (session_id c)) key t n);
              parts = [derive 65 (digest_len (kx c)), derive 66 (digest_len (kx c)), derive 67 enc_cs, derive 68 enc_sc,
                       derive 69 int_cs, derive 70 int_sc]
          in if \<not> alloc_ok lib \<or> (\<exists>p\<in>set parts. fst p < 0) then None else Some (map snd parts))"

definition ssh_generate_session_keys :: "'k kex_lib \<Rightarrow> 'k ssh_session \<Rightarrow> int \<times> 'k ssh_session" where
  "ssh_generate_session_keys lib s =
     (let c = the (next_crypto s);
          out_key = unat (keysize (the (out_cipher c)) div 8); in_key = unat (keysize (the (in_cipher c)) div 8);
          out_mac = hmac_digest_len (out_hmac c); in_mac = hmac_digest_len (in_hmac c);
          keys = (if client s then derive_keys lib c out_key in_key out_mac in_mac
                  else derive_keys lib c in_key out_key in_mac out_mac)
      in case keys of
           None \<Rightarrow> (-1, s)
         | Some ks \<Rightarrow>
             (0, with_next (\<lambda>c. if client s
                then c\<lparr>encryptIV := ks ! 0, decryptIV := ks ! 1, encryptkey := ks ! 2, decryptkey := ks ! 3,
                       encryptMAC := ks ! 4, decryptMAC := ks ! 5\<rparr>
                else c\<lparr>encryptIV := ks ! 1, decryptIV := ks ! 0, encryptkey := ks ! 3, decryptkey := ks ! 2,
                       encryptMAC := ks ! 5, decryptMAC := ks ! 4\<rparr>) s))"

section \<open>Ciphers, MACs and compression\<close>

abbreviation cipher_rows_of :: "'k kex_lib \<Rightarrow> 'k ssh_cipher list" where
  "cipher_rows_of lib \<equiv> ssh_ciphertab (gcm_built lib) (ciphers lib)"

definition next_method :: "'k ssh_session \<Rightarrow> nat \<Rightarrow> string" where
  "next_method s i = the (kex_methods (next_kx s) ! i)"

definition compression_enable :: "u32 \<Rightarrow> bool \<Rightarrow> 'k ssh_session \<Rightarrow> 'k ssh_session" where
  "compression_enable direction delayed s =
     (if delayed \<and> flags s AND SSH_SESSION_FLAG_AUTHENTICATED = 0 then
        with_kx (\<lambda>x. if direction = SSH_DIRECTION_IN then x\<lparr>delayed_compress_in := True\<rparr> else x\<lparr>delayed_compress_out := True\<rparr>) s
      else with_next (\<lambda>c. if direction = SSH_DIRECTION_IN then c\<lparr>do_compress_in := True\<rparr> else c\<lparr>do_compress_out := True\<rparr>) s)"

text \<open>The two directions of \<open>crypt_set_algorithms2\<close>, and its compression.\<close>

definition set_out_algorithms :: "'k kex_lib \<Rightarrow> 'k ssh_session \<Rightarrow> int \<times> 'k ssh_session" where
  "set_out_algorithms lib s =
     (case find_cipher (cipher_rows_of lib) (next_method s 2) of
        None \<Rightarrow> (SSH_ERROR, s)
      | Some row \<Rightarrow>
          let oc = cipher_new (alloc_ok lib) row; s1 = with_next (\<lambda>c. c\<lparr>out_cipher := oc\<rparr>) s in
          case oc of
            None \<Rightarrow> (SSH_ERROR, s1)
          | Some k \<Rightarrow>
              (case find_hmac (mac_name k (next_method s SSH_MAC_C_S)) of
                 None \<Rightarrow> (SSH_ERROR, s1)
               | Some (t, em) \<Rightarrow> (SSH_OK, with_next (\<lambda>c. c\<lparr>out_hmac := t, out_hmac_etm := em\<rparr>) s1)))"

definition set_in_algorithms :: "'k kex_lib \<Rightarrow> 'k ssh_session \<Rightarrow> int \<times> 'k ssh_session" where
  "set_in_algorithms lib s =
     (case find_cipher (cipher_rows_of lib) (next_method s 3) of
        None \<Rightarrow> (SSH_ERROR, s)
      | Some row \<Rightarrow>
          let ic = cipher_new (alloc_ok lib) row; s1 = with_next (\<lambda>c. c\<lparr>in_cipher := ic\<rparr>) s in
          case ic of
            None \<Rightarrow> (SSH_ERROR, s1)
          | Some k \<Rightarrow>
              (case find_hmac (mac_name k (next_method s SSH_MAC_S_C)) of
                 None \<Rightarrow> (SSH_ERROR, s1)
               | Some (t, em) \<Rightarrow> (SSH_OK, with_next (\<lambda>c. c\<lparr>in_hmac := t, in_hmac_etm := em\<rparr>) s1)))"

definition set_compression :: "nat \<Rightarrow> u32 \<Rightarrow> 'k ssh_session \<Rightarrow> 'k ssh_session" where
  "set_compression i direction s =
     (let meth = next_method s i;
          s1 = (if meth = ''zlib'' then compression_enable direction False s else s)
      in if meth = ''zlib@openssh.com'' then compression_enable direction True s1 else s1)"

definition crypt_set_algorithms2 :: "'k kex_lib \<Rightarrow> 'k ssh_session \<Rightarrow> int \<times> 'k ssh_session" where
  "crypt_set_algorithms2 lib s =
     (let (rc, s1) = set_out_algorithms lib s in
      if rc \<noteq> SSH_OK then (rc, s1)
      else
        let (rc1, s2) = set_in_algorithms lib s1 in
        if rc1 \<noteq> SSH_OK then (rc1, s2)
        else (SSH_OK, set_compression 7 SSH_DIRECTION_IN (set_compression 6 SSH_DIRECTION_OUT s2)))"

definition crypt_set_algorithms_client :: "'k kex_lib \<Rightarrow> 'k ssh_session \<Rightarrow> int \<times> 'k ssh_session" where
  "crypt_set_algorithms_client lib s = crypt_set_algorithms2 lib s"

section \<open>The steps of \<open>ssh_packet_set_newkeys\<close> leave the slots alone\<close>

lemma with_parts [simp]:
  "current_crypto (with_next f s) = current_crypto s" "client (with_next f s) = client s" "server (with_next f s) = server s"
  "current_crypto (with_kx g s) = current_crypto s" "client (with_kx g s) = client s" "server (with_kx g s) = server s"
  "current_crypto (with_shake h s) = current_crypto s" "client (with_shake h s) = client s" "next_crypto (with_shake h s) = next_crypto s"
  "shake (with_next f s) = shake s" "shake (with_kx g s) = shake s" "shake (with_shake h s) = h (shake s)"
  "flags (with_next f s) = flags s" "flags (with_kx g s) = flags s"
  "next_crypto (with_next f s) = map_option f (next_crypto s)"
  "next_crypto (with_kx g s) = map_option (\<lambda>c. c\<lparr>kx := g (kx c)\<rparr>) (next_crypto s)"
  by (simp_all add: with_next_def with_kx_def with_shake_def)

lemma with_next_keeps:
  "(\<And>c. g (f c) = g c) \<Longrightarrow> map_option g (next_crypto (with_next f s)) = map_option g (next_crypto s)"
  by (cases "next_crypto s") (simp_all add: with_next_def)

lemma set_compression_parts [simp]:
  "current_crypto (set_compression i d s) = current_crypto s" "client (set_compression i d s) = client s"
  "map_option used_for (next_crypto (set_compression i d s)) = map_option used_for (next_crypto s)"
  by (cases "next_crypto s"; simp add: set_compression_def compression_enable_def Let_def)+

definition algorithms_of :: "'k ssh_crypto \<Rightarrow> 'k ssh_cipher option \<times> 'k ssh_cipher option \<times> hmac_type \<times> hmac_type \<times> bool \<times> bool" where
  "algorithms_of n = (out_cipher n, in_cipher n, out_hmac n, in_hmac n, out_hmac_etm n, in_hmac_etm n)"

lemma set_compression_algorithms:
  "map_option algorithms_of (next_crypto (set_compression i d s)) = map_option algorithms_of (next_crypto s)"
  by (cases "next_crypto s"; simp add: set_compression_def compression_enable_def Let_def algorithms_of_def)

lemma set_directions_parts [simp]:
  "current_crypto (snd (set_out_algorithms lib s)) = current_crypto s" "client (snd (set_out_algorithms lib s)) = client s"
  "map_option used_for (next_crypto (snd (set_out_algorithms lib s))) = map_option used_for (next_crypto s)"
  "current_crypto (snd (set_in_algorithms lib s)) = current_crypto s" "client (snd (set_in_algorithms lib s)) = client s"
  "map_option used_for (next_crypto (snd (set_in_algorithms lib s))) = map_option used_for (next_crypto s)"
  by (auto simp: set_out_algorithms_def set_in_algorithms_def Let_def option.map_comp comp_def cong: option.map_cong
      split: option.splits)

lemma store_hash_parts [simp]:
  "current_crypto (store_hash lib b s) = current_crypto s" "client (store_hash lib b s) = client s"
  "map_option used_for (next_crypto (store_hash lib b s)) = map_option used_for (next_crypto s)"
  by (auto simp: store_hash_def Let_def with_kx_def with_next_keeps simp del: with_parts(15,16) split: option.splits)

lemma key_steps_leave_slots:
  "leaves_slots (ssh_make_sessionid lib)" "leaves_slots (crypt_set_algorithms_client lib)"
  "leaves_slots (ssh_generate_session_keys lib)"
proof -
  show "leaves_slots (ssh_make_sessionid lib)"
    by (simp add: leaves_slots_def ssh_make_sessionid_def drop_hashbufs_def split: option.splits sum.splits)
  show "leaves_slots (crypt_set_algorithms_client lib)"
    by (auto simp: leaves_slots_def crypt_set_algorithms_client_def crypt_set_algorithms2_def split_def Let_def)
  show "leaves_slots (ssh_generate_session_keys lib)"
    by (auto simp: leaves_slots_def ssh_generate_session_keys_def Let_def option.map_comp comp_def
        cong: option.map_cong split: option.splits)
qed

section \<open>Theorems\<close>

lemma next_kx_Some: "next_crypto s = Some c \<Longrightarrow> next_kx s = kx c"
  by (simp add: next_kx_def)

lemma negotiated_mac:
  assumes "find_cipher (ssh_ciphertab gcm fs) x = Some c" and "x \<in> set (tokens_of (CHR '','') (supported_methods gcm ! 2))"
    and "y \<in> set (tokens_of (CHR '','') (supported_methods gcm ! 4))"
  shows "\<exists>t e. find_hmac (mac_name c y) = Some (t, e) \<and>
    ssh_hmac_type_to_string t e = Some (if aead_encrypt c = None then y else ''aead-gcm'')"
proof -
  have "(aead_encrypt c \<noteq> None \<longrightarrow> mac_name c y = ''aead-gcm'') \<and> (aead_encrypt c = None \<longrightarrow> mac_name c y = y)"
    using supported_cipher_found [OF assms(2), of fs y] assms(1) by auto
  moreover have "find_hmac ''aead-gcm'' = Some (SSH_HMAC_AEAD_GCM, False)"
    "ssh_hmac_type_to_string SSH_HMAC_AEAD_GCM False = Some ''aead-gcm''"
    by (simp_all add: find_hmac_def ssh_hmac_tab_def ssh_hmac_type_to_string_def)
  ultimately show ?thesis using supported_mac_found [OF assms(3)] by auto
qed


definition demo_agreed :: "unit ssh_session" where
  "demo_agreed = with_kx (\<lambda>x. x\<lparr>kex_methods := map Some demo_names\<rparr>) (demo_client None)"

lemma demo_agreed_methods:
  "next_method demo_agreed i = the (map Some demo_names ! i)" "next_crypto demo_agreed \<noteq> None"
  by (simp_all add: demo_agreed_def next_method_def)


section \<open>Key derivation\<close>

lemma kdf_loop_length:
  assumes "\<And>bs. length (H bs) = n" and "0 < n"
  shows "length out \<le> requested \<Longrightarrow> length (kdf_loop H seed out requested) = requested"
proof (induction "requested - length out" arbitrary: out rule: less_induct)
  case less
  have ne: "H bs \<noteq> []" for bs using assms by (metis length_0_conv less_not_refl)
  show ?case
  proof (cases "requested \<le> length out")
    case True
    with less.prems show ?thesis by (simp add: kdf_loop.simps [of H seed out])
  next
    case False
    let ?out = "out @ take (requested - length out) (H (seed @ out))"
    have "requested - length ?out < requested - length out" "length ?out \<le> requested"
      using False assms by auto
    from less.hyps [OF this] False ne show ?thesis by (simp add: kdf_loop.simps [of H seed out])
  qed
qed

text \<open>
  C16: Every derived key has exactly the length its cipher or MAC asked for, however many digests
  that takes, and it begins with the digest of the secret, the exchange hash, the key's letter and
  the session identifier; a shorter request is a prefix of it.
\<close>

theorem derived_key_length:
  assumes "alloc_ok lib" and "0 < digest_len k" and "digest_len k \<le> 64"
    and "\<And>bs. length (hash_of lib (digest_type k) bs) = digest_len k"
  shows "\<exists>out. sshkdf_derive_key lib k sid key t n = (0, out) \<and> length out = n \<and>
    take (min n (digest_len k)) out = take n (hash_of lib (digest_type k) (key @ the (secret_hash k) @ [t] @ sid))"
proof -
  let ?H = "\<lambda>bs. take (digest_len k) (hash_of lib (digest_type k) bs)"
  let ?first = "take n (?H ((key @ the (secret_hash k)) @ [t] @ sid))"
  have prefix: "\<exists>r. kdf_loop H seed out m = out @ r" for H seed out m
  proof (induction H seed out m rule: kdf_loop.induct)
    case (1 H seed out m)
    then show ?case by (subst kdf_loop.simps) (auto)
  qed
  have len: "length (?H bs) = digest_len k" for bs using assms(4) by simp
  have "length (kdf_loop ?H (key @ the (secret_hash k)) ?first n) = n"
    by (rule kdf_loop_length [OF len assms(2)]) simp
  moreover obtain r where "kdf_loop ?H (key @ the (secret_hash k)) ?first n = ?first @ r" using prefix by blast
  moreover have "?first = take n (hash_of lib (digest_type k) (key @ the (secret_hash k) @ [t] @ sid))"
    using assms(4) by simp
  ultimately show ?thesis using assms(1,3,4) by (auto simp: sshkdf_derive_key_def Let_def min_def)
qed

theorem derived_key_length_witness:
  "length (snd (sshkdf_derive_key (demo_lib\<lparr>hash_of := \<lambda>d bs. take 4 (bs @ replicate 4 0)\<rparr>)
     ((next_kx demo_agreed)\<lparr>digest_len := 4, secret_hash := Some [5, 6]\<rparr>) [1, 2] [9] 65 11)) = 11"
proof -
  let ?lib = "demo_lib\<lparr>hash_of := \<lambda>d bs. take 4 (bs @ replicate 4 0)\<rparr>"
  let ?k = "(next_kx demo_agreed)\<lparr>digest_len := 4, secret_hash := Some [5, 6]\<rparr>"
  have "alloc_ok ?lib" using demo_lib_alloc by simp
  moreover have "length (hash_of ?lib (digest_type ?k) bs) = digest_len ?k" for bs by simp
  ultimately show ?thesis using derived_key_length [of ?lib ?k "[1, 2]" "[9]" 65 11] by auto
qed

section \<open>The two sides\<close>

text \<open>
  A client and a server that have seen the same messages: the same banners, each other's lists, the
  same public values and the same secret, and ciphers chosen for opposite directions.
\<close>

definition same_exchange :: "'k kex_lib \<Rightarrow> kex_crypto \<Rightarrow> kex_crypto \<Rightarrow> bool" where
  "same_exchange lib k l =
     (kex_type k = kex_type l \<and> shared_secret k = shared_secret l \<and> server_pubkey k = server_pubkey l \<and>
      both_dh_keys lib k = both_dh_keys lib l \<and> ssh_dh_get_parameters (dh_ctx k) = ssh_dh_get_parameters (dh_ctx l) \<and>
      dh_pmin k = dh_pmin l \<and> dh_pn k = dh_pn l \<and> dh_pmax k = dh_pmax l \<and>
      ecdh_client_pubkey k = ecdh_client_pubkey l \<and> ecdh_server_pubkey k = ecdh_server_pubkey l \<and>
      curve25519_client_pubkey k = curve25519_client_pubkey l \<and> curve25519_server_pubkey k = curve25519_server_pubkey l \<and>
      secret_hash k = secret_hash l \<and> digest_len k = digest_len l \<and> digest_type k = digest_type l)"

definition opposite :: "'k ssh_crypto \<Rightarrow> 'k ssh_crypto \<Rightarrow> bool" where
  "opposite c d =
     (session_id c = session_id d \<and>
      keysize (the (out_cipher c)) = keysize (the (in_cipher d)) \<and> keysize (the (in_cipher c)) = keysize (the (out_cipher d)) \<and>
      hmac_digest_len (out_hmac c) = hmac_digest_len (in_hmac d) \<and> hmac_digest_len (in_hmac c) = hmac_digest_len (out_hmac d))"

definition same_transcript :: "'k ssh_session \<Rightarrow> 'k ssh_session \<Rightarrow> bool" where
  "same_transcript s t =
     (client s \<and> \<not> client t \<and> clientbanner (shake s) = clientbanner (shake t) \<and> serverbanner (shake s) = serverbanner (shake t) \<and>
      out_hashbuf (shake s) = in_hashbuf (shake t) \<and> in_hashbuf (shake s) = out_hashbuf (shake t))"

lemma same_hash_input:
  assumes "same_transcript s t" and "same_exchange lib (next_kx s) (next_kx t)"
  shows "hash_input lib s b = hash_input lib t b"
proof -
  have "pack_exchange lib (next_kx s) b2 = pack_exchange lib (next_kx t) b2" for b2
    using assms(2) by (simp add: pack_exchange_def same_exchange_def Let_def split_def
        cong: if_cong option.case_cong kex_kind.case_cong)
  then show ?thesis using assms by (simp add: hash_input_def same_transcript_def same_exchange_def Let_def split_def
        cong: if_cong option.case_cong sum.case_cong)
qed

definition hash_crypto :: "'k kex_lib \<Rightarrow> ssh_buffer \<Rightarrow> 'k ssh_crypto \<Rightarrow> 'k ssh_crypto" where
  "hash_crypto lib b c =
     (let c1 = (case kex_digest (kex_type (kx c)) of
                  None \<Rightarrow> c
                | Some (n, d) \<Rightarrow> c\<lparr>kx := (kx c)\<lparr>digest_len := n, digest_type := d, secret_hash := Some (hash_of lib d (hashed b))\<rparr>\<rparr>)
      in if session_id c1 = None then c1\<lparr>session_id := secret_hash (kx c1)\<rparr> else c1)"

lemma store_hash_next: "next_crypto s = Some c \<Longrightarrow> next_crypto (store_hash lib b s) = Some (hash_crypto lib b c)"
  by (cases "kex_digest (kex_type (kx c))"; cases "session_id c"; auto simp: store_hash_def hash_crypto_def next_kx_def Let_def)

lemma hash_crypto_same:
  assumes "same_exchange lib (kx c) (kx d)" and "opposite c d"
  shows "same_exchange lib (kx (hash_crypto lib b c)) (kx (hash_crypto lib b d))" "opposite (hash_crypto lib b c) (hash_crypto lib b d)"
  using assms
  by (auto simp: same_exchange_def opposite_def hash_crypto_def Let_def both_dh_keys_def split: option.splits if_splits)

text \<open>The keys of a crypto state cross over from one side to the other.\<close>

definition crossed :: "'k ssh_crypto \<Rightarrow> 'k ssh_crypto \<Rightarrow> bool" where
  "crossed c d =
     (encryptkey c = decryptkey d \<and> decryptkey c = encryptkey d \<and> encryptIV c = decryptIV d \<and> decryptIV c = encryptIV d \<and>
      encryptMAC c = decryptMAC d \<and> decryptMAC c = encryptMAC d)"

lemma same_derived:
  assumes "same_exchange lib (kx c) (kx d)" and "session_id c = session_id d"
  shows "derive_keys lib c = derive_keys lib d"
proof -
  have "sshkdf_derive_key lib (kx c) = sshkdf_derive_key lib (kx d)"
    using assms(1) by (intro ext) (simp add: sshkdf_derive_key_def same_exchange_def)
  then show ?thesis using assms by (intro ext) (simp add: derive_keys_def same_exchange_def Let_def cong: option.case_cong)
qed

lemma same_session_keys:
  assumes "next_crypto s = Some c" "next_crypto t = Some d" "client s" "\<not> client t"
    and "same_exchange lib (kx c) (kx d)" and "opposite c d"
    and "ssh_generate_session_keys lib s = (q, s2)" "ssh_generate_session_keys lib t = (q', t2)"
  shows "q = q' \<and> (q = 0 \<longrightarrow> crossed (the (next_crypto s2)) (the (next_crypto t2)))"
  using assms same_derived [OF assms(5)]
  by (auto simp: ssh_generate_session_keys_def opposite_def crossed_def Let_def split: option.splits)

text \<open>
  C4: The two sides end up with the same exchange hash and session identifier and with keys that
  fit each other: after the same messages \<open>ssh_make_sessionid\<close> has the same result on both sides,
  and so has \<open>ssh_generate_session_keys\<close>; when both succeed, what one side encrypts and signs with
  is what the other decrypts and checks with, in both directions.
\<close>

theorem both_sides_same_keys:
  assumes "next_crypto s = Some c" and "next_crypto t = Some d" and "same_transcript s t"
    and "same_exchange lib (kx c) (kx d)" and "opposite c d"
    and "ssh_make_sessionid lib s = (r, s1)" and "ssh_make_sessionid lib t = (r', t1)"
    and "ssh_generate_session_keys lib s1 = (q, s2)" and "ssh_generate_session_keys lib t1 = (q', t2)"
  shows "r = r' \<and> (r = SSH_OK \<longrightarrow> q = q' \<and> (q = 0 \<longrightarrow> (\<exists>m n. next_crypto s2 = Some m \<and> next_crypto t2 = Some n \<and>
    secret_hash (kx m) = secret_hash (kx n) \<and> session_id m = session_id n \<and> crossed m n)))"
proof -
  have same: "hash_input lib s b = hash_input lib t b" for b
    using same_hash_input assms(1-4) by (metis next_kx_Some)
  have r: "r = r'" using assms(6,7) same
    by (auto simp: ssh_make_sessionid_def split: option.splits sum.splits if_splits)
  have cl: "client s1" "\<not> client t1"
    using key_steps_leave_slots(1) [of lib] assms(3,6,7)
    by (metis leaves_slots_def same_transcript_def snd_conv)+
  have nx: "\<exists>c1 d1. next_crypto s1 = Some c1 \<and> next_crypto t1 = Some d1 \<and> same_exchange lib (kx c1) (kx d1) \<and> opposite c1 d1"
    using assms(1,2,4-7) same hash_crypto_same [OF assms(4,5)]
    by (auto simp: ssh_make_sessionid_def drop_hashbufs_def store_hash_next split: option.splits sum.splits if_splits)
  then obtain c1 d1 where c1: "next_crypto s1 = Some c1" "next_crypto t1 = Some d1" "same_exchange lib (kx c1) (kx d1)" "opposite c1 d1"
    by blast
  have keep: "next_crypto v = Some e \<Longrightarrow> ssh_generate_session_keys lib v = (x, w) \<Longrightarrow>
      \<exists>m. next_crypto w = Some m \<and> kx m = kx e \<and> session_id m = session_id e" for v w e x
    by (auto simp: ssh_generate_session_keys_def Let_def split: option.splits if_splits)
  obtain m n where m: "next_crypto s2 = Some m" "kx m = kx c1" "session_id m = session_id c1"
    and n: "next_crypto t2 = Some n" "kx n = kx d1" "session_id n = session_id d1"
    using keep [OF c1(1) assms(8)] keep [OF c1(2) assms(9)] by blast
  have "q = q' \<and> (q = 0 \<longrightarrow> crossed m n)"
    using same_session_keys [OF c1(1,2) cl c1(3,4) assms(8,9)] m(1) n(1) by simp
  then show ?thesis using r m n c1(3,4) by (auto simp: same_exchange_def opposite_def)
qed


definition demo_side :: "bool \<Rightarrow> unit ssh_session" where
  "demo_side c =
     (with_shake (\<lambda>h. h\<lparr>clientbanner := Some [83, 83], serverbanner := Some [83, 72], in_hashbuf := Some empty_buffer,
                       out_hashbuf := Some empty_buffer\<rparr>)
       (with_kx (\<lambda>x. x\<lparr>kex_type := SSH_KEX_CURVE25519_SHA256, shared_secret := Some 5, server_pubkey := Some [75]\<rparr>)
         (demo_session None (Some (demo_crypto 0)))))\<lparr>client := c, server := \<not> c\<rparr>"

theorem both_sides_same_keys_witness:
  "fst (ssh_make_sessionid demo_lib (demo_side True)) = fst (ssh_make_sessionid demo_lib (demo_side False))"
proof -
  let ?c = "the (next_crypto (demo_side True))" and ?d = "the (next_crypto (demo_side False))"
  obtain r s1 r' t1 where m: "ssh_make_sessionid demo_lib (demo_side True) = (r, s1)"
    "ssh_make_sessionid demo_lib (demo_side False) = (r', t1)" by (metis surj_pair)
  obtain q s2 q' t2 where g: "ssh_generate_session_keys demo_lib s1 = (q, s2)" "ssh_generate_session_keys demo_lib t1 = (q', t2)"
    by (metis surj_pair)
  have h: "next_crypto (demo_side True) = Some ?c" "next_crypto (demo_side False) = Some ?d" "?c = ?d"
    by (simp_all add: demo_side_def demo_session_def with_kx_def with_next_def with_shake_def)
  have tr: "same_transcript (demo_side True) (demo_side False)"
    by (simp add: same_transcript_def demo_side_def with_shake_def)
  have same: "same_exchange demo_lib (kx ?c) (kx ?d)" "opposite ?c ?d"
    by (simp_all add: same_exchange_def opposite_def demo_side_def demo_session_def with_kx_def with_next_def with_shake_def demo_crypto_def)
  from both_sides_same_keys [OF h(1,2) tr same m g] m show ?thesis by auto
qed

section \<open>The session identifier\<close>

definition keeps_id :: "('k ssh_session \<Rightarrow> int \<times> 'k ssh_session) \<Rightarrow> bool" where
  "keeps_id f =
     (\<forall>s x. map_option session_id (next_crypto s) = Some (Some x) \<longrightarrow>
            map_option session_id (next_crypto (snd (f s))) = Some (Some x))"

lemma keeps_idD: "keeps_id f \<Longrightarrow> next_crypto s = Some n \<Longrightarrow> session_id n = Some x \<Longrightarrow> f s = (r, t) \<Longrightarrow>
    \<exists>m. next_crypto t = Some m \<and> session_id m = Some x"
  by (force simp: keeps_id_def)

lemma compression_keeps_id: "map_option session_id (next_crypto (set_compression i d s)) = map_option session_id (next_crypto s)"
  by (cases "next_crypto s"; simp add: set_compression_def compression_enable_def Let_def)

lemma directions_keep_id:
  "map_option session_id (next_crypto (snd (set_out_algorithms lib s))) = map_option session_id (next_crypto s)"
  "map_option session_id (next_crypto (snd (set_in_algorithms lib s))) = map_option session_id (next_crypto s)"
  by (auto simp: set_out_algorithms_def set_in_algorithms_def Let_def option.map_comp comp_def cong: option.map_cong
      split: option.splits)

lemma key_steps_keep_id:
  "keeps_id (ssh_make_sessionid lib)" "keeps_id (crypt_set_algorithms_client lib)" "keeps_id (ssh_generate_session_keys lib)"
  "keeps_id (install_keys env)"
proof -
  have "session_id c = Some x \<Longrightarrow> session_id (hash_crypto lib b c) = Some x" for b x and c :: "'a ssh_crypto"
    by (auto simp: hash_crypto_def Let_def split: option.splits)
  then show "keeps_id (ssh_make_sessionid lib)"
    by (auto simp: keeps_id_def ssh_make_sessionid_def drop_hashbufs_def store_hash_next split: option.splits sum.splits)
  show "keeps_id (crypt_set_algorithms_client lib)"
    by (simp add: keeps_id_def crypt_set_algorithms_client_def crypt_set_algorithms2_def directions_keep_id
        compression_keeps_id split_def Let_def del: map_option_eq_Some)
  show "keeps_id (ssh_generate_session_keys lib)"
    by (auto simp: keeps_id_def ssh_generate_session_keys_def Let_def split: option.splits)
  show "keeps_id (install_keys env)"
    by (auto simp: keeps_id_def install_keys_def Let_def split: option.splits prod.splits if_splits)
qed

definition key_steps :: "'k kex_lib \<Rightarrow> 'k key_env \<Rightarrow> 'k key_env" where
  "key_steps lib env =
     env\<lparr>make_sessionid := ssh_make_sessionid lib, set_algorithms_client := crypt_set_algorithms_client lib,
         generate_session_keys := ssh_generate_session_keys lib\<rparr>"

text \<open>
  C14: The session identifier is that of the first key exchange and never changes: once it is set, a
  successful \<open>ssh_packet_set_newkeys\<close>, in either direction and on either side, leaves it in the keys
  that are negotiated next, and when both directions have switched the current keys have it too.
\<close>

theorem session_id_never_changes:
  assumes "ssh_packet_set_newkeys (key_steps lib env) s d = (SSH_OK, t)"
    and "next_crypto s = Some n" and "session_id n = Some x"
  shows "\<exists>m. next_crypto t = Some m \<and> session_id m = Some x \<and>
    (used_for n OR d = 3 \<longrightarrow> (\<exists>c. current_crypto t = Some c \<and> session_id c = Some x))"
proof (cases "used_for n OR d = 3")
  case True
  with assms show ?thesis
    by (auto simp: ssh_packet_set_newkeys_def swap_keys_def Let_def crypto_new_def split: if_splits)
next
  case False
  let ?n = "n\<lparr>used_for := used_for n OR d\<rparr>"
  let ?s1 = "s\<lparr>next_crypto := Some ?n, current_crypto := map_option (\<lambda>c. c\<lparr>used_for := used_for c AND NOT d\<rparr>) (current_crypto s)\<rparr>"
  let ?r2 = "if client ?s1 then ssh_make_sessionid lib ?s1 else (SSH_OK, ?s1)"
  let ?r3 = "if client (snd ?r2) then crypt_set_algorithms_client lib (snd ?r2) else (SSH_OK, snd ?r2)"
  let ?r4 = "ssh_generate_session_keys lib (snd ?r3)"
  let ?id = "\<lambda>u. map_option session_id (next_crypto u) = Some (Some x)"
  have "?id ?s1" using assms(3) by simp
  then have "?id (snd ?r2)" using key_steps_keep_id(1) [of lib] by (simp add: keeps_id_def)
  then have "?id (snd ?r3)" using key_steps_keep_id(2) [of lib] by (simp add: keeps_id_def)
  then have "?id (snd ?r4)" using key_steps_keep_id(3) [of lib] by (simp add: keeps_id_def)
  then have "?id (snd (install_keys (key_steps lib env) (snd ?r4)))"
    by (rule key_steps_keep_id(4) [unfolded keeps_id_def, rule_format])
  moreover have "install_keys (key_steps lib env) (snd ?r4) = (SSH_OK, t)"
    using assms(1,2) False
    by (auto simp: ssh_packet_set_newkeys_def key_steps_def Let_def split: prod.splits if_splits)
  ultimately have "?id t" by (simp only: snd_conv)
  with False show ?thesis by auto
qed

theorem session_id_never_changes_witness:
  "\<exists>m. next_crypto (snd (ssh_packet_set_newkeys (key_steps demo_lib demo_key_env)
      (demo_session (Some (demo_crypto 1)) (Some (demo_crypto 2))) 1)) = Some m \<and> session_id m = Some [1, 2]"
proof -
  let ?s = "demo_session (Some (demo_crypto 1)) (Some (demo_crypto 2))"
  obtain t where t: "ssh_packet_set_newkeys (key_steps demo_lib demo_key_env) ?s 1 = (SSH_OK, t)"
    by (simp add: ssh_packet_set_newkeys_def demo_session_def demo_crypto_def swap_keys_def crypto_new_def key_steps_def demo_key_env_def)
  show ?thesis
    using session_id_never_changes [OF t, of "demo_crypto 2" "[1, 2]"] t by (auto simp: demo_session_def demo_crypto_def)
qed

end
