(* ===== verification/Kex_Reply.thy ===== *)
theory Kex_Reply
  imports Kex_Session
begin

unbundle bit_operations_syntax

text \<open>
  The client's handlers of the messages that answer its key exchange (\<open>dh.c\<close>, \<open>dh-gex.c\<close>, \<open>ecdh.c\<close>,
  \<open>curve25519.c\<close>), and the group exchange, whose group the server chooses.
\<close>

section \<open>Environment\<close>

text \<open>
  Beside the key exchange's: the memory behind the server's banner, whether bytes are a point of the
  curve, and the handlers of packets that are not part of the connection's set-up.
\<close>

record 'k client_lib = "'k kex_lib" +
  after_banner :: "byte list"
  ecp_point :: "kex_type \<Rightarrow> byte list \<Rightarrow> bool"
  other_handler :: "byte \<Rightarrow> ('k ssh_session \<Rightarrow> byte \<Rightarrow> int \<times> 'k ssh_session) option"

abbreviation kexlib :: "'k client_lib \<Rightarrow> 'k kex_lib" where "kexlib lib \<equiv> kex_lib.truncate lib"

definition fail_session :: "'k ssh_session \<Rightarrow> 'k ssh_session" where
  "fail_session s = s\<lparr>session_state := SSH_SESSION_STATE_ERROR\<rparr>"

text \<open>The error label of a handler.\<close>

definition reply_failed :: "'k ssh_session \<Rightarrow> int \<times> 'k ssh_session" where
  "reply_failed s = (1, fail_session s)"

definition dh_failed :: "'k ssh_session \<Rightarrow> int \<times> 'k ssh_session" where
  "dh_failed s = reply_failed (with_kx ssh_dh_cleanup s)"

section \<open>Replies of the key exchange\<close>

text \<open>The next string of the packet, or the error label.\<close>

definition with_string :: "'k client_lib \<Rightarrow> 'k ssh_session \<Rightarrow> (ssh_string \<Rightarrow> 'k ssh_session \<Rightarrow> int \<times> 'k ssh_session) \<Rightarrow> int \<times> 'k ssh_session" where
  "with_string lib s f =
     (let (x, b) = ssh_buffer_get_ssh_string (alloc_ok (kexlib lib)) (the (in_buffer s)); s1 = s\<lparr>in_buffer := Some b\<rparr>
      in case x of None \<Rightarrow> reply_failed s1 | Some str \<Rightarrow> f str s1)"

definition ssh_dh_import_next_pubkey_blob :: "'k client_lib \<Rightarrow> ssh_string \<Rightarrow> 'k ssh_session \<Rightarrow> int \<times> 'k ssh_session" where
  "ssh_dh_import_next_pubkey_blob lib blob s =
     (case import_pubkey_blob lib blob of
        None \<Rightarrow> (SSH_ERROR, s)
      | Some k \<Rightarrow> (SSH_OK, with_kx (\<lambda>x. x\<lparr>server_pubkey := Some k\<rparr>) s))"

text \<open>NEWKEYS is sent; the end of all three handlers.\<close>

definition finish_reply :: "'k client_lib \<Rightarrow> 'k ssh_session \<Rightarrow> int \<times> 'k ssh_session" where
  "finish_reply lib s =
     (let (rc, s1) = ssh_packet_send_newkeys (penv lib) s in
      if rc = SSH_ERROR then reply_failed s1 else (1, s1\<lparr>dh_handshake_state := DH_STATE_NEWKEYS_SENT\<rparr>))"

definition ssh_curve25519_build_k :: "'k client_lib \<Rightarrow> 'k ssh_session \<Rightarrow> int \<times> 'k ssh_session" where
  "ssh_curve25519_build_k lib s =
     (let x = next_kx s;
          k = scalarmult lib (curve25519_privkey x) (if server s then curve25519_client_pubkey x else curve25519_server_pubkey x);
          sec = (if bn_alloc (bignums lib) then Some (bn_read (bignums lib) k) else None);
          s1 = with_kx (\<lambda>x. x\<lparr>shared_secret := sec\<rparr>) s
      in if sec = None then (SSH_ERROR, s1) else (0, s1))"

definition ssh_packet_client_curve25519_reply :: "'k client_lib \<Rightarrow> 'k ssh_session \<Rightarrow> byte \<Rightarrow> int \<times> 'k ssh_session" where
  "ssh_packet_client_curve25519_reply lib s t =
     with_string lib (ssh_client_curve25519_remove_callbacks s) (\<lambda>blob s1.
       let (rc, s2) = ssh_dh_import_next_pubkey_blob lib blob s1 in
       if rc \<noteq> 0 then reply_failed s2
       else with_string lib s2 (\<lambda>q_s s3.
         if ssh_string_len (Some q_s) \<noteq> 32 then reply_failed s3
         else with_string lib (with_kx (\<lambda>x. x\<lparr>curve25519_server_pubkey := take 32 (str_data q_s)\<rparr>) s3) (\<lambda>sg s4.
           let (rc1, s5) = ssh_curve25519_build_k lib (with_kx (\<lambda>x. x\<lparr>dh_server_signature := Some sg\<rparr>) s4) in
           if rc1 < 0 then reply_failed s5 else finish_reply lib s5)))"

text \<open>A private key that is used is freed, whatever comes of it.\<close>

definition ecdh_build_k :: "'k client_lib \<Rightarrow> 'k ssh_session \<Rightarrow> int \<times> 'k ssh_session" where
  "ecdh_build_k lib s =
     (let x = next_kx s; t = kex_type x; point = the (if server s then ecdh_client_pubkey x else ecdh_server_pubkey x);
          bytes = take (unat (ssh_string_len (Some point))) (str_data point);
          finish = (\<lambda>sec. with_kx (\<lambda>x. (sec x)\<lparr>ecdh_privkey := None\<rparr>) s)
      in if kex_family t \<noteq> By_ECDH then (SSH_ERROR, s)
         else if \<not> ecp_point lib t bytes then (SSH_ERROR, finish id)
         else if \<not> alloc_ok (kexlib lib) then (SSH_ERROR, finish (\<lambda>x. x\<lparr>shared_secret := None\<rparr>))
         else
           (case ecp_shared lib t (the (ecdh_privkey x)) bytes of
              None \<Rightarrow> (SSH_ERROR, finish (\<lambda>x. x\<lparr>shared_secret := Some 0\<rparr>))
            | Some k \<Rightarrow> (0, finish (\<lambda>x. x\<lparr>shared_secret := Some k\<rparr>))))"

definition ssh_packet_client_ecdh_reply :: "'k client_lib \<Rightarrow> 'k ssh_session \<Rightarrow> byte \<Rightarrow> int \<times> 'k ssh_session" where
  "ssh_packet_client_ecdh_reply lib s t =
     with_string lib (ssh_client_ecdh_remove_callbacks s) (\<lambda>blob s1.
       let (rc, s2) = ssh_dh_import_next_pubkey_blob lib blob s1 in
       if rc \<noteq> 0 then reply_failed s2
       else with_string lib s2 (\<lambda>q_s s3.
         with_string lib (with_kx (\<lambda>x. x\<lparr>ecdh_server_pubkey := Some q_s\<rparr>) s3) (\<lambda>sg s4.
           let (rc1, s5) = ecdh_build_k lib (with_kx (\<lambda>x. x\<lparr>dh_server_signature := Some sg\<rparr>) s4) in
           if rc1 < 0 then reply_failed s5 else finish_reply lib s5)))"

text \<open>The part of \<open>ssh_packet_client_dh_reply\<close> between the message and NEWKEYS.\<close>

definition dh_reply_secret :: "'k client_lib \<Rightarrow> ssh_string \<Rightarrow> bignum \<Rightarrow> 'k ssh_session \<Rightarrow> int \<times> 'k ssh_session" where
  "dh_reply_secret lib blob f s =
     (let (rc, ctx) = ssh_dh_keypair_set_keys (dh_ctx (next_kx s)) DH_SERVER_KEYPAIR None (Some f);
          s1 = with_kx (\<lambda>x. x\<lparr>dh_ctx := ctx\<rparr>) s
      in if rc \<noteq> SSH_OK then (SSH_ERROR, s1)
         else
           let (rc1, s2) = ssh_dh_import_next_pubkey_blob lib blob s1 in
           if rc1 \<noteq> 0 then (SSH_ERROR, s2)
           else
             (case ssh_dh_compute_shared_secret (bignums lib) (the ctx) DH_CLIENT_KEYPAIR DH_SERVER_KEYPAIR (shared_secret (next_kx s2)) of
                None \<Rightarrow> (SSH_ERROR, s2)
              | Some (rc2, sec) \<Rightarrow> (rc2, with_kx (\<lambda>x. x\<lparr>shared_secret := sec\<rparr>) s2)))"

text \<open>The handlers of the replies of Diffie-Hellman differ only in the table they remove.\<close>

definition dh_reply :: "'k client_lib \<Rightarrow> 'k ssh_session \<Rightarrow> int \<times> 'k ssh_session" where
  "dh_reply lib s0 =
     (let bn = bignums lib in
      case ssh_buffer_unpack (alloc_ok (kexlib lib)) (\<lambda>x. ssh_make_string_bn bn x \<noteq> None) ''SBS'' 3 [UA_ptr, UA_ptr, UA_ptr, UA_end]
             (the (in_buffer s0)) of
        Some (rc, [I_string blob, I_bignum f, I_string sg], b) \<Rightarrow>
          let s1 = with_kx (\<lambda>x. x\<lparr>dh_server_signature := Some sg\<rparr>) (s0\<lparr>in_buffer := Some b\<rparr>);
              (rc1, s2) = dh_reply_secret lib blob (the (ssh_make_string_bn bn f)) s1
          in if rc1 = SSH_ERROR then dh_failed s2
             else
               let (rc2, s3) = ssh_packet_send_newkeys (penv lib) s2 in
               if rc2 = SSH_ERROR then dh_failed s3 else (1, s3\<lparr>dh_handshake_state := DH_STATE_NEWKEYS_SENT\<rparr>)
      | Some (rc, _, b) \<Rightarrow> dh_failed (s0\<lparr>in_buffer := Some b\<rparr>)
      | None \<Rightarrow> dh_failed s0)"

definition ssh_packet_client_dh_reply :: "'k client_lib \<Rightarrow> 'k ssh_session \<Rightarrow> byte \<Rightarrow> int \<times> 'k ssh_session" where
  "ssh_packet_client_dh_reply lib s t = dh_reply lib (ssh_client_dh_remove_callbacks s)"

definition ssh_packet_client_dhgex_reply :: "'k client_lib \<Rightarrow> 'k ssh_session \<Rightarrow> byte \<Rightarrow> int \<times> 'k ssh_session" where
  "ssh_packet_client_dhgex_reply lib s t = dh_reply lib (ssh_client_dhgex_remove_callbacks s)"

section \<open>Group exchange\<close>

definition DH_PMIN :: nat where "DH_PMIN = 2048"
definition DH_PREQ :: nat where "DH_PREQ = 2048"
definition DH_PMAX :: nat where "DH_PMAX = 8192"

definition ssh_client_dhgex_init :: "'k kex_lib \<Rightarrow> 'k ssh_session \<Rightarrow> int \<times> 'k ssh_session" where
  "ssh_client_dhgex_init lib s =
     (let (rc, k) = ssh_dh_init_common (bignums lib) (dh_vars lib) (next_kx s); s1 = with_kx (\<lambda>_. k) s;
          failed = (\<lambda>s. (SSH_ERROR, with_kx ssh_dh_cleanup s))
      in if rc \<noteq> SSH_OK then failed s1
         else
           let s2 = with_kx (\<lambda>x. x\<lparr>dh_pmin := of_nat DH_PMIN, dh_pn := of_nat DH_PREQ, dh_pmax := of_nat DH_PMAX\<rparr>) s1;
               (rc1, s3) = pack_session lib ''bddd'' [VA_int 34, VA_int (of_nat DH_PMIN), VA_int (of_nat DH_PREQ), VA_int (of_nat DH_PMAX)] s2
           in if rc1 \<noteq> SSH_OK then failed s3
              else
                let s4 = ssh_packet_set_callbacks (alloc_ok lib) s3 ssh_dhgex_client_callbacks;
                    (rc2, s5) = ssh_packet_send (penv lib) (s4\<lparr>dh_handshake_state := DH_STATE_REQUEST_SENT\<rparr>)
                in if rc2 = SSH_ERROR then failed s5 else (rc2, s5))"

text \<open>
  The checks of the group. The one that the modulus is above one has no jump after it; it cannot fail,
  as the modulus has 2048 bits.
\<close>

definition gex_group_ok :: "bn_lib \<Rightarrow> bignum \<Rightarrow> bignum \<Rightarrow> bool" where
  "gex_group_ok bn p g =
     (if bn_bits bn p < DH_PMIN \<or> DH_PMAX < bn_bits bn p then False
      else if \<not> odd p then False
      else \<not> (g \<le> 1 \<or> p - 1 < g))"

text \<open>The key of the client in the group; a null pointer, which no group that was set leads to, is an error here.\<close>

definition gex_keys :: "'k client_lib \<Rightarrow> bignum \<Rightarrow> bignum \<Rightarrow> kex_crypto \<Rightarrow> bignum option \<times> kex_crypto" where
  "gex_keys lib p g k =
     (let bn = bignums lib; (rc, ctx) = ssh_dh_set_parameters bn (dh_ctx k) (Some p) (Some g); k1 = k\<lparr>dh_ctx := ctx\<rparr>
      in if rc \<noteq> SSH_OK then (None, k1)
         else
           (case ssh_dh_keypair_gen_keys bn (the ctx) DH_CLIENT_KEYPAIR of
              None \<Rightarrow> (None, k1)
            | Some (rc1, ctx1) \<Rightarrow>
                let k2 = k1\<lparr>dh_ctx := Some ctx1\<rparr> in
                if rc1 = SSH_ERROR then (None, k2)
                else
                  (case ssh_dh_keypair_get_keys bn (Some ctx1) DH_CLIENT_KEYPAIR False True of
                     Some (rc2, _, pub) \<Rightarrow> (if rc2 \<noteq> SSH_OK then None else pub, k2)
                   | None \<Rightarrow> (None, k2))))"

definition ssh_packet_client_dhgex_group :: "'k client_lib \<Rightarrow> 'k ssh_session \<Rightarrow> byte \<Rightarrow> int \<times> 'k ssh_session" where
  "ssh_packet_client_dhgex_group lib s t =
     (let bn = bignums lib in
      if dh_handshake_state s \<noteq> DH_STATE_REQUEST_SENT then dh_failed s
      else if \<not> bn_alloc bn then dh_failed s
      else
        (case ssh_buffer_unpack (alloc_ok (kexlib lib)) (\<lambda>x. ssh_make_string_bn bn x \<noteq> None) ''BB'' 2 [UA_ptr, UA_ptr, UA_end]
                (the (in_buffer s)) of
           Some (rc, [I_bignum ps, I_bignum gs], b) \<Rightarrow>
             let s1 = s\<lparr>in_buffer := Some b\<rparr>; p = the (ssh_make_string_bn bn ps); g = the (ssh_make_string_bn bn gs) in
             if \<not> gex_group_ok bn p g then dh_failed s1
             else
               let (pub, k) = gex_keys lib p g (next_kx s1); s2 = with_kx (\<lambda>_. k) s1 in
               (case pub of
                  None \<Rightarrow> dh_failed s2
                | Some e \<Rightarrow>
                    let (rc1, s3) = pack_session (kexlib lib) ''bB''
                          [VA_int 32, VA_bignum (ssh_make_bignum_string (alloc_ok (kexlib lib)) bn e)] s2
                    in if rc1 \<noteq> SSH_OK then dh_failed s3
                       else
                         let (rc2, s4) = ssh_packet_send (penv lib) (s3\<lparr>dh_handshake_state := DH_STATE_INIT_SENT\<rparr>) in
                         if rc2 = SSH_ERROR then dh_failed s4 else (1, s4))
         | Some (rc, _, b) \<Rightarrow> dh_failed (s\<lparr>in_buffer := Some b\<rparr>)
         | None \<Rightarrow> dh_failed s))"

section \<open>Weak values\<close>

lemma minus_one_power: "2 < p \<Longrightarrow> (p - 1) ^ n mod p \<in> {1, p - 1}" for p :: nat
proof (induction n)
  case (Suc n)
  obtain r where p: "p = r + 2" using Suc.prems by (metis add.commute less_imp_add_positive)
  have "(p - 1) * (p - 1) = 1 + r * p" using p by (simp add: algebra_simps)
  then have sq: "(p - 1) * (p - 1) mod p = 1" using Suc.prems by (simp only: mod_mult_self1) simp
  have "(p - 1) ^ Suc n mod p = (p - 1) * ((p - 1) ^ n mod p) mod p" by (simp add: mod_mult_right_eq)
  with Suc sq show ?case by auto
qed simp

text \<open>
  The group exchange takes a generator of order two. The largest generator that passes is p - 1,
  not, as the comment at the check has it, something smaller; with it the client's public value is 1 or
  p - 1, and so is whatever a peer makes of it, so that the secret can be guessed. Every group that
  passes has an odd modulus of 2048 to 8192 bits, and a generator above 1.
\<close>

theorem weak_generator_accepted:
  assumes "odd p" and "DH_PMIN \<le> bn_bits bn p" and "bn_bits bn p \<le> DH_PMAX" and "2 < p" and "mod_exp_documented bn"
  shows "gex_group_ok bn p (p - 1) \<and> \<not> gex_group_ok bn p p \<and> \<not> gex_group_ok bn p 1 \<and>
    (\<exists>e. bn_mod_exp bn (p - 1) x p = Some e \<and> e \<in> {1, p - 1} \<and>
      (\<exists>k. bn_mod_exp bn e y p = Some k \<and> k \<in> {1, p - 1}))"
proof -
  have me: "bn_mod_exp bn b e p = Some (b ^ e mod p)" for b e using assms(1,5) by (simp add: mod_exp_documented_def)
  have pw: "(p - 1) ^ n mod p \<in> {1, p - 1}" for n using minus_one_power assms(4) by blast
  have one: "(1 :: nat) ^ n mod p \<in> {1, p - 1}" for n using assms(4) by simp
  have "e ^ y mod p \<in> {1, p - 1}" if "e \<in> {1, p - 1}" for e using that pw [of y] one [of y] by auto
  then have "\<exists>e. bn_mod_exp bn (p - 1) x p = Some e \<and> e \<in> {1, p - 1} \<and>
      (\<exists>k. bn_mod_exp bn e y p = Some k \<and> k \<in> {1, p - 1})"
    using pw [of x] unfolding me by blast
  moreover have "gex_group_ok bn p (p - 1)" "\<not> gex_group_ok bn p p" "\<not> gex_group_ok bn p 1"
    using assms by (simp_all add: gex_group_ok_def)
  ultimately show ?thesis by blast
qed

theorem weak_generator_accepted_witness:
  "gex_group_ok (demo_bn 6\<lparr>bn_bits := \<lambda>n. 2048\<rparr>) 23 22"
proof -
  have "mod_exp_documented (demo_bn 6\<lparr>bn_bits := \<lambda>n. 2048\<rparr>)" by (simp add: mod_exp_documented_def demo_bn_def)
  from weak_generator_accepted [OF _ _ _ _ this, of 23 5 7] show ?thesis by (simp add: DH_PMIN_def DH_PMAX_def)
qed

text \<open>
  C11: A shared secret of zero, which a server's public value of low order leads to, makes no keys. No
  number of no bytes has a string, so the exchange hash cannot be made and \<open>ssh_make_sessionid\<close> fails,
  as the derivation of keys does, on either side and with every kind of key exchange; nothing else looks
  for that value. The curve points of an ECDH exchange are there, as its reply has set them.
\<close>

theorem zero_secret_makes_no_keys:
  assumes "next_crypto s = Some c" and "shared_secret (kx c) = Some 0" and "bn_bin (bignums lib) 0 = []"
    and "kex_family (kex_type (kx c)) = By_ECDH \<Longrightarrow> ecdh_client_pubkey (kx c) \<noteq> None \<and> ecdh_server_pubkey (kx c) \<noteq> None"
  shows "fst (ssh_make_sessionid lib s) \<noteq> SSH_OK \<and> derive_keys lib c n1 n2 n3 n4 = None"
proof -
  have none: "ssh_make_bignum_string m (bignums lib) 0 = None" for m using assms(3) by (simp add: ssh_make_bignum_string_def)
  have k: "next_kx s = kx c" using assms(1) by (simp add: next_kx_def)
  have B: "fst (pack_to m ''B'' [VA_bignum None] b) = SSH_ERROR" for m b
    by (auto simp: pack_to_def ssh_buffer_pack_def ssh_buffer_pack_allocate_va_def ssh_buffer_pack_va_def pack_one_def split_def Let_def
        split: option.split)
  have X: "fst r \<noteq> SSH_OK" if "pack_exchange lib (kx c) b = Inl r" for r b
  proof (cases "kex_family (kex_type (kx c))")
    case By_DH
    with that show ?thesis by (auto simp: pack_exchange_def Let_def split_def split: option.splits if_splits)
  next
    case By_DHGEX
    with that show ?thesis by (auto simp: pack_exchange_def Let_def split_def split: option.splits if_splits)
  next
    case By_ECDH
    with that assms(4) show ?thesis by (auto simp: pack_exchange_def Let_def split_def split: if_splits)
  next
    case By_Curve25519
    with that show ?thesis by (auto simp: pack_exchange_def Let_def split_def split: if_splits)
  next
    case By_none
    with that show ?thesis by (simp add: pack_exchange_def)
  qed
  have "\<exists>r. hash_input lib s b = Inl r \<and> r \<noteq> SSH_OK" for b
  proof -
    have E: "\<exists>r. (case pack_exchange lib (kx c) b2 of
                        Inl (rc2, _) \<Rightarrow> Inl rc2
                      | Inr (_, b3) \<Rightarrow>
                          let (rc3, b4) = pack_to (alloc_ok lib) ''B'' [big_arg lib (the (shared_secret (kx c)))] b3
                          in if rc3 \<noteq> SSH_OK then Inl rc3 else Inr b4) = Inl r \<and> r \<noteq> SSH_OK" for b2
      using X [of b2] B none assms(2) by (cases "pack_exchange lib (kx c) b2") (auto simp: big_arg_def split_def Let_def)
    show ?thesis unfolding hash_input_def Let_def split_def k using E [unfolded Let_def split_def] by (simp split: option.split)
  qed
  then have "fst (ssh_make_sessionid lib s) \<noteq> SSH_OK"
  proof (cases "ssh_buffer_new (alloc_ok lib) (alloc_ok lib)")
    case (Some buf)
    obtain r where "hash_input lib s buf = Inl r" "r \<noteq> SSH_OK" using \<open>\<And>b. \<exists>r. hash_input lib s b = Inl r \<and> r \<noteq> SSH_OK\<close> by blast
    with Some show ?thesis by (simp add: ssh_make_sessionid_def)
  qed (simp add: ssh_make_sessionid_def)
  then show ?thesis using assms(2) none by (simp add: derive_keys_def)
qed

theorem zero_secret_makes_no_keys_witness:
  "fst (ssh_make_sessionid demo_lib (with_kx (\<lambda>x. x\<lparr>shared_secret := Some 0\<rparr>) (demo_side True))) \<noteq> SSH_OK"
proof -
  let ?s = "with_kx (\<lambda>x. x\<lparr>shared_secret := Some 0\<rparr>) (demo_side True)"
  obtain c where c: "next_crypto ?s = Some c" "shared_secret (kx c) = Some 0" "kex_type (kx c) = SSH_KEX_CURVE25519_SHA256"
    by (simp add: demo_side_def demo_session_def with_kx_def with_next_def with_shake_def)
  have b: "bn_bin (bignums demo_lib) 0 = []" by (simp add: demo_lib_def demo_bn_def)
  show ?thesis using zero_secret_makes_no_keys [OF c(1,2) b] c(3) by (simp add: kex_family_def)
qed

text \<open>An environment of a client, to evaluate the functions on.\<close>

definition demo_client_lib :: "unit client_lib" where
  "demo_client_lib = kex_lib.extend demo_lib \<lparr>after_banner = [], ecp_point = \<lambda>t q. True, other_handler = \<lambda>t. None\<rparr>"

end
