(* ===== verification/Kex_Client.thy ===== *)
theory Kex_Client
  imports Kex_Reply
begin

unbundle bit_operations_syntax

text \<open>
  The client's side of a connection (\<open>client.c\<close>, \<open>packet_cb.c\<close>, \<open>misc.c\<close>, \<open>session.c\<close>): the callbacks
  of the socket, the banner, NEWKEYS and the other messages of the transport, the tables of handlers,
  and the function that moves the session from one state to the next. Error messages and the status
  callback are left out.
\<close>

section \<open>The socket\<close>

text \<open>A socket of the library's own is closed too; \<open>sock_ok\<close> is what a write to it finds.\<close>

definition ssh_session_socket_close :: "'k ssh_session \<Rightarrow> 'k ssh_session" where
  "ssh_session_socket_close s = fail_session (with_shake (\<lambda>h. h\<lparr>is_alive := False\<rparr>) s)"

definition socket_callback_connected :: "('k ssh_session \<Rightarrow> 'k ssh_session) \<Rightarrow> bool \<Rightarrow> 'k ssh_session \<Rightarrow> 'k ssh_session" where
  "socket_callback_connected ssh_connection_callback ok s =
     (if session_state s \<noteq> SSH_SESSION_STATE_CONNECTING \<and> session_state s \<noteq> SSH_SESSION_STATE_SOCKET_CONNECTED then s
      else ssh_connection_callback
             (if ok then s\<lparr>session_state := SSH_SESSION_STATE_SOCKET_CONNECTED\<rparr> else fail_session s))"

definition ssh_socket_exception_callback :: "('k ssh_session \<Rightarrow> 'k ssh_session) \<Rightarrow> 'k ssh_session \<Rightarrow> 'k ssh_session" where
  "ssh_socket_exception_callback ssh_connection_callback s = ssh_connection_callback (fail_session s)"

section \<open>The banner\<close>

fun strstr :: "byte list \<Rightarrow> byte list \<Rightarrow> byte list option" where
  "strstr n [] = (if n = [] then Some [] else None)"
| "strstr n (x # xs) = (if take (length n) (x # xs) = n then Some (x # xs) else strstr n xs)"

text \<open>\<open>strtoul\<close> to base ten with 32 bits: the number, how many characters it took, and whether it was out of range.\<close>

definition isspace :: "byte \<Rightarrow> bool" where "isspace c = (c = 32 \<or> 9 \<le> c \<and> c \<le> 13)"

definition isdigit :: "byte \<Rightarrow> bool" where "isdigit c = (48 \<le> c \<and> c \<le> 57)"

definition ULONG_MAX :: nat where "ULONG_MAX = 2 ^ 32 - 1"

definition strtoul :: "byte list \<Rightarrow> nat \<times> nat \<times> bool" where
  "strtoul bs =
     (let ws = takeWhile isspace bs; r = dropWhile isspace bs;
          sign = (case r of c # _ \<Rightarrow> if c = 45 \<or> c = 43 then [c] else [] | [] \<Rightarrow> []);
          ds = takeWhile isdigit (drop (length sign) r);
          v = foldl (\<lambda>n d. 10 * n + (unat d - 48)) 0 ds; n = length ws + length sign + length ds
      in if ds = [] then (0, 0, False)
         else if ULONG_MAX < v then (ULONG_MAX, n, True)
         else (if sign = [45] then (2 ^ 32 - v) mod 2 ^ 32 else v, n, False))"

text \<open>
  The version of OpenSSH in a banner. The string that begins there has more than nine characters, but
  the second number may be looked for behind its end, in \<open>beyond\<close>.
\<close>

definition openssh_version :: "byte list \<Rightarrow> byte list \<Rightarrow> int option" where
  "openssh_version beyond banner =
     (case strstr (bytes_of ''OpenSSH'') banner of
        None \<Rightarrow> None
      | Some here \<Rightarrow>
          if length here \<le> 9 then None
          else
            let memory = here @ [0] @ beyond; (major, n, erange) = strtoul (drop 8 memory) in
            if n = 0 \<or> (erange \<and> major = ULONG_MAX) \<or> (erange \<and> major = 0) \<or> major < 1 \<or> 100 < major then None
            else
              let off = (if 10 \<le> major then 11 else 10); (minor, k, erange2) = strtoul (drop off memory) in
              if k = 0 \<or> (erange2 \<and> major = ULONG_MAX) \<or> (erange2 \<and> major = 0) \<or> 100 < minor then None
              else Some (push_bit 16 (int major) OR push_bit 8 (int minor)))"

definition ssh_analyze_banner :: "'k client_lib \<Rightarrow> bool \<Rightarrow> 'k ssh_session \<Rightarrow> int \<times> 'k ssh_session" where
  "ssh_analyze_banner lib srv s =
     (case (if srv then clientbanner (shake s) else serverbanner (shake s)) of
        None \<Rightarrow> (-1, s)
      | Some b \<Rightarrow>
          if length b < 6 \<or> take 4 b \<noteq> bytes_of ''SSH-'' then (-1, s)
          else if b ! 4 = of_char (CHR ''2'') \<or> b ! 4 = of_char (CHR ''1'') \<and> 6 < length b \<and> b ! 6 = of_char (CHR ''9'') then
            (0, case openssh_version (after_banner lib) b of
                  None \<Rightarrow> s
                | Some v \<Rightarrow> with_shake (\<lambda>h. h\<lparr>openssh := v\<rparr>) s)
          else (-1, s))"

text \<open>The scan of \<open>callback_receive_banner\<close>; a carriage return becomes a null byte.\<close>

datatype banner_line = Line nat "byte list" | Too_long | No_line

fun banner_scan :: "nat \<Rightarrow> byte list \<Rightarrow> byte list \<Rightarrow> banner_line" where
  "banner_scan i acc [] = No_line"
| "banner_scan i acc (c # rest) =
     (let c1 = (if c = 13 then 0 else c) in
      if c1 = 10 then Line i acc
      else if 255 < i then Too_long
      else banner_scan (i + 1) (acc @ [c1]) rest)"

definition CLIENT_BANNER_SSH2 :: "byte list" where "CLIENT_BANNER_SSH2 = bytes_of ''SSH-2.0-libssh_0.11.4''"

text \<open>The banner of a server may be its own, \<open>custom\<close>; what is sent is cut to 255 characters.\<close>

definition ssh_send_banner :: "'k client_lib \<Rightarrow> byte list option \<Rightarrow> bool \<Rightarrow> 'k ssh_session \<Rightarrow> int \<times> 'k ssh_session" where
  "ssh_send_banner lib custom srv s =
     (let m = alloc_ok (kexlib lib);
          banner = (if srv then (case custom of None \<Rightarrow> CLIENT_BANNER_SSH2 | Some c \<Rightarrow> bytes_of ''SSH-2.0-'' @ c) else CLIENT_BANNER_SSH2);
          stored = (if m then Some banner else None);
          s1 = with_shake (\<lambda>h. if srv then h\<lparr>serverbanner := stored\<rparr> else h\<lparr>clientbanner := stored\<rparr>) s
      in if \<not> m then (SSH_ERROR, s1)
         else if \<not> sock_ok (penv lib) s1 then (SSH_ERROR, s1)
         else (SSH_OK, s1\<lparr>wire := wire s1 @ [take 255 (banner @ [13, 10])]\<rparr>))"

section \<open>The state of the connection\<close>

text \<open>
  \<open>ssh_client_connection_callback\<close>, the cases that do something. Once the banner is there, the data of
  the socket go to \<open>ssh_packet_socket_callback\<close>. The choice of methods has a result when the client's
  own list is set (\<open>select_methods_defined\<close>); without one the connection ends here.
\<close>

lemma select_methods_defined: "cl ! SSH_KEX \<noteq> None \<Longrightarrow> select_methods m True False sv cl km \<noteq> None"
  by (auto simp: select_methods_def drop_extension_def split_def Let_def)

definition ssh_packet_set_default_callbacks :: "'k client_lib \<Rightarrow> 'k ssh_session \<Rightarrow> 'k ssh_session" where
  "ssh_packet_set_default_callbacks lib s = ssh_packet_set_callbacks (alloc_ok (kexlib lib)) s default_packet_callbacks"

definition offer_kex :: "'k client_lib \<Rightarrow> 'k ssh_session \<Rightarrow> bool \<times> 'k ssh_session" where
  "offer_kex lib s =
     (let (rc, s1) = set_client_kex (kexlib lib) s in
      if rc \<noteq> SSH_OK then (False, s1)
      else let (rc1, s2) = ssh_send_kex (kexlib lib) s1 in (0 \<le> rc1, s2))"

definition on_banner :: "'k client_lib \<Rightarrow> 'k ssh_session \<Rightarrow> 'k ssh_session" where
  "on_banner lib s =
     (if serverbanner (shake s) = None then ssh_session_socket_close s
      else
        let (rc, s1) = ssh_analyze_banner lib False s in
        if rc < 0 then ssh_session_socket_close s1
        else
          let s2 = (ssh_packet_set_default_callbacks lib s1)\<lparr>session_state := SSH_SESSION_STATE_INITIAL_KEX\<rparr>;
              (ok, s3) = offer_kex lib s2
          in if ok then s3 else ssh_session_socket_close s3)"

definition on_dh :: "'k ssh_session \<Rightarrow> 'k ssh_session" where
  "on_dh s =
     (if dh_handshake_state s = DH_STATE_FINISHED then
        (with_shake (\<lambda>h. h\<lparr>connected := True\<rparr>) s)
          \<lparr>session_state := if flags s AND SSH_SESSION_FLAG_AUTHENTICATED \<noteq> 0 then SSH_SESSION_STATE_AUTHENTICATED
                           else SSH_SESSION_STATE_AUTHENTICATING\<rparr>
      else s)"

definition on_kexinit :: "'k client_lib \<Rightarrow> 'k ssh_session \<Rightarrow> 'k ssh_session" where
  "on_kexinit lib s =
     (let (ok, s1) = (if flags s AND SSH_SESSION_FLAG_KEXINIT_SENT = 0 then offer_kex lib s else (True, s)) in
      if \<not> ok then ssh_session_socket_close s1
      else
        (case ssh_kex_select_methods (kexlib lib) s1 of
           None \<Rightarrow> ssh_session_socket_close s1
         | Some (rc, s2) \<Rightarrow>
             if rc = SSH_ERROR then ssh_session_socket_close s2
             else
               let (rc1, s3) = dh_handshake (kexlib lib) (s2\<lparr>session_state := SSH_SESSION_STATE_DH\<rparr>) in
               if rc1 = SSH_ERROR then ssh_session_socket_close s3 else on_dh s3))"

definition ssh_client_connection_callback :: "'k client_lib \<Rightarrow> 'k ssh_session \<Rightarrow> 'k ssh_session" where
  "ssh_client_connection_callback lib s =
     (case session_state s of
        SSH_SESSION_STATE_SOCKET_CONNECTED \<Rightarrow> snd (ssh_send_banner lib None False s)
      | SSH_SESSION_STATE_BANNER_RECEIVED \<Rightarrow> on_banner lib s
      | SSH_SESSION_STATE_KEXINIT_RECEIVED \<Rightarrow> on_kexinit lib s
      | SSH_SESSION_STATE_DH \<Rightarrow> on_dh s
      | SSH_SESSION_STATE_ERROR \<Rightarrow> ssh_session_socket_close s
      | _ \<Rightarrow> s)"

definition callback_receive_banner ::
  "'k client_lib \<Rightarrow> ('k ssh_session \<Rightarrow> 'k ssh_session) \<Rightarrow> byte list \<Rightarrow> 'k ssh_session \<Rightarrow> u32 \<times> 'k ssh_session" where
  "callback_receive_banner lib ssh_connection_callback dat s =
     (if session_state s \<noteq> SSH_SESSION_STATE_SOCKET_CONNECTED then (0, s)
      else
        (case banner_scan 0 [] dat of
           No_line \<Rightarrow> (0, s)
         | Too_long \<Rightarrow> (0, fail_session s)
         | Line i line \<Rightarrow>
             if take 4 line \<noteq> bytes_of ''SSH-'' then (of_nat (i + 1), s)
             else if \<not> alloc_ok (kexlib lib) then (word_of_int SSH_ERROR, s)
             else
               (of_nat (i + 1),
                ssh_connection_callback
                  ((with_shake (\<lambda>h. h\<lparr>serverbanner := Some (takeWhile (\<lambda>c. c \<noteq> 0) line)\<rparr>) s)
                     \<lparr>session_state := SSH_SESSION_STATE_BANNER_RECEIVED\<rparr>))))"

section \<open>Messages of the transport\<close>

text \<open>A new value of the packet that is being handled.\<close>

definition took :: "ssh_buffer \<Rightarrow> 'k ssh_session \<Rightarrow> 'k ssh_session" where
  "took b s = s\<lparr>in_buffer := Some b\<rparr>"

definition ssh_packet_disconnect_callback :: "'k client_lib \<Rightarrow> 'k ssh_session \<Rightarrow> byte \<Rightarrow> int \<times> 'k ssh_session" where
  "ssh_packet_disconnect_callback lib s t =
     (let m = alloc_ok (kexlib lib); ((n, code), b) = ssh_buffer_get_u32 (the (in_buffer s));
          (err, b1) = ssh_buffer_get_ssh_string m b;
          s1 = took b1 s;
          s2 = (case err of
                  None \<Rightarrow> s1
                | Some x \<Rightarrow>
                    (case ssh_string_to_char m (Some x) of
                       None \<Rightarrow> s1
                     | Some cs \<Rightarrow> with_shake (\<lambda>h. h\<lparr>peer_discon_msg := if m then Some (takeWhile (\<lambda>c. c \<noteq> 0) cs) else None\<rparr>) s1))
      in (1, (ssh_session_socket_close s2)\<lparr>auth_state := SSH_AUTH_STATE_FAILED\<rparr>))"

definition ssh_packet_ignore_callback :: "'k ssh_session \<Rightarrow> byte \<Rightarrow> int \<times> 'k ssh_session" where
  "ssh_packet_ignore_callback s t = (1, s)"

definition ssh_packet_debug_callback :: "'k client_lib \<Rightarrow> 'k ssh_session \<Rightarrow> byte \<Rightarrow> int \<times> 'k ssh_session" where
  "ssh_packet_debug_callback lib s t =
     (case ssh_buffer_unpack (alloc_ok (kexlib lib)) (\<lambda>_. True) ''bs'' 2 [UA_ptr, UA_ptr, UA_end] (the (in_buffer s)) of
        None \<Rightarrow> (1, s)
      | Some (rc, items, b) \<Rightarrow> (1, took b s))"

definition unimplemented_handler :: "'k client_lib \<Rightarrow> 'k ssh_session \<Rightarrow> byte \<Rightarrow> int \<times> 'k ssh_session" where
  "unimplemented_handler lib s t =
     (let (rc, b) = ssh_packet_unimplemented (penv lib) s (the (in_buffer s)) in (rc, took b s))"

text \<open>The check of the server's signature over the exchange hash: the client's part of NEWKEYS.\<close>

definition host_key_verified :: "'k client_lib \<Rightarrow> 'k ssh_session \<Rightarrow> bool" where
  "host_key_verified lib s =
     (let x = next_kx s in
      case server_pubkey x of
        None \<Rightarrow> False
      | Some key \<Rightarrow>
          (case import_signature_blob lib (dh_server_signature x) key of
             None \<Rightarrow> False
           | Some sg \<Rightarrow>
               (case wanted_methods (shake s) ! SSH_HOSTKEYS of
                  None \<Rightarrow> True
                | Some w \<Rightarrow> match_group (Some w) (Some (fst sg)) \<noteq> 0) \<and>
               signature_verify lib s sg key (take (digest_len x) (the (secret_hash x))) \<noteq> SSH_ERROR))"

definition ssh_packet_newkeys ::
  "'k client_lib \<Rightarrow> ('k ssh_session \<Rightarrow> 'k ssh_session) \<Rightarrow> 'k ssh_session \<Rightarrow> byte \<Rightarrow> int \<times> 'k ssh_session" where
  "ssh_packet_newkeys lib ssh_connection_callback s t =
     (if session_state s \<noteq> SSH_SESSION_STATE_DH \<or> dh_handshake_state s \<noteq> DH_STATE_NEWKEYS_SENT then reply_failed s
      else
        let s1 = (if flags s AND SSH_SESSION_FLAG_KEX_STRICT \<noteq> 0 then s\<lparr>recv_seq := 0\<rparr> else s) in
        if flags s AND SSH_SESSION_FLAG_KEX_STRICT \<noteq> 0 \<and> flags s AND SSH_SESSION_FLAG_KEX_TAINTED \<noteq> 0 then reply_failed s1
        else if server s1 then (1, ssh_connection_callback (s1\<lparr>dh_handshake_state := DH_STATE_FINISHED\<rparr>))
        else
          let ok = host_key_verified lib s1; s2 = with_kx (\<lambda>x. x\<lparr>dh_server_signature := None\<rparr>) s1 in
          if \<not> ok then reply_failed s2
          else
            let (rc, s3) = ssh_packet_set_newkeys (key_env.truncate (penv lib)) s2 SSH_DIRECTION_IN in
            if rc \<noteq> SSH_OK then reply_failed s3
            else (1, ssh_connection_callback (s3\<lparr>dh_handshake_state := DH_STATE_FINISHED\<rparr>)))"

definition ssh_packet_service_accept :: "'k ssh_session \<Rightarrow> byte \<Rightarrow> int \<times> 'k ssh_session" where
  "ssh_packet_service_accept s t = (1, s\<lparr>auth_service_state := SSH_AUTH_SERVICE_ACCEPTED\<rparr>)"

abbreviation (input) SSH_EXT_SIG_RSA_SHA256 :: u32 where "SSH_EXT_SIG_RSA_SHA256 \<equiv> 2"
abbreviation (input) SSH_EXT_SIG_RSA_SHA512 :: u32 where "SSH_EXT_SIG_RSA_SHA512 \<equiv> 4"

text \<open>The loop over the extensions; the names end at their first null byte.\<close>

fun ext_info_loop :: "bool \<Rightarrow> nat \<Rightarrow> u32 \<Rightarrow> ssh_buffer \<Rightarrow> u32 \<times> ssh_buffer" where
  "ext_info_loop m 0 e b = (e, b)"
| "ext_info_loop m (Suc n) e b =
     (case ssh_buffer_unpack m (\<lambda>_. True) ''ss'' 2 [UA_ptr, UA_ptr, UA_end] b of
        Some (rc, [I_cstring name, I_cstring val], b1) \<Rightarrow>
          let cs = (\<lambda>x. string_of (takeWhile (\<lambda>c. c \<noteq> 0) x));
              has = (\<lambda>a. cs name = ''server-sig-algs'' \<and> match_group (Some (cs val)) (Some a) = 1);
              e1 = (if has ''rsa-sha2-512'' then e OR SSH_EXT_SIG_RSA_SHA512 else e);
              e2 = (if has ''rsa-sha2-256'' then e1 OR SSH_EXT_SIG_RSA_SHA256 else e1)
          in ext_info_loop m n e2 b1
      | Some (rc, _, b1) \<Rightarrow> (e, b1)
      | None \<Rightarrow> (e, b))"

definition ssh_packet_ext_info :: "'k client_lib \<Rightarrow> 'k ssh_session \<Rightarrow> byte \<Rightarrow> int \<times> 'k ssh_session" where
  "ssh_packet_ext_info lib s t =
     (let ((rc, x), b) = ssh_buffer_get_u32 (the (in_buffer s)); nr = ntohl x in
      if rc = 0 then (1, took b s)
      else if 128 < nr then (1, took b s)
      else
        let (e, b1) = ext_info_loop (alloc_ok (kexlib lib)) (unat nr) (extensions (shake s)) b
        in (1, with_shake (\<lambda>h. h\<lparr>extensions := e\<rparr>) (took b1 s)))"

section \<open>The tables\<close>

text \<open>
  \<open>default_packet_handlers\<close>. The handlers of the server, of authentication and of channels are
  arguments.
\<close>

definition transport_handler ::
  "'k client_lib \<Rightarrow> ('k ssh_session \<Rightarrow> 'k ssh_session) \<Rightarrow> byte \<Rightarrow> ('k ssh_session \<Rightarrow> byte \<Rightarrow> int \<times> 'k ssh_session) option" where
  "transport_handler lib cb t =
     (if t = 1 then Some (ssh_packet_disconnect_callback lib)
      else if t = 2 then Some ssh_packet_ignore_callback
      else if t = 3 then Some (unimplemented_handler lib)
      else if t = 4 then Some (ssh_packet_debug_callback lib)
      else if t = 6 then Some ssh_packet_service_accept
      else if t = 7 then Some (ssh_packet_ext_info lib)
      else if t = 20 then Some (ssh_packet_kexinit (kexlib lib) cb)
      else if t = 21 then Some (ssh_packet_newkeys lib cb)
      else if t \<in> {5, 30, 50, 51, 52, 53, 60, 61, 66, 80, 81, 82} \<or> 90 \<le> t \<and> t \<le> 100 then other_handler lib t
      else None)"

definition default_packet_handlers ::
  "'k client_lib \<Rightarrow> ('k ssh_session \<Rightarrow> 'k ssh_session) \<Rightarrow> ('k ssh_session \<Rightarrow> byte \<Rightarrow> int \<times> 'k ssh_session) option list" where
  "default_packet_handlers lib cb = map (\<lambda>i. transport_handler lib cb (of_nat i)) [1..<101]"

definition client_tables :: "'k client_lib \<Rightarrow> nat \<Rightarrow> 'k handler_table option" where
  "client_tables lib a =
     (let start = (\<lambda>n l. Some \<lparr>cb_start = n, cb_table = l\<rparr>) in
      if a = default_packet_callbacks then start 1 (default_packet_handlers lib (ssh_client_connection_callback lib))
      else if a = ssh_dh_client_callbacks then start 31 [Some (ssh_packet_client_dh_reply lib)]
      else if a = ssh_dhgex_client_callbacks then
        start 31 [Some (ssh_packet_client_dhgex_group lib), None, Some (ssh_packet_client_dhgex_reply lib)]
      else if a = ssh_ecdh_client_callbacks then start 31 [Some (ssh_packet_client_ecdh_reply lib)]
      else if a = ssh_curve25519_client_callbacks then start 31 [Some (ssh_packet_client_curve25519_reply lib)]
      else None)"

text \<open>
  The client's packet layer, tied together: the steps of \<open>ssh_packet_set_newkeys\<close>, the group exchange,
  \<open>ssh_send_rekex\<close>, and the tables. \<open>ssh_send_rekex\<close> sends its packets while no further key exchange
  can begin, so it is given a layer without one.
\<close>

definition tie_keys :: "'k client_lib \<Rightarrow> 'k client_lib" where
  "tie_keys lib =
     lib\<lparr>penv := (penv lib)\<lparr>make_sessionid := ssh_make_sessionid (kexlib lib),
                            set_algorithms_client := crypt_set_algorithms_client (kexlib lib),
                            generate_session_keys := ssh_generate_session_keys (kexlib lib)\<rparr>\<rparr>"

definition tie_gex :: "'k client_lib \<Rightarrow> 'k client_lib" where
  "tie_gex lib = lib\<lparr>client_dhgex_init := ssh_client_dhgex_init (kexlib lib)\<rparr>"

definition with_keys :: "'k client_lib \<Rightarrow> 'k client_lib" where
  "with_keys lib = tie_gex (tie_keys lib)"

definition tie_rekex :: "'k client_lib \<Rightarrow> 'k client_lib" where
  "tie_rekex lib = lib\<lparr>penv := (penv lib)\<lparr>send_rekex := ssh_send_rekex (kexlib lib)\<rparr>\<rparr>"

definition client_lib_of :: "'k client_lib \<Rightarrow> 'k client_lib" where
  "client_lib_of lib = tie_gex (tie_rekex (with_keys lib))"

definition client_env :: "'k client_lib \<Rightarrow> 'k packet_env" where
  "client_env lib = (penv (client_lib_of lib))\<lparr>table_at := client_tables (client_lib_of lib)\<rparr>"

end
