(* ===== verification/Client_Frame.thy ===== *)
theory Client_Frame
  imports Kex_Client
begin

unbundle bit_operations_syntax

text \<open>
  What sending a packet leaves alone. The interface \<open>unsent_view\<close> is a view of the session that no
  part of the packet layer writes: the buffers, counters and keys are not in it. Whatever is sent, in
  whatever state, the view stays, as long as a key exchange that may begin keeps it.
\<close>

section \<open>Views\<close>

lemma truncate_steps [simp]:
  "make_sessionid (key_env.truncate env) = make_sessionid env" "set_algorithms_client (key_env.truncate env) = set_algorithms_client env"
  "generate_session_keys (key_env.truncate env) = generate_session_keys env"
  by (simp_all add: key_env.defs)

lemma get_crypto_upd [simp]:
  "ssh_packet_get_current_crypto (Some (s\<lparr>out_queue := q\<rparr>)) d = ssh_packet_get_current_crypto (Some s) d"
  "ssh_packet_get_current_crypto (Some (s\<lparr>out_buffer := b\<rparr>)) d = ssh_packet_get_current_crypto (Some s) d"
  by (simp_all add: ssh_packet_get_current_crypto_def)

lemma need_rekey_upd [simp]:
  "ssh_packet_need_rekey el (s\<lparr>out_queue := q, out_buffer := b\<rparr>) n = ssh_packet_need_rekey el s n"
  by (simp add: ssh_packet_need_rekey_def Let_def cong: option.case_cong)


locale unsent_view =
  fixes view :: "'k ssh_session \<Rightarrow> 'v" and env :: "'k packet_env" and ok :: "'v \<Rightarrow> bool"
  assumes blind:
      "view (s\<lparr>out_buffer := b\<rparr>) = view s" "view (s\<lparr>out_queue := q\<rparr>) = view s" "view (s\<lparr>wire := w\<rparr>) = view s"
      "view (s\<lparr>send_seq := n\<rparr>) = view s" "view (s\<lparr>raw_counter := r\<rparr>) = view s" "view (s\<lparr>last_rekey_time := i\<rparr>) = view s"
      "view (s\<lparr>current_crypto := c\<rparr>) = view s" "view (s\<lparr>next_crypto := c\<rparr>) = view s"
    and key_steps:
      "view (snd (make_sessionid env s)) = view s" "view (snd (set_algorithms_client env s)) = view s"
      "view (snd (generate_session_keys env s)) = view s"
    and rekex: "ok (view s) \<Longrightarrow> ssh_packet_need_rekey el s m \<Longrightarrow> view (snd (send_rekex env s)) = view s"
begin

lemma with_next_blind: "view (with_next f s) = view s"
  by (simp add: with_next_def blind)

lemma with_crypto_blind: "view (with_crypto d f s) = view s"
  by (simp add: with_crypto_def blind)

lemma install_blind: "view (snd (install_keys (key_env.truncate env) s)) = view s"
  by (auto simp: install_keys_def with_next_blind blind Let_def split: option.splits prod.splits)

lemma set_newkeys_blind: "view (snd (ssh_packet_set_newkeys (key_env.truncate env) s d)) = view s"
proof (cases "next_crypto s")
  case None
  then show ?thesis by (simp add: ssh_packet_set_newkeys_def)
next
  case (Some n)
  have step: "view (snd (if b then f t else (SSH_OK, t))) = view t" if "\<And>u. view (snd (f u)) = view u" for b f t
    using that by simp
  show ?thesis
    by (simp add: ssh_packet_set_newkeys_def Some swap_keys_def with_next_blind blind install_blind key_steps step
        split_def Let_def)
qed

lemma encrypt_blind: "view (snd (snd (ssh_packet_encrypt env s dat))) = view s"
  by (auto simp: ssh_packet_encrypt_def set_out_ctx_def with_crypto_blind Let_def split: option.splits prod.splits)

lemma write_blind: "view (snd (ssh_packet_write env s)) = view s"
  by (simp add: ssh_packet_write_def blind)

lemma sent_blind: "view (packet_sent k n s) = view s"
  by (simp add: packet_sent_def with_crypto_blind blind Let_def)

lemma framed_blind: "view (snd (send_framed env s k h n t)) = view s"
proof -
  obtain x dat s1 where e: "ssh_packet_encrypt env s (take (unat (ssh_buffer_get_len (out_buffer s))) (ssh_buffer_get (out_buffer s))) = (x, dat, s1)"
    by (metis surj_pair)
  have "view s1 = view s" using encrypt_blind [of s] e by (metis snd_conv)
  then show ?thesis
    by (simp add: send_framed_def e set_newkeys_blind sent_blind write_blind blind split_def Let_def)
qed

lemma send2_blind: "view (snd (packet_send2 env s)) = view s"
  by (auto simp: packet_send2_def framed_blind blind split_def Let_def split: option.splits)

lemma drain_blind: "ok (view s) \<Longrightarrow> view (snd (drain env q s)) = view s"
proof (induction q arbitrary: s)
  case (Cons b q)
  let ?r = "packet_send2 env (s\<lparr>out_buffer := b, out_queue := q\<rparr>)"
  have "view (snd ?r) = view s" by (simp add: send2_blind blind)
  with Cons show ?case by (simp add: rekex split_def Let_def)
qed simp

lemma send_blind: "ok (view s) \<Longrightarrow> view (snd (ssh_packet_send env s)) = view s"
proof -
  assume ok: "ok (view s)"
  show ?thesis
  proof (cases "ssh_packet_need_rekey (elapsed env) s (ssh_buffer_get_len (out_buffer s))")
    case True
    let ?s = "\<lambda>b. s\<lparr>out_queue := out_queue s @ [out_buffer s], out_buffer := b\<rparr>"
    have "ssh_packet_need_rekey (elapsed env) (?s b) (ssh_buffer_get_len (out_buffer s))" for b using True by simp
    then have "view (snd (send_rekex env (?s b))) = view s" for b
      using rekex [of "?s b"] ok by (simp add: blind)
    then show ?thesis
      using True by (simp add: ssh_packet_send_def blind Let_def split: option.split)
  next
    case False
    have v: "view (snd (packet_send2 env s)) = view s" by (rule send2_blind)
    with ok False show ?thesis
      by (simp add: ssh_packet_send_def drain_blind blind split_def Let_def split: option.split)
  qed
qed

lemma newkeys_blind: "ok (view s) \<Longrightarrow> view (snd (ssh_packet_send_newkeys env s)) = view s"
  by (simp add: ssh_packet_send_newkeys_def send_blind blind split_def Let_def)

lemma unimplemented_blind: "ok (view s) \<Longrightarrow> view (snd (ssh_packet_send_unimplemented env s n)) = view s"
  by (simp add: ssh_packet_send_unimplemented_def send_blind blind split_def Let_def split: option.split)

end

end
