(* ===== verification/Client_Safety.thy ===== *)
theory Client_Safety
  imports Client_Frame
begin

unbundle bit_operations_syntax

text \<open>
  How a client's connection comes to the point where the user may log in: which step leads there, and
  what has been checked when it does.
\<close>

section \<open>The key exchange does not touch the connection's state\<close>

definition kex_view :: "'k ssh_session \<Rightarrow> session_state \<times> dh_state \<times> u32 \<times> bool \<times> bool \<times> bool" where
  "kex_view s = (session_state s, dh_handshake_state s, flags s, send_first_kex_follows (shake s), client s, server s)"

lemma with_more [simp]:
  "session_state (with_next f s) = session_state s" "session_state (with_kx g s) = session_state s"
  "session_state (with_shake h s) = session_state s"
  "dh_handshake_state (with_next f s) = dh_handshake_state s" "dh_handshake_state (with_kx g s) = dh_handshake_state s"
  "dh_handshake_state (with_shake h s) = dh_handshake_state s"
  "flags (with_shake h s) = flags s" "server (with_shake h s) = server s"
  by (simp_all add: with_next_def with_kx_def with_shake_def)

lemma kex_view_with [simp]: "kex_view (with_next f s) = kex_view s" "kex_view (with_kx g s) = kex_view s"
  by (simp_all add: kex_view_def)

lemma kex_view_hash [simp]: "kex_view (drop_hashbufs s) = kex_view s" "kex_view (set_out_hash h s) = kex_view s"
  by (simp_all add: kex_view_def drop_hashbufs_def set_out_hash_def)

lemma store_hash_view [simp]: "kex_view (store_hash lib b s) = kex_view s"
  by (simp add: store_hash_def Let_def split: option.split)

lemma compression_view [simp]: "kex_view (set_compression i d s) = kex_view s"
  by (simp add: set_compression_def compression_enable_def Let_def)

lemma steps_view [simp]:
  "kex_view (snd (ssh_make_sessionid lib s)) = kex_view s" "kex_view (snd (crypt_set_algorithms_client lib s)) = kex_view s"
  "kex_view (snd (ssh_generate_session_keys lib s)) = kex_view s"
proof -
  show "kex_view (snd (ssh_make_sessionid lib s)) = kex_view s"
    by (simp add: ssh_make_sessionid_def split: option.splits sum.splits)
  have "kex_view (snd (set_out_algorithms lib s)) = kex_view s" "kex_view (snd (set_in_algorithms lib s)) = kex_view s" for s
    by (auto simp: set_out_algorithms_def set_in_algorithms_def Let_def split: option.splits)
  then show "kex_view (snd (crypt_set_algorithms_client lib s)) = kex_view s"
    by (simp add: crypt_set_algorithms_client_def crypt_set_algorithms2_def split_def Let_def)
  show "kex_view (snd (ssh_generate_session_keys lib s)) = kex_view s"
    by (auto simp: ssh_generate_session_keys_def Let_def split: option.splits)
qed

abbreviation conn_view :: "'k ssh_session \<Rightarrow> session_state \<times> bool" where "conn_view s \<equiv> (session_state s, client s)"

lemma view_state: "kex_view t = kex_view s \<Longrightarrow> conn_view t = conn_view s \<and> dh_handshake_state t = dh_handshake_state s"
  by (simp add: kex_view_def)

definition no_rekey :: "session_state \<times> dh_state \<times> u32 \<times> bool \<times> bool \<times> bool \<Rightarrow> bool" where
  "no_rekey v = (fst (snd v) \<noteq> DH_STATE_FINISHED)"

lemma no_rekey_view [simp]: "no_rekey (kex_view s) \<longleftrightarrow> dh_handshake_state s \<noteq> DH_STATE_FINISHED"
  by (simp add: no_rekey_def kex_view_def)

lemma wired [simp]:
  "make_sessionid (penv (with_keys lib)) = ssh_make_sessionid (kexlib lib)"
  "set_algorithms_client (penv (with_keys lib)) = crypt_set_algorithms_client (kexlib lib)"
  "generate_session_keys (penv (with_keys lib)) = ssh_generate_session_keys (kexlib lib)"
  "make_sessionid (penv (client_lib_of lib)) = ssh_make_sessionid (kexlib lib)"
  "set_algorithms_client (penv (client_lib_of lib)) = crypt_set_algorithms_client (kexlib lib)"
  "generate_session_keys (penv (client_lib_of lib)) = ssh_generate_session_keys (kexlib lib)"
  "send_rekex (penv (client_lib_of lib)) = ssh_send_rekex (kexlib (with_keys lib))"
  by (simp_all add: with_keys_def client_lib_of_def tie_gex_def tie_keys_def tie_rekex_def)

lemma no_rekey_when_busy: "dh_handshake_state s \<noteq> DH_STATE_FINISHED \<Longrightarrow> \<not> ssh_packet_need_rekey el s n"
  by (simp add: ssh_packet_need_rekey_def)

interpretation inner: unsent_view kex_view "penv (with_keys lib)" no_rekey for lib
  by unfold_locales (simp_all add: no_rekey_when_busy, simp_all add: kex_view_def)

lemma kexlib_parts [simp]:
  "penv (kexlib lib) = penv lib" "bignums (kexlib lib) = bignums lib" "client_dhgex_init (kexlib lib) = client_dhgex_init lib"
  by (simp_all add: kex_lib.defs)

text \<open>
  \<open>calm\<close>: while a key exchange is under way, a function leaves the connection's state and does not
  end the key exchange. The interface \<open>calm_packets\<close> is what the steps of the key exchange need of
  the packet layer for that.
\<close>

definition calm :: "('k ssh_session \<Rightarrow> int \<times> 'k ssh_session) \<Rightarrow> bool" where
  "calm f =
     (\<forall>s. dh_handshake_state s \<noteq> DH_STATE_FINISHED \<longrightarrow>
        conn_view (snd (f s)) = conn_view s \<and> dh_handshake_state (snd (f s)) \<noteq> DH_STATE_FINISHED)"

lemma calmI:
  "(\<And>s. dh_handshake_state s \<noteq> DH_STATE_FINISHED \<Longrightarrow> conn_view (snd (f s)) = conn_view s) \<Longrightarrow>
   (\<And>s. dh_handshake_state s \<noteq> DH_STATE_FINISHED \<Longrightarrow> dh_handshake_state (snd (f s)) \<noteq> DH_STATE_FINISHED) \<Longrightarrow> calm f"
  by (simp add: calm_def)

lemma calmD [dest]:
  "calm f \<Longrightarrow> dh_handshake_state s \<noteq> DH_STATE_FINISHED \<Longrightarrow>
    session_state (snd (f s)) = session_state s \<and> client (snd (f s)) = client s \<and>
    dh_handshake_state (snd (f s)) \<noteq> DH_STATE_FINISHED"
  by (simp add: calm_def)

lemma pack_session_view [simp]: "kex_view (snd (pack_session lib fmt args s)) = kex_view s"
  by (simp add: pack_session_def kex_view_def split_def Let_def)

lemma pack_session_parts [simp]:
  "session_state (snd (pack_session lib fmt args s)) = session_state s"
  "dh_handshake_state (snd (pack_session lib fmt args s)) = dh_handshake_state s"
  "client (snd (pack_session lib fmt args s)) = client s"
  by (simp_all add: pack_session_def split_def Let_def)

lemma callbacks_parts [simp]:
  "session_state (ssh_packet_set_callbacks m s c) = session_state s" "session_state (ssh_packet_remove_callbacks s c) = session_state s"
  "dh_handshake_state (ssh_packet_set_callbacks m s c) = dh_handshake_state s"
  "dh_handshake_state (ssh_packet_remove_callbacks s c) = dh_handshake_state s"
  "client (ssh_packet_set_callbacks m s c) = client s" "client (ssh_packet_remove_callbacks s c) = client s"
  by (simp_all add: ssh_packet_set_callbacks_def ssh_packet_remove_callbacks_def)

lemma revert_parts [simp]:
  "session_state (revert_kex_callbacks s) = session_state s" "dh_handshake_state (revert_kex_callbacks s) = dh_handshake_state s"
  "client (revert_kex_callbacks s) = client s"
  by (simp_all add: revert_kex_callbacks_def ssh_client_dh_remove_callbacks_def ssh_client_dhgex_remove_callbacks_def
      ssh_client_ecdh_remove_callbacks_def ssh_client_curve25519_remove_callbacks_def split: kex_kind.split)

locale calm_packets =
  fixes lib :: "'k kex_lib"
  assumes send: "dh_handshake_state s \<noteq> DH_STATE_FINISHED \<Longrightarrow> kex_view (snd (ssh_packet_send (penv lib) s)) = kex_view s"
    and gex: "calm (client_dhgex_init lib)"
begin

lemma send_parts:
  "dh_handshake_state s \<noteq> DH_STATE_FINISHED \<Longrightarrow> session_state (snd (ssh_packet_send (penv lib) s)) = session_state s"
  "dh_handshake_state s \<noteq> DH_STATE_FINISHED \<Longrightarrow> dh_handshake_state (snd (ssh_packet_send (penv lib) s)) = dh_handshake_state s"
  "dh_handshake_state s \<noteq> DH_STATE_FINISHED \<Longrightarrow> client (snd (ssh_packet_send (penv lib) s)) = client s"
  using send [of s] by (simp_all add: kex_view_def)

lemma start_exchange_parts:
  "session_state (snd (start_exchange lib t s)) = session_state s"
  "dh_handshake_state (snd (start_exchange lib t s)) = DH_STATE_INIT_SENT"
  "client (snd (start_exchange lib t s)) = client s"
  by (simp_all add: start_exchange_def send_parts Let_def)

lemma first_messages:
  "calm (ssh_client_curve25519_init lib)" "calm (ssh_client_ecdh_init lib)" "calm (ssh_client_dh_init lib)"
proof -
  have c: "session_state (snd (ssh_curve25519_init lib s)) = session_state s"
    "dh_handshake_state (snd (ssh_curve25519_init lib s)) = dh_handshake_state s"
    "client (snd (ssh_curve25519_init lib s)) = client s" for s
    by (simp_all add: ssh_curve25519_init_def split: option.split)
  show "calm (ssh_client_curve25519_init lib)"
    by (rule calmI) (simp_all add: ssh_client_curve25519_init_def c start_exchange_parts split_def Let_def)
  show "calm (ssh_client_ecdh_init lib)"
    by (rule calmI; simp add: ssh_client_ecdh_init_def start_exchange_parts split_def Let_def split: option.split)
  show "calm (ssh_client_dh_init lib)"
    by (rule calmI) (simp_all add: ssh_client_dh_init_def start_exchange_parts split_def Let_def)
qed

lemma handshake_calm: "calm (dh_handshake lib)"
  using calmD [OF first_messages(1)] calmD [OF first_messages(2)] calmD [OF first_messages(3)] calmD [OF gex]
  by (intro calmI) (simp_all add: dh_handshake_def split: dh_state.split kex_kind.split)

lemma build_parts [simp]: "kex_view (snd (build_kexinit lib first s)) = kex_view s"
proof -
  have h: "kex_view (snd (ssh_hashbufout_add_cookie lib s)) = kex_view s" for s
    by (simp add: ssh_hashbufout_add_cookie_def kex_view_def split_def Let_def)
  have b: "kex_view (s\<lparr>out_buffer := x\<rparr>) = kex_view s" for s :: "'k ssh_session" and x
    by (simp add: kex_view_def)
  show ?thesis by (simp add: build_kexinit_def h b split_def Let_def)
qed

lemma failed_parts:
  "session_state (snd (send_kex_failed lib s)) = session_state s" "client (snd (send_kex_failed lib s)) = client s"
  "dh_handshake_state (snd (send_kex_failed lib s)) = dh_handshake_state s"
  by (simp_all add: send_kex_failed_def)

lemma guess_calm: "calm (send_guess lib kex)"
  using calmD [OF handshake_calm] by (intro calmI; simp add: send_guess_def failed_parts split_def Let_def)

lemma send_kex_calm: "calm (ssh_send_kex lib)"
proof -
  have "conn_view (snd (ssh_send_kex lib s)) = conn_view s \<and> dh_handshake_state (snd (ssh_send_kex lib s)) \<noteq> DH_STATE_FINISHED"
    if d: "dh_handshake_state s \<noteq> DH_STATE_FINISHED" for s
  proof -
    have v: "session_state (snd (build_kexinit lib b s)) = session_state s"
      "dh_handshake_state (snd (build_kexinit lib b s)) = dh_handshake_state s" "client (snd (build_kexinit lib b s)) = client s" for b
      using view_state [OF build_parts [of b s]] by simp_all
    then have v2: "session_state (snd (ssh_packet_send (penv lib) (snd (build_kexinit lib b s)))) = session_state s"
      "dh_handshake_state (snd (ssh_packet_send (penv lib) (snd (build_kexinit lib b s)))) = dh_handshake_state s"
      "client (snd (ssh_packet_send (penv lib) (snd (build_kexinit lib b s)))) = client s" for b
      using d by (simp_all add: send_parts)
    show ?thesis
      using d v v2 calmD [OF guess_calm]
      by (simp add: ssh_send_kex_def failed_parts split_def Let_def)
  qed
  then show ?thesis by (simp add: calm_def)
qed

lemma set_kex_parts: "kex_view (snd (set_client_kex lib s)) = kex_view s"
  by (simp add: set_client_kex_def split: sum.split)

text \<open>A client that starts the key exchange again keeps its connection's state.\<close>

lemma rekex_parts: "client s \<Longrightarrow> conn_view (snd (ssh_send_rekex lib s)) = conn_view s"
proof -
  assume c: "client s"
  let ?s1 = "snd (set_client_kex lib s)"
  let ?t = "?s1\<lparr>dh_handshake_state := DH_STATE_INIT\<rparr>"
  have "conn_view ?s1 = conn_view s" using view_state [OF set_kex_parts] by blast
  moreover have "conn_view (snd (ssh_send_kex lib ?t)) = conn_view ?t" using calmD [OF send_kex_calm, of ?t] by simp
  ultimately show ?thesis using c by (simp add: ssh_send_rekex_def split_def Let_def)
qed

end

section \<open>The client's packet layer\<close>

lemma dhgex_init_calm:
  assumes "\<And>s. dh_handshake_state s \<noteq> DH_STATE_FINISHED \<Longrightarrow> kex_view (snd (ssh_packet_send (penv lib) s)) = kex_view s"
  shows "calm (ssh_client_dhgex_init lib)"
proof -
  have "dh_handshake_state s \<noteq> DH_STATE_FINISHED \<Longrightarrow> conn_view (snd (ssh_packet_send (penv lib) s)) = conn_view s \<and>
      dh_handshake_state (snd (ssh_packet_send (penv lib) s)) = dh_handshake_state s" for s
    using view_state [OF assms] by blast
  then show ?thesis by (intro calmI; simp add: ssh_client_dhgex_init_def split_def Let_def)
qed

lemma gex_wired: "client_dhgex_init (tie_gex lib) = ssh_client_dhgex_init (kexlib lib)" "penv (tie_gex lib) = penv lib"
  by (simp_all add: tie_gex_def)

lemma gex_calm:
  assumes "\<And>s. dh_handshake_state s \<noteq> DH_STATE_FINISHED \<Longrightarrow> kex_view (snd (ssh_packet_send (penv (tie_gex lib)) s)) = kex_view s"
  shows "calm (client_dhgex_init (kexlib (tie_gex lib)))"
  using assms by (simp add: gex_wired dhgex_init_calm)

interpretation inner_kex: calm_packets "kexlib (with_keys lib)" for lib
proof unfold_locales
  show send: "dh_handshake_state s \<noteq> DH_STATE_FINISHED \<Longrightarrow>
      kex_view (snd (ssh_packet_send (penv (kexlib (with_keys lib))) s)) = kex_view s" for s
    by (simp add: inner.send_blind)
  show "calm (client_dhgex_init (kexlib (with_keys lib)))"
    using inner.send_blind [of _ lib] unfolding with_keys_def by (intro gex_calm) simp
qed

interpretation outer: unsent_view kex_view "penv (client_lib_of lib)" no_rekey for lib
  by unfold_locales (simp_all add: no_rekey_when_busy, simp_all add: kex_view_def)

interpretation outer_kex: calm_packets "kexlib (client_lib_of lib)" for lib
proof unfold_locales
  show send: "dh_handshake_state s \<noteq> DH_STATE_FINISHED \<Longrightarrow>
      kex_view (snd (ssh_packet_send (penv (kexlib (client_lib_of lib))) s)) = kex_view s" for s
    by (simp add: outer.send_blind)
  show "calm (client_dhgex_init (kexlib (client_lib_of lib)))"
    using outer.send_blind [of _ lib] unfolding client_lib_of_def by (intro gex_calm) simp
qed

text \<open>In any state, a client that sends a packet keeps the state of its connection.\<close>

lemma steps_conn:
  "conn_view (snd (ssh_make_sessionid lib s)) = conn_view s" "conn_view (snd (crypt_set_algorithms_client lib s)) = conn_view s"
  "conn_view (snd (ssh_generate_session_keys lib s)) = conn_view s"
  using view_state [OF steps_view(1)] view_state [OF steps_view(2)] view_state [OF steps_view(3)] by blast+

interpretation conn: unsent_view conn_view "penv (client_lib_of lib)" snd for lib
proof unfold_locales
  show "conn_view (snd (send_rekex (penv (client_lib_of lib)) s)) = conn_view s" if "snd (conn_view s)" for s
    using inner_kex.rekex_parts [of s lib] that by simp
qed (use steps_conn in simp_all)

section \<open>Replies\<close>

text \<open>A handler that used its packet and left the connection's state \<open>st\<close>, or failed.\<close>

definition used :: "session_state \<Rightarrow> int \<times> 'k ssh_session \<Rightarrow> bool" where
  "used st r = (fst r = 1 \<and> session_state (snd r) \<in> {st, SSH_SESSION_STATE_ERROR})"

lemma used_pair [simp]: "used st (1, t) \<longleftrightarrow> session_state t \<in> {st, SSH_SESSION_STATE_ERROR}"
  by (simp add: used_def)

lemma fail_parts [simp]:
  "session_state (fail_session s) = SSH_SESSION_STATE_ERROR" "client (fail_session s) = client s"
  "session_state (ssh_session_socket_close s) = SSH_SESSION_STATE_ERROR" "client (ssh_session_socket_close s) = client s"
  by (simp_all add: fail_session_def ssh_session_socket_close_def)

lemma used_failed [simp]: "used st (reply_failed s)" "used st (dh_failed s)"
  by (simp_all add: reply_failed_def dh_failed_def used_def)

lemma used_string:
  assumes "\<And>str b. used st (f str (s\<lparr>in_buffer := Some b\<rparr>))"
  shows "used st (with_string lib s f)"
  using assms by (auto simp: with_string_def Let_def split: prod.splits option.splits)

lemma newkeys_conn:
  "client s \<Longrightarrow> session_state (snd (ssh_packet_send_newkeys (penv (client_lib_of lib)) s)) = session_state s"
  using conn.newkeys_blind [of s lib] by simp

lemma finish_used: "client s \<Longrightarrow> used (session_state s) (finish_reply (client_lib_of lib) s)"
  by (simp add: finish_reply_def newkeys_conn split_def Let_def)

lemma import_parts [simp]:
  "session_state (snd (ssh_dh_import_next_pubkey_blob lib b s)) = session_state s"
  "client (snd (ssh_dh_import_next_pubkey_blob lib b s)) = client s"
  by (simp_all add: ssh_dh_import_next_pubkey_blob_def split: option.split)

lemma build_k_parts [simp]:
  "session_state (snd (ssh_curve25519_build_k lib s)) = session_state s" "client (snd (ssh_curve25519_build_k lib s)) = client s"
  "session_state (snd (ecdh_build_k lib s)) = session_state s" "client (snd (ecdh_build_k lib s)) = client s"
  by (simp_all add: ssh_curve25519_build_k_def ecdh_build_k_def Let_def split: option.split)

lemma remove_parts [simp]:
  "session_state (ssh_client_curve25519_remove_callbacks s) = session_state s"
  "client (ssh_client_curve25519_remove_callbacks s) = client s"
  "session_state (ssh_client_ecdh_remove_callbacks s) = session_state s" "client (ssh_client_ecdh_remove_callbacks s) = client s"
  "session_state (ssh_client_dh_remove_callbacks s) = session_state s" "client (ssh_client_dh_remove_callbacks s) = client s"
  "session_state (ssh_client_dhgex_remove_callbacks s) = session_state s" "client (ssh_client_dhgex_remove_callbacks s) = client s"
  by (simp_all add: ssh_client_curve25519_remove_callbacks_def ssh_client_ecdh_remove_callbacks_def
      ssh_client_dh_remove_callbacks_def ssh_client_dhgex_remove_callbacks_def)

lemma finish_used': "client t \<Longrightarrow> session_state t = st \<Longrightarrow> used st (finish_reply (client_lib_of lib) t)"
  using finish_used [of t lib] by simp

lemma curve_reply_used: "client s \<Longrightarrow> used (session_state s) (ssh_packet_client_curve25519_reply (client_lib_of lib) s t)"
  unfolding ssh_packet_client_curve25519_reply_def Let_def split_def
  by (intro used_string) (auto intro!: used_string finish_used')

lemma ecdh_reply_used: "client s \<Longrightarrow> used (session_state s) (ssh_packet_client_ecdh_reply (client_lib_of lib) s t)"
  unfolding ssh_packet_client_ecdh_reply_def Let_def split_def
  by (intro used_string) (auto intro!: used_string finish_used')

lemma reply_secret_parts [simp]:
  "session_state (snd (dh_reply_secret lib b f s)) = session_state s" "client (snd (dh_reply_secret lib b f s)) = client s"
  by (auto simp: dh_reply_secret_def split_def Let_def split: option.split)

lemma dh_reply_used: "client s \<Longrightarrow> used (session_state s) (dh_reply (client_lib_of lib) s)"
  by (auto simp: dh_reply_def newkeys_conn split_def Let_def split: option.split list.split item.split)

lemma gex_group_used: "client s \<Longrightarrow> used (session_state s) (ssh_packet_client_dhgex_group (client_lib_of lib) s t)"
proof -
  assume c: "client s"
  have "session_state (snd (ssh_packet_send (penv (client_lib_of lib)) u)) = session_state u" if "client u" for u
    using conn.send_blind [of u lib] that by simp
  then show ?thesis
    using c by (auto simp: ssh_packet_client_dhgex_group_def split_def Let_def split: option.split list.split item.split)
qed

lemma gex_reply_used: "client s \<Longrightarrow> used (session_state s) (ssh_packet_client_dhgex_reply (client_lib_of lib) s t)"
  and dh_handler_used: "client s \<Longrightarrow> used (session_state s) (ssh_packet_client_dh_reply (client_lib_of lib) s t)"
  using dh_reply_used [of "ssh_client_dhgex_remove_callbacks s" lib] dh_reply_used [of "ssh_client_dh_remove_callbacks s" lib]
  by (simp_all add: ssh_packet_client_dhgex_reply_def ssh_packet_client_dh_reply_def)

lemmas replies_used = curve_reply_used ecdh_reply_used dh_handler_used gex_group_used gex_reply_used

section \<open>The connection's state\<close>

text \<open>The server may be logged in to.\<close>

definition granted :: "'k ssh_session \<Rightarrow> bool" where
  "granted s = (session_state s = SSH_SESSION_STATE_AUTHENTICATING \<or> session_state s = SSH_SESSION_STATE_AUTHENTICATED)"

lemma granted_used: "used (session_state s) r \<Longrightarrow> \<not> granted s \<Longrightarrow> \<not> granted (snd r)"
  by (auto simp: used_def granted_def)

lemma granted_close [simp]: "\<not> granted (ssh_session_socket_close s)" "\<not> granted (fail_session s)"
  by (simp_all add: granted_def)

lemma send_kex_conn: "client s \<Longrightarrow> conn_view (snd (ssh_send_kex (kexlib (client_lib_of lib)) s)) = conn_view s"
proof -
  let ?l = "kexlib (client_lib_of lib)"
  assume c: "client s"
  have v: "conn_view (snd (build_kexinit ?l b s)) = conn_view s" for b using view_state [OF outer_kex.build_parts] by blast
  have v2: "conn_view (snd (ssh_packet_send (penv (client_lib_of lib)) (snd (build_kexinit ?l b s)))) = conn_view s" for b
    using conn.send_blind [of "snd (build_kexinit ?l b s)" lib] v c by simp
  have g: "conn_view (snd (send_guess ?l k u)) = conn_view u" for k u
  proof -
    let ?u = "(with_kx (\<lambda>x. x\<lparr>kex_type := kex_select_kex_type (takeWhile (\<lambda>c. c \<noteq> CHR '','') (the (methods k ! SSH_KEX)))\<rparr>) u)
      \<lparr>dh_handshake_state := DH_STATE_INIT\<rparr>"
    from calmD [OF outer_kex.handshake_calm [of lib], of ?u] show ?thesis
      by (simp add: send_guess_def outer_kex.failed_parts split_def Let_def)
  qed
  show ?thesis using v v2 g by (simp add: ssh_send_kex_def outer_kex.failed_parts split_def Let_def)
qed

lemma set_kex_view: "kex_view (snd (set_client_kex lib s)) = kex_view s"
  by (simp add: set_client_kex_def split: sum.split)

lemma offer_conn: "client s \<Longrightarrow> conn_view (snd (offer_kex (client_lib_of lib) s)) = conn_view s"
proof -
  let ?l = "kexlib (client_lib_of lib)"
  assume c: "client s"
  have v: "conn_view (snd (set_client_kex ?l s)) = conn_view s" using view_state [OF set_kex_view] by blast
  with send_kex_conn [of "snd (set_client_kex ?l s)" lib] c show ?thesis by (simp add: offer_kex_def split_def Let_def)
qed

lemma offer_busy:
  assumes "dh_handshake_state s \<noteq> DH_STATE_FINISHED"
  shows "dh_handshake_state (snd (offer_kex (client_lib_of lib) s)) \<noteq> DH_STATE_FINISHED"
proof -
  let ?t = "snd (set_client_kex (kexlib (client_lib_of lib)) s)"
  have "dh_handshake_state ?t = dh_handshake_state s" using view_state [OF set_kex_view] by blast
  with calmD [OF outer_kex.send_kex_calm [of lib], of ?t] assms show ?thesis by (simp add: offer_kex_def split_def Let_def)
qed

lemma select_parts:
  "ssh_kex_select_methods lib s = Some (rc, t) \<Longrightarrow>
    session_state t = session_state s \<and> (dh_handshake_state t = dh_handshake_state s \<or> dh_handshake_state t = DH_STATE_INIT)"
  by (auto simp: ssh_kex_select_methods_def Let_def split: if_splits)

lemma on_dh_busy: "dh_handshake_state s \<noteq> DH_STATE_FINISHED \<Longrightarrow> on_dh s = s"
  by (simp add: on_dh_def)

text \<open>While the keys are not there yet, the function that moves the connection on does not grant anything.\<close>

lemma kexinit_not_granted:
  assumes "dh_handshake_state s \<noteq> DH_STATE_FINISHED"
  shows "\<not> granted (on_kexinit (client_lib_of lib) s)"
proof -
  let ?r = "if flags s AND SSH_SESSION_FLAG_KEXINIT_SENT = 0 then offer_kex (client_lib_of lib) s else (True, s)"
  have b: "dh_handshake_state (snd ?r) \<noteq> DH_STATE_FINISHED" using assms offer_busy [of s lib] by simp
  have "\<not> granted (let (rc1, s3) = dh_handshake (kexlib (client_lib_of lib)) (s2\<lparr>session_state := SSH_SESSION_STATE_DH\<rparr>) in
      if rc1 = SSH_ERROR then ssh_session_socket_close s3 else on_dh s3)"
    if "ssh_kex_select_methods (kexlib (client_lib_of lib)) (snd ?r) = Some (rc, s2)" for rc s2
  proof -
    let ?d = "s2\<lparr>session_state := SSH_SESSION_STATE_DH\<rparr>"
    have "dh_handshake_state ?d \<noteq> DH_STATE_FINISHED" using select_parts [OF that] b by auto
    from calmD [OF outer_kex.handshake_calm this, of lib] show ?thesis
      by (simp add: on_dh_busy split_def Let_def) (simp add: granted_def)
  qed
  then show ?thesis by (auto simp: on_kexinit_def split_def Let_def split: option.split)
qed

lemma banner_parts [simp]:
  "session_state (snd (ssh_send_banner lib c srv s)) = session_state s"
  "session_state (snd (ssh_analyze_banner lib srv s)) = session_state s" "client (snd (ssh_analyze_banner lib srv s)) = client s"
  by (simp_all add: ssh_send_banner_def ssh_analyze_banner_def with_shake_def Let_def split: option.split)

lemma on_banner_state:
  "client s \<Longrightarrow> session_state (on_banner (client_lib_of lib) s) \<in> {SSH_SESSION_STATE_INITIAL_KEX, SSH_SESSION_STATE_ERROR}"
proof -
  assume c: "client s"
  let ?L = "client_lib_of lib"
  let ?s2 = "(ssh_packet_set_default_callbacks ?L (snd (ssh_analyze_banner ?L False s)))\<lparr>session_state := SSH_SESSION_STATE_INITIAL_KEX\<rparr>"
  have "client ?s2" using c by (simp add: ssh_packet_set_default_callbacks_def)
  from offer_conn [OF this, of lib] show ?thesis by (simp add: on_banner_def split_def Let_def)
qed

lemma callback_not_granted:
  assumes "client s" and "\<not> granted s" and "session_state s \<noteq> SSH_SESSION_STATE_DH"
    and "session_state s = SSH_SESSION_STATE_KEXINIT_RECEIVED \<Longrightarrow> dh_handshake_state s \<noteq> DH_STATE_FINISHED"
  shows "\<not> granted (ssh_client_connection_callback (client_lib_of lib) s)"
proof (cases "session_state s")
  case SSH_SESSION_STATE_BANNER_RECEIVED
  then show ?thesis
    using on_banner_state [OF assms(1), of lib] by (auto simp: ssh_client_connection_callback_def granted_def)
next
  case SSH_SESSION_STATE_KEXINIT_RECEIVED
  then show ?thesis using assms(4) kexinit_not_granted by (simp add: ssh_client_connection_callback_def)
qed (use assms in \<open>simp_all add: ssh_client_connection_callback_def granted_def\<close>)

section \<open>KEXINIT\<close>

abbreviation guess_view :: "'k ssh_session \<Rightarrow> bool \<times> bool \<times> bool" where
  "guess_view s \<equiv> (client s, server s, send_first_kex_follows (shake s))"

lemma put_peer_view:
  "guess_view (put_peer_cookie c s) = guess_view s" "guess_view (put_peer_methods l s) = guess_view s"
  by (simp_all add: put_peer_cookie_def put_peer_methods_def)

lemma decide_view: "kexinit_decide lib first s = Some t \<Longrightarrow> guess_view t = guess_view s"
  by (auto simp: kexinit_decide_def Let_def split: if_splits)

lemma decide_case: "guess_view (fst (case kexinit_decide lib b u of None \<Rightarrow> (u, x) | Some t \<Rightarrow> (t, y))) = guess_view u"
proof (cases "kexinit_decide lib b u")
  case (Some t)
  with decide_view [OF this] show ?thesis by simp
qed simp

lemma lists_view: "guess_view (fst (kexinit_lists lib s)) = guess_view s"
proof -
  have put: "guess_view (with_shake (\<lambda>x. x\<lparr>in_hashbuf := h\<rparr>) (t\<lparr>in_buffer := p\<rparr>)) = guess_view t" for h p t by simp
  show ?thesis
    unfolding kexinit_lists_def Let_def split_def
    by (cases "fst (read_lists (alloc_ok lib) SSH_KEX_METHODS (the (in_buffer s)) (the (in_hashbuf (shake s))))";
        simp add: decide_case put put_peer_view del: prod.inject)
qed

lemma hashbufin_view: "guess_view (snd (ssh_hashbufin_add_cookie lib s c)) = guess_view s"
  by (simp add: ssh_hashbufin_add_cookie_def split_def Let_def)

lemma expected_view: "kexinit_expected s = Some t \<Longrightarrow> guess_view t = guess_view s"
  by (auto simp: kexinit_expected_def split: if_splits)

lemma kexinit_failed_state [simp]: "used st (kexinit_failed s)"
  by (simp add: kexinit_failed_def)

text \<open>KEXINIT grants nothing, unless the client sent a guess with its own.\<close>

lemma kexinit_message:
  assumes "client s" "\<not> server s" "\<not> send_first_kex_follows (shake s)"
  shows "fst (ssh_packet_kexinit (kexlib (client_lib_of lib)) (ssh_client_connection_callback (client_lib_of lib)) s t) = 1 \<and>
    \<not> granted (snd (ssh_packet_kexinit (kexlib (client_lib_of lib)) (ssh_client_connection_callback (client_lib_of lib)) s t))"
proof (cases "kexinit_expected s")
  case None
  then show ?thesis by (simp add: ssh_packet_kexinit_def kexinit_failed_def granted_def)
next
  case (Some s0)
  let ?l = "kexlib (client_lib_of lib)"
  let ?cb = "ssh_client_connection_callback (client_lib_of lib)"
  define s1 where "s1 = s0\<lparr>in_buffer := Some (snd (ssh_buffer_get_data 16 (the (in_buffer s0))))\<rparr>"
  define c where "c = snd (fst (ssh_buffer_get_data 16 (the (in_buffer s0))))"
  define s3 where "s3 = snd (ssh_hashbufin_add_cookie ?l (put_peer_cookie c s1) c)"
  define s4 where "s4 = snd (set_client_kex ?l s3)"
  define s5 where "s5 = fst (kexinit_lists ?l s4)"
  have "guess_view s0 = guess_view s" using expected_view [OF Some] .
  then have "guess_view s1 = guess_view s" by (simp add: s1_def)
  then have v3: "guess_view s3 = guess_view s" by (simp add: s3_def hashbufin_view put_peer_view)
  have "guess_view s4 = guess_view s3"
    using set_kex_view [of ?l s3] unfolding s4_def kex_view_def by simp
  then have v5: "guess_view s5 = guess_view s" using v3 by (simp add: s5_def lists_view)
  have f: "fst (kexinit_failed u) = 1" "\<not> granted (snd (kexinit_failed u))" for u :: "'a ssh_session"
    by (simp_all add: kexinit_failed_def granted_def)
  let ?s7 = "s5\<lparr>session_state := SSH_SESSION_STATE_KEXINIT_RECEIVED, dh_handshake_state := DH_STATE_INIT\<rparr>"
  have g: "\<not> granted (?cb ?s7)" using v5 assms by (intro callback_not_granted) (simp_all add: granted_def)
  have srv: "\<not> server s3" "\<not> send_first_kex_follows (shake s5)" using v3 v5 assms by simp_all
  show ?thesis
    using Some f g srv
    by (simp add: ssh_packet_kexinit_def split_def Let_def s1_def [symmetric] c_def [symmetric]
        s3_def [symmetric] s4_def [symmetric] s5_def [symmetric])
qed

section \<open>NEWKEYS\<close>

text \<open>
  What has been checked of the server when NEWKEYS is accepted: its key came with a signature of a type
  the user wants, which verifies over the hash of this key exchange; and under strict key exchange no
  foreign packet was seen.
\<close>

definition host_verified :: "'k client_lib \<Rightarrow> 'k ssh_session \<Rightarrow> bool" where
  "host_verified lib s \<longleftrightarrow>
     \<not> (flags s AND SSH_SESSION_FLAG_KEX_STRICT \<noteq> 0 \<and> flags s AND SSH_SESSION_FLAG_KEX_TAINTED \<noteq> 0) \<and>
     (\<exists>key sg u. server_pubkey (next_kx s) = Some key \<and>
        import_signature_blob lib (dh_server_signature (next_kx s)) key = Some sg \<and>
        (\<forall>w\<in>set_option (wanted_methods (shake s) ! SSH_HOSTKEYS). match_group (Some w) (Some (fst sg)) \<noteq> 0) \<and>
        signature_verify lib u sg key (take (digest_len (next_kx s)) (the (secret_hash (next_kx s)))) \<noteq> SSH_ERROR)"

lemma verify_wired [simp]:
  "import_signature_blob (client_lib_of lib) = import_signature_blob lib" "signature_verify (client_lib_of lib) = signature_verify lib"
  by (simp_all add: with_keys_def client_lib_of_def tie_gex_def tie_keys_def tie_rekex_def)

lemma granted_upd [simp]: "granted (s\<lparr>recv_seq := n\<rparr>) = granted s" "granted (with_kx g s) = granted s"
  by (simp_all add: granted_def)

lemma next_kx_seq [simp]: "next_kx (s\<lparr>recv_seq := n\<rparr>) = next_kx s"
  by (simp add: next_kx_def)

lemma host_key_verifiedD:
  assumes "host_key_verified (client_lib_of lib) s"
  shows "\<exists>key sg u. server_pubkey (next_kx s) = Some key \<and>
    import_signature_blob lib (dh_server_signature (next_kx s)) key = Some sg \<and>
    (\<forall>w\<in>set_option (wanted_methods (shake s) ! SSH_HOSTKEYS). match_group (Some w) (Some (fst sg)) \<noteq> 0) \<and>
    signature_verify lib u sg key (take (digest_len (next_kx s)) (the (secret_hash (next_kx s)))) \<noteq> SSH_ERROR"
  using assms by (auto simp: host_key_verified_def Let_def split: option.splits)

lemma newkeys_grants:
  assumes "granted (snd (ssh_packet_newkeys (client_lib_of lib) cb s t))" and "\<not> granted s" and "\<not> server s"
  shows "session_state s = SSH_SESSION_STATE_DH \<and> dh_handshake_state s = DH_STATE_NEWKEYS_SENT \<and> host_verified lib s"
proof -
  let ?s1 = "if flags s AND SSH_SESSION_FLAG_KEX_STRICT \<noteq> 0 then s\<lparr>recv_seq := 0\<rparr> else s"
  have st: "session_state s = SSH_SESSION_STATE_DH \<and> dh_handshake_state s = DH_STATE_NEWKEYS_SENT"
    using assms(1) by (auto simp: ssh_packet_newkeys_def reply_failed_def split: if_splits)
  have taint: "\<not> (flags s AND SSH_SESSION_FLAG_KEX_STRICT \<noteq> 0 \<and> flags s AND SSH_SESSION_FLAG_KEX_TAINTED \<noteq> 0)"
    using assms(1) st by (auto simp: ssh_packet_newkeys_def reply_failed_def Let_def split: if_splits)
  have "host_key_verified (client_lib_of lib) ?s1"
    using assms(1,3) st taint by (auto simp: ssh_packet_newkeys_def reply_failed_def Let_def split: if_splits)
  from host_key_verifiedD [OF this] have "host_verified lib s"
    using taint unfolding host_verified_def by (auto split: if_splits)
  with st show ?thesis by blast
qed

lemma newkeys_returns: "fst (ssh_packet_newkeys lib cb s t) = 1"
  by (simp add: ssh_packet_newkeys_def reply_failed_def split_def Let_def)

section \<open>One packet\<close>

lemma process_used:
  assumes "process_from env t i rc s = Some r" and "\<And>a f. handler env a t = Some f \<Longrightarrow> fst (f s t) = 1"
  shows "r = (rc, s) \<or> (\<exists>a f. handler env a t = Some f \<and> f s t = r)"
proof -
  have "(\<forall>a f. handler env a t = Some f \<longrightarrow> fst (f s t) = 1) \<longrightarrow> r = (rc, s) \<or> (\<exists>a f. handler env a t = Some f \<and> f s t = r)"
  proof (rule process_from.raw_induct [where P = "\<lambda>env t i rc s r.
      (\<forall>a f. handler env a t = Some f \<longrightarrow> fst (f s t) = 1) \<longrightarrow> r = (rc, s) \<or> (\<exists>a f. handler env a t = Some f \<and> f s t = r)",
      OF _ assms(1)])
    fix g and env :: "'a packet_env" and t i rc s r
    assume IH: "\<And>env t i rc s r. g env t i rc s = Some r \<Longrightarrow>
        (\<forall>a f. handler env a t = Some f \<longrightarrow> fst (f s t) = 1) \<longrightarrow> r = (rc, s) \<or> (\<exists>a f. handler env a t = Some f \<and> f s t = r)"
      and eq: "(case i of
        None \<Rightarrow> Some (rc, s)
      | Some a \<Rightarrow>
          (case next_node a (case packet_callbacks s of None \<Rightarrow> [] | Some l \<Rightarrow> l) of
             None \<Rightarrow> None
           | Some nxt \<Rightarrow>
               (case handler env a t of
                  None \<Rightarrow> g env t nxt rc s
                | Some f \<Rightarrow>
                    (let (rc', s') = f s t in
                     if rc' = 1 then Some (rc', s') else g env t nxt rc' s')))) = Some r"
    show "(\<forall>a f. handler env a t = Some f \<longrightarrow> fst (f s t) = 1) \<longrightarrow> r = (rc, s) \<or> (\<exists>a f. handler env a t = Some f \<and> f s t = r)"
    proof
      assume one: "\<forall>a f. handler env a t = Some f \<longrightarrow> fst (f s t) = 1"
      show "r = (rc, s) \<or> (\<exists>a f. handler env a t = Some f \<and> f s t = r)"
      proof (cases i)
        case None
        with eq show ?thesis by simp
      next
        case (Some a)
        with eq obtain nxt where n: "next_node a (case packet_callbacks s of None \<Rightarrow> [] | Some l \<Rightarrow> l) = Some nxt"
          by (auto split: option.splits)
        show ?thesis
        proof (cases "handler env a t")
          case None
          with eq Some n have "g env t nxt rc s = Some r" by simp
          with IH one show ?thesis by blast
        next
          case h: (Some f)
          with one obtain v where "f s t = (1, v)" by (metis prod.collapse)
          then have "f s t = r" using eq Some n h by simp
          with h show ?thesis by blast
        qed
      qed
    qed
  qed
  with assms(2) show ?thesis by blast
qed

text \<open>Which handlers there are for a type.\<close>

definition reply_handlers :: "'k client_lib \<Rightarrow> ('k ssh_session \<Rightarrow> byte \<Rightarrow> int \<times> 'k ssh_session) set" where
  "reply_handlers lib =
     {ssh_packet_client_dh_reply lib, ssh_packet_client_dhgex_group lib, ssh_packet_client_dhgex_reply lib,
      ssh_packet_client_ecdh_reply lib, ssh_packet_client_curve25519_reply lib}"

lemma unat_less_3: "unat x < 3 \<Longrightarrow> unat x = 0 \<or> unat x = 1 \<or> unat x = 2" for x :: byte
  by arith

lemma default_table:
  assumes "t \<noteq> 0" and "unat t < 101"
  shows "default_packet_handlers lib cb ! unat (t - 1) = transport_handler lib cb t"
proof -
  have u: "unat (t - 1) = unat t - 1" using assms(1) by (rule unat_minus_one)
  have "1 \<le> unat t" using assms(1) by (simp add: Suc_le_eq unat_gt_0)
  with u have "1 + unat (t - 1) = unat t" by simp
  moreover have "unat (t - 1) < length [1..<101::nat]" using u assms(2) \<open>1 \<le> unat t\<close> by simp
  ultimately show ?thesis by (simp add: default_packet_handlers_def)
qed

lemma handler_cases:
  assumes "handler (client_env lib) a t = Some f"
  shows "transport_handler (client_lib_of lib) (ssh_client_connection_callback (client_lib_of lib)) t = Some f \<or>
    f \<in> reply_handlers (client_lib_of lib)"
proof -
  let ?L = "client_lib_of lib"
  have at: "table_at (client_env lib) = client_tables ?L" by (simp add: client_env_def)
  consider "a = default_packet_callbacks"
    | x where "client_tables ?L a = Some \<lparr>cb_start = 31, cb_table = x\<rparr>" "\<forall>g. Some g \<in> set x \<longrightarrow> g \<in> reply_handlers ?L"
    using assms by (auto simp: handler_def at client_tables_def Let_def reply_handlers_def split: if_splits)
  then show ?thesis
  proof cases
    case 1
    then have "client_tables ?L a = Some \<lparr>cb_start = 1, cb_table = default_packet_handlers ?L (ssh_client_connection_callback ?L)\<rparr>"
      by (simp add: client_tables_def)
    with assms have "t \<noteq> 0" "unat t < 101"
      "default_packet_handlers ?L (ssh_client_connection_callback ?L) ! unat (t - 1) = Some f"
      by (auto simp: handler_def at default_packet_handlers_def split: if_splits)
    with default_table show ?thesis by metis
  next
    case 2
    then have "31 \<le> t" "unat t < 31 + length x" "x ! unat (t - 31) = Some f"
      using assms by (auto simp: handler_def at split: if_splits)
    moreover have "unat (t - 31) = unat t - 31" using \<open>31 \<le> t\<close> by (simp add: unat_sub)
    moreover have "31 \<le> unat t" using \<open>31 \<le> t\<close> by (simp add: word_le_nat_alt)
    ultimately have "Some f \<in> set x" by (metis add_diff_inverse_nat nat_add_left_cancel_less not_less nth_mem)
    with 2 show ?thesis by blast
  qed
qed

lemma reply_used: "client s \<Longrightarrow> f \<in> reply_handlers (client_lib_of lib) \<Longrightarrow> used (session_state s) (f s t)"
  using replies_used [of s] by (auto simp: reply_handlers_def)

lemma unimplemented_one: "fst (ssh_packet_unimplemented env s b) = 1"
  by (simp add: ssh_packet_unimplemented_def split: option.split)

lemma transport_used:
  assumes "t \<in> {1, 2, 3, 4}" and "transport_handler lib cb t = Some f"
  shows "used (session_state s) (f s t)"
proof -
  have "t = 1 \<or> t = 2 \<or> t = 3 \<or> t = 4" using assms(1) by blast
  then show ?thesis
    using assms(2) unimplemented_one [of "penv lib" s "the (in_buffer s)"]
    by (elim disjE) (auto simp: transport_handler_def ssh_packet_disconnect_callback_def ssh_packet_ignore_callback_def
        unimplemented_handler_def ssh_packet_debug_callback_def took_def used_def split_def Let_def split: option.split)
qed

lemma allowed_types:
  assumes "ssh_packet_incoming_filter t s = SSH_PACKET_ALLOWED" and "client s" and "\<not> granted s"
  shows "t \<in> {1, 2, 3, 4, 20, 21, 31, 33, 63, 64, 65}"
proof -
  have "packet_spec t s = SSH_PACKET_ALLOWED" using assms(1) by (simp only: filter_is_spec)
  then have k: "t \<in> known_types" and r: "role_ok t s" and p: "phase_ok t (session_state s)"
    unfolding packet_spec_def by (metis packet_filter_result.distinct)+
  from k show ?thesis
    using r p assms(2,3) unfolding known_types_def granted_def
    by (elim insertE emptyE; hypsubst) (simp_all add: role_ok_def phase_ok_def)
qed

interpretation packets: unsent_view conn_view "client_env lib" snd for lib
proof unfold_locales
  show "conn_view (snd (send_rekex (client_env lib) s)) = conn_view s" if "snd (conn_view s)" for s
    using inner_kex.rekex_parts [of s lib] that by (simp add: client_env_def)
qed (use steps_conn in \<open>simp_all add: client_env_def\<close>)

definition packet_type :: "'k ssh_session \<Rightarrow> byte" where
  "packet_type s = ptype (in_packet (snd (ssh_packet_parse_type s)))"

text \<open>A client that sends no guess.\<close>

definition plain_client :: "'k ssh_session \<Rightarrow> bool" where
  "plain_client s \<longleftrightarrow> client s \<and> \<not> server s \<and> \<not> send_first_kex_follows (shake s)"

lemma taint_parts [simp]:
  "session_state (taint s) = session_state s" "client (taint s) = client s" "server (taint s) = server s" "shake (taint s) = shake s"
  by (simp_all add: taint_def)

lemma unimplemented_conn:
  "client s \<Longrightarrow> conn_view (snd (ssh_packet_send_unimplemented (client_env lib) s n)) = conn_view s"
  using packets.unimplemented_blind [of s lib n] by simp

lemma process_grants:
  assumes "ssh_packet_process (client_env lib) s t = Some u" and "plain_client s"
    and "ssh_packet_incoming_filter t s = SSH_PACKET_ALLOWED" and "\<not> granted s" and "granted u"
  shows "t = 21 \<and> session_state s = SSH_SESSION_STATE_DH \<and> dh_handshake_state s = DH_STATE_NEWKEYS_SENT \<and> host_verified lib s"
proof -
  let ?L = "client_lib_of lib" and ?cb = "ssh_client_connection_callback (client_lib_of lib)"
  have c: "client s" "\<not> server s" "\<not> send_first_kex_follows (shake s)" using assms(2) by (simp_all add: plain_client_def)
  have ty: "t \<in> {1, 2, 3, 4, 20, 21, 31, 33, 63, 64, 65}" using allowed_types [OF assms(3) c(1) assms(4)] .
  have one: "fst (f s t) = 1 \<and> (granted (snd (f s t)) \<longrightarrow> t = 21 \<and> f = ssh_packet_newkeys ?L ?cb)"
    if h: "handler (client_env lib) a t = Some f" for a f
  proof -
    consider "f \<in> reply_handlers ?L" | "transport_handler ?L ?cb t = Some f" using handler_cases [OF h] by blast
    then show ?thesis
    proof cases
      case 1
      with reply_used [OF c(1)] have "used (session_state s) (f s t)" by blast
      with assms(4) show ?thesis using granted_used unfolding used_def by blast
    next
      case 2
      then consider "t \<in> {1, 2, 3, 4}" | "f = ssh_packet_kexinit (kexlib ?L) ?cb" | "t = 21" "f = ssh_packet_newkeys ?L ?cb"
        using ty by (auto simp: transport_handler_def)
      then show ?thesis
      proof cases
        case 1
        with 2 transport_used have "used (session_state s) (f s t)" by blast
        with assms(4) show ?thesis using granted_used unfolding used_def by blast
      next
        case k: 2
        with kexinit_message [OF c] show ?thesis by blast
      next
        case 3
        then show ?thesis by (simp add: newkeys_returns)
      qed
    qed
  qed
  obtain l where l: "packet_callbacks s = Some l" using assms(1,4,5) by (cases "packet_callbacks s") (auto simp: ssh_packet_process_def)
  with assms(1) obtain rc v where pr: "process_from (client_env lib) t (case l of [] \<Rightarrow> None | x # _ \<Rightarrow> Some x) 2 s = Some (rc, v)"
    and u: "u = (if rc = 2 then let (r, s2) = ssh_packet_send_unimplemented (client_env lib) v (recv_seq v - 1)
                                in if current_crypto s2 = None then taint s2 else s2 else v)"
    by (auto simp: ssh_packet_process_def split: option.splits)
  from process_used [OF pr] one consider "rc = 2" "v = s"
    | a f where "handler (client_env lib) a t = Some f" "f s t = (rc, v)" by auto
  then show ?thesis
  proof cases
    case 1
    then have "conn_view u = conn_view s" using u unimplemented_conn [OF c(1), of lib "recv_seq s - 1"] by (simp add: split_def Let_def)
    with assms(4,5) show ?thesis by (simp add: granted_def)
  next
    case 2
    with one [OF 2(1)] have "rc = 1" by simp
    with u have "u = v" by simp
    with 2 one [OF 2(1)] assms(5) have "t = 21" "f = ssh_packet_newkeys ?L ?cb" "snd (f s t) = u" by auto
    with newkeys_grants [of lib ?cb s t] assms(4,5) c(2) show ?thesis by simp
  qed
qed

lemma host_verified_same:
  "host_verified lib t \<Longrightarrow> next_crypto t = next_crypto s \<Longrightarrow> shake t = shake s \<Longrightarrow> flags t = flags s \<Longrightarrow> host_verified lib s"
  by (simp add: host_verified_def next_kx_def)

lemma parse_parts:
  "session_state (snd (ssh_packet_parse_type s)) = session_state s" "dh_handshake_state (snd (ssh_packet_parse_type s)) = dh_handshake_state s"
  "client (snd (ssh_packet_parse_type s)) = client s" "server (snd (ssh_packet_parse_type s)) = server s"
  "shake (snd (ssh_packet_parse_type s)) = shake s" "next_crypto (snd (ssh_packet_parse_type s)) = next_crypto s"
  "flags (snd (ssh_packet_parse_type s)) = flags s"
  by (simp_all add: ssh_packet_parse_type_def split_def Let_def split: option.split)

lemma dispatch_grants:
  assumes "dispatch (client_env lib) p s = Some (d, u)" and "plain_client s" and "\<not> granted s" and "granted u"
  shows "packet_type s = 21 \<and> session_state s = SSH_SESSION_STATE_DH \<and> dh_handshake_state s = DH_STATE_NEWKEYS_SENT \<and>
    host_verified lib s"
proof -
  define s1 where "s1 = snd (ssh_packet_parse_type (s\<lparr>packet_state := PACKET_STATE_PROCESSING\<rparr>))"
  define t where "t = ptype (in_packet s1)"
  define s2 where "s2 = (if \<not> keyed p \<and> t \<noteq> 20 \<and> t \<noteq> 21 \<and> (t < 30 \<or> 34 < t) then taint s1 else s1)"
  have ty: "packet_type s = t"
    by (simp add: packet_type_def t_def s1_def ssh_packet_parse_type_def split_def Let_def split: option.split)
  have s2: "session_state s2 = session_state s" "client s2 = client s" "plain_client s2" "\<not> granted s2"
    "dh_handshake_state s2 = dh_handshake_state s"
    using assms(2,3) by (simp_all add: s2_def s1_def parse_parts plain_client_def granted_def taint_def)
  have d: "(case ssh_packet_incoming_filter t s2 of
           SSH_PACKET_ALLOWED \<Rightarrow> map_option (Pair False) (ssh_packet_process (client_env lib) s2 t)
         | SSH_PACKET_DENIED \<Rightarrow> Some (True, s2)
         | SSH_PACKET_UNKNOWN \<Rightarrow>
             let s3 = (if \<not> keyed p then taint s2 else s2)
             in Some (False, snd (ssh_packet_send_unimplemented (client_env lib) s3 (recv_seq s3 - 1)))) = Some (d, u)"
    using assms(1) unfolding dispatch_def Let_def s2_def t_def s1_def .
  have c: "client s2" using s2(3) by (simp add: plain_client_def)
  show ?thesis
  proof (cases "ssh_packet_incoming_filter t s2")
    case SSH_PACKET_ALLOWED
    with d have "ssh_packet_process (client_env lib) s2 t = Some u" by auto
    from process_grants [OF this s2(3) SSH_PACKET_ALLOWED s2(4) assms(4)]
    have g: "t = 21" "session_state s2 = SSH_SESSION_STATE_DH" "dh_handshake_state s2 = DH_STATE_NEWKEYS_SENT" "host_verified lib s2"
      by blast+
    then have "s2 = s1" by (simp add: s2_def)
    with g(4) have "host_verified lib s" by (intro host_verified_same [of lib s1 s]) (simp_all add: s1_def parse_parts)
    with g s2 ty show ?thesis by simp
  next
    case SSH_PACKET_DENIED
    with d s2(4) assms(4) show ?thesis by simp
  next
    case SSH_PACKET_UNKNOWN
    let ?s3 = "if \<not> keyed p then taint s2 else s2"
    have "conn_view u = conn_view ?s3" "conn_view ?s3 = conn_view s2"
      using d SSH_PACKET_UNKNOWN unimplemented_conn [of ?s3 lib "recv_seq ?s3 - 1"] c by (auto simp: Let_def)
    with s2(4) assms(4) show ?thesis by (simp add: granted_def)
  qed
qed

section \<open>The connection\<close>

text \<open>
  The steps of a client's connection: the callbacks of its socket, a packet whose bytes have been read
  and verified, and everything else the library does with the session (reading, sending, waiting,
  options), which may end it but does not touch its state otherwise.
\<close>

inductive client_step :: "'k client_lib \<Rightarrow> 'k ssh_session \<Rightarrow> 'k ssh_session \<Rightarrow> bool" for lib where
  connected: "plain_client s \<Longrightarrow>
    client_step lib s (socket_callback_connected (ssh_client_connection_callback (client_lib_of lib)) ok s)"
| exception: "plain_client s \<Longrightarrow>
    client_step lib s (ssh_socket_exception_callback (ssh_client_connection_callback (client_lib_of lib)) s)"
| banner: "plain_client s \<Longrightarrow>
    client_step lib s (snd (callback_receive_banner (client_lib_of lib) (ssh_client_connection_callback (client_lib_of lib)) dat s))"
| packet: "plain_client s \<Longrightarrow> dispatch (client_env lib) p s = Some (denied, t) \<Longrightarrow> client_step lib s t"
| other: "plain_client s \<Longrightarrow> session_state t \<in> {session_state s, SSH_SESSION_STATE_ERROR} \<Longrightarrow> client_step lib s t"

inductive_cases client_stepE: "client_step lib s t"

lemma connected_not_granted:
  "client s \<Longrightarrow> \<not> granted s \<Longrightarrow>
    \<not> granted (socket_callback_connected (ssh_client_connection_callback (client_lib_of lib)) ok s)"
  using callback_not_granted [of "s\<lparr>session_state := SSH_SESSION_STATE_SOCKET_CONNECTED\<rparr>" lib]
    callback_not_granted [of "fail_session s" lib]
  by (simp add: socket_callback_connected_def) (simp add: granted_def)

lemma step_grants:
  assumes "client_step lib s t" and "\<not> granted s" and "granted t"
  shows "\<exists>p d. dispatch (client_env lib) p s = Some (d, t) \<and> packet_type s = 21 \<and> session_state s = SSH_SESSION_STATE_DH \<and>
    dh_handshake_state s = DH_STATE_NEWKEYS_SENT \<and> host_verified lib s"
  using assms(1)
proof cases
  case (connected ok)
  then show ?thesis using assms(2,3) connected_not_granted by (auto simp: plain_client_def)
next
  case exception
  then show ?thesis
    using assms(3) by (simp add: ssh_socket_exception_callback_def ssh_client_connection_callback_def fail_session_def granted_def)
next
  case (banner dat)
  let ?b = "\<lambda>line. (with_shake (\<lambda>h. h\<lparr>serverbanner := Some (takeWhile (\<lambda>c. c \<noteq> 0) line)\<rparr>) s)
    \<lparr>session_state := SSH_SESSION_STATE_BANNER_RECEIVED\<rparr>"
  have "\<not> granted (ssh_client_connection_callback (client_lib_of lib) (?b line))" for line
    using banner(2) by (intro callback_not_granted) (simp_all add: plain_client_def granted_def with_shake_def)
  then show ?thesis
    using assms(2,3) banner(1) by (auto simp: callback_receive_banner_def split: if_splits banner_line.splits)
next
  case (packet p denied)
  with dispatch_grants [OF packet(2,1) assms(2,3)] show ?thesis by blast
next
  case other
  with assms(2,3) show ?thesis by (auto simp: granted_def)
qed

text \<open>
  C5: No client logs in to a server it has not verified. However a connection came from a state in
  which no login was possible to one in which it is, it passed a NEWKEYS packet, in the middle of a key
  exchange whose own NEWKEYS was sent, for which the server's key came with a signature of a wanted
  type that verifies over the hash of that exchange, and, under strict key exchange, with no foreign
  packet seen. The client sends no guess with its KEXINIT, as the option is off by default.
\<close>

theorem login_needs_verified_host:
  assumes "(client_step lib)\<^sup>*\<^sup>* s t" and "\<not> granted s" and "granted t"
  shows "\<exists>u v p d. (client_step lib)\<^sup>*\<^sup>* s u \<and> dispatch (client_env lib) p u = Some (d, v) \<and> packet_type u = 21 \<and>
    session_state u = SSH_SESSION_STATE_DH \<and> dh_handshake_state u = DH_STATE_NEWKEYS_SENT \<and> host_verified lib u \<and>
    (client_step lib)\<^sup>*\<^sup>* v t"
  using assms(1,3)
proof (induction rule: rtranclp_induct)
  case base
  with assms(2) show ?case by simp
next
  case (step y z)
  show ?case
  proof (cases "granted y")
    case True
    with step.IH step.hyps(2) show ?thesis by (metis rtranclp.rtrancl_into_rtrancl)
  next
    case False
    from step_grants [OF step.hyps(2) False step.prems] step.hyps(1) show ?thesis by blast
  qed
qed

section \<open>A run\<close>

text \<open>A client that waits for the server's NEWKEYS, and the packet.\<close>

definition demo_waiting_client :: "unit ssh_session" where
  "demo_waiting_client =
     (with_kx (\<lambda>x. x\<lparr>server_pubkey := Some [75], dh_server_signature := Some \<lparr>str_size = 1, str_data = [75, 0]\<rparr>, secret_hash := Some [1]\<rparr>)
       (demo_session None (Some (demo_crypto 2))))
       \<lparr>session_state := SSH_SESSION_STATE_DH, dh_handshake_state := DH_STATE_NEWKEYS_SENT, flags := 0, packet_callbacks := Some [0],
        in_buffer := Some (snd (ssh_buffer_add_u8 True 21 empty_buffer))\<rparr>"

lemma demo_plain: "plain_client demo_waiting_client" "\<not> granted demo_waiting_client"
  by (simp_all add: plain_client_def granted_def demo_waiting_client_def with_kx_def with_next_def demo_session_def new_handshake_def)

lemma demo_wired:
  "alloc_ok (kexlib (client_lib_of demo_client_lib))" "new_ok (penv (client_lib_of demo_client_lib))"
  "id_ok (penv (client_lib_of demo_client_lib))"
  by (simp_all add: client_lib_of_def with_keys_def tie_gex_def tie_keys_def tie_rekex_def demo_client_lib_def kex_lib.defs
      demo_lib_def demo_packet_env_def)

lemma demo_newkeys:
  "granted (snd (ssh_packet_newkeys (client_lib_of demo_client_lib) (ssh_client_connection_callback (client_lib_of demo_client_lib))
     (demo_waiting_client\<lparr>packet_state := ps, in_buffer := b, in_packet := pk\<rparr>) 21))"
proof -
  let ?L = "client_lib_of demo_client_lib" and ?s = "demo_waiting_client\<lparr>packet_state := ps, in_buffer := b, in_packet := pk\<rparr>"
  have v: "host_key_verified ?L ?s"
    by (simp add: host_key_verified_def demo_waiting_client_def next_kx_def with_kx_def with_next_def demo_session_def demo_client_lib_def
        kex_lib.defs demo_lib_def new_handshake_def str_view_def demo_crypto_def new_kex_crypto_def)
  have k: "fst (ssh_packet_set_newkeys (key_env.truncate (penv ?L)) (with_kx (\<lambda>x. x\<lparr>dh_server_signature := None\<rparr>) ?s) SSH_DIRECTION_IN) = SSH_OK"
    using demo_wired
    by (simp add: ssh_packet_set_newkeys_def demo_waiting_client_def with_kx_def with_next_def demo_session_def demo_crypto_def
        swap_keys_def key_env.defs crypto_new_def)
  have f: "session_state ?s = SSH_SESSION_STATE_DH" "dh_handshake_state ?s = DH_STATE_NEWKEYS_SENT" "flags ?s = 0" "\<not> server ?s"
    by (simp_all add: demo_waiting_client_def with_kx_def with_next_def demo_session_def)
  have st: "session_state (snd (ssh_packet_set_newkeys (key_env.truncate (penv ?L)) u d)) = session_state u" for u d
    using conn.set_newkeys_blind [of demo_client_lib u d] by simp
  show ?thesis
    using v k f
    by (simp add: ssh_packet_newkeys_def split_def Let_def ssh_client_connection_callback_def st on_dh_def) (simp add: granted_def)
qed

lemma demo_packet: "fst (ssh_buffer_get_u8 (snd (ssh_buffer_add_u8 True 21 empty_buffer))) = (1, 21)"
  by code_simp

lemma demo_dispatch: "\<exists>t. dispatch (client_env demo_client_lib) p demo_waiting_client = Some (False, t) \<and> granted t"
proof -
  let ?L = "client_lib_of demo_client_lib" and ?cb = "ssh_client_connection_callback (client_lib_of demo_client_lib)"
  let ?in = "snd (ssh_buffer_add_u8 True 21 empty_buffer)"
  define s1 where "s1 = demo_waiting_client\<lparr>packet_state := PACKET_STATE_PROCESSING, in_buffer := Some (snd (ssh_buffer_get_u8 ?in)),
    in_packet := \<lparr>valid = True, plen = 0, ptype = 21\<rparr>\<rparr>"
  have parse: "snd (ssh_packet_parse_type (demo_waiting_client\<lparr>packet_state := PACKET_STATE_PROCESSING\<rparr>)) = s1"
    using demo_packet by (simp add: ssh_packet_parse_type_def demo_waiting_client_def s1_def split_def Let_def)
  have t: "ptype (in_packet s1) = 21" by (simp add: s1_def)
  have ok: "ssh_packet_incoming_filter 21 s1 = SSH_PACKET_ALLOWED"
    by (simp add: ssh_packet_incoming_filter_def filter_kex_def s1_def demo_waiting_client_def)
  have at: "table_at (client_env demo_client_lib) default_packet_callbacks =
      Some \<lparr>cb_start = 1, cb_table = default_packet_handlers ?L ?cb\<rparr>"
    by (simp add: client_env_def client_tables_def)
  have "handler (client_env demo_client_lib) 0 21 = transport_handler ?L ?cb 21"
    using at default_table [of 21 ?L ?cb] by (simp add: handler_def default_packet_callbacks_def default_packet_handlers_def)
  then have h: "handler (client_env demo_client_lib) 0 21 = Some (ssh_packet_newkeys ?L ?cb)" by (simp add: transport_handler_def)
  define t where "t = snd (ssh_packet_newkeys ?L ?cb s1 21)"
  have nk: "ssh_packet_newkeys ?L ?cb s1 21 = (1, t)" unfolding t_def by (metis newkeys_returns prod.collapse)
  have "packet_callbacks s1 = Some [0]" by (simp add: s1_def demo_waiting_client_def)
  then have "ssh_packet_process (client_env demo_client_lib) s1 21 = Some t"
    by (simp add: ssh_packet_process_def process_from.simps h nk)
  then have "dispatch (client_env demo_client_lib) p demo_waiting_client = Some (False, t)"
    by (simp add: dispatch_def parse t ok Let_def)
  moreover have "granted t" using demo_newkeys unfolding t_def s1_def .
  ultimately show ?thesis by blast
qed

theorem login_needs_verified_host_witness:
  "\<exists>u. packet_type u = 21 \<and> session_state u = SSH_SESSION_STATE_DH \<and> host_verified demo_client_lib u \<and>
     (client_step demo_client_lib)\<^sup>*\<^sup>* demo_waiting_client u"
proof -
  obtain t where t: "dispatch (client_env demo_client_lib) (recv_params demo_waiting_client) demo_waiting_client = Some (False, t)" "granted t"
    using demo_dispatch by blast
  have "client_step demo_client_lib demo_waiting_client t" by (rule client_step.packet [OF demo_plain(1) t(1)])
  then have "(client_step demo_client_lib)\<^sup>*\<^sup>* demo_waiting_client t" by blast
  from login_needs_verified_host [OF this demo_plain(2) t(2)] show ?thesis by blast
qed

end
