(* ===== verification/Client_Banner.thy ===== *)
theory Client_Banner
  imports Kex_Client
begin

unbundle bit_operations_syntax

text \<open>The server's banner: what is taken for it, and what is read out of it.\<close>

section \<open>Lines\<close>

definition no_cr :: "byte list \<Rightarrow> byte list" where "no_cr = map (\<lambda>c. if c = 13 then 0 else c)"

lemma scan_line:
  "10 \<notin> set line \<Longrightarrow> i + length line \<le> 256 \<Longrightarrow>
    banner_scan i acc (line @ 10 # rest) = Line (i + length line) (acc @ no_cr line)"
  by (induction line arbitrary: i acc) (auto simp: no_cr_def)

lemma scan_partial:
  "10 \<notin> set line \<Longrightarrow> i + length line \<le> 256 \<Longrightarrow> banner_scan i acc line = No_line"
  by (induction line arbitrary: i acc) auto

lemma scan_long:
  "10 \<notin> set line \<Longrightarrow> i \<le> 256 \<Longrightarrow> 256 < i + length line \<Longrightarrow> banner_scan i acc line = Too_long"
  by (induction line arbitrary: i acc) auto

text \<open>Carriage returns that an earlier call overwrote in the buffer make no difference.\<close>

lemma no_cr_again: "no_cr (no_cr line) = no_cr line"
  by (simp add: no_cr_def)



section \<open>The version\<close>

text \<open>
  The version of an OpenSSH server may come from outside of its banner. After a major number of two
  digits the minor one is looked for eleven characters on; when the banner ends with the first number,
  that is behind its terminating null byte, and whatever number the memory holds there becomes part of
  the version that the session records.
\<close>

theorem version_read_past_banner:
  "openssh_version beyond (bytes_of ''SSH-2.0-OpenSSH_10'') =
     (let (minor, k, erange) = strtoul beyond in
      if k = 0 \<or> 100 < minor then None else Some (push_bit 16 10 OR push_bit 8 (int minor)))"
proof -
  have n: "bytes_of ''SSH-2.0-OpenSSH_10'' = [83, 83, 72, 45, 50, 46, 48, 45, 79, 112, 101, 110, 83, 83, 72, 95, 49, 48]"
    "bytes_of ''OpenSSH'' = [79, 112, 101, 110, 83, 83, 72]"
    by (simp_all add: bytes_of_def)
  have here: "strstr [79, 112, 101, 110, 83, 83, 72] [83, 83, 72, 45, 50, 46, 48, 45, 79, 112, 101, 110, 83, 83, 72, 95, 49, 48] =
      Some [79, 112, 101, 110, 83, 83, 72, 95, 49, 48]"
    by simp
  have major: "strtoul ([49, 48, 0] @ beyond) = (10, 2, False)"
    by (simp add: strtoul_def isspace_def isdigit_def ULONG_MAX_def)
  show ?thesis
    using major by (simp add: openssh_version_def n here ULONG_MAX_def split_def Let_def)
qed

end
