(* ===== verification/Login_Kbdint.thy ===== *)
theory Login_Kbdint
  imports Channel_Demo Ssh_Message
begin

unbundle bit_operations_syntax

text \<open>
  The questions of a keyboard-interactive login (\<open>auth.c\<close>): the structure that holds them, the
  message that brings them, and the user's access to them. None is an access outside of an array or
  through a null pointer. \<open>calloc\<close> of no bytes may give a null pointer; \<open>zero_block\<close> tells.
\<close>

section \<open>The structure\<close>

definition ssh_kbdint_new :: "bool \<Rightarrow> kbdint option" where
  "ssh_kbdint_new m =
     (if m then Some \<lparr>nprompts = 0, nanswers = 0, kbd_name = None, kbd_instruction = None, kbd_prompts = None,
                     kbd_echo = None, kbd_answers = None\<rparr>
      else None)"

text \<open>The loops that erase and free the strings of an array; \<open>checked\<close>: null pointers are skipped.\<close>

fun free_strings :: "bool \<Rightarrow> nat \<Rightarrow> byte list option list \<Rightarrow> unit option" where
  "free_strings checked 0 l = Some ()"
| "free_strings checked (Suc n) [] = None"
| "free_strings checked (Suc n) (x # l) = (if x = None \<and> \<not> checked then None else free_strings checked n l)"

definition free_array :: "bool \<Rightarrow> u32 \<Rightarrow> byte list option list option \<Rightarrow> unit option" where
  "free_array checked n a = (case a of None \<Rightarrow> Some () | Some l \<Rightarrow> free_strings checked (unat n) l)"

definition ssh_kbdint_free :: "kbdint \<Rightarrow> unit option" where
  "ssh_kbdint_free k =
     Option.bind (free_array True (nprompts k) (kbd_prompts k)) (\<lambda>_. free_array True (nanswers k) (kbd_answers k))"

definition ssh_kbdint_clean :: "kbdint \<Rightarrow> kbdint option" where
  "ssh_kbdint_clean k =
     Option.bind (free_array False (nprompts k) (kbd_prompts k)) (\<lambda>_.
     Option.bind (free_array False (nanswers k) (kbd_answers k)) (\<lambda>_.
       Some (k\<lparr>nprompts := 0, nanswers := 0, kbd_name := None, kbd_instruction := None, kbd_prompts := None, kbd_echo := None,
               kbd_answers := None\<rparr>)))"

definition calloc_array :: "bool \<Rightarrow> bool \<Rightarrow> u32 \<Rightarrow> 'a \<Rightarrow> 'a list option" where
  "calloc_array m zero_block n z = (if m \<and> (n \<noteq> 0 \<or> zero_block) then Some (replicate (unat n) z) else None)"

section \<open>The message\<close>

definition KBDINT_MAX_PROMPT :: u32 where "KBDINT_MAX_PROMPT = 256"

definition set_login :: "(login \<Rightarrow> login) \<Rightarrow> 'k conn \<Rightarrow> 'k conn" where
  "set_login f c = c\<lparr>login := f (login c)\<rparr>"

definition set_packet :: "ssh_buffer \<Rightarrow> 'k conn \<Rightarrow> 'k conn" where
  "set_packet b c = with_sess (\<lambda>s. s\<lparr>in_buffer := Some b\<rparr>) c"

definition set_auth_state :: "auth_state \<Rightarrow> 'k conn \<Rightarrow> 'k conn" where
  "set_auth_state x c = with_sess (\<lambda>s. s\<lparr>auth_state := x\<rparr>) c"

text \<open>The questions, of which \<open>n\<close> are left, are read behind those that were.\<close>

fun read_prompts :: "bool \<Rightarrow> nat \<Rightarrow> ssh_buffer \<Rightarrow> (byte list \<times> byte) list option \<times> ssh_buffer" where
  "read_prompts m 0 b = (Some [], b)"
| "read_prompts m (Suc n) b =
     (case ssh_buffer_unpack m (\<lambda>_. True) ''sb'' 2 [UA_ptr, UA_ptr, UA_end] b of
        Some (rc, [I_cstring p, I_byte e], b1) \<Rightarrow>
          let (l, b2) = read_prompts m n b1 in (map_option (Cons (p, e)) l, b2)
      | Some (rc, _, b1) \<Rightarrow> (None, b1)
      | None \<Rightarrow> (None, b))"

text \<open>What is done when the message is bad: the structure is freed.\<close>

definition drop_kbdint :: "kbdint \<Rightarrow> 'k conn \<Rightarrow> (int \<times> 'k conn) option" where
  "drop_kbdint k c = Option.bind (ssh_kbdint_free k) (\<lambda>_. Some (1, set_login (\<lambda>l. l\<lparr>kbdint := None\<rparr>) c))"

text \<open>From the number of questions on; \<open>k\<close> has the name and the instruction.\<close>

definition take_prompts :: "bool \<Rightarrow> bool \<Rightarrow> u32 \<Rightarrow> kbdint \<Rightarrow> 'k conn \<Rightarrow> (int \<times> 'k conn) option" where
  "take_prompts m zero_block n k c =
     (if KBDINT_MAX_PROMPT < n then drop_kbdint k c
      else
        let k1 = k\<lparr>nprompts := n, nanswers := n\<rparr> in
        case calloc_array m zero_block n None of
          None \<Rightarrow> drop_kbdint (k1\<lparr>nprompts := 0\<rparr>) c
        | Some ps \<Rightarrow>
            (case calloc_array m zero_block n (0 :: byte) of
               None \<Rightarrow> drop_kbdint (k1\<lparr>nprompts := 0, kbd_prompts := Some ps\<rparr>) c
             | Some es \<Rightarrow>
                 let (l, b) = read_prompts m (unat n) (the (in_buffer (sess c))); c1 = set_packet b c in
                 (case l of
                    None \<Rightarrow> drop_kbdint (k1\<lparr>kbd_prompts := Some ps, kbd_echo := Some es\<rparr>) c1
                  | Some xs \<Rightarrow>
                      Some (1, set_auth_state SSH_AUTH_STATE_INFO
                                 (set_login (\<lambda>l. l\<lparr>kbdint := Some (k1\<lparr>kbd_prompts := Some (map (Some \<circ> fst) xs),
                                                                  kbd_echo := Some (map snd xs)\<rparr>)\<rparr>) c1)))))"

definition ssh_packet_userauth_info_request :: "bool \<Rightarrow> bool \<Rightarrow> 'k conn \<Rightarrow> (int \<times> 'k conn) option" where
  "ssh_packet_userauth_info_request m zero_block c =
     (case (case kbdint (login c) of None \<Rightarrow> Some (ssh_kbdint_new m) | Some k \<Rightarrow> map_option Some (ssh_kbdint_clean k)) of
        None \<Rightarrow> None
      | Some None \<Rightarrow> Some (1, c)
      | Some (Some k) \<Rightarrow>
          (case ssh_buffer_unpack m (\<lambda>_. True) ''ssSd'' 4 [UA_ptr, UA_ptr, UA_ptr, UA_ptr, UA_end] (the (in_buffer (sess c))) of
             Some (rc, [I_cstring name, I_cstring ins, I_string tmp, I_dword n], b) \<Rightarrow>
               take_prompts m zero_block n (k\<lparr>kbd_name := Some name, kbd_instruction := Some ins\<rparr>) (set_packet b c)
           | Some (rc, _, b) \<Rightarrow> drop_kbdint k (set_packet b c)
           | None \<Rightarrow> drop_kbdint k c))"

section \<open>The user's access\<close>

definition ssh_userauth_kbdint_getnprompts :: "'k conn \<Rightarrow> int" where
  "ssh_userauth_kbdint_getnprompts c = (case kbdint (login c) of None \<Rightarrow> SSH_ERROR | Some k \<Rightarrow> sint (nprompts k))"

definition ssh_userauth_kbdint_getname :: "'k conn \<Rightarrow> byte list option" where
  "ssh_userauth_kbdint_getname c = Option.bind (kbdint (login c)) kbd_name"

definition ssh_userauth_kbdint_getinstruction :: "'k conn \<Rightarrow> byte list option" where
  "ssh_userauth_kbdint_getinstruction c = Option.bind (kbdint (login c)) kbd_instruction"

text \<open>Element \<open>i\<close> of an array that may be null.\<close>

definition elem_at :: "'a list option \<Rightarrow> nat \<Rightarrow> 'a option" where
  "elem_at a i = (case a of None \<Rightarrow> None | Some l \<Rightarrow> if i < length l then Some (l ! i) else None)"

text \<open>The prompt, and the echo flag when it is asked for.\<close>

definition ssh_userauth_kbdint_getprompt :: "'k conn \<Rightarrow> u32 \<Rightarrow> bool \<Rightarrow> (byte list option \<times> byte option) option" where
  "ssh_userauth_kbdint_getprompt c i echo =
     (case kbdint (login c) of
        None \<Rightarrow> Some (None, None)
      | Some k \<Rightarrow>
          if nprompts k < i then Some (None, None)
          else if echo then
            Option.bind (elem_at (kbd_echo k) (unat i)) (\<lambda>e.
              Option.bind (elem_at (kbd_prompts k) (unat i)) (\<lambda>p. Some (p, Some e)))
          else Option.bind (elem_at (kbd_prompts k) (unat i)) (\<lambda>p. Some (p, None)))"

definition ssh_userauth_kbdint_getnanswers :: "'k conn \<Rightarrow> int" where
  "ssh_userauth_kbdint_getnanswers c = (case kbdint (login c) of None \<Rightarrow> SSH_ERROR | Some k \<Rightarrow> sint (nanswers k))"

definition ssh_userauth_kbdint_getanswer :: "'k conn \<Rightarrow> u32 \<Rightarrow> byte list option option" where
  "ssh_userauth_kbdint_getanswer c i =
     (case kbdint (login c) of
        None \<Rightarrow> Some None
      | Some k \<Rightarrow>
          if kbd_answers k = None then Some None
          else if nanswers k \<le> i then Some None
          else elem_at (kbd_answers k) (unat i))"

definition ssh_userauth_kbdint_setanswer :: "bool \<Rightarrow> 'k conn \<Rightarrow> u32 \<Rightarrow> byte list option \<Rightarrow> (int \<times> 'k conn) option" where
  "ssh_userauth_kbdint_setanswer m c i answer =
     (case (answer, kbdint (login c)) of
        (Some a, Some k) \<Rightarrow>
          if nprompts k \<le> i then Some (-1, c)
          else
            (case (case kbd_answers k of None \<Rightarrow> if m then Some (replicate (unat (nprompts k)) None) else None | Some l \<Rightarrow> Some l) of
               None \<Rightarrow> Some (-1, c)
             | Some l \<Rightarrow>
                 if length l \<le> unat i then None
                 else
                   let x = (if m then Some a else None);
                       c1 = set_login (\<lambda>g. g\<lparr>kbdint := Some (k\<lparr>kbd_answers := Some (l[unat i := x])\<rparr>)\<rparr>) c
                   in Some (if x = None then -1 else 0, c1))
      | _ \<Rightarrow> Some (-1, c))"

section \<open>Memory safety\<close>

text \<open>What holds of the questions a session has: the arrays have as many elements as are counted.\<close>

definition kbd_ok :: "kbdint \<Rightarrow> bool" where
  "kbd_ok k \<longleftrightarrow>
     nanswers k = nprompts k \<and> nprompts k \<le> KBDINT_MAX_PROMPT \<and>
     (\<exists>ps es. kbd_prompts k = Some (map Some ps) \<and> kbd_echo k = Some es \<and>
        length ps = unat (nprompts k) \<and> length es = unat (nprompts k)) \<and>
     (case kbd_answers k of None \<Rightarrow> True | Some l \<Rightarrow> length l = unat (nprompts k))"

definition questions_ok :: "'k conn \<Rightarrow> bool" where
  "questions_ok c \<longleftrightarrow> (case kbdint (login c) of None \<Rightarrow> True | Some k \<Rightarrow> kbd_ok k)"

lemma free_strings_ok: "n \<le> length l \<Longrightarrow> checked \<or> (\<forall>x\<in>set l. x \<noteq> None) \<Longrightarrow> free_strings checked n l = Some ()"
  by (induction checked n l rule: free_strings.induct) auto

lemma free_ok: "kbd_ok k \<Longrightarrow> ssh_kbdint_free k = Some ()"
  by (auto simp: kbd_ok_def ssh_kbdint_free_def free_array_def free_strings_ok split: option.splits)

lemma clean_ok:
  assumes "kbd_ok k" and "\<forall>l. kbd_answers k = Some l \<longrightarrow> None \<notin> set l"
  shows "ssh_kbdint_clean k = Some (the (ssh_kbdint_new True))"
proof -
  obtain ps where ps: "kbd_prompts k = Some (map Some ps)" "length ps = unat (nprompts k)" using assms(1) by (auto simp: kbd_ok_def)
  have p: "free_array False (nprompts k) (kbd_prompts k) = Some ()"
    using ps by (simp add: free_array_def free_strings_ok)
  have a: "free_array False (nanswers k) (kbd_answers k) = Some ()"
  proof (cases "kbd_answers k")
    case (Some l)
    have "length l = unat (nanswers k)" using assms(1) Some by (auto simp: kbd_ok_def)
    moreover have "\<forall>x\<in>set l. x \<noteq> None"
    proof (intro ballI notI)
      fix x
      assume "x \<in> set l" "x = None"
      then show False using assms(2) Some by simp
    qed
    ultimately show ?thesis using Some by (simp add: free_array_def free_strings_ok)
  qed (simp add: free_array_def)
  show ?thesis unfolding ssh_kbdint_clean_def ssh_kbdint_new_def p a by simp
qed

lemma read_prompts_length: "read_prompts m n b = (Some xs, b') \<Longrightarrow> length xs = n"
proof (induction n arbitrary: b xs b')
  case (Suc n)
  obtain p e b1 l where r: "fst (read_prompts m n b1) = Some l" and x: "xs = (p, e) # l"
    using Suc.prems by (auto simp: Let_def split_def split: option.splits list.splits item.splits prod.splits)
  show ?case using Suc.IH [of b1 l "snd (read_prompts m n b1)"] r x by (simp add: prod_eq_iff)
qed simp


lemma conn_simps [simp]:
  "login (with_sess f c) = login c" "sess (set_login g c) = sess c" "login (set_login g c) = g (login c)"
  "login (set_packet b c) = login c" "login (set_auth_state x c) = login c"
  "in_buffer (sess (set_packet b c)) = Some b" "auth_state (sess (set_auth_state x c)) = x"
  "auth_state (sess (set_packet b c)) = auth_state (sess c)"
  by (simp_all add: with_sess_def set_login_def set_packet_def set_auth_state_def)

lemma drop_ok:
  assumes "free_array True (nprompts k) (kbd_prompts k) = Some ()" and "free_array True (nanswers k) (kbd_answers k) = Some ()"
  shows "\<exists>c'. drop_kbdint k c = Some (1, c') \<and> questions_ok c' \<and> kbdint (login c') = None \<and> auth_state (sess c') = auth_state (sess c)"
  using assms by (simp add: drop_kbdint_def ssh_kbdint_free_def questions_ok_def)

lemma take_prompts_ok:
  assumes "kbd_prompts k = None" and "kbd_answers k = None"
  shows "\<exists>c'. take_prompts m z n k c = Some (1, c') \<and> questions_ok c' \<and>
    (kbdint (login c') = None \<and> auth_state (sess c') = auth_state (sess c) \<or> auth_state (sess c') = SSH_AUTH_STATE_INFO)"
proof -
  have drop: "\<exists>c'. drop_kbdint k1 c1 = Some (1, c') \<and> questions_ok c' \<and>
      (kbdint (login c') = None \<and> auth_state (sess c') = auth_state (sess c) \<or> auth_state (sess c') = SSH_AUTH_STATE_INFO)"
    if "kbd_prompts k1 = None \<or> (\<exists>l. kbd_prompts k1 = Some l \<and> unat (nprompts k1) \<le> length l)" "kbd_answers k1 = None"
      "auth_state (sess c1) = auth_state (sess c)"
    for k1 and c1 :: "'a conn"
  proof -
    have "free_array True (nprompts k1) (kbd_prompts k1) = Some ()" "free_array True (nanswers k1) (kbd_answers k1) = Some ()"
      using that by (auto simp: free_array_def free_strings_ok)
    from drop_ok [OF this, of c1] show ?thesis using that(3) by metis
  qed
  show ?thesis
  proof (cases "KBDINT_MAX_PROMPT < n")
    case True
    then show ?thesis using drop [of k c] assms by (simp add: take_prompts_def)
  next
    case False
    define k1 where "k1 = k\<lparr>nprompts := n, nanswers := n\<rparr>"
    show ?thesis
    proof (cases "calloc_array m z n (None :: byte list option)")
      case None
      then show ?thesis using drop [of "k1\<lparr>nprompts := 0\<rparr>" c] assms False by (simp add: take_prompts_def k1_def)
    next
      case (Some ps)
      then have m: "m \<and> (n \<noteq> 0 \<or> z)" and ps: "ps = replicate (unat n) None" by (auto simp: calloc_array_def split: if_splits)
      then have es: "calloc_array m z n (0 :: byte) = Some (replicate (unat n) 0)" by (simp add: calloc_array_def)
      obtain l b where r: "read_prompts m (unat n) (the (in_buffer (sess c))) = (l, b)" by fastforce
      show ?thesis
      proof (cases l)
        case None
        then show ?thesis
          using drop [of "k1\<lparr>kbd_prompts := Some ps, kbd_echo := Some (replicate (unat n) 0)\<rparr>" "set_packet b c"] assms False Some es r ps
          by (simp add: take_prompts_def k1_def)
      next
        case l: (Some xs)
        have "length xs = unat n" using read_prompts_length r l by blast
        then have "kbd_ok (k1\<lparr>kbd_prompts := Some (map (Some \<circ> fst) xs), kbd_echo := Some (map snd xs)\<rparr>)"
          using False assms by (auto simp: kbd_ok_def k1_def intro!: exI [of _ "map fst xs"])
        then show ?thesis using False Some es r l by (simp add: take_prompts_def k1_def questions_ok_def)
      qed
    qed
  qed
qed

text \<open>
  C8: A question from the server is memory safe, whatever bytes its message has. When the arrays of the
  questions before have the sizes they claim, and those that have an array of answers are all answered,
  the handler returns; afterwards either no questions are left and the state of the login is as it was,
  or it is that questions wait, and the arrays have the sizes they claim.
\<close>

theorem info_request_safe:
  assumes "questions_ok c" and "\<forall>k l. kbdint (login c) = Some k \<longrightarrow> kbd_answers k = Some l \<longrightarrow> None \<notin> set l"
  shows "\<exists>c'. ssh_packet_userauth_info_request m zero_block c = Some (1, c') \<and> questions_ok c' \<and>
    (kbdint (login c') = None \<and> auth_state (sess c') = auth_state (sess c) \<or> auth_state (sess c') = SSH_AUTH_STATE_INFO)"
proof -
  let ?new = "the (ssh_kbdint_new True)"
  let ?start = "case kbdint (login c) of None \<Rightarrow> Some (ssh_kbdint_new m) | Some k \<Rightarrow> map_option Some (ssh_kbdint_clean k)"
  let ?u = "ssh_buffer_unpack m (\<lambda>_. True) ''ssSd'' 4 [UA_ptr, UA_ptr, UA_ptr, UA_ptr, UA_end] (the (in_buffer (sess c)))"
  have drop: "\<exists>c'. drop_kbdint ?new c1 = Some (1, c') \<and> questions_ok c' \<and>
      (kbdint (login c') = None \<and> auth_state (sess c') = auth_state (sess c1) \<or> auth_state (sess c') = SSH_AUTH_STATE_INFO)"
    for c1 :: "'a conn"
    using drop_ok [of ?new c1] by (auto simp: ssh_kbdint_new_def free_array_def)
  have take: "\<exists>c'. take_prompts m zero_block n (?new\<lparr>kbd_name := a, kbd_instruction := i\<rparr>) c1 = Some (1, c') \<and> questions_ok c' \<and>
      (kbdint (login c') = None \<and> auth_state (sess c') = auth_state (sess c1) \<or> auth_state (sess c') = SSH_AUTH_STATE_INFO)"
    for n a i and c1 :: "'a conn"
    by (rule take_prompts_ok) (simp_all add: ssh_kbdint_new_def)
  have "?start = Some None \<and> kbdint (login c) = None \<or> ?start = Some (Some ?new)"
  proof (cases "kbdint (login c)")
    case (Some k)
    then have "ssh_kbdint_clean k = Some ?new" using assms by (intro clean_ok) (auto simp: questions_ok_def)
    with Some show ?thesis by simp
  qed (simp add: ssh_kbdint_new_def)
  then show ?thesis
  proof
    assume s: "?start = Some None \<and> kbdint (login c) = None"
    then have "kbdint (login c) = None" by (rule conjunct2)
    with conjunct1 [OF s] have "ssh_kbdint_new m = None" by simp
    then show ?thesis using s assms(1) by (simp add: ssh_packet_userauth_info_request_def)
  next
    assume s: "?start = Some (Some ?new)"
    consider (none) "?u = None" | (full) rc name ins tmp n b where "?u = Some (rc, [I_cstring name, I_cstring ins, I_string tmp, I_dword n], b)"
      | (bad) rc items b where "?u = Some (rc, items, b)" "\<nexists>name ins tmp n. items = [I_cstring name, I_cstring ins, I_string tmp, I_dword n]"
      by (cases ?u) (metis prod_cases3)+
    then show ?thesis
    proof cases
      case none
      then show ?thesis using drop [of c] by (simp add: ssh_packet_userauth_info_request_def s)
    next
      case full
      then show ?thesis using take [of n "Some ins" "Some name" "set_packet b c"] by (simp add: ssh_packet_userauth_info_request_def s)
    next
      case bad
      then have "ssh_packet_userauth_info_request m zero_block c = drop_kbdint ?new (set_packet b c)"
        by (auto simp: ssh_packet_userauth_info_request_def s split: list.splits item.splits)
      then show ?thesis using drop [of "set_packet b c"] by simp
    qed
  qed
qed

text \<open>
  C9: The user's access to the questions stays inside of the arrays, with one exception. Answers can be
  set and read at every index, and reading gives what was set last; a prompt can be read at every index
  but one: the first behind the last prompt passes the check of \<open>ssh_userauth_kbdint_getprompt\<close> and is
  read from outside of the array.
\<close>

theorem kbdint_access:
  assumes "questions_ok c" and "kbdint (login c) = Some k"
  shows "(ssh_userauth_kbdint_getprompt c i echo = None) = (i = nprompts k) \<and>
    ssh_userauth_kbdint_getanswer c i \<noteq> None \<and>
    (\<exists>rc c'. ssh_userauth_kbdint_setanswer m c i answer = Some (rc, c') \<and> questions_ok c' \<and>
      (rc = 0 \<longrightarrow> i < nprompts k \<and> ssh_userauth_kbdint_getanswer c' i = Some answer \<and>
        (\<forall>j. j \<noteq> i \<longrightarrow> ssh_userauth_kbdint_getanswer c' j = ssh_userauth_kbdint_getanswer c j)))"
proof -
  have ok: "kbd_ok k" using assms by (simp add: questions_ok_def)
  obtain ps es where ps: "kbd_prompts k = Some (map Some ps)" "kbd_echo k = Some es" "length ps = unat (nprompts k)" "length es = unat (nprompts k)"
    using ok by (auto simp: kbd_ok_def)
  have n: "nanswers k = nprompts k" using ok by (simp add: kbd_ok_def)
  have len: "length l = unat (nprompts k)" if "kbd_answers k = Some l" for l using ok that by (simp add: kbd_ok_def)
  have lt: "unat i < unat (nprompts k) \<longleftrightarrow> i < nprompts k" "unat (nprompts k) \<le> unat i \<longleftrightarrow> nprompts k \<le> i" for i
    by (simp_all add: word_less_nat_alt word_le_nat_alt)
  have prompt: "(ssh_userauth_kbdint_getprompt c i echo = None) = (i = nprompts k)"
    using assms(2) ps by (auto simp: ssh_userauth_kbdint_getprompt_def elem_at_def lt)
  have answer: "ssh_userauth_kbdint_getanswer c i \<noteq> None"
    using assms(2) n len by (auto simp: ssh_userauth_kbdint_getanswer_def elem_at_def lt)
  define l where "l = (case kbd_answers k of None \<Rightarrow> replicate (unat (nprompts k)) None | Some l \<Rightarrow> l)"
  have l: "length l = unat (nprompts k)" using len by (simp add: l_def split: option.split)
  have set: "ssh_userauth_kbdint_setanswer m c i answer =
      (if answer = None \<or> nprompts k \<le> i \<or> kbd_answers k = None \<and> \<not> m then Some (-1, c)
       else let x = (if m then answer else None) in
         Some (if x = None then -1 else 0, set_login (\<lambda>g. g\<lparr>kbdint := Some (k\<lparr>kbd_answers := Some (l[unat i := x])\<rparr>)\<rparr>) c))"
    using assms(2) l by (auto simp: ssh_userauth_kbdint_setanswer_def l_def Let_def not_le lt split: option.splits)
  have ok': "questions_ok (set_login (\<lambda>g. g\<lparr>kbdint := Some (k\<lparr>kbd_answers := Some (l[unat i := x])\<rparr>)\<rparr>) c)" for x
    using ok l by (simp add: questions_ok_def kbd_ok_def)
  have same: "(if unat j < length l then Some (l ! unat j) else None) = (if kbd_answers k = None then Some None else elem_at (kbd_answers k) (unat j))"
    if "j < nprompts k" for j
    using that l by (auto simp: l_def elem_at_def lt split: option.split)
  have get: "ssh_userauth_kbdint_getanswer (set_login (\<lambda>g. g\<lparr>kbdint := Some (k\<lparr>kbd_answers := Some (l[unat i := x])\<rparr>)\<rparr>) c) j =
      (if j = i then Some x else ssh_userauth_kbdint_getanswer c j)" if "i < nprompts k" for x j
  proof (cases "j < nprompts k")
    case True
    have "i = j" if "unat i = unat j" using that by (simp add: word_unat_eq_iff)
    then have "j = i \<or> unat i \<noteq> unat j \<and> j \<noteq> i" by blast
    then show ?thesis
    proof
      assume "j = i"
      then show ?thesis using True assms(2) n l by (auto simp: ssh_userauth_kbdint_getanswer_def elem_at_def lt simp flip: not_less)
    next
      assume "unat i \<noteq> unat j \<and> j \<noteq> i"
      then show ?thesis using True assms(2) n l same [OF True]
        by (auto simp: ssh_userauth_kbdint_getanswer_def elem_at_def lt simp flip: not_less)
    qed
  next
    case False
    then show ?thesis using that assms(2) n by (auto simp: ssh_userauth_kbdint_getanswer_def)
  qed
  show ?thesis
    using prompt answer assms(1) ok' get by (auto simp: set Let_def not_le)
qed

section \<open>The message read\<close>

lemma unpack_fields:
  assumes "buffer_ok b" and "\<forall>f\<in>set fs. field_ok f" and "contents b = message fs @ rest" and "fs \<noteq> []"
    and "arg_count fs \<le> 256" and "length (message fs) < 16384" and "\<forall>d. F_data d \<notin> set fs"
  shows "\<exists>b'. ssh_buffer_unpack True bn (map field_fmt fs) (arg_count fs) (concat (map field_ua fs) @ [UA_end]) b =
    Some (SSH_OK, map field_item fs, b') \<and> buffer_ok b' \<and> contents b' = rest"
proof -
  let ?max = "ssh_buffer_get_len b"
  have max: "length (message fs) \<le> unat ?max"
    using length_contents [OF assms(1)] assms(1,3)
    by (simp add: ssh_buffer_get_len_def unat_sub word_le_nat_alt buffer_ok_def)
  have "length d < length (message fs)" if "F_cstring d \<in> set fs" for d
  proof -
    have "length (field_enc (F_cstring d)) \<le> length (message fs)" using that by (rule field_enc_le)
    then show ?thesis by (simp del: be_bytes.simps)
  qed
  then have small: "\<forall>f\<in>set fs. \<forall>d. f = F_cstring d \<or> f = F_data d \<longrightarrow> length d < unat ?max"
    using max assms(7) by (auto intro: less_le_trans)
  obtain b2 where "unpack_loop True bn ?max (map field_fmt fs) (arg_count fs) 0 SSH_ERROR
      (concat (map field_ua fs) @ [UA_end]) [] b = Some (SSH_OK, arg_count fs, [UA_end], map field_item fs, b2)"
      "buffer_ok b2" "contents b2 = rest"
    using unpack_loop_ok [OF assms(1,2,3), of 0 "arg_count fs" ?max bn SSH_ERROR "[UA_end]" "[]"] assms(4,6) small by auto
  then show ?thesis using assms(5) by (simp add: ssh_buffer_unpack_def ssh_buffer_unpack_va_def)
qed

text \<open>The fields of a message with questions.\<close>

definition prompt_fields :: "byte list \<times> byte \<Rightarrow> field list" where
  "prompt_fields q = [F_cstring (fst q), F_byte (snd q)]"

definition question_fields :: "byte list \<Rightarrow> byte list \<Rightarrow> ssh_string \<Rightarrow> (byte list \<times> byte) list \<Rightarrow> field list" where
  "question_fields name ins tag qs = [F_cstring name, F_cstring ins, F_string tag, F_dword (of_nat (length qs))]"

lemma prompt_parts:
  "map field_fmt (prompt_fields q) = ''sb''" "arg_count (prompt_fields q) = 2"
  "concat (map field_ua (prompt_fields q)) @ [UA_end] = [UA_ptr, UA_ptr, UA_end]" "(prompt_fields q \<noteq> []) = True"
  "map field_item (prompt_fields q) = [I_cstring (fst q), I_byte (snd q)]" "(\<forall>f\<in>set (prompt_fields q). field_ok f) = True"
  "(\<forall>d. F_data d \<notin> set (prompt_fields q)) = True"
  by (simp_all add: prompt_fields_def)

lemma question_parts:
  "map field_fmt (question_fields name ins tag qs) = ''ssSd''" "arg_count (question_fields name ins tag qs) = 4"
  "concat (map field_ua (question_fields name ins tag qs)) @ [UA_end] = [UA_ptr, UA_ptr, UA_ptr, UA_ptr, UA_end]"
  "(question_fields name ins tag qs \<noteq> []) = True" "(\<forall>d. F_data d \<notin> set (question_fields name ins tag qs)) = True"
  "map field_item (question_fields name ins tag qs) =
     [I_cstring name, I_cstring ins, I_string (tag\<lparr>str_data := str_view tag @ [0]\<rparr>), I_dword (of_nat (length qs))]"
  "(\<forall>f\<in>set (question_fields name ins tag qs). field_ok f) = string_ok tag"
  by (simp_all add: question_fields_def)

lemma message_append: "message (fs @ gs) = message fs @ message gs"
  by (simp add: message_def)

lemma read_prompts_ok:
  assumes "buffer_ok b" and "contents b = message (concat (map prompt_fields qs)) @ rest"
    and "length (message (concat (map prompt_fields qs))) < 16384"
  shows "\<exists>b'. read_prompts True (length qs) b = (Some qs, b') \<and> buffer_ok b' \<and> contents b' = rest"
  using assms
proof (induction qs arbitrary: b)
  case (Cons q qs)
  let ?more = "message (concat (map prompt_fields qs)) @ rest"
  have "contents b = message (prompt_fields q) @ ?more" "length (message (prompt_fields q)) < 16384"
    "length (message (concat (map prompt_fields qs))) < 16384"
    using Cons.prems(2,3) by (simp_all only: list.map concat.simps message_append append_assoc length_append)
  moreover obtain b1 where u: "ssh_buffer_unpack True (\<lambda>_. True) ''sb'' 2 [UA_ptr, UA_ptr, UA_end] b =
      Some (SSH_OK, [I_cstring (fst q), I_byte (snd q)], b1)" "buffer_ok b1" "contents b1 = ?more"
    using unpack_fields [of b "prompt_fields q" ?more "\<lambda>_. True"] calculation Cons.prems(1) unfolding prompt_parts by auto
  moreover obtain b2 where "read_prompts True (length qs) b1 = (Some qs, b2)" "buffer_ok b2" "contents b2 = rest"
    using Cons.IH [of b1] u calculation(3) by blast
  ultimately show ?case by simp
qed simp

text \<open>
  C10: What a server asks is what the user is asked. When a message holds a name, an instruction, a
  language tag and at most 256 prompts with their echo flags, and memory lasts, the login waits for
  answers, and the user reads the name, the instruction and every prompt with its flag. Only a message
  without a prompt may be lost, when no memory is given for an array of no elements.
\<close>

theorem questions_read:
  assumes "kbdint (login c) = None" and "in_buffer (sess c) = Some b" and "buffer_ok b" and "string_ok tag"
    and "contents b = message (question_fields name ins tag qs) @ message (concat (map prompt_fields qs))"
    and "length (message (question_fields name ins tag qs)) < 16384" and "length (message (concat (map prompt_fields qs))) < 16384"
    and "length qs \<le> 256" and "qs \<noteq> [] \<or> zero_block"
  shows "\<exists>c'. ssh_packet_userauth_info_request True zero_block c = Some (1, c') \<and> auth_state (sess c') = SSH_AUTH_STATE_INFO \<and>
    ssh_userauth_kbdint_getname c' = Some name \<and> ssh_userauth_kbdint_getinstruction c' = Some ins \<and>
    ssh_userauth_kbdint_getnprompts c' = int (length qs) \<and>
    (\<forall>i. unat i < length qs \<longrightarrow>
      ssh_userauth_kbdint_getprompt c' i True = Some (Some (fst (qs ! unat i)), Some (snd (qs ! unat i))))"
proof -
  let ?n = "of_nat (length qs) :: u32"
  have n: "unat ?n = length qs" using assms(8) by (simp add: small_nat)
  have le: "\<not> KBDINT_MAX_PROMPT < ?n" using assms(8) n by (simp add: KBDINT_MAX_PROMPT_def word_less_nat_alt)
  have nz: "?n \<noteq> 0 \<or> zero_block" using assms(9) n by (metis length_0_conv unat_0)
  have sint: "sint ?n = int (length qs)"
    using assms(8) by (simp add: signed_of_nat signed_take_bit_int_eq_self)
  obtain t b1 where u: "ssh_buffer_unpack True (\<lambda>_. True) ''ssSd'' 4 [UA_ptr, UA_ptr, UA_ptr, UA_ptr, UA_end] b =
      Some (SSH_OK, [I_cstring name, I_cstring ins, I_string t, I_dword ?n], b1)" "buffer_ok b1"
    "contents b1 = message (concat (map prompt_fields qs))"
    using unpack_fields [of b "question_fields name ins tag qs" _ "\<lambda>_. True"] assms(3-6) unfolding question_parts by auto
  obtain b2 where r: "read_prompts True (length qs) b1 = (Some qs, b2)"
    using read_prompts_ok [of b1 qs "[]"] u(2,3) assms(7) by auto
  define k where "k = (the (ssh_kbdint_new True))\<lparr>kbd_name := Some name, kbd_instruction := Some ins, nprompts := ?n, nanswers := ?n,
      kbd_prompts := Some (map (Some \<circ> fst) qs), kbd_echo := Some (map snd qs)\<rparr>"
  define c' where "c' = set_auth_state SSH_AUTH_STATE_INFO
      (set_login (\<lambda>l. l\<lparr>kbdint := Some k\<rparr>) (set_packet b2 (set_packet b1 c)))"
  have "ssh_packet_userauth_info_request True zero_block c = Some (1, c')"
    using nz le u(1) r assms(1,2)
    by (simp add: ssh_packet_userauth_info_request_def ssh_kbdint_new_def take_prompts_def calloc_array_def n c'_def k_def)
  moreover have "kbdint (login c') = Some k" by (simp add: c'_def)
  moreover have "i \<le> ?n" if "unat i < length qs" for i using that n by (simp add: word_le_nat_alt)
  ultimately show ?thesis
    by (auto simp: c'_def ssh_userauth_kbdint_getname_def ssh_userauth_kbdint_getinstruction_def ssh_userauth_kbdint_getnprompts_def
        ssh_userauth_kbdint_getprompt_def elem_at_def k_def sint not_less [symmetric])
qed

section \<open>Evaluation\<close>

definition demo_questions :: "unit conn" where
  "demo_questions = set_login (\<lambda>l. l\<lparr>kbdint := Some \<lparr>nprompts = 1, nanswers = 1, kbd_name = Some [], kbd_instruction = Some [],
     kbd_prompts = Some [Some [80]], kbd_echo = Some [0], kbd_answers = None\<rparr>\<rparr>) (demo_conn demo_sess (demo_channel []))"

lemma demo_questions_ok: "questions_ok demo_questions"
  by (auto simp: demo_questions_def questions_ok_def kbd_ok_def KBDINT_MAX_PROMPT_def intro: exI [of _ "[[80]]"])

theorem info_request_safe_witness:
  "\<exists>c'. ssh_packet_userauth_info_request True True demo_questions = Some (1, c') \<and> questions_ok c'"
  using info_request_safe [OF demo_questions_ok, of True True] by (auto simp: demo_questions_def)

theorem kbdint_access_witness:
  "ssh_userauth_kbdint_getprompt demo_questions 1 True = None \<and> ssh_userauth_kbdint_getprompt demo_questions 0 True \<noteq> None"
proof -
  have k: "kbdint (login demo_questions) = Some \<lparr>nprompts = 1, nanswers = 1, kbd_name = Some [], kbd_instruction = Some [],
     kbd_prompts = Some [Some [80]], kbd_echo = Some [0], kbd_answers = None\<rparr>"
    by (simp add: demo_questions_def)
  show ?thesis
    using kbdint_access [OF demo_questions_ok k, where i = 1 and echo = True] kbdint_access [OF demo_questions_ok k, where i = 0 and echo = True]
    by simp
qed

theorem questions_read_witness:
  "\<exists>c'. ssh_packet_userauth_info_request True False
      (set_packet (demo_buf (message (question_fields [65] [] \<lparr>str_size = 0, str_data = [0]\<rparr> [([80], 1)]) @ message (prompt_fields ([80], 1))))
        (demo_conn demo_sess (demo_channel []))) = Some (1, c') \<and>
    ssh_userauth_kbdint_getprompt c' 0 True = Some (Some [80], Some 1)"
proof -
  let ?m = "message (question_fields [65] [] \<lparr>str_size = 0, str_data = [0]\<rparr> [([80], 1)])" and ?p = "message (prompt_fields ([80], 1))"
  let ?c = "set_packet (demo_buf (?m @ ?p)) (demo_conn demo_sess (demo_channel []))"
  have len: "length (?m @ ?p) < 100" by (simp add: question_fields_def prompt_fields_def str_view_def del: be_bytes.simps)
  have tag: "string_ok \<lparr>str_size = 0, str_data = [0]\<rparr>" by (simp add: string_ok_def)
  have k: "kbdint (login ?c) = None" by (simp add: demo_conn_def)
  show ?thesis
    using questions_read [OF k _ conjunct1 [OF demo_buf_ok [OF len]], where qs = "[([80], 1)]" and name = "[65]" and ins = "[]"
      and tag = "\<lparr>str_size = 0, str_data = [0]\<rparr>" and zero_block = False] demo_buf_ok [OF len] len tag
    by auto
qed

end
