(* ===== verification/Login.thy ===== *)
theory Login
  imports Login_Kbdint Kex_Client
begin

unbundle bit_operations_syntax

text \<open>
  A client's login (\<open>auth.c\<close>, and the request of a service of \<open>client.c\<close>): the messages of the server and
  the functions the user calls. A call sends a request and waits for the answer; when it must not wait,
  it is made again, and \<open>pending_call\<close> remembers which one it was. The agent, GSSAPI, which is not
  compiled, and the functions that try several keys are not modelled. None is a fault: the name of the
  user is a null pointer, or a round of polling does not return.
\<close>

abbreviation (input) SSH_AUTH_SUCCESS :: int where "SSH_AUTH_SUCCESS \<equiv> 0"
abbreviation (input) SSH_AUTH_DENIED :: int where "SSH_AUTH_DENIED \<equiv> 1"
abbreviation (input) SSH_AUTH_PARTIAL :: int where "SSH_AUTH_PARTIAL \<equiv> 2"
abbreviation (input) SSH_AUTH_INFO :: int where "SSH_AUTH_INFO \<equiv> 3"
abbreviation (input) SSH_AUTH_AGAIN :: int where "SSH_AUTH_AGAIN \<equiv> 4"
abbreviation (input) SSH_AUTH_ERROR :: int where "SSH_AUTH_ERROR \<equiv> -1"

abbreviation (input) SSH_AUTH_METHOD_UNKNOWN :: u32 where "SSH_AUTH_METHOD_UNKNOWN \<equiv> 0"
abbreviation (input) SSH_AUTH_METHOD_NONE :: u32 where "SSH_AUTH_METHOD_NONE \<equiv> 1"
abbreviation (input) SSH_AUTH_METHOD_PASSWORD :: u32 where "SSH_AUTH_METHOD_PASSWORD \<equiv> 2"
abbreviation (input) SSH_AUTH_METHOD_PUBLICKEY :: u32 where "SSH_AUTH_METHOD_PUBLICKEY \<equiv> 4"
abbreviation (input) SSH_AUTH_METHOD_HOSTBASED :: u32 where "SSH_AUTH_METHOD_HOSTBASED \<equiv> 8"
abbreviation (input) SSH_AUTH_METHOD_INTERACTIVE :: u32 where "SSH_AUTH_METHOD_INTERACTIVE \<equiv> 16"
abbreviation (input) SSH_AUTH_METHOD_GSSAPI_MIC :: u32 where "SSH_AUTH_METHOD_GSSAPI_MIC \<equiv> 32"

section \<open>Messages of the server\<close>

definition ssh_packet_userauth_banner :: "bool \<Rightarrow> 'k conn \<Rightarrow> int \<times> 'k conn" where
  "ssh_packet_userauth_banner m c =
     (let (banner, b) = ssh_buffer_get_ssh_string m (the (in_buffer (sess c))); c1 = set_packet b c
      in (1, if banner = None then c1 else set_login (\<lambda>l. l\<lparr>issue_banner := banner\<rparr>) c1))"

text \<open>The methods a server names; a name is looked for anywhere in the text, which ends at its first null byte.\<close>

definition offered_methods :: "byte list \<Rightarrow> u32" where
  "offered_methods auth_methods =
     (let has = (\<lambda>name. strstr (bytes_of name) (takeWhile (\<lambda>x. x \<noteq> 0) auth_methods) \<noteq> None) in
      (if has ''password'' then SSH_AUTH_METHOD_PASSWORD else 0) OR
      (if has ''keyboard-interactive'' then SSH_AUTH_METHOD_INTERACTIVE else 0) OR
      (if has ''publickey'' then SSH_AUTH_METHOD_PUBLICKEY else 0) OR
      (if has ''hostbased'' then SSH_AUTH_METHOD_HOSTBASED else 0) OR
      (if has ''gssapi-with-mic'' then SSH_AUTH_METHOD_GSSAPI_MIC else 0))"

definition ssh_packet_userauth_failure :: "bool \<Rightarrow> 'k conn \<Rightarrow> int \<times> 'k conn" where
  "ssh_packet_userauth_failure m c =
     (let unknown = set_login (\<lambda>l. l\<lparr>current_method := SSH_AUTH_METHOD_UNKNOWN\<rparr>) in
      case ssh_buffer_unpack m (\<lambda>_. True) ''sb'' 2 [UA_ptr, UA_ptr, UA_end] (the (in_buffer (sess c))) of
        Some (rc, [I_cstring auth_methods, I_byte partial], b) \<Rightarrow>
          (1, unknown (set_login (\<lambda>l. l\<lparr>supported_methods := offered_methods auth_methods\<rparr>)
                (set_auth_state (if partial \<noteq> 0 then SSH_AUTH_STATE_PARTIAL else SSH_AUTH_STATE_FAILED) (set_packet b c))))
      | Some (rc, _, b) \<Rightarrow> (1, unknown (set_auth_state SSH_AUTH_STATE_ERROR (set_packet b c)))
      | None \<Rightarrow> (1, unknown (set_auth_state SSH_AUTH_STATE_ERROR c)))"

text \<open>A change of the crypto that is in use for a direction.\<close>

definition upd_current_crypto :: "u32 \<Rightarrow> ('k ssh_crypto \<Rightarrow> 'k ssh_crypto) \<Rightarrow> 'k ssh_session \<Rightarrow> 'k ssh_session" where
  "upd_current_crypto direction f s =
     (if ssh_packet_get_current_crypto (Some s) direction = None then s
      else if \<exists>c\<in>set_option (current_crypto s). used_for c AND direction \<noteq> 0 then s\<lparr>current_crypto := map_option f (current_crypto s)\<rparr>
      else s\<lparr>next_crypto := map_option f (next_crypto s)\<rparr>)"

definition ssh_packet_userauth_success :: "'k conn \<Rightarrow> int \<times> 'k conn" where
  "ssh_packet_userauth_success c =
     (let out = (\<lambda>x. if delayed_compress_out (kx x) then x\<lparr>do_compress_out := True\<rparr> else x);
          inp = (\<lambda>x. if delayed_compress_in (kx x) then x\<lparr>do_compress_in := True\<rparr> else x)
      in (1, set_login (\<lambda>l. l\<lparr>current_method := SSH_AUTH_METHOD_UNKNOWN\<rparr>)
               (with_sess (\<lambda>s. upd_current_crypto SSH_DIRECTION_IN inp (upd_current_crypto SSH_DIRECTION_OUT out
                    (s\<lparr>auth_state := SSH_AUTH_STATE_SUCCESS, session_state := SSH_SESSION_STATE_AUTHENTICATED,
                       flags := flags s OR SSH_SESSION_FLAG_AUTHENTICATED\<rparr>))) c)))"

definition ssh_packet_userauth_pk_ok :: "bool \<Rightarrow> bool \<Rightarrow> 'k conn \<Rightarrow> (int \<times> 'k conn) option" where
  "ssh_packet_userauth_pk_ok m zero_block c =
     (if auth_state (sess c) = SSH_AUTH_STATE_KBDINT_SENT then ssh_packet_userauth_info_request m zero_block c
      else if auth_state (sess c) = SSH_AUTH_STATE_PUBKEY_OFFER_SENT then Some (1, set_auth_state SSH_AUTH_STATE_PK_OK c)
      else Some (1, set_auth_state SSH_AUTH_STATE_ERROR c))"

section \<open>Waiting for an answer\<close>

definition ssh_service_request_termination :: "'k conn \<Rightarrow> bool" where
  "ssh_service_request_termination c \<longleftrightarrow>
     session_state (sess c) = SSH_SESSION_STATE_ERROR \<or> auth_service_state (sess c) \<noteq> SSH_AUTH_SERVICE_SENT"

text \<open>From the label \<open>pending\<close> on. A denied service leaves the result of the wait as it is.\<close>

definition service_pending :: "'k conn_env \<Rightarrow> 'k conn \<Rightarrow> (int \<times> 'k conn) option" where
  "service_pending env c =
     Option.bind (ssh_handle_packets_termination env SSH_TIMEOUT_USER (\<lambda>c. Some (ssh_service_request_termination c)) c) (\<lambda>(rc, c1).
       if rc = SSH_ERROR then Some (SSH_ERROR, c1)
       else
         Some (case auth_service_state (sess c1) of
                 SSH_AUTH_SERVICE_ACCEPTED \<Rightarrow> SSH_OK
               | SSH_AUTH_SERVICE_SENT \<Rightarrow> SSH_AGAIN
               | SSH_AUTH_SERVICE_NONE \<Rightarrow> SSH_ERROR
               | _ \<Rightarrow> rc, c1))"

definition ssh_service_request :: "'k conn_env \<Rightarrow> string \<Rightarrow> 'k conn \<Rightarrow> (int \<times> 'k conn) option" where
  "ssh_service_request env service c =
     (if auth_service_state (sess c) \<noteq> SSH_AUTH_SERVICE_NONE then service_pending env c
      else
        let (rc, c1) = pack_out env ''bs'' [VA_int 5, VA_cstring (bytes_of service)] c in
        if rc \<noteq> SSH_OK then Some (SSH_ERROR, c1)
        else
          let (rc1, c2) = send_packet env (with_sess (\<lambda>s. s\<lparr>auth_service_state := SSH_AUTH_SERVICE_SENT\<rparr>) c1) in
          if rc1 = SSH_ERROR then Some (SSH_ERROR, c2) else service_pending env c2)"

definition ssh_userauth_request_service :: "'k conn_env \<Rightarrow> 'k conn \<Rightarrow> (int \<times> 'k conn) option" where
  "ssh_userauth_request_service env c = ssh_service_request env ''ssh-userauth'' c"

definition ssh_auth_response_termination :: "'k conn \<Rightarrow> bool" where
  "ssh_auth_response_termination c \<longleftrightarrow>
     auth_state (sess c) \<notin> {SSH_AUTH_STATE_NONE, SSH_AUTH_STATE_KBDINT_SENT, SSH_AUTH_STATE_GSSAPI_REQUEST_SENT,
       SSH_AUTH_STATE_GSSAPI_TOKEN, SSH_AUTH_STATE_GSSAPI_MIC_SENT, SSH_AUTH_STATE_PUBKEY_AUTH_SENT,
       SSH_AUTH_STATE_PUBKEY_OFFER_SENT, SSH_AUTH_STATE_PASSWORD_AUTH_SENT, SSH_AUTH_STATE_AUTH_NONE_SENT}"

definition auth_result :: "auth_state \<Rightarrow> int" where
  "auth_result x =
     (case x of
        SSH_AUTH_STATE_ERROR \<Rightarrow> SSH_AUTH_ERROR
      | SSH_AUTH_STATE_FAILED \<Rightarrow> SSH_AUTH_DENIED
      | SSH_AUTH_STATE_INFO \<Rightarrow> SSH_AUTH_INFO
      | SSH_AUTH_STATE_PARTIAL \<Rightarrow> SSH_AUTH_PARTIAL
      | SSH_AUTH_STATE_PK_OK \<Rightarrow> SSH_AUTH_SUCCESS
      | SSH_AUTH_STATE_SUCCESS \<Rightarrow> SSH_AUTH_SUCCESS
      | _ \<Rightarrow> SSH_AUTH_ERROR)"

definition ssh_userauth_get_response :: "'k conn_env \<Rightarrow> 'k conn \<Rightarrow> (int \<times> 'k conn) option" where
  "ssh_userauth_get_response env c =
     Option.bind (ssh_handle_packets_termination env SSH_TIMEOUT_USER (\<lambda>c. Some (ssh_auth_response_termination c)) c) (\<lambda>(rc, c1).
       if rc = SSH_ERROR then Some (SSH_AUTH_ERROR, c1)
       else if \<not> ssh_auth_response_termination c1 then Some (SSH_AUTH_AGAIN, c1)
       else Some (auth_result (auth_state (sess c1)), c1))"

text \<open>The end of every call, from its label \<open>pending\<close> on.\<close>

definition answer_pending :: "'k conn_env \<Rightarrow> 'k conn \<Rightarrow> (int \<times> 'k conn) option" where
  "answer_pending env c =
     Option.bind (ssh_userauth_get_response env c) (\<lambda>(rc, c1).
       Some (rc, if rc \<noteq> SSH_AUTH_AGAIN then set_login (\<lambda>l. l\<lparr>pending_call := SSH_PENDING_CALL_NONE\<rparr>) c1 else c1))"

text \<open>The request is in the outgoing buffer; the state is set and it is sent.\<close>

definition send_auth_request :: "'k conn_env \<Rightarrow> auth_state \<Rightarrow> pending_call \<Rightarrow> 'k conn \<Rightarrow> (int \<times> 'k conn) option" where
  "send_auth_request env st call c =
     (let (rc, c1) = send_packet env (set_login (\<lambda>l. l\<lparr>pending_call := call\<rparr>) (set_auth_state st c)) in
      if rc = SSH_ERROR then Some (SSH_AUTH_ERROR, c1) else answer_pending env c1)"

definition request_failed :: "'k conn_env \<Rightarrow> 'k conn \<Rightarrow> (int \<times> 'k conn) option" where
  "request_failed env c = Some (SSH_AUTH_ERROR, reinit_out env c)"

text \<open>The beginning of a call: it is made again, another is pending, or the service is asked for.\<close>

definition begin_call ::
  "'k conn_env \<Rightarrow> pending_call \<Rightarrow> ('k conn \<Rightarrow> (int \<times> 'k conn) option) \<Rightarrow> 'k conn \<Rightarrow> (int \<times> 'k conn) option" where
  "begin_call env call request c =
     (if pending_call (login c) = call then answer_pending env c
      else if pending_call (login c) \<noteq> SSH_PENDING_CALL_NONE then Some (SSH_AUTH_ERROR, c)
      else
        Option.bind (ssh_userauth_request_service env c) (\<lambda>(rc, c1).
          if rc = SSH_AGAIN then Some (SSH_AUTH_AGAIN, c1)
          else if rc = SSH_ERROR then Some (SSH_AUTH_ERROR, c1)
          else request c1))"

definition login_name :: "byte list option \<Rightarrow> 'k conn \<Rightarrow> byte list option" where
  "login_name username c = (case username of Some u \<Rightarrow> Some u | None \<Rightarrow> user_name (login c))"

text \<open>The head of every request: the type, the name, and the service.\<close>

definition request_head :: "byte list \<Rightarrow> string \<Rightarrow> va list" where
  "request_head name auth_method = [VA_int 50, VA_cstring name, VA_cstring (bytes_of ''ssh-connection''), VA_cstring (bytes_of auth_method)]"

definition set_method :: "u32 \<Rightarrow> 'k conn \<Rightarrow> 'k conn" where
  "set_method x c = set_login (\<lambda>l. l\<lparr>current_method := x\<rparr>) c"

section \<open>The calls\<close>

definition ssh_userauth_list :: "'k conn \<Rightarrow> int" where
  "ssh_userauth_list c = sint (supported_methods (login c))"

definition ssh_userauth_none :: "'k conn_env \<Rightarrow> byte list option \<Rightarrow> 'k conn \<Rightarrow> (int \<times> 'k conn) option" where
  "ssh_userauth_none env username =
     begin_call env SSH_PENDING_CALL_AUTH_NONE (\<lambda>c.
       Option.bind (login_name username c) (\<lambda>name.
         let (rc, c1) = pack_out env ''bsss'' (request_head name ''none'') c in
         if rc < 0 then request_failed env c1
         else send_auth_request env SSH_AUTH_STATE_AUTH_NONE_SENT SSH_PENDING_CALL_AUTH_NONE (set_method SSH_AUTH_METHOD_NONE c1)))"

definition ssh_userauth_password :: "'k conn_env \<Rightarrow> byte list option \<Rightarrow> byte list \<Rightarrow> 'k conn \<Rightarrow> (int \<times> 'k conn) option" where
  "ssh_userauth_password env username pw =
     begin_call env SSH_PENDING_CALL_AUTH_PASSWORD (\<lambda>c.
       Option.bind (login_name username c) (\<lambda>name.
         let (rc, c1) = pack_out env ''bsssbs'' (request_head name ''password'' @ [VA_int 0, VA_cstring pw]) c in
         if rc < 0 then request_failed env c1
         else send_auth_request env SSH_AUTH_STATE_PASSWORD_AUTH_SENT SSH_PENDING_CALL_AUTH_PASSWORD
                (set_method SSH_AUTH_METHOD_PASSWORD
                  (with_sess (\<lambda>s. s\<lparr>out_buffer := ssh_buffer_set_secure (out_buffer s)\<rparr>) c1))))"

text \<open>
  The first call of keyboard-interactive. The service that is asked for is refused when it is neither
  there nor to be waited for.
\<close>

definition ssh_userauth_kbdint_init ::
  "'k conn_env \<Rightarrow> byte list option \<Rightarrow> byte list option \<Rightarrow> 'k conn \<Rightarrow> (int \<times> 'k conn) option" where
  "ssh_userauth_kbdint_init env username submethods c =
     (if pending_call (login c) = SSH_PENDING_CALL_AUTH_KBDINT_INIT then answer_pending env c
      else if pending_call (login c) \<noteq> SSH_PENDING_CALL_NONE then Some (SSH_ERROR, c)
      else
        Option.bind (ssh_userauth_request_service env c) (\<lambda>(rc, c1).
          if rc = SSH_AGAIN then Some (SSH_AUTH_AGAIN, c1)
          else if rc \<noteq> SSH_OK then Some (SSH_AUTH_ERROR, c1)
          else
            Option.bind (login_name username c1) (\<lambda>name.
              let (rc1, c2) = pack_out env ''bsssss''
                    (request_head name ''keyboard-interactive'' @ [VA_cstring [], VA_cstring (case submethods of None \<Rightarrow> [] | Some x \<Rightarrow> x)]) c1
              in if rc1 < 0 then request_failed env c2
                 else send_auth_request env SSH_AUTH_STATE_KBDINT_SENT SSH_PENDING_CALL_AUTH_KBDINT_INIT c2)))"

text \<open>The answers are packed one by one; one that was not given is sent as an empty text.\<close>

fun pack_answers :: "'k conn_env \<Rightarrow> byte list option list option \<Rightarrow> nat \<Rightarrow> nat \<Rightarrow> 'k conn \<Rightarrow> (int \<times> 'k conn) option" where
  "pack_answers env answers i 0 c = Some (SSH_OK, c)"
| "pack_answers env answers i (Suc n) c =
     Option.bind (case answers of None \<Rightarrow> Some None | Some l \<Rightarrow> elem_at (Some l) i) (\<lambda>a.
       let (rc, c1) = pack_out env ''s'' [VA_cstring (case a of None \<Rightarrow> [] | Some x \<Rightarrow> x)] c in
       if rc < 0 then Some (rc, c1) else pack_answers env answers (Suc i) n c1)"

definition ssh_userauth_kbdint_send :: "'k conn_env \<Rightarrow> 'k conn \<Rightarrow> (int \<times> 'k conn) option" where
  "ssh_userauth_kbdint_send env c =
     (if pending_call (login c) = SSH_PENDING_CALL_AUTH_KBDINT_SEND then answer_pending env c
      else if pending_call (login c) \<noteq> SSH_PENDING_CALL_NONE then Some (SSH_ERROR, c)
      else
        Option.bind (kbdint (login c)) (\<lambda>k.
          let (rc, c1) = pack_out env ''bd'' [VA_int 61, VA_int (nprompts k)] c in
          if rc < 0 then request_failed env c1
          else
            Option.bind (pack_answers env (kbd_answers k) 0 (unat (nprompts k)) c1) (\<lambda>(rc1, c2).
              if rc1 < 0 then request_failed env c2
              else
                Option.bind (ssh_kbdint_free k) (\<lambda>_.
                  send_auth_request env SSH_AUTH_STATE_KBDINT_SENT SSH_PENDING_CALL_AUTH_KBDINT_SEND
                    (set_login (\<lambda>l. l\<lparr>kbdint := None\<rparr>) (set_method SSH_AUTH_METHOD_INTERACTIVE c2))))))"

definition ssh_userauth_kbdint ::
  "'k conn_env \<Rightarrow> byte list option \<Rightarrow> byte list option \<Rightarrow> 'k conn \<Rightarrow> (int \<times> 'k conn) option" where
  "ssh_userauth_kbdint env user submethods c =
     (if (pending_call (login c) = SSH_PENDING_CALL_NONE \<and> kbdint (login c) = None) \<or>
         pending_call (login c) = SSH_PENDING_CALL_AUTH_KBDINT_INIT
      then ssh_userauth_kbdint_init env user submethods c
      else if pending_call (login c) = SSH_PENDING_CALL_AUTH_KBDINT_SEND \<or> kbdint (login c) \<noteq> None
      then ssh_userauth_kbdint_send env c
      else Some (SSH_AUTH_ERROR, c))"

section \<open>Public keys\<close>

text \<open>
  What a login asks of the library for keys (\<open>pki.c\<close>): whether a key is public or private, the name of
  the signature algorithm for it (of its certificate, when asked) in this session, whether the user
  allows the algorithm and the size, its public part as a string, and the signature over the outgoing
  buffer.
\<close>

record ('k, 'key) pki =
  key_is_public :: "'key \<Rightarrow> bool"
  key_is_private :: "'key \<Rightarrow> bool"
  signature_algorithm :: "'k conn \<Rightarrow> bool \<Rightarrow> 'key \<Rightarrow> byte list option"
  algorithm_allowed :: "'k conn \<Rightarrow> byte list \<Rightarrow> bool"
  size_allowed :: "'k conn \<Rightarrow> 'key \<Rightarrow> bool"
  pubkey_blob :: "'key \<Rightarrow> ssh_string option"
  do_sign :: "'k conn \<Rightarrow> 'key \<Rightarrow> ssh_string option"

text \<open>The algorithm for a key, if it may be used.\<close>

definition checked_algorithm :: "('k, 'key) pki \<Rightarrow> bool \<Rightarrow> 'key \<Rightarrow> 'k conn \<Rightarrow> byte list option" where
  "checked_algorithm keys cert key c =
     (case signature_algorithm keys c cert key of
        None \<Rightarrow> None
      | Some alg \<Rightarrow> if \<not> algorithm_allowed keys c alg then None else if \<not> size_allowed keys c key then None else Some alg)"

text \<open>The request with a public key; \<open>sign\<close> tells whether a signature follows.\<close>

definition pack_key_request ::
  "('k, 'key) pki \<Rightarrow> 'k conn_env \<Rightarrow> bool \<Rightarrow> byte list option \<Rightarrow> byte list \<Rightarrow> 'key \<Rightarrow> 'k conn \<Rightarrow> (int \<times> 'k conn) option" where
  "pack_key_request keys env sign username alg key c =
     (case pubkey_blob keys key of
        None \<Rightarrow> Some (-1, c)
      | Some blob \<Rightarrow>
          Option.bind (login_name username c) (\<lambda>name.
            Some (pack_out env ''bsssbsS''
              (request_head name ''publickey'' @ [VA_int (if sign then 1 else 0), VA_cstring alg, VA_string (Some blob)]) c)))"

definition ssh_userauth_try_publickey ::
  "('k, 'key) pki \<Rightarrow> 'k conn_env \<Rightarrow> byte list option \<Rightarrow> 'key option \<Rightarrow> 'k conn \<Rightarrow> (int \<times> 'k conn) option" where
  "ssh_userauth_try_publickey keys env username pubkey c =
     (case pubkey of
        None \<Rightarrow> Some (SSH_AUTH_ERROR, c)
      | Some key \<Rightarrow>
          if \<not> key_is_public keys key then Some (SSH_AUTH_ERROR, c)
          else
            begin_call env SSH_PENDING_CALL_AUTH_OFFER_PUBKEY (\<lambda>c.
              case checked_algorithm keys False key c of
                None \<Rightarrow> Some (SSH_AUTH_DENIED, c)
              | Some alg \<Rightarrow>
                  Option.bind (pack_key_request keys env False username alg key c) (\<lambda>(rc, c1).
                    if rc < 0 then request_failed env c1
                    else send_auth_request env SSH_AUTH_STATE_PUBKEY_OFFER_SENT SSH_PENDING_CALL_AUTH_OFFER_PUBKEY
                           (set_method SSH_AUTH_METHOD_PUBLICKEY c1))) c)"

definition add_signature :: "('k, 'key) pki \<Rightarrow> 'k conn_env \<Rightarrow> 'key \<Rightarrow> 'k conn \<Rightarrow> int \<times> 'k conn" where
  "add_signature keys env key c =
     (case do_sign keys c key of
        None \<Rightarrow> (-1, c)
      | Some sg \<Rightarrow>
          let (rc, b) = ssh_buffer_add_ssh_string (mem (pk env)) (Some sg) (out_buffer (sess c))
          in (rc, with_sess (\<lambda>s. s\<lparr>out_buffer := b\<rparr>) c))"

definition ssh_userauth_publickey ::
  "('k, 'key) pki \<Rightarrow> 'k conn_env \<Rightarrow> byte list option \<Rightarrow> 'key option \<Rightarrow> 'k conn \<Rightarrow> (int \<times> 'k conn) option" where
  "ssh_userauth_publickey keys env username privkey c =
     (case privkey of
        None \<Rightarrow> Some (SSH_AUTH_ERROR, c)
      | Some key \<Rightarrow>
          if \<not> key_is_private keys key then Some (SSH_AUTH_ERROR, c)
          else
            begin_call env SSH_PENDING_CALL_AUTH_PUBKEY (\<lambda>c.
              case checked_algorithm keys True key c of
                None \<Rightarrow> Some (SSH_AUTH_DENIED, c)
              | Some alg \<Rightarrow>
                  Option.bind (pack_key_request keys env True username alg key c) (\<lambda>(rc, c1).
                    if rc < 0 then request_failed env c1
                    else
                      let (rc1, c2) = add_signature keys env key c1 in
                      if rc1 < 0 then request_failed env c2
                      else send_auth_request env SSH_AUTH_STATE_PUBKEY_AUTH_SENT SSH_PENDING_CALL_AUTH_PUBKEY
                             (set_method SSH_AUTH_METHOD_PUBLICKEY c2))) c)"

end
