(* ===== verification/Login_Frame.thy ===== *)
theory Login_Frame
  imports Client_Safety Login
begin

unbundle bit_operations_syntax

text \<open>
  Sending a packet leaves the state of the login alone, also when a new key exchange begins on the way:
  the interface \<open>unsent_view\<close> holds of the view that consists of the state of the authentication and of
  the flag that says it has succeeded.
\<close>

section \<open>The key exchange does not touch the login\<close>

definition authenticated :: "'k ssh_session \<Rightarrow> bool" where
  "authenticated s \<longleftrightarrow> flags s AND SSH_SESSION_FLAG_AUTHENTICATED \<noteq> 0"

definition login_view :: "'k ssh_session \<Rightarrow> bool \<times> auth_state \<times> bool" where
  "login_view s = (client s, auth_state s, authenticated s)"

lemma login_view_upd [simp]:
  "login_view (s\<lparr>out_buffer := b\<rparr>) = login_view s" "login_view (s\<lparr>in_buffer := i\<rparr>) = login_view s"
  "login_view (s\<lparr>out_queue := q\<rparr>) = login_view s" "login_view (s\<lparr>wire := w\<rparr>) = login_view s"
  "login_view (s\<lparr>send_seq := n\<rparr>) = login_view s" "login_view (s\<lparr>raw_counter := r\<rparr>) = login_view s"
  "login_view (s\<lparr>last_rekey_time := t\<rparr>) = login_view s" "login_view (s\<lparr>current_crypto := c\<rparr>) = login_view s"
  "login_view (s\<lparr>next_crypto := c\<rparr>) = login_view s" "login_view (s\<lparr>dh_handshake_state := d\<rparr>) = login_view s"
  "login_view (s\<lparr>session_state := x\<rparr>) = login_view s"
  "login_view (with_next f s) = login_view s" "login_view (with_kx g s) = login_view s" "login_view (with_shake h s) = login_view s"
  "login_view (ssh_packet_set_callbacks m s a) = login_view s"
  by (simp_all add: login_view_def authenticated_def with_next_def with_kx_def with_shake_def ssh_packet_set_callbacks_def)

lemma login_view_sent [simp]: "login_view (s\<lparr>flags := flags s OR SSH_SESSION_FLAG_KEXINIT_SENT\<rparr>) = login_view s"
proof -
  have "(f OR 8) AND 2 = f AND 2" for f :: u32 by (simp add: word_ao_dist)
  then show ?thesis by (simp add: login_view_def authenticated_def)
qed

text \<open>\<open>keeps_login\<close>: while no key exchange is finished, a function leaves the login.\<close>

definition keeps_login :: "('k ssh_session \<Rightarrow> int \<times> 'k ssh_session) \<Rightarrow> bool" where
  "keeps_login f = (\<forall>s. dh_handshake_state s \<noteq> DH_STATE_FINISHED \<longrightarrow> login_view (snd (f s)) = login_view s)"

lemma keeps_loginI: "(\<And>s. dh_handshake_state s \<noteq> DH_STATE_FINISHED \<Longrightarrow> login_view (snd (f s)) = login_view s) \<Longrightarrow> keeps_login f"
  by (simp add: keeps_login_def)

lemma keeps_loginD: "keeps_login f \<Longrightarrow> dh_handshake_state s \<noteq> DH_STATE_FINISHED \<Longrightarrow> login_view (snd (f s)) = login_view s"
  by (simp add: keeps_login_def)

lemma pack_session_login [simp]: "login_view (snd (pack_session lib fmt args s)) = login_view s"
  by (simp add: pack_session_def split_def Let_def)

lemma hash_login [simp]: "login_view (drop_hashbufs s) = login_view s" "login_view (set_out_hash h s) = login_view s"
  by (simp_all add: drop_hashbufs_def set_out_hash_def)

lemma steps_login:
  "login_view (snd (ssh_make_sessionid lib s)) = login_view s" "login_view (snd (crypt_set_algorithms_client lib s)) = login_view s"
  "login_view (snd (ssh_generate_session_keys lib s)) = login_view s"
proof -
  have "login_view (store_hash lib b s) = login_view s" for b s
    by (simp add: store_hash_def Let_def split: option.split)
  then show "login_view (snd (ssh_make_sessionid lib s)) = login_view s"
    by (simp add: ssh_make_sessionid_def split: option.splits sum.splits)
  have z: "login_view (set_compression i d s) = login_view s" for i d s
    by (simp add: set_compression_def compression_enable_def Let_def)
  then have "login_view (snd (set_out_algorithms lib s)) = login_view s" "login_view (snd (set_in_algorithms lib s)) = login_view s" for s
    by (auto simp: set_out_algorithms_def set_in_algorithms_def Let_def split: option.splits)
  then show "login_view (snd (crypt_set_algorithms_client lib s)) = login_view s"
    by (simp add: crypt_set_algorithms_client_def crypt_set_algorithms2_def z split_def Let_def)
  show "login_view (snd (ssh_generate_session_keys lib s)) = login_view s"
    by (auto simp: ssh_generate_session_keys_def Let_def split: option.splits)
qed

interpretation inner_login: unsent_view "\<lambda>s. (login_view s, dh_handshake_state s)" "penv (with_keys lib)" "\<lambda>v. snd v \<noteq> DH_STATE_FINISHED" for lib
  by unfold_locales
    (simp_all add: no_rekey_when_busy steps_login view_state [OF steps_view(1)] view_state [OF steps_view(2)] view_state [OF steps_view(3)])

section \<open>A new key exchange\<close>

locale login_packets =
  fixes lib :: "'k kex_lib"
  assumes send: "dh_handshake_state s \<noteq> DH_STATE_FINISHED \<Longrightarrow>
      (login_view (snd (ssh_packet_send (penv lib) s)), dh_handshake_state (snd (ssh_packet_send (penv lib) s))) =
      (login_view s, dh_handshake_state s)"
    and gex: "keeps_login (client_dhgex_init lib)"
begin

lemma send_login:
  "dh_handshake_state s \<noteq> DH_STATE_FINISHED \<Longrightarrow> login_view (snd (ssh_packet_send (penv lib) s)) = login_view s"
  "dh_handshake_state s \<noteq> DH_STATE_FINISHED \<Longrightarrow> dh_handshake_state (snd (ssh_packet_send (penv lib) s)) = dh_handshake_state s"
  using send [of s] by simp_all

lemma start_login: "login_view (snd (start_exchange lib t s)) = login_view s"
  by (simp add: start_exchange_def send_login Let_def)

lemma first_messages_login:
  "keeps_login (ssh_client_curve25519_init lib)" "keeps_login (ssh_client_ecdh_init lib)" "keeps_login (ssh_client_dh_init lib)"
proof -
  have c: "login_view (snd (ssh_curve25519_init lib s)) = login_view s" for s
    by (simp add: ssh_curve25519_init_def split: option.split)
  show "keeps_login (ssh_client_curve25519_init lib)"
    by (rule keeps_loginI) (simp add: ssh_client_curve25519_init_def c start_login split_def Let_def)
  show "keeps_login (ssh_client_ecdh_init lib)"
    by (rule keeps_loginI; simp add: ssh_client_ecdh_init_def start_login split_def Let_def split: option.split)
  show "keeps_login (ssh_client_dh_init lib)"
    by (rule keeps_loginI) (simp add: ssh_client_dh_init_def start_login split_def Let_def)
qed

lemma handshake_login: "keeps_login (dh_handshake lib)"
  using keeps_loginD [OF first_messages_login(1)] keeps_loginD [OF first_messages_login(2)] keeps_loginD [OF first_messages_login(3)]
    keeps_loginD [OF gex]
  by (intro keeps_loginI) (simp add: dh_handshake_def split: dh_state.split kex_kind.split)

lemma build_login: "login_view (snd (build_kexinit lib first s)) = login_view s"
  by (simp add: build_kexinit_def ssh_hashbufout_add_cookie_def split_def Let_def)

lemma failed_login: "login_view (snd (send_kex_failed lib s)) = login_view s"
  by (simp add: send_kex_failed_def)

lemma send_kex_login: "keeps_login (ssh_send_kex lib)"
proof (rule keeps_loginI)
  fix s :: "'k ssh_session"
  assume d: "dh_handshake_state s \<noteq> DH_STATE_FINISHED"
  have guess: "login_view (snd (send_guess lib kex t)) = login_view t" for kex and t :: "'k ssh_session"
    using keeps_loginD [OF handshake_login] by (simp add: send_guess_def failed_login split_def Let_def)
  have "dh_handshake_state (snd (build_kexinit lib b s)) = dh_handshake_state s" for b
    by (simp add: build_kexinit_def ssh_hashbufout_add_cookie_def set_out_hash_def split_def Let_def)
  then have "login_view (snd (ssh_packet_send (penv lib) (snd (build_kexinit lib b s)))) = login_view s" for b
    using d by (simp add: send_login build_login)
  then show "login_view (snd (ssh_send_kex lib s)) = login_view s"
    by (simp add: ssh_send_kex_def failed_login build_login guess split_def Let_def)
qed

lemma rekex_login: "client s \<Longrightarrow> login_view (snd (ssh_send_rekex lib s)) = login_view s"
proof -
  assume c: "client s"
  have s1: "login_view (snd (set_client_kex lib s)) = login_view s" by (simp add: set_client_kex_def split: sum.split)
  let ?t = "(snd (set_client_kex lib s))\<lparr>dh_handshake_state := DH_STATE_INIT\<rparr>"
  have "login_view (snd (ssh_send_kex lib ?t)) = login_view ?t" by (rule keeps_loginD [OF send_kex_login]) simp
  then show ?thesis using c s1 by (simp add: ssh_send_rekex_def split_def Let_def)
qed

end

interpretation inner_packets: login_packets "kexlib (with_keys lib)" for lib
proof unfold_locales
  show send: "dh_handshake_state s \<noteq> DH_STATE_FINISHED \<Longrightarrow>
      (login_view (snd (ssh_packet_send (penv (kexlib (with_keys lib))) s)),
       dh_handshake_state (snd (ssh_packet_send (penv (kexlib (with_keys lib))) s))) =
      (login_view s, dh_handshake_state s)" for s
    using inner_login.send_blind [of s lib] by simp
  have "login_view (snd (ssh_client_dhgex_init l s)) = login_view s" if "penv l = penv (with_keys lib)" for l s
    using inner_login.send_blind [of _ lib] that by (simp add: ssh_client_dhgex_init_def split_def Let_def)
  then show "keeps_login (client_dhgex_init (kexlib (with_keys lib)))"
    by (intro keeps_loginI) (simp add: with_keys_def gex_wired)
qed

interpretation login_sent: unsent_view login_view "client_env lib" fst for lib
proof unfold_locales
  show "login_view (snd (send_rekex (client_env lib) s)) = login_view s" if "fst (login_view s)" for s
    using inner_packets.rekex_login [of s lib] that by (simp add: client_env_def login_view_def)
qed (simp_all add: client_env_def steps_login)

end
