(* ===== verification/Login_Safety.thy ===== *)
theory Login_Safety
  imports Login_Frame
begin

unbundle bit_operations_syntax

text \<open>
  What the results of a login mean. While a call waits, messages of the server arrive in any order:
  the handlers are the steps of a relation, and a round of polling is a sequence of them. The invariant
  ties the state of the authentication to the call that is pending.
\<close>

section \<open>The messages of a round\<close>

inductive login_event :: "bool \<Rightarrow> bool \<Rightarrow> 'k conn \<Rightarrow> 'k conn \<Rightarrow> bool" for m z where
  Banner: "login_event m z c (snd (ssh_packet_userauth_banner m c))"
| Failure: "login_event m z c (snd (ssh_packet_userauth_failure m c))"
| Success: "login_event m z c (snd (ssh_packet_userauth_success c))"
| Pk_ok: "ssh_packet_userauth_pk_ok m z c = Some (rc, c') \<Longrightarrow> login_event m z c c'"
| Disconnect: "login_event m z c (with_sess (\<lambda>s. snd (ssh_packet_disconnect_callback lib s t)) c)"
| Other: "login c' = login c \<Longrightarrow> login_view (sess c') = login_view (sess c) \<Longrightarrow> login_event m z c c'"

inductive_cases login_eventE: "login_event m z c c'"

definition polled_by_events :: "bool \<Rightarrow> bool \<Rightarrow> 'k conn_env \<Rightarrow> bool" where
  "polled_by_events m z env = (\<forall>n tm c rc c'. poll_round env n tm c = Some (rc, c') \<longrightarrow> (login_event m z)\<^sup>*\<^sup>* c c')"

section \<open>The invariant\<close>

text \<open>The states of the authentication that fit a pending call: its own, and the answers to it.\<close>

definition call_states :: "pending_call \<Rightarrow> auth_state set" where
  "call_states p =
     (case p of
        SSH_PENDING_CALL_AUTH_NONE \<Rightarrow> {SSH_AUTH_STATE_AUTH_NONE_SENT}
      | SSH_PENDING_CALL_AUTH_PASSWORD \<Rightarrow> {SSH_AUTH_STATE_PASSWORD_AUTH_SENT}
      | SSH_PENDING_CALL_AUTH_OFFER_PUBKEY \<Rightarrow> {SSH_AUTH_STATE_PUBKEY_OFFER_SENT, SSH_AUTH_STATE_PK_OK}
      | SSH_PENDING_CALL_AUTH_PUBKEY \<Rightarrow> {SSH_AUTH_STATE_PUBKEY_AUTH_SENT}
      | SSH_PENDING_CALL_AUTH_KBDINT_INIT \<Rightarrow> {SSH_AUTH_STATE_KBDINT_SENT, SSH_AUTH_STATE_INFO}
      | SSH_PENDING_CALL_AUTH_KBDINT_SEND \<Rightarrow> {SSH_AUTH_STATE_KBDINT_SENT, SSH_AUTH_STATE_INFO}
      | _ \<Rightarrow> UNIV) \<union>
     {SSH_AUTH_STATE_SUCCESS, SSH_AUTH_STATE_PARTIAL, SSH_AUTH_STATE_FAILED, SSH_AUTH_STATE_ERROR}"

definition login_fits :: "'k conn \<Rightarrow> bool" where
  "login_fits c \<longleftrightarrow>
     client (sess c) \<and> auth_state (sess c) \<in> call_states (pending_call (login c)) \<and>
     (auth_state (sess c) = SSH_AUTH_STATE_SUCCESS \<longrightarrow> authenticated (sess c)) \<and>
     (auth_state (sess c) = SSH_AUTH_STATE_INFO \<longrightarrow> kbdint (login c) \<noteq> None)"

lemma client_view: "login_view s = login_view t \<Longrightarrow> client s = client t \<and> auth_state s = auth_state t \<and> authenticated s = authenticated t"
  by (simp add: login_view_def)

lemma session_parts [simp]:
  "client (sess (set_packet b c)) = client (sess c)" "authenticated (sess (set_packet b c)) = authenticated (sess c)"
  "client (sess (set_auth_state x c)) = client (sess c)" "authenticated (sess (set_auth_state x c)) = authenticated (sess c)"
  by (simp_all add: set_packet_def set_auth_state_def with_sess_def authenticated_def)

lemma upd_crypto_view [simp]: "login_view (upd_current_crypto d f s) = login_view s"
  by (simp add: upd_current_crypto_def)

lemma success_view: "login_view (sess (snd (ssh_packet_userauth_success c))) = (client (sess c), SSH_AUTH_STATE_SUCCESS, True)"
proof -
  have "(f OR 2) AND 2 \<noteq> 0" for f :: u32 by (simp add: word_ao_dist)
  then have "login_view (s\<lparr>auth_state := SSH_AUTH_STATE_SUCCESS, session_state := SSH_SESSION_STATE_AUTHENTICATED,
      flags := flags s OR SSH_SESSION_FLAG_AUTHENTICATED\<rparr>) = (client s, SSH_AUTH_STATE_SUCCESS, True)" for s :: "'a ssh_session"
    by (simp add: login_view_def authenticated_def)
  then show ?thesis by (simp add: ssh_packet_userauth_success_def with_sess_def set_login_def Let_def)
qed

lemma disconnect_view: "login_view (snd (ssh_packet_disconnect_callback lib s t)) = (client s, SSH_AUTH_STATE_FAILED, authenticated s)"
  by (simp add: ssh_packet_disconnect_callback_def ssh_session_socket_close_def fail_session_def took_def login_view_def
      authenticated_def with_shake_def split_def Let_def split: option.split)

lemma info_request_cases:
  assumes "ssh_packet_userauth_info_request m z c = Some (rc, c')"
  obtains (same) "c' = c"
  | (drop) k c1 where "drop_kbdint k c1 = Some (rc, c')" "c1 = c \<or> (\<exists>b. c1 = set_packet b c)"
  | (take) n k b where "take_prompts m z n k (set_packet b c) = Some (rc, c')"
proof -
  let ?start = "case kbdint (login c) of None \<Rightarrow> Some (ssh_kbdint_new m) | Some k \<Rightarrow> map_option Some (ssh_kbdint_clean k)"
  let ?u = "ssh_buffer_unpack m (\<lambda>_. True) ''ssSd'' 4 [UA_ptr, UA_ptr, UA_ptr, UA_ptr, UA_end] (the (in_buffer (sess c)))"
  have "?start \<noteq> None"
  proof
    assume "?start = None"
    then have "ssh_packet_userauth_info_request m z c = None" by (simp only: ssh_packet_userauth_info_request_def option.case)
    then show False using assms by simp
  qed
  then consider "?start = Some None" | k where "?start = Some (Some k)" by (metis option.exhaust)
  then show thesis
  proof cases
    case 1
    then show thesis using assms by (intro same) (simp add: ssh_packet_userauth_info_request_def)
  next
    case (2 k)
    consider (none) "?u = None" | (full) r name ins tmp n b where "?u = Some (r, [I_cstring name, I_cstring ins, I_string tmp, I_dword n], b)"
      | (bad) r items b where "?u = Some (r, items, b)" "\<nexists>name ins tmp n. items = [I_cstring name, I_cstring ins, I_string tmp, I_dword n]"
      by (cases ?u) (metis prod_cases3)+
    then show thesis
    proof cases
      case none
      then show thesis using assms 2 by (intro drop [of k c]) (simp_all add: ssh_packet_userauth_info_request_def)
    next
      case (full r name ins tmp n b)
      then show thesis using assms 2 by (intro take) (simp add: ssh_packet_userauth_info_request_def)
    next
      case bad
      then have "ssh_packet_userauth_info_request m z c = drop_kbdint k (set_packet b c)"
        by (auto simp: ssh_packet_userauth_info_request_def 2 split: list.splits item.splits)
      then show thesis using assms by (intro drop [of k "set_packet b c"]) auto
    qed
  qed
qed

lemma info_request_parts:
  assumes "ssh_packet_userauth_info_request m z c = Some (rc, c')"
  shows "client (sess c') = client (sess c) \<and> authenticated (sess c') = authenticated (sess c) \<and>
    pending_call (login c') = pending_call (login c) \<and>
    (auth_state (sess c') = auth_state (sess c) \<or> auth_state (sess c') = SSH_AUTH_STATE_INFO \<and> kbdint (login c') \<noteq> None)"
proof -
  have d: "client (sess c2) = client (sess c1) \<and> authenticated (sess c2) = authenticated (sess c1) \<and>
      pending_call (login c2) = pending_call (login c1) \<and> auth_state (sess c2) = auth_state (sess c1)"
    if "drop_kbdint k c1 = Some (rc, c2)" for k rc and c1 c2 :: "'a conn"
    using that by (auto simp: drop_kbdint_def bind_eq_Some_conv)
  from assms show ?thesis
  proof (cases rule: info_request_cases)
    case (drop k c1)
    then show ?thesis using d [OF drop(1)] by auto
  next
    case (take n k b)
    then show ?thesis
      by (auto simp: take_prompts_def Let_def split: if_splits option.splits prod.splits dest!: d)
  qed simp
qed

lemma answers_fit: "x \<in> {SSH_AUTH_STATE_SUCCESS, SSH_AUTH_STATE_PARTIAL, SSH_AUTH_STATE_FAILED, SSH_AUTH_STATE_ERROR} \<Longrightarrow> x \<in> call_states p"
  by (auto simp: call_states_def)

lemma failure_parts:
  "client (sess (snd (ssh_packet_userauth_failure m c))) = client (sess c)"
  "auth_state (sess (snd (ssh_packet_userauth_failure m c))) \<in> {SSH_AUTH_STATE_PARTIAL, SSH_AUTH_STATE_FAILED, SSH_AUTH_STATE_ERROR}"
  "pending_call (login (snd (ssh_packet_userauth_failure m c))) = pending_call (login c)"
  by (auto simp: ssh_packet_userauth_failure_def Let_def split: option.splits list.splits item.splits)

lemma event_fits:
  assumes "login_event m z c c'" and "login_fits c"
  shows "login_fits c' \<and> pending_call (login c') = pending_call (login c)"
  using assms(1)
proof cases
  case Banner
  then show ?thesis using assms(2) by (auto simp: ssh_packet_userauth_banner_def login_fits_def split_def Let_def)
next
  case Failure
  then show ?thesis using assms(2) failure_parts [of m c] answers_fit by (auto simp: login_fits_def)
next
  case Success
  have "client (sess c') = client (sess c)" "auth_state (sess c') = SSH_AUTH_STATE_SUCCESS" "authenticated (sess c')"
    using success_view [of c] Success by (simp_all add: login_view_def)
  moreover have "pending_call (login c') = pending_call (login c)"
    using Success by (simp add: ssh_packet_userauth_success_def Let_def)
  ultimately show ?thesis using assms(2) answers_fit by (simp add: login_fits_def)
next
  case (Pk_ok rc)
  then consider (info) "auth_state (sess c) = SSH_AUTH_STATE_KBDINT_SENT" "ssh_packet_userauth_info_request m z c = Some (rc, c')"
    | (pk) "auth_state (sess c) = SSH_AUTH_STATE_PUBKEY_OFFER_SENT" "c' = set_auth_state SSH_AUTH_STATE_PK_OK c"
    | (wrong) "c' = set_auth_state SSH_AUTH_STATE_ERROR c"
    by (auto simp: ssh_packet_userauth_pk_ok_def split: if_splits)
  then show ?thesis
  proof cases
    case info
    have "SSH_AUTH_STATE_KBDINT_SENT \<in> call_states p \<Longrightarrow> SSH_AUTH_STATE_INFO \<in> call_states p" for p
      by (auto simp: call_states_def split: pending_call.splits)
    then show ?thesis using info_request_parts [OF info(2)] info(1) assms(2) by (auto simp: login_fits_def)
  next
    case pk
    have "SSH_AUTH_STATE_PUBKEY_OFFER_SENT \<in> call_states p \<Longrightarrow> SSH_AUTH_STATE_PK_OK \<in> call_states p" for p
      by (auto simp: call_states_def split: pending_call.splits)
    then show ?thesis using pk assms(2) by (simp add: login_fits_def)
  next
    case wrong
    then show ?thesis using assms(2) answers_fit by (simp add: login_fits_def)
  qed
next
  case (Disconnect lib t)
  have "login_view (sess c') = (client (sess c), SSH_AUTH_STATE_FAILED, authenticated (sess c))"
    using Disconnect disconnect_view by (simp add: with_sess_def)
  then show ?thesis using assms(2) answers_fit Disconnect by (simp add: login_fits_def login_view_def)
next
  case Other
  then show ?thesis using assms(2) client_view [of "sess c'" "sess c"] by (simp add: login_fits_def)
qed

lemma events_fit: "(login_event m z)\<^sup>*\<^sup>* c c' \<Longrightarrow> login_fits c \<Longrightarrow> login_fits c' \<and> pending_call (login c') = pending_call (login c)"
  by (induction rule: rtranclp_induct) (auto dest: event_fits)

section \<open>Waiting\<close>

lemma fits_same: "login c' = login c \<Longrightarrow> login_view (sess c') = login_view (sess c) \<Longrightarrow> login_fits c' = login_fits c"
  using client_view [of "sess c'" "sess c"] by (simp add: login_fits_def)

lemma packets_fit:
  assumes "polled_by_events m z env" and "login_fits c" and "ssh_handle_packets env tm c = Some (rc, c')"
  shows "login_fits c' \<and> pending_call (login c') = pending_call (login c)"
proof -
  let ?c = "c\<lparr>rounds := Suc (rounds c)\<rparr>"
  have c: "login_fits ?c" "login ?c = login c" using assms(2) fits_same [of ?c c] by simp_all
  have failed: "login_fits (with_sess (\<lambda>s. s\<lparr>session_state := x\<rparr>) d) = login_fits d" for x and d :: "'a conn"
    by (rule fits_same) (simp_all add: with_sess_def)
  show ?thesis
  proof (cases "pollable env c")
    case True
    then obtain tm' c1 where "poll_round env (rounds c) tm' ?c = Some (rc, c1)"
      and c': "c' = c1 \<or> c' = with_sess (\<lambda>s. s\<lparr>session_state := SSH_SESSION_STATE_ERROR\<rparr>) c1"
      using assms(3) by (auto simp: ssh_handle_packets_def Let_def split: option.splits prod.splits if_splits)
    then have "(login_event m z)\<^sup>*\<^sup>* ?c c1" using assms(1) by (simp add: polled_by_events_def)
    then have "login_fits c1 \<and> pending_call (login c1) = pending_call (login c)" using events_fit c by metis
    then show ?thesis using c' failed by auto
  next
    case False
    then show ?thesis using assms by (auto simp: ssh_handle_packets_def)
  qed
qed

lemma wait_fits:
  assumes "polled_by_events m z env" and "login_fits c" and "ssh_handle_packets_termination env tm fct c = Some (rc, c')"
  shows "login_fits c' \<and> pending_call (login c') = pending_call (login c)"
  by (rule wait_keeps [OF assms(3), where P = "\<lambda>d. login_fits d \<and> pending_call (login d) = pending_call (login c)"])
    (use assms(2) packets_fit [OF assms(1)] in auto)

section \<open>Results\<close>

text \<open>The answer to the call \<open>p\<close>: what the result \<open>rc\<close> says of the session.\<close>

definition call_answered :: "pending_call \<Rightarrow> int \<Rightarrow> 'k conn \<Rightarrow> bool" where
  "call_answered p rc c \<longleftrightarrow>
     login_fits c \<and>
     (rc \<in> {SSH_AUTH_SUCCESS, SSH_AUTH_PARTIAL, SSH_AUTH_INFO} \<longrightarrow>
        auth_state (sess c) \<in> call_states p \<and> auth_result (auth_state (sess c)) = rc \<and> pending_call (login c) = SSH_PENDING_CALL_NONE) \<and>
     (rc = SSH_AUTH_AGAIN \<longrightarrow>
        pending_call (login c) = p \<and> \<not> ssh_auth_response_termination c \<or> pending_call (login c) = SSH_PENDING_CALL_NONE)"

lemma answer_result:
  assumes "polled_by_events m z env" and "login_fits c" and "answer_pending env c = Some (rc, c')"
  shows "call_answered (pending_call (login c)) rc c'"
proof -
  obtain c1 where r: "ssh_userauth_get_response env c = Some (rc, c1)"
    and c': "c' = (if rc \<noteq> SSH_AUTH_AGAIN then set_login (\<lambda>l. l\<lparr>pending_call := SSH_PENDING_CALL_NONE\<rparr>) c1 else c1)"
    using assms(3) by (auto simp: answer_pending_def bind_eq_Some_conv)
  obtain w where w: "ssh_handle_packets_termination env SSH_TIMEOUT_USER (\<lambda>c. Some (ssh_auth_response_termination c)) c = Some (w, c1)"
    and rc: "rc = (if w = SSH_ERROR then SSH_AUTH_ERROR else if \<not> ssh_auth_response_termination c1 then SSH_AUTH_AGAIN
                   else auth_result (auth_state (sess c1)))"
    using r by (auto simp: ssh_userauth_get_response_def bind_eq_Some_conv split: if_splits)
  have fits: "login_fits c1" "pending_call (login c1) = pending_call (login c)" using wait_fits [OF assms(1,2) w] by simp_all
  have "login_fits (set_login (\<lambda>l. l\<lparr>pending_call := SSH_PENDING_CALL_NONE\<rparr>) c1)"
    using fits(1) by (simp add: login_fits_def call_states_def)
  moreover have "auth_result x \<noteq> SSH_AUTH_AGAIN" for x by (simp add: auth_result_def split: auth_state.split)
  moreover have "auth_state (sess c1) \<in> call_states (pending_call (login c))" using fits by (simp add: login_fits_def)
  ultimately show ?thesis using c' rc fits by (auto simp: call_answered_def split: if_splits)
qed

lemma failed_answer: "login_fits c \<Longrightarrow> call_answered p SSH_AUTH_ERROR c" "login_fits c \<Longrightarrow> call_answered p SSH_AUTH_DENIED c"
  by (simp_all add: call_answered_def)

lemma send_packet_login:
  assumes "pk env = client_env lib" and "client (sess c)"
  shows "login (snd (send_packet env c)) = login c" "login_view (sess (snd (send_packet env c))) = login_view (sess c)"
  using login_sent.send_blind [of "sess c" lib] assms by (simp_all add: send_packet_def login_view_def split_def Let_def)

lemma request_result:
  assumes "polled_by_events m z env" and "pk env = client_env lib" and "client (sess c)" and "send_auth_request env st call c = Some (rc, c')"
    and "st \<in> call_states call" and "st \<noteq> SSH_AUTH_STATE_SUCCESS" and "st \<noteq> SSH_AUTH_STATE_INFO"
  shows "call_answered call rc c'"
proof -
  let ?c = "set_login (\<lambda>l. l\<lparr>pending_call := call\<rparr>) (set_auth_state st c)"
  obtain r c1 where s: "send_packet env ?c = (r, c1)" by fastforce
  have "client (sess ?c)" using assms(3) by simp
  note p = send_packet_login [OF assms(2) this]
  have l: "login c1 = login ?c" "login_view (sess c1) = login_view (sess ?c)" using p s by simp_all
  have "login_fits ?c" using assms(3,5,6,7) by (simp add: login_fits_def)
  then have f: "login_fits c1" using fits_same [OF l] by simp
  show ?thesis
  proof (cases "r = SSH_ERROR")
    case True
    then show ?thesis using assms(4) s f failed_answer(1) [OF f, of call] by (auto simp: send_auth_request_def)
  next
    case False
    then have "answer_pending env c1 = Some (rc, c')" using assms(4) s by (simp add: send_auth_request_def)
    then show ?thesis using answer_result [OF assms(1) f] l(1) by simp
  qed
qed

lemma service_fits:
  assumes "polled_by_events m z env" and "pk env = client_env lib" and "login_fits c" and "ssh_userauth_request_service env c = Some (rc, c')"
  shows "login_fits c' \<and> pending_call (login c') = pending_call (login c)"
proof -
  have wait: "login_fits c2 \<and> pending_call (login c2) = pending_call (login c1)" if "service_pending env c1 = Some (r, c2)" "login_fits c1" for r c1 c2
    using that wait_fits [OF assms(1) that(2)] by (auto simp: service_pending_def bind_eq_Some_conv split: if_splits)
  show ?thesis
  proof (cases "auth_service_state (sess c) = SSH_AUTH_SERVICE_NONE")
    case True
    obtain r c1 where p: "pack_out env ''bs'' [VA_int 5, VA_cstring (bytes_of ''ssh-userauth'')] c = (r, c1)" by fastforce
    have c1: "login c1 = login c" "login_view (sess c1) = login_view (sess c)"
      using p by (auto simp: pack_out_def with_sess_def split: option.splits prod.splits)
    let ?c = "with_sess (\<lambda>s. s\<lparr>auth_service_state := SSH_AUTH_SERVICE_SENT\<rparr>) c1"
    obtain r2 c2 where s: "send_packet env ?c = (r2, c2)" by fastforce
    have u: "login ?c = login c" "login_view (sess ?c) = login_view (sess c)" using c1 by (simp_all add: with_sess_def login_view_def authenticated_def)
    then have "client (sess ?c)" using assms(3) client_view by (auto simp: login_fits_def)
    from send_packet_login [OF assms(2) this] have c2: "login c2 = login c" "login_view (sess c2) = login_view (sess c)" using s u by simp_all
    then have f2: "login_fits c2" "login_fits c1" using assms(3) fits_same c1 by blast+
    show ?thesis
      using assms(4) True p s f2 c1 c2 wait [OF _ f2(1)]
      by (auto simp: ssh_userauth_request_service_def ssh_service_request_def split: if_splits)
  next
    case False
    then show ?thesis using assms(4) wait [OF _ assms(3)] by (simp add: ssh_userauth_request_service_def ssh_service_request_def)
  qed
qed

lemma begin_result:
  assumes "polled_by_events m z env" and "pk env = client_env lib" and "login_fits c" and "begin_call env call request c = Some (rc, c')"
    and "\<And>d rc c'. login_fits d \<Longrightarrow> pending_call (login d) = SSH_PENDING_CALL_NONE \<Longrightarrow> request d = Some (rc, c') \<Longrightarrow> call_answered call rc c'"
  shows "call_answered call rc c'"
proof -
  consider (again) "pending_call (login c) = call" | (other) "pending_call (login c) \<noteq> call" "pending_call (login c) \<noteq> SSH_PENDING_CALL_NONE"
    | (first) "pending_call (login c) \<noteq> call" "pending_call (login c) = SSH_PENDING_CALL_NONE" by blast
  then show ?thesis
  proof cases
    case again
    then show ?thesis using answer_result [OF assms(1,3)] assms(4) by (simp add: begin_call_def)
  next
    case other
    then show ?thesis using assms(4) failed_answer(1) [OF assms(3), of call] by (auto simp: begin_call_def)
  next
    case first
    then obtain r c1 where s: "ssh_userauth_request_service env c = Some (r, c1)"
      using assms(4) by (auto simp: begin_call_def bind_eq_Some_conv)
    note f = service_fits [OF assms(1,2,3) s]
    then have "call_answered call SSH_AUTH_AGAIN c1" "call_answered call SSH_AUTH_ERROR c1" using first by (simp_all add: call_answered_def)
    then show ?thesis using assms(4) first s f assms(5) [of c1] by (auto simp: begin_call_def split: if_splits)
  qed
qed

section \<open>The calls\<close>

lemma pack_login:
  assumes "pack_out env format args c = (rc, c')"
  shows "login c' = login c \<and> login_view (sess c') = login_view (sess c)"
  using assms by (auto simp: pack_out_def with_sess_def split: option.splits prod.splits)

lemma reinit_fits: "login_fits (reinit_out env c) = login_fits c"
  by (rule fits_same) (simp_all add: reinit_out_def with_sess_def)

lemma request_failed_answer: "login_fits c \<Longrightarrow> request_failed env c = Some (rc, c') \<Longrightarrow> call_answered p rc c'"
  by (auto simp: request_failed_def reinit_fits failed_answer)

text \<open>What is common to the requests: something is packed, and sent or not.\<close>

lemma packed_result:
  assumes "polled_by_events m z env" and "pk env = client_env lib" and "login_fits c"
    and "login c1 = login c" and "login_view (sess c1) = login_view (sess c)"
    and "(if failed then request_failed env c1 else send_auth_request env st call (f c1)) = Some (rc, c')"
    and "client (sess (f c1)) = client (sess c1)"
    and "st \<in> call_states call" and "st \<noteq> SSH_AUTH_STATE_SUCCESS" and "st \<noteq> SSH_AUTH_STATE_INFO"
  shows "call_answered call rc c'"
proof (cases failed)
  case True
  then show ?thesis using assms(3,4,5,6) fits_same [of c1 c] request_failed_answer by auto
next
  case False
  have "client (sess (f c1))" using assms(3,5,7) client_view by (auto simp: login_fits_def)
  with False show ?thesis using request_result [OF assms(1,2) _ _ assms(8,9,10)] assms(6) by simp
qed

lemma set_method_client [simp]: "client (sess (set_method x c)) = client (sess c)"
  by (simp add: set_method_def)

lemma none_result:
  assumes "polled_by_events m z env" and "pk env = client_env lib" and "login_fits c" and "ssh_userauth_none env u c = Some (rc, c')"
  shows "call_answered SSH_PENDING_CALL_AUTH_NONE rc c'"
proof (rule begin_result [OF assms(1-3) assms(4) [unfolded ssh_userauth_none_def]])
  fix d rc c'
  assume d: "login_fits d"
    and r: "Option.bind (login_name u d) (\<lambda>name.
         let (rc, c1) = pack_out env ''bsss'' (request_head name ''none'') d in
         if rc < 0 then request_failed env c1
         else send_auth_request env SSH_AUTH_STATE_AUTH_NONE_SENT SSH_PENDING_CALL_AUTH_NONE (set_method SSH_AUTH_METHOD_NONE c1)) = Some (rc, c')"
  then obtain name where n: "login_name u d = Some name" by (cases "login_name u d") auto
  obtain x c1 where p: "pack_out env ''bsss'' (request_head name ''none'') d = (x, c1)" by fastforce
  show "call_answered SSH_PENDING_CALL_AUTH_NONE rc c'"
    using r n p pack_login [OF p]
    by (intro packed_result [OF assms(1,2) d, where failed = "x < 0" and f = "set_method SSH_AUTH_METHOD_NONE"]) (auto simp: call_states_def)
qed

lemma secure_view: "login_view (s\<lparr>out_buffer := b\<rparr>) = login_view s" "client (sess (with_sess (\<lambda>s. s\<lparr>out_buffer := g s\<rparr>) c)) = client (sess c)"
  by (simp_all add: with_sess_def)

lemma password_result:
  assumes "polled_by_events m z env" and "pk env = client_env lib" and "login_fits c" and "ssh_userauth_password env u pw c = Some (rc, c')"
  shows "call_answered SSH_PENDING_CALL_AUTH_PASSWORD rc c'"
proof (rule begin_result [OF assms(1-3) assms(4) [unfolded ssh_userauth_password_def]])
  fix d rc c'
  let ?args = "\<lambda>name. request_head name ''password'' @ [VA_int 0, VA_cstring pw]"
  let ?f = "\<lambda>c1. set_method SSH_AUTH_METHOD_PASSWORD (with_sess (\<lambda>s. s\<lparr>out_buffer := ssh_buffer_set_secure (out_buffer s)\<rparr>) c1)"
  assume d: "login_fits d"
    and r: "Option.bind (login_name u d) (\<lambda>name.
         let (rc, c1) = pack_out env ''bsssbs'' (?args name) d in
         if rc < 0 then request_failed env c1
         else send_auth_request env SSH_AUTH_STATE_PASSWORD_AUTH_SENT SSH_PENDING_CALL_AUTH_PASSWORD (?f c1)) = Some (rc, c')"
  then obtain name where n: "login_name u d = Some name" by (cases "login_name u d") auto
  obtain x c1 where p: "pack_out env ''bsssbs'' (?args name) d = (x, c1)" by fastforce
  show "call_answered SSH_PENDING_CALL_AUTH_PASSWORD rc c'"
    using r n p pack_login [OF p]
    by (intro packed_result [OF assms(1,2) d, where failed = "x < 0" and f = ?f]) (auto simp: call_states_def secure_view)
qed

lemma key_request_login:
  assumes "pack_key_request keys env sign u alg key c = Some (rc, c')"
  shows "login c' = login c \<and> login_view (sess c') = login_view (sess c)"
  using assms pack_login by (fastforce simp: pack_key_request_def bind_eq_Some_conv split: option.splits)

lemma try_key_result:
  assumes "polled_by_events m z env" and "pk env = client_env lib" and "login_fits c"
    and "ssh_userauth_try_publickey keys env u k c = Some (rc, c')"
  shows "call_answered SSH_PENDING_CALL_AUTH_OFFER_PUBKEY rc c'"
proof -
  let ?req = "\<lambda>key d. case checked_algorithm keys False key d of
      None \<Rightarrow> Some (SSH_AUTH_DENIED, d)
    | Some alg \<Rightarrow>
        Option.bind (pack_key_request keys env False u alg key d) (\<lambda>(rc, c1).
          if rc < 0 then request_failed env c1
          else send_auth_request env SSH_AUTH_STATE_PUBKEY_OFFER_SENT SSH_PENDING_CALL_AUTH_OFFER_PUBKEY (set_method SSH_AUTH_METHOD_PUBLICKEY c1))"
  have req: "call_answered SSH_PENDING_CALL_AUTH_OFFER_PUBKEY r d'" if d: "login_fits d" and r: "?req key d = Some (r, d')" for key d r d'
  proof (cases "checked_algorithm keys False key d")
    case None
    then show ?thesis using r failed_answer(2) [OF d] by auto
  next
    case (Some alg)
    then obtain x c1 where p: "pack_key_request keys env False u alg key d = Some (x, c1)"
      using r by (auto simp: bind_eq_Some_conv)
    show ?thesis
      using r Some p key_request_login [OF p]
      by (intro packed_result [OF assms(1,2) d, where failed = "x < 0" and f = "set_method SSH_AUTH_METHOD_PUBLICKEY"])
        (auto simp: call_states_def)
  qed
  show ?thesis
  proof (cases "k = None \<or> \<not> key_is_public keys (the k)")
    case True
    then have "rc = SSH_AUTH_ERROR \<and> c' = c" using assms(4) by (cases k) (auto simp: ssh_userauth_try_publickey_def)
    then show ?thesis using failed_answer(1) [OF assms(3)] by simp
  next
    case False
    then obtain key where "k = Some key" "key_is_public keys key" by auto
    then have "ssh_userauth_try_publickey keys env u k c = begin_call env SSH_PENDING_CALL_AUTH_OFFER_PUBKEY (?req key) c"
      by (simp add: ssh_userauth_try_publickey_def)
    with assms(4) have b: "begin_call env SSH_PENDING_CALL_AUTH_OFFER_PUBKEY (?req key) c = Some (rc, c')" by (simp only:)
    show ?thesis by (rule begin_result [OF assms(1-3) b]) (rule req)
  qed
qed

lemma signature_login:
  assumes "add_signature keys env key c = (rc, c')"
  shows "login c' = login c \<and> login_view (sess c') = login_view (sess c)"
  using assms by (auto simp: add_signature_def with_sess_def split: option.splits prod.splits)

lemma key_result:
  assumes "polled_by_events m z env" and "pk env = client_env lib" and "login_fits c"
    and "ssh_userauth_publickey keys env u k c = Some (rc, c')"
  shows "call_answered SSH_PENDING_CALL_AUTH_PUBKEY rc c'"
proof -
  let ?send = "\<lambda>c2. send_auth_request env SSH_AUTH_STATE_PUBKEY_AUTH_SENT SSH_PENDING_CALL_AUTH_PUBKEY (set_method SSH_AUTH_METHOD_PUBLICKEY c2)"
  let ?req = "\<lambda>key d. case checked_algorithm keys True key d of
      None \<Rightarrow> Some (SSH_AUTH_DENIED, d)
    | Some alg \<Rightarrow>
        Option.bind (pack_key_request keys env True u alg key d) (\<lambda>(rc, c1).
          if rc < 0 then request_failed env c1
          else let (rc1, c2) = add_signature keys env key c1 in if rc1 < 0 then request_failed env c2 else ?send c2)"
  have req: "call_answered SSH_PENDING_CALL_AUTH_PUBKEY r d'" if d: "login_fits d" and r: "?req key d = Some (r, d')" for key d r d'
  proof (cases "checked_algorithm keys True key d")
    case None
    then show ?thesis using r failed_answer(2) [OF d] by auto
  next
    case (Some alg)
    then obtain x c1 where p: "pack_key_request keys env True u alg key d = Some (x, c1)"
      using r by (auto simp: bind_eq_Some_conv)
    obtain y c2 where a: "add_signature keys env key c1 = (y, c2)" by fastforce
    note l = key_request_login [OF p] signature_login [OF a]
    show ?thesis
    proof (cases "x < 0")
      case True
      then show ?thesis using r Some p l(1) fits_same [of c1 d] d request_failed_answer [of c1] by auto
    next
      case False
      then show ?thesis
        using r Some p a l
        by (intro packed_result [OF assms(1,2) d, where failed = "y < 0" and f = "set_method SSH_AUTH_METHOD_PUBLICKEY" and ?c1.0 = c2])
          (auto simp: call_states_def)
    qed
  qed
  show ?thesis
  proof (cases "k = None \<or> \<not> key_is_private keys (the k)")
    case True
    then have "rc = SSH_AUTH_ERROR \<and> c' = c" using assms(4) by (cases k) (auto simp: ssh_userauth_publickey_def)
    then show ?thesis using failed_answer(1) [OF assms(3)] by simp
  next
    case False
    then obtain key where "k = Some key" "key_is_private keys key" by auto
    then have "ssh_userauth_publickey keys env u k c = begin_call env SSH_PENDING_CALL_AUTH_PUBKEY (?req key) c"
      by (simp add: ssh_userauth_publickey_def)
    with assms(4) have b: "begin_call env SSH_PENDING_CALL_AUTH_PUBKEY (?req key) c = Some (rc, c')" by (simp only:)
    show ?thesis by (rule begin_result [OF assms(1-3) b]) (rule req)
  qed
qed

lemma pack_answers_login:
  "pack_answers env a i n c = Some (rc, c') \<Longrightarrow> login c' = login c \<and> login_view (sess c') = login_view (sess c)"
proof (induction n arbitrary: i c)
  case (Suc n)
  then obtain x where x: "(case a of None \<Rightarrow> Some None | Some l \<Rightarrow> elem_at (Some l) i) = Some x"
    by (cases "case a of None \<Rightarrow> Some None | Some l \<Rightarrow> elem_at (Some l) i") auto
  obtain r c1 where p: "pack_out env ''s'' [VA_cstring (case x of None \<Rightarrow> [] | Some y \<Rightarrow> y)] c = (r, c1)" by fastforce
  then have "rc = r \<and> c' = c1 \<or> pack_answers env a (Suc i) n c1 = Some (rc, c')" using Suc.prems x by (auto split: if_splits)
  then show ?case using Suc.IH [of "Suc i" c1] pack_login [OF p] by auto
qed simp

lemma kbdint_init_result:
  assumes "polled_by_events m z env" and "pk env = client_env lib" and "login_fits c" and "ssh_userauth_kbdint_init env u sm c = Some (rc, c')"
  shows "call_answered SSH_PENDING_CALL_AUTH_KBDINT_INIT rc c'"
proof -
  let ?p = SSH_PENDING_CALL_AUTH_KBDINT_INIT
  consider (again) "pending_call (login c) = ?p" | (other) "pending_call (login c) \<noteq> ?p" "pending_call (login c) \<noteq> SSH_PENDING_CALL_NONE"
    | (first) "pending_call (login c) \<noteq> ?p" "pending_call (login c) = SSH_PENDING_CALL_NONE" by blast
  then show ?thesis
  proof cases
    case again
    then show ?thesis using answer_result [OF assms(1,3)] assms(4) by (simp add: ssh_userauth_kbdint_init_def)
  next
    case other
    then show ?thesis using assms(4) failed_answer(1) [OF assms(3), of ?p] by (auto simp: ssh_userauth_kbdint_init_def)
  next
    case first
    then obtain r c1 where s: "ssh_userauth_request_service env c = Some (r, c1)"
      using assms(4) by (auto simp: ssh_userauth_kbdint_init_def bind_eq_Some_conv)
    note f = service_fits [OF assms(1,2,3) s]
    then have e: "call_answered ?p SSH_AUTH_AGAIN c1" "call_answered ?p SSH_AUTH_ERROR c1" using first by (simp_all add: call_answered_def)
    show ?thesis
    proof (cases "r = SSH_OK")
      case True
      then obtain name where n: "login_name u c1 = Some name"
        using assms(4) first s by (cases "login_name u c1") (auto simp: ssh_userauth_kbdint_init_def)
      let ?args = "request_head name ''keyboard-interactive'' @ [VA_cstring [], VA_cstring (case sm of None \<Rightarrow> [] | Some x \<Rightarrow> x)]"
      obtain x c2 where p: "pack_out env ''bsssss'' ?args c1 = (x, c2)" by fastforce
      have f1: "login_fits c1" using f by simp
      show ?thesis
        using assms(4) first s True n p pack_login [OF p]
        by (intro packed_result [OF assms(1,2) f1, where failed = "x < 0" and f = "\<lambda>c. c"])
          (auto simp: ssh_userauth_kbdint_init_def call_states_def)
    next
      case False
      then show ?thesis using assms(4) first s e by (auto simp: ssh_userauth_kbdint_init_def split: if_splits)
    qed
  qed
qed

lemma kbdint_send_result:
  assumes "polled_by_events m z env" and "pk env = client_env lib" and "login_fits c" and "ssh_userauth_kbdint_send env c = Some (rc, c')"
  shows "call_answered SSH_PENDING_CALL_AUTH_KBDINT_SEND rc c'"
proof -
  let ?p = SSH_PENDING_CALL_AUTH_KBDINT_SEND
  consider (again) "pending_call (login c) = ?p" | (other) "pending_call (login c) \<noteq> ?p" "pending_call (login c) \<noteq> SSH_PENDING_CALL_NONE"
    | (first) "pending_call (login c) \<noteq> ?p" "pending_call (login c) = SSH_PENDING_CALL_NONE" by blast
  then show ?thesis
  proof cases
    case again
    then show ?thesis using answer_result [OF assms(1,3)] assms(4) by (simp add: ssh_userauth_kbdint_send_def)
  next
    case other
    then show ?thesis using assms(4) failed_answer(1) [OF assms(3), of ?p] by (auto simp: ssh_userauth_kbdint_send_def)
  next
    case first
    then obtain k where k: "kbdint (login c) = Some k"
      using assms(4) by (auto simp: ssh_userauth_kbdint_send_def bind_eq_Some_conv)
    obtain x c1 where p: "pack_out env ''bd'' [VA_int 61, VA_int (nprompts k)] c = (x, c1)" by fastforce
    note l1 = pack_login [OF p]
    show ?thesis
    proof (cases "x < 0")
      case True
      then show ?thesis using assms(3,4) first k p l1 fits_same [of c1 c] request_failed_answer [of c1]
        by (auto simp: ssh_userauth_kbdint_send_def)
    next
      case False
      then obtain y c2 where a: "pack_answers env (kbd_answers k) 0 (unat (nprompts k)) c1 = Some (y, c2)"
        using assms(4) first k p by (auto simp: ssh_userauth_kbdint_send_def bind_eq_Some_conv)
      note l2 = pack_answers_login [OF a]
      let ?f = "\<lambda>c. set_login (\<lambda>l. l\<lparr>kbdint := None\<rparr>) (set_method SSH_AUTH_METHOD_INTERACTIVE c)"
      have r: "(if y < 0 then request_failed env c2 else send_auth_request env SSH_AUTH_STATE_KBDINT_SENT ?p (?f c2)) = Some (rc, c')"
        using assms(4) first k p a False by (auto simp: ssh_userauth_kbdint_send_def bind_eq_Some_conv split: if_splits)
      show ?thesis
        using r l1 l2
        by (intro packed_result [OF assms(1-3), where failed = "y < 0" and f = ?f and ?c1.0 = c2]) (auto simp: call_states_def)
    qed
  qed
qed

lemma kbdint_result:
  assumes "polled_by_events m z env" and "pk env = client_env lib" and "login_fits c" and "ssh_userauth_kbdint env u sm c = Some (rc, c')"
  shows "\<exists>p\<in>{SSH_PENDING_CALL_AUTH_KBDINT_INIT, SSH_PENDING_CALL_AUTH_KBDINT_SEND}. call_answered p rc c'"
proof -
  let ?init = "(pending_call (login c) = SSH_PENDING_CALL_NONE \<and> kbdint (login c) = None) \<or> pending_call (login c) = SSH_PENDING_CALL_AUTH_KBDINT_INIT"
  let ?send = "pending_call (login c) = SSH_PENDING_CALL_AUTH_KBDINT_SEND \<or> kbdint (login c) \<noteq> None"
  show ?thesis
  proof (cases ?init)
    case True
    with assms(4) have "ssh_userauth_kbdint_init env u sm c = Some (rc, c')" by (simp only: ssh_userauth_kbdint_def if_True)
    from kbdint_init_result [OF assms(1-3) this] show ?thesis by blast
  next
    case not_init: False
    show ?thesis
    proof (cases ?send)
      case True
      with not_init assms(4) have "ssh_userauth_kbdint_send env c = Some (rc, c')" by (simp only: ssh_userauth_kbdint_def if_True if_False)
      from kbdint_send_result [OF assms(1-3) this] show ?thesis by blast
    next
      case False
      with not_init assms(4) have "rc = SSH_AUTH_ERROR \<and> c' = c"
        by (simp only: ssh_userauth_kbdint_def if_False option.inject prod.inject)
      moreover have "call_answered SSH_PENDING_CALL_AUTH_KBDINT_INIT SSH_AUTH_ERROR c" by (rule failed_answer(1) [OF assms(3)])
      ultimately show ?thesis by blast
    qed
  qed
qed



section \<open>Evaluation\<close>

text \<open>A server that says yes to whatever is asked.\<close>

definition demo_yes :: "unit conn_env" where
  "demo_yes = (demo_conn_env (\<lambda>_ _ c. Some (SSH_OK, snd (ssh_packet_userauth_success c))))\<lparr>pk := client_env demo_client_lib\<rparr>"

definition demo_asked :: "unit conn" where
  "demo_asked = set_login (\<lambda>l. l\<lparr>pending_call := SSH_PENDING_CALL_AUTH_PASSWORD\<rparr>)
     (demo_conn (demo_sess\<lparr>client := True, auth_state := SSH_AUTH_STATE_PASSWORD_AUTH_SENT, flags := 0\<rparr>) (demo_channel []))"

lemma demo_login:
  "polled_by_events True True demo_yes" "pk demo_yes = client_env demo_client_lib" "login_fits demo_asked"
  by (auto simp: polled_by_events_def demo_yes_def demo_conn_env_def demo_asked_def login_fits_def call_states_def demo_conn_def set_login_def
      intro: Success)

lemma demo_wait: "\<exists>c'. ssh_userauth_password demo_yes None [] demo_asked = Some (SSH_AUTH_SUCCESS, c')"
proof -
  have tm: "wait_timeout SSH_TIMEOUT_USER demo_asked = 0"
    by (simp add: wait_timeout_def ssh_is_blocking_def demo_asked_def)
  have p: "ssh_handle_packets demo_yes 0 demo_asked =
      Some (SSH_OK, snd (ssh_packet_userauth_success (demo_asked\<lparr>rounds := Suc (rounds demo_asked)\<rparr>)))"
    by (simp add: ssh_handle_packets_def demo_yes_def demo_conn_env_def)
  have no: "\<not> ssh_auth_response_termination demo_asked"
    by (simp add: ssh_auth_response_termination_def demo_asked_def)
  have st: "auth_state (sess (snd (ssh_packet_userauth_success c))) = SSH_AUTH_STATE_SUCCESS" for c :: "unit conn"
    using success_view [of c] by (simp add: login_view_def)
  have yes: "ssh_auth_response_termination (snd (ssh_packet_userauth_success c))" for c :: "unit conn"
    by (simp add: ssh_auth_response_termination_def st)
  have "pending_call (login demo_asked) = SSH_PENDING_CALL_AUTH_PASSWORD" by (simp add: demo_asked_def)
  then show ?thesis
    by (simp add: ssh_userauth_password_def begin_call_def answer_pending_def ssh_userauth_get_response_def wait_nonblocking [OF tm] p no yes st
        auth_result_def)
qed


text \<open>A session whose request cannot be queued, as there is no memory while new keys are negotiated.\<close>

definition demo_rekeying :: "unit conn" where
  "demo_rekeying = demo_conn (demo_sess\<lparr>flags := 2, dh_handshake_state := DH_STATE_INIT, out_buffer := demo_buf [50]\<rparr>) (demo_channel [])"

definition demo_no_memory :: "unit conn_env" where
  "demo_no_memory = (demo_conn_env (\<lambda>_ _ c. Some (SSH_OK, c)))\<lparr>pk := demo_packet_env\<lparr>mem := False\<rparr>\<rparr>"


end
