(* ===== verification/Spec2Isabelle.thy ===== *)
theory Spec2Isabelle
  imports
    Url_Code Web_Security Web_Sockets Wifi Control_Safety Device_Main
    Packet_Safety Channel_Safety Ssh_Message Ssh_Base64 Ssh_Token Ssh_Match Ssh_List
    Kex_Wire Kex_Session Client_Safety Client_Banner Login_Safety
begin

text \<open>
  The firmware of an ESP32 that gives a browser a terminal on the SSH servers of a class room.

  \<^bold>\<open>The program.\<close> Three tasks share global variables. The web task (\<open>serverTask\<close>) runs an HTTPS
  server: pages behind a login, buttons that press the computers' power switches, forms for file
  transfer, and two WebSockets, the terminal and the fan speed. The control task
  (\<open>controlTask\<close>) waits for the network, connects to an SSH server and then serves what the web
  task has left in the pending variables. The Arduino task (\<open>loop\<close>) measures the fan. The web
  server is the library \<open>esp32_https_server\<close>, the SSH client the library \<open>libssh\<close>.

  \<^bold>\<open>The application\<close> (\<open>src/src/main.cpp\<close>, \<open>src/src/ssh_functions.cpp\<close>).
  \<open>Web_Auth\<close> models the login: the state is the password and the session store; \<open>Web_App\<close> the
  handlers and routes; \<open>Ws_Clients\<close> and \<open>Web_World\<close> the registries of WebSocket clients and the
  world the web task writes; \<open>Ssh_Console\<close>, \<open>Ssh_Conn\<close> the SSH connection, with live handles as
  sets so that leaks, double frees and uninitialised pointers are visible; \<open>Control\<close> the loop of
  the control task, one iteration a function of what the outside does; \<open>Wifi\<close> the bring-up as a
  step relation; \<open>Device_Main\<close> the settings file and the fan. \<open>Arduino_String\<close> defines the string
  operations the code calls. \<open>Web_Security\<close>, \<open>Web_Sockets\<close> and \<open>Control_Safety\<close> prove what the parts
  guarantee together: who passes the login, that registered handlers are alive, that pointers
  are valid in every reachable state of the control task, in which order commands are served.

  \<^bold>\<open>The web server\<close> (\<open>esp32_https_server\<close>). \<open>Http_Headers\<close>, \<open>Http_Request\<close>, \<open>Http_Resolver\<close>,
  \<open>Ws_Handler\<close> and \<open>Http_Conn\<close> model headers, bodies, routing, WebSocket frames and the state
  machine of a connection (\<open>HTTPConnection::loop\<close>), whose inputs are what the socket delivers.

  \<^bold>\<open>The SSH library\<close> (\<open>LibSSH-ESP32\<close>). \<open>Ssh_Buffer\<close>, \<open>Ssh_String\<close>, \<open>Ssh_Pack\<close> and \<open>Ssh_Message\<close>
  model \<open>buffer.c\<close> and \<open>string.c\<close> with 32-bit arithmetic and prove the buffer to be a queue of
  bytes and packing and unpacking inverse; \<open>Ssh_Base64\<close>, \<open>Ssh_Token\<close>, \<open>Ssh_Match\<close> model
  \<open>base64.c\<close>, \<open>token.c\<close> and \<open>match.c\<close> against reference definitions; \<open>Ssh_List\<close> the linked lists
  of \<open>misc.c\<close> in an explicit heap. \<open>Packet_Filter\<close> models the filter of incoming messages of
  \<open>packet.c\<close> and proves it equal to a table; \<open>Packet_State\<close> the change of keys; \<open>Packet_Crypt\<close>
  (\<open>packet_crypt.c\<close>), \<open>Packet_Send\<close> and \<open>Packet_Recv\<close> the framing, the queue, the reading of packets
  and their dispatch, over a session record whose ciphers are records of functions.
  \<open>Packet_Frame\<close> and \<open>Packet_Stream\<close> follow one packet from a sender to a receiver in step with
  it; \<open>Packet_Safety\<close> proves what the layer promises: packets arrive as they were sent, nothing
  unauthenticated is dispatched, the callback returns, held packets keep their order.

  \<open>Channel_State\<close> to \<open>Channel_Safety\<close> model \<open>channels.c\<close>: a channel is an object on the heap, a map from
  addresses in the session record around it, so that a use after free is visible (the result is
  None). \<open>Session_Wait\<close> is the waiting for packets of \<open>session.c\<close>; a round of polling is a parameter
  that may run any handlers. \<open>Channel_Recv\<close> holds the handlers of messages, \<open>Channel_Send\<close> opening,
  writing and closing, \<open>Channel_Request\<close> requests, \<open>Channel_Read\<close> reading. \<open>Channel_Law\<close> is the interface
  between these operations and a property of single channels: a locale whose laws say what each
  elementary change keeps, with a lemma that every operation and every step of a session keeps it;
  \<open>Channel_Window\<close> interprets it with the bound on windows and buffers. \<open>Channel_Flow\<close> proves a channel
  to be a queue of bytes, \<open>Channel_Write\<close> what a write sends, and \<open>Channel_Safety\<close> follows data from one
  end to the other and shows that waits end, windows are backed and a channel is released once.

  \<open>Kex_Choice\<close> to \<open>Kex_Session\<close> model the key exchange (\<open>kex.c\<close>, \<open>dh.c\<close>, \<open>dh_key.c\<close>, \<open>curve25519.c\<close>,
  \<open>ecdh_mbedcrypto.c\<close>, \<open>kdf.c\<close>, \<open>wrapper.c\<close>). \<open>Kex_State\<close> is its part of the session; \<open>Kex_Choice\<close> has
  the tables of algorithms and the negotiation, \<open>Kex_Offer\<close> what a client offers, \<open>Kex_Cipher\<close> the
  tables of ciphers and MACs; \<open>Kex_Dh\<close> is Diffie-Hellman over big numbers whose operations are
  parameters; \<open>Kex_Lib\<close> the record of what is called from elsewhere (\<open>kex_lib\<close>) and the client's first
  messages; \<open>Kex_Init\<close> sends and receives KEXINIT, and \<open>Kex_Wire\<close> proves that what one side sends the
  other reads back; \<open>Kex_Session\<close> derives the session identifier and the keys and proves that the two
  sides end up with keys that fit each other. \<open>Kex_Demo\<close> is an environment to evaluate them in.

  \<open>Kex_Reply\<close> and \<open>Kex_Client\<close> model the client's connection (\<open>client.c\<close>, \<open>packet_cb.c\<close>, the client's part
  of \<open>dh-gex.c\<close>, \<open>dh.c\<close>, \<open>curve25519.c\<close> and \<open>ecdh.c\<close>): the answers of the key exchange and the group
  exchange; the banners, the function \<open>ssh_client_connection_callback\<close> that moves the session from
  state to state, the messages of the transport and the tables of handlers, tied together in
  \<open>client_env\<close>. \<open>Client_Banner\<close> describes the reading of the banner. \<open>Client_Frame\<close> is a locale of what
  sending a packet leaves alone, interpreted for five views of the session, and \<open>Client_Safety\<close> a
  step relation of a session (data from the socket, the callbacks of the socket, the user's
  messages) with the invariant that a login only follows a verified host key.

  \<open>Login_Kbdint\<close> and \<open>Login\<close> model authentication (\<open>auth.c\<close>): the structure with the questions of a server,
  whose arrays are lists so that an access outside of them is a fault; the messages; and the user's
  calls, which send a request and wait, and are made again when they must not wait. \<open>Login_Frame\<close> uses
  the locale \<open>unsent_view\<close> for the state of the login, and \<open>Login_Safety\<close> lets any handlers run while a
  call waits (\<open>login_event\<close>) and proves what the results of the calls mean.

  \<^bold>\<open>Conventions.\<close> Machine integers are words of their width. A failed allocation is a flag. Faults
  of C (a read of an uninitialised pointer, a write past a block, a use after free) are values of
  a sum type; loops that may not return are partial functions with an option result, and the
  theorems say when they return. What the code calls outside the repository (SHA-256, the
  key-value store, the file system, ciphers, the IP stack, the far end of a connection) is a
  parameter or an input.

  \<^bold>\<open>Not modelled.\<close> Sockets, TLS and polling; the ciphers, the curves, and the arithmetic of big numbers;
  key files and known hosts; the options and configuration files; the server side of the library and
  SFTP, which the device does not use; hardware set-up; incoming channels and
  \<open>ssh_channel_select\<close>; the agent and the automatic choice of a key.
\<close>

end
